(* ===== verification/Prelude.thy ===== *)
theory Prelude
  imports Main "HOL-Library.Word" "HOL-Library.Monad_Syntax"
begin

text \<open>
  Shared vocabulary of the development: the type of runs of a C function, the machine integer
  types, their bounds, and the lemmas on words, lists and association lists that the component
  theories use.

  A value of type \<open>'a run\<close> is what one call of a C function does: \<open>Some r\<close> is a normal return
  with result \<open>r\<close>, \<open>None\<close> is a call with no defined result, because a \<open>TEN_ASSERT\<close> of the
  non-production build failed (the process aborts) or because the call reached behaviour that
  the C standard leaves undefined.
\<close>

section \<open>Runs\<close>

type_synonym 'a run = "'a option"

named_theorems run_simps

definition ten_assert :: "bool \<Rightarrow> unit run" where
  "ten_assert b = (if b then Some () else None)"

lemma ten_assert_True [simp, run_simps]: "ten_assert True = Some ()"
  by (simp add: ten_assert_def)

lemma ten_assert_False [simp, run_simps]: "ten_assert False = None"
  by (simp add: ten_assert_def)

lemma ten_assert_bind_eq_Some [simp]:
  "(ten_assert b \<bind> (\<lambda>_. f)) = Some r \<longleftrightarrow> b \<and> f = Some r"
  by (simp add: ten_assert_def)

section \<open>Machine integers\<close>

type_synonym i8 = "8 word"
type_synonym i16 = "16 word"
type_synonym i32 = "32 word"
type_synonym i64 = "64 word"

abbreviation INT8_MAX :: int where "INT8_MAX \<equiv> 127"
abbreviation INT8_MIN :: int where "INT8_MIN \<equiv> - 128"
abbreviation INT16_MAX :: int where "INT16_MAX \<equiv> 32767"
abbreviation INT16_MIN :: int where "INT16_MIN \<equiv> - 32768"
abbreviation INT32_MAX :: int where "INT32_MAX \<equiv> 2147483647"
abbreviation INT32_MIN :: int where "INT32_MIN \<equiv> - 2147483648"
abbreviation INT64_MAX :: int where "INT64_MAX \<equiv> 9223372036854775807"
abbreviation INT64_MIN :: int where "INT64_MIN \<equiv> - 9223372036854775808"
abbreviation UINT8_MAX :: int where "UINT8_MAX \<equiv> 255"
abbreviation UINT16_MAX :: int where "UINT16_MAX \<equiv> 65535"
abbreviation UINT32_MAX :: int where "UINT32_MAX \<equiv> 4294967295"
abbreviation UINT64_MAX :: int where "UINT64_MAX \<equiv> 18446744073709551615"

text \<open>
  The value of a C integer cast, read back as a mathematical integer, is the source value when
  that value is in the range of the target type.
\<close>

lemma sint_scast_in_range:
  fixes w :: "'a::len word"
  assumes "- (2 ^ (LENGTH('b::len) - 1)) \<le> sint w" and "sint w < 2 ^ (LENGTH('b) - 1)"
  shows "sint (scast w :: 'b word) = sint w"
proof -
  have "sint (scast w :: 'b word) = signed_take_bit (LENGTH('b) - 1) (sint w)"
    by (metis of_int_sint sint_sbintrunc')
  then show ?thesis
    using assms by (simp add: signed_take_bit_int_eq_self)
qed

lemma sint_ucast_in_range:
  fixes w :: "'a::len word"
  assumes "uint w < 2 ^ (LENGTH('b::len) - 1)"
  shows "sint (ucast w :: 'b word) = uint w"
proof -
  have "sint (ucast w :: 'b word) = signed_take_bit (LENGTH('b) - 1) (uint w)"
    by (metis of_int_uint sint_sbintrunc')
  moreover have "- (2 ^ (LENGTH('b) - 1)) \<le> uint w"
    by (rule order_trans [of _ 0]) simp_all
  ultimately show ?thesis
    using assms by (simp add: signed_take_bit_int_eq_self)
qed

lemma uint_scast_in_range:
  fixes w :: "'a::len word"
  assumes "0 \<le> sint w" and "sint w < 2 ^ LENGTH('b::len)"
  shows "uint (scast w :: 'b word) = sint w"
proof -
  have "uint (scast w :: 'b word) = take_bit LENGTH('b) (sint w)"
    by (metis of_int_sint uint_word_of_int_eq)
  then show ?thesis
    using assms by (simp add: take_bit_int_eq_self)
qed

lemma uint_ucast_in_range:
  fixes w :: "'a::len word"
  assumes "uint w < 2 ^ LENGTH('b::len)"
  shows "uint (ucast w :: 'b word) = uint w"
  using assms by (simp add: unsigned_ucast_eq take_bit_int_eq_self)

text \<open>A cast between types of one width only changes the reading.\<close>

lemma sint_eq_uint_in_range:
  fixes w :: "'a::len word"
  shows "uint w < 2 ^ (LENGTH('a) - 1) \<Longrightarrow> sint w = uint w"
  using sint_ucast_in_range [of w, where 'b = 'a] by simp

lemma uint_eq_sint_in_range:
  fixes w :: "'a::len word"
  shows "0 \<le> sint w \<Longrightarrow> sint w < 2 ^ LENGTH('a) \<Longrightarrow> uint w = sint w"
  using uint_scast_in_range [of w, where 'b = 'a] by simp

lemmas cast_in_range =
  sint_scast_in_range sint_ucast_in_range uint_scast_in_range uint_ucast_in_range

lemma sint_bounds:
  fixes w :: "'a::len word"
  shows "- (2 ^ (LENGTH('a) - 1)) \<le> sint w" and "sint w < 2 ^ (LENGTH('a) - 1)"
  using sint_greater_eq [of w] sint_less [of w] by simp_all

lemma uint_bounds:
  fixes w :: "'a::len word"
  shows "0 \<le> uint w" and "uint w < 2 ^ LENGTH('a)"
  by (simp_all add: uint_lt2p)

section \<open>Association lists\<close>

text \<open>Objects keep their members in a list; only the first entry of a key is ever read.\<close>

fun alist_update :: "('k \<times> 'v) list \<Rightarrow> 'k \<Rightarrow> 'v \<Rightarrow> ('k \<times> 'v) list" where
  "alist_update [] k v = [(k, v)]"
| "alist_update ((k', v') # xs) k v =
     (if k' = k then (k', v) # xs else (k', v') # alist_update xs k v)"

lemma map_of_alist_update [simp]: "map_of (alist_update xs k v) = (map_of xs)(k \<mapsto> v)"
  by (induction xs k v rule: alist_update.induct) auto

lemma keys_alist_update:
  "map fst (alist_update xs k v) =
     (if k \<in> fst ` set xs then map fst xs else map fst xs @ [k])"
  by (induction xs k v rule: alist_update.induct) auto

lemma distinct_alist_update [simp]:
  "distinct (map fst xs) \<Longrightarrow> distinct (map fst (alist_update xs k v))"
  by (auto simp: keys_alist_update)

section \<open>Decimal text\<close>

text \<open>\<open>printf\<close> with \<open>%zu\<close>, and the reading of a run of digits by \<open>strtol\<close>.\<close>

definition digit_char :: "nat \<Rightarrow> char" where
  "digit_char d = char_of (48 + d)"

definition is_digit :: "char \<Rightarrow> bool" where
  "is_digit c \<longleftrightarrow> 48 \<le> (of_char c :: nat) \<and> (of_char c :: nat) \<le> 57"

definition digit_value :: "char \<Rightarrow> nat" where
  "digit_value c = of_char c - 48"

fun show_nat :: "nat \<Rightarrow> string" where
  "show_nat n = (if n < 10 then [digit_char n] else show_nat (n div 10) @ [digit_char (n mod 10)])"

declare show_nat.simps [simp del]

definition read_digits :: "string \<Rightarrow> nat" where
  "read_digits ds = foldl (\<lambda>a c. 10 * a + digit_value c) 0 ds"

lemma of_digit_char: "d < 10 \<Longrightarrow> (of_char (digit_char d) :: nat) = 48 + d"
  by (simp add: digit_char_def)

lemma is_digit_digit_char [simp]: "d < 10 \<Longrightarrow> is_digit (digit_char d)"
  by (simp add: is_digit_def of_digit_char)

lemma digit_value_digit_char [simp]: "d < 10 \<Longrightarrow> digit_value (digit_char d) = d"
  by (simp add: digit_value_def of_digit_char)

lemma show_nat_digits: "c \<in> set (show_nat n) \<Longrightarrow> is_digit c"
proof (induction n rule: show_nat.induct)
  case (1 n)
  then show ?case
    by (auto simp: show_nat.simps [of n] split: if_splits)
qed

lemma show_nat_nonempty [simp]: "show_nat n \<noteq> []"
  by (subst show_nat.simps) simp

lemma read_digits_show_nat [simp]: "read_digits (show_nat n) = n"
proof (induction n rule: show_nat.induct)
  case (1 n)
  then show ?case
    by (subst show_nat.simps) (auto simp: read_digits_def)
qed

end
