(* ===== verification/Ten_Error.thy ===== *)
theory Ten_Error
  imports Prelude
begin

text \<open>
  The error object \<open>ten_error_t\<close> of \<open>lib/sys/general/error.c\<close>: an error code, where 0 is
  success, and a message. Format strings are applied by the callers' models, so a setter takes
  the formatted text. The signature word, which the integrity checks compare, has no state of
  its own and is left out throughout the development.
\<close>

record ten_error =
  error_code :: int
  error_message :: string

abbreviation (input) TEN_ERROR_CODE_OK :: int where "TEN_ERROR_CODE_OK \<equiv> 0"
abbreviation (input) TEN_ERROR_CODE_GENERIC :: int where "TEN_ERROR_CODE_GENERIC \<equiv> 1"
abbreviation (input) TEN_ERROR_CODE_INVALID_ARGUMENT :: int where "TEN_ERROR_CODE_INVALID_ARGUMENT \<equiv> 3"
abbreviation (input) TEN_ERROR_CODE_VALUE_NOT_FOUND :: int where "TEN_ERROR_CODE_VALUE_NOT_FOUND \<equiv> 100000"

definition ten_error_init :: ten_error where
  "ten_error_init = \<lparr>error_code = TEN_ERROR_CODE_OK, error_message = []\<rparr>"

definition ten_error_copy :: "ten_error \<Rightarrow> ten_error \<Rightarrow> ten_error" where
  "ten_error_copy self other =
     self\<lparr>error_code := error_code other, error_message := error_message other\<rparr>"

definition ten_error_prepend_error_message :: "ten_error \<Rightarrow> string \<Rightarrow> ten_error" where
  "ten_error_prepend_error_message self s = self\<lparr>error_message := s @ error_message self\<rparr>"

definition ten_error_append_error_message :: "ten_error \<Rightarrow> string \<Rightarrow> ten_error" where
  "ten_error_append_error_message self s = self\<lparr>error_message := error_message self @ s\<rparr>"

definition ten_error_vset :: "ten_error \<Rightarrow> int \<Rightarrow> string \<Rightarrow> ten_error" where
  "ten_error_vset self code s = self\<lparr>error_code := code, error_message := s\<rparr>"

definition ten_error_set :: "ten_error \<Rightarrow> int \<Rightarrow> string \<Rightarrow> ten_error" where
  "ten_error_set self code s = ten_error_vset self code s"

definition ten_error_set_error_code :: "ten_error \<Rightarrow> int \<Rightarrow> ten_error" where
  "ten_error_set_error_code self code = self\<lparr>error_code := code\<rparr>"

definition ten_error_set_error_message :: "ten_error \<Rightarrow> string \<Rightarrow> ten_error" where
  "ten_error_set_error_message self s = self\<lparr>error_message := s\<rparr>"

definition ten_error_reset :: "ten_error \<Rightarrow> ten_error" where
  "ten_error_reset self = self\<lparr>error_code := TEN_ERROR_CODE_OK, error_message := []\<rparr>"

definition ten_error_is_success :: "ten_error \<Rightarrow> bool" where
  "ten_error_is_success self \<longleftrightarrow> error_code self = TEN_ERROR_CODE_OK"

lemmas ten_error_defs = ten_error_init_def ten_error_copy_def ten_error_prepend_error_message_def
  ten_error_append_error_message_def ten_error_vset_def ten_error_set_def
  ten_error_set_error_code_def ten_error_set_error_message_def ten_error_reset_def
  ten_error_is_success_def

text \<open>Setting an error forgets what the object held, so the result does not depend on it.\<close>

lemma ten_error_set_eq [simp]:
  "ten_error_set self code s = \<lparr>error_code = code, error_message = s\<rparr>"
  by (simp add: ten_error_defs)

lemma ten_error_reset_eq [simp]: "ten_error_reset self = ten_error_init"
  by (simp add: ten_error_defs)

lemma ten_error_is_success_init [simp]: "ten_error_is_success ten_error_init"
  by (simp add: ten_error_defs)

end
