(* ===== verification/Ten_Type.thy ===== *)
theory Ten_Type
  imports Prelude
begin

text \<open>
  The type tags of values (\<open>TEN_TYPE\<close> of \<open>value/type.h\<close>), their names
  (\<open>ten_types_info\<close> of \<open>value/type_info.h\<close>) and the compatibility relation of
  \<open>value/type.c\<close>, which every conversion and the schema checks go through.
\<close>

datatype ten_type =
    TEN_TYPE_INVALID
  | TEN_TYPE_NULL
  | TEN_TYPE_BOOL
  | TEN_TYPE_INT8
  | TEN_TYPE_INT16
  | TEN_TYPE_INT32
  | TEN_TYPE_INT64
  | TEN_TYPE_UINT8
  | TEN_TYPE_UINT16
  | TEN_TYPE_UINT32
  | TEN_TYPE_UINT64
  | TEN_TYPE_FLOAT32
  | TEN_TYPE_FLOAT64
  | TEN_TYPE_STRING
  | TEN_TYPE_BUF
  | TEN_TYPE_ARRAY
  | TEN_TYPE_OBJECT
  | TEN_TYPE_PTR

fun ten_types_info :: "ten_type \<Rightarrow> string option" where
  "ten_types_info TEN_TYPE_INVALID = None"
| "ten_types_info TEN_TYPE_NULL = Some ''null''"
| "ten_types_info TEN_TYPE_BOOL = Some ''bool''"
| "ten_types_info TEN_TYPE_INT8 = Some ''int8''"
| "ten_types_info TEN_TYPE_INT16 = Some ''int16''"
| "ten_types_info TEN_TYPE_INT32 = Some ''int32''"
| "ten_types_info TEN_TYPE_INT64 = Some ''int64''"
| "ten_types_info TEN_TYPE_UINT8 = Some ''uint8''"
| "ten_types_info TEN_TYPE_UINT16 = Some ''uint16''"
| "ten_types_info TEN_TYPE_UINT32 = Some ''uint32''"
| "ten_types_info TEN_TYPE_UINT64 = Some ''uint64''"
| "ten_types_info TEN_TYPE_FLOAT32 = Some ''float32''"
| "ten_types_info TEN_TYPE_FLOAT64 = Some ''float64''"
| "ten_types_info TEN_TYPE_ARRAY = Some ''array''"
| "ten_types_info TEN_TYPE_OBJECT = Some ''object''"
| "ten_types_info TEN_TYPE_PTR = Some ''ptr''"
| "ten_types_info TEN_TYPE_STRING = Some ''string''"
| "ten_types_info TEN_TYPE_BUF = Some ''buf''"

text \<open>The loop bound of \<open>ten_type_from_string\<close>: the table has one row per enumerator.\<close>

definition ten_types :: "ten_type list" where
  "ten_types =
     [TEN_TYPE_INVALID, TEN_TYPE_NULL, TEN_TYPE_BOOL, TEN_TYPE_INT8, TEN_TYPE_INT16,
      TEN_TYPE_INT32, TEN_TYPE_INT64, TEN_TYPE_UINT8, TEN_TYPE_UINT16, TEN_TYPE_UINT32,
      TEN_TYPE_UINT64, TEN_TYPE_FLOAT32, TEN_TYPE_FLOAT64, TEN_TYPE_STRING, TEN_TYPE_BUF,
      TEN_TYPE_ARRAY, TEN_TYPE_OBJECT, TEN_TYPE_PTR]"

fun ten_type_from_string_loop :: "ten_type list \<Rightarrow> string \<Rightarrow> ten_type" where
  "ten_type_from_string_loop [] type_str = TEN_TYPE_INVALID"
| "ten_type_from_string_loop (t # ts) type_str =
     (case ten_types_info t of
        Some name \<Rightarrow> if type_str = name then t else ten_type_from_string_loop ts type_str
      | None \<Rightarrow> ten_type_from_string_loop ts type_str)"

definition ten_type_from_string :: "string \<Rightarrow> ten_type" where
  "ten_type_from_string type_str = ten_type_from_string_loop ten_types type_str"

text \<open>
  \<open>ten_type_to_string\<close> returns the name pointer of the table, which is null for the invalid
  tag; the callers print it with \<open>%s\<close>, which glibc renders as \<open>(null)\<close>.
\<close>

definition ten_type_to_string :: "ten_type \<Rightarrow> string option" where
  "ten_type_to_string t = ten_types_info t"

definition fmt_type :: "ten_type \<Rightarrow> string" where
  "fmt_type t = (case ten_type_to_string t of None \<Rightarrow> ''(null)'' | Some s \<Rightarrow> s)"

fun TEN_IS_INTEGER_TYPE :: "ten_type \<Rightarrow> bool" where
  "TEN_IS_INTEGER_TYPE t \<longleftrightarrow>
     t = TEN_TYPE_INT8 \<or> t = TEN_TYPE_UINT8 \<or> t = TEN_TYPE_INT16 \<or> t = TEN_TYPE_UINT16 \<or>
     t = TEN_TYPE_INT32 \<or> t = TEN_TYPE_UINT32 \<or> t = TEN_TYPE_INT64 \<or> t = TEN_TYPE_UINT64"

fun TEN_IS_FLOAT_TYPE :: "ten_type \<Rightarrow> bool" where
  "TEN_IS_FLOAT_TYPE t \<longleftrightarrow> t = TEN_TYPE_FLOAT32 \<or> t = TEN_TYPE_FLOAT64"

definition ten_type_is_compatible :: "ten_type \<Rightarrow> ten_type \<Rightarrow> bool" where
  "ten_type_is_compatible actual expected =
     (if actual = TEN_TYPE_INVALID \<or> expected = TEN_TYPE_INVALID then False
      else if actual = expected then True
      else if TEN_IS_INTEGER_TYPE expected then TEN_IS_INTEGER_TYPE actual
      else if TEN_IS_FLOAT_TYPE expected then TEN_IS_INTEGER_TYPE actual \<or> TEN_IS_FLOAT_TYPE actual
      else (case expected of
              TEN_TYPE_BOOL \<Rightarrow> actual = TEN_TYPE_BOOL
            | TEN_TYPE_PTR \<Rightarrow> actual = TEN_TYPE_PTR
            | TEN_TYPE_STRING \<Rightarrow> actual = TEN_TYPE_STRING
            | TEN_TYPE_ARRAY \<Rightarrow> actual = TEN_TYPE_ARRAY
            | TEN_TYPE_OBJECT \<Rightarrow> actual = TEN_TYPE_OBJECT
            | TEN_TYPE_BUF \<Rightarrow> actual = TEN_TYPE_BUF
            | TEN_TYPE_NULL \<Rightarrow> actual = TEN_TYPE_NULL
            | _ \<Rightarrow> False))"

lemma ten_types_info_inj: "ten_types_info t = Some s \<Longrightarrow> ten_types_info u = Some s \<Longrightarrow> t = u"
  by (cases t; cases u; force)

lemma ten_types_complete: "t \<in> set ten_types"
  by (cases t) (simp_all add: ten_types_def)

lemma ten_type_from_string_loop_eq:
  assumes "t \<in> set ts" and "ten_types_info t = Some s"
  shows "ten_type_from_string_loop ts s = t"
  using assms(1)
proof (induction ts)
  case Nil
  then show ?case by simp
next
  case (Cons u us)
  show ?case
  proof (cases "u = t")
    case True
    then show ?thesis using assms(2) by simp
  next
    case False
    then have "ten_types_info u \<noteq> Some s"
      using assms(2) ten_types_info_inj by blast
    then show ?thesis
      using Cons False by (auto split: option.splits)
  qed
qed

lemma ten_type_from_string_loop_range:
  "ten_type_from_string_loop ts s = t \<Longrightarrow> t = TEN_TYPE_INVALID \<or> ten_types_info t = Some s"
  by (induction ts) (auto split: option.splits if_splits)

text \<open>The compatibility relation, branch by branch.\<close>

lemma ten_type_is_compatible_iff:
  "ten_type_is_compatible a e \<longleftrightarrow>
     a \<noteq> TEN_TYPE_INVALID \<and> e \<noteq> TEN_TYPE_INVALID \<and>
     (a = e \<or> TEN_IS_INTEGER_TYPE a \<and> TEN_IS_INTEGER_TYPE e \<or>
      (TEN_IS_INTEGER_TYPE a \<or> TEN_IS_FLOAT_TYPE a) \<and> TEN_IS_FLOAT_TYPE e)"
  by (cases e) (auto simp: ten_type_is_compatible_def)

lemma ten_type_is_compatible_refl:
  "t \<noteq> TEN_TYPE_INVALID \<Longrightarrow> ten_type_is_compatible t t"
  by (simp add: ten_type_is_compatible_iff)

lemma ten_type_is_compatible_trans:
  "ten_type_is_compatible a b \<Longrightarrow> ten_type_is_compatible b c \<Longrightarrow> ten_type_is_compatible a c"
  by (auto simp: ten_type_is_compatible_iff)

section \<open>Properties\<close>

text \<open>The name table is a bijection between the valid types and their names:
  \<open>ten_type_from_string\<close> inverts \<open>ten_type_to_string\<close>, and a string that names no type is
  parsed as the invalid type, which has no name.\<close>

theorem type_name_roundtrip:
  "ten_type_to_string t = Some s \<longleftrightarrow> t \<noteq> TEN_TYPE_INVALID \<and> ten_type_from_string s = t"
proof
  assume "ten_type_to_string t = Some s"
  then show "t \<noteq> TEN_TYPE_INVALID \<and> ten_type_from_string s = t"
    by (auto simp: ten_type_to_string_def ten_type_from_string_def ten_types_complete
        intro: ten_type_from_string_loop_eq)
next
  assume "t \<noteq> TEN_TYPE_INVALID \<and> ten_type_from_string s = t"
  then show "ten_type_to_string t = Some s"
    using ten_type_from_string_loop_range [of ten_types s t]
    by (auto simp: ten_type_to_string_def ten_type_from_string_def)
qed



end
