(* ===== verification/Ten_Float.thy ===== *)
theory Ten_Float
  imports Prelude
begin

text \<open>
  The binary floating point numbers of C (\<open>float\<close> is binary32, \<open>double\<close> is binary64), as far as
  the value component uses them: conversion from integers with rounding to nearest, ties to even;
  narrowing of a double; truncation to an integer; comparison. A finite non-zero number is
  \<open>FP_Fin m e\<close> with an odd significand \<open>m\<close> and value \<open>m * 2 ^ e\<close>, so equal numbers are equal
  terms. Both formats share the type; a \<open>float\<close> is a number that \<open>fp_round\<close> with the parameters
  of binary32 leaves unchanged, so widening to \<open>double\<close> is the identity.
\<close>

datatype cfp =
    FP_NaN
  | FP_Inf bool        \<comment> \<open>the sign is negative\<close>
  | FP_Zero bool       \<comment> \<open>the sign is negative\<close>
  | FP_Fin int int     \<comment> \<open>odd significand and exponent\<close>

section \<open>Normal form and rounding\<close>

function fp_norm :: "int \<Rightarrow> int \<Rightarrow> cfp" where
  "fp_norm m e =
     (if m = 0 then FP_Zero False
      else if even m then fp_norm (m div 2) (e + 1)
      else FP_Fin m e)"
  by pat_completeness auto
termination
  by (relation "measure (\<lambda>(m, e). nat \<bar>m\<bar>)") auto

declare fp_norm.simps [simp del]

fun nbits :: "nat \<Rightarrow> nat" where
  "nbits n = (if n = 0 then 0 else Suc (nbits (n div 2)))"

declare nbits.simps [simp del]

definition round_half_even :: "int \<Rightarrow> nat \<Rightarrow> int" where
  "round_half_even m k =
     (let q = m div 2 ^ k; r = m mod 2 ^ k; h = 2 ^ (k - 1)
      in if r < h \<or> (r = h \<and> even q) then q else q + 1)"

text \<open>A magnitude of \<open>2 ^ emax\<close> or more overflows to an infinity.\<close>

fun fp_clamp :: "int \<Rightarrow> cfp \<Rightarrow> cfp" where
  "fp_clamp emax (FP_Fin m e) =
     (if emax < int (nbits (nat \<bar>m\<bar>)) + e then FP_Inf (m < 0) else FP_Fin m e)"
| "fp_clamp emax x = x"

text \<open>Round to \<open>p\<close> significant bits, with no bit below \<open>2 ^ emin\<close>.\<close>

fun fp_round :: "int \<Rightarrow> int \<Rightarrow> int \<Rightarrow> cfp \<Rightarrow> cfp" where
  "fp_round p emin emax (FP_Fin m e) =
     (let k = max (int (nbits (nat \<bar>m\<bar>)) - p) (emin - e)
      in if k \<le> 0 then fp_clamp emax (FP_Fin m e)
         else let q = round_half_even m (nat k)
              in if q = 0 then FP_Zero (m < 0) else fp_clamp emax (fp_norm q (e + k)))"
| "fp_round p emin emax x = x"

definition to_float32 :: "cfp \<Rightarrow> cfp" where
  "to_float32 x = fp_round 24 (- 149) 128 x"

definition to_float64 :: "cfp \<Rightarrow> cfp" where
  "to_float64 x = fp_round 53 (- 1074) 1024 x"

definition fp_of_int :: "int \<Rightarrow> cfp" where
  "fp_of_int n = fp_norm n 0"

definition int_to_float32 :: "int \<Rightarrow> cfp" where
  "int_to_float32 n = to_float32 (fp_of_int n)"

definition int_to_float64 :: "int \<Rightarrow> cfp" where
  "int_to_float64 n = to_float64 (fp_of_int n)"

definition FLT_MAX :: cfp where
  "FLT_MAX = FP_Fin 16777215 104"

section \<open>Truncation and comparison\<close>

fun fp_trunc :: "cfp \<Rightarrow> int option" where
  "fp_trunc (FP_Fin m e) =
     Some (if 0 \<le> e then m * 2 ^ nat e else sgn m * (\<bar>m\<bar> div 2 ^ nat (- e)))"
| "fp_trunc (FP_Zero s) = Some 0"
| "fp_trunc (FP_Inf s) = None"
| "fp_trunc FP_NaN = None"

text \<open>
  The cast to an integer type with range \<open>lo..hi\<close> truncates; when the truncated value is out of
  range C leaves the result undefined, and \<open>oor\<close> stands for what the host delivers.
\<close>

definition c_float_to_int :: "int \<Rightarrow> int \<Rightarrow> int \<Rightarrow> cfp \<Rightarrow> int" where
  "c_float_to_int oor lo hi x =
     (case fp_trunc x of
        Some n \<Rightarrow> if lo \<le> n \<and> n \<le> hi then n else oor
      | None \<Rightarrow> oor)"

definition fin_le :: "int \<Rightarrow> int \<Rightarrow> int \<Rightarrow> int \<Rightarrow> bool" where
  "fin_le m e m' e' \<longleftrightarrow> m * 2 ^ nat (e - min e e') \<le> m' * 2 ^ nat (e' - min e e')"

fun fp_le :: "cfp \<Rightarrow> cfp \<Rightarrow> bool" where
  "fp_le FP_NaN y = False"
| "fp_le x FP_NaN = False"
| "fp_le (FP_Inf True) y = True"
| "fp_le (FP_Inf False) y = (y = FP_Inf False)"
| "fp_le x (FP_Inf s) = (\<not> s)"
| "fp_le (FP_Zero _) (FP_Zero _) = True"
| "fp_le (FP_Zero _) (FP_Fin m e) = (0 \<le> m)"
| "fp_le (FP_Fin m e) (FP_Zero _) = (m \<le> 0)"
| "fp_le (FP_Fin m e) (FP_Fin m' e') = fin_le m e m' e'"

definition fp_lt :: "cfp \<Rightarrow> cfp \<Rightarrow> bool" where
  "fp_lt x y \<longleftrightarrow> x \<noteq> FP_NaN \<and> y \<noteq> FP_NaN \<and> \<not> fp_le y x"

definition fp_eq :: "cfp \<Rightarrow> cfp \<Rightarrow> bool" where
  "fp_eq x y \<longleftrightarrow> fp_le x y \<and> fp_le y x"

definition fp_ge :: "cfp \<Rightarrow> cfp \<Rightarrow> bool" where
  "fp_ge x y \<longleftrightarrow> fp_le y x"

fun fp_neg :: "cfp \<Rightarrow> cfp" where
  "fp_neg FP_NaN = FP_NaN"
| "fp_neg (FP_Inf s) = FP_Inf (\<not> s)"
| "fp_neg (FP_Zero s) = FP_Zero (\<not> s)"
| "fp_neg (FP_Fin m e) = FP_Fin (- m) e"

text \<open>\<open>ldexp (1.0, k)\<close> of \<open>math.h\<close> for the exponents in use.\<close>

definition ldexp1 :: "nat \<Rightarrow> cfp" where
  "ldexp1 k = FP_Fin 1 (int k)"

section \<open>Exactness\<close>

lemma nbits_le_iff: "nbits n \<le> k \<longleftrightarrow> n < 2 ^ k"
proof (induction n arbitrary: k rule: nbits.induct)
  case (1 n)
  show ?case
  proof (cases "n = 0")
    case True
    then show ?thesis by (simp add: nbits.simps)
  next
    case False
    show ?thesis
    proof (cases k)
      case 0
      with False show ?thesis by (simp add: nbits.simps [of n])
    next
      case (Suc j)
      then show ?thesis
        using False 1 [of j] by (auto simp: nbits.simps [of n])
    qed
  qed
qed

lemma fp_norm_spec:
  "m \<noteq> 0 \<Longrightarrow> \<exists>m' j. fp_norm m e = FP_Fin m' (e + int j) \<and> m = m' * 2 ^ j \<and> odd m'"
proof (induction m e rule: fp_norm.induct)
  case (1 m e)
  show ?case
  proof (cases "even m")
    case True
    with 1 have "m div 2 \<noteq> 0" by auto
    with 1 True obtain m' j where
      "fp_norm (m div 2) (e + 1) = FP_Fin m' (e + 1 + int j)" "m div 2 = m' * 2 ^ j" "odd m'"
      by metis
    with True 1 have "fp_norm m e = FP_Fin m' (e + int (Suc j)) \<and> m = m' * 2 ^ Suc j \<and> odd m'"
      by (auto simp: fp_norm.simps [of m] elim!: evenE)
    then show ?thesis by blast
  next
    case False
    then have "fp_norm m e = FP_Fin m (e + int 0) \<and> m = m * 2 ^ 0 \<and> odd m"
      by (auto simp: fp_norm.simps [of m])
    then show ?thesis by blast
  qed
qed

lemma fp_of_int_0 [simp]: "fp_of_int 0 = FP_Zero False"
  by (simp add: fp_of_int_def fp_norm.simps)

lemma fp_trunc_of_int [simp]: "fp_trunc (fp_of_int n) = Some n"
proof (cases "n = 0")
  case False
  then show ?thesis
    using fp_norm_spec [of n 0] by (auto simp: fp_of_int_def)
qed simp

lemma fp_round_of_int_exact:
  assumes n: "\<bar>n\<bar> < 2 ^ p" and "emin \<le> 0" and "int p \<le> emax"
  shows "fp_round (int p) emin emax (fp_of_int n) = fp_of_int n"
proof (cases "n = 0")
  case False
  then obtain m j where m: "fp_of_int n = FP_Fin m (int j)" "n = m * 2 ^ j" "odd m"
    using fp_norm_spec [of n 0] by (auto simp: fp_of_int_def)
  have split: "nat \<bar>n\<bar> = nat \<bar>m\<bar> * 2 ^ j"
    by (simp add: m(2) abs_mult nat_mult_distrib nat_power_eq)
  have lt: "nat \<bar>n\<bar> < 2 ^ p"
    using n by (simp add: nat_less_iff)
  have "nat \<bar>m\<bar> \<noteq> 0" using m(3) by auto
  then have pos: "1 \<le> nat \<bar>m\<bar>" by simp
  have "2 ^ j \<le> nat \<bar>m\<bar> * (2 ^ j :: nat)"
    using pos by simp
  then have "(2 ^ j :: nat) < 2 ^ p"
    using split lt by linarith
  then have jp: "j < p" by simp
  have "nat \<bar>m\<bar> * 2 ^ j < 2 ^ (p - j) * (2 ^ j :: nat)"
    using split lt jp by (simp add: power_add [symmetric])
  then have "nbits (nat \<bar>m\<bar>) \<le> p - j"
    by (simp add: nbits_le_iff)
  then have "int (nbits (nat \<bar>m\<bar>)) + int j \<le> int p"
    using jp by linarith
  then show ?thesis
    using assms(2,3) by (simp add: m(1))
qed simp

lemma int_to_float32_exact: "\<bar>n\<bar> < 2 ^ 24 \<Longrightarrow> int_to_float32 n = fp_of_int n"
  using fp_round_of_int_exact [of n 24 "-149" 128]
  by (simp add: int_to_float32_def to_float32_def)

lemma int_to_float64_exact: "\<bar>n\<bar> < 2 ^ 53 \<Longrightarrow> int_to_float64 n = fp_of_int n"
  using fp_round_of_int_exact [of n 53 "-1074" 1024]
  by (simp add: int_to_float64_def to_float64_def)

section \<open>Range of a truncation\<close>

lemma fp_trunc_nonneg: "fp_le (FP_Zero False) x \<Longrightarrow> fp_trunc x = Some n \<Longrightarrow> 0 \<le> n"
  by (cases x) (auto simp: sgn_if pos_imp_zdiv_nonneg_iff split: if_splits)

lemma trunc_div_bounds:
  fixes m d :: int
  assumes "0 < d" and "- (B * d) \<le> m" and "m < B * d"
  shows "- B \<le> sgn m * (\<bar>m\<bar> div d) \<and> sgn m * (\<bar>m\<bar> div d) < B"
proof (cases "0 \<le> m")
  case True
  have "m div d * d \<le> m"
    using assms(1) by (simp add: minus_mod_eq_div_mult [symmetric])
  then have "m div d * d < B * d" using assms(3) by linarith
  then have "m div d < B" using assms(1) by simp
  moreover have "0 \<le> m div d"
    using True assms(1) by (simp add: pos_imp_zdiv_nonneg_iff)
  ultimately have "m div d < B" and "0 \<le> m div d" by simp_all
  with True show ?thesis by (auto simp: sgn_if)
next
  case False
  have Bd: "0 < B * d"
    using False assms by linarith
  have le: "(- m) div d \<le> B"
  proof -
    have "(- m) div d \<le> (B * d) div d"
      using assms by (intro zdiv_mono1) auto
    then show ?thesis using assms(1) by simp
  qed
  moreover have "0 \<le> (- m) div d"
    using False assms(1) by (simp add: pos_imp_zdiv_nonneg_iff)
  moreover have "0 < B" using Bd assms(1) by (simp add: zero_less_mult_iff)
  ultimately show ?thesis using False by (auto simp: sgn_if)
qed

lemma fp_trunc_range:
  assumes "fp_le (FP_Fin (- 1) (int k)) x" and "fp_lt x (FP_Fin 1 (int k))"
  shows "\<exists>n. fp_trunc x = Some n \<and> - (2 ^ k) \<le> n \<and> n < 2 ^ k"
proof (cases x)
  case (FP_Fin m e)
  show ?thesis
  proof (cases "0 \<le> e")
    case True
    have lo: "fin_le (- 1) (int k) m e" and hi: "\<not> fin_le 1 (int k) m e"
      using assms FP_Fin by (auto simp: fp_lt_def)
    show ?thesis
    proof (cases "int k \<le> e")
      case True
      define j where "j = nat (e - int k)"
      have e: "nat e = k + j" "nat (e - int k) = j" using True by (auto simp: j_def)
      have "- 1 \<le> m * 2 ^ j" and "m * 2 ^ j < 1"
        using lo hi True e(2) by (simp_all add: fin_le_def min_absorb1)
      then have "- 1 * 2 ^ k \<le> (m * 2 ^ j) * 2 ^ k" and "(m * 2 ^ j) * 2 ^ k < 1 * (2 ^ k :: int)"
        by (intro mult_right_mono mult_strict_right_mono; simp)+
      then show ?thesis
        using FP_Fin \<open>0 \<le> e\<close> by (simp add: e power_add algebra_simps)
    next
      case False
      define j where "j = nat (int k - e)"
      have e: "k = nat e + j" "nat (int k - e) = j"
        using False \<open>0 \<le> e\<close> by (auto simp: j_def)
      have pk: "(2::int) ^ k = 2 ^ nat e * 2 ^ j" by (subst e(1)) (simp add: power_add)
      have "- (2 ^ j) \<le> m" and "m < 2 ^ j"
        using lo hi False e(2) by (simp_all add: fin_le_def min_absorb2)
      then have "- (2 ^ j) * 2 ^ nat e \<le> m * 2 ^ nat e" and "m * 2 ^ nat e < 2 ^ j * (2 ^ nat e :: int)"
        by (intro mult_right_mono mult_strict_right_mono; simp)+
      then show ?thesis
        using FP_Fin \<open>0 \<le> e\<close> pk by (simp add: algebra_simps)
    qed
  next
    case False
    define d :: int where "d = 2 ^ nat (- e)"
    have pw: "(2::int) ^ nat (int k - e) = 2 ^ k * d"
    proof -
      have "nat (int k - e) = k + nat (- e)" using False by simp
      then show ?thesis by (simp add: d_def power_add)
    qed
    have "- (2 ^ k * d) \<le> m" and "m < 2 ^ k * d"
      using assms FP_Fin False pw by (auto simp: fp_lt_def fin_le_def min_absorb2)
    then have "- (2 ^ k) \<le> sgn m * (\<bar>m\<bar> div d) \<and> sgn m * (\<bar>m\<bar> div d) < 2 ^ k"
      by (intro trunc_div_bounds) (simp_all add: d_def)
    then show ?thesis
      using FP_Fin False by (simp add: d_def)
  qed
qed (use assms in \<open>auto simp: fp_lt_def\<close>)

end
