(* ===== verification/Ten_Buf.thy ===== *)
theory Ten_Buf
  imports Prelude
begin

text \<open>
  The byte buffer \<open>ten_buf_t\<close> of \<open>lib/sys/general/buf.c\<close>. \<open>buf_data\<close> is the block \<open>data\<close>
  points to, so its length is the field \<open>size\<close> and a null pointer is the empty block;
  \<open>buf_content_size\<close> bytes of it are in use. Sizes are \<open>size_t\<close> values with the wrap-around
  of their arithmetic written out. Bytes that \<open>malloc\<close> or \<open>realloc\<close> leaves uninitialised come
  from the parameter \<open>fresh\<close>, the content of fresh memory by offset. A failed allocation, which
  the code asserts away, is not modelled.
\<close>

record ten_buf =
  buf_data :: "8 word list"
  buf_content_size :: nat
  buf_owns_memory :: bool
  buf_is_fixed_size :: bool

abbreviation SIZE_T_MOD :: nat where "SIZE_T_MOD \<equiv> 18446744073709551616"

definition buf_size :: "ten_buf \<Rightarrow> nat" where
  "buf_size b = length (buf_data b)"

definition ten_buf_init_empty :: ten_buf where
  "ten_buf_init_empty =
     \<lparr>buf_data = [], buf_content_size = 0, buf_owns_memory = True, buf_is_fixed_size = False\<rparr>"

definition ten_buf_deinit :: "ten_buf \<Rightarrow> ten_buf" where
  "ten_buf_deinit self =
     \<lparr>buf_data = [], buf_content_size = 0, buf_owns_memory = True, buf_is_fixed_size = False\<rparr>"

definition ten_buf_reset :: "ten_buf \<Rightarrow> ten_buf" where
  "ten_buf_reset self =
     (let self = (if buf_size self > 0
                  then if buf_owns_memory self
                       then self\<lparr>buf_data := replicate (buf_size self) 0\<rparr>
                       else self\<lparr>buf_data := []\<rparr>
                  else self)
      in self\<lparr>buf_content_size := 0, buf_is_fixed_size := False\<rparr>)"

definition ten_buf_init_with_owned_data :: "(nat \<Rightarrow> 8 word) \<Rightarrow> nat \<Rightarrow> ten_buf" where
  "ten_buf_init_with_owned_data fresh sz =
     (if sz \<noteq> 0 then ten_buf_init_empty\<lparr>buf_data := map fresh [0..<sz], buf_owns_memory := True\<rparr>
      else ten_buf_init_empty\<lparr>buf_data := [], buf_owns_memory := True\<rparr>)"

definition ten_buf_init_with_unowned_data :: "8 word list \<Rightarrow> ten_buf" where
  "ten_buf_init_with_unowned_data data =
     ten_buf_init_empty\<lparr>buf_data := data, buf_content_size := length data, buf_owns_memory := False\<rparr>"

definition ten_buf_init_with_copying_data :: "8 word list \<Rightarrow> ten_buf run" where
  "ten_buf_init_with_copying_data data =
     do { ten_assert (data \<noteq> []);
          Some (ten_buf_init_empty\<lparr>buf_data := data, buf_content_size := length data,
                                   buf_owns_memory := True\<rparr>) }"

definition ten_buf_set_fixed_size :: "ten_buf \<Rightarrow> bool \<Rightarrow> ten_buf run" where
  "ten_buf_set_fixed_size self fixed =
     do { ten_assert (buf_owns_memory self); Some (self\<lparr>buf_is_fixed_size := fixed\<rparr>) }"

text \<open>
  The doubling loop \<open>while (req_size >= self->size) self->size *= 2\<close>. It does not return when
  the doubled size wraps to 0.
\<close>

partial_function (option) ten_buf_grow :: "nat \<Rightarrow> nat \<Rightarrow> nat option" where
  "ten_buf_grow req_size sz =
     (if req_size \<ge> sz then ten_buf_grow req_size (sz * 2 mod SIZE_T_MOD) else Some sz)"

definition ten_buf_reserve :: "(nat \<Rightarrow> 8 word) \<Rightarrow> ten_buf \<Rightarrow> nat \<Rightarrow> ten_buf run" where
  "ten_buf_reserve fresh self len =
     do { ten_assert (buf_owns_memory self);
          let req_size = (buf_content_size self + len) mod SIZE_T_MOD;
          if req_size \<ge> buf_size self
          then do {
            ten_assert (\<not> buf_is_fixed_size self);
            sz \<leftarrow> ten_buf_grow req_size (if buf_size self = 0 then req_size else buf_size self);
            Some (self\<lparr>buf_data := buf_data self @ map fresh [buf_size self..<sz]\<rparr>)
          }
          else Some self }"

text \<open>\<open>memcpy\<close> and \<open>memset\<close> into the block; writing past its end is undefined.\<close>

definition write_at :: "'a list \<Rightarrow> nat \<Rightarrow> 'a list \<Rightarrow> 'a list run" where
  "write_at block pos src =
     (if pos + length src \<le> length block
      then Some (take pos block @ src @ drop (pos + length src) block) else None)"

definition ten_buf_push :: "(nat \<Rightarrow> 8 word) \<Rightarrow> ten_buf \<Rightarrow> 8 word list \<Rightarrow> (bool \<times> ten_buf) run" where
  "ten_buf_push fresh self src =
     do { ten_assert (buf_owns_memory self);
          if src = [] then Some (False, self)
          else do {
            self \<leftarrow> ten_buf_reserve fresh self (length src);
            block \<leftarrow> write_at (buf_data self) (buf_content_size self) src;
            Some (True, self\<lparr>buf_data := block,
                             buf_content_size := buf_content_size self + length src\<rparr>)
          } }"

text \<open>The result carries the bytes copied to \<open>dest\<close>, when a destination is given.\<close>

definition ten_buf_pop :: "ten_buf \<Rightarrow> bool \<Rightarrow> nat \<Rightarrow> (bool \<times> 8 word list option \<times> ten_buf) run" where
  "ten_buf_pop self dest sz =
     do { ten_assert (buf_owns_memory self);
          if sz = 0 then Some (True, None, self)
          else if sz > buf_content_size self then Some (False, None, self)
          else do {
            let new_size = buf_content_size self - sz;
            block \<leftarrow> write_at (buf_data self) new_size (replicate sz 0);
            Some (True,
                  (if dest then Some (take sz (drop new_size (buf_data self))) else None),
                  self\<lparr>buf_content_size := new_size, buf_data := block\<rparr>)
          } }"

definition ten_buf_get_back :: "ten_buf \<Rightarrow> bool \<Rightarrow> nat \<Rightarrow> bool \<times> 8 word list option" where
  "ten_buf_get_back self dest sz =
     (if sz = 0 then (True, None)
      else if \<not> dest then (False, None)
      else if sz > buf_content_size self then (False, None)
      else (True, Some (take sz (drop (buf_content_size self - sz) (buf_data self)))))"

definition ten_buf_take_ownership :: "ten_buf \<Rightarrow> ten_buf" where
  "ten_buf_take_ownership self = self\<lparr>buf_owns_memory := True\<rparr>"

definition ten_buf_release_ownership :: "ten_buf \<Rightarrow> ten_buf" where
  "ten_buf_release_ownership self = self\<lparr>buf_owns_memory := False\<rparr>"

text \<open>\<open>ten_buf_move\<close> returns both objects: the destination and the emptied source.\<close>

definition ten_buf_move :: "(nat \<Rightarrow> 8 word) \<Rightarrow> ten_buf \<Rightarrow> ten_buf \<Rightarrow> ten_buf \<times> ten_buf" where
  "ten_buf_move fresh self other =
     (self\<lparr>buf_data := buf_data other, buf_content_size := buf_content_size other,
           buf_owns_memory := buf_owns_memory other, buf_is_fixed_size := buf_is_fixed_size other\<rparr>,
      ten_buf_init_with_owned_data fresh 0)"

section \<open>The invariant and the content\<close>

definition buf_wf :: "ten_buf \<Rightarrow> bool" where
  "buf_wf b \<longleftrightarrow> buf_content_size b \<le> buf_size b"

definition buf_content :: "ten_buf \<Rightarrow> 8 word list" where
  "buf_content b = take (buf_content_size b) (buf_data b)"

lemma length_buf_content: "buf_wf b \<Longrightarrow> length (buf_content b) = buf_content_size b"
  by (simp add: buf_wf_def buf_content_def buf_size_def)

text \<open>The doubling loop returns, with room for one byte more than requested.\<close>

lemma ten_buf_grow_returns:
  assumes "0 < sz" and "sz < SIZE_T_MOD" and "req < SIZE_T_MOD div 2"
  shows "\<exists>n. ten_buf_grow req sz = Some n \<and> req < n \<and> sz \<le> n \<and> n \<le> max sz (2 * req)"
  using assms(1,2)
proof (induction "Suc req - sz" arbitrary: sz rule: less_induct)
  case less
  show ?case
  proof (cases "req < sz")
    case True
    then show ?thesis by (simp add: ten_buf_grow.simps)
  next
    case False
    then have m: "sz * 2 mod SIZE_T_MOD = sz * 2"
      using assms(3) by simp
    have "Suc req - sz * 2 < Suc req - sz" "0 < sz * 2" "sz * 2 < SIZE_T_MOD"
      using False less.prems assms(3) by simp_all
    then obtain n where "ten_buf_grow req (sz * 2) = Some n" "req < n" "sz * 2 \<le> n"
      "n \<le> max (sz * 2) (2 * req)"
      using less.hyps by blast
    then show ?thesis
      using False m by (auto simp: ten_buf_grow.simps [of req sz])
  qed
qed

text \<open>From size 0 the loop never returns.\<close>

lemma ten_buf_grow_zero: "ten_buf_grow req 0 = None"
proof (rule ccontr)
  assume "ten_buf_grow req 0 \<noteq> None"
  then obtain r where ret: "ten_buf_grow req 0 = Some r" by blast
  have "(0::nat) \<noteq> 0"
  proof (rule ten_buf_grow.raw_induct [where P = "\<lambda>req sz r. sz \<noteq> 0", OF _ ret])
    fix f :: "nat \<Rightarrow> nat \<Rightarrow> nat option" and req sz r
    assume IH: "\<And>req sz r. f req sz = Some r \<Longrightarrow> sz \<noteq> 0"
      and eq: "(if sz \<le> req then f req (sz * 2 mod SIZE_T_MOD) else Some sz) = Some r"
    show "sz \<noteq> 0"
    proof
      assume "sz = 0"
      with eq have "f req 0 = Some r" by simp
      from IH [OF this] show False by simp
    qed
  qed
  then show False by simp
qed

lemma write_at_eq:
  "pos + length src \<le> length block \<Longrightarrow>
   write_at block pos src = Some (take pos block @ src @ drop (pos + length src) block)"
  by (simp add: write_at_def)

text \<open>
  What a reservation promises when it may grow the block and the doubling starts above 0: the content stays,
  and afterwards the bytes in use and the reserved ones leave at least one byte free.
\<close>

lemma ten_buf_reserve_ok:
  assumes "buf_owns_memory b" and "buf_wf b" and "\<not> buf_is_fixed_size b"
    and "0 < len \<or> 0 < buf_size b" and "buf_content_size b + len < SIZE_T_MOD div 2"
    and "buf_size b < SIZE_T_MOD"
  shows "\<exists>b'. ten_buf_reserve fresh b len = Some b' \<and> buf_content b' = buf_content b \<and>
           buf_content_size b' = buf_content_size b \<and> buf_content_size b + len < buf_size b' \<and>
           buf_owns_memory b' \<and> \<not> buf_is_fixed_size b'"
proof -
  let ?req = "buf_content_size b + len"
  have req: "?req mod SIZE_T_MOD = ?req" using assms(5) by simp
  show ?thesis
  proof (cases "buf_size b \<le> ?req")
    case False
    then show ?thesis using assms req by (simp add: ten_buf_reserve_def)
  next
    case True
    let ?start = "if buf_size b = 0 then ?req else buf_size b"
    have "0 < ?start" "?start < SIZE_T_MOD" using assms by (auto simp: buf_size_def)
    then obtain n where n: "ten_buf_grow ?req ?start = Some n" "?req < n" "?start \<le> n"
      using ten_buf_grow_returns assms(5) by blast
    let ?b = "b\<lparr>buf_data := buf_data b @ map fresh [buf_size b..<n]\<rparr>"
    have "ten_buf_reserve fresh b len = Some ?b"
      using True n(1) req assms(1,3) by (simp add: ten_buf_reserve_def)
    moreover have "buf_size ?b = n"
      using n True by (simp add: buf_size_def split: if_splits)
    moreover have "buf_content ?b = buf_content b"
      using assms(2) by (simp add: buf_content_def buf_wf_def buf_size_def)
    ultimately show ?thesis using n(2) assms(1,3) by simp
  qed
qed

lemma ten_buf_push_ok:
  assumes "buf_owns_memory b" and "buf_wf b" and "\<not> buf_is_fixed_size b" and "src \<noteq> []"
    and "buf_content_size b + length src < SIZE_T_MOD div 2" and "buf_size b < SIZE_T_MOD"
  shows "\<exists>b'. ten_buf_push fresh b src = Some (True, b') \<and> buf_wf b' \<and>
           buf_content b' = buf_content b @ src \<and> buf_content_size b' < buf_size b' \<and>
           buf_owns_memory b' \<and> \<not> buf_is_fixed_size b'"
proof -
  have "0 < length src \<or> 0 < buf_size b" using assms(4) by simp
  from ten_buf_reserve_ok [OF assms(1-3) this assms(5,6), of fresh]
  obtain r where r: "ten_buf_reserve fresh b (length src) = Some r"
    "buf_content r = buf_content b" "buf_content_size r = buf_content_size b"
    "buf_content_size b + length src < buf_size r" "buf_owns_memory r" "\<not> buf_is_fixed_size r"
    by blast
  let ?d = "take (buf_content_size r) (buf_data r) @ src @
            drop (buf_content_size r + length src) (buf_data r)"
  have "write_at (buf_data r) (buf_content_size r) src = Some ?d"
    using r(3,4) by (intro write_at_eq) (simp add: buf_size_def)
  then have "ten_buf_push fresh b src =
      Some (True, r\<lparr>buf_data := ?d, buf_content_size := buf_content_size r + length src\<rparr>)"
    using assms(1,4) r(1) by (simp add: ten_buf_push_def)
  moreover have len: "length ?d = length (buf_data r)"
    using r(3,4) by (simp add: buf_size_def)
  moreover have "take (buf_content_size r + length src) ?d = buf_content r @ src"
    using r(3,4) by (simp add: buf_size_def buf_content_def)
  ultimately show ?thesis
    using r assms(2)
    by (simp add: buf_wf_def buf_content_def buf_size_def min_absorb2 del: take_append append_assoc)
qed

lemma ten_buf_pop_ok:
  assumes "buf_owns_memory b" and "buf_wf b" and "0 < n" and "n \<le> buf_content_size b"
  shows "\<exists>b'. ten_buf_pop b True n =
             Some (True, Some (drop (buf_content_size b - n) (buf_content b)), b') \<and>
           buf_content b' = take (buf_content_size b - n) (buf_content b) \<and> buf_wf b' \<and>
           buf_size b' = buf_size b \<and> buf_owns_memory b'"
proof -
  let ?k = "buf_content_size b - n"
  let ?d = "take ?k (buf_data b) @ replicate n 0 @ drop (?k + n) (buf_data b)"
  have le: "buf_content_size b \<le> length (buf_data b)"
    using assms(2) by (simp add: buf_wf_def buf_size_def)
  have w: "write_at (buf_data b) ?k (replicate n 0) = Some ?d"
    using write_at_eq [of ?k "replicate n 0" "buf_data b"] assms(4) le by simp
  have "ten_buf_pop b True n =
     Some (True, Some (take n (drop ?k (buf_data b))), b\<lparr>buf_content_size := ?k, buf_data := ?d\<rparr>)"
    using assms w by (simp add: ten_buf_pop_def Let_def)
  moreover have "take n (drop ?k (buf_data b)) = drop ?k (buf_content b)"
    using assms(4) by (simp add: buf_content_def drop_take)
  ultimately show ?thesis
    using assms le by (auto simp: buf_wf_def buf_size_def buf_content_def min_def)
qed

section \<open>Properties\<close>

text \<open>Pushing a non-empty block onto a growable buffer that owns its memory succeeds, appends
  the block to the content and leaves the old content in front of it; popping the same number of
  bytes returns the block and restores the content.\<close>

theorem buf_push_pop:
  assumes "buf_owns_memory b" and "buf_wf b" and "\<not> buf_is_fixed_size b" and "src \<noteq> []"
    and "buf_content_size b + length src < SIZE_T_MOD div 2" and "buf_size b < SIZE_T_MOD"
  shows "\<exists>b' b''. ten_buf_push fresh b src = Some (True, b') \<and> buf_content b' = buf_content b @ src \<and>
           buf_wf b' \<and> ten_buf_pop b' True (length src) = Some (True, Some src, b'') \<and>
           buf_content b'' = buf_content b \<and> buf_wf b''"
proof -
  from ten_buf_push_ok [OF assms, of fresh] obtain b' where b':
    "ten_buf_push fresh b src = Some (True, b')" "buf_wf b'" "buf_content b' = buf_content b @ src"
    "buf_owns_memory b'" by blast
  have "buf_content_size b' = buf_content_size b + length src"
    using length_buf_content [of b] length_buf_content [of b'] assms(2) b' by simp
  with b' ten_buf_pop_ok [of b' "length src"] show ?thesis
    using assms(4) length_buf_content [OF assms(2)] by auto
qed

theorem buf_push_pop_witness:
  "\<exists>b' b''. ten_buf_push (\<lambda>_. 7) ten_buf_init_empty [9] = Some (True, b') \<and>
     buf_content b' = [9] \<and> ten_buf_pop b' True 1 = Some (True, Some [9], b'')"
  using buf_push_pop [of ten_buf_init_empty "[9]" "\<lambda>_. 7"]
  by (auto simp: ten_buf_init_empty_def buf_wf_def buf_size_def buf_content_def)

text \<open>C35: A reservation returns with room for the requested bytes and one more, the content
  untouched, except when nothing is requested of a buffer of size 0: the doubling loop then
  starts from 0 and never returns.\<close>

theorem buf_reserve_returns:
  assumes "buf_owns_memory b" and "buf_wf b" and "\<not> buf_is_fixed_size b"
    and "buf_content_size b + len < SIZE_T_MOD div 2" and "buf_size b < SIZE_T_MOD"
  shows "(if len = 0 \<and> buf_size b = 0 then ten_buf_reserve fresh b len = None
          else \<exists>b'. ten_buf_reserve fresh b len = Some b' \<and> buf_content b' = buf_content b \<and>
                 buf_content_size b + len < buf_size b')"
proof -
  have "\<exists>b'. ten_buf_reserve fresh b len = Some b' \<and> buf_content b' = buf_content b \<and>
           buf_content_size b + len < buf_size b'" if "0 < len \<or> 0 < buf_size b"
    using ten_buf_reserve_ok [OF assms(1-3) that assms(4,5)] by blast
  moreover have "ten_buf_reserve fresh b 0 = None" if "buf_size b = 0"
    using that assms(1-3) by (simp add: ten_buf_reserve_def ten_buf_grow_zero buf_wf_def)
  ultimately show ?thesis by auto
qed

theorem buf_reserve_returns_witness:
  "ten_buf_reserve (\<lambda>_. 0) ten_buf_init_empty 0 = None \<and>
   (\<exists>b'. ten_buf_reserve (\<lambda>_. 0) ten_buf_init_empty 5 = Some b' \<and> 5 < buf_size b')"
  using buf_reserve_returns [of ten_buf_init_empty 0 "\<lambda>_. 0"]
    buf_reserve_returns [of ten_buf_init_empty 5 "\<lambda>_. 0"]
  by (auto simp: ten_buf_init_empty_def buf_wf_def buf_size_def)

end
