(* ===== verification/Ten_Value.thy ===== *)
theory Ten_Value
  imports Ten_Error Ten_Type Ten_Float Ten_Buf
begin

text \<open>
  Values (\<open>ten_value_t\<close> of \<open>value/value.c\<close>): a type tag with the union member it selects. An
  array holds its elements and an object its key-value pairs in list order, as the C lists do;
  keys need not be distinct, and every lookup takes the first pair of a key. The \<open>name\<close> field
  (debugging only) and the signature are left out. A pointer value carries the address and the
  default copy handler; custom construct, copy and destruct handlers are functions of the caller
  and are not modelled. Destruction frees memory and has no result to model.

  Arguments are non-null and well formed, which the C code asserts at every entry.
\<close>

datatype ten_value =
    V_invalid
  | V_null
  | V_bool bool
  | V_int8 i8
  | V_int16 i16
  | V_int32 i32
  | V_int64 i64
  | V_uint8 "8 word"
  | V_uint16 "16 word"
  | V_uint32 "32 word"
  | V_uint64 "64 word"
  | V_float32 cfp
  | V_float64 cfp
  | V_string string
  | V_buf ten_buf
  | V_array "ten_value list"
  | V_object "(string \<times> ten_value) list"
  | V_ptr "64 word"

fun ten_value_get_type :: "ten_value \<Rightarrow> ten_type" where
  "ten_value_get_type V_invalid = TEN_TYPE_INVALID"
| "ten_value_get_type V_null = TEN_TYPE_NULL"
| "ten_value_get_type (V_bool _) = TEN_TYPE_BOOL"
| "ten_value_get_type (V_int8 _) = TEN_TYPE_INT8"
| "ten_value_get_type (V_int16 _) = TEN_TYPE_INT16"
| "ten_value_get_type (V_int32 _) = TEN_TYPE_INT32"
| "ten_value_get_type (V_int64 _) = TEN_TYPE_INT64"
| "ten_value_get_type (V_uint8 _) = TEN_TYPE_UINT8"
| "ten_value_get_type (V_uint16 _) = TEN_TYPE_UINT16"
| "ten_value_get_type (V_uint32 _) = TEN_TYPE_UINT32"
| "ten_value_get_type (V_uint64 _) = TEN_TYPE_UINT64"
| "ten_value_get_type (V_float32 _) = TEN_TYPE_FLOAT32"
| "ten_value_get_type (V_float64 _) = TEN_TYPE_FLOAT64"
| "ten_value_get_type (V_string _) = TEN_TYPE_STRING"
| "ten_value_get_type (V_buf _) = TEN_TYPE_BUF"
| "ten_value_get_type (V_array _) = TEN_TYPE_ARRAY"
| "ten_value_get_type (V_object _) = TEN_TYPE_OBJECT"
| "ten_value_get_type (V_ptr _) = TEN_TYPE_PTR"

section \<open>Initialisation (\<open>ten_value_init_*\<close>)\<close>

definition ten_value_init_int8 :: "i8 \<Rightarrow> ten_value" where
  "ten_value_init_int8 value = V_int8 value"

definition ten_value_init_int16 :: "i16 \<Rightarrow> ten_value" where
  "ten_value_init_int16 value = V_int16 value"

definition ten_value_init_int32 :: "i32 \<Rightarrow> ten_value" where
  "ten_value_init_int32 value = V_int32 value"

definition ten_value_init_int64 :: "i64 \<Rightarrow> ten_value" where
  "ten_value_init_int64 value = V_int64 value"

definition ten_value_init_uint8 :: "8 word \<Rightarrow> ten_value" where
  "ten_value_init_uint8 value = V_uint8 value"

definition ten_value_init_uint16 :: "16 word \<Rightarrow> ten_value" where
  "ten_value_init_uint16 value = V_uint16 value"

definition ten_value_init_uint32 :: "32 word \<Rightarrow> ten_value" where
  "ten_value_init_uint32 value = V_uint32 value"

definition ten_value_init_uint64 :: "64 word \<Rightarrow> ten_value" where
  "ten_value_init_uint64 value = V_uint64 value"

definition ten_value_init_float32 :: "cfp \<Rightarrow> ten_value" where
  "ten_value_init_float32 value = V_float32 value"

definition ten_value_init_float64 :: "cfp \<Rightarrow> ten_value" where
  "ten_value_init_float64 value = V_float64 value"

definition ten_value_init_null :: ten_value where
  "ten_value_init_null = V_null"

definition ten_value_init_bool :: "bool \<Rightarrow> ten_value" where
  "ten_value_init_bool value = V_bool value"

definition ten_value_init_string :: ten_value where
  "ten_value_init_string = V_string []"

text \<open>\<open>printf\<close> with \<open>%.*s\<close> copies at most \<open>len\<close> bytes and stops at a terminator.\<close>

definition c_str :: "string \<Rightarrow> string" where
  "c_str s = takeWhile (\<lambda>c. c \<noteq> CHR 0x00) s"

definition ten_value_init_string_with_size :: "string \<Rightarrow> nat \<Rightarrow> ten_value run" where
  "ten_value_init_string_with_size str len =
     do { ten_assert (int len \<le> INT32_MAX); Some (V_string (take len (c_str str))) }"

definition ten_value_init_array_with_move :: "ten_value list \<Rightarrow> ten_value" where
  "ten_value_init_array_with_move value = V_array value"

definition ten_value_init_object_with_move :: "(string \<times> ten_value) list \<Rightarrow> ten_value" where
  "ten_value_init_object_with_move value = V_object value"

definition ten_value_init_buf :: "(nat \<Rightarrow> 8 word) \<Rightarrow> nat \<Rightarrow> ten_value" where
  "ten_value_init_buf fresh len = V_buf (ten_buf_init_with_owned_data fresh len)"

definition ten_value_init_buf_with_move :: "ten_buf \<Rightarrow> ten_value" where
  "ten_value_init_buf_with_move buf = V_buf buf"

lemmas ten_value_init_defs [simp] = ten_value_init_int8_def ten_value_init_int16_def
  ten_value_init_int32_def ten_value_init_int64_def ten_value_init_uint8_def
  ten_value_init_uint16_def ten_value_init_uint32_def ten_value_init_uint64_def
  ten_value_init_float32_def ten_value_init_float64_def ten_value_init_null_def
  ten_value_init_bool_def ten_value_init_string_def ten_value_init_array_with_move_def
  ten_value_init_object_with_move_def

section \<open>Type tests (\<open>ten_value_is_*\<close>)\<close>

definition ten_value_is_object :: "ten_value \<Rightarrow> bool" where
  "ten_value_is_object self \<longleftrightarrow> ten_value_get_type self = TEN_TYPE_OBJECT"

definition ten_value_is_array :: "ten_value \<Rightarrow> bool" where
  "ten_value_is_array self \<longleftrightarrow> ten_value_get_type self = TEN_TYPE_ARRAY"

definition ten_value_is_string :: "ten_value \<Rightarrow> bool" where
  "ten_value_is_string self \<longleftrightarrow> ten_value_get_type self = TEN_TYPE_STRING"

definition ten_value_is_bool :: "ten_value \<Rightarrow> bool" where
  "ten_value_is_bool self \<longleftrightarrow> ten_value_get_type self = TEN_TYPE_BOOL"

definition ten_value_is_ptr :: "ten_value \<Rightarrow> bool" where
  "ten_value_is_ptr self \<longleftrightarrow> ten_value_get_type self = TEN_TYPE_PTR"

definition ten_value_is_buf :: "ten_value \<Rightarrow> bool" where
  "ten_value_is_buf self \<longleftrightarrow> ten_value_get_type self = TEN_TYPE_BUF"

definition ten_value_is_valid :: "ten_value \<Rightarrow> bool" where
  "ten_value_is_valid self \<longleftrightarrow> ten_value_get_type self \<noteq> TEN_TYPE_INVALID"

definition ten_value_is_number :: "ten_value \<Rightarrow> bool" where
  "ten_value_is_number self \<longleftrightarrow>
     ten_value_get_type self = TEN_TYPE_INT32 \<or> ten_value_get_type self = TEN_TYPE_INT64 \<or>
     ten_value_get_type self = TEN_TYPE_FLOAT32 \<or> ten_value_get_type self = TEN_TYPE_FLOAT64"

lemma is_object_iff [simp]: "ten_value_is_object v \<longleftrightarrow> (\<exists>kvs. v = V_object kvs)"
  by (cases v) (simp_all add: ten_value_is_object_def)

lemma is_array_iff [simp]: "ten_value_is_array v \<longleftrightarrow> (\<exists>vs. v = V_array vs)"
  by (cases v) (simp_all add: ten_value_is_array_def)

lemma is_string_iff [simp]: "ten_value_is_string v \<longleftrightarrow> (\<exists>s. v = V_string s)"
  by (cases v) (simp_all add: ten_value_is_string_def)

lemma is_valid_iff [simp]: "ten_value_is_valid v \<longleftrightarrow> v \<noteq> V_invalid"
  by (cases v) (simp_all add: ten_value_is_valid_def)

section \<open>Copying\<close>

text \<open>
  \<open>ten_value_copy\<close> runs the copy handler of the source on a destination whose memory is zeroed;
  an owned buffer of size 0 leaves that memory as it is. Null and invalid values have no copy
  handler, only the tag is copied.
\<close>

definition zeroed_buf :: ten_buf where
  "zeroed_buf =
     \<lparr>buf_data = [], buf_content_size = 0, buf_owns_memory = False, buf_is_fixed_size = False\<rparr>"

definition ten_value_copy_buf :: "ten_buf \<Rightarrow> ten_buf" where
  "ten_value_copy_buf src_buf =
     (if buf_owns_memory src_buf
      then (if buf_size src_buf \<noteq> 0
            then (case ten_buf_init_with_copying_data (buf_data src_buf) of
                    Some b \<Rightarrow> b | None \<Rightarrow> zeroed_buf)
            else zeroed_buf)
      else src_buf)"

fun ten_value_clone :: "ten_value \<Rightarrow> ten_value" where
  "ten_value_clone (V_array vs) = V_array (map ten_value_clone vs)"
| "ten_value_clone (V_object kvs) = V_object (map (\<lambda>(k, v). (k, ten_value_clone v)) kvs)"
| "ten_value_clone (V_buf b) = V_buf (ten_value_copy_buf b)"
| "ten_value_clone v = v"

text \<open>A buffer that the copy handler reproduces: not owned, or owned and completely filled.\<close>

definition buf_copy_faithful :: "ten_buf \<Rightarrow> bool" where
  "buf_copy_faithful b \<longleftrightarrow>
     \<not> buf_owns_memory b \<or>
     (buf_size b \<noteq> 0 \<and> buf_content_size b = buf_size b \<and> \<not> buf_is_fixed_size b)"

fun clone_faithful :: "ten_value \<Rightarrow> bool" where
  "clone_faithful (V_array vs) = list_all clone_faithful vs"
| "clone_faithful (V_object kvs) = list_all (\<lambda>(k, v). clone_faithful v) kvs"
| "clone_faithful (V_buf b) = buf_copy_faithful b"
| "clone_faithful _ = True"

lemma ten_value_copy_buf_faithful: "ten_value_copy_buf b = b \<longleftrightarrow> buf_copy_faithful b"
  by (cases b)
    (auto simp: ten_value_copy_buf_def buf_copy_faithful_def ten_buf_init_with_copying_data_def
      ten_buf_init_empty_def zeroed_buf_def buf_size_def)

lemma ten_value_clone_eq: "clone_faithful v \<Longrightarrow> ten_value_clone v = v"
proof (induction v rule: ten_value_clone.induct)
  case (1 vs)
  then show ?case by (auto simp: list_all_iff intro!: map_idI)
next
  case (2 kvs)
  then show ?case by (fastforce simp: list_all_iff intro!: map_idI)
qed (simp_all add: ten_value_copy_buf_faithful)

lemma ten_value_get_type_clone [simp]:
  "ten_value_get_type (ten_value_clone v) = ten_value_get_type v"
  by (cases v) simp_all

section \<open>Members of an object\<close>

fun kv_peek :: "(string \<times> ten_value) list \<Rightarrow> string \<Rightarrow> ten_value option" where
  "kv_peek [] key = None"
| "kv_peek ((k, v) # kvs) key = (if k = key then Some v else kv_peek kvs key)"

definition ten_value_object_peek :: "ten_value \<Rightarrow> string \<Rightarrow> ten_value option run" where
  "ten_value_object_peek self key =
     (case self of V_object kvs \<Rightarrow> Some (kv_peek kvs key) | _ \<Rightarrow> None)"

lemma kv_peek_eq_map_of [simp]: "kv_peek kvs = map_of kvs"
proof
  fix key show "kv_peek kvs key = map_of kvs key"
    by (induction kvs key rule: kv_peek.induct) auto
qed

section \<open>Equality\<close>

text \<open>
  In the array branch the iterator's node, a \<open>ten_listnode_t\<close>, is cast to a value; the integrity
  assertion of the recursive call then fails on the first element. Invalid, pointer and buffer
  values reach the default branch, which asserts.
\<close>

fun ten_value_is_equal :: "ten_value \<Rightarrow> ten_value \<Rightarrow> bool run"
  and is_equal_members :: "(string \<times> ten_value) list \<Rightarrow> ten_value \<Rightarrow> bool run" where
  "ten_value_is_equal self target =
     (if ten_value_get_type self \<noteq> ten_value_get_type target then Some False
      else (case (self, target) of
        (V_null, _) \<Rightarrow> Some True
      | (V_bool b, V_bool b') \<Rightarrow> Some (b = b')
      | (V_string s, V_string s') \<Rightarrow> Some (s = s')
      | (V_object kvs, V_object kvs') \<Rightarrow>
          if length kvs \<noteq> length kvs' then Some False else is_equal_members kvs target
      | (V_array vs, V_array vs') \<Rightarrow>
          if length vs \<noteq> length vs' then Some False else if vs = [] then Some True else None
      | (V_int8 x, V_int8 y) \<Rightarrow> Some (x = y)
      | (V_int16 x, V_int16 y) \<Rightarrow> Some (x = y)
      | (V_int32 x, V_int32 y) \<Rightarrow> Some (x = y)
      | (V_int64 x, V_int64 y) \<Rightarrow> Some (x = y)
      | (V_uint8 x, V_uint8 y) \<Rightarrow> Some (x = y)
      | (V_uint16 x, V_uint16 y) \<Rightarrow> Some (x = y)
      | (V_uint32 x, V_uint32 y) \<Rightarrow> Some (x = y)
      | (V_uint64 x, V_uint64 y) \<Rightarrow> Some (x = y)
      | (V_float32 x, V_float32 y) \<Rightarrow> Some (fp_eq x y)
      | (V_float64 x, V_float64 y) \<Rightarrow> Some (fp_eq x y)
      | _ \<Rightarrow> None))"
| "is_equal_members [] target = Some True"
| "is_equal_members ((k, v) # kvs) target =
     (case ten_value_object_peek target k of
        None \<Rightarrow> None
      | Some None \<Rightarrow> Some False
      | Some (Some v') \<Rightarrow>
          (case ten_value_is_equal v v' of
             None \<Rightarrow> None
           | Some b \<Rightarrow> if b then is_equal_members kvs target else Some False))"

section \<open>When equality is defined\<close>

text \<open>
  \<open>eq_ok\<close>: no branch that asserts can be reached, and numbers and keys behave: no NaN, no
  duplicate key.
\<close>

fun eq_ok :: "ten_value \<Rightarrow> bool" where
  "eq_ok V_invalid = False"
| "eq_ok (V_float32 x) = (x \<noteq> FP_NaN)"
| "eq_ok (V_float64 x) = (x \<noteq> FP_NaN)"
| "eq_ok (V_buf b) = False"
| "eq_ok (V_ptr p) = False"
| "eq_ok (V_array vs) = (vs = [])"
| "eq_ok (V_object kvs) = (distinct (map fst kvs) \<and> list_all (\<lambda>(k, v). eq_ok v) kvs)"
| "eq_ok _ = True"

lemma fp_eq_refl [simp]: "x \<noteq> FP_NaN \<Longrightarrow> fp_eq x x"
proof (cases x)
  case (FP_Inf s)
  then show ?thesis by (cases s) (simp_all add: fp_eq_def)
qed (auto simp: fp_eq_def fin_le_def)

lemma fp_eq_sym: "fp_eq x y \<longleftrightarrow> fp_eq y x"
  by (auto simp: fp_eq_def)

lemma list_all_members:
  "list_all (\<lambda>(k, v). P v) kvs \<longleftrightarrow> (\<forall>k v. (k, v) \<in> set kvs \<longrightarrow> P v)"
  by (auto simp: list_all_iff)

lemma eq_ok_member: "eq_ok (V_object kvs) \<Longrightarrow> (k, v) \<in> set kvs \<Longrightarrow> eq_ok v"
  unfolding eq_ok.simps list_all_members by blast

lemma eq_ok_map_of: "eq_ok (V_object kvs) \<Longrightarrow> map_of kvs k = Some v \<Longrightarrow> eq_ok v"
  by (rule eq_ok_member [OF _ map_of_SomeD])

text \<open>On such values the comparison returns, and of an object it decides containment of members.\<close>

lemma is_equal_total:
  "eq_ok v \<Longrightarrow> eq_ok w \<Longrightarrow> ten_value_is_equal v w \<noteq> None"
  "eq_ok (V_object kvs') \<Longrightarrow> w = V_object kvs' \<Longrightarrow> list_all (\<lambda>(k, v). eq_ok v) kvs \<Longrightarrow>
   is_equal_members kvs w \<noteq> None"
proof (induction v w and kvs w arbitrary: and kvs'
    rule: ten_value_is_equal_is_equal_members.induct)
  case (1 self target)
  show ?case
  proof (cases "ten_value_get_type self = ten_value_get_type target")
    case False
    then show ?thesis by simp
  next
    case True
    then show ?thesis
      using 1 by (cases self; cases target) (simp_all, auto)
  qed
next
  case (2 target)
  then show ?case by simp
next
  case (3 k v kvs target)
  show ?case
  proof (cases "map_of kvs' k")
    case None
    then show ?thesis using 3(4) by (simp add: ten_value_object_peek_def)
  next
    case (Some v')
    with 3 eq_ok_map_of [of kvs' k v'] show ?thesis
      by (auto simp: ten_value_object_peek_def simp del: ten_value_is_equal.simps eq_ok.simps
          split: option.splits)
  qed
qed

lemma is_equal_members_iff:
  assumes "eq_ok (V_object kvs')"
  shows "list_all (\<lambda>(k, v). eq_ok v) kvs \<Longrightarrow>
    is_equal_members kvs (V_object kvs') =
      Some (\<forall>(k, v) \<in> set kvs. \<exists>v'. map_of kvs' k = Some v' \<and> ten_value_is_equal v v' = Some True)"
proof (induction kvs)
  case (Cons kv kvs)
  obtain k v where kv: "kv = (k, v)" by (cases kv)
  have "ten_value_is_equal v v' \<noteq> None" if "map_of kvs' k = Some v'" for v'
    using is_equal_total(1) [of v v'] Cons.prems kv eq_ok_map_of [OF assms that]
    by (simp del: ten_value_is_equal.simps)
  then show ?case
    using Cons kv
    by (auto simp: ten_value_object_peek_def simp del: ten_value_is_equal.simps
        split: option.splits)
qed simp

lemma is_equal_objects:
  assumes "eq_ok (V_object kvs)" and "eq_ok (V_object kvs')"
  shows "ten_value_is_equal (V_object kvs) (V_object kvs') = Some True \<longleftrightarrow>
    length kvs = length kvs' \<and>
    (\<forall>(k, v) \<in> set kvs. \<exists>v'. map_of kvs' k = Some v' \<and> ten_value_is_equal v v' = Some True)"
  using assms by (auto simp: is_equal_members_iff simp del: is_equal_members.simps)

lemma is_equal_refl: "eq_ok v \<Longrightarrow> ten_value_is_equal v v = Some True"
proof (induction v rule: eq_ok.induct)
  case (7 kvs)
  then show ?case
    by (fastforce simp: is_equal_objects list_all_members simp del: ten_value_is_equal.simps)
qed simp_all

lemma distinct_keys_eq:
  assumes "distinct (map fst xs)" and "distinct (map fst ys)" and "length xs = length ys"
    and "fst ` set xs \<subseteq> fst ` set ys"
  shows "fst ` set xs = fst ` set ys"
proof (rule card_subset_eq)
  show "card (fst ` set xs) = card (fst ` set ys)"
    using assms(1-3) by (metis distinct_card length_map set_map)
qed (use assms in simp_all)

lemma is_equal_sym:
  "eq_ok v \<Longrightarrow> eq_ok w \<Longrightarrow> ten_value_is_equal v w = Some True \<Longrightarrow> ten_value_is_equal w v = Some True"
proof (induction v arbitrary: w rule: eq_ok.induct)
  case (7 kvs)
  then obtain kvs' where w: "w = V_object kvs'"
    by (cases w) auto
  have sub: "\<And>k v. (k, v) \<in> set kvs \<Longrightarrow>
      \<exists>v'. map_of kvs' k = Some v' \<and> ten_value_is_equal v v' = Some True"
    and len: "length kvs = length kvs'"
    using 7 w by (auto simp: is_equal_objects simp del: ten_value_is_equal.simps)
  have keys: "fst ` set kvs = fst ` set kvs'"
  proof (rule distinct_keys_eq)
    show "fst ` set kvs \<subseteq> fst ` set kvs'"
    proof
      fix k assume "k \<in> fst ` set kvs"
      then obtain v v' where "map_of kvs' k = Some v'" using sub by fastforce
      then show "k \<in> fst ` set kvs'" using map_of_SomeD by force
    qed
  qed (use 7(2,3) w len in simp_all)
  have "\<exists>v. map_of kvs k = Some v \<and> ten_value_is_equal v' v = Some True"
    if kv': "(k, v') \<in> set kvs'" for k v'
  proof -
    have "k \<in> fst ` set kvs" using keys kv' by force
    then obtain v where v: "(k, v) \<in> set kvs" by auto
    have "map_of kvs' k = Some v'" using 7(3) w kv' by simp
    then have "ten_value_is_equal v v' = Some True" using sub [OF v] by simp
    moreover have "eq_ok v'" using eq_ok_member 7(3) w kv' by blast
    ultimately have "ten_value_is_equal v' v = Some True"
      using 7(1) [OF v refl eq_ok_member [OF 7(2) v]] by blast
    then show ?thesis using 7(2) v by auto
  qed
  then show ?case
    using 7(2,3) w len by (auto simp: is_equal_objects simp del: ten_value_is_equal.simps)
qed (case_tac w; auto simp: fp_eq_sym split: if_splits)+

section \<open>Properties\<close>

text \<open>C38: Cloning reproduces a value whenever every buffer in it is not owned or completely
  filled; in general it keeps the type, the members and their keys, and cloning a clone changes
  nothing more. A partly filled owned buffer comes back with its whole block as content.\<close>

theorem clone_reproduces:
  "(clone_faithful v \<longrightarrow> ten_value_clone v = v) \<and>
   clone_faithful (ten_value_clone v) \<and>
   ten_value_get_type (ten_value_clone v) = ten_value_get_type v \<and>
   (b = \<lparr>buf_data = [1, 0], buf_content_size = 1, buf_owns_memory = True, buf_is_fixed_size = False\<rparr>
      \<longrightarrow> buf_content b = [1] \<and> buf_content (ten_value_copy_buf b) = [1, 0])"
proof (intro conjI impI)
  show "clone_faithful (ten_value_clone v)"
    by (induction v rule: ten_value_clone.induct)
      (auto simp: list_all_iff buf_copy_faithful_def ten_value_copy_buf_def zeroed_buf_def
        ten_buf_init_with_copying_data_def ten_buf_init_empty_def buf_size_def)
qed (simp_all add: ten_value_clone_eq buf_content_def ten_value_copy_buf_def buf_size_def
    ten_buf_init_with_copying_data_def ten_buf_init_empty_def)

theorem clone_reproduces_witness:
  "ten_value_clone (V_object [(''a'', V_array [V_int8 1])]) = V_object [(''a'', V_array [V_int8 1])]"
  using clone_reproduces [of "V_object [(''a'', V_array [V_int8 1])]"] by simp

text \<open>On values without pointers, buffers, NaNs, duplicate keys and non-empty arrays the deep
  comparison returns and is reflexive and symmetric, whatever the order of the members; comparing
  a non-empty array even with itself fails an assertion.\<close>

theorem is_equal_defined:
  assumes "eq_ok v" and "eq_ok w"
  shows "ten_value_is_equal v v = Some True \<and>
    (\<exists>b. ten_value_is_equal v w = Some b \<and> ten_value_is_equal w v = Some b) \<and>
    ten_value_is_equal (V_array (v # vs)) (V_array (v # vs)) = None"
proof -
  obtain b b' where "ten_value_is_equal v w = Some b" "ten_value_is_equal w v = Some b'"
    using is_equal_total(1) assms by blast
  moreover from this have "b = b'"
    using is_equal_sym [OF assms] is_equal_sym [OF assms(2,1)] by (cases b; cases b') auto
  ultimately show ?thesis using is_equal_refl [OF assms(1)] by simp
qed

theorem is_equal_defined_witness:
  "ten_value_is_equal (V_object [(''a'', V_int8 1), (''b'', V_null)])
     (V_object [(''a'', V_int8 1), (''b'', V_null)]) = Some True"
  using is_equal_defined [of "V_object [(''a'', V_int8 1), (''b'', V_null)]"
    "V_object [(''a'', V_int8 1), (''b'', V_null)]"] by (simp del: ten_value_is_equal.simps)

end
