(* ===== verification/Value_Convert.thy ===== *)
theory Value_Convert
  imports Ten_Value
begin

text \<open>
  The range tests of \<open>value/value_can_convert.c\<close> and the in-place conversions of
  \<open>value/value_convert.c\<close>. A conversion returns \<open>Inr v\<close> when the C function returns true and
  leaves \<open>v\<close> in the object, and \<open>Inl e\<close> when it returns false with the error object set to \<open>e\<close>
  and the value untouched. The contract that the eight integer conversions share is the locale
  \<open>int_conversion\<close>, interpreted on each of them.
\<close>

section \<open>Which numbers fit (\<open>value_can_convert.c\<close>)\<close>

text \<open>
  \<open>fp_host\<close> names the results of the conversions from floating point that C leaves undefined:
  the value the compiler gives \<open>(intN_t)FLT_MAX\<close>, and what a cast of an out-of-range number
  delivers at run time.
\<close>

record fp_host =
  flt_max_i32 :: int
  flt_max_i64 :: int
  flt_max_u32 :: int
  flt_max_u64 :: int
  oor_i32 :: int
  oor_i64 :: int
  oor_u32 :: int
  oor_u64 :: int

text \<open>A host as GCC builds it on x86-64: constants saturate, the cast instruction does not.\<close>

definition x86_host :: fp_host where
  "x86_host =
     \<lparr>flt_max_i32 = INT32_MAX, flt_max_i64 = INT64_MAX, flt_max_u32 = UINT32_MAX,
      flt_max_u64 = UINT64_MAX, oor_i32 = INT32_MIN, oor_i64 = INT64_MIN, oor_u32 = 0,
      oor_u64 = 0\<rparr>"

definition can_convert_float64_to_int8 :: "cfp \<Rightarrow> bool" where
  "can_convert_float64_to_int8 a \<longleftrightarrow> fp_ge a (fp_neg (ldexp1 7)) \<and> fp_lt a (ldexp1 7)"

definition can_convert_float64_to_int16 :: "cfp \<Rightarrow> bool" where
  "can_convert_float64_to_int16 a \<longleftrightarrow> fp_ge a (fp_neg (ldexp1 15)) \<and> fp_lt a (ldexp1 15)"

definition can_convert_float64_to_int32 :: "cfp \<Rightarrow> bool" where
  "can_convert_float64_to_int32 a \<longleftrightarrow> fp_ge a (fp_neg (ldexp1 31)) \<and> fp_lt a (ldexp1 31)"

definition can_convert_float64_to_int64 :: "cfp \<Rightarrow> bool" where
  "can_convert_float64_to_int64 a \<longleftrightarrow> fp_ge a (fp_neg (ldexp1 63)) \<and> fp_lt a (ldexp1 63)"

definition can_convert_float64_to_uint8 :: "cfp \<Rightarrow> bool" where
  "can_convert_float64_to_uint8 a \<longleftrightarrow> fp_ge a (FP_Zero False) \<and> fp_lt a (ldexp1 8)"

definition can_convert_float64_to_uint16 :: "cfp \<Rightarrow> bool" where
  "can_convert_float64_to_uint16 a \<longleftrightarrow> fp_ge a (FP_Zero False) \<and> fp_lt a (ldexp1 16)"

definition can_convert_float64_to_uint32 :: "cfp \<Rightarrow> bool" where
  "can_convert_float64_to_uint32 a \<longleftrightarrow> fp_ge a (FP_Zero False) \<and> fp_lt a (ldexp1 32)"

definition can_convert_float64_to_uint64 :: "cfp \<Rightarrow> bool" where
  "can_convert_float64_to_uint64 a \<longleftrightarrow> fp_ge a (FP_Zero False) \<and> fp_lt a (ldexp1 64)"

definition can_convert_int32_to_float32 :: "fp_host \<Rightarrow> 32 word \<Rightarrow> bool" where
  "can_convert_int32_to_float32 h value =
     (if sint value > flt_max_i32 h \<or> sint value < signed_take_bit 31 (- flt_max_i32 h)
      then False
      else let float_value = int_to_float32 (sint value);
               converted_back = c_float_to_int (oor_i32 h) INT32_MIN INT32_MAX float_value
           in sint value = converted_back)"

definition can_convert_int64_to_float32 :: "fp_host \<Rightarrow> 64 word \<Rightarrow> bool" where
  "can_convert_int64_to_float32 h value =
     (if sint value > flt_max_i64 h \<or> sint value < signed_take_bit 63 (- flt_max_i64 h)
      then False
      else let float_value = int_to_float32 (sint value);
               converted_back = c_float_to_int (oor_i64 h) INT64_MIN INT64_MAX float_value
           in sint value = converted_back)"

definition can_convert_uint32_to_float32 :: "fp_host \<Rightarrow> 32 word \<Rightarrow> bool" where
  "can_convert_uint32_to_float32 h value =
     (if uint value > flt_max_u32 h then False
      else let float_value = int_to_float32 (uint value);
               converted_back = c_float_to_int (oor_u32 h) 0 UINT32_MAX float_value
           in uint value = converted_back)"

definition can_convert_uint64_to_float32 :: "fp_host \<Rightarrow> 64 word \<Rightarrow> bool" where
  "can_convert_uint64_to_float32 h value =
     (if uint value > flt_max_u64 h then False
      else let float_value = int_to_float32 (uint value);
               converted_back = c_float_to_int (oor_u64 h) 0 UINT64_MAX float_value
           in uint value = converted_back)"

definition can_convert_int32_to_float64 :: "fp_host \<Rightarrow> 32 word \<Rightarrow> bool" where
  "can_convert_int32_to_float64 h value =
     (let double_value = int_to_float64 (sint value);
          converted_back = c_float_to_int (oor_i32 h) INT32_MIN INT32_MAX double_value
      in sint value = converted_back)"

definition can_convert_int64_to_float64 :: "fp_host \<Rightarrow> 64 word \<Rightarrow> bool" where
  "can_convert_int64_to_float64 h value =
     (let double_value = int_to_float64 (sint value);
          converted_back = c_float_to_int (oor_i64 h) INT64_MIN INT64_MAX double_value
      in sint value = converted_back)"

definition can_convert_uint32_to_float64 :: "fp_host \<Rightarrow> 32 word \<Rightarrow> bool" where
  "can_convert_uint32_to_float64 h value =
     (let double_value = int_to_float64 (uint value);
          converted_back = c_float_to_int (oor_u32 h) 0 UINT32_MAX double_value
      in uint value = converted_back)"

definition can_convert_uint64_to_float64 :: "fp_host \<Rightarrow> 64 word \<Rightarrow> bool" where
  "can_convert_uint64_to_float64 h value =
     (let double_value = int_to_float64 (uint value);
          converted_back = c_float_to_int (oor_u64 h) 0 UINT64_MAX double_value
      in uint value = converted_back)"

definition can_convert_float64_to_float32 :: "cfp \<Rightarrow> bool" where
  "can_convert_float64_to_float32 value \<longleftrightarrow>
     \<not> (fp_lt value (fp_neg FLT_MAX) \<or> fp_lt FLT_MAX value)"

definition can_convert_int16_to_int8 :: "16 word \<Rightarrow> bool" where
  "can_convert_int16_to_int8 value \<longleftrightarrow> \<not> (sint value < INT8_MIN \<or> sint value > INT8_MAX)"

definition can_convert_int32_to_int8 :: "32 word \<Rightarrow> bool" where
  "can_convert_int32_to_int8 value \<longleftrightarrow> \<not> (sint value < INT8_MIN \<or> sint value > INT8_MAX)"

definition can_convert_int64_to_int8 :: "64 word \<Rightarrow> bool" where
  "can_convert_int64_to_int8 value \<longleftrightarrow> \<not> (sint value < INT8_MIN \<or> sint value > INT8_MAX)"

definition can_convert_uint8_to_int8 :: "8 word \<Rightarrow> bool" where
  "can_convert_uint8_to_int8 value \<longleftrightarrow> \<not> (uint value > INT8_MAX)"

definition can_convert_uint16_to_int8 :: "16 word \<Rightarrow> bool" where
  "can_convert_uint16_to_int8 value \<longleftrightarrow> \<not> (uint value > INT8_MAX)"

definition can_convert_uint32_to_int8 :: "32 word \<Rightarrow> bool" where
  "can_convert_uint32_to_int8 value \<longleftrightarrow> \<not> (uint value > INT8_MAX)"

definition can_convert_uint64_to_int8 :: "64 word \<Rightarrow> bool" where
  "can_convert_uint64_to_int8 value \<longleftrightarrow> \<not> (uint value > INT8_MAX)"

definition can_convert_int32_to_int16 :: "32 word \<Rightarrow> bool" where
  "can_convert_int32_to_int16 value \<longleftrightarrow> \<not> (sint value < INT16_MIN \<or> sint value > INT16_MAX)"

definition can_convert_int64_to_int16 :: "64 word \<Rightarrow> bool" where
  "can_convert_int64_to_int16 value \<longleftrightarrow> \<not> (sint value < INT16_MIN \<or> sint value > INT16_MAX)"

definition can_convert_uint16_to_int16 :: "16 word \<Rightarrow> bool" where
  "can_convert_uint16_to_int16 value \<longleftrightarrow> \<not> (uint value > INT16_MAX)"

definition can_convert_uint32_to_int16 :: "32 word \<Rightarrow> bool" where
  "can_convert_uint32_to_int16 value \<longleftrightarrow> \<not> (uint value > INT16_MAX)"

definition can_convert_uint64_to_int16 :: "64 word \<Rightarrow> bool" where
  "can_convert_uint64_to_int16 value \<longleftrightarrow> \<not> (uint value > INT16_MAX)"

definition can_convert_int64_to_int32 :: "64 word \<Rightarrow> bool" where
  "can_convert_int64_to_int32 value \<longleftrightarrow> \<not> (sint value < INT32_MIN \<or> sint value > INT32_MAX)"

definition can_convert_uint32_to_int32 :: "32 word \<Rightarrow> bool" where
  "can_convert_uint32_to_int32 value \<longleftrightarrow> \<not> (uint value > INT32_MAX)"

definition can_convert_uint64_to_int32 :: "64 word \<Rightarrow> bool" where
  "can_convert_uint64_to_int32 value \<longleftrightarrow> \<not> (uint value > INT32_MAX)"

definition can_convert_uint64_to_int64 :: "64 word \<Rightarrow> bool" where
  "can_convert_uint64_to_int64 value \<longleftrightarrow> \<not> (uint value > INT64_MAX)"

definition can_convert_int8_to_uint8 :: "8 word \<Rightarrow> bool" where
  "can_convert_int8_to_uint8 value \<longleftrightarrow> \<not> (sint value < 0)"

definition can_convert_int16_to_uint8 :: "16 word \<Rightarrow> bool" where
  "can_convert_int16_to_uint8 value \<longleftrightarrow> \<not> (sint value < 0 \<or> sint value > UINT8_MAX)"

definition can_convert_int32_to_uint8 :: "32 word \<Rightarrow> bool" where
  "can_convert_int32_to_uint8 value \<longleftrightarrow> \<not> (sint value < 0 \<or> sint value > UINT8_MAX)"

definition can_convert_int64_to_uint8 :: "64 word \<Rightarrow> bool" where
  "can_convert_int64_to_uint8 value \<longleftrightarrow> \<not> (sint value < 0 \<or> sint value > UINT8_MAX)"

definition can_convert_uint16_to_uint8 :: "16 word \<Rightarrow> bool" where
  "can_convert_uint16_to_uint8 value \<longleftrightarrow> \<not> (uint value > UINT8_MAX)"

definition can_convert_uint32_to_uint8 :: "32 word \<Rightarrow> bool" where
  "can_convert_uint32_to_uint8 value \<longleftrightarrow> \<not> (uint value > UINT8_MAX)"

definition can_convert_uint64_to_uint8 :: "64 word \<Rightarrow> bool" where
  "can_convert_uint64_to_uint8 value \<longleftrightarrow> \<not> (uint value > UINT8_MAX)"

definition can_convert_int8_to_uint16 :: "8 word \<Rightarrow> bool" where
  "can_convert_int8_to_uint16 value \<longleftrightarrow> \<not> (sint value < 0)"

definition can_convert_int16_to_uint16 :: "16 word \<Rightarrow> bool" where
  "can_convert_int16_to_uint16 value \<longleftrightarrow> \<not> (sint value < 0)"

definition can_convert_int32_to_uint16 :: "32 word \<Rightarrow> bool" where
  "can_convert_int32_to_uint16 value \<longleftrightarrow> \<not> (sint value < 0 \<or> sint value > UINT16_MAX)"

definition can_convert_int64_to_uint16 :: "64 word \<Rightarrow> bool" where
  "can_convert_int64_to_uint16 value \<longleftrightarrow> \<not> (sint value < 0 \<or> sint value > UINT16_MAX)"

definition can_convert_uint32_to_uint16 :: "32 word \<Rightarrow> bool" where
  "can_convert_uint32_to_uint16 value \<longleftrightarrow> \<not> (uint value > UINT16_MAX)"

definition can_convert_uint64_to_uint16 :: "64 word \<Rightarrow> bool" where
  "can_convert_uint64_to_uint16 value \<longleftrightarrow> \<not> (uint value > UINT16_MAX)"

definition can_convert_int8_to_uint32 :: "8 word \<Rightarrow> bool" where
  "can_convert_int8_to_uint32 value \<longleftrightarrow> \<not> (sint value < 0)"

definition can_convert_int16_to_uint32 :: "16 word \<Rightarrow> bool" where
  "can_convert_int16_to_uint32 value \<longleftrightarrow> \<not> (sint value < 0)"

definition can_convert_int32_to_uint32 :: "32 word \<Rightarrow> bool" where
  "can_convert_int32_to_uint32 value \<longleftrightarrow> \<not> (sint value < 0)"

definition can_convert_int64_to_uint32 :: "64 word \<Rightarrow> bool" where
  "can_convert_int64_to_uint32 value \<longleftrightarrow> \<not> (sint value < 0 \<or> sint value > UINT32_MAX)"

definition can_convert_uint64_to_uint32 :: "64 word \<Rightarrow> bool" where
  "can_convert_uint64_to_uint32 value \<longleftrightarrow> \<not> (uint value > UINT32_MAX)"

definition can_convert_int8_to_uint64 :: "8 word \<Rightarrow> bool" where
  "can_convert_int8_to_uint64 value \<longleftrightarrow> \<not> (sint value < 0)"

definition can_convert_int16_to_uint64 :: "16 word \<Rightarrow> bool" where
  "can_convert_int16_to_uint64 value \<longleftrightarrow> \<not> (sint value < 0)"

definition can_convert_int32_to_uint64 :: "32 word \<Rightarrow> bool" where
  "can_convert_int32_to_uint64 value \<longleftrightarrow> \<not> (sint value < 0)"

definition can_convert_int64_to_uint64 :: "64 word \<Rightarrow> bool" where
  "can_convert_int64_to_uint64 value \<longleftrightarrow> \<not> (sint value < 0)"

lemmas can_convert_int_defs =
  can_convert_int16_to_int8_def
  can_convert_int32_to_int8_def
  can_convert_int64_to_int8_def
  can_convert_uint8_to_int8_def
  can_convert_uint16_to_int8_def
  can_convert_uint32_to_int8_def
  can_convert_uint64_to_int8_def
  can_convert_int32_to_int16_def
  can_convert_int64_to_int16_def
  can_convert_uint16_to_int16_def
  can_convert_uint32_to_int16_def
  can_convert_uint64_to_int16_def
  can_convert_int64_to_int32_def
  can_convert_uint32_to_int32_def
  can_convert_uint64_to_int32_def
  can_convert_uint64_to_int64_def
  can_convert_int8_to_uint8_def
  can_convert_int16_to_uint8_def
  can_convert_int32_to_uint8_def
  can_convert_int64_to_uint8_def
  can_convert_uint16_to_uint8_def
  can_convert_uint32_to_uint8_def
  can_convert_uint64_to_uint8_def
  can_convert_int8_to_uint16_def
  can_convert_int16_to_uint16_def
  can_convert_int32_to_uint16_def
  can_convert_int64_to_uint16_def
  can_convert_uint32_to_uint16_def
  can_convert_uint64_to_uint16_def
  can_convert_int8_to_uint32_def
  can_convert_int16_to_uint32_def
  can_convert_int32_to_uint32_def
  can_convert_int64_to_uint32_def
  can_convert_uint64_to_uint32_def
  can_convert_int8_to_uint64_def
  can_convert_int16_to_uint64_def
  can_convert_int32_to_uint64_def
  can_convert_int64_to_uint64_def

section \<open>Conversions (\<open>value_convert.c\<close>)\<close>

definition unsupported_conversion :: "ten_value \<Rightarrow> string \<Rightarrow> ten_error" where
  "unsupported_conversion self target =
     ten_error_set ten_error_init TEN_ERROR_CODE_GENERIC
       (''unsupported conversion from `'' @ fmt_type (ten_value_get_type self) @
        ''` to `'' @ target @ ''`'')"

definition out_of_range :: "string \<Rightarrow> ten_error" where
  "out_of_range target =
     ten_error_set ten_error_init TEN_ERROR_CODE_GENERIC (''out of range of '' @ target)"

definition ten_value_convert_to_int8 :: "ten_value \<Rightarrow> (ten_error + ten_value) run" where
  "ten_value_convert_to_int8 self =
     (if \<not> ten_type_is_compatible (ten_value_get_type self) TEN_TYPE_INT8
      then Some (Inl (unsupported_conversion self ''int8''))
      else case self of
        V_int8 _ \<Rightarrow>
          Some (Inr self)
      | V_int16 content \<Rightarrow>
          if can_convert_int16_to_int8 content then Some (Inr (ten_value_init_int8 (scast content)))
          else Some (Inl (out_of_range ''int8''))
      | V_int32 content \<Rightarrow>
          if can_convert_int32_to_int8 content then Some (Inr (ten_value_init_int8 (scast content)))
          else Some (Inl (out_of_range ''int8''))
      | V_int64 content \<Rightarrow>
          if can_convert_int64_to_int8 content then Some (Inr (ten_value_init_int8 (scast content)))
          else Some (Inl (out_of_range ''int8''))
      | V_uint8 content \<Rightarrow>
          if can_convert_uint8_to_int8 content then Some (Inr (ten_value_init_int8 (ucast content)))
          else Some (Inl (out_of_range ''int8''))
      | V_uint16 content \<Rightarrow>
          if can_convert_uint16_to_int8 content then Some (Inr (ten_value_init_int8 (ucast content)))
          else Some (Inl (out_of_range ''int8''))
      | V_uint32 content \<Rightarrow>
          if can_convert_uint32_to_int8 content then Some (Inr (ten_value_init_int8 (ucast content)))
          else Some (Inl (out_of_range ''int8''))
      | V_uint64 content \<Rightarrow>
          if can_convert_uint64_to_int8 content then Some (Inr (ten_value_init_int8 (ucast content)))
          else Some (Inl (out_of_range ''int8''))
      | _ \<Rightarrow> None)"

definition ten_value_convert_to_int16 :: "ten_value \<Rightarrow> (ten_error + ten_value) run" where
  "ten_value_convert_to_int16 self =
     (if \<not> ten_type_is_compatible (ten_value_get_type self) TEN_TYPE_INT16
      then Some (Inl (unsupported_conversion self ''int16''))
      else case self of
        V_int8 content \<Rightarrow>
          Some (Inr (ten_value_init_int16 (scast content)))
      | V_int16 _ \<Rightarrow>
          Some (Inr self)
      | V_int32 content \<Rightarrow>
          if can_convert_int32_to_int16 content then Some (Inr (ten_value_init_int16 (scast content)))
          else Some (Inl (out_of_range ''int16''))
      | V_int64 content \<Rightarrow>
          if can_convert_int64_to_int16 content then Some (Inr (ten_value_init_int16 (scast content)))
          else Some (Inl (out_of_range ''int16''))
      | V_uint8 content \<Rightarrow>
          Some (Inr (ten_value_init_int16 (ucast content)))
      | V_uint16 content \<Rightarrow>
          if can_convert_uint16_to_int16 content then Some (Inr (ten_value_init_int16 (ucast content)))
          else Some (Inl (out_of_range ''int16''))
      | V_uint32 content \<Rightarrow>
          if can_convert_uint32_to_int16 content then Some (Inr (ten_value_init_int16 (ucast content)))
          else Some (Inl (out_of_range ''int16''))
      | V_uint64 content \<Rightarrow>
          if can_convert_uint64_to_int16 content then Some (Inr (ten_value_init_int16 (ucast content)))
          else Some (Inl (out_of_range ''int16''))
      | _ \<Rightarrow> None)"

definition ten_value_convert_to_int32 :: "ten_value \<Rightarrow> (ten_error + ten_value) run" where
  "ten_value_convert_to_int32 self =
     (if \<not> ten_type_is_compatible (ten_value_get_type self) TEN_TYPE_INT32
      then Some (Inl (unsupported_conversion self ''int32''))
      else case self of
        V_int8 content \<Rightarrow>
          Some (Inr (ten_value_init_int32 (scast content)))
      | V_int16 content \<Rightarrow>
          Some (Inr (ten_value_init_int32 (scast content)))
      | V_int32 _ \<Rightarrow>
          Some (Inr self)
      | V_int64 content \<Rightarrow>
          if can_convert_int64_to_int32 content then Some (Inr (ten_value_init_int32 (scast content)))
          else Some (Inl (out_of_range ''int32''))
      | V_uint8 content \<Rightarrow>
          Some (Inr (ten_value_init_int32 (ucast content)))
      | V_uint16 content \<Rightarrow>
          Some (Inr (ten_value_init_int32 (ucast content)))
      | V_uint32 content \<Rightarrow>
          if can_convert_uint32_to_int32 content then Some (Inr (ten_value_init_int32 (ucast content)))
          else Some (Inl (out_of_range ''int32''))
      | V_uint64 content \<Rightarrow>
          if can_convert_uint64_to_int32 content then Some (Inr (ten_value_init_int32 (ucast content)))
          else Some (Inl (out_of_range ''int32''))
      | _ \<Rightarrow> None)"

definition ten_value_convert_to_int64 :: "ten_value \<Rightarrow> (ten_error + ten_value) run" where
  "ten_value_convert_to_int64 self =
     (if \<not> ten_type_is_compatible (ten_value_get_type self) TEN_TYPE_INT64
      then Some (Inl (unsupported_conversion self ''int64''))
      else case self of
        V_int8 content \<Rightarrow>
          Some (Inr (ten_value_init_int64 (scast content)))
      | V_int16 content \<Rightarrow>
          Some (Inr (ten_value_init_int64 (scast content)))
      | V_int32 content \<Rightarrow>
          Some (Inr (ten_value_init_int64 (scast content)))
      | V_int64 _ \<Rightarrow>
          Some (Inr self)
      | V_uint8 content \<Rightarrow>
          Some (Inr (ten_value_init_int64 (ucast content)))
      | V_uint16 content \<Rightarrow>
          Some (Inr (ten_value_init_int64 (ucast content)))
      | V_uint32 content \<Rightarrow>
          Some (Inr (ten_value_init_int64 (ucast content)))
      | V_uint64 content \<Rightarrow>
          if can_convert_uint64_to_int64 content then Some (Inr (ten_value_init_int64 (ucast content)))
          else Some (Inl (out_of_range ''int64''))
      | _ \<Rightarrow> None)"

definition ten_value_convert_to_uint8 :: "ten_value \<Rightarrow> (ten_error + ten_value) run" where
  "ten_value_convert_to_uint8 self =
     (if \<not> ten_type_is_compatible (ten_value_get_type self) TEN_TYPE_UINT8
      then Some (Inl (unsupported_conversion self ''uint8''))
      else case self of
        V_int8 content \<Rightarrow>
          if can_convert_int8_to_uint8 content then Some (Inr (ten_value_init_uint8 (scast content)))
          else Some (Inl (out_of_range ''uint8''))
      | V_int16 content \<Rightarrow>
          if can_convert_int16_to_uint8 content then Some (Inr (ten_value_init_uint8 (scast content)))
          else Some (Inl (out_of_range ''uint8''))
      | V_int32 content \<Rightarrow>
          if can_convert_int32_to_uint8 content then Some (Inr (ten_value_init_uint8 (scast content)))
          else Some (Inl (out_of_range ''uint8''))
      | V_int64 content \<Rightarrow>
          if can_convert_int64_to_uint8 content then Some (Inr (ten_value_init_uint8 (scast content)))
          else Some (Inl (out_of_range ''uint8''))
      | V_uint8 _ \<Rightarrow>
          Some (Inr self)
      | V_uint16 content \<Rightarrow>
          if can_convert_uint16_to_uint8 content then Some (Inr (ten_value_init_uint8 (ucast content)))
          else Some (Inl (out_of_range ''uint8''))
      | V_uint32 content \<Rightarrow>
          if can_convert_uint32_to_uint8 content then Some (Inr (ten_value_init_uint8 (ucast content)))
          else Some (Inl (out_of_range ''uint8''))
      | V_uint64 content \<Rightarrow>
          if can_convert_uint64_to_uint8 content then Some (Inr (ten_value_init_uint8 (ucast content)))
          else Some (Inl (out_of_range ''uint8''))
      | _ \<Rightarrow> None)"

definition ten_value_convert_to_uint16 :: "ten_value \<Rightarrow> (ten_error + ten_value) run" where
  "ten_value_convert_to_uint16 self =
     (if \<not> ten_type_is_compatible (ten_value_get_type self) TEN_TYPE_UINT16
      then Some (Inl (unsupported_conversion self ''uint16''))
      else case self of
        V_int8 content \<Rightarrow>
          if can_convert_int8_to_uint16 content then Some (Inr (ten_value_init_uint16 (scast content)))
          else Some (Inl (out_of_range ''uint16''))
      | V_int16 content \<Rightarrow>
          if can_convert_int16_to_uint16 content then Some (Inr (ten_value_init_uint16 (scast content)))
          else Some (Inl (out_of_range ''uint16''))
      | V_int32 content \<Rightarrow>
          if can_convert_int32_to_uint16 content then Some (Inr (ten_value_init_uint16 (scast content)))
          else Some (Inl (out_of_range ''uint16''))
      | V_int64 content \<Rightarrow>
          if can_convert_int64_to_uint16 content then Some (Inr (ten_value_init_uint16 (scast content)))
          else Some (Inl (out_of_range ''uint16''))
      | V_uint8 content \<Rightarrow>
          Some (Inr (ten_value_init_uint16 (ucast content)))
      | V_uint16 _ \<Rightarrow>
          Some (Inr self)
      | V_uint32 content \<Rightarrow>
          if can_convert_uint32_to_uint16 content then Some (Inr (ten_value_init_uint16 (ucast content)))
          else Some (Inl (out_of_range ''uint16''))
      | V_uint64 content \<Rightarrow>
          if can_convert_uint64_to_uint16 content then Some (Inr (ten_value_init_uint16 (ucast content)))
          else Some (Inl (out_of_range ''uint16''))
      | _ \<Rightarrow> None)"

definition ten_value_convert_to_uint32 :: "ten_value \<Rightarrow> (ten_error + ten_value) run" where
  "ten_value_convert_to_uint32 self =
     (if \<not> ten_type_is_compatible (ten_value_get_type self) TEN_TYPE_UINT32
      then Some (Inl (unsupported_conversion self ''uint32''))
      else case self of
        V_int8 content \<Rightarrow>
          if can_convert_int8_to_uint32 content then Some (Inr (ten_value_init_uint32 (scast content)))
          else Some (Inl (out_of_range ''uint32''))
      | V_int16 content \<Rightarrow>
          if can_convert_int16_to_uint32 content then Some (Inr (ten_value_init_uint32 (scast content)))
          else Some (Inl (out_of_range ''uint32''))
      | V_int32 content \<Rightarrow>
          if can_convert_int32_to_uint32 content then Some (Inr (ten_value_init_uint32 (scast content)))
          else Some (Inl (out_of_range ''uint32''))
      | V_int64 content \<Rightarrow>
          if can_convert_int64_to_uint32 content then Some (Inr (ten_value_init_uint32 (scast content)))
          else Some (Inl (out_of_range ''uint32''))
      | V_uint8 content \<Rightarrow>
          Some (Inr (ten_value_init_uint32 (ucast content)))
      | V_uint16 content \<Rightarrow>
          Some (Inr (ten_value_init_uint32 (ucast content)))
      | V_uint32 _ \<Rightarrow>
          Some (Inr self)
      | V_uint64 content \<Rightarrow>
          if can_convert_uint64_to_uint32 content then Some (Inr (ten_value_init_uint32 (ucast content)))
          else Some (Inl (out_of_range ''uint32''))
      | _ \<Rightarrow> None)"

definition ten_value_convert_to_uint64 :: "ten_value \<Rightarrow> (ten_error + ten_value) run" where
  "ten_value_convert_to_uint64 self =
     (if \<not> ten_type_is_compatible (ten_value_get_type self) TEN_TYPE_UINT64
      then Some (Inl (unsupported_conversion self ''uint64''))
      else case self of
        V_uint8 content \<Rightarrow>
          Some (Inr (ten_value_init_uint64 (ucast content)))
      | V_uint16 content \<Rightarrow>
          Some (Inr (ten_value_init_uint64 (ucast content)))
      | V_uint32 content \<Rightarrow>
          Some (Inr (ten_value_init_uint64 (ucast content)))
      | V_uint64 _ \<Rightarrow>
          Some (Inr self)
      | V_int8 content \<Rightarrow>
          if can_convert_int8_to_uint64 content then Some (Inr (ten_value_init_uint64 (scast content)))
          else Some (Inl (out_of_range ''uint64''))
      | V_int16 content \<Rightarrow>
          if can_convert_int16_to_uint64 content then Some (Inr (ten_value_init_uint64 (scast content)))
          else Some (Inl (out_of_range ''uint64''))
      | V_int32 content \<Rightarrow>
          if can_convert_int32_to_uint64 content then Some (Inr (ten_value_init_uint64 (scast content)))
          else Some (Inl (out_of_range ''uint64''))
      | V_int64 content \<Rightarrow>
          if can_convert_int64_to_uint64 content then Some (Inr (ten_value_init_uint64 (scast content)))
          else Some (Inl (out_of_range ''uint64''))
      | _ \<Rightarrow> None)"

definition ten_value_convert_to_float32 :: "fp_host \<Rightarrow> ten_value \<Rightarrow> (ten_error + ten_value) run" where
  "ten_value_convert_to_float32 h self =
     (if \<not> ten_type_is_compatible (ten_value_get_type self) TEN_TYPE_FLOAT32
      then Some (Inl (unsupported_conversion self ''float32''))
      else case self of
        V_int8 content \<Rightarrow>
          Some (Inr (ten_value_init_float32 (int_to_float32 (sint content))))
      | V_int16 content \<Rightarrow>
          Some (Inr (ten_value_init_float32 (int_to_float32 (sint content))))
      | V_int32 content \<Rightarrow>
          if can_convert_int32_to_float32 h content then Some (Inr (ten_value_init_float32 (int_to_float32 (sint content))))
          else Some (Inl (out_of_range ''float32''))
      | V_int64 content \<Rightarrow>
          if can_convert_int64_to_float32 h content then Some (Inr (ten_value_init_float32 (int_to_float32 (sint content))))
          else Some (Inl (out_of_range ''float32''))
      | V_uint8 content \<Rightarrow>
          Some (Inr (ten_value_init_float32 (int_to_float32 (uint content))))
      | V_uint16 content \<Rightarrow>
          Some (Inr (ten_value_init_float32 (int_to_float32 (uint content))))
      | V_uint32 content \<Rightarrow>
          if can_convert_uint32_to_float32 h content then Some (Inr (ten_value_init_float32 (int_to_float32 (uint content))))
          else Some (Inl (out_of_range ''float32''))
      | V_uint64 content \<Rightarrow>
          if can_convert_uint64_to_float32 h content then Some (Inr (ten_value_init_float32 (int_to_float32 (uint content))))
          else Some (Inl (out_of_range ''float32''))
      | V_float32 _ \<Rightarrow>
          Some (Inr self)
      | V_float64 content \<Rightarrow>
          if can_convert_float64_to_float32 content then Some (Inr (ten_value_init_float32 (to_float32 content)))
          else Some (Inl (out_of_range ''float32''))
      | _ \<Rightarrow> None)"

definition ten_value_convert_to_float64 :: "fp_host \<Rightarrow> ten_value \<Rightarrow> (ten_error + ten_value) run" where
  "ten_value_convert_to_float64 h self =
     (if \<not> ten_type_is_compatible (ten_value_get_type self) TEN_TYPE_FLOAT64
      then Some (Inl (unsupported_conversion self ''float64''))
      else case self of
        V_int8 content \<Rightarrow>
          Some (Inr (ten_value_init_float64 (int_to_float32 (sint content))))
      | V_int16 content \<Rightarrow>
          Some (Inr (ten_value_init_float64 (int_to_float32 (sint content))))
      | V_int32 content \<Rightarrow>
          Some (Inr (ten_value_init_float64 (int_to_float32 (sint content))))
      | V_int64 content \<Rightarrow>
          if can_convert_int64_to_float64 h content then Some (Inr (ten_value_init_float64 (int_to_float32 (sint content))))
          else Some (Inl (out_of_range ''float64''))
      | V_uint8 content \<Rightarrow>
          Some (Inr (ten_value_init_float64 (int_to_float32 (uint content))))
      | V_uint16 content \<Rightarrow>
          Some (Inr (ten_value_init_float64 (int_to_float32 (uint content))))
      | V_uint32 content \<Rightarrow>
          Some (Inr (ten_value_init_float64 (int_to_float32 (uint content))))
      | V_uint64 content \<Rightarrow>
          if can_convert_uint64_to_float64 h content then Some (Inr (ten_value_init_float64 (int_to_float32 (uint content))))
          else Some (Inl (out_of_range ''float64''))
      | V_float32 content \<Rightarrow>
          Some (Inr (ten_value_init_float64 (to_float64 content)))
      | V_float64 _ \<Rightarrow>
          Some (Inr self)
      | _ \<Rightarrow> None)"

section \<open>The integer a value carries\<close>

fun int_of :: "ten_value \<Rightarrow> int option" where
  "int_of (V_int8 w) = Some (sint w)"
| "int_of (V_int16 w) = Some (sint w)"
| "int_of (V_int32 w) = Some (sint w)"
| "int_of (V_int64 w) = Some (sint w)"
| "int_of (V_uint8 w) = Some (uint w)"
| "int_of (V_uint16 w) = Some (uint w)"
| "int_of (V_uint32 w) = Some (uint w)"
| "int_of (V_uint64 w) = Some (uint w)"
| "int_of _ = None"

fun int_range :: "ten_type \<Rightarrow> (int \<times> int) option" where
  "int_range TEN_TYPE_INT8 = Some (INT8_MIN, INT8_MAX)"
| "int_range TEN_TYPE_INT16 = Some (INT16_MIN, INT16_MAX)"
| "int_range TEN_TYPE_INT32 = Some (INT32_MIN, INT32_MAX)"
| "int_range TEN_TYPE_INT64 = Some (INT64_MIN, INT64_MAX)"
| "int_range TEN_TYPE_UINT8 = Some (0, UINT8_MAX)"
| "int_range TEN_TYPE_UINT16 = Some (0, UINT16_MAX)"
| "int_range TEN_TYPE_UINT32 = Some (0, UINT32_MAX)"
| "int_range TEN_TYPE_UINT64 = Some (0, UINT64_MAX)"
| "int_range _ = None"

lemma int_of_type: "int_of v = Some n \<Longrightarrow> TEN_IS_INTEGER_TYPE (ten_value_get_type v)"
  by (cases v) simp_all

lemma int_of_None_iff: "int_of v = None \<longleftrightarrow> \<not> TEN_IS_INTEGER_TYPE (ten_value_get_type v)"
  by (cases v) simp_all

text \<open>Type and integer determine the value, and the integer is in the range of the type.\<close>

lemma int_of_inj:
  "int_of v = Some n \<Longrightarrow> int_of w = Some n \<Longrightarrow> ten_value_get_type v = ten_value_get_type w \<Longrightarrow> v = w"
  by (cases v; cases w) (auto simp: word_eq_iff_signed [symmetric] word_eq_iff_unsigned [symmetric])

lemma int_of_range:
  assumes "int_of v = Some n" and "int_range (ten_value_get_type v) = Some (lo, hi)"
  shows "lo \<le> n \<and> n \<le> hi"
proof (cases v)
  case (V_int8 w) then show ?thesis using assms sint_bounds [of w] by auto
next
  case (V_int16 w) then show ?thesis using assms sint_bounds [of w] by auto
next
  case (V_int32 w) then show ?thesis using assms sint_bounds [of w] by auto
next
  case (V_int64 w) then show ?thesis using assms sint_bounds [of w] by auto
next
  case (V_uint8 w) then show ?thesis using assms uint_bounds [of w] by auto
next
  case (V_uint16 w) then show ?thesis using assms uint_bounds [of w] by auto
next
  case (V_uint32 w) then show ?thesis using assms uint_bounds [of w] by auto
next
  case (V_uint64 w) then show ?thesis using assms uint_bounds [of w] by auto
qed (use assms in auto)

section \<open>The contract of an integer conversion\<close>

locale int_conversion =
  fixes conv :: "ten_value \<Rightarrow> (ten_error + ten_value) run"
    and ty :: ten_type
    and lo hi :: int
  assumes range: "int_range ty = Some (lo, hi)"
    and fits: "int_of v = Some n \<Longrightarrow> lo \<le> n \<Longrightarrow> n \<le> hi \<Longrightarrow>
      \<exists>v'. conv v = Some (Inr v') \<and> int_of v' = Some n \<and> ten_value_get_type v' = ty"
    and misfits: "int_of v = Some n \<Longrightarrow> n < lo \<or> hi < n \<Longrightarrow>
      conv v = Some (Inl (out_of_range (fmt_type ty)))"
    and not_int: "int_of v = None \<Longrightarrow>
      conv v = Some (Inl (unsupported_conversion v (fmt_type ty)))"
begin

lemma ty_is_integer: "TEN_IS_INTEGER_TYPE ty"
  using range by (cases ty) simp_all

lemma conv_total: "\<exists>r. conv v = Some r"
proof (cases "int_of v")
  case None
  then show ?thesis using not_int by blast
next
  case (Some n)
  then show ?thesis using fits misfits by (meson not_less)
qed

lemma conv_Inr_iff:
  "conv v = Some (Inr v') \<longleftrightarrow>
     (\<exists>n. int_of v = Some n \<and> lo \<le> n \<and> n \<le> hi \<and> int_of v' = Some n \<and> ten_value_get_type v' = ty)"
  (is "_ \<longleftrightarrow> ?R")
proof
  assume c: "conv v = Some (Inr v')"
  then obtain n where n: "int_of v = Some n"
    using not_int by (cases "int_of v") auto
  then have "lo \<le> n \<and> n \<le> hi"
    using c misfits [OF n] by force
  with n c fits [OF n] show ?R by auto
next
  assume ?R
  then obtain n where n: "int_of v = Some n" "lo \<le> n" "n \<le> hi"
    and v': "int_of v' = Some n" "ten_value_get_type v' = ty" by blast
  from fits [OF n] obtain w where w: "conv v = Some (Inr w)" "int_of w = Some n"
    "ten_value_get_type w = ty" by blast
  then have "w = v'" using v' int_of_inj by metis
  with w show "conv v = Some (Inr v')" by simp
qed

lemma conv_Inl_iff:
  "conv v = Some (Inl e) \<longleftrightarrow>
     (int_of v = None \<and> e = unsupported_conversion v (fmt_type ty) \<or>
      (\<exists>n. int_of v = Some n \<and> (n < lo \<or> hi < n) \<and> e = out_of_range (fmt_type ty)))"
proof (cases "int_of v")
  case None
  then show ?thesis using not_int by auto
next
  case (Some n)
  show ?thesis
  proof (cases "lo \<le> n \<and> n \<le> hi")
    case True
    then show ?thesis using Some fits [OF Some] by auto
  next
    case False
    then have "n < lo \<or> hi < n" by linarith
    then show ?thesis using Some misfits [OF Some] by auto
  qed
qed

lemma conv_idem: "conv v = Some (Inr v') \<Longrightarrow> conv v' = Some (Inr v')"
  by (auto simp: conv_Inr_iff)

end

lemmas convert_to_int_defs =
  ten_value_convert_to_int8_def ten_value_convert_to_int16_def ten_value_convert_to_int32_def
  ten_value_convert_to_int64_def ten_value_convert_to_uint8_def ten_value_convert_to_uint16_def
  ten_value_convert_to_uint32_def ten_value_convert_to_uint64_def

lemmas fmt_type_defs = fmt_type_def ten_type_to_string_def

text \<open>
  Case analysis on an integer value in which every word comes with its bounds, so that the range
  conditions of the casts are linear facts of the case.
\<close>

lemma int_value_cases [consumes 1]:
  assumes "int_of v = Some n"
  obtains
    (i8) w where "v = V_int8 w" "n = sint w" "- 128 \<le> sint w" "sint w < 128"
  | (i16) w where "v = V_int16 w" "n = sint w" "- 32768 \<le> sint w" "sint w < 32768"
  | (i32) w where "v = V_int32 w" "n = sint w" "- 2147483648 \<le> sint w" "sint w < 2147483648"
  | (i64) w where "v = V_int64 w" "n = sint w"
      "- 9223372036854775808 \<le> sint w" "sint w < 9223372036854775808"
  | (u8) w where "v = V_uint8 w" "n = uint w" "0 \<le> uint w" "uint w < 256"
  | (u16) w where "v = V_uint16 w" "n = uint w" "0 \<le> uint w" "uint w < 65536"
  | (u32) w where "v = V_uint32 w" "n = uint w" "0 \<le> uint w" "uint w < 4294967296"
  | (u64) w where "v = V_uint64 w" "n = uint w" "0 \<le> uint w" "uint w < 18446744073709551616"
  using assms int_of_range [OF assms] by (cases v) fastforce+

section \<open>The eight conversions meet the contract\<close>

lemmas int_conversion_simps = cast_in_range can_convert_int_defs ten_type_is_compatible_iff

lemma unsupported_unless_int:
  "int_of v = None \<Longrightarrow> TEN_IS_INTEGER_TYPE ty \<Longrightarrow> \<not> ten_type_is_compatible (ten_value_get_type v) ty"
  by (auto simp: ten_type_is_compatible_iff int_of_None_iff)

lemma convert_to_int8_fits:
  "int_of v = Some n \<Longrightarrow> INT8_MIN \<le> n \<Longrightarrow> n \<le> INT8_MAX \<Longrightarrow>
   \<exists>v'. ten_value_convert_to_int8 v = Some (Inr v') \<and> int_of v' = Some n \<and>
     ten_value_get_type v' = TEN_TYPE_INT8"
  by (erule int_value_cases)
    (simp_all add: ten_value_convert_to_int8_def int_conversion_simps sint_eq_uint_in_range)

lemma convert_to_int8_misfits:
  "int_of v = Some n \<Longrightarrow> n < INT8_MIN \<or> INT8_MAX < n \<Longrightarrow>
   ten_value_convert_to_int8 v = Some (Inl (out_of_range (fmt_type TEN_TYPE_INT8)))"
  by (erule int_value_cases)
    (auto simp: ten_value_convert_to_int8_def int_conversion_simps fmt_type_defs)

lemma convert_to_int8_rejects:
  "int_of v = None \<Longrightarrow>
   ten_value_convert_to_int8 v = Some (Inl (unsupported_conversion v (fmt_type TEN_TYPE_INT8)))"
  by (simp add: ten_value_convert_to_int8_def unsupported_unless_int fmt_type_defs)

interpretation to_int8: int_conversion ten_value_convert_to_int8 TEN_TYPE_INT8 "INT8_MIN" INT8_MAX
  using convert_to_int8_fits convert_to_int8_misfits convert_to_int8_rejects
  by unfold_locales simp_all

lemma convert_to_int16_fits:
  "int_of v = Some n \<Longrightarrow> INT16_MIN \<le> n \<Longrightarrow> n \<le> INT16_MAX \<Longrightarrow>
   \<exists>v'. ten_value_convert_to_int16 v = Some (Inr v') \<and> int_of v' = Some n \<and>
     ten_value_get_type v' = TEN_TYPE_INT16"
  by (erule int_value_cases)
    (simp_all add: ten_value_convert_to_int16_def int_conversion_simps sint_eq_uint_in_range)

lemma convert_to_int16_misfits:
  "int_of v = Some n \<Longrightarrow> n < INT16_MIN \<or> INT16_MAX < n \<Longrightarrow>
   ten_value_convert_to_int16 v = Some (Inl (out_of_range (fmt_type TEN_TYPE_INT16)))"
  by (erule int_value_cases)
    (auto simp: ten_value_convert_to_int16_def int_conversion_simps fmt_type_defs)

lemma convert_to_int16_rejects:
  "int_of v = None \<Longrightarrow>
   ten_value_convert_to_int16 v = Some (Inl (unsupported_conversion v (fmt_type TEN_TYPE_INT16)))"
  by (simp add: ten_value_convert_to_int16_def unsupported_unless_int fmt_type_defs)

interpretation to_int16: int_conversion ten_value_convert_to_int16 TEN_TYPE_INT16 "INT16_MIN" INT16_MAX
  using convert_to_int16_fits convert_to_int16_misfits convert_to_int16_rejects
  by unfold_locales simp_all

lemma convert_to_int32_fits:
  "int_of v = Some n \<Longrightarrow> INT32_MIN \<le> n \<Longrightarrow> n \<le> INT32_MAX \<Longrightarrow>
   \<exists>v'. ten_value_convert_to_int32 v = Some (Inr v') \<and> int_of v' = Some n \<and>
     ten_value_get_type v' = TEN_TYPE_INT32"
  by (erule int_value_cases)
    (simp_all add: ten_value_convert_to_int32_def int_conversion_simps sint_eq_uint_in_range)

lemma convert_to_int32_misfits:
  "int_of v = Some n \<Longrightarrow> n < INT32_MIN \<or> INT32_MAX < n \<Longrightarrow>
   ten_value_convert_to_int32 v = Some (Inl (out_of_range (fmt_type TEN_TYPE_INT32)))"
  by (erule int_value_cases)
    (auto simp: ten_value_convert_to_int32_def int_conversion_simps fmt_type_defs)

lemma convert_to_int32_rejects:
  "int_of v = None \<Longrightarrow>
   ten_value_convert_to_int32 v = Some (Inl (unsupported_conversion v (fmt_type TEN_TYPE_INT32)))"
  by (simp add: ten_value_convert_to_int32_def unsupported_unless_int fmt_type_defs)

interpretation to_int32: int_conversion ten_value_convert_to_int32 TEN_TYPE_INT32 "INT32_MIN" INT32_MAX
  using convert_to_int32_fits convert_to_int32_misfits convert_to_int32_rejects
  by unfold_locales simp_all

lemma convert_to_int64_fits:
  "int_of v = Some n \<Longrightarrow> INT64_MIN \<le> n \<Longrightarrow> n \<le> INT64_MAX \<Longrightarrow>
   \<exists>v'. ten_value_convert_to_int64 v = Some (Inr v') \<and> int_of v' = Some n \<and>
     ten_value_get_type v' = TEN_TYPE_INT64"
  by (erule int_value_cases)
    (simp_all add: ten_value_convert_to_int64_def int_conversion_simps sint_eq_uint_in_range)

lemma convert_to_int64_misfits:
  "int_of v = Some n \<Longrightarrow> n < INT64_MIN \<or> INT64_MAX < n \<Longrightarrow>
   ten_value_convert_to_int64 v = Some (Inl (out_of_range (fmt_type TEN_TYPE_INT64)))"
  by (erule int_value_cases)
    (auto simp: ten_value_convert_to_int64_def int_conversion_simps fmt_type_defs)

lemma convert_to_int64_rejects:
  "int_of v = None \<Longrightarrow>
   ten_value_convert_to_int64 v = Some (Inl (unsupported_conversion v (fmt_type TEN_TYPE_INT64)))"
  by (simp add: ten_value_convert_to_int64_def unsupported_unless_int fmt_type_defs)

interpretation to_int64: int_conversion ten_value_convert_to_int64 TEN_TYPE_INT64 "INT64_MIN" INT64_MAX
  using convert_to_int64_fits convert_to_int64_misfits convert_to_int64_rejects
  by unfold_locales simp_all

lemma convert_to_uint8_fits:
  "int_of v = Some n \<Longrightarrow> 0 \<le> n \<Longrightarrow> n \<le> UINT8_MAX \<Longrightarrow>
   \<exists>v'. ten_value_convert_to_uint8 v = Some (Inr v') \<and> int_of v' = Some n \<and>
     ten_value_get_type v' = TEN_TYPE_UINT8"
  by (erule int_value_cases)
    (simp_all add: ten_value_convert_to_uint8_def int_conversion_simps uint_eq_sint_in_range)

lemma convert_to_uint8_misfits:
  "int_of v = Some n \<Longrightarrow> n < 0 \<or> UINT8_MAX < n \<Longrightarrow>
   ten_value_convert_to_uint8 v = Some (Inl (out_of_range (fmt_type TEN_TYPE_UINT8)))"
  by (erule int_value_cases)
    (auto simp: ten_value_convert_to_uint8_def int_conversion_simps fmt_type_defs)

lemma convert_to_uint8_rejects:
  "int_of v = None \<Longrightarrow>
   ten_value_convert_to_uint8 v = Some (Inl (unsupported_conversion v (fmt_type TEN_TYPE_UINT8)))"
  by (simp add: ten_value_convert_to_uint8_def unsupported_unless_int fmt_type_defs)

interpretation to_uint8: int_conversion ten_value_convert_to_uint8 TEN_TYPE_UINT8 "0" UINT8_MAX
  using convert_to_uint8_fits convert_to_uint8_misfits convert_to_uint8_rejects
  by unfold_locales simp_all

lemma convert_to_uint16_fits:
  "int_of v = Some n \<Longrightarrow> 0 \<le> n \<Longrightarrow> n \<le> UINT16_MAX \<Longrightarrow>
   \<exists>v'. ten_value_convert_to_uint16 v = Some (Inr v') \<and> int_of v' = Some n \<and>
     ten_value_get_type v' = TEN_TYPE_UINT16"
  by (erule int_value_cases)
    (simp_all add: ten_value_convert_to_uint16_def int_conversion_simps uint_eq_sint_in_range)

lemma convert_to_uint16_misfits:
  "int_of v = Some n \<Longrightarrow> n < 0 \<or> UINT16_MAX < n \<Longrightarrow>
   ten_value_convert_to_uint16 v = Some (Inl (out_of_range (fmt_type TEN_TYPE_UINT16)))"
  by (erule int_value_cases)
    (auto simp: ten_value_convert_to_uint16_def int_conversion_simps fmt_type_defs)

lemma convert_to_uint16_rejects:
  "int_of v = None \<Longrightarrow>
   ten_value_convert_to_uint16 v = Some (Inl (unsupported_conversion v (fmt_type TEN_TYPE_UINT16)))"
  by (simp add: ten_value_convert_to_uint16_def unsupported_unless_int fmt_type_defs)

interpretation to_uint16: int_conversion ten_value_convert_to_uint16 TEN_TYPE_UINT16 "0" UINT16_MAX
  using convert_to_uint16_fits convert_to_uint16_misfits convert_to_uint16_rejects
  by unfold_locales simp_all

lemma convert_to_uint32_fits:
  "int_of v = Some n \<Longrightarrow> 0 \<le> n \<Longrightarrow> n \<le> UINT32_MAX \<Longrightarrow>
   \<exists>v'. ten_value_convert_to_uint32 v = Some (Inr v') \<and> int_of v' = Some n \<and>
     ten_value_get_type v' = TEN_TYPE_UINT32"
  by (erule int_value_cases)
    (simp_all add: ten_value_convert_to_uint32_def int_conversion_simps uint_eq_sint_in_range)

lemma convert_to_uint32_misfits:
  "int_of v = Some n \<Longrightarrow> n < 0 \<or> UINT32_MAX < n \<Longrightarrow>
   ten_value_convert_to_uint32 v = Some (Inl (out_of_range (fmt_type TEN_TYPE_UINT32)))"
  by (erule int_value_cases)
    (auto simp: ten_value_convert_to_uint32_def int_conversion_simps fmt_type_defs)

lemma convert_to_uint32_rejects:
  "int_of v = None \<Longrightarrow>
   ten_value_convert_to_uint32 v = Some (Inl (unsupported_conversion v (fmt_type TEN_TYPE_UINT32)))"
  by (simp add: ten_value_convert_to_uint32_def unsupported_unless_int fmt_type_defs)

interpretation to_uint32: int_conversion ten_value_convert_to_uint32 TEN_TYPE_UINT32 "0" UINT32_MAX
  using convert_to_uint32_fits convert_to_uint32_misfits convert_to_uint32_rejects
  by unfold_locales simp_all

lemma convert_to_uint64_fits:
  "int_of v = Some n \<Longrightarrow> 0 \<le> n \<Longrightarrow> n \<le> UINT64_MAX \<Longrightarrow>
   \<exists>v'. ten_value_convert_to_uint64 v = Some (Inr v') \<and> int_of v' = Some n \<and>
     ten_value_get_type v' = TEN_TYPE_UINT64"
  by (erule int_value_cases)
    (simp_all add: ten_value_convert_to_uint64_def int_conversion_simps uint_eq_sint_in_range)

lemma convert_to_uint64_misfits:
  "int_of v = Some n \<Longrightarrow> n < 0 \<or> UINT64_MAX < n \<Longrightarrow>
   ten_value_convert_to_uint64 v = Some (Inl (out_of_range (fmt_type TEN_TYPE_UINT64)))"
  by (erule int_value_cases)
    (auto simp: ten_value_convert_to_uint64_def int_conversion_simps fmt_type_defs)

lemma convert_to_uint64_rejects:
  "int_of v = None \<Longrightarrow>
   ten_value_convert_to_uint64 v = Some (Inl (unsupported_conversion v (fmt_type TEN_TYPE_UINT64)))"
  by (simp add: ten_value_convert_to_uint64_def unsupported_unless_int fmt_type_defs)

interpretation to_uint64: int_conversion ten_value_convert_to_uint64 TEN_TYPE_UINT64 "0" UINT64_MAX
  using convert_to_uint64_fits convert_to_uint64_misfits convert_to_uint64_rejects
  by unfold_locales simp_all

section \<open>Conversions to floating point\<close>

text \<open>A cast that passes its range test does not depend on the undefined results of the host.\<close>

lemma can_convert_signed:
  "fp_ge x (fp_neg (ldexp1 k)) \<Longrightarrow> fp_lt x (ldexp1 k) \<Longrightarrow>
   \<exists>n. fp_trunc x = Some n \<and> - (2 ^ k) \<le> n \<and> n < 2 ^ k"
  using fp_trunc_range [of k x] by (simp add: fp_ge_def ldexp1_def)

lemma fp_le_zero_pow: "fp_le (FP_Zero False) x \<Longrightarrow> fp_lt x (FP_Fin 1 k) \<Longrightarrow> fp_le (FP_Fin (- 1) k) x"
  by (cases x) (auto simp: fin_le_def mult_le_0_iff order_trans [of "- _" 0 "_ * _"])

lemma can_convert_unsigned:
  "fp_ge x (FP_Zero False) \<Longrightarrow> fp_lt x (ldexp1 k) \<Longrightarrow>
   \<exists>n. fp_trunc x = Some n \<and> 0 \<le> n \<and> n < 2 ^ k"
  using fp_trunc_range [of k x] fp_trunc_nonneg [of x] fp_le_zero_pow [of x "int k"]
  by (auto simp: fp_ge_def ldexp1_def)

lemma c_float_to_int_exact [simp]:
  "fp_trunc x = Some n \<Longrightarrow> lo \<le> n \<Longrightarrow> n \<le> hi \<Longrightarrow> c_float_to_int oor lo hi x = n"
  by (simp add: c_float_to_int_def)

lemma c_float_to_int_eq:
  "n = c_float_to_int oor lo hi x \<Longrightarrow> n \<noteq> oor \<Longrightarrow> fp_trunc x = Some n"
  by (auto simp: c_float_to_int_def split: option.splits if_splits)

lemmas can_convert_float_defs = can_convert_int32_to_float32_def can_convert_int64_to_float32_def
  can_convert_uint32_to_float32_def can_convert_uint64_to_float32_def
  can_convert_int32_to_float64_def can_convert_int64_to_float64_def
  can_convert_uint32_to_float64_def can_convert_uint64_to_float64_def

lemma convert_to_float64_small:
  "int_of v = Some n \<Longrightarrow> \<bar>n\<bar> < 2 ^ 24 \<Longrightarrow>
   ten_value_convert_to_float64 h v = Some (Inr (V_float64 (fp_of_int n)))"
  by (erule int_value_cases)
    (simp_all add: ten_value_convert_to_float64_def ten_type_is_compatible_iff
      can_convert_float_defs int_to_float32_exact int_to_float64_exact Let_def)

lemma convert_to_float32_small:
  "int_of v = Some n \<Longrightarrow> \<bar>n\<bar> < 2 ^ 24 \<Longrightarrow> ten_value_convert_to_float32 h v = Some (Inr r) \<Longrightarrow>
   r = V_float32 (fp_of_int n)"
  by (erule int_value_cases)
    (auto simp: ten_value_convert_to_float32_def ten_type_is_compatible_iff int_to_float32_exact
      split: if_splits)

lemma convert_to_float32_large:
  "int_of v = Some n \<Longrightarrow> n \<notin> {oor_i32 h, oor_i64 h, oor_u32 h, oor_u64 h} \<Longrightarrow> \<not> \<bar>n\<bar> < 2 ^ 24 \<Longrightarrow>
   ten_value_convert_to_float32 h v = Some (Inr r) \<Longrightarrow>
   \<exists>x. r = V_float32 x \<and> fp_trunc x = Some n"
  by (erule int_value_cases)
    (auto simp: ten_value_convert_to_float32_def ten_type_is_compatible_iff can_convert_float_defs
      Let_def dest: c_float_to_int_eq split: if_splits)

section \<open>Properties\<close>

text \<open>The conversions as a family indexed by the target type.\<close>

fun convert_int :: "ten_type \<Rightarrow> (ten_value \<Rightarrow> (ten_error + ten_value) run) option" where
  "convert_int TEN_TYPE_INT8 = Some ten_value_convert_to_int8"
| "convert_int TEN_TYPE_INT16 = Some ten_value_convert_to_int16"
| "convert_int TEN_TYPE_INT32 = Some ten_value_convert_to_int32"
| "convert_int TEN_TYPE_INT64 = Some ten_value_convert_to_int64"
| "convert_int TEN_TYPE_UINT8 = Some ten_value_convert_to_uint8"
| "convert_int TEN_TYPE_UINT16 = Some ten_value_convert_to_uint16"
| "convert_int TEN_TYPE_UINT32 = Some ten_value_convert_to_uint32"
| "convert_int TEN_TYPE_UINT64 = Some ten_value_convert_to_uint64"
| "convert_int _ = None"

lemma convert_int_contract:
  assumes "convert_int ty = Some conv"
  obtains lo hi where "int_range ty = Some (lo, hi)" "int_conversion conv ty lo hi"
  using assms that
  by (cases ty)
    (auto intro: to_int8.int_conversion_axioms to_int16.int_conversion_axioms
      to_int32.int_conversion_axioms to_int64.int_conversion_axioms to_uint8.int_conversion_axioms
      to_uint16.int_conversion_axioms to_uint32.int_conversion_axioms
      to_uint64.int_conversion_axioms)

text \<open>C34: Each of the eight integer conversions succeeds exactly on the integer values in the range
  of its target type, and the result is the value of that type carrying the same integer: no
  conversion wraps around or changes the number.\<close>

theorem convert_int_success:
  assumes "convert_int ty = Some conv"
  shows "conv v = Some (Inr v') \<longleftrightarrow>
    (\<exists>n lo hi. int_of v = Some n \<and> int_range ty = Some (lo, hi) \<and> lo \<le> n \<and> n \<le> hi \<and>
       int_of v' = Some n \<and> ten_value_get_type v' = ty)"
  using assms
proof (rule convert_int_contract)
  fix lo hi
  assume "int_range ty = Some (lo, hi)" "int_conversion conv ty lo hi"
  then show ?thesis using int_conversion.conv_Inr_iff by auto
qed

theorem convert_int_success_witness:
  "ten_value_convert_to_int8 (V_uint64 127) = Some (Inr (V_int8 127)) \<and>
   ten_value_convert_to_int8 (V_uint64 128) \<noteq> Some (Inr (V_int8 128))"
  using convert_int_success [of TEN_TYPE_INT8 ten_value_convert_to_int8 "V_uint64 127" "V_int8 127"]
    convert_int_success [of TEN_TYPE_INT8 ten_value_convert_to_int8 "V_uint64 128" "V_int8 128"]
  by simp

text \<open>The integer conversions always return; they report \<open>unsupported conversion\<close> exactly on
  values that are not integers and \<open>out of range\<close> exactly on integers outside the target range.
  No compatible type reaches the assertion at the end of their switch.\<close>

theorem convert_int_failure:
  assumes "convert_int ty = Some conv" and "int_range ty = Some (lo, hi)"
  shows "conv v \<noteq> None \<and>
    (conv v = Some (Inl e) \<longleftrightarrow>
       int_of v = None \<and> e = unsupported_conversion v (fmt_type ty) \<or>
       (\<exists>n. int_of v = Some n \<and> (n < lo \<or> hi < n) \<and> e = out_of_range (fmt_type ty)))"
  using assms(1)
proof (rule convert_int_contract)
  fix lo' hi'
  assume "int_range ty = Some (lo', hi')" "int_conversion conv ty lo' hi'"
  with assms(2) have "int_conversion conv ty lo hi" by simp
  then show ?thesis
    using int_conversion.conv_Inl_iff [of conv ty lo hi v e] int_conversion.conv_total [of conv ty lo hi v]
    by auto
qed

theorem convert_int_failure_witness:
  "ten_value_convert_to_uint8 (V_int32 (- 1)) = Some (Inl (out_of_range ''uint8'')) \<and>
   ten_value_convert_to_uint8 (V_bool True) =
     Some (Inl (unsupported_conversion (V_bool True) ''uint8''))"
  using convert_int_failure [of TEN_TYPE_UINT8 ten_value_convert_to_uint8 0 UINT8_MAX "V_int32 (- 1)"
      "out_of_range ''uint8''"]
    convert_int_failure [of TEN_TYPE_UINT8 ten_value_convert_to_uint8 0 UINT8_MAX "V_bool True"
      "unsupported_conversion (V_bool True) ''uint8''"]
  by (simp add: fmt_type_defs)

text \<open>A conversion to \<open>float32\<close> that succeeds keeps the integer exactly, whatever the host
  delivers for out-of-range casts, as long as that delivered value is not the integer itself;
  conversions below 2 to the 24 in magnitude never depend on it.\<close>

theorem convert_to_float32_preserves:
  assumes "int_of v = Some n"
    and "n \<notin> {oor_i32 h, oor_i64 h, oor_u32 h, oor_u64 h} \<or> \<bar>n\<bar> < 2 ^ 24"
    and "ten_value_convert_to_float32 h v = Some (Inr r)"
  shows "\<exists>x. r = V_float32 x \<and> fp_trunc x = Some n"
  using convert_to_float32_small [OF assms(1) _ assms(3)]
    convert_to_float32_large [OF assms(1) _ _ assms(3)] assms(2)
  by fastforce

theorem convert_to_float32_preserves_witness:
  "\<exists>x. V_float32 (FP_Fin 1 24) = V_float32 x \<and> fp_trunc x = Some 16777216"
proof (rule convert_to_float32_preserves [of "V_int32 16777216" 16777216 x86_host])
  show "ten_value_convert_to_float32 x86_host (V_int32 16777216) = Some (Inr (V_float32 (FP_Fin 1 24)))"
    by code_simp
qed (simp_all add: x86_host_def)

lemma can_16777217: "can_convert_int64_to_float64 h 16777217"
  by (simp add: can_convert_int64_to_float64_def int_to_float64_exact Let_def)

lemma int_to_float32_16777217: "int_to_float32 16777217 = fp_of_int 16777216"
proof -
  have "nbits 16777217 = 25" and "nbits 1 = 1"
    by (simp_all add: nbits.simps)
  then show ?thesis
    by (simp add: int_to_float32_def to_float32_def fp_of_int_def fp_norm.simps
        round_half_even_def)
qed

text \<open>A conversion to \<open>float64\<close> keeps every integer below 2 to the 24 in magnitude, and the
  bound cannot be raised to 2 to the 53, as the range test suggests: the stored number goes through
  a cast to \<open>float\<close>, so 16777217 passes the test and is stored as 16777216.\<close>

theorem convert_to_float64_through_float:
  "(int_of v = Some n \<and> \<bar>n\<bar> < 2 ^ 24 \<longrightarrow>
      (\<exists>x. ten_value_convert_to_float64 h v = Some (Inr (V_float64 x)) \<and> fp_trunc x = Some n)) \<and>
   can_convert_int64_to_float64 x86_host 16777217 \<and>
   ten_value_convert_to_float64 x86_host (V_int64 16777217) =
     Some (Inr (V_float64 (fp_of_int 16777216)))"
proof (intro conjI impI)
  assume "int_of v = Some n \<and> \<bar>n\<bar> < 2 ^ 24"
  then show "\<exists>x. ten_value_convert_to_float64 h v = Some (Inr (V_float64 x)) \<and> fp_trunc x = Some n"
    using convert_to_float64_small [of v n h] by simp
next
  show "can_convert_int64_to_float64 x86_host 16777217" by (rule can_16777217)
next
  show "ten_value_convert_to_float64 x86_host (V_int64 16777217) =
     Some (Inr (V_float64 (fp_of_int 16777216)))"
    by (simp add: ten_value_convert_to_float64_def ten_type_is_compatible_iff can_16777217
        int_to_float32_16777217)
qed

theorem convert_to_float64_through_float_witness:
  "\<exists>x. ten_value_convert_to_float64 x86_host (V_uint32 16777215) = Some (Inr (V_float64 x)) \<and>
     fp_trunc x = Some 16777215"
  using convert_to_float64_through_float [of "V_uint32 16777215" 16777215 x86_host] by simp

lemmas can_convert_float64_to_int_defs =
  can_convert_float64_to_int8_def
  can_convert_float64_to_int16_def
  can_convert_float64_to_int32_def
  can_convert_float64_to_int64_def
  can_convert_float64_to_uint8_def
  can_convert_float64_to_uint16_def
  can_convert_float64_to_uint32_def
  can_convert_float64_to_uint64_def

text \<open>C39: A double that passes \<open>can_convert_float64_to_*\<close> truncates to an integer of the target
  type, so the cast the test guards is defined. NaN and the infinities never pass.\<close>

theorem can_convert_float64_safe:
  "(can_convert_float64_to_int8 x \<longrightarrow> (\<exists>n. fp_trunc x = Some n \<and> INT8_MIN \<le> n \<and> n \<le> INT8_MAX)) \<and>
   (can_convert_float64_to_int16 x \<longrightarrow> (\<exists>n. fp_trunc x = Some n \<and> INT16_MIN \<le> n \<and> n \<le> INT16_MAX)) \<and>
   (can_convert_float64_to_int32 x \<longrightarrow> (\<exists>n. fp_trunc x = Some n \<and> INT32_MIN \<le> n \<and> n \<le> INT32_MAX)) \<and>
   (can_convert_float64_to_int64 x \<longrightarrow> (\<exists>n. fp_trunc x = Some n \<and> INT64_MIN \<le> n \<and> n \<le> INT64_MAX)) \<and>
   (can_convert_float64_to_uint8 x \<longrightarrow> (\<exists>n. fp_trunc x = Some n \<and> 0 \<le> n \<and> n \<le> UINT8_MAX)) \<and>
   (can_convert_float64_to_uint16 x \<longrightarrow> (\<exists>n. fp_trunc x = Some n \<and> 0 \<le> n \<and> n \<le> UINT16_MAX)) \<and>
   (can_convert_float64_to_uint32 x \<longrightarrow> (\<exists>n. fp_trunc x = Some n \<and> 0 \<le> n \<and> n \<le> UINT32_MAX)) \<and>
   (can_convert_float64_to_uint64 x \<longrightarrow> (\<exists>n. fp_trunc x = Some n \<and> 0 \<le> n \<and> n \<le> UINT64_MAX))"
proof (intro conjI impI)
  assume "can_convert_float64_to_int8 x"
  then show "\<exists>n. fp_trunc x = Some n \<and> INT8_MIN \<le> n \<and> n \<le> INT8_MAX"
    using can_convert_signed [of x 7] by (auto simp: can_convert_float64_to_int8_def)
next
  assume "can_convert_float64_to_int16 x"
  then show "\<exists>n. fp_trunc x = Some n \<and> INT16_MIN \<le> n \<and> n \<le> INT16_MAX"
    using can_convert_signed [of x 15] by (auto simp: can_convert_float64_to_int16_def)
next
  assume "can_convert_float64_to_int32 x"
  then show "\<exists>n. fp_trunc x = Some n \<and> INT32_MIN \<le> n \<and> n \<le> INT32_MAX"
    using can_convert_signed [of x 31] by (auto simp: can_convert_float64_to_int32_def)
next
  assume "can_convert_float64_to_int64 x"
  then show "\<exists>n. fp_trunc x = Some n \<and> INT64_MIN \<le> n \<and> n \<le> INT64_MAX"
    using can_convert_signed [of x 63] by (auto simp: can_convert_float64_to_int64_def)
next
  assume "can_convert_float64_to_uint8 x"
  then show "\<exists>n. fp_trunc x = Some n \<and> 0 \<le> n \<and> n \<le> UINT8_MAX"
    using can_convert_unsigned [of x 8] by (auto simp: can_convert_float64_to_uint8_def)
next
  assume "can_convert_float64_to_uint16 x"
  then show "\<exists>n. fp_trunc x = Some n \<and> 0 \<le> n \<and> n \<le> UINT16_MAX"
    using can_convert_unsigned [of x 16] by (auto simp: can_convert_float64_to_uint16_def)
next
  assume "can_convert_float64_to_uint32 x"
  then show "\<exists>n. fp_trunc x = Some n \<and> 0 \<le> n \<and> n \<le> UINT32_MAX"
    using can_convert_unsigned [of x 32] by (auto simp: can_convert_float64_to_uint32_def)
next
  assume "can_convert_float64_to_uint64 x"
  then show "\<exists>n. fp_trunc x = Some n \<and> 0 \<le> n \<and> n \<le> UINT64_MAX"
    using can_convert_unsigned [of x 64] by (auto simp: can_convert_float64_to_uint64_def)
qed

theorem can_convert_float64_safe_witness:
  "\<exists>n. fp_trunc (FP_Fin (- 255) (- 1)) = Some n \<and> INT8_MIN \<le> n \<and> n \<le> INT8_MAX"
  using can_convert_float64_safe [of "FP_Fin (- 255) (- 1)"]
  by (simp add: can_convert_float64_to_int_defs fp_ge_def fp_lt_def ldexp1_def fin_le_def)

end
