(* ===== verification/Value_Access.thy ===== *)
theory Value_Access
  imports Value_Convert
begin

text \<open>
  Reading and overwriting values: \<open>value_get.c\<close>, \<open>value_set.c\<close> and the type tests of
  \<open>value_is.c\<close> that \<open>Ten_Value\<close> does not need. A getter returns its result with the error it
  wrote, if any; a caller that passes a null error object gets the same result. The contract of
  the eight integer getters is the locale \<open>integer_getter\<close>, tied to the conversions by
  \<open>int_access\<close>.
\<close>

section \<open>Type tests\<close>

definition ten_value_is_invalid :: "ten_value \<Rightarrow> bool" where
  "ten_value_is_invalid self \<longleftrightarrow> ten_value_get_type self = TEN_TYPE_INVALID"

definition ten_value_is_int8 :: "ten_value \<Rightarrow> bool" where
  "ten_value_is_int8 self \<longleftrightarrow> ten_value_get_type self = TEN_TYPE_INT8"

definition ten_value_is_int16 :: "ten_value \<Rightarrow> bool" where
  "ten_value_is_int16 self \<longleftrightarrow> ten_value_get_type self = TEN_TYPE_INT16"

definition ten_value_is_int32 :: "ten_value \<Rightarrow> bool" where
  "ten_value_is_int32 self \<longleftrightarrow> ten_value_get_type self = TEN_TYPE_INT32"

definition ten_value_is_int64 :: "ten_value \<Rightarrow> bool" where
  "ten_value_is_int64 self \<longleftrightarrow> ten_value_get_type self = TEN_TYPE_INT64"

definition ten_value_is_uint8 :: "ten_value \<Rightarrow> bool" where
  "ten_value_is_uint8 self \<longleftrightarrow> ten_value_get_type self = TEN_TYPE_UINT8"

definition ten_value_is_uint16 :: "ten_value \<Rightarrow> bool" where
  "ten_value_is_uint16 self \<longleftrightarrow> ten_value_get_type self = TEN_TYPE_UINT16"

definition ten_value_is_uint32 :: "ten_value \<Rightarrow> bool" where
  "ten_value_is_uint32 self \<longleftrightarrow> ten_value_get_type self = TEN_TYPE_UINT32"

definition ten_value_is_uint64 :: "ten_value \<Rightarrow> bool" where
  "ten_value_is_uint64 self \<longleftrightarrow> ten_value_get_type self = TEN_TYPE_UINT64"

definition ten_value_is_float32 :: "ten_value \<Rightarrow> bool" where
  "ten_value_is_float32 self \<longleftrightarrow> ten_value_get_type self = TEN_TYPE_FLOAT32"

definition ten_value_is_float64 :: "ten_value \<Rightarrow> bool" where
  "ten_value_is_float64 self \<longleftrightarrow> ten_value_get_type self = TEN_TYPE_FLOAT64"

definition ten_value_is_null :: "ten_value \<Rightarrow> bool" where
  "ten_value_is_null self \<longleftrightarrow> ten_value_get_type self = TEN_TYPE_NULL"

section \<open>Getters\<close>

type_synonym 'a got = "'a \<times> ten_error option"

definition invalid_value_type :: ten_error where
  "invalid_value_type = ten_error_set ten_error_init TEN_ERROR_CODE_GENERIC ''Invalid value type.''"

definition unfit :: "ten_value \<Rightarrow> string \<Rightarrow> ten_error" where
  "unfit self target =
     ten_error_set ten_error_init TEN_ERROR_CODE_GENERIC
       (''The conversion from '' @ fmt_type (ten_value_get_type self) @ '' to '' @ target @
        '' is unfit.'')"

text \<open>
  Some guards of \<open>ten_value_get_uint8\<close> and \<open>ten_value_get_uint16\<close> read the 64-bit member of the
  union of a narrower value. Every value is zeroed before its member is written, so on a
  little-endian host that member is the narrow word extended with zeros. The guards read it for
  integer values only.
\<close>

fun union_64 :: "ten_value \<Rightarrow> 64 word" where
  "union_64 (V_int8 content) = ucast content"
| "union_64 (V_int16 content) = ucast content"
| "union_64 (V_int32 content) = ucast content"
| "union_64 (V_int64 content) = content"
| "union_64 (V_uint8 content) = ucast content"
| "union_64 (V_uint16 content) = ucast content"
| "union_64 (V_uint32 content) = ucast content"
| "union_64 (V_uint64 content) = content"
| "union_64 _ = 0"

definition ten_value_get_int8 :: "ten_value \<Rightarrow> 8 word got" where
  "ten_value_get_int8 self =
     (if \<not> ten_value_is_valid self then (0, Some invalid_value_type)
      else case self of
        V_int8 content \<Rightarrow> (content, None)
      | V_int16 content \<Rightarrow> if sint content \<ge> - INT8_MAX \<and> sint content \<le> INT8_MAX then (scast content, None)
          else (0, Some (unfit self ''uint32''))
      | V_int32 content \<Rightarrow> if sint content \<ge> - INT8_MAX \<and> sint content \<le> INT8_MAX then (scast content, None)
          else (0, Some (unfit self ''uint32''))
      | V_int64 content \<Rightarrow> if sint content \<ge> - INT8_MAX \<and> sint content \<le> INT8_MAX then (scast content, None)
          else (0, Some (unfit self ''uint32''))
      | V_uint8 content \<Rightarrow> if uint content \<le> INT8_MAX then (ucast content, None)
          else (0, Some (unfit self ''uint32''))
      | V_uint16 content \<Rightarrow> if uint content \<le> INT8_MAX then (ucast content, None)
          else (0, Some (unfit self ''uint32''))
      | V_uint32 content \<Rightarrow> if uint content \<le> INT8_MAX then (ucast content, None)
          else (0, Some (unfit self ''uint32''))
      | V_uint64 content \<Rightarrow> if uint content \<le> INT8_MAX then (ucast content, None)
          else (0, Some (unfit self ''uint32''))
      | _ \<Rightarrow> (0, Some (unfit self ''uint32'')))"

definition ten_value_get_int16 :: "ten_value \<Rightarrow> 16 word got" where
  "ten_value_get_int16 self =
     (if \<not> ten_value_is_valid self then (0, Some invalid_value_type)
      else case self of
        V_int8 content \<Rightarrow> (scast content, None)
      | V_int16 content \<Rightarrow> (content, None)
      | V_int32 content \<Rightarrow> if sint content \<ge> - INT16_MAX \<and> sint content \<le> INT16_MAX then (scast content, None)
          else (0, Some (unfit self ''uint32''))
      | V_int64 content \<Rightarrow> if sint content \<ge> - INT16_MAX \<and> sint content \<le> INT16_MAX then (scast content, None)
          else (0, Some (unfit self ''uint32''))
      | V_uint8 content \<Rightarrow> (ucast content, None)
      | V_uint16 content \<Rightarrow> if uint content \<le> INT16_MAX then (ucast content, None)
          else (0, Some (unfit self ''uint32''))
      | V_uint32 content \<Rightarrow> if uint content \<le> INT16_MAX then (ucast content, None)
          else (0, Some (unfit self ''uint32''))
      | V_uint64 content \<Rightarrow> if uint content \<le> INT16_MAX then (ucast content, None)
          else (0, Some (unfit self ''uint32''))
      | _ \<Rightarrow> (0, Some (unfit self ''uint32'')))"

definition ten_value_get_int32 :: "ten_value \<Rightarrow> 32 word got" where
  "ten_value_get_int32 self =
     (if \<not> ten_value_is_valid self then (0, Some invalid_value_type)
      else case self of
        V_int8 content \<Rightarrow> (scast content, None)
      | V_int16 content \<Rightarrow> (scast content, None)
      | V_int32 content \<Rightarrow> (content, None)
      | V_int64 content \<Rightarrow> if sint content \<ge> - INT32_MAX \<and> sint content \<le> INT32_MAX then (scast content, None)
          else (0, Some (unfit self ''uint32''))
      | V_uint8 content \<Rightarrow> (ucast content, None)
      | V_uint16 content \<Rightarrow> (ucast content, None)
      | V_uint32 content \<Rightarrow> if uint content \<le> INT32_MAX then (ucast content, None)
          else (0, Some (unfit self ''uint32''))
      | V_uint64 content \<Rightarrow> if uint content \<le> INT32_MAX then (ucast content, None)
          else (0, Some (unfit self ''uint32''))
      | _ \<Rightarrow> (0, Some (unfit self ''uint32'')))"

definition ten_value_get_int64 :: "ten_value \<Rightarrow> 64 word got" where
  "ten_value_get_int64 self =
     (if \<not> ten_value_is_valid self then (0, Some invalid_value_type)
      else case self of
        V_int8 content \<Rightarrow> (scast content, None)
      | V_int16 content \<Rightarrow> (scast content, None)
      | V_int32 content \<Rightarrow> (scast content, None)
      | V_int64 content \<Rightarrow> (content, None)
      | V_uint8 content \<Rightarrow> (ucast content, None)
      | V_uint16 content \<Rightarrow> (ucast content, None)
      | V_uint32 content \<Rightarrow> (ucast content, None)
      | V_uint64 content \<Rightarrow> if uint content \<le> INT64_MAX then (ucast content, None)
          else (0, Some (unfit self ''uint32''))
      | _ \<Rightarrow> (0, Some (unfit self ''uint32'')))"

definition ten_value_get_uint8 :: "ten_value \<Rightarrow> 8 word got" where
  "ten_value_get_uint8 self =
     (if \<not> ten_value_is_valid self then (0, Some invalid_value_type)
      else case self of
        V_uint8 content \<Rightarrow> (content, None)
      | V_uint16 content \<Rightarrow> if uint (union_64 self) \<le> UINT8_MAX then (ucast content, None)
          else (0, Some (unfit self ''uint32''))
      | V_uint32 content \<Rightarrow> if uint (union_64 self) \<le> UINT8_MAX then (ucast content, None)
          else (0, Some (unfit self ''uint32''))
      | V_uint64 content \<Rightarrow> if uint (union_64 self) \<le> UINT8_MAX then (ucast content, None)
          else (0, Some (unfit self ''uint32''))
      | V_int8 content \<Rightarrow> if sint content \<ge> 0 then (scast content, None)
          else (0, Some (unfit self ''uint32''))
      | V_int16 content \<Rightarrow> if sint content \<ge> 0 \<and> sint content \<le> UINT8_MAX then (scast content, None)
          else (0, Some (unfit self ''uint32''))
      | V_int32 content \<Rightarrow> if sint content \<ge> 0 \<and> sint content \<le> UINT8_MAX then (scast content, None)
          else (0, Some (unfit self ''uint32''))
      | V_int64 content \<Rightarrow> if sint content \<ge> 0 \<and> sint content \<le> UINT8_MAX then (scast content, None)
          else (0, Some (unfit self ''uint32''))
      | _ \<Rightarrow> (0, Some (unfit self ''uint32'')))"

definition ten_value_get_uint16 :: "ten_value \<Rightarrow> 16 word got" where
  "ten_value_get_uint16 self =
     (if \<not> ten_value_is_valid self then (0, Some invalid_value_type)
      else case self of
        V_uint8 content \<Rightarrow> (ucast content, None)
      | V_uint16 content \<Rightarrow> (content, None)
      | V_uint32 content \<Rightarrow> if uint (union_64 self) \<le> UINT16_MAX then (ucast content, None)
          else (0, Some (unfit self ''uint32''))
      | V_uint64 content \<Rightarrow> if uint (union_64 self) \<le> UINT16_MAX then (ucast content, None)
          else (0, Some (unfit self ''uint32''))
      | V_int8 content \<Rightarrow> if sint content \<ge> 0 then (scast content, None)
          else (0, Some (unfit self ''uint32''))
      | V_int16 content \<Rightarrow> if sint content \<ge> 0 then (scast content, None)
          else (0, Some (unfit self ''uint32''))
      | V_int32 content \<Rightarrow> if sint content \<ge> 0 \<and> sint (union_64 self) \<le> UINT16_MAX then (scast content, None)
          else (0, Some (unfit self ''uint32''))
      | V_int64 content \<Rightarrow> if sint content \<ge> 0 \<and> sint content \<le> UINT16_MAX then (scast content, None)
          else (0, Some (unfit self ''uint32''))
      | _ \<Rightarrow> (0, Some (unfit self ''uint32'')))"

definition ten_value_get_uint32 :: "ten_value \<Rightarrow> 32 word got" where
  "ten_value_get_uint32 self =
     (if \<not> ten_value_is_valid self then (0, Some invalid_value_type)
      else case self of
        V_uint8 content \<Rightarrow> (ucast content, None)
      | V_uint16 content \<Rightarrow> (ucast content, None)
      | V_uint32 content \<Rightarrow> (content, None)
      | V_uint64 content \<Rightarrow> if uint content \<le> UINT32_MAX then (ucast content, None)
          else (0, Some (unfit self ''uint32''))
      | V_int8 content \<Rightarrow> if sint content \<ge> 0 then (scast content, None)
          else (0, Some (unfit self ''uint32''))
      | V_int16 content \<Rightarrow> if sint content \<ge> 0 then (scast content, None)
          else (0, Some (unfit self ''uint32''))
      | V_int32 content \<Rightarrow> if sint content \<ge> 0 then (scast content, None)
          else (0, Some (unfit self ''uint32''))
      | V_int64 content \<Rightarrow> if sint content \<ge> 0 \<and> sint content \<le> UINT32_MAX then (scast content, None)
          else (0, Some (unfit self ''uint32''))
      | _ \<Rightarrow> (0, Some (unfit self ''uint32'')))"

definition ten_value_get_uint64 :: "ten_value \<Rightarrow> 64 word got" where
  "ten_value_get_uint64 self =
     (if \<not> ten_value_is_valid self then (0, Some invalid_value_type)
      else case self of
        V_uint8 content \<Rightarrow> (ucast content, None)
      | V_uint16 content \<Rightarrow> (ucast content, None)
      | V_uint32 content \<Rightarrow> (ucast content, None)
      | V_uint64 content \<Rightarrow> (content, None)
      | V_int8 content \<Rightarrow> if sint content \<ge> 0 then (scast content, None)
          else (0, Some (unfit self ''uint32''))
      | V_int16 content \<Rightarrow> if sint content \<ge> 0 then (scast content, None)
          else (0, Some (unfit self ''uint32''))
      | V_int32 content \<Rightarrow> if sint content \<ge> 0 then (scast content, None)
          else (0, Some (unfit self ''uint32''))
      | V_int64 content \<Rightarrow> if sint content \<ge> 0 then (scast content, None)
          else (0, Some (unfit self ''uint32''))
      | _ \<Rightarrow> (0, Some (unfit self ''uint32'')))"

definition ten_value_get_float32 :: "ten_value \<Rightarrow> cfp got" where
  "ten_value_get_float32 self =
     (if \<not> ten_value_is_valid self then (FP_Zero False, Some invalid_value_type)
      else case self of
        V_float32 content \<Rightarrow> (content, None)
      | V_float64 content \<Rightarrow>
          if fp_ge content (fp_neg FLT_MAX) \<and> fp_le content FLT_MAX
          then (to_float32 content, None)
          else (FP_Zero False, Some (unfit self ''float32''))
      | _ \<Rightarrow> (FP_Zero False, None))"

definition ten_value_get_float64 :: "ten_value \<Rightarrow> cfp got" where
  "ten_value_get_float64 self =
     (if \<not> ten_value_is_valid self then (FP_Zero False, Some invalid_value_type)
      else case self of
        V_float32 content \<Rightarrow> (to_float64 content, None)
      | V_float64 content \<Rightarrow> (content, None)
      | _ \<Rightarrow> (FP_Zero False, Some (unfit self ''float32'')))"

definition ten_value_get_bool :: "ten_value \<Rightarrow> bool got" where
  "ten_value_get_bool self =
     (if \<not> ten_value_is_valid self then (False, Some invalid_value_type)
      else case self of
        V_bool content \<Rightarrow> (content, None)
      | _ \<Rightarrow> (False, Some (unfit self ''uint32'')))"

definition ten_value_get_ptr :: "ten_value \<Rightarrow> 64 word option got" where
  "ten_value_get_ptr self =
     (case self of
        V_ptr content \<Rightarrow> (Some content, None)
      | _ \<Rightarrow> (None, Some (ten_error_set ten_error_init TEN_ERROR_CODE_GENERIC
          (''Not pointer value, actual type: '' @ fmt_type (ten_value_get_type self)))))"

definition ten_value_peek_buf :: "ten_value \<Rightarrow> ten_buf option got" where
  "ten_value_peek_buf self =
     (case self of
        V_buf content \<Rightarrow> (Some content, None)
      | _ \<Rightarrow> (None, Some (ten_error_set ten_error_init TEN_ERROR_CODE_GENERIC
          (''Not buffer value, actual type: '' @ fmt_type (ten_value_get_type self)))))"

definition ten_value_peek_array :: "ten_value \<Rightarrow> ten_value list option" where
  "ten_value_peek_array self = (case self of V_array vs \<Rightarrow> Some vs | _ \<Rightarrow> None)"

definition ten_value_peek_object :: "ten_value \<Rightarrow> (string \<times> ten_value) list option" where
  "ten_value_peek_object self = (case self of V_object kvs \<Rightarrow> Some kvs | _ \<Rightarrow> None)"

definition ten_value_peek_string :: "ten_value \<Rightarrow> string option" where
  "ten_value_peek_string self = (case self of V_string s \<Rightarrow> Some s | _ \<Rightarrow> None)"

definition ten_value_peek_raw_str :: "ten_value \<Rightarrow> string option" where
  "ten_value_peek_raw_str self = (case self of V_string s \<Rightarrow> Some s | _ \<Rightarrow> None)"

text \<open>The loop counts its iterations in \<open>i\<close> and returns the element it reaches at \<open>index\<close>.\<close>

fun array_peek_loop :: "ten_value list \<Rightarrow> nat \<Rightarrow> nat \<Rightarrow> ten_value option run" where
  "array_peek_loop [] i index = None"
| "array_peek_loop (v # vs) i index =
     (if i = index then Some (Some v) else array_peek_loop vs (Suc i) index)"

definition ten_value_array_peek :: "ten_value \<Rightarrow> nat \<Rightarrow> ten_value option got run" where
  "ten_value_array_peek self index =
     (case self of
        V_array vs \<Rightarrow>
          if length vs \<le> index then Some (None, None)
          else do { v \<leftarrow> array_peek_loop vs 0 index; Some (v, None) }
      | _ \<Rightarrow> Some (None, Some (unfit self ''array'')))"

lemma array_peek_loop_eq:
  "i \<le> index \<Longrightarrow> index < i + length vs \<Longrightarrow> array_peek_loop vs i index = Some (Some (vs ! (index - i)))"
proof (induction vs i index rule: array_peek_loop.induct)
  case (2 v vs i index)
  then show ?case by (cases "i = index") (auto simp: nth_Cons')
qed simp

lemma ten_value_array_peek_eq:
  "ten_value_array_peek (V_array vs) index =
     Some (if index < length vs then Some (vs ! index) else None, None)"
  by (simp add: ten_value_array_peek_def array_peek_loop_eq)

section \<open>Setters\<close>

text \<open>A setter returns the overwritten value; a value of another type fails its assertion.\<close>

definition ten_value_set_int64 :: "ten_value \<Rightarrow> 64 word \<Rightarrow> ten_value run" where
  "ten_value_set_int64 self value =
     do { ten_assert (ten_value_get_type self = TEN_TYPE_INT64); Some (V_int64 value) }"

definition ten_value_set_int32 :: "ten_value \<Rightarrow> 32 word \<Rightarrow> ten_value run" where
  "ten_value_set_int32 self value =
     do { ten_assert (ten_value_get_type self = TEN_TYPE_INT32); Some (V_int32 value) }"

definition ten_value_set_int16 :: "ten_value \<Rightarrow> 16 word \<Rightarrow> ten_value run" where
  "ten_value_set_int16 self value =
     do { ten_assert (ten_value_get_type self = TEN_TYPE_INT16); Some (V_int16 value) }"

definition ten_value_set_int8 :: "ten_value \<Rightarrow> 8 word \<Rightarrow> ten_value run" where
  "ten_value_set_int8 self value =
     do { ten_assert (ten_value_get_type self = TEN_TYPE_INT8); Some (V_int8 value) }"

definition ten_value_set_uint64 :: "ten_value \<Rightarrow> 64 word \<Rightarrow> ten_value run" where
  "ten_value_set_uint64 self value =
     do { ten_assert (ten_value_get_type self = TEN_TYPE_UINT64); Some (V_uint64 value) }"

definition ten_value_set_uint32 :: "ten_value \<Rightarrow> 32 word \<Rightarrow> ten_value run" where
  "ten_value_set_uint32 self value =
     do { ten_assert (ten_value_get_type self = TEN_TYPE_UINT32); Some (V_uint32 value) }"

definition ten_value_set_uint16 :: "ten_value \<Rightarrow> 16 word \<Rightarrow> ten_value run" where
  "ten_value_set_uint16 self value =
     do { ten_assert (ten_value_get_type self = TEN_TYPE_UINT16); Some (V_uint16 value) }"

definition ten_value_set_uint8 :: "ten_value \<Rightarrow> 8 word \<Rightarrow> ten_value run" where
  "ten_value_set_uint8 self value =
     do { ten_assert (ten_value_get_type self = TEN_TYPE_UINT8); Some (V_uint8 value) }"

definition ten_value_set_bool :: "ten_value \<Rightarrow> bool \<Rightarrow> ten_value run" where
  "ten_value_set_bool self value =
     do { ten_assert (ten_value_get_type self = TEN_TYPE_BOOL); Some (V_bool value) }"

definition ten_value_set_float32 :: "ten_value \<Rightarrow> cfp \<Rightarrow> ten_value run" where
  "ten_value_set_float32 self value =
     do { ten_assert (ten_value_get_type self = TEN_TYPE_FLOAT32); Some (V_float32 value) }"

definition ten_value_set_float64 :: "ten_value \<Rightarrow> cfp \<Rightarrow> ten_value run" where
  "ten_value_set_float64 self value =
     do { ten_assert (ten_value_get_type self = TEN_TYPE_FLOAT64); Some (V_float64 value) }"

definition ten_value_set_string_with_size :: "ten_value \<Rightarrow> string \<Rightarrow> nat \<Rightarrow> ten_value run" where
  "ten_value_set_string_with_size self str len =
     do { ten_assert (ten_value_is_string self);
          ten_assert (int len \<le> INT32_MAX);
          Some (V_string (take len (c_str str))) }"

definition ten_value_set_string :: "ten_value \<Rightarrow> string \<Rightarrow> ten_value run" where
  "ten_value_set_string self str =
     do { ten_assert (ten_value_is_string self);
          ten_assert (int (length (c_str str)) \<le> INT32_MAX);
          Some (V_string (take (length (c_str str)) (c_str str))) }"

text \<open>The move swaps the lists: the old elements are destroyed, the argument is left empty.\<close>

definition ten_value_set_array_with_move ::
  "ten_value \<Rightarrow> ten_value list \<Rightarrow> (ten_value \<times> ten_value list) run" where
  "ten_value_set_array_with_move self value =
     do { ten_assert (ten_value_get_type self = TEN_TYPE_ARRAY); Some (V_array value, []) }"

definition ten_value_set_object_with_move ::
  "ten_value \<Rightarrow> (string \<times> ten_value) list \<Rightarrow> (ten_value \<times> (string \<times> ten_value) list) run" where
  "ten_value_set_object_with_move self value =
     do { ten_assert (ten_value_get_type self = TEN_TYPE_OBJECT); Some (V_object value, []) }"

section \<open>The contract of an integer getter\<close>

locale integer_getter =
  fixes get :: "ten_value \<Rightarrow> 'w::len word got"
    and rd :: "'w word \<Rightarrow> int"
    and ty :: ten_type
    and glo ghi :: int
  assumes accepts: "int_of v = Some n \<Longrightarrow> ten_value_get_type v = ty \<or> glo \<le> n \<and> n \<le> ghi \<Longrightarrow>
      \<exists>w. get v = (w, None) \<and> rd w = n"
    and unfits: "int_of v = Some n \<Longrightarrow> ten_value_get_type v \<noteq> ty \<Longrightarrow> n < glo \<or> ghi < n \<Longrightarrow>
      get v = (0, Some (unfit v ''uint32''))"
    and not_int: "int_of v = None \<Longrightarrow> \<exists>e. get v = (0, Some e)"
begin

lemma get_ok_iff:
  "(\<exists>w. get v = (w, None)) \<longleftrightarrow>
     (\<exists>n. int_of v = Some n \<and> (ten_value_get_type v = ty \<or> glo \<le> n \<and> n \<le> ghi))"
proof (cases "int_of v")
  case None
  then show ?thesis using not_int [OF None] by auto
next
  case (Some n)
  then show ?thesis
    using accepts [OF Some] unfits [OF Some] by fastforce
qed

lemma get_sound: "get v = (w, None) \<Longrightarrow> int_of v = Some (rd w)"
  using get_ok_iff [of v] accepts by fastforce

lemma get_reads_iff:
  "(\<exists>w. get v = (w, None) \<and> n = rd w) \<longleftrightarrow>
     int_of v = Some n \<and> (ten_value_get_type v = ty \<or> glo \<le> n \<and> n \<le> ghi)"
proof
  assume "\<exists>w. get v = (w, None) \<and> n = rd w"
  then obtain w where w: "get v = (w, None)" "n = rd w" by blast
  then have "int_of v = Some n" using get_sound by simp
  with w get_ok_iff [of v] show "int_of v = Some n \<and> (ten_value_get_type v = ty \<or> glo \<le> n \<and> n \<le> ghi)"
    by auto
next
  assume "int_of v = Some n \<and> (ten_value_get_type v = ty \<or> glo \<le> n \<and> n \<le> ghi)"
  with accepts [of v n] show "\<exists>w. get v = (w, None) \<and> n = rd w" by auto
qed

lemma get_error_zero:
  assumes "get v = (w, Some e)"
  shows "w = 0"
proof (cases "int_of v")
  case None
  show ?thesis using assms not_int [OF None] by auto
next
  case (Some n)
  then show ?thesis
    using assms accepts [OF Some] unfits [OF Some] by fastforce
qed

end

text \<open>
  A getter beside the conversion to the same type: what the getter reads is what the conversion
  stores.
\<close>

locale int_access = int_conversion conv ty lo hi + integer_getter get rd ty glo ghi
  for conv ty lo hi and get :: "ten_value \<Rightarrow> 'w::len word got" and rd glo ghi +
  assumes narrower: "lo \<le> glo" "ghi \<le> hi"
begin

lemma get_then_convert:
  assumes "get v = (w, None)"
  shows "\<exists>v'. conv v = Some (Inr v') \<and> int_of v' = Some (rd w)"
proof -
  have n: "int_of v = Some (rd w)" by (rule get_sound [OF assms])
  have "lo \<le> rd w \<and> rd w \<le> hi"
    using get_ok_iff [of v] assms n narrower int_of_range [OF n] range by fastforce
  then show ?thesis using fits [OF n] by blast
qed

end

section \<open>The eight getters meet the contract\<close>

lemma union_64_reads [simp]:
  "uint (union_64 (V_uint16 a)) = uint a"
  "uint (union_64 (V_uint32 b)) = uint b"
  "uint (union_64 (V_uint64 c)) = uint c"
  using uint_bounds [of a] uint_bounds [of b] by (simp_all add: cast_in_range)

lemma sint_union_64_int32 [simp]: "0 \<le> sint a \<Longrightarrow> sint (union_64 (V_int32 a)) = sint a"
  using sint_bounds [of a] by (simp add: cast_in_range uint_eq_sint_in_range)

lemma get_int8_accepts:
  "int_of v = Some n \<Longrightarrow> ten_value_get_type v = TEN_TYPE_INT8 \<or> - INT8_MAX \<le> n \<and> n \<le> INT8_MAX \<Longrightarrow>
   \<exists>w. ten_value_get_int8 v = (w, None) \<and> sint w = n"
  by (erule int_value_cases)
    (simp_all add: ten_value_get_int8_def cast_in_range sint_eq_uint_in_range del: union_64.simps)

lemma get_int8_unfits:
  "int_of v = Some n \<Longrightarrow> ten_value_get_type v \<noteq> TEN_TYPE_INT8 \<Longrightarrow> n < - INT8_MAX \<or> INT8_MAX < n \<Longrightarrow>
   ten_value_get_int8 v = (0, Some (unfit v ''uint32''))"
  by (erule int_value_cases) (auto simp: ten_value_get_int8_def simp del: union_64.simps)

lemma get_int8_not_int:
  "int_of v = None \<Longrightarrow> \<exists>e. ten_value_get_int8 v = (0, Some e)"
  by (cases v) (simp_all add: ten_value_get_int8_def)

interpretation access_int8: int_access ten_value_convert_to_int8 TEN_TYPE_INT8 "INT8_MIN" INT8_MAX
    ten_value_get_int8 sint "- INT8_MAX" INT8_MAX
  using get_int8_accepts get_int8_unfits get_int8_not_int
  by unfold_locales simp_all

lemma get_int16_accepts:
  "int_of v = Some n \<Longrightarrow> ten_value_get_type v = TEN_TYPE_INT16 \<or> - INT16_MAX \<le> n \<and> n \<le> INT16_MAX \<Longrightarrow>
   \<exists>w. ten_value_get_int16 v = (w, None) \<and> sint w = n"
  by (erule int_value_cases)
    (simp_all add: ten_value_get_int16_def cast_in_range sint_eq_uint_in_range del: union_64.simps)

lemma get_int16_unfits:
  "int_of v = Some n \<Longrightarrow> ten_value_get_type v \<noteq> TEN_TYPE_INT16 \<Longrightarrow> n < - INT16_MAX \<or> INT16_MAX < n \<Longrightarrow>
   ten_value_get_int16 v = (0, Some (unfit v ''uint32''))"
  by (erule int_value_cases) (auto simp: ten_value_get_int16_def simp del: union_64.simps)

lemma get_int16_not_int:
  "int_of v = None \<Longrightarrow> \<exists>e. ten_value_get_int16 v = (0, Some e)"
  by (cases v) (simp_all add: ten_value_get_int16_def)

interpretation access_int16: int_access ten_value_convert_to_int16 TEN_TYPE_INT16 "INT16_MIN" INT16_MAX
    ten_value_get_int16 sint "- INT16_MAX" INT16_MAX
  using get_int16_accepts get_int16_unfits get_int16_not_int
  by unfold_locales simp_all

lemma get_int32_accepts:
  "int_of v = Some n \<Longrightarrow> ten_value_get_type v = TEN_TYPE_INT32 \<or> - INT32_MAX \<le> n \<and> n \<le> INT32_MAX \<Longrightarrow>
   \<exists>w. ten_value_get_int32 v = (w, None) \<and> sint w = n"
  by (erule int_value_cases)
    (simp_all add: ten_value_get_int32_def cast_in_range sint_eq_uint_in_range del: union_64.simps)

lemma get_int32_unfits:
  "int_of v = Some n \<Longrightarrow> ten_value_get_type v \<noteq> TEN_TYPE_INT32 \<Longrightarrow> n < - INT32_MAX \<or> INT32_MAX < n \<Longrightarrow>
   ten_value_get_int32 v = (0, Some (unfit v ''uint32''))"
  by (erule int_value_cases) (auto simp: ten_value_get_int32_def simp del: union_64.simps)

lemma get_int32_not_int:
  "int_of v = None \<Longrightarrow> \<exists>e. ten_value_get_int32 v = (0, Some e)"
  by (cases v) (simp_all add: ten_value_get_int32_def)

interpretation access_int32: int_access ten_value_convert_to_int32 TEN_TYPE_INT32 "INT32_MIN" INT32_MAX
    ten_value_get_int32 sint "- INT32_MAX" INT32_MAX
  using get_int32_accepts get_int32_unfits get_int32_not_int
  by unfold_locales simp_all

lemma get_int64_accepts:
  "int_of v = Some n \<Longrightarrow> ten_value_get_type v = TEN_TYPE_INT64 \<or> - INT64_MAX \<le> n \<and> n \<le> INT64_MAX \<Longrightarrow>
   \<exists>w. ten_value_get_int64 v = (w, None) \<and> sint w = n"
  by (erule int_value_cases)
    (simp_all add: ten_value_get_int64_def cast_in_range sint_eq_uint_in_range del: union_64.simps)

lemma get_int64_unfits:
  "int_of v = Some n \<Longrightarrow> ten_value_get_type v \<noteq> TEN_TYPE_INT64 \<Longrightarrow> n < - INT64_MAX \<or> INT64_MAX < n \<Longrightarrow>
   ten_value_get_int64 v = (0, Some (unfit v ''uint32''))"
  by (erule int_value_cases) (auto simp: ten_value_get_int64_def simp del: union_64.simps)

lemma get_int64_not_int:
  "int_of v = None \<Longrightarrow> \<exists>e. ten_value_get_int64 v = (0, Some e)"
  by (cases v) (simp_all add: ten_value_get_int64_def)

interpretation access_int64: int_access ten_value_convert_to_int64 TEN_TYPE_INT64 "INT64_MIN" INT64_MAX
    ten_value_get_int64 sint "- INT64_MAX" INT64_MAX
  using get_int64_accepts get_int64_unfits get_int64_not_int
  by unfold_locales simp_all

lemma get_uint8_accepts:
  "int_of v = Some n \<Longrightarrow> ten_value_get_type v = TEN_TYPE_UINT8 \<or> 0 \<le> n \<and> n \<le> UINT8_MAX \<Longrightarrow>
   \<exists>w. ten_value_get_uint8 v = (w, None) \<and> uint w = n"
  by (erule int_value_cases)
    (simp_all add: ten_value_get_uint8_def cast_in_range uint_eq_sint_in_range del: union_64.simps)

lemma get_uint8_unfits:
  "int_of v = Some n \<Longrightarrow> ten_value_get_type v \<noteq> TEN_TYPE_UINT8 \<Longrightarrow> n < 0 \<or> UINT8_MAX < n \<Longrightarrow>
   ten_value_get_uint8 v = (0, Some (unfit v ''uint32''))"
  by (erule int_value_cases) (auto simp: ten_value_get_uint8_def simp del: union_64.simps)

lemma get_uint8_not_int:
  "int_of v = None \<Longrightarrow> \<exists>e. ten_value_get_uint8 v = (0, Some e)"
  by (cases v) (simp_all add: ten_value_get_uint8_def)

interpretation access_uint8: int_access ten_value_convert_to_uint8 TEN_TYPE_UINT8 "0" UINT8_MAX
    ten_value_get_uint8 uint "0" UINT8_MAX
  using get_uint8_accepts get_uint8_unfits get_uint8_not_int
  by unfold_locales simp_all

lemma get_uint16_accepts:
  "int_of v = Some n \<Longrightarrow> ten_value_get_type v = TEN_TYPE_UINT16 \<or> 0 \<le> n \<and> n \<le> UINT16_MAX \<Longrightarrow>
   \<exists>w. ten_value_get_uint16 v = (w, None) \<and> uint w = n"
  by (erule int_value_cases)
    (simp_all add: ten_value_get_uint16_def cast_in_range uint_eq_sint_in_range del: union_64.simps)

lemma get_uint16_unfits:
  "int_of v = Some n \<Longrightarrow> ten_value_get_type v \<noteq> TEN_TYPE_UINT16 \<Longrightarrow> n < 0 \<or> UINT16_MAX < n \<Longrightarrow>
   ten_value_get_uint16 v = (0, Some (unfit v ''uint32''))"
  by (erule int_value_cases) (auto simp: ten_value_get_uint16_def simp del: union_64.simps)

lemma get_uint16_not_int:
  "int_of v = None \<Longrightarrow> \<exists>e. ten_value_get_uint16 v = (0, Some e)"
  by (cases v) (simp_all add: ten_value_get_uint16_def)

interpretation access_uint16: int_access ten_value_convert_to_uint16 TEN_TYPE_UINT16 "0" UINT16_MAX
    ten_value_get_uint16 uint "0" UINT16_MAX
  using get_uint16_accepts get_uint16_unfits get_uint16_not_int
  by unfold_locales simp_all

lemma get_uint32_accepts:
  "int_of v = Some n \<Longrightarrow> ten_value_get_type v = TEN_TYPE_UINT32 \<or> 0 \<le> n \<and> n \<le> UINT32_MAX \<Longrightarrow>
   \<exists>w. ten_value_get_uint32 v = (w, None) \<and> uint w = n"
  by (erule int_value_cases)
    (simp_all add: ten_value_get_uint32_def cast_in_range uint_eq_sint_in_range del: union_64.simps)

lemma get_uint32_unfits:
  "int_of v = Some n \<Longrightarrow> ten_value_get_type v \<noteq> TEN_TYPE_UINT32 \<Longrightarrow> n < 0 \<or> UINT32_MAX < n \<Longrightarrow>
   ten_value_get_uint32 v = (0, Some (unfit v ''uint32''))"
  by (erule int_value_cases) (auto simp: ten_value_get_uint32_def simp del: union_64.simps)

lemma get_uint32_not_int:
  "int_of v = None \<Longrightarrow> \<exists>e. ten_value_get_uint32 v = (0, Some e)"
  by (cases v) (simp_all add: ten_value_get_uint32_def)

interpretation access_uint32: int_access ten_value_convert_to_uint32 TEN_TYPE_UINT32 "0" UINT32_MAX
    ten_value_get_uint32 uint "0" UINT32_MAX
  using get_uint32_accepts get_uint32_unfits get_uint32_not_int
  by unfold_locales simp_all

lemma get_uint64_accepts:
  "int_of v = Some n \<Longrightarrow> ten_value_get_type v = TEN_TYPE_UINT64 \<or> 0 \<le> n \<and> n \<le> UINT64_MAX \<Longrightarrow>
   \<exists>w. ten_value_get_uint64 v = (w, None) \<and> uint w = n"
  by (erule int_value_cases)
    (simp_all add: ten_value_get_uint64_def cast_in_range uint_eq_sint_in_range del: union_64.simps)

lemma get_uint64_unfits:
  "int_of v = Some n \<Longrightarrow> ten_value_get_type v \<noteq> TEN_TYPE_UINT64 \<Longrightarrow> n < 0 \<or> UINT64_MAX < n \<Longrightarrow>
   ten_value_get_uint64 v = (0, Some (unfit v ''uint32''))"
  by (erule int_value_cases) (auto simp: ten_value_get_uint64_def simp del: union_64.simps)

lemma get_uint64_not_int:
  "int_of v = None \<Longrightarrow> \<exists>e. ten_value_get_uint64 v = (0, Some e)"
  by (cases v) (simp_all add: ten_value_get_uint64_def)

interpretation access_uint64: int_access ten_value_convert_to_uint64 TEN_TYPE_UINT64 "0" UINT64_MAX
    ten_value_get_uint64 uint "0" UINT64_MAX
  using get_uint64_accepts get_uint64_unfits get_uint64_not_int
  by unfold_locales simp_all

section \<open>Properties\<close>

text \<open>The getters as a family indexed by the target type, with the word read as an integer.\<close>

fun get_int :: "ten_type \<Rightarrow> ten_value \<Rightarrow> int got option" where
  "get_int TEN_TYPE_INT8 v = Some (map_prod sint id (ten_value_get_int8 v))"
| "get_int TEN_TYPE_INT16 v = Some (map_prod sint id (ten_value_get_int16 v))"
| "get_int TEN_TYPE_INT32 v = Some (map_prod sint id (ten_value_get_int32 v))"
| "get_int TEN_TYPE_INT64 v = Some (map_prod sint id (ten_value_get_int64 v))"
| "get_int TEN_TYPE_UINT8 v = Some (map_prod uint id (ten_value_get_uint8 v))"
| "get_int TEN_TYPE_UINT16 v = Some (map_prod uint id (ten_value_get_uint16 v))"
| "get_int TEN_TYPE_UINT32 v = Some (map_prod uint id (ten_value_get_uint32 v))"
| "get_int TEN_TYPE_UINT64 v = Some (map_prod uint id (ten_value_get_uint64 v))"
| "get_int _ v = None"

fun getter_range :: "ten_type \<Rightarrow> (int \<times> int) option" where
  "getter_range TEN_TYPE_INT8 = Some (- INT8_MAX, INT8_MAX)"
| "getter_range TEN_TYPE_INT16 = Some (- INT16_MAX, INT16_MAX)"
| "getter_range TEN_TYPE_INT32 = Some (- INT32_MAX, INT32_MAX)"
| "getter_range TEN_TYPE_INT64 = Some (- INT64_MAX, INT64_MAX)"
| "getter_range TEN_TYPE_UINT8 = Some (0, UINT8_MAX)"
| "getter_range TEN_TYPE_UINT16 = Some (0, UINT16_MAX)"
| "getter_range TEN_TYPE_UINT32 = Some (0, UINT32_MAX)"
| "getter_range TEN_TYPE_UINT64 = Some (0, UINT64_MAX)"
| "getter_range _ = None"

lemma map_prod_None_iff: "map_prod f id p = (n, None) \<longleftrightarrow> (\<exists>w. p = (w, None) \<and> n = f w)"
  by (cases p) auto

text \<open>An integer getter reports no error exactly on the integer values of its own type and on
  those of the other types whose number lies in the getter's range, and then returns that number.
  The signed ranges start at the negated maximum, not at the minimum of the type.\<close>

theorem get_int_success:
  assumes "getter_range ty = Some (lo, hi)"
  shows "get_int ty v = Some (n, None) \<longleftrightarrow>
    int_of v = Some n \<and> (ten_value_get_type v = ty \<or> lo \<le> n \<and> n \<le> hi)"
  using assms
  by (cases ty) (auto simp: map_prod_None_iff
      access_int8.get_reads_iff
      access_int16.get_reads_iff
      access_int32.get_reads_iff
      access_int64.get_reads_iff
      access_uint8.get_reads_iff
      access_uint16.get_reads_iff
      access_uint32.get_reads_iff
      access_uint64.get_reads_iff)

theorem get_int_success_witness:
  "ten_value_get_int16 (V_uint32 32767) = (32767, None) \<and>
   get_int TEN_TYPE_INT16 (V_uint32 32768) \<noteq> Some (32768, None)"
  using get_int_success [of TEN_TYPE_INT16 "- INT16_MAX" INT16_MAX "V_uint32 32767" 32767]
    get_int_success [of TEN_TYPE_INT16 "- INT16_MAX" INT16_MAX "V_uint32 32768" 32768]
  by (simp add: ten_value_get_int16_def)

text \<open>A getter that reports no error agrees with the conversion to the same type: the
  conversion succeeds and stores the number the getter read. The converse fails at the minimum of
  a signed type, which the conversions accept from a wider type and the getters reject.\<close>

theorem get_int_agrees_with_convert:
  "(convert_int ty = Some conv \<and> get_int ty v = Some (n, None) \<longrightarrow>
      (\<exists>v'. conv v = Some (Inr v') \<and> int_of v' = Some n)) \<and>
   ten_value_convert_to_int8 (V_int16 (- 128)) = Some (Inr (V_int8 (- 128))) \<and>
   ten_value_get_int8 (V_int16 (- 128)) = (0, Some (unfit (V_int16 (- 128)) ''uint32''))"
proof (intro conjI impI)
  assume "convert_int ty = Some conv \<and> get_int ty v = Some (n, None)"
  then show "\<exists>v'. conv v = Some (Inr v') \<and> int_of v' = Some n"
    by (cases ty) (auto simp: map_prod_None_iff
      dest: access_int8.get_then_convert
      dest: access_int16.get_then_convert
      dest: access_int32.get_then_convert
      dest: access_int64.get_then_convert
      dest: access_uint8.get_then_convert
      dest: access_uint16.get_then_convert
      dest: access_uint32.get_then_convert
      dest: access_uint64.get_then_convert)
qed (simp_all add: to_int8.conv_Inr_iff ten_value_get_int8_def)

theorem get_int_agrees_with_convert_witness:
  "\<exists>v'. ten_value_convert_to_uint8 (V_int64 200) = Some (Inr v') \<and> int_of v' = Some 200"
  using get_int_agrees_with_convert
    [of TEN_TYPE_UINT8 ten_value_convert_to_uint8 "V_int64 200" 200]
  by (simp add: ten_value_get_uint8_def)

text \<open>\<open>ten_value_get_float32\<close> returns 0.0 without an error for every valid value that is not a
  floating point number, integers included, where \<open>ten_value_get_float64\<close> reports an error; it
  reads a double without an error exactly when the double is a number that the test of the conversion
  to \<open>float32\<close> lets pass, which unlike the getter also lets NaN pass.\<close>

theorem get_float32_silent:
  "(ten_value_is_valid v \<and> \<not> TEN_IS_FLOAT_TYPE (ten_value_get_type v) \<longrightarrow>
      ten_value_get_float32 v = (FP_Zero False, None) \<and>
      ten_value_get_float64 v = (FP_Zero False, Some (unfit v ''float32''))) \<and>
   (snd (ten_value_get_float32 (V_float64 x)) = None \<longleftrightarrow>
      can_convert_float64_to_float32 x \<and> x \<noteq> FP_NaN) \<and>
   can_convert_float64_to_float32 FP_NaN"
  by (cases v; cases x) (auto simp: ten_value_get_float32_def ten_value_get_float64_def
      can_convert_float64_to_float32_def fp_ge_def fp_lt_def FLT_MAX_def)

theorem get_float32_silent_witness:
  "ten_value_get_float32 (V_int32 5) = (FP_Zero False, None)"
  using get_float32_silent [of "V_int32 5" FP_NaN] by simp

end
