(* ===== verification/Value_Object.thy ===== *)
theory Value_Object
  imports Value_Access
begin

text \<open>
  Objects: the lookups and the move of \<open>value/value_object.c\<close>, the key-value pairs of
  \<open>value/value_kv.c\<close> and the merges of \<open>value/value_merge.c\<close>. The contract between a container of
  named values and its clients, what a lookup returns after a store, is the locale \<open>kv_store\<close>.

  A pair of an object always holds a value here. The code can also hold a null one, between
  \<open>ten_value_kv_create_empty\<close> and its first store, and in a pair whose value was moved out; such
  pairs do not stay in an object.
\<close>

type_synonym kvs = "(string \<times> ten_value) list"

section \<open>Key-value pairs\<close>

definition ten_value_kv_create :: "string \<Rightarrow> ten_value \<Rightarrow> string \<times> ten_value" where
  "ten_value_kv_create name value = (name, value)"

definition ten_value_kv_get_key :: "string \<times> ten_value \<Rightarrow> string" where
  "ten_value_kv_get_key self = fst self"

definition ten_value_kv_get_value :: "string \<times> ten_value \<Rightarrow> ten_value" where
  "ten_value_kv_get_value self = snd self"

definition ten_value_kv_reset_to_value :: "string \<times> ten_value \<Rightarrow> ten_value \<Rightarrow> string \<times> ten_value" where
  "ten_value_kv_reset_to_value self value = (fst self, value)"

definition ten_value_kv_clone :: "string \<times> ten_value \<Rightarrow> string \<times> ten_value" where
  "ten_value_kv_clone target = (fst target, ten_value_clone (snd target))"

lemmas ten_value_kv_defs [simp] = ten_value_kv_create_def ten_value_kv_get_key_def
  ten_value_kv_get_value_def ten_value_kv_reset_to_value_def ten_value_kv_clone_def

section \<open>Lookup and move (\<open>value_object.c\<close>)\<close>

text \<open>The error object is read as well as written: an error set before the call makes it fail.\<close>

definition ten_value_object_get_bool :: "ten_value \<Rightarrow> string \<Rightarrow> ten_error \<Rightarrow> (bool \<times> ten_error) run" where
  "ten_value_object_get_bool self key err =
     do { v \<leftarrow> ten_value_object_peek self key;
          Some (case v of
            None \<Rightarrow> (False, ten_error_set err TEN_ERROR_CODE_GENERIC (key @ '' does not exist.''))
          | Some v \<Rightarrow>
              (let (result, e) = ten_value_get_bool v;
                   err = (case e of None \<Rightarrow> err | Some e \<Rightarrow> e)
               in if ten_error_is_success err then (result, err)
                  else (False, ten_error_set err TEN_ERROR_CODE_GENERIC
                                 (''Failed to get boolean value from '' @ key)))) }"

definition ten_value_object_peek_string :: "ten_value \<Rightarrow> string \<Rightarrow> string option run" where
  "ten_value_object_peek_string self key =
     do { v \<leftarrow> ten_value_object_peek self key;
          Some (case v of
            None \<Rightarrow> None
          | Some v \<Rightarrow> if ten_value_is_string v then ten_value_peek_raw_str v else None) }"

definition ten_value_object_peek_array :: "ten_value \<Rightarrow> string \<Rightarrow> ten_value list option run" where
  "ten_value_object_peek_array self key =
     do { v \<leftarrow> ten_value_object_peek self key;
          Some (case v of
            None \<Rightarrow> None
          | Some v \<Rightarrow> if ten_value_is_array v then ten_value_peek_array v else None) }"

text \<open>The loop does not stop at the first pair of the key: it overwrites every one.\<close>

fun object_move_loop :: "kvs \<Rightarrow> string \<Rightarrow> ten_value \<Rightarrow> bool \<times> kvs" where
  "object_move_loop [] key value = (False, [])"
| "object_move_loop ((k, v) # kvs) key value =
     (let (found, kvs') = object_move_loop kvs key value
      in if k = key then (True, ten_value_kv_reset_to_value (k, v) value # kvs')
         else (found, (k, v) # kvs'))"

definition ten_value_object_move :: "ten_value \<Rightarrow> string \<Rightarrow> ten_value \<Rightarrow> ten_value run" where
  "ten_value_object_move self key value =
     (case self of
        V_object kvs \<Rightarrow>
          let (found, kvs') = object_move_loop kvs key value
          in Some (V_object (if found then kvs' else kvs' @ [ten_value_kv_create key value]))
      | _ \<Rightarrow> None)"

lemma object_move_loop_found: "fst (object_move_loop kvs key value) \<longleftrightarrow> key \<in> fst ` set kvs"
  by (induction kvs) (auto split: prod.splits)

lemma object_move_loop_missing:
  "key \<notin> fst ` set kvs \<Longrightarrow> object_move_loop kvs key value = (False, kvs)"
  by (induction kvs) auto

lemma map_of_object_move_loop:
  "map_of (snd (object_move_loop kvs key value)) k =
     (if k = key then map_option (\<lambda>_. value) (map_of kvs k) else map_of kvs k)"
  by (induction kvs) (auto split: prod.splits)

lemma keys_object_move_loop: "map fst (snd (object_move_loop kvs key value)) = map fst kvs"
  by (induction kvs) (auto split: prod.splits)

lemma object_move_loop_eq:
  "distinct (map fst kvs) \<Longrightarrow> key \<in> fst ` set kvs \<Longrightarrow>
   object_move_loop kvs key value = (True, alist_update kvs key value)"
  by (induction kvs)
    (force simp: object_move_loop_missing)+

lemma alist_update_fresh:
  "key \<notin> fst ` set kvs \<Longrightarrow> alist_update kvs key value = kvs @ [(key, value)]"
  by (induction kvs) auto

lemma ten_value_object_move_eq:
  "distinct (map fst kvs) \<Longrightarrow>
   ten_value_object_move (V_object kvs) key value = Some (V_object (alist_update kvs key value))"
  by (cases "key \<in> fst ` set kvs")
    (simp_all add: ten_value_object_move_def object_move_loop_eq object_move_loop_missing
      alist_update_fresh)

section \<open>Merging (\<open>value_merge.c\<close>)\<close>

text \<open>
  \<open>merge_clone_item\<close> is the loop over the destination for one source pair; it stops at the first
  pair of the key. \<open>ten_value_object_merge_with_clone\<close> returns its flag with the destination.
\<close>

fun merge_clone :: "kvs \<Rightarrow> kvs \<Rightarrow> kvs"
  and merge_clone_item :: "kvs \<Rightarrow> string \<Rightarrow> ten_value \<Rightarrow> kvs" where
  "merge_clone dest [] = dest"
| "merge_clone dest ((k, v) # src) = merge_clone (merge_clone_item dest k v) src"
| "merge_clone_item [] k v = [ten_value_kv_clone (k, v)]"
| "merge_clone_item ((k', v') # dest) k v =
     (if k = k'
      then (case v of
              V_object s \<Rightarrow>
                (case v' of
                   V_object d \<Rightarrow> (k', V_object (merge_clone d s)) # dest
                 | _ \<Rightarrow> ten_value_kv_reset_to_value (k', v') (ten_value_clone v) # dest)
            | _ \<Rightarrow> ten_value_kv_reset_to_value (k', v') (ten_value_clone v) # dest)
      else (k', v') # merge_clone_item dest k v)"

definition ten_value_object_merge_with_clone :: "ten_value \<Rightarrow> ten_value \<Rightarrow> (bool \<times> ten_value) run" where
  "ten_value_object_merge_with_clone dest src =
     (case (dest, src) of
        (V_object d, V_object s) \<Rightarrow> Some (True, V_object (merge_clone d s))
      | _ \<Rightarrow> None)"

text \<open>
  The moving merge has no \<open>break\<close>: it goes on to later pairs of the key with what is left of the
  source value, \<open>None\<close> once it was moved out (the type test of a null value asserts) and an empty
  object once its members were merged.
\<close>

fun merge_move :: "kvs \<Rightarrow> kvs \<Rightarrow> kvs run"
  and merge_move_item :: "kvs \<Rightarrow> string \<Rightarrow> ten_value option \<Rightarrow> (bool \<times> ten_value option \<times> kvs) run" where
  "merge_move dest [] = Some dest"
| "merge_move dest ((k, v) # src) =
     (case merge_move_item dest k (Some v) of
        None \<Rightarrow> None
      | Some (found, rest, dest') \<Rightarrow>
          if found then merge_move dest' src
          else (case rest of None \<Rightarrow> None | Some w \<Rightarrow> merge_move (dest' @ [(k, w)]) src))"
| "merge_move_item [] k sv = Some (False, sv, [])"
| "merge_move_item ((k', v') # dest) k sv =
     (if k = k'
      then (case sv of
              None \<Rightarrow> None
            | Some v \<Rightarrow>
                (case (v, v') of
                   (V_object s, V_object d) \<Rightarrow>
                     (case merge_move d s of
                        None \<Rightarrow> None
                      | Some d' \<Rightarrow>
                          map_option (\<lambda>(_, rest, dest'). (True, rest, (k', V_object d') # dest'))
                            (merge_move_item dest k (Some (V_object []))))
                 | _ \<Rightarrow>
                     map_option (\<lambda>(_, rest, dest'). (True, rest, (k', v) # dest'))
                       (merge_move_item dest k None)))
      else map_option (\<lambda>(found, rest, dest'). (found, rest, (k', v') # dest'))
             (merge_move_item dest k sv))"

definition ten_value_object_merge_with_move ::
  "ten_value \<Rightarrow> ten_value \<Rightarrow> (bool \<times> ten_value \<times> ten_value) run" where
  "ten_value_object_merge_with_move dest src =
     (case (dest, src) of
        (V_object d, V_object s) \<Rightarrow>
          do { d' \<leftarrow> merge_move d s; Some (True, V_object d', V_object []) }
      | _ \<Rightarrow> None)"

section \<open>Well-formed objects\<close>

text \<open>No object inside the value has two pairs of one key.\<close>

fun keys_ok :: "ten_value \<Rightarrow> bool" where
  "keys_ok (V_array vs) = list_all keys_ok vs"
| "keys_ok (V_object kvs) = (distinct (map fst kvs) \<and> list_all (\<lambda>(k, v). keys_ok v) kvs)"
| "keys_ok _ = True"

lemma keys_ok_object:
  "keys_ok (V_object kvs) \<longleftrightarrow> distinct (map fst kvs) \<and> (\<forall>k v. (k, v) \<in> set kvs \<longrightarrow> keys_ok v)"
  unfolding keys_ok.simps list_all_members by simp

lemma clone_faithful_object:
  "clone_faithful (V_object kvs) \<longleftrightarrow> (\<forall>k v. (k, v) \<in> set kvs \<longrightarrow> clone_faithful v)"
  unfolding clone_faithful.simps list_all_members by simp

lemma keys_ok_Cons:
  "keys_ok (V_object ((k, v) # kvs)) \<longleftrightarrow> k \<notin> fst ` set kvs \<and> keys_ok v \<and> keys_ok (V_object kvs)"
  by auto

lemma clone_faithful_Cons:
  "clone_faithful (V_object ((k, v) # kvs)) \<longleftrightarrow> clone_faithful v \<and> clone_faithful (V_object kvs)"
  by auto

declare keys_ok.simps(2) [simp del] clone_faithful.simps(2) [simp del]

lemma keys_ok_map_of: "keys_ok (V_object kvs) \<Longrightarrow> map_of kvs k = Some v \<Longrightarrow> keys_ok v"
  by (auto simp: keys_ok_object dest: map_of_SomeD)

lemma keys_ok_clone: "keys_ok v \<Longrightarrow> keys_ok (ten_value_clone v)"
proof (induction v rule: ten_value_clone.induct)
  case (2 kvs)
  have [simp]: "fst \<circ> (\<lambda>(k, v). (k, ten_value_clone v)) = fst" by auto
  have "keys_ok (ten_value_clone v)" if "(k, v) \<in> set kvs" for k v
    using 2(1) [OF that refl] 2(2) that by (auto simp: keys_ok_object)
  with 2(2) show ?case by (auto simp: keys_ok_object)
qed (auto simp: list_all_iff)

lemma set_alist_update: "(k', v') \<in> set (alist_update d k w) \<Longrightarrow> k' = k \<and> v' = w \<or> (k', v') \<in> set d"
  by (induction d) (auto split: if_splits)

lemma keys_ok_alist_update:
  "keys_ok (V_object d) \<Longrightarrow> keys_ok w \<Longrightarrow> keys_ok (V_object (alist_update d k w))"
  by (auto simp: keys_ok_object dest: set_alist_update)

lemma alist_eqI:
  "distinct (map fst xs) \<Longrightarrow> map fst xs = map fst ys \<Longrightarrow> map_of xs = map_of ys \<Longrightarrow> xs = ys"
proof (induction xs arbitrary: ys)
  case (Cons x xs)
  obtain k v where x: "x = (k, v)" by (cases x)
  from Cons.prems x obtain v' ys' where ys: "ys = (k, v') # ys'" by (cases ys) auto
  have v: "v' = v" using fun_cong [OF Cons.prems(3), of k] x ys by simp
  have "map_of xs = map_of ys'"
  proof
    fix j
    have "k \<notin> fst ` set xs" "k \<notin> fst ` set ys'"
      using Cons.prems x ys by (simp_all, metis list.set_map)
    then have "map_of xs k = None" "map_of ys' k = None"
      by (simp_all add: map_of_eq_None_iff)
    then show "map_of xs j = map_of ys' j"
      using fun_cong [OF Cons.prems(3), of j] x ys by (cases "j = k") simp_all
  qed
  with Cons x ys v show ?case by simp
qed simp

section \<open>What a merge computes\<close>

text \<open>The value of one key after a merge: objects are merged, anything else is replaced.\<close>

fun merge_value :: "ten_value option \<Rightarrow> ten_value \<Rightarrow> ten_value" where
  "merge_value (Some (V_object d)) (V_object s) = V_object (merge_clone d s)"
| "merge_value _ v = ten_value_clone v"

lemma merge_clone_item_eq: "merge_clone_item d k v = alist_update d k (merge_value (map_of d k) v)"
proof (induction d)
  case (Cons kv d)
  then show ?case by (cases kv; cases v; cases "snd kv") auto
qed simp

lemma merge_clone_Cons:
  "merge_clone d ((k, v) # s) = merge_clone (alist_update d k (merge_value (map_of d k) v)) s"
  by (simp add: merge_clone_item_eq)

lemma map_of_merge_clone:
  "distinct (map fst s) \<Longrightarrow>
   map_of (merge_clone d s) k =
     (case map_of s k of None \<Rightarrow> map_of d k | Some v \<Rightarrow> Some (merge_value (map_of d k) v))"
proof (induction s arbitrary: d)
  case (Cons kv s)
  obtain j v where kv: "kv = (j, v)" by (cases kv)
  have "map_of s j = None" using Cons.prems kv by (simp add: map_of_eq_None_iff)
  then show ?case
    using Cons kv by (auto simp: merge_clone_Cons simp del: merge_clone.simps split: option.splits)
qed simp

lemma keys_merge_clone:
  "distinct (map fst s) \<Longrightarrow>
   map fst (merge_clone d s) = map fst d @ filter (\<lambda>k. k \<notin> fst ` set d) (map fst s)"
proof (induction s arbitrary: d)
  case (Cons kv s)
  obtain j v where kv: "kv = (j, v)" by (cases kv)
  let ?d = "alist_update d j (merge_value (map_of d j) v)"
  have keys: "fst ` set ?d = insert j (fst ` set d)"
    using arg_cong [OF keys_alist_update [of d j "merge_value (map_of d j) v"], of set]
    by (auto split: if_splits)
  have "j \<notin> set (map fst s)" using Cons.prems kv by simp
  then have "filter (\<lambda>k. k \<noteq> j \<and> k \<notin> fst ` set d) (map fst s) =
      filter (\<lambda>k. k \<notin> fst ` set d) (map fst s)"
    by (intro filter_cong) auto
  then show ?case
    using Cons kv keys by (simp add: merge_clone_Cons keys_alist_update del: merge_clone.simps)
qed simp

lemma distinct_merge_clone: "distinct (map fst d) \<Longrightarrow> distinct (map fst (merge_clone d s))"
  by (induction s arbitrary: d) (auto simp: merge_clone_Cons simp del: merge_clone.simps(2))

text \<open>Merging twice is merging once.\<close>

lemma merge_clone_empty:
  "keys_ok (V_object s) \<Longrightarrow> clone_faithful (V_object s) \<Longrightarrow> merge_clone [] s = s"
proof (rule alist_eqI)
  assume s: "keys_ok (V_object s)" "clone_faithful (V_object s)"
  then show "distinct (map fst (merge_clone [] s))" by (simp add: distinct_merge_clone)
  from s show "map fst (merge_clone [] s) = map fst s"
    by (simp add: keys_merge_clone keys_ok_object)
  show "map_of (merge_clone [] s) = map_of s"
  proof
    fix k
    from s show "map_of (merge_clone [] s) k = map_of s k"
      by (auto simp: map_of_merge_clone keys_ok_object clone_faithful_object ten_value_clone_eq
          split: option.splits dest: map_of_SomeD)
  qed
qed

lemma merge_value_idem:
  assumes "keys_ok v" and "clone_faithful v"
    and "\<And>w. old = Some w \<Longrightarrow> keys_ok w"
    and IH: "\<And>s d. v = V_object s \<Longrightarrow> keys_ok (V_object d) \<Longrightarrow>
      merge_clone (merge_clone d s) s = merge_clone d s"
  shows "merge_value (Some (merge_value old v)) v = merge_value old v"
proof (cases v)
  case (V_object s)
  have self: "merge_clone s s = s"
  proof -
    have "merge_clone (merge_clone [] s) s = merge_clone [] s"
      by (rule IH [OF V_object]) (simp add: keys_ok_object)
    moreover have "merge_clone [] s = s"
      using merge_clone_empty assms(1,2) V_object by blast
    ultimately show ?thesis by simp
  qed
  show ?thesis
  proof (cases old)
    case None
    with V_object self assms show ?thesis
      by (simp add: ten_value_clone_eq del: ten_value_clone.simps(2))
  next
    case (Some w)
    with V_object self IH assms show ?thesis
      by (cases w) (simp_all add: ten_value_clone_eq del: ten_value_clone.simps(2))
  qed
qed (cases "(old, v)" rule: merge_value.cases; simp)+

lemma size_member: "(k, v) \<in> set kvs \<Longrightarrow> size v < size (V_object kvs)"
  by (induction kvs) auto

lemma merge_clone_idem:
  "keys_ok (V_object s) \<Longrightarrow> clone_faithful (V_object s) \<Longrightarrow> keys_ok (V_object d) \<Longrightarrow>
   merge_clone (merge_clone d s) s = merge_clone d s"
proof (induction "size (V_object s)" arbitrary: s d rule: less_induct)
  case less
  note s = less.prems(1,2) and d = less.prems(3)
  have ds: "distinct (map fst s)" using s by (simp add: keys_ok_object)
  show ?case
  proof (rule alist_eqI)
    show "distinct (map fst (merge_clone (merge_clone d s) s))"
      using d by (simp add: distinct_merge_clone keys_ok_object)
    have "set (map fst s) \<subseteq> fst ` set (merge_clone d s)"
      using arg_cong [OF keys_merge_clone [OF ds, of d], of set] by auto
    then have "filter (\<lambda>k. k \<notin> fst ` set (merge_clone d s)) (map fst s) = []"
      by (auto simp: filter_empty_conv)
    then show "map fst (merge_clone (merge_clone d s) s) = map fst (merge_clone d s)"
      by (simp add: keys_merge_clone [OF ds, of "merge_clone d s"])
    show "map_of (merge_clone (merge_clone d s) s) = map_of (merge_clone d s)"
    proof
      fix k
      show "map_of (merge_clone (merge_clone d s) s) k = map_of (merge_clone d s) k"
      proof (cases "map_of s k")
        case (Some v)
        then have kv: "(k, v) \<in> set s" by (rule map_of_SomeD)
        have "merge_value (Some (merge_value (map_of d k) v)) v = merge_value (map_of d k) v"
        proof (rule merge_value_idem)
          show ok: "keys_ok v" "clone_faithful v"
            using s kv by (auto simp: keys_ok_object clone_faithful_object)
          show "keys_ok w" if "map_of d k = Some w" for w
            using d that by (rule keys_ok_map_of)
          fix s' d'
          assume v: "v = V_object s'" and d': "keys_ok (V_object d')"
          have "size (V_object s') < size (V_object s)" using size_member [OF kv] v by simp
          then show "merge_clone (merge_clone d' s') s' = merge_clone d' s'"
            using ok v d' by (intro less.hyps) simp_all
        qed
        with Some ds show ?thesis by (simp add: map_of_merge_clone)
      qed (simp add: map_of_merge_clone [OF ds])
    qed
  qed
qed

lemma keys_merge_clone_item:
  "fst ` set (merge_clone_item d k v) = insert k (fst ` set d)"
  using arg_cong [OF keys_alist_update [of d k "merge_value (map_of d k) v"], of set]
  by (auto simp: merge_clone_item_eq split: if_splits)

lemma keys_ok_merge_clone:
  "keys_ok (V_object d) \<Longrightarrow> keys_ok (V_object s) \<Longrightarrow> keys_ok (V_object (merge_clone d s))"
  "keys_ok (V_object d) \<Longrightarrow> keys_ok v \<Longrightarrow> keys_ok (V_object (merge_clone_item d k v))"
proof (induction d s and d k v rule: merge_clone_merge_clone_item.induct)
  case (3 k v)
  then show ?case by (simp add: keys_ok_Cons keys_ok_clone keys_ok_object)
next
  case (4 k' v' d k v)
  show ?case
  proof (cases "k = k'")
    case True
    with 4 show ?thesis
      by (cases v; cases v') (simp_all add: keys_ok_Cons keys_ok_clone [of "V_object _"] keys_ok_clone
          del: ten_value_clone.simps)
  next
    case False
    with 4 show ?thesis by (simp add: keys_ok_Cons keys_merge_clone_item)
  qed
qed (auto simp: keys_ok_Cons)

text \<open>The moving merge agrees with the copying one and leaves the source empty.\<close>

lemma merge_move_item_missing:
  "k \<notin> fst ` set d \<Longrightarrow> merge_move_item d k sv = Some (False, sv, d)"
  by (induction d) auto

lemma merge_clone_item_missing:
  "k \<notin> fst ` set d \<Longrightarrow> merge_clone_item d k v = d @ [(k, ten_value_clone v)]"
  by (induction d) auto

lemma merge_move_eq:
  "keys_ok (V_object d) \<Longrightarrow> keys_ok (V_object s) \<Longrightarrow> clone_faithful (V_object s) \<Longrightarrow>
   merge_move d s = Some (merge_clone d s)"
  "keys_ok (V_object d) \<Longrightarrow> sv = Some v \<Longrightarrow> keys_ok v \<Longrightarrow> clone_faithful v \<Longrightarrow> k \<in> fst ` set d \<Longrightarrow>
   \<exists>rest. merge_move_item d k sv = Some (True, rest, merge_clone_item d k v)"
proof (induction d s and d k sv arbitrary: and v rule: merge_move_merge_move_item.induct)
  case (2 d k v s)
  note ok = 2(4) and cf = 2(6)
  have s: "keys_ok v" "clone_faithful v" "keys_ok (V_object s)" "clone_faithful (V_object s)"
    using 2(5,6) by (simp_all add: keys_ok_Cons clone_faithful_Cons)
  have d': "keys_ok (V_object (merge_clone_item d k v))"
    by (rule keys_ok_merge_clone) (use ok s in simp_all)
  show ?case
  proof (cases "k \<in> fst ` set d")
    case True
    from 2(1) [OF ok refl s(1,2) True] obtain rest where
      r: "merge_move_item d k (Some v) = Some (True, rest, merge_clone_item d k v)" by blast
    from 2(2) [OF r refl refl TrueI d' s(3,4)] r show ?thesis by simp
  next
    case False
    have m: "merge_move_item d k (Some v) = Some (False, Some v, d)"
      using False by (simp add: merge_move_item_missing)
    have "merge_clone_item d k v = d @ [(k, v)]"
      using False s by (simp add: merge_clone_item_missing ten_value_clone_eq)
    with 2(3) [OF m refl refl _ refl] d' s m show ?thesis by simp
  qed
next
  case (4 k' v' d k sv)
  note prems = "4.prems"
  have head: "k' \<notin> fst ` set d" "keys_ok v'" "keys_ok (V_object d)"
    using prems(1) by (simp_all add: keys_ok_Cons)
  show ?case
  proof (cases "k = k'")
    case True
    have miss: "\<And>sv. merge_move_item d k sv = Some (False, sv, d)"
      using head(1) True by (simp add: merge_move_item_missing)
    show ?thesis
    proof (cases "\<exists>s e. v = V_object s \<and> v' = V_object e")
      case both: True
      then obtain s e where se: "v = V_object s" "v' = V_object e" by blast
      have "merge_move e s = Some (merge_clone e s)"
        by (rule "4.IH"(33) [of v v v', OF True]) (use se prems head in simp_all)
      then show ?thesis using se True prems miss by simp
    next
      case False
      then show ?thesis
        using True prems miss by (cases v; cases v') (simp_all add: ten_value_clone_eq del: ten_value_clone.simps)
    qed
  next
    case False
    with prems have "k \<in> fst ` set d" by auto
    with "4.IH"(37) [OF False head(3) prems(2)] prems show ?thesis using False by auto
  qed
qed auto

section \<open>Containers of named values\<close>

text \<open>
  The contract of a container: a store succeeds on a well-formed container, keeps it well formed,
  and changes what a lookup of its own key returns and nothing else.
\<close>

locale kv_store =
  fixes ok :: "'s \<Rightarrow> bool"
    and peek :: "'s \<Rightarrow> string \<Rightarrow> 'v option run"
    and put :: "'s \<Rightarrow> string \<Rightarrow> 'v \<Rightarrow> 's run"
  assumes put_law: "ok s \<Longrightarrow> \<exists>s'. put s k v = Some s' \<and> ok s' \<and>
      (\<forall>j. peek s' j = (if j = k then Some (Some v) else peek s j))"
    and peek_law: "ok s \<Longrightarrow> peek s k \<noteq> None"
begin

lemma put_total: "ok s \<Longrightarrow> \<exists>s'. put s k v = Some s' \<and> ok s'"
  using put_law by blast

lemma put_ok: "ok s \<Longrightarrow> put s k v = Some s' \<Longrightarrow> ok s'"
  using put_law [of s k v] by auto

lemma peek_put: "ok s \<Longrightarrow> put s k v = Some s' \<Longrightarrow> peek s' j = (if j = k then Some (Some v) else peek s j)"
  using put_law [of s k v] by auto

lemma put_twice:
  "ok s \<Longrightarrow> put s k v = Some s1 \<Longrightarrow> put s1 k w = Some s2 \<Longrightarrow> put s k w = Some s3 \<Longrightarrow> peek s2 j = peek s3 j"
  using peek_put [of s k v s1] peek_put [of s1 k w s2] peek_put [of s k w s3] put_ok [of s k v s1]
  by simp

lemma put_swap:
  "ok s \<Longrightarrow> k \<noteq> k' \<Longrightarrow> put s k v = Some s1 \<Longrightarrow> put s1 k' w = Some s2 \<Longrightarrow>
   put s k' w = Some t1 \<Longrightarrow> put t1 k v = Some t2 \<Longrightarrow> peek s2 j = peek t2 j"
  using peek_put [of s k v s1] peek_put [of s1 k' w s2] peek_put [of s k' w t1]
    peek_put [of t1 k v t2] put_ok [of s k v s1] put_ok [of s k' w t1] by simp

end

lemma ten_value_object_move_law:
  assumes "ten_value_is_object s"
  shows "\<exists>s'. ten_value_object_move s k v = Some s' \<and> ten_value_is_object s' \<and>
    (\<forall>j. ten_value_object_peek s' j = (if j = k then Some (Some v) else ten_value_object_peek s j))"
proof -
  obtain kvs where s: "s = V_object kvs" using assms by auto
  show ?thesis
  proof (cases "k \<in> fst ` set kvs")
    case True
    then obtain w r where w: "map_of kvs k = Some w" and r: "object_move_loop kvs k v = (True, r)"
      using object_move_loop_found [of kvs k v]
      by (cases "object_move_loop kvs k v") (auto simp: weak_map_of_SomeI image_iff dest: weak_map_of_SomeI)
    with s map_of_object_move_loop [of kvs k v] show ?thesis
      by (simp add: ten_value_object_move_def ten_value_object_peek_def)
  next
    case False
    then show ?thesis
      using s by (simp add: ten_value_object_move_def ten_value_object_peek_def object_move_loop_missing
          alist_update_fresh [symmetric])
  qed
qed

interpretation object_store: kv_store ten_value_is_object ten_value_object_peek ten_value_object_move
proof
  show "ten_value_object_peek s k \<noteq> None" if "ten_value_is_object s" for s k
    using that by (auto simp: ten_value_object_peek_def)
qed (rule ten_value_object_move_law)

section \<open>Properties\<close>

text \<open>Moving a value into an object always succeeds, whether or not the key is there: a lookup
  of the key then finds the value, every other lookup is unchanged, of two moves to one key the
  second decides, and an object whose keys are distinct keeps them distinct.\<close>

theorem object_move_peek:
  assumes "ten_value_is_object obj"
  shows "\<exists>obj' obj''. ten_value_object_move obj k v = Some obj' \<and>
    ten_value_object_peek obj' j = (if j = k then Some (Some v) else ten_value_object_peek obj j) \<and>
    ten_value_object_move obj' k w = Some obj'' \<and> ten_value_object_peek obj'' k = Some (Some w) \<and>
    (keys_ok obj \<and> keys_ok v \<longrightarrow> keys_ok obj')"
proof -
  from object_store.put_total [OF assms, of k v] obtain obj'
    where 1: "ten_value_object_move obj k v = Some obj'" "ten_value_is_object obj'" by blast
  from object_store.put_total [OF this(2), of k w] obtain obj''
    where 2: "ten_value_object_move obj' k w = Some obj''" by blast
  have "keys_ok obj'" if "keys_ok obj" "keys_ok v"
    using that assms 1 keys_ok_alist_update [of _ v k]
    by (auto simp: ten_value_object_move_eq keys_ok_object [of "_"] simp del: is_object_iff
        simp add: is_object_iff [of obj])
  with 1 2 object_store.peek_put [OF assms 1(1)] object_store.peek_put [OF 1(2) 2] show ?thesis
    by auto
qed

theorem object_move_peek_witness:
  "\<exists>obj' obj''. ten_value_object_move (V_object [(''a'', V_null)]) ''b'' (V_bool True) = Some obj' \<and>
     ten_value_object_peek obj' ''b'' = Some (Some (V_bool True)) \<and>
     ten_value_object_move obj' ''b'' V_null = Some obj''"
  using object_move_peek [of "V_object [(''a'', V_null)]" "''b''" "V_bool True" "''b''" V_null] by auto

text \<open>C17: What a copying merge computes: a key of the source holds the merge of the two values when
  both are objects and a copy of the source value otherwise, every other key keeps its value, the
  keys of the destination come first and in order, and well-formedness is preserved.\<close>

theorem merge_with_clone_lookup:
  assumes "keys_ok (V_object d)" and "keys_ok (V_object s)"
  shows "\<exists>r. ten_value_object_merge_with_clone (V_object d) (V_object s) = Some (True, V_object r) \<and>
    map_of r k = (case map_of s k of
        None \<Rightarrow> map_of d k
      | Some v \<Rightarrow> (case (map_of d k, v) of
            (Some (V_object d'), V_object s') \<Rightarrow> Some (V_object (merge_clone d' s'))
          | _ \<Rightarrow> Some (ten_value_clone v))) \<and>
    map fst r = map fst d @ filter (\<lambda>k. k \<notin> fst ` set d) (map fst s) \<and> keys_ok (V_object r)"
proof -
  have s: "distinct (map fst s)" using assms(2) by (simp add: keys_ok_object)
  have "Some (merge_value old v) = (case (old, v) of
      (Some (V_object d'), V_object s') \<Rightarrow> Some (V_object (merge_clone d' s'))
    | _ \<Rightarrow> Some (ten_value_clone v))" for old v
    by (cases v) (simp_all split: option.split ten_value.split)
  then show ?thesis
    using keys_ok_merge_clone(1) [OF assms]
    by (auto simp: ten_value_object_merge_with_clone_def map_of_merge_clone [OF s]
        keys_merge_clone [OF s] split: option.splits)
qed

theorem merge_with_clone_lookup_witness:
  "\<exists>r. ten_value_object_merge_with_clone (V_object [(''a'', V_object [(''x'', V_int8 1)])])
       (V_object [(''a'', V_object [(''y'', V_int8 2)])]) = Some (True, V_object r) \<and>
     map_of r ''a'' = Some (V_object [(''x'', V_int8 1), (''y'', V_int8 2)])"
  using merge_with_clone_lookup [of "[(''a'', V_object [(''x'', V_int8 1)])]"
    "[(''a'', V_object [(''y'', V_int8 2)])]" "''a''"]
  by (auto simp: keys_ok_Cons keys_ok_object)



end
