(* ===== verification/Value_Path.thy ===== *)
theory Value_Path
  imports Value_Object
begin

text \<open>
  Paths into a value (\<open>value/value_path.c\<close>): \<open>a.b[3]\<close> is parsed into a list of items, which a
  lookup follows and a store builds. Strings are C strings, without a terminator inside. An index
  is a \<open>size_t\<close>; a store at an index beyond the end of an array appends invalid values up to it.
\<close>

section \<open>Splitting and numbers\<close>

text \<open>
  \<open>ten_c_string_split\<close> calls \<open>strtok_r\<close>, which skips leading delimiters before every token.
\<close>

function ten_c_string_split :: "string \<Rightarrow> string \<Rightarrow> string list" where
  "ten_c_string_split src delimiter =
     (case dropWhile (\<lambda>c. c \<in> set delimiter) src of
        [] \<Rightarrow> []
      | c # cs \<Rightarrow>
          takeWhile (\<lambda>c. c \<notin> set delimiter) (c # cs) #
          ten_c_string_split (drop 1 (dropWhile (\<lambda>c. c \<notin> set delimiter) (c # cs))) delimiter)"
  by pat_completeness auto
termination
proof (relation "measure (length \<circ> fst)")
  fix src delimiter :: string and c cs
  assume "dropWhile (\<lambda>c. c \<in> set delimiter) src = c # cs"
  then have "length (c # cs) \<le> length src"
    by (metis length_dropWhile_le)
  moreover have "length (dropWhile (\<lambda>c. c \<notin> set delimiter) (c # cs)) \<le> length (c # cs)"
    by (rule length_dropWhile_le)
  ultimately show "((drop 1 (dropWhile (\<lambda>c. c \<notin> set delimiter) (c # cs)), delimiter), src, delimiter)
      \<in> measure (length \<circ> fst)"
    by (simp del: dropWhile.simps)
qed simp

declare ten_c_string_split.simps [simp del]

definition is_space :: "char \<Rightarrow> bool" where
  "is_space c \<longleftrightarrow> of_char c = (32::nat) \<or> 9 \<le> (of_char c :: nat) \<and> (of_char c :: nat) \<le> 13"

text \<open>\<open>strtol (s, NULL, 10)\<close>, with its saturation.\<close>

definition strtol10 :: "string \<Rightarrow> int" where
  "strtol10 s =
     (let s = dropWhile is_space s;
          neg = (s \<noteq> [] \<and> hd s = CHR ''-'');
          s = (if s \<noteq> [] \<and> (hd s = CHR ''-'' \<or> hd s = CHR ''+'') then tl s else s);
          n = int (read_digits (takeWhile is_digit s))
      in if neg then max INT64_MIN (- n) else min INT64_MAX n)"

definition long_to_size :: "int \<Rightarrow> nat" where
  "long_to_size n = nat (n mod 18446744073709551616)"

section \<open>Parsing\<close>

datatype path_item =
    OBJECT_ITEM string
  | ARRAY_ITEM nat

text \<open>
  \<open>Some None\<close> is the null result for a malformed index. The test of the last character reads the
  byte before the buffer when no character is left, which has no defined result.
\<close>

definition ten_value_path_parse_between_bracket :: "string \<Rightarrow> bool \<Rightarrow> path_item option run" where
  "ten_value_path_parse_between_bracket content is_first =
     (if is_first then Some (Some (OBJECT_ITEM content))
      else if content = [] then None
      else if last content \<noteq> CHR '']'' then Some None
      else let content = butlast content
           in if content = [] then None
              else if last content = CHR '']'' then Some None
              else Some (Some (ARRAY_ITEM (long_to_size (strtol10 content)))))"

fun parse_brackets :: "string list \<Rightarrow> bool \<Rightarrow> path_item list \<Rightarrow> (bool \<times> path_item list) run" where
  "parse_brackets [] is_first result = Some (True, result)"
| "parse_brackets (content # rest) is_first result =
     do { item \<leftarrow> ten_value_path_parse_between_bracket content is_first;
          case item of
            None \<Rightarrow> Some (False, result)
          | Some item \<Rightarrow> parse_brackets rest False (result @ [item]) }"

definition ten_value_path_parse_between_colon ::
  "string \<Rightarrow> path_item list \<Rightarrow> (bool \<times> path_item list) run" where
  "ten_value_path_parse_between_colon path result =
     parse_brackets (ten_c_string_split path ''['') True result"

fun parse_colons :: "string list \<Rightarrow> path_item list \<Rightarrow> (bool \<times> path_item list) run" where
  "parse_colons [] result = Some (True, result)"
| "parse_colons (content # rest) result =
     do { (rc, result) \<leftarrow> ten_value_path_parse_between_colon content result;
          if rc then parse_colons rest result else Some (False, []) }"

definition ten_value_path_parse :: "string \<Rightarrow> (bool \<times> path_item list) got run" where
  "ten_value_path_parse path =
     (if path = []
      then Some ((False, []), Some (ten_error_set ten_error_init TEN_ERROR_CODE_INVALID_ARGUMENT
                                      ''path should not be empty.''))
      else do { r \<leftarrow> parse_colons (ten_c_string_split path ''.'') []; Some (r, None) })"

section \<open>Lookup\<close>

text \<open>
  An item whose key or index is missing leaves \<open>base\<close> as it is, and the loop goes on with the next
  item. Only the last item sets the result.
\<close>

fun peek_items :: "ten_value \<Rightarrow> path_item list \<Rightarrow> ten_value option" where
  "peek_items base [] = None"
| "peek_items base (OBJECT_ITEM key # rest) =
     (case base of
        V_object kvs \<Rightarrow>
          (case kv_peek kvs key of
             None \<Rightarrow> peek_items base rest
           | Some v \<Rightarrow> if rest \<noteq> [] then peek_items v rest else Some v)
      | _ \<Rightarrow> None)"
| "peek_items base (ARRAY_ITEM idx # rest) =
     (case base of
        V_array vs \<Rightarrow>
          if idx < length vs
          then if rest \<noteq> [] then peek_items (vs ! idx) rest else Some (vs ! idx)
          else peek_items base rest
      | _ \<Rightarrow> None)"

text \<open>Whatever stopped the lookup, the error of a null result is that the value was not found.\<close>

definition ten_value_peek_from_path :: "ten_value \<Rightarrow> string \<Rightarrow> ten_value option got run" where
  "ten_value_peek_from_path base path =
     do { ((rc, items), e) \<leftarrow> ten_value_path_parse path;
          let result = (if rc then peek_items base items else None);
          Some (result,
                if result = None
                then Some (ten_error_set ten_error_init TEN_ERROR_CODE_VALUE_NOT_FOUND
                             (''Failed to find value: '' @ path))
                else None) }"

section \<open>Store\<close>

text \<open>The container that the next item needs, created where the current value is not one.\<close>

fun base_for :: "ten_value option \<Rightarrow> path_item list \<Rightarrow> ten_value \<Rightarrow> ten_value" where
  "base_for old [] value = value"
| "base_for old (OBJECT_ITEM _ # _) value =
     (case old of
        Some v \<Rightarrow> if ten_value_is_object v then v else V_object []
      | None \<Rightarrow> V_object [])"
| "base_for old (ARRAY_ITEM _ # _) value =
     (case old of
        Some v \<Rightarrow> if ten_value_is_array v then v else V_array []
      | None \<Rightarrow> V_array [])"

text \<open>The flag the loop returns and what has become of \<open>base\<close>.\<close>

fun ten_value_set_from_path_list_with_move ::
  "ten_value \<Rightarrow> path_item list \<Rightarrow> ten_value \<Rightarrow> bool \<times> ten_value" where
  "ten_value_set_from_path_list_with_move base [] value = (True, base)"
| "ten_value_set_from_path_list_with_move base (OBJECT_ITEM key # rest) value =
     (case base of
        V_object kvs \<Rightarrow>
          (let (result, v) =
                 ten_value_set_from_path_list_with_move (base_for (kv_peek kvs key) rest value) rest value
           in (result, V_object (alist_update kvs key v)))
      | _ \<Rightarrow> (False, base))"
| "ten_value_set_from_path_list_with_move base (ARRAY_ITEM idx # rest) value =
     (case base of
        V_array vs \<Rightarrow>
          (let old = (if idx < length vs then Some (vs ! idx) else None);
               (result, v) =
                 ten_value_set_from_path_list_with_move (base_for old rest value) rest value
           in (result, V_array (if idx < length vs then vs[idx := v]
                                else vs @ replicate (idx - length vs) V_invalid @ [v])))
      | _ \<Rightarrow> (False, base))"

text \<open>The flag is that of neither the parse nor the store: it is always true.\<close>

definition ten_value_set_from_path_str_with_move ::
  "ten_value \<Rightarrow> string \<Rightarrow> ten_value \<Rightarrow> (bool \<times> ten_value) got run" where
  "ten_value_set_from_path_str_with_move base path value =
     do { ((rc, paths), e) \<leftarrow> ten_value_path_parse path;
          Some ((True, if rc then snd (ten_value_set_from_path_list_with_move base paths value) else base), e) }"

section \<open>Rendering a path\<close>

text \<open>A path as the documentation writes it: named members, each followed by its indices.\<close>

type_synonym segment = "string \<times> nat list"

definition render_segment :: "segment \<Rightarrow> string" where
  "render_segment seg = fst seg @ concat (map (\<lambda>i. ''['' @ show_nat i @ '']'') (snd seg))"

fun render_path :: "segment list \<Rightarrow> string" where
  "render_path [] = []"
| "render_path [seg] = render_segment seg"
| "render_path (seg # segs) = render_segment seg @ ''.'' @ render_path segs"

definition segment_items :: "segment \<Rightarrow> path_item list" where
  "segment_items seg = OBJECT_ITEM (fst seg) # map ARRAY_ITEM (snd seg)"

definition segment_ok :: "segment \<Rightarrow> bool" where
  "segment_ok seg \<longleftrightarrow>
     fst seg \<noteq> [] \<and> CHR ''.'' \<notin> set (fst seg) \<and> CHR ''['' \<notin> set (fst seg) \<and>
     (\<forall>i \<in> set (snd seg). int i \<le> INT64_MAX)"

lemma takeWhile_dropWhile_neq:
  "d \<notin> set cs \<Longrightarrow> takeWhile (\<lambda>x. x \<noteq> d) (cs @ d # s) = cs"
  "d \<notin> set cs \<Longrightarrow> dropWhile (\<lambda>x. x \<noteq> d) (cs @ d # s) = d # s"
  "d \<notin> set cs \<Longrightarrow> takeWhile (\<lambda>x. x \<noteq> d) cs = cs"
  "d \<notin> set cs \<Longrightarrow> dropWhile (\<lambda>x. x \<noteq> d) cs = []"
  by (induction cs) auto

lemma split_last [simp]:
  assumes "t \<noteq> []" and "d \<notin> set t"
  shows "ten_c_string_split t [d] = [t]"
proof -
  obtain c cs where t: "t = c # cs" "c \<noteq> d" "d \<notin> set cs" using assms by (cases t) auto
  then show ?thesis
    by (simp add: ten_c_string_split.simps [of "_ # _"] ten_c_string_split.simps [of "[]"]
        takeWhile_dropWhile_neq)
qed

lemma split_step [simp]:
  assumes "t \<noteq> []" and "d \<notin> set t"
  shows "ten_c_string_split (t @ d # s) [d] = t # ten_c_string_split s [d]"
proof -
  obtain c cs where t: "t = c # cs" "c \<noteq> d" "d \<notin> set cs" using assms by (cases t) auto
  then show ?thesis
    by (simp add: ten_c_string_split.simps [of "_ # _"] takeWhile_dropWhile_neq)
qed

lemma not_in_show_nat [simp]:
  "CHR ''['' \<notin> set (show_nat n)" "CHR ''.'' \<notin> set (show_nat n)" "CHR '']'' \<notin> set (show_nat n)"
  using show_nat_digits [of "CHR ''[''" n] show_nat_digits [of "CHR ''.''" n]
    show_nat_digits [of "CHR '']''" n] by (auto simp: is_digit_def)

lemma strtol10_show_nat:
  assumes "int n \<le> INT64_MAX"
  shows "long_to_size (strtol10 (show_nat n)) = n"
proof -
  have "is_digit (hd (show_nat n))"
    by (rule show_nat_digits [OF hd_in_set [OF show_nat_nonempty]])
  then have h: "hd (show_nat n) \<noteq> CHR ''-''" "hd (show_nat n) \<noteq> CHR ''+''"
    "\<not> is_space (hd (show_nat n))"
    by (auto simp: is_digit_def is_space_def)
  then have "dropWhile is_space (show_nat n) = show_nat n"
    by (cases "show_nat n") auto
  moreover have "takeWhile is_digit (show_nat n) = show_nat n"
    using show_nat_digits by (simp add: takeWhile_eq_all_conv)
  ultimately have "strtol10 (show_nat n) = int n"
    using assms h by (simp add: strtol10_def Let_def del: takeWhile_eq_all_conv)
  then show ?thesis using assms by (simp add: long_to_size_def)
qed

lemma parse_index:
  assumes "int n \<le> INT64_MAX"
  shows "ten_value_path_parse_between_bracket (show_nat n @ '']'') False = Some (Some (ARRAY_ITEM n))"
proof -
  have "last (show_nat n) \<noteq> CHR '']''"
    by (metis last_in_set not_in_show_nat(3) show_nat_nonempty)
  then show ?thesis
    using strtol10_show_nat [OF assms]
    by (simp add: ten_value_path_parse_between_bracket_def butlast_append)
qed

lemma parse_indices:
  "\<forall>i \<in> set is. int i \<le> INT64_MAX \<Longrightarrow>
   parse_brackets (map (\<lambda>i. show_nat i @ '']'') is) False result = Some (True, result @ map ARRAY_ITEM is)"
  by (induction "is" arbitrary: result) (simp_all add: parse_index)

lemma split_segment:
  "t \<noteq> [] \<Longrightarrow> CHR ''['' \<notin> set t \<Longrightarrow>
   ten_c_string_split (t @ concat (map (\<lambda>i. ''['' @ show_nat i @ '']'') is)) ''['' =
     t # map (\<lambda>i. show_nat i @ '']'') is"
proof (induction "is" arbitrary: t)
  case (Cons i "is")
  have "CHR ''['' \<notin> set (show_nat i @ '']'')" by simp
  with Cons(1) [of "show_nat i @ '']''"] Cons.prems show ?case by simp
qed simp

lemma parse_segment:
  "segment_ok seg \<Longrightarrow>
   ten_value_path_parse_between_colon (render_segment seg) result =
     Some (True, result @ segment_items seg)"
  using split_segment [of "fst seg" "snd seg"] parse_indices [of "snd seg" "result @ [OBJECT_ITEM (fst seg)]"]
  by (simp add: ten_value_path_parse_between_colon_def render_segment_def segment_ok_def
      ten_value_path_parse_between_bracket_def segment_items_def)

lemma render_segment_ok:
  "segment_ok seg \<Longrightarrow> render_segment seg \<noteq> [] \<and> CHR ''.'' \<notin> set (render_segment seg)"
  by (auto simp: segment_ok_def render_segment_def)

lemma split_render_path:
  "segs \<noteq> [] \<Longrightarrow> \<forall>seg \<in> set segs. segment_ok seg \<Longrightarrow>
   ten_c_string_split (render_path segs) ''.'' = map render_segment segs"
  by (induction segs rule: render_path.induct) (simp_all add: render_segment_ok)

lemma parse_segments:
  "\<forall>seg \<in> set segs. segment_ok seg \<Longrightarrow>
   parse_colons (map render_segment segs) result =
     Some (True, result @ concat (map segment_items segs))"
  by (induction segs arbitrary: result) (simp_all add: parse_segment)

lemma render_path_nonempty: "segs \<noteq> [] \<Longrightarrow> segment_ok (hd segs) \<Longrightarrow> render_path segs \<noteq> []"
  by (cases segs rule: render_path.cases) (simp_all add: render_segment_ok)

lemma parse_render_path:
  "segs \<noteq> [] \<Longrightarrow> \<forall>seg \<in> set segs. segment_ok seg \<Longrightarrow>
   ten_value_path_parse (render_path segs) = Some ((True, concat (map segment_items segs)), None)"
  using render_path_nonempty [of segs]
  by (simp add: ten_value_path_parse_def split_render_path parse_segments)

section \<open>A store and the lookups after it\<close>

text \<open>The value is the kind of container the first item indexes.\<close>

fun matches :: "ten_value \<Rightarrow> path_item list \<Rightarrow> bool" where
  "matches base [] = True"
| "matches base (OBJECT_ITEM _ # _) = ten_value_is_object base"
| "matches base (ARRAY_ITEM _ # _) = ten_value_is_array base"

lemma matches_base_for [simp]: "matches (base_for old rest v) rest"
  by (cases "(old, rest, v)" rule: base_for.cases) (auto split: option.splits)

lemma set_items_flag: "fst (ten_value_set_from_path_list_with_move base items v) = matches base items"
proof (induction base items v rule: ten_value_set_from_path_list_with_move.induct)
  case (2 base key rest v)
  then show ?case by (cases base) (auto split: prod.splits)
next
  case (3 base idx rest v)
  show ?case
  proof (cases base)
    case (V_array vs)
    with 3 [OF V_array refl] show ?thesis by (simp add: Let_def split_def)
  qed simp_all
qed simp

lemma set_items_empty [simp]: "ten_value_set_from_path_list_with_move base [] v = (True, base)"
  by simp

lemma peek_after_set:
  "matches base items \<Longrightarrow> items \<noteq> [] \<Longrightarrow>
   peek_items (snd (ten_value_set_from_path_list_with_move base items v)) items = Some v"
proof (induction base items v rule: ten_value_set_from_path_list_with_move.induct)
  case (2 base key rest v)
  then obtain kvs where base: "base = V_object kvs" by auto
  show ?case
  proof (cases rest)
    case (Cons it its)
    with 2(1) [OF base] base show ?thesis
      by (auto split: prod.splits)
  qed (simp add: base)
next
  case (3 base idx rest v)
  then obtain vs where base: "base = V_array vs" by auto
  show ?case
  proof (cases rest)
    case (Cons it its)
    with 3(1) [OF base refl] base show ?thesis
      by (auto split: prod.splits simp: Let_def nth_append)
  qed (simp add: base nth_append Let_def)
qed simp

lemma keys_ok_base_for:
  "(\<And>w. old = Some w \<Longrightarrow> keys_ok w) \<Longrightarrow> keys_ok v \<Longrightarrow> keys_ok (base_for old rest v)"
  by (cases "(old, rest, v)" rule: base_for.cases) (auto simp: keys_ok_object split: option.splits)

lemma keys_ok_set_items:
  "keys_ok base \<Longrightarrow> keys_ok v \<Longrightarrow>
   keys_ok (snd (ten_value_set_from_path_list_with_move base items v))"
proof (induction base items v rule: ten_value_set_from_path_list_with_move.induct)
  case (2 base key rest v)
  show ?case
  proof (cases base)
    case (V_object kvs)
    have "keys_ok (base_for (kv_peek kvs key) rest v)"
      using 2(2,3) V_object by (auto intro: keys_ok_base_for keys_ok_map_of)
    with 2 V_object show ?thesis by (simp add: split_def Let_def keys_ok_alist_update)
  qed (use 2 in simp_all)
next
  case (3 base idx rest v)
  show ?case
  proof (cases base)
    case (V_array vs)
    have "keys_ok (base_for (if idx < length vs then Some (vs ! idx) else None) rest v)"
      using 3(2,3) V_array by (auto intro!: keys_ok_base_for simp: list_all_length split: if_splits)
    from 3(1) [OF V_array refl this 3(3)] 3(2) V_array show ?thesis
      by (auto simp: split_def Let_def list_all_iff dest!: set_update_subset_insert [THEN subsetD])
  qed (use 3 in simp_all)
qed simp

section \<open>Properties\<close>

text \<open>C32: A path written as member names with indices is parsed back into exactly these items, for
  names that are not empty and contain no dot and no opening bracket and indices up to the largest
  \<open>int64_t\<close>.\<close>

theorem path_parse_render:
  assumes "segs \<noteq> []" and "\<forall>seg \<in> set segs. segment_ok seg"
  shows "ten_value_path_parse (render_path segs) = Some ((True, concat (map segment_items segs)), None)"
  by (rule parse_render_path [OF assms])

lemma digit_chars: "digit_char 7 = CHR ''7''" "digit_char (Suc 0) = CHR ''1''" "digit_char 0 = CHR ''0''"
  by code_simp+

theorem path_parse_render_witness:
  "ten_value_path_parse ''ab.c[7][10]'' =
     Some ((True, [OBJECT_ITEM ''ab'', OBJECT_ITEM ''c'', ARRAY_ITEM 7, ARRAY_ITEM 10]), None)"
  using path_parse_render [of "[(''ab'', []), (''c'', [7, 10])]"]
  by (simp add: segment_ok_def segment_items_def render_segment_def show_nat.simps digit_chars)

text \<open>A store along a parsed path succeeds exactly when the base is the kind of container the
  first item indexes, whatever lies below it; the lookup along the same path then finds the stored
  value, and no object of the value gets a duplicate key.\<close>

theorem set_then_peek_items:
  assumes "items \<noteq> []" and "ten_value_set_from_path_list_with_move base items v = (ok, base')"
  shows "ok = matches base items \<and> (ok \<longrightarrow> peek_items base' items = Some v) \<and>
    (keys_ok base \<and> keys_ok v \<longrightarrow> keys_ok base')"
  using set_items_flag [of base items v] peek_after_set [of base items v]
    keys_ok_set_items [of base v items] assms by auto

theorem set_then_peek_items_witness:
  "peek_items (V_object [(''a'', V_array [V_invalid, V_bool True])]) [OBJECT_ITEM ''a'', ARRAY_ITEM 1] =
     Some (V_bool True)"
  using set_then_peek_items [of "[OBJECT_ITEM ''a'', ARRAY_ITEM 1]" "V_object [(''a'', V_int8 3)]"
    "V_bool True" True] by simp



text \<open>A lookup does not stop at a missing member: it goes on with the next item in the same
  object, so looking up \<open>a.b\<close> in an object without \<open>a\<close> returns its member \<open>b\<close>.\<close>

theorem peek_missing_member_falls_through:
  assumes "kv_peek kvs key = None"
  shows "peek_items (V_object kvs) (OBJECT_ITEM key # rest) = peek_items (V_object kvs) rest \<and>
    ten_value_peek_from_path (V_object [(''b'', V_int8 1)]) ''a.b'' = Some (Some (V_int8 1), None)"
proof
  show "peek_items (V_object kvs) (OBJECT_ITEM key # rest) = peek_items (V_object kvs) rest"
    using assms by simp
  show "ten_value_peek_from_path (V_object [(''b'', V_int8 1)]) ''a.b'' = Some (Some (V_int8 1), None)"
    using parse_render_path [of "[(''a'', []), (''b'', [])]"]
    by (simp add: ten_value_peek_from_path_def segment_ok_def segment_items_def render_segment_def)
qed

theorem peek_missing_member_falls_through_witness:
  "peek_items (V_object [(''b'', V_null)]) [OBJECT_ITEM ''x'', OBJECT_ITEM ''b''] =
   peek_items (V_object [(''b'', V_null)]) [OBJECT_ITEM ''b'']"
  using peek_missing_member_falls_through [of "[(''b'', V_null)]" "''x''" "[OBJECT_ITEM ''b'']"] by simp

end
