(* ===== verification/Ten_Loc.thy ===== *)
theory Ten_Loc
  imports Value_Object
begin

text \<open>
  Locations (\<open>ten_runtime/common/loc.c\<close>): the address of an app, of a graph in it, or of an extension
  in the graph, as three strings. A null argument is \<open>None\<close>. The text and value forms of a location
  are here, with the loss-free way back from the value.
\<close>

record ten_loc =
  loc_app_uri :: string
  loc_graph_id :: string
  loc_extension_name :: string

definition ten_loc_init_empty :: ten_loc where
  "ten_loc_init_empty = \<lparr>loc_app_uri = [], loc_graph_id = [], loc_extension_name = []\<rparr>"

definition ten_loc_create_empty :: ten_loc where
  "ten_loc_create_empty = ten_loc_init_empty"

definition or_empty :: "string option \<Rightarrow> string" where
  "or_empty s = (case s of None \<Rightarrow> [] | Some s \<Rightarrow> s)"

definition ten_loc_set :: "ten_loc \<Rightarrow> string option \<Rightarrow> string option \<Rightarrow> string option \<Rightarrow> ten_loc" where
  "ten_loc_set self app_uri graph_id extension_name =
     self\<lparr>loc_app_uri := or_empty app_uri, loc_graph_id := or_empty graph_id,
          loc_extension_name := or_empty extension_name\<rparr>"

definition ten_loc_init :: "string option \<Rightarrow> string option \<Rightarrow> string option \<Rightarrow> ten_loc" where
  "ten_loc_init app_uri graph_id extension_name =
     \<lparr>loc_app_uri = or_empty app_uri, loc_graph_id = or_empty graph_id,
      loc_extension_name = or_empty extension_name\<rparr>"

definition ten_loc_create :: "string option \<Rightarrow> string option \<Rightarrow> string option \<Rightarrow> ten_loc" where
  "ten_loc_create app_uri graph_id extension_name =
     ten_loc_set ten_loc_create_empty app_uri graph_id extension_name"

definition ten_loc_init_from_loc :: "ten_loc \<Rightarrow> ten_loc" where
  "ten_loc_init_from_loc src =
     ten_loc_init (Some (loc_app_uri src)) (Some (loc_graph_id src)) (Some (loc_extension_name src))"

definition ten_loc_set_from_loc :: "ten_loc \<Rightarrow> ten_loc \<Rightarrow> ten_loc" where
  "ten_loc_set_from_loc self src =
     ten_loc_set self (Some (loc_app_uri src)) (Some (loc_graph_id src)) (Some (loc_extension_name src))"

definition ten_loc_clone :: "ten_loc \<Rightarrow> ten_loc" where
  "ten_loc_clone src =
     ten_loc_create (Some (loc_app_uri src)) (Some (loc_graph_id src)) (Some (loc_extension_name src))"

definition ten_loc_copy :: "ten_loc \<Rightarrow> ten_loc \<Rightarrow> ten_loc" where
  "ten_loc_copy self src = ten_loc_set_from_loc self src"

definition ten_loc_is_empty :: "ten_loc \<Rightarrow> bool" where
  "ten_loc_is_empty self \<longleftrightarrow>
     loc_app_uri self = [] \<and> loc_graph_id self = [] \<and> loc_extension_name self = []"

definition ten_loc_clear :: "ten_loc \<Rightarrow> ten_loc" where
  "ten_loc_clear self = self\<lparr>loc_app_uri := [], loc_graph_id := [], loc_extension_name := []\<rparr>"

definition ten_loc_is_equal :: "ten_loc \<Rightarrow> ten_loc \<Rightarrow> bool" where
  "ten_loc_is_equal self other \<longleftrightarrow>
     loc_app_uri self = loc_app_uri other \<and> loc_graph_id self = loc_graph_id other \<and>
     loc_extension_name self = loc_extension_name other"

definition ten_loc_is_equal_with_value :: "ten_loc \<Rightarrow> string \<Rightarrow> string \<Rightarrow> string \<Rightarrow> bool" where
  "ten_loc_is_equal_with_value self app_uri graph_id extension_name \<longleftrightarrow>
     loc_app_uri self = app_uri \<and> loc_graph_id self = graph_id \<and> loc_extension_name self = extension_name"

definition ten_loc_to_string :: "ten_loc \<Rightarrow> string" where
  "ten_loc_to_string self =
     ''app: '' @ loc_app_uri self @ '', graph: '' @ loc_graph_id self @ '', extension: '' @ loc_extension_name self"

section \<open>The value form\<close>

text \<open>Empty components are left out, and an absent or empty one does not overwrite.\<close>

definition ten_loc_set_value :: "ten_loc \<Rightarrow> ten_value" where
  "ten_loc_set_value self =
     ten_value_init_object_with_move
       ((if loc_app_uri self \<noteq> [] then [ten_value_kv_create ''app'' (V_string (loc_app_uri self))] else []) @
        (if loc_graph_id self \<noteq> [] then [ten_value_kv_create ''graph'' (V_string (loc_graph_id self))] else []) @
        (if loc_extension_name self \<noteq> []
         then [ten_value_kv_create ''extension'' (V_string (loc_extension_name self))] else []))"

definition ten_loc_to_value :: "ten_loc \<Rightarrow> ten_value" where
  "ten_loc_to_value self = ten_loc_set_value self"

definition set_from_string_value :: "ten_value option \<Rightarrow> string \<Rightarrow> string run" where
  "set_from_string_value v old =
     (case v of
        None \<Rightarrow> Some old
      | Some (V_string s) \<Rightarrow> Some (if s \<noteq> [] then s else old)
      | Some _ \<Rightarrow> None)"

definition ten_loc_set_from_value :: "ten_loc \<Rightarrow> ten_value \<Rightarrow> ten_loc run" where
  "ten_loc_set_from_value self v =
     do { app_value \<leftarrow> ten_value_object_peek v ''app'';
          graph_value \<leftarrow> ten_value_object_peek v ''graph'';
          extension_value \<leftarrow> ten_value_object_peek v ''extension'';
          app_uri \<leftarrow> set_from_string_value app_value (loc_app_uri self);
          graph_id \<leftarrow> set_from_string_value graph_value (loc_graph_id self);
          extension_name \<leftarrow> set_from_string_value extension_value (loc_extension_name self);
          Some (self\<lparr>loc_app_uri := app_uri, loc_graph_id := graph_id,
                     loc_extension_name := extension_name\<rparr>) }"

definition ten_loc_init_from_value :: "ten_value \<Rightarrow> ten_loc run" where
  "ten_loc_init_from_value v = ten_loc_set_from_value ten_loc_init_empty v"

definition ten_loc_create_from_value :: "ten_value \<Rightarrow> ten_loc run" where
  "ten_loc_create_from_value v = ten_loc_set_from_value ten_loc_create_empty v"

lemmas ten_loc_defs =
  ten_loc_init_empty_def ten_loc_create_empty_def or_empty_def ten_loc_set_def ten_loc_init_def
  ten_loc_create_def ten_loc_init_from_loc_def ten_loc_set_from_loc_def ten_loc_clone_def ten_loc_copy_def

lemma loc_copies [simp]:
  "ten_loc_clone loc = loc" "ten_loc_copy self loc = loc" "ten_loc_init_from_loc loc = loc"
  "ten_loc_set_from_loc self loc = loc"
  for loc :: ten_loc
  by (simp_all add: ten_loc_defs)

lemma loc_is_equal_iff [simp]: "ten_loc_is_equal a b \<longleftrightarrow> a = b" for a b :: ten_loc
  by (auto simp: ten_loc_is_equal_def)

lemma ten_loc_value_roundtrip: "ten_loc_create_from_value (ten_loc_to_value loc) = Some loc"
  by (simp add: ten_loc_create_from_value_def ten_loc_to_value_def ten_loc_set_value_def
      ten_loc_set_from_value_def ten_value_object_peek_def ten_value_kv_create_def
      set_from_string_value_def ten_loc_create_empty_def ten_loc_init_empty_def)

end
