(* ===== verification/Path_Table.thy ===== *)
theory Path_Table
  imports Ten_Loc
begin

text \<open>
  The path table (\<open>ten_runtime/path\<close>): every extension, engine and app records where the commands
  that passed it came from, so that their results find the way back. Commands that enter leave an
  IN path, commands that leave an OUT path; the OUT paths of one command sent to several
  destinations form a group with a policy for returning results.

  A path is identified by its address; a group is the shared object its paths point to, in
  \<open>pt_groups\<close> under an address of its own. Messages are the fields the table reads and writes, with
  the property object as payload. A pointer to a result handler is a number, 0 for null. Reading
  through a dangling pointer and failing an assertion are runs without a result. The current time,
  the fresh command id of \<open>ten_uuid4_gen_string\<close> and the conversion of a result
  (\<open>msg_conversion\<close>) are parameters.
\<close>

section \<open>Messages\<close>

record cmd_base =
  cb_is_cmd :: bool
  cb_name :: string
  cb_cmd_id :: string
  cb_parent_cmd_id :: string
  cb_src_loc :: ten_loc
  cb_dest_loc :: "ten_loc list"
  cb_result_handler :: nat
  cb_result_handler_data :: nat
  cb_properties :: ten_value

record cmd_result = cmd_base +
  cr_original_cmd_name :: string
  cr_status_code :: int
  cr_is_final :: bool
  cr_is_completed :: bool

abbreviation (input) TEN_STATUS_CODE_OK :: int where "TEN_STATUS_CODE_OK \<equiv> 0"
abbreviation (input) TEN_STATUS_CODE_ERROR :: int where "TEN_STATUS_CODE_ERROR \<equiv> 1"

definition ten_cmd_base_save_cmd_id_to_parent_cmd_id :: "'a cmd_base_scheme \<Rightarrow> 'a cmd_base_scheme" where
  "ten_cmd_base_save_cmd_id_to_parent_cmd_id self = self\<lparr>cb_parent_cmd_id := cb_cmd_id self\<rparr>"

definition ten_cmd_base_gen_new_cmd_id_forcibly ::
  "string \<Rightarrow> 'a cmd_base_scheme \<Rightarrow> 'a cmd_base_scheme" where
  "ten_cmd_base_gen_new_cmd_id_forcibly uuid self = self\<lparr>cb_cmd_id := uuid\<rparr>"

definition ten_cmd_base_set_cmd_id :: "'a cmd_base_scheme \<Rightarrow> string \<Rightarrow> 'a cmd_base_scheme" where
  "ten_cmd_base_set_cmd_id self cmd_id = self\<lparr>cb_cmd_id := cmd_id\<rparr>"

definition ten_cmd_base_get_parent_cmd_id :: "'a cmd_base_scheme \<Rightarrow> string option" where
  "ten_cmd_base_get_parent_cmd_id self =
     (if cb_parent_cmd_id self = [] then None else Some (cb_parent_cmd_id self))"

definition ten_cmd_base_reset_parent_cmd_id :: "'a cmd_base_scheme \<Rightarrow> 'a cmd_base_scheme" where
  "ten_cmd_base_reset_parent_cmd_id self = self\<lparr>cb_parent_cmd_id := []\<rparr>"

definition ten_cmd_base_set_result_handler ::
  "'a cmd_base_scheme \<Rightarrow> nat \<Rightarrow> nat \<Rightarrow> 'a cmd_base_scheme" where
  "ten_cmd_base_set_result_handler self result_handler result_handler_data =
     self\<lparr>cb_result_handler := result_handler, cb_result_handler_data := result_handler_data\<rparr>"

definition ten_msg_clear_and_set_dest_to_loc :: "'a cmd_base_scheme \<Rightarrow> ten_loc \<Rightarrow> 'a cmd_base_scheme" where
  "ten_msg_clear_and_set_dest_to_loc self loc = self\<lparr>cb_dest_loc := [loc]\<rparr>"

definition ten_cmd_result_set_completed :: "cmd_result \<Rightarrow> bool \<Rightarrow> cmd_result" where
  "ten_cmd_result_set_completed self is_completed = self\<lparr>cr_is_completed := is_completed\<rparr>"

definition ten_cmd_result_set_status_code :: "cmd_result \<Rightarrow> int \<Rightarrow> cmd_result" where
  "ten_cmd_result_set_status_code self status_code = self\<lparr>cr_status_code := status_code\<rparr>"

definition ten_cmd_result_set_original_cmd_name :: "cmd_result \<Rightarrow> string \<Rightarrow> cmd_result run" where
  "ten_cmd_result_set_original_cmd_name self original_cmd_name =
     do { ten_assert (original_cmd_name \<noteq> []);
          Some (self\<lparr>cr_original_cmd_name := original_cmd_name\<rparr>) }"

section \<open>Paths, groups and the table\<close>

text \<open>
  The path types and the owners without their \<open>INVALID\<close> members, which no caller passes: every switch
  on them ends in an assertion for it.
\<close>

datatype path_type = TEN_PATH_IN | TEN_PATH_OUT

datatype attach_to =
    TEN_PATH_TABLE_ATTACH_TO_APP
  | TEN_PATH_TABLE_ATTACH_TO_ENGINE
  | TEN_PATH_TABLE_ATTACH_TO_EXTENSION

datatype result_return_policy =
    TEN_RESULT_RETURN_POLICY_INVALID
  | TEN_RESULT_RETURN_POLICY_FIRST_ERROR_OR_LAST_OK
  | TEN_RESULT_RETURN_POLICY_EACH_OK_AND_ERROR

record 'c ten_path =
  p_addr :: nat
  p_type :: path_type
  p_cmd_name :: string
  p_cmd_id :: string
  p_parent_cmd_id :: string
  p_src_loc :: ten_loc
  p_group :: "nat option"
  p_last_in_group :: bool
  p_cached_cmd_result :: "cmd_result option"
  p_has_received_final_cmd_result :: bool
  p_result_conversion :: "'c option"
  p_expired_time_us :: "64 word"
  p_result_handler :: nat
  p_result_handler_data :: nat

record path_group =
  pg_policy :: result_return_policy
  pg_members :: "nat list"

text \<open>The two timeouts are those of the extension the table is attached to.\<close>

record 'c path_table =
  pt_attach_to :: attach_to
  pt_in_path_timeout :: "64 word"
  pt_out_path_timeout :: "64 word"
  pt_in_paths :: "'c ten_path list"
  pt_out_paths :: "'c ten_path list"
  pt_groups :: "nat \<Rightarrow> path_group option"
  pt_next :: nat

definition ten_path_table_create :: "attach_to \<Rightarrow> 64 word \<Rightarrow> 64 word \<Rightarrow> 'c path_table" where
  "ten_path_table_create attach in_timeout out_timeout =
     \<lparr>pt_attach_to = attach, pt_in_path_timeout = in_timeout, pt_out_path_timeout = out_timeout,
      pt_in_paths = [], pt_out_paths = [], pt_groups = (\<lambda>_. None), pt_next = 0\<rparr>"

definition ten_path_table_check_empty :: "'c path_table \<Rightarrow> unit run" where
  "ten_path_table_check_empty self =
     do { ten_assert (pt_in_paths self = []); ten_assert (pt_out_paths self = []) }"

definition paths_of :: "'c path_table \<Rightarrow> path_type \<Rightarrow> 'c ten_path list" where
  "paths_of self type = (case type of TEN_PATH_IN \<Rightarrow> pt_in_paths self | TEN_PATH_OUT \<Rightarrow> pt_out_paths self)"

definition set_paths_of :: "'c path_table \<Rightarrow> path_type \<Rightarrow> 'c ten_path list \<Rightarrow> 'c path_table" where
  "set_paths_of self type ps =
     (case type of
        TEN_PATH_IN \<Rightarrow> self\<lparr>pt_in_paths := ps\<rparr>
      | TEN_PATH_OUT \<Rightarrow> self\<lparr>pt_out_paths := ps\<rparr>)"

definition ten_path_table_find_path_from_cmd_id ::
  "'c path_table \<Rightarrow> path_type \<Rightarrow> string \<Rightarrow> 'c ten_path option" where
  "ten_path_table_find_path_from_cmd_id self type cmd_id =
     find (\<lambda>path. p_cmd_id path = cmd_id) (paths_of self type)"

definition get_expired_time :: "64 word \<Rightarrow> 64 word \<Rightarrow> 64 word run" where
  "get_expired_time current_time_us timeout_duration =
     do { ten_assert (0 \<le> sint current_time_us);
          Some (if timeout_duration > - 1 - current_time_us then - 1
                else current_time_us + timeout_duration) }"

definition ten_path_table_get_path_timeout_duration :: "'c path_table \<Rightarrow> path_type \<Rightarrow> 64 word" where
  "ten_path_table_get_path_timeout_duration self path_type =
     (if pt_attach_to self = TEN_PATH_TABLE_ATTACH_TO_EXTENSION
      then (case path_type of
              TEN_PATH_IN \<Rightarrow> pt_in_path_timeout self
            | TEN_PATH_OUT \<Rightarrow> pt_out_path_timeout self)
      else - 1)"

definition ten_path_init ::
  "nat \<Rightarrow> path_type \<Rightarrow> string \<Rightarrow> string option \<Rightarrow> string \<Rightarrow> ten_loc \<Rightarrow> 'c ten_path run" where
  "ten_path_init addr type cmd_name parent_cmd_id cmd_id src_loc =
     do { ten_assert (cmd_name \<noteq> []);
          Some \<lparr>p_addr = addr, p_type = type, p_cmd_name = cmd_name, p_cmd_id = cmd_id,
                p_parent_cmd_id = (case parent_cmd_id of None \<Rightarrow> [] | Some s \<Rightarrow> s),
                p_src_loc = src_loc, p_group = None, p_last_in_group = False,
                p_cached_cmd_result = None, p_has_received_final_cmd_result = False,
                p_result_conversion = None, p_expired_time_us = - 1,
                p_result_handler = 0, p_result_handler_data = 0\<rparr> }"

definition ten_path_in_create ::
  "nat \<Rightarrow> string \<Rightarrow> string option \<Rightarrow> string \<Rightarrow> ten_loc \<Rightarrow> 'c option \<Rightarrow> 'c ten_path run" where
  "ten_path_in_create addr cmd_name parent_cmd_id cmd_id src_loc result_conversion =
     do { self \<leftarrow> ten_path_init addr TEN_PATH_IN cmd_name parent_cmd_id cmd_id src_loc;
          Some (self\<lparr>p_result_conversion := result_conversion\<rparr>) }"

definition ten_path_out_create ::
  "nat \<Rightarrow> string \<Rightarrow> string option \<Rightarrow> string \<Rightarrow> ten_loc \<Rightarrow> nat \<Rightarrow> nat \<Rightarrow> 'c ten_path run" where
  "ten_path_out_create addr cmd_name parent_cmd_id cmd_id src_loc result_handler result_handler_data =
     do { self \<leftarrow> ten_path_init addr TEN_PATH_OUT cmd_name parent_cmd_id cmd_id src_loc;
          Some (self\<lparr>p_result_handler := result_handler, p_result_handler_data := result_handler_data,
                     p_result_conversion := None\<rparr>) }"

definition ten_path_set_expired_time :: "'c ten_path \<Rightarrow> 64 word \<Rightarrow> 'c ten_path" where
  "ten_path_set_expired_time path expired_time_us = path\<lparr>p_expired_time_us := expired_time_us\<rparr>"

text \<open>The results are the new path's address, the table and the command, whose ids change.\<close>

definition ten_path_table_add_in_path ::
  "64 word \<Rightarrow> string \<Rightarrow> 'c path_table \<Rightarrow> 'a cmd_base_scheme \<Rightarrow> 'c option \<Rightarrow>
   (nat \<times> 'c path_table \<times> 'a cmd_base_scheme) run" where
  "ten_path_table_add_in_path now uuid self cmd result_conversion =
     do { ten_assert (length (cb_dest_loc cmd) = 1);
          let old_node = ten_path_table_find_path_from_cmd_id self TEN_PATH_IN (cb_cmd_id cmd);
          let cmd = (if old_node \<noteq> None \<and> cb_is_cmd cmd
                     then ten_cmd_base_gen_new_cmd_id_forcibly uuid
                            (ten_cmd_base_save_cmd_id_to_parent_cmd_id cmd)
                     else cmd);
          let old_node = (if old_node \<noteq> None \<and> cb_is_cmd cmd
                          then ten_path_table_find_path_from_cmd_id self TEN_PATH_IN (cb_cmd_id cmd)
                          else old_node);
          ten_assert (old_node = None);
          in_path \<leftarrow> ten_path_in_create (pt_next self) (cb_name cmd)
                       (ten_cmd_base_get_parent_cmd_id cmd) (cb_cmd_id cmd) (cb_src_loc cmd)
                       result_conversion;
          expired \<leftarrow> get_expired_time now (ten_path_table_get_path_timeout_duration self TEN_PATH_IN);
          let in_path = ten_path_set_expired_time in_path expired;
          Some (pt_next self,
                self\<lparr>pt_in_paths := pt_in_paths self @ [in_path], pt_next := pt_next self + 1\<rparr>,
                ten_cmd_base_reset_parent_cmd_id cmd) }"

definition ten_path_table_add_out_path ::
  "64 word \<Rightarrow> 'c path_table \<Rightarrow> 'a cmd_base_scheme \<Rightarrow> (nat \<times> 'c path_table \<times> 'a cmd_base_scheme) run" where
  "ten_path_table_add_out_path now self cmd =
     do { ten_assert (length (cb_dest_loc cmd) = 1);
          out_path \<leftarrow> ten_path_out_create (pt_next self) (cb_name cmd)
                        (ten_cmd_base_get_parent_cmd_id cmd) (cb_cmd_id cmd) (cb_src_loc cmd)
                        (cb_result_handler cmd) (cb_result_handler_data cmd);
          expired \<leftarrow> get_expired_time now (ten_path_table_get_path_timeout_duration self TEN_PATH_OUT);
          let out_path = ten_path_set_expired_time out_path expired;
          Some (pt_next self,
                self\<lparr>pt_out_paths := pt_out_paths self @ [out_path], pt_next := pt_next self + 1\<rparr>,
                ten_cmd_base_set_result_handler (ten_cmd_base_reset_parent_cmd_id cmd) 0 0) }"

section \<open>Groups\<close>

definition update_path :: "nat \<Rightarrow> ('c ten_path \<Rightarrow> 'c ten_path) \<Rightarrow> 'c ten_path list \<Rightarrow> 'c ten_path list" where
  "update_path addr f ps = map (\<lambda>p. if p_addr p = addr then f p else p) ps"

text \<open>
  \<open>ten_paths_create_group\<close> takes the paths of the list as addresses of OUT paths, which is what its
  callers pass; a dangling pointer has no defined result.
\<close>

definition ten_path_group_create :: "result_return_policy \<Rightarrow> path_group" where
  "ten_path_group_create policy = \<lparr>pg_policy = policy, pg_members = []\<rparr>"

fun create_group_loop :: "nat list \<Rightarrow> nat \<Rightarrow> path_group \<Rightarrow> 'c ten_path list \<Rightarrow> path_group \<times> 'c ten_path list" where
  "create_group_loop [] g grp ps = (grp, ps)"
| "create_group_loop (a # as) g grp ps =
     create_group_loop as g (grp\<lparr>pg_members := pg_members grp @ [a]\<rparr>)
       (update_path a (\<lambda>p. p\<lparr>p_group := Some g\<rparr>) ps)"

definition ten_paths_create_group ::
  "'c path_table \<Rightarrow> nat list \<Rightarrow> result_return_policy \<Rightarrow> 'c path_table run" where
  "ten_paths_create_group self paths policy =
     do { ten_assert (length paths > 1);
          ten_assert (list_all (\<lambda>a. find (\<lambda>p. p_addr p = a) (pt_out_paths self) \<noteq> None) paths);
          let g = pt_next self;
          let (grp, ps) = create_group_loop paths g (ten_path_group_create policy) (pt_out_paths self);
          Some (self\<lparr>pt_out_paths := update_path (last paths) (\<lambda>p. p\<lparr>p_last_in_group := True\<rparr>) ps,
                     pt_groups := (pt_groups self)(g := Some grp), pt_next := g + 1\<rparr>) }"

definition ten_path_is_in_a_group :: "'c ten_path \<Rightarrow> bool" where
  "ten_path_is_in_a_group self \<longleftrightarrow> p_group self \<noteq> None"

definition ten_path_group_get_members :: "path_group \<Rightarrow> nat list" where
  "ten_path_group_get_members self = pg_members self"

text \<open>\<open>ten_list_find_ptr\<close> and \<open>ten_list_remove_node\<close>; a pointer that is not found asserts.\<close>

fun remove_ptr :: "'c ten_path list \<Rightarrow> nat \<Rightarrow> 'c ten_path list run" where
  "remove_ptr [] addr = None"
| "remove_ptr (p # ps) addr =
     (if p_addr p = addr then Some ps else map_option ((#) p) (remove_ptr ps addr))"

fun remove_members :: "'c ten_path list \<Rightarrow> nat list \<Rightarrow> 'c ten_path list run" where
  "remove_members ps [] = Some ps"
| "remove_members ps (a # as) = do { ps \<leftarrow> remove_ptr ps a; remove_members ps as }"

text \<open>With its last path the group itself is released.\<close>

definition ten_path_table_remove_group_and_all_its_paths ::
  "'c path_table \<Rightarrow> path_type \<Rightarrow> nat \<Rightarrow> path_group \<Rightarrow> 'c path_table run" where
  "ten_path_table_remove_group_and_all_its_paths self type g path_group =
     do { ps \<leftarrow> remove_members (paths_of self type) (ten_path_group_get_members path_group);
          Some ((set_paths_of self type ps)\<lparr>pt_groups := (pt_groups self)(g := None)\<rparr>) }"

definition ten_path_table_remove_path :: "'c path_table \<Rightarrow> path_type \<Rightarrow> nat \<Rightarrow> 'c path_table run" where
  "ten_path_table_remove_path self type addr =
     do { ps \<leftarrow> remove_ptr (paths_of self type) addr; Some (set_paths_of self type ps) }"

section \<open>Processing a result\<close>

definition ten_cmd_result_set_info_from_path ::
  "cmd_result \<Rightarrow> path_type \<Rightarrow> 'c ten_path \<Rightarrow> cmd_result run" where
  "ten_cmd_result_set_info_from_path cmd_result path_type path =
     do { cmd_result \<leftarrow> ten_cmd_result_set_original_cmd_name cmd_result (p_cmd_name path);
          let cmd_result = (if p_parent_cmd_id path \<noteq> []
                            then ten_cmd_base_set_cmd_id cmd_result (p_parent_cmd_id path)
                            else cmd_result);
          let cmd_result = ten_msg_clear_and_set_dest_to_loc cmd_result (p_src_loc path);
          Some (if path_type = TEN_PATH_OUT
                then ten_cmd_base_set_result_handler cmd_result (p_result_handler path)
                       (p_result_handler_data path)
                else cmd_result) }"

text \<open>
  The loop over the members: whether all have received a final result, and the cached result of the
  member it looked at last.
\<close>

fun scan_members :: "'c ten_path list \<Rightarrow> nat list \<Rightarrow> cmd_result option \<Rightarrow> (bool \<times> cmd_result option) run" where
  "scan_members ps [] cached = Some (True, cached)"
| "scan_members ps (a # as) cached =
     do { path \<leftarrow> find (\<lambda>p. p_addr p = a) ps;
          if \<not> p_has_received_final_cmd_result path then Some (False, p_cached_cmd_result path)
          else scan_members ps as (p_cached_cmd_result path) }"

definition process_first_error_or_last_ok ::
  "'c path_table \<Rightarrow> path_type \<Rightarrow> 'c ten_path \<Rightarrow> nat \<Rightarrow> path_group \<Rightarrow> cmd_result \<Rightarrow>
   (bool \<times> cmd_result option \<times> 'c path_table) run" where
  "process_first_error_or_last_ok self path_type path g path_group cmd_result =
     (if cr_status_code cmd_result \<noteq> TEN_STATUS_CODE_OK
      then do {
        cmd_result \<leftarrow> ten_cmd_result_set_info_from_path cmd_result path_type path;
        self \<leftarrow> ten_path_table_remove_group_and_all_its_paths self path_type g path_group;
        Some (True, Some (ten_cmd_result_set_completed cmd_result True), self)
      }
      else do {
        self \<leftarrow> (if p_last_in_group path
                 then do {
                   cmd_result \<leftarrow> ten_cmd_result_set_info_from_path cmd_result path_type path;
                   Some (set_paths_of self path_type
                           (update_path (p_addr path) (\<lambda>p. p\<lparr>p_cached_cmd_result := Some cmd_result\<rparr>)
                              (paths_of self path_type)))
                 }
                 else Some self);
        (received_all_final_results, cached_cmd_result) \<leftarrow>
          scan_members (paths_of self path_type) (pg_members path_group) None;
        if \<not> received_all_final_results then Some (False, None, self)
        else do {
          cmd_result \<leftarrow> cached_cmd_result;
          cmd_result \<leftarrow> ten_cmd_result_set_info_from_path cmd_result path_type path;
          self \<leftarrow> ten_path_table_remove_group_and_all_its_paths self path_type g path_group;
          Some (True, Some (ten_cmd_result_set_completed cmd_result True), self)
        }
      })"

definition process_each_ok_and_error ::
  "'c path_table \<Rightarrow> path_type \<Rightarrow> 'c ten_path \<Rightarrow> nat \<Rightarrow> path_group \<Rightarrow> cmd_result \<Rightarrow>
   (bool \<times> cmd_result option \<times> 'c path_table) run" where
  "process_each_ok_and_error self path_type path g path_group cmd_result =
     do { (received_all_final_results, _) \<leftarrow>
            scan_members (paths_of self path_type) (pg_members path_group) None;
          cmd_result \<leftarrow> ten_cmd_result_set_info_from_path cmd_result path_type path;
          if received_all_final_results
          then do {
            self \<leftarrow> ten_path_table_remove_group_and_all_its_paths self path_type g path_group;
            Some (True, Some (ten_cmd_result_set_completed cmd_result True), self)
          }
          else Some (True, Some cmd_result, self) }"

definition ten_path_table_process_cmd_result ::
  "('c \<Rightarrow> cmd_result \<Rightarrow> cmd_result option) \<Rightarrow> 'c path_table \<Rightarrow> path_type \<Rightarrow> cmd_result \<Rightarrow>
   (bool \<times> cmd_result option \<times> 'c path_table) run" where
  "ten_path_table_process_cmd_result convert self path_type cmd_result =
     (case ten_path_table_find_path_from_cmd_id self path_type (cb_cmd_id cmd_result) of
        None \<Rightarrow> Some (False, None, self)
      | Some path \<Rightarrow>
          do {
            let cmd_result = ten_cmd_result_set_completed cmd_result False;
            let path = (if cr_is_final cmd_result
                        then path\<lparr>p_has_received_final_cmd_result := True\<rparr> else path);
            let self = set_paths_of self path_type
                         (update_path (p_addr path) (\<lambda>_. path) (paths_of self path_type));
            cmd_result \<leftarrow>
              (case p_result_conversion path of
                 None \<Rightarrow> Some cmd_result
               | Some conversion \<Rightarrow>
                   do { ten_assert (p_type path = TEN_PATH_IN);
                        Some (case convert conversion cmd_result of
                                None \<Rightarrow> ten_cmd_result_set_status_code cmd_result TEN_STATUS_CODE_ERROR
                              | Some converted \<Rightarrow> converted) });
            case p_group path of
              Some g \<Rightarrow>
                do { ten_assert (p_type path = TEN_PATH_OUT);
                     path_group \<leftarrow> pt_groups self g;
                     case pg_policy path_group of
                       TEN_RESULT_RETURN_POLICY_FIRST_ERROR_OR_LAST_OK \<Rightarrow>
                         process_first_error_or_last_ok self path_type path g path_group cmd_result
                     | TEN_RESULT_RETURN_POLICY_EACH_OK_AND_ERROR \<Rightarrow>
                         process_each_ok_and_error self path_type path g path_group cmd_result
                     | TEN_RESULT_RETURN_POLICY_INVALID \<Rightarrow> None }
            | None \<Rightarrow>
                do { cmd_result \<leftarrow> ten_cmd_result_set_info_from_path cmd_result path_type path;
                     if cr_is_final cmd_result
                     then do {
                       self \<leftarrow> ten_path_table_remove_path self path_type (p_addr path);
                       Some (True, Some (ten_cmd_result_set_completed cmd_result True), self)
                     }
                     else Some (True, Some cmd_result, self) }
          })"

section \<open>Timeouts (\<open>extension/internal/path_timer.c\<close>)\<close>

text \<open>
  The comparison converts the signed clock to the unsigned type of the deadline. The timer of the
  OUT paths does not remove anything: it makes an error result for every expired path, and the
  extension handles these as if they had arrived.
\<close>

definition ten_extension_in_path_timer_on_triggered :: "64 word \<Rightarrow> 'c path_table \<Rightarrow> 'c path_table" where
  "ten_extension_in_path_timer_on_triggered current_time_us self =
     self\<lparr>pt_in_paths := filter (\<lambda>path. \<not> p_expired_time_us path \<le> current_time_us) (pt_in_paths self)\<rparr>"

definition ten_cmd_result_create :: "int \<Rightarrow> cmd_result" where
  "ten_cmd_result_create status_code =
     \<lparr>cb_is_cmd = False, cb_name = ''ten:result'', cb_cmd_id = [], cb_parent_cmd_id = [],
      cb_src_loc = \<lparr>loc_app_uri = [], loc_graph_id = [], loc_extension_name = []\<rparr>, cb_dest_loc = [],
      cb_result_handler = 0, cb_result_handler_data = 0, cb_properties = V_object [],
      cr_original_cmd_name = [], cr_status_code = status_code, cr_is_final = True,
      cr_is_completed = False\<rparr>"

definition out_path_timeout_results :: "64 word \<Rightarrow> 'c path_table \<Rightarrow> cmd_result list" where
  "out_path_timeout_results current_time_us self =
     map (\<lambda>path. ten_cmd_base_set_cmd_id
            ((ten_cmd_result_create TEN_STATUS_CODE_ERROR)
               \<lparr>cb_properties := V_object [(''detail'', V_string ''Path timeout.'')]\<rparr>)
            (p_cmd_id path))
       (filter (\<lambda>path. p_expired_time_us path \<le> current_time_us) (pt_out_paths self))"

section \<open>Lists of paths\<close>

lemma update_path_simps [simp]:
  "update_path a f [] = []"
  "update_path a f (p # ps) = (if p_addr p = a then f p else p) # update_path a f ps"
  by (simp_all add: update_path_def)

lemma length_update_path [simp]: "length (update_path a f ps) = length ps"
  by (simp add: update_path_def)

lemma map_update_path:
  "(\<And>p. h (f p) = h p) \<Longrightarrow> map h (update_path a f ps) = map h ps"
  by (induction ps) auto

lemma update_path_const:
  "distinct (map p_addr ps) \<Longrightarrow> path \<in> set ps \<Longrightarrow>
   update_path (p_addr path) (\<lambda>_. f path) ps = update_path (p_addr path) f ps"
proof (induction ps)
  case (Cons p ps)
  have miss: "update_path a h qs = qs" if "a \<notin> p_addr ` set qs" for a h and qs :: "'a ten_path list"
    using that by (induction qs) auto
  show ?case
  proof (cases "path = p")
    case True
    with Cons.prems show ?thesis by (simp add: miss)
  next
    case False
    with Cons show ?thesis by auto
  qed
qed simp

lemma find_addr:
  "distinct (map p_addr ps) \<Longrightarrow> p \<in> set ps \<Longrightarrow> find (\<lambda>q. p_addr q = p_addr p) ps = Some p"
  by (induction ps) auto

lemma find_addr_None: "find (\<lambda>q. p_addr q = a) ps = None \<longleftrightarrow> a \<notin> p_addr ` set ps"
  by (auto simp: find_None_iff)

lemma find_SomeD: "find P ps = Some p \<Longrightarrow> p \<in> set ps \<and> P p"
  by (induction ps) (auto split: if_splits)

lemma find_update_path:
  assumes "\<And>q. p_addr (f q) = p_addr q"
  shows "find (\<lambda>q. p_addr q = b) (update_path a f ps) =
    map_option (\<lambda>q. if p_addr q = a then f q else q) (find (\<lambda>q. p_addr q = b) ps)"
  by (induction ps) (auto simp: assms)

lemma addr_unique:
  "distinct (map p_addr ps) \<Longrightarrow> p \<in> set ps \<Longrightarrow> q \<in> set ps \<Longrightarrow> p_addr q = p_addr p \<longleftrightarrow> q = p"
  by (metis distinct_map inj_onD)

lemma set_update_path:
  assumes "distinct (map p_addr ps)" and "p \<in> set ps"
  shows "set (update_path (p_addr p) f ps) = insert (f p) (set ps - {p})"
proof -
  have "set (update_path (p_addr p) f ps) = (\<lambda>q. if q = p then f p else q) ` set ps"
    using addr_unique [OF assms] by (force simp: update_path_def intro!: image_cong)
  then show ?thesis using assms(2) by auto
qed

lemma remove_ptr_eq:
  "distinct (map p_addr ps) \<Longrightarrow> a \<in> p_addr ` set ps \<Longrightarrow>
   remove_ptr ps a = Some (filter (\<lambda>p. p_addr p \<noteq> a) ps)"
proof (induction ps)
  case (Cons p ps)
  have "filter (\<lambda>q. p_addr q \<noteq> a) ps = ps" if "a \<notin> p_addr ` set ps"
    using that by (auto simp: filter_id_conv)
  with Cons show ?case by auto
qed simp

lemma remove_members_eq:
  "distinct (map p_addr ps) \<Longrightarrow> distinct as \<Longrightarrow> set as \<subseteq> p_addr ` set ps \<Longrightarrow>
   remove_members ps as = Some (filter (\<lambda>p. p_addr p \<notin> set as) ps)"
proof (induction "as" arbitrary: ps)
  case (Cons a "as")
  let ?ps = "filter (\<lambda>p. p_addr p \<noteq> a) ps"
  have "distinct (map p_addr ?ps)" using Cons.prems(1) by (simp add: distinct_map_filter)
  moreover have "set as \<subseteq> p_addr ` set ?ps" using Cons.prems by (fastforce simp: image_iff)
  ultimately have "remove_members ?ps as = Some (filter (\<lambda>p. p_addr p \<notin> set as) ?ps)"
    using Cons by simp
  moreover have "remove_ptr ps a = Some ?ps" using Cons.prems by (intro remove_ptr_eq) auto
  ultimately show ?case by (simp add: conj_commute)
qed simp

text \<open>The scan answers whether all members are final, and then with the last member's cache.\<close>

lemma scan_members_eq:
  assumes "set as \<subseteq> p_addr ` set ps"
  shows "\<exists>c'. scan_members ps as c =
     Some (\<forall>a \<in> set as. p_has_received_final_cmd_result (the (find (\<lambda>p. p_addr p = a) ps)), c') \<and>
     ((\<forall>a \<in> set as. p_has_received_final_cmd_result (the (find (\<lambda>p. p_addr p = a) ps))) \<longrightarrow>
        c' = (if as = [] then c else p_cached_cmd_result (the (find (\<lambda>p. p_addr p = last as) ps))))"
  using assms
proof (induction "as" arbitrary: c)
  case (Cons a "as")
  then have "find (\<lambda>p. p_addr p = a) ps \<noteq> None" by (subst find_addr_None) auto
  then obtain p where p: "find (\<lambda>p. p_addr p = a) ps = Some p" by blast
  have "set as \<subseteq> p_addr ` set ps" using Cons.prems by simp
  from Cons.IH [OF this, of "p_cached_cmd_result p"] p show ?case by auto
qed simp

section \<open>The invariant\<close>

text \<open>
  A group lists the addresses of exactly the OUT paths that point to it, its last path is flagged,
  and once that path of a group that returns the last success is finished, its result is kept.
  An OUT path outside every group is neither flagged nor finished.
\<close>

definition group_ok :: "'c ten_path list \<Rightarrow> nat \<Rightarrow> path_group \<Rightarrow> bool" where
  "group_ok ps g grp \<longleftrightarrow>
     pg_policy grp \<noteq> TEN_RESULT_RETURN_POLICY_INVALID \<and> pg_members grp \<noteq> [] \<and>
     distinct (pg_members grp) \<and>
     set (pg_members grp) = p_addr ` {p \<in> set ps. p_group p = Some g} \<and>
     (\<forall>p \<in> set ps. p_group p = Some g \<longrightarrow>
        (p_last_in_group p \<longleftrightarrow> p_addr p = last (pg_members grp)) \<and>
        (pg_policy grp = TEN_RESULT_RETURN_POLICY_FIRST_ERROR_OR_LAST_OK \<and> p_last_in_group p \<and>
         p_has_received_final_cmd_result p \<longrightarrow> p_cached_cmd_result p \<noteq> None))"

definition pt_ok :: "'c path_table \<Rightarrow> bool" where
  "pt_ok self \<longleftrightarrow>
     distinct (map p_addr (pt_in_paths self)) \<and> distinct (map p_addr (pt_out_paths self)) \<and>
     distinct (map p_cmd_id (pt_in_paths self)) \<and>
     (\<forall>p \<in> set (pt_in_paths self).
        p_addr p < pt_next self \<and> p_group p = None \<and> p_type p = TEN_PATH_IN \<and> p_cmd_name p \<noteq> []) \<and>
     (\<forall>p \<in> set (pt_out_paths self).
        p_addr p < pt_next self \<and> p_result_conversion p = None \<and> p_type p = TEN_PATH_OUT \<and>
        p_cmd_name p \<noteq> [] \<and> (\<forall>g. p_group p = Some g \<longrightarrow> pt_groups self g \<noteq> None) \<and>
        (p_group p = None \<longrightarrow> \<not> p_last_in_group p \<and> \<not> p_has_received_final_cmd_result p)) \<and>
     (\<forall>g grp. pt_groups self g = Some grp \<longrightarrow> g < pt_next self \<and> group_ok (pt_out_paths self) g grp)"

lemma paths_of_simps [simp]:
  "paths_of self TEN_PATH_IN = pt_in_paths self"
  "paths_of self TEN_PATH_OUT = pt_out_paths self"
  "set_paths_of self TEN_PATH_IN ps = self\<lparr>pt_in_paths := ps\<rparr>"
  "set_paths_of self TEN_PATH_OUT ps = self\<lparr>pt_out_paths := ps\<rparr>"
  by (simp_all add: paths_of_def set_paths_of_def)

lemma pt_okD:
  assumes "pt_ok self"
  shows "distinct (map p_addr (pt_out_paths self))" and "distinct (map p_addr (pt_in_paths self))"
    and "p \<in> set (pt_out_paths self) \<Longrightarrow>
      p_result_conversion p = None \<and> p_type p = TEN_PATH_OUT \<and> p_cmd_name p \<noteq> []"
    and "p \<in> set (pt_in_paths self) \<Longrightarrow> p_group p = None \<and> p_type p = TEN_PATH_IN \<and> p_cmd_name p \<noteq> []"
    and "p \<in> set (pt_out_paths self) \<Longrightarrow> p_group p = Some g \<Longrightarrow> \<exists>grp. pt_groups self g = Some grp"
    and "pt_groups self g = Some grp \<Longrightarrow> group_ok (pt_out_paths self) g grp"
  using assms by (auto simp: pt_ok_def)

text \<open>The fields of a path that processing a result may change.\<close>

definition received :: "bool \<Rightarrow> cmd_result option \<Rightarrow> 'c ten_path \<Rightarrow> 'c ten_path" where
  "received final cached p =
     p\<lparr>p_has_received_final_cmd_result := final \<or> p_has_received_final_cmd_result p,
       p_cached_cmd_result := cached\<rparr>"

lemma received_simps [simp]:
  "p_addr (received f c p) = p_addr p" "p_group (received f c p) = p_group p"
  "p_type (received f c p) = p_type p" "p_cmd_id (received f c p) = p_cmd_id p"
  "p_cmd_name (received f c p) = p_cmd_name p" "p_last_in_group (received f c p) = p_last_in_group p"
  "p_parent_cmd_id (received f c p) = p_parent_cmd_id p" "p_src_loc (received f c p) = p_src_loc p"
  "p_result_handler (received f c p) = p_result_handler p"
  "p_result_handler_data (received f c p) = p_result_handler_data p"
  "p_result_conversion (received f c p) = p_result_conversion p"
  "p_cached_cmd_result (received f c p) = c"
  "p_expired_time_us (received f c p) = p_expired_time_us p"
  "p_has_received_final_cmd_result (received f c p) \<longleftrightarrow> f \<or> p_has_received_final_cmd_result p"
  by (simp_all add: received_def)

lemma received_final:
  "(if f then p\<lparr>p_has_received_final_cmd_result := True\<rparr> else p) = received f (p_cached_cmd_result p) p"
  by (simp add: received_def)

lemma members_received:
  assumes "distinct (map p_addr ps)" and "p \<in> set ps"
  shows "p_addr ` {q \<in> set (update_path (p_addr p) (\<lambda>_. received f c p) ps). p_group q = Some g} =
    p_addr ` {q \<in> set ps. p_group q = Some g}"
proof -
  have "set (update_path (p_addr p) (\<lambda>_. received f c p) ps) = insert (received f c p) (set ps - {p})"
    using set_update_path [OF assms, of "\<lambda>_. received f c p"] by simp
  then show ?thesis
    using assms(2) by (auto simp: image_iff) (metis received_simps(1,2))
qed

lemma group_ok_received:
  assumes ok: "group_ok ps g grp" and d: "distinct (map p_addr ps)" and p: "p \<in> set ps"
    and c: "p_group p = Some g \<Longrightarrow>
      pg_policy grp = TEN_RESULT_RETURN_POLICY_FIRST_ERROR_OR_LAST_OK \<Longrightarrow> p_last_in_group p \<Longrightarrow>
      f \<or> p_has_received_final_cmd_result p \<Longrightarrow> c \<noteq> None"
  shows "group_ok (update_path (p_addr p) (\<lambda>_. received f c p) ps) g grp"
proof -
  have s: "set (update_path (p_addr p) (\<lambda>_. received f c p) ps) = insert (received f c p) (set ps - {p})"
    using set_update_path [OF d p, of "\<lambda>_. received f c p"] by simp
  have "p_addr ` {q \<in> insert (received f c p) (set ps - {p}). p_group q = Some g} =
      p_addr ` {q \<in> set ps. p_group q = Some g}"
    using members_received [OF d p, of f c g] by (simp only: s)
  moreover have "p_group q = Some g \<longrightarrow>
      (p_last_in_group q \<longleftrightarrow> p_addr q = last (pg_members grp)) \<and>
      (pg_policy grp = TEN_RESULT_RETURN_POLICY_FIRST_ERROR_OR_LAST_OK \<and> p_last_in_group q \<and>
       p_has_received_final_cmd_result q \<longrightarrow> p_cached_cmd_result q \<noteq> None)"
    if "q \<in> insert (received f c p) (set ps - {p})" for q
  proof (cases "q = received f c p")
    case True
    with ok p c show ?thesis by (simp add: group_ok_def)
  next
    case False
    with that ok show ?thesis by (simp add: group_ok_def)
  qed
  ultimately show ?thesis
    using ok unfolding group_ok_def s by blast
qed

lemma pt_ok_received:
  assumes ok: "pt_ok self" and p: "p \<in> set (pt_out_paths self)"
    and c: "\<And>g grp. p_group p = Some g \<Longrightarrow> pt_groups self g = Some grp \<Longrightarrow>
      pg_policy grp = TEN_RESULT_RETURN_POLICY_FIRST_ERROR_OR_LAST_OK \<Longrightarrow> p_last_in_group p \<Longrightarrow>
      f \<or> p_has_received_final_cmd_result p \<Longrightarrow> c \<noteq> None"
    and single: "p_group p = None \<Longrightarrow> \<not> f"
  shows "pt_ok (self\<lparr>pt_out_paths := update_path (p_addr p) (\<lambda>_. received f c p) (pt_out_paths self)\<rparr>)"
proof -
  let ?ps = "pt_out_paths self"
  note d = pt_okD(1) [OF ok]
  have addrs: "map p_addr (update_path (p_addr p) (\<lambda>_. received f c p) ?ps) = map p_addr ?ps"
    by (simp add: update_path_def)
  have s: "set (update_path (p_addr p) (\<lambda>_. received f c p) ?ps) = insert (received f c p) (set ?ps - {p})"
    using set_update_path [OF d p, of "\<lambda>_. received f c p"] by simp
  have "group_ok (update_path (p_addr p) (\<lambda>_. received f c p) ?ps) g grp"
    if "pt_groups self g = Some grp" for g grp
    by (rule group_ok_received [OF pt_okD(6) [OF ok that] d p]) (rule c [OF _ that])
  with ok have groups: "pt_groups self g = Some grp \<longrightarrow>
      g < pt_next self \<and> group_ok (update_path (p_addr p) (\<lambda>_. received f c p) ?ps) g grp" for g grp
    by (simp add: pt_ok_def)
  have outs: "p_addr q < pt_next self \<and> p_result_conversion q = None \<and> p_type q = TEN_PATH_OUT \<and>
      p_cmd_name q \<noteq> [] \<and> (\<forall>g. p_group q = Some g \<longrightarrow> pt_groups self g \<noteq> None) \<and>
      (p_group q = None \<longrightarrow> \<not> p_last_in_group q \<and> \<not> p_has_received_final_cmd_result q)"
    if "q \<in> insert (received f c p) (set ?ps - {p})" for q
  proof (cases "q = received f c p")
    case True
    with ok p single show ?thesis by (auto simp: pt_ok_def)
  next
    case False
    with that have "q \<in> set ?ps" by simp
    with ok show ?thesis unfolding pt_ok_def by blast
  qed
  show ?thesis
    unfolding pt_ok_def using ok groups outs
    by (intro conjI) (simp_all add: addrs s pt_ok_def del: insert_iff)
qed

text \<open>The table without a group and its paths.\<close>

definition drop_group :: "'c path_table \<Rightarrow> nat \<Rightarrow> 'c path_table" where
  "drop_group self g =
     self\<lparr>pt_out_paths := filter (\<lambda>p. p_group p \<noteq> Some g) (pt_out_paths self),
          pt_groups := (pt_groups self)(g := None)\<rparr>"

lemma remove_group_eq:
  assumes m: "set (pg_members grp) = p_addr ` {p \<in> set (pt_out_paths self). p_group p = Some g}"
      "distinct (pg_members grp)"
    and d: "distinct (map p_addr (pt_out_paths self))"
  shows "ten_path_table_remove_group_and_all_its_paths self TEN_PATH_OUT g grp = Some (drop_group self g)"
proof -
  let ?ps = "pt_out_paths self"
  have "p_addr p \<notin> set (pg_members grp) \<longleftrightarrow> p_group p \<noteq> Some g" if "p \<in> set ?ps" for p
    using that m(1) addr_unique [OF d] by (auto simp: image_iff)
  then have "filter (\<lambda>p. p_addr p \<notin> set (pg_members grp)) ?ps = filter (\<lambda>p. p_group p \<noteq> Some g) ?ps"
    by (intro filter_cong) auto
  moreover have "remove_members ?ps (pg_members grp) =
      Some (filter (\<lambda>p. p_addr p \<notin> set (pg_members grp)) ?ps)"
    using m by (intro remove_members_eq d) auto
  ultimately show ?thesis
    by (simp add: ten_path_table_remove_group_and_all_its_paths_def ten_path_group_get_members_def
        drop_group_def)
qed

lemma drop_group_received:
  assumes "distinct (map p_addr (pt_out_paths self))" and "p \<in> set (pt_out_paths self)"
    and "p_group p = Some g"
  shows "drop_group (self\<lparr>pt_out_paths := update_path (p_addr p) (\<lambda>_. received f c p) (pt_out_paths self)\<rparr>) g =
    drop_group self g"
proof -
  have "filter (\<lambda>q. p_group q \<noteq> Some g) (update_path (p_addr p) (\<lambda>_. received f c p) ps) =
      filter (\<lambda>q. p_group q \<noteq> Some g) ps"
    if "\<And>q. q \<in> set ps \<Longrightarrow> p_addr q = p_addr p \<Longrightarrow> q = p" for ps
    using that
  proof (induction ps)
    case (Cons q ps)
    then have "p_addr q = p_addr p \<longrightarrow> p_group q = Some g" using assms(3) by auto
    with Cons show ?case by (auto simp: assms(3))
  qed simp
  from this [of "pt_out_paths self"] show ?thesis
    using addr_unique [OF assms(1,2)] by (simp add: drop_group_def)
qed

lemma pt_ok_drop_group: "pt_ok self \<Longrightarrow> pt_ok (drop_group self g)"
proof -
  assume ok: "pt_ok self"
  let ?ps = "pt_out_paths self"
  have "group_ok (filter (\<lambda>p. p_group p \<noteq> Some g) ?ps) h grp" if "group_ok ?ps h grp" "h \<noteq> g" for h grp
  proof -
    have "{p \<in> set ?ps. p_group p \<noteq> Some g \<and> p_group p = Some h} = {p \<in> set ?ps. p_group p = Some h}"
      using that(2) by auto
    with that show ?thesis by (simp add: group_ok_def)
  qed
  with ok show ?thesis by (auto simp: pt_ok_def drop_group_def distinct_map_filter)
qed

section \<open>Results on their way back\<close>

text \<open>The result as it leaves a path, and the contract of one call for OUT paths.\<close>

definition routed :: "path_type \<Rightarrow> 'c ten_path \<Rightarrow> cmd_result \<Rightarrow> cmd_result" where
  "routed type path r =
     (let r = r\<lparr>cr_original_cmd_name := p_cmd_name path,
                cb_cmd_id := (if p_parent_cmd_id path \<noteq> [] then p_parent_cmd_id path else cb_cmd_id r),
                cb_dest_loc := [p_src_loc path]\<rparr>
      in if type = TEN_PATH_OUT
         then r\<lparr>cb_result_handler := p_result_handler path,
                cb_result_handler_data := p_result_handler_data path\<rparr>
         else r)"

lemma set_info_eq:
  "p_cmd_name path \<noteq> [] \<Longrightarrow>
   ten_cmd_result_set_info_from_path r type path = Some (routed type path r)"
  by (simp add: ten_cmd_result_set_info_from_path_def ten_cmd_result_set_original_cmd_name_def
      ten_cmd_base_set_cmd_id_def ten_msg_clear_and_set_dest_to_loc_def
      ten_cmd_base_set_result_handler_def routed_def Let_def)

lemma routed_simps [simp]:
  "cb_properties (routed type path r) = cb_properties r"
  "cr_status_code (routed type path r) = cr_status_code r"
  "cr_is_final (routed type path r) = cr_is_final r"
  "cr_is_completed (routed type path r) = cr_is_completed r"
  "cr_original_cmd_name (routed type path r) = p_cmd_name path"
  "cb_dest_loc (routed type path r) = [p_src_loc path]"
  "cb_cmd_id (routed type path r) =
     (if p_parent_cmd_id path \<noteq> [] then p_parent_cmd_id path else cb_cmd_id r)"
  by (simp_all add: routed_def Let_def)

lemma routed_received [simp]: "routed type (received f c path) r = routed type path r"
  by (simp add: routed_def Let_def)

lemma set_completed_simps [simp]:
  "cb_properties (ten_cmd_result_set_completed r b) = cb_properties r"
  "cr_status_code (ten_cmd_result_set_completed r b) = cr_status_code r"
  "cr_is_final (ten_cmd_result_set_completed r b) = cr_is_final r"
  "cr_is_completed (ten_cmd_result_set_completed r b) = b"
  "cb_cmd_id (ten_cmd_result_set_completed r b) = cb_cmd_id r"
  "cb_dest_loc (ten_cmd_result_set_completed r b) = cb_dest_loc r"
  "cr_original_cmd_name (ten_cmd_result_set_completed r b) = cr_original_cmd_name r"
  by (simp_all add: ten_cmd_result_set_completed_def)

definition group_finished :: "'c ten_path list \<Rightarrow> nat \<Rightarrow> bool" where
  "group_finished ps g \<longleftrightarrow> (\<forall>p \<in> set ps. p_group p = Some g \<longrightarrow> p_has_received_final_cmd_result p)"

lemma scan_group:
  assumes ok: "group_ok ps g grp" and d: "distinct (map p_addr ps)"
  shows "\<exists>c. scan_members ps (pg_members grp) None = Some (group_finished ps g, c) \<and>
    (group_finished ps g \<longrightarrow> (\<exists>l \<in> set ps. p_group l = Some g \<and> p_last_in_group l \<and> c = p_cached_cmd_result l))"
proof -
  have m: "set (pg_members grp) = p_addr ` {p \<in> set ps. p_group p = Some g}" "pg_members grp \<noteq> []"
    using ok by (auto simp: group_ok_def)
  have fin: "(\<forall>a \<in> set (pg_members grp).
        p_has_received_final_cmd_result (the (find (\<lambda>p. p_addr p = a) ps))) \<longleftrightarrow> group_finished ps g"
    using find_addr [OF d] by (auto simp: m(1) group_finished_def)
  have "last (pg_members grp) \<in> p_addr ` {p \<in> set ps. p_group p = Some g}"
    using m last_in_set by blast
  then obtain l where l: "l \<in> set ps" "p_group l = Some g" "p_addr l = last (pg_members grp)"
    by auto
  then have "p_last_in_group l" using ok by (auto simp: group_ok_def)
  with scan_members_eq [of "pg_members grp" ps None] fin m l find_addr [OF d l(1)] show ?thesis
    by fastforce
qed

lemma update_received_twice:
  "update_path (p_addr path) (\<lambda>p. p\<lparr>p_cached_cmd_result := c'\<rparr>)
     (update_path (p_addr path) (\<lambda>_. received f c path) ps) =
   update_path (p_addr path) (\<lambda>_. received f c' path) ps"
  by (induction ps) (auto simp: received_def)

lemma distinct_update_received [simp]:
  "distinct (map p_addr (update_path (p_addr path) (\<lambda>_. received f c path) ps)) \<longleftrightarrow>
   distinct (map p_addr ps)"
proof -
  have "map p_addr (update_path (p_addr path) (\<lambda>_. received f c path) ps) = map p_addr ps"
    by (simp add: update_path_def)
  then show ?thesis by simp
qed

text \<open>The situation of a result for a path of a group.\<close>

definition group_path :: "'c path_table \<Rightarrow> cmd_result \<Rightarrow> 'c ten_path \<Rightarrow> nat \<Rightarrow> path_group \<Rightarrow> bool" where
  "group_path self r path g grp \<longleftrightarrow>
     pt_ok self \<and>
     ten_path_table_find_path_from_cmd_id self TEN_PATH_OUT (cb_cmd_id r) = Some path \<and>
     p_group path = Some g \<and> pt_groups self g = Some grp"

abbreviation arrived :: "'c path_table \<Rightarrow> cmd_result \<Rightarrow> 'c ten_path \<Rightarrow> cmd_result option \<Rightarrow> 'c ten_path list" where
  "arrived self r path c \<equiv>
     update_path (p_addr path) (\<lambda>_. received (cr_is_final r) c path) (pt_out_paths self)"

lemma group_pathD:
  assumes "group_path self r path g grp"
  shows "path \<in> set (pt_out_paths self)" and "group_ok (pt_out_paths self) g grp"
    and "distinct (map p_addr (pt_out_paths self))"
    and "p_result_conversion path = None \<and> p_type path = TEN_PATH_OUT \<and> p_cmd_name path \<noteq> []"
    and "p_group path = Some g" and "pt_groups self g = Some grp" and "cb_cmd_id r = p_cmd_id path"
proof -
  show p: "path \<in> set (pt_out_paths self)" "cb_cmd_id r = p_cmd_id path"
    using assms by (auto simp: group_path_def ten_path_table_find_path_from_cmd_id_def dest: find_SomeD)
  show "group_ok (pt_out_paths self) g grp" "distinct (map p_addr (pt_out_paths self))"
    "p_result_conversion path = None \<and> p_type path = TEN_PATH_OUT \<and> p_cmd_name path \<noteq> []"
    "p_group path = Some g" "pt_groups self g = Some grp"
    using assms pt_okD [of self] p by (auto simp: group_path_def)
qed

lemma process_group_eq:
  assumes "group_path self r path g grp"
  shows "ten_path_table_process_cmd_result convert self TEN_PATH_OUT r =
    (let self' = self\<lparr>pt_out_paths := arrived self r path (p_cached_cmd_result path)\<rparr>;
         path' = received (cr_is_final r) (p_cached_cmd_result path) path;
         r' = ten_cmd_result_set_completed r False
     in case pg_policy grp of
          TEN_RESULT_RETURN_POLICY_FIRST_ERROR_OR_LAST_OK \<Rightarrow>
            process_first_error_or_last_ok self' TEN_PATH_OUT path' g grp r'
        | TEN_RESULT_RETURN_POLICY_EACH_OK_AND_ERROR \<Rightarrow>
            process_each_ok_and_error self' TEN_PATH_OUT path' g grp r'
        | TEN_RESULT_RETURN_POLICY_INVALID \<Rightarrow> None)"
  using assms group_pathD(4) [OF assms]
  by (simp add: group_path_def ten_path_table_process_cmd_result_def received_final Let_def
      split: result_return_policy.split)

lemma remove_group_arrived:
  assumes gp: "group_path self r path g grp"
  shows "ten_path_table_remove_group_and_all_its_paths (self\<lparr>pt_out_paths := arrived self r path c\<rparr>)
    TEN_PATH_OUT g grp = Some (drop_group self g)"
proof -
  note D = group_pathD [OF gp]
  have "ten_path_table_remove_group_and_all_its_paths (self\<lparr>pt_out_paths := arrived self r path c\<rparr>)
    TEN_PATH_OUT g grp = Some (drop_group (self\<lparr>pt_out_paths := arrived self r path c\<rparr>) g)"
    using D(2,3) by (intro remove_group_eq)
      (simp_all add: members_received [OF D(3,1)] group_ok_def)
  then show ?thesis by (simp add: drop_group_received [OF D(3,1,5)])
qed

text \<open>First error: the result passes at once and the group is gone.\<close>

lemma process_first_error:
  assumes gp: "group_path self r path g grp"
    and "pg_policy grp = TEN_RESULT_RETURN_POLICY_FIRST_ERROR_OR_LAST_OK"
    and "cr_status_code r \<noteq> TEN_STATUS_CODE_OK"
  shows "ten_path_table_process_cmd_result convert self TEN_PATH_OUT r =
    Some (True, Some (ten_cmd_result_set_completed
                        (routed TEN_PATH_OUT path (ten_cmd_result_set_completed r False)) True),
          drop_group self g)"
  using assms(2,3) group_pathD(4) [OF gp] remove_group_arrived [OF gp]
  by (simp add: process_group_eq [OF gp] Let_def process_first_error_or_last_ok_def set_info_eq)

text \<open>
  A success: it is kept if it is the last path's, nothing passes while a path of the group is
  unfinished, and then the kept result passes.
\<close>

lemma process_last_ok:
  assumes gp: "group_path self r path g grp"
    and pol: "pg_policy grp = TEN_RESULT_RETURN_POLICY_FIRST_ERROR_OR_LAST_OK"
    and st: "cr_status_code r = TEN_STATUS_CODE_OK"
    and c: "c = (if p_last_in_group path
                 then Some (routed TEN_PATH_OUT path (ten_cmd_result_set_completed r False))
                 else p_cached_cmd_result path)"
  shows "if group_finished (arrived self r path c) g
    then \<exists>l \<in> set (arrived self r path c). p_group l = Some g \<and> p_last_in_group l \<and>
           (\<exists>kept. p_cached_cmd_result l = Some kept \<and>
              ten_path_table_process_cmd_result convert self TEN_PATH_OUT r =
                Some (True, Some (ten_cmd_result_set_completed (routed TEN_PATH_OUT path kept) True),
                      drop_group self g))
    else ten_path_table_process_cmd_result convert self TEN_PATH_OUT r =
           Some (False, None, self\<lparr>pt_out_paths := arrived self r path c\<rparr>)"
proof -
  note D = group_pathD [OF gp]
  let ?self = "self\<lparr>pt_out_paths := arrived self r path c\<rparr>"
  have ok: "group_ok (arrived self r path c) g grp"
    by (rule group_ok_received [OF D(2,3,1)]) (simp add: c)
  have step: "ten_path_table_process_cmd_result convert self TEN_PATH_OUT r =
      do { (received_all_final_results, cached_cmd_result) \<leftarrow>
             scan_members (arrived self r path c) (pg_members grp) None;
           if \<not> received_all_final_results then Some (False, None, ?self)
           else do { cmd_result \<leftarrow> cached_cmd_result;
                     Some (True, Some (ten_cmd_result_set_completed
                                         (routed TEN_PATH_OUT path cmd_result) True),
                           drop_group self g) } }"
    using pol st D(4) remove_group_arrived [OF gp]
    by (simp add: process_group_eq [OF gp] Let_def process_first_error_or_last_ok_def set_info_eq c
        update_received_twice cong: if_cong)
  from scan_group [OF ok] D(3) obtain c' where scan:
    "scan_members (arrived self r path c) (pg_members grp) None =
       Some (group_finished (arrived self r path c) g, c')"
    and last: "group_finished (arrived self r path c) g \<longrightarrow>
       (\<exists>l \<in> set (arrived self r path c). p_group l = Some g \<and> p_last_in_group l \<and>
          c' = p_cached_cmd_result l)"
    by auto
  show ?thesis
  proof (cases "group_finished (arrived self r path c) g")
    case True
    with last obtain l where l: "l \<in> set (arrived self r path c)" "p_group l = Some g"
      "p_last_in_group l" "c' = p_cached_cmd_result l" by blast
    with True have "p_has_received_final_cmd_result l" by (auto simp: group_finished_def)
    with ok l pol obtain kept where "p_cached_cmd_result l = Some kept"
      by (auto simp: group_ok_def)
    with True l scan step show ?thesis by auto
  next
    case False
    with scan step show ?thesis by simp
  qed
qed

text \<open>Each result: all pass, and the one that finishes the group is marked as completing it.\<close>

lemma process_each:
  assumes gp: "group_path self r path g grp"
    and pol: "pg_policy grp = TEN_RESULT_RETURN_POLICY_EACH_OK_AND_ERROR"
  shows "ten_path_table_process_cmd_result convert self TEN_PATH_OUT r =
    (let ps = arrived self r path (p_cached_cmd_result path);
         r' = routed TEN_PATH_OUT path (ten_cmd_result_set_completed r False)
     in if group_finished ps g
        then Some (True, Some (ten_cmd_result_set_completed r' True), drop_group self g)
        else Some (True, Some r', self\<lparr>pt_out_paths := ps\<rparr>))"
proof -
  note D = group_pathD [OF gp]
  have "group_ok (arrived self r path (p_cached_cmd_result path)) g grp"
    by (rule group_ok_received [OF D(2,3,1)]) (simp add: pol)
  from scan_group [OF this] D(3) obtain c' where
    "scan_members (arrived self r path (p_cached_cmd_result path)) (pg_members grp) None =
       Some (group_finished (arrived self r path (p_cached_cmd_result path)) g, c')"
    by auto
  then show ?thesis
    using pol D(4) remove_group_arrived [OF gp]
    by (simp add: process_group_eq [OF gp] Let_def process_each_ok_and_error_def set_info_eq)
qed

section \<open>A group that waits for its last result\<close>

text \<open>The results that one call after the other lets pass.\<close>

fun process_all ::
  "('c \<Rightarrow> cmd_result \<Rightarrow> cmd_result option) \<Rightarrow> 'c path_table \<Rightarrow> cmd_result list \<Rightarrow>
   (cmd_result option list \<times> 'c path_table) run" where
  "process_all convert self [] = Some ([], self)"
| "process_all convert self (r # rs) =
     do { (proceed, passed, self) \<leftarrow> ten_path_table_process_cmd_result convert self TEN_PATH_OUT r;
          (rest, self) \<leftarrow> process_all convert self rs;
          Some (passed # rest, self) }"

definition unfinished :: "'c path_table \<Rightarrow> nat \<Rightarrow> 'c ten_path list" where
  "unfinished self g =
     filter (\<lambda>p. p_group p = Some g \<and> \<not> p_has_received_final_cmd_result p) (pt_out_paths self)"

lemma find_cmd_id:
  "distinct (map p_cmd_id ps) \<Longrightarrow> p \<in> set ps \<Longrightarrow> find (\<lambda>q. p_cmd_id q = p_cmd_id p) ps = Some p"
  by (induction ps) auto

lemma set_arrived:
  assumes "distinct (map p_addr (pt_out_paths self))" and "path \<in> set (pt_out_paths self)"
  shows "set (arrived self r path c) =
    insert (received (cr_is_final r) c path) (set (pt_out_paths self) - {path})"
  using set_update_path [OF assms, of "\<lambda>_. received (cr_is_final r) c path"] by simp

lemma cmd_ids_arrived: "map p_cmd_id (arrived self r path c) = map p_cmd_id (pt_out_paths self)"
  if "distinct (map p_addr (pt_out_paths self))" "path \<in> set (pt_out_paths self)"
proof -
  have "p_cmd_id (if p_addr q = p_addr path then received (cr_is_final r) c path else q) = p_cmd_id q"
    if "q \<in> set (pt_out_paths self)" for q
    using addr_unique [OF \<open>distinct _\<close> \<open>path \<in> _\<close> that] by auto
  then show ?thesis by (simp add: update_path_def)
qed

lemma filter_insert_done:
  "F y \<Longrightarrow> {x. (x = y \<or> x \<in> S \<and> x \<noteq> p) \<and> P x \<and> \<not> F x} = {x \<in> S. P x \<and> \<not> F x} - {p}"
  by auto

lemma received_done: "final \<Longrightarrow> p_has_received_final_cmd_result (received final c p)"
  by simp

lemma unfinished_arrived:
  assumes "distinct (map p_addr (pt_out_paths self))" and "path \<in> set (pt_out_paths self)"
    and "cr_is_final r"
  shows "set (unfinished (self\<lparr>pt_out_paths := arrived self r path c\<rparr>) g) = set (unfinished self g) - {path}"
  unfolding unfinished_def
  by (simp add: set_arrived [OF assms(1,2)] del: received_simps)
    (rule filter_insert_done [where F = p_has_received_final_cmd_result],
      rule received_done, rule assms(3))

lemma unfinished_rest:
  assumes d: "distinct (map p_addr (pt_out_paths self))"
    and ids: "distinct (map p_cmd_id (pt_out_paths self))" and p: "path \<in> set (pt_out_paths self)"
    and path: "path \<in> set (unfinished self g)" "cb_cmd_id r = p_cmd_id path"
    and dist: "distinct (map cb_cmd_id (r # rs))"
    and cover: "cb_cmd_id ` set (r # rs) = p_cmd_id ` set (unfinished self g)" and r: "cr_is_final r"
  shows "cb_cmd_id ` set rs =
    p_cmd_id ` set (unfinished (self\<lparr>pt_out_paths := arrived self r path c\<rparr>) g)"
proof -
  have inj: "p_cmd_id q = p_cmd_id path \<longleftrightarrow> q = path" if "q \<in> set (pt_out_paths self)" for q
    using ids that p by (metis distinct_map inj_onD)
  have "cb_cmd_id ` set rs = cb_cmd_id ` set (r # rs) - {cb_cmd_id r}"
    using dist by auto
  also have "\<dots> = p_cmd_id ` set (unfinished self g) - {p_cmd_id path}"
    using cover path(2) by simp
  also have "\<dots> = p_cmd_id ` (set (unfinished self g) - {path})"
    using inj by (auto simp: unfinished_def)
  finally show ?thesis by (simp only: unfinished_arrived [OF d p r])
qed

lemma group_finished_arrived:
  assumes "distinct (map p_addr (pt_out_paths self))" and "path \<in> set (pt_out_paths self)"
    and "cr_is_final r"
  shows "group_finished (arrived self r path c) g \<longleftrightarrow> set (unfinished self g) \<subseteq> {path}"
  using set_arrived [OF assms(1,2), of r c] assms(3) by (auto simp: group_finished_def unfinished_def)

text \<open>One step: nothing passes unless this result finishes the group.\<close>

lemma last_ok_step:
  assumes ok: "pt_ok self" and g: "pt_groups self g = Some grp"
    and pol: "pg_policy grp = TEN_RESULT_RETURN_POLICY_FIRST_ERROR_OR_LAST_OK"
    and ids: "distinct (map p_cmd_id (pt_out_paths self))"
    and path: "path \<in> set (unfinished self g)" "cb_cmd_id r = p_cmd_id path"
    and r: "cr_is_final r" "cr_status_code r = TEN_STATUS_CODE_OK"
    and l: "l \<in> set (pt_out_paths self)" "p_group l = Some g" "p_last_in_group l"
  obtains c where
    "c = (if l = path then Some (routed TEN_PATH_OUT path (ten_cmd_result_set_completed r False))
          else p_cached_cmd_result path)"
    "pt_ok (self\<lparr>pt_out_paths := arrived self r path c\<rparr>)"
    "if set (unfinished self g) \<subseteq> {path}
     then \<exists>kept. (if l = path then c else p_cached_cmd_result l) = Some kept \<and>
            ten_path_table_process_cmd_result convert self TEN_PATH_OUT r =
              Some (True, Some (ten_cmd_result_set_completed (routed TEN_PATH_OUT path kept) True),
                    drop_group self g)
     else ten_path_table_process_cmd_result convert self TEN_PATH_OUT r =
            Some (False, None, self\<lparr>pt_out_paths := arrived self r path c\<rparr>)"
proof -
  have p: "path \<in> set (pt_out_paths self)" "p_group path = Some g"
    using path(1) by (auto simp: unfinished_def)
  then have gp: "group_path self r path g grp"
    using ok g find_cmd_id [OF ids p(1)] path(2)
    by (simp add: group_path_def ten_path_table_find_path_from_cmd_id_def)
  note D = group_pathD [OF gp]
  have last_iff: "p_last_in_group q \<longleftrightarrow> q = l" if "q \<in> set (pt_out_paths self)" "p_group q = Some g" for q
    using D(2) l that addr_unique [OF D(3) l(1) that(1)] by (auto simp: group_ok_def)
  let ?c = "if l = path then Some (routed TEN_PATH_OUT path (ten_cmd_result_set_completed r False))
            else p_cached_cmd_result path"
  have c: "?c = (if p_last_in_group path
      then Some (routed TEN_PATH_OUT path (ten_cmd_result_set_completed r False))
      else p_cached_cmd_result path)"
    using last_iff [OF p] by auto
  have "pt_ok (self\<lparr>pt_out_paths := arrived self r path ?c\<rparr>)"
    by (rule pt_ok_received [OF ok p(1)]) (use last_iff [OF p] p(2) in auto)
  moreover have "l' = (if l = path then received (cr_is_final r) ?c path else l)"
    if "l' \<in> set (arrived self r path ?c)" "p_group l' = Some g" "p_last_in_group l'" for l'
    using that last_iff p by (auto simp: set_arrived [OF D(3) p(1)] simp del: received_simps(13))
  ultimately show thesis
    using process_last_ok [OF gp pol r(2) c, of convert] that [OF refl]
    unfolding group_finished_arrived [OF D(3) p(1) r(1)]
    by (force split: if_splits)
qed

text \<open>
  The results of the unfinished paths in any order: all but the one that comes last are held back,
  and what passes then is the result of the group's last path.
\<close>

definition result_of :: "'c ten_path \<Rightarrow> cmd_result list \<Rightarrow> cmd_result option" where
  "result_of l rs =
     (case find (\<lambda>r. cb_cmd_id r = p_cmd_id l) rs of
        Some r \<Rightarrow> Some r
      | None \<Rightarrow> p_cached_cmd_result l)"

lemma last_ok_sequence:
  assumes "pt_ok self" and "pt_groups self g = Some grp"
    and pol: "pg_policy grp = TEN_RESULT_RETURN_POLICY_FIRST_ERROR_OR_LAST_OK"
    and "distinct (map p_cmd_id (pt_out_paths self))"
    and "l \<in> set (pt_out_paths self)" "p_group l = Some g" "p_last_in_group l"
    and "rs \<noteq> []" and "distinct (map cb_cmd_id rs)"
    and "cb_cmd_id ` set rs = p_cmd_id ` set (unfinished self g)"
    and "\<forall>r \<in> set rs. cr_is_final r \<and> cr_status_code r = TEN_STATUS_CODE_OK"
  shows "\<exists>out src. process_all convert self rs = Some (replicate (length rs - 1) None @ [Some out], drop_group self g) \<and>
    cr_is_completed out \<and> result_of l rs = Some src \<and>
    cb_properties out = cb_properties src \<and> cr_status_code out = cr_status_code src"
  using assms(1,2,4-)
proof (induction rs arbitrary: self l)
  case (Cons r rs)
  note ok = Cons.prems(1) and g = Cons.prems(2) and ids = Cons.prems(3) and l = Cons.prems(4-6)
    and dist = Cons.prems(8) and cover = Cons.prems(9)
  have r: "cr_is_final r" "cr_status_code r = TEN_STATUS_CODE_OK" using Cons.prems(10) by auto
  have "cb_cmd_id r \<in> p_cmd_id ` set (unfinished self g)" using cover by (metis image_insert insertI1 list.simps(15))
  then obtain path where path: "path \<in> set (unfinished self g)" "cb_cmd_id r = p_cmd_id path" by auto
  then have p: "path \<in> set (pt_out_paths self)" "p_group path = Some g" by (auto simp: unfinished_def)
  note d = pt_okD(1) [OF ok]
  have inj: "p_cmd_id q = p_cmd_id path \<longleftrightarrow> q = path" if "q \<in> set (pt_out_paths self)" for q
    using ids that p(1) by (metis distinct_map inj_onD)
  obtain c where c:
    "c = (if l = path then Some (routed TEN_PATH_OUT path (ten_cmd_result_set_completed r False))
          else p_cached_cmd_result path)"
    and ok': "pt_ok (self\<lparr>pt_out_paths := arrived self r path c\<rparr>)"
    and step: "if set (unfinished self g) \<subseteq> {path}
     then \<exists>kept. (if l = path then c else p_cached_cmd_result l) = Some kept \<and>
            ten_path_table_process_cmd_result convert self TEN_PATH_OUT r =
              Some (True, Some (ten_cmd_result_set_completed (routed TEN_PATH_OUT path kept) True),
                    drop_group self g)
     else ten_path_table_process_cmd_result convert self TEN_PATH_OUT r =
            Some (False, None, self\<lparr>pt_out_paths := arrived self r path c\<rparr>)"
    by (rule last_ok_step [OF ok g pol ids path r l])
  let ?self = "self\<lparr>pt_out_paths := arrived self r path c\<rparr>"
  note rest = unfinished_rest [OF d ids p(1) path dist cover r(1), of c]
  have find_r: "find (\<lambda>x. cb_cmd_id x = p_cmd_id l) (r # rs) =
      (if l = path then Some r else find (\<lambda>x. cb_cmd_id x = p_cmd_id l) rs)"
    using path(2) inj [OF l(1)] by auto
  show ?case
  proof (cases "rs = []")
    case True
    then have "set (unfinished self g) \<subseteq> {path}"
      using rest unfinished_arrived [OF d p(1) r(1), of c g] by auto
    with step obtain kept where kept: "(if l = path then c else p_cached_cmd_result l) = Some kept"
      "ten_path_table_process_cmd_result convert self TEN_PATH_OUT r =
         Some (True, Some (ten_cmd_result_set_completed (routed TEN_PATH_OUT path kept) True), drop_group self g)"
      by auto
    then have "result_of l [r] = Some (if l = path then r else kept)"
      using find_r True by (auto simp: result_of_def)
    with kept True c show ?thesis by (auto split: if_splits)
  next
    case False
    let ?l = "if l = path then received (cr_is_final r) c path else l"
    have "set (unfinished ?self g) \<noteq> {}" using rest False by force
    then have "\<not> set (unfinished self g) \<subseteq> {path}"
      unfolding unfinished_arrived [OF d p(1) r(1)] by blast
    then have now: "ten_path_table_process_cmd_result convert self TEN_PATH_OUT r = Some (False, None, ?self)"
      using step by simp
    have l': "?l \<in> set (pt_out_paths ?self)" "p_group ?l = Some g" "p_last_in_group ?l"
      using l by (auto simp: set_arrived [OF d p(1)])
    have ids': "distinct (map p_cmd_id (pt_out_paths ?self))"
      using ids by (simp add: cmd_ids_arrived [OF d p(1)])
    from Cons.IH [OF ok' _ ids' l' False _ rest] g dist Cons.prems(10) obtain out src where
      IH: "process_all convert ?self rs = Some (replicate (length rs - 1) None @ [Some out], drop_group ?self g)"
        "cr_is_completed out" "result_of ?l rs = Some src"
        "cb_properties out = cb_properties src" "cr_status_code out = cr_status_code src"
      by auto
    have "length rs = Suc (length rs - 1)" using False by (cases rs) auto
    then have "None # replicate (length rs - 1) None = replicate (length rs) None"
      by (metis replicate_Suc)
    with now IH(1) have all: "process_all convert self (r # rs) =
        Some (replicate (length (r # rs) - 1) None @ [Some out], drop_group self g)"
      by (simp add: drop_group_received [OF d p])
    have "\<exists>src'. result_of l (r # rs) = Some src' \<and> cb_properties src' = cb_properties src \<and>
        cr_status_code src' = cr_status_code src"
    proof (cases "l = path")
      case True
      have "find (\<lambda>x. cb_cmd_id x = p_cmd_id path) rs = None"
        using dist path(2) by (auto simp: find_None_iff image_iff)
      with IH(3) True c have "src = routed TEN_PATH_OUT path (ten_cmd_result_set_completed r False)"
        by (simp add: result_of_def)
      with find_r True show ?thesis by (simp add: result_of_def)
    next
      case False
      with find_r IH(3) show ?thesis by (simp add: result_of_def)
    qed
    then obtain src' where "result_of l (r # rs) = Some src'"
      "cb_properties src' = cb_properties src" "cr_status_code src' = cr_status_code src" by blast
    with all IH(2,4,5) show ?thesis
      by (intro exI [of _ out] exI [of _ src'] conjI) (simp_all only:)
  qed
qed simp

end
