(* ===== verification/Path_Flow.thy ===== *)
theory Path_Flow
  imports Path_Table
begin

text \<open>
  What a path table promises to its users: every operation keeps the invariant of \<open>Path_Table\<close>,
  processing a result always returns, and the results of a command pass, or are held back, as the
  policy of its group says. The table as a whole is a state machine whose steps are the calls of
  the extension, engine and app that own it.
\<close>

section \<open>A path that is not in a group\<close>

definition conv_result :: "('c \<Rightarrow> cmd_result \<Rightarrow> cmd_result option) \<Rightarrow> 'c option \<Rightarrow> cmd_result \<Rightarrow> cmd_result" where
  "conv_result convert conversion r =
     (case conversion of
        None \<Rightarrow> r
      | Some c \<Rightarrow> (case convert c r of
                    None \<Rightarrow> ten_cmd_result_set_status_code r TEN_STATUS_CODE_ERROR
                  | Some r' \<Rightarrow> r'))"

definition without :: "'c ten_path list \<Rightarrow> 'c ten_path \<Rightarrow> 'c ten_path list" where
  "without ps path = filter (\<lambda>p. p_addr p \<noteq> p_addr path) ps"

lemma find_path_cmd_idD:
  "ten_path_table_find_path_from_cmd_id self type cmd_id = Some path \<Longrightarrow>
   path \<in> set (paths_of self type) \<and> p_cmd_id path = cmd_id"
  by (auto simp: ten_path_table_find_path_from_cmd_id_def dest: find_SomeD)

lemma pt_ok_paths:
  assumes "pt_ok self" and "path \<in> set (paths_of self type)"
  shows "distinct (map p_addr (paths_of self type))" and "p_type path = type" and "p_cmd_name path \<noteq> []"
    and "p_result_conversion path \<noteq> None \<Longrightarrow> type = TEN_PATH_IN"
    and "type = TEN_PATH_IN \<Longrightarrow> p_group path = None"
  using assms by (cases type; auto simp: pt_ok_def)+

lemma remove_updated:
  assumes "distinct (map p_addr ps)" and "path \<in> set ps" and "p_addr path' = p_addr path"
  shows "remove_ptr (update_path (p_addr path) (\<lambda>_. path') ps) (p_addr path) = Some (without ps path)"
  using assms(1,2)
proof (induction ps)
  case (Cons p ps)
  have "without ps path = ps" if "p_addr path \<notin> p_addr ` set ps"
    using that by (auto simp: without_def filter_id_conv) (metis image_eqI)
  moreover have "update_path (p_addr path) (\<lambda>_. path') ps = ps" if "p_addr path \<notin> p_addr ` set ps"
    using that by (auto simp: update_path_def intro!: map_idI) (metis image_eqI)
  ultimately show ?case using Cons assms(3) by (auto simp: without_def)
qed simp

text \<open>The contract of one call: the result passes, and its path goes when the result is final.\<close>

lemma process_single:
  assumes ok: "pt_ok self"
    and found: "ten_path_table_find_path_from_cmd_id self type (cb_cmd_id r) = Some path"
    and single: "p_group path = None"
  shows "ten_path_table_process_cmd_result convert self type r =
    (let r' = conv_result convert (p_result_conversion path) (ten_cmd_result_set_completed r False);
         out = routed type path r'
     in if cr_is_final r'
        then Some (True, Some (ten_cmd_result_set_completed out True),
                   set_paths_of self type (without (paths_of self type) path))
        else Some (True, Some out,
                   set_paths_of self type
                     (update_path (p_addr path)
                        (\<lambda>_. received (cr_is_final r) (p_cached_cmd_result path) path)
                        (paths_of self type))))"
proof -
  note P = pt_ok_paths [OF ok, of path type] find_path_cmd_idD [OF found]
  have rm: "ten_path_table_remove_path
       (set_paths_of self type (update_path (p_addr path) (\<lambda>_. path') (paths_of self type)))
       type (p_addr path) =
     Some (set_paths_of self type (without (paths_of self type) path))"
    if "p_addr path' = p_addr path" for path'
    using remove_updated [OF _ _ that, of "paths_of self type"] P
    by (cases type) (simp_all add: ten_path_table_remove_path_def)
  show ?thesis
  proof (cases "p_result_conversion path")
    case None
    then show ?thesis
      using P rm single found
      by (simp add: ten_path_table_process_cmd_result_def received_final set_info_eq Let_def
          conv_result_def cong: if_cong)
  next
    case (Some conversion)
    with P have "type = TEN_PATH_IN" by simp
    with Some show ?thesis
      using P rm single found
      by (simp add: ten_path_table_process_cmd_result_def received_final set_info_eq Let_def
          conv_result_def cong: if_cong option.case_cong)
  qed
qed

lemma process_unknown:
  "ten_path_table_find_path_from_cmd_id self type (cb_cmd_id r) = None \<Longrightarrow>
   ten_path_table_process_cmd_result convert self type r = Some (False, None, self)"
  by (simp add: ten_path_table_process_cmd_result_def)

section \<open>Every operation keeps the invariant\<close>

lemma pt_ok_set_in:
  assumes "pt_ok self" and "distinct (map p_addr ps)" and "distinct (map p_cmd_id ps)"
    and "\<forall>p \<in> set ps. p_addr p < pt_next self \<and> p_group p = None \<and> p_type p = TEN_PATH_IN \<and>
      p_cmd_name p \<noteq> []"
  shows "pt_ok (self\<lparr>pt_in_paths := ps\<rparr>)"
  using assms by (simp add: pt_ok_def)

lemma pt_ok_in_filter: "pt_ok self \<Longrightarrow> pt_ok (self\<lparr>pt_in_paths := filter P (pt_in_paths self)\<rparr>)"
  by (rule pt_ok_set_in) (auto simp: pt_ok_def distinct_map_filter)

lemma pt_ok_in_received:
  assumes ok: "pt_ok self" and p: "p \<in> set (pt_in_paths self)"
  shows "pt_ok (self\<lparr>pt_in_paths := update_path (p_addr p) (\<lambda>_. received f c p) (pt_in_paths self)\<rparr>)"
proof (rule pt_ok_set_in [OF ok])
  let ?ps = "update_path (p_addr p) (\<lambda>_. received f c p) (pt_in_paths self)"
  note d = pt_okD(2) [OF ok]
  have "p_cmd_id (if p_addr q = p_addr p then received f c p else q) = p_cmd_id q"
    if "q \<in> set (pt_in_paths self)" for q
    using addr_unique [OF d p that] by auto
  then have "map p_cmd_id ?ps = map p_cmd_id (pt_in_paths self)"
    by (simp add: update_path_def)
  with ok show "distinct (map p_cmd_id ?ps)" by (simp add: pt_ok_def)
  show "distinct (map p_addr ?ps)" using d by simp
  show "\<forall>q \<in> set ?ps. p_addr q < pt_next self \<and> p_group q = None \<and> p_type q = TEN_PATH_IN \<and>
      p_cmd_name q \<noteq> []"
    using ok p by (auto simp: set_update_path [OF d p, of "\<lambda>_. received f c p"] pt_ok_def)
qed

lemma group_ok_without:
  assumes "group_ok ps g grp" and "p_group p = None" and "distinct (map p_addr ps)" and "p \<in> set ps"
  shows "group_ok (without ps p) g grp"
proof -
  have "{q \<in> set (without ps p). p_group q = Some g} = {q \<in> set ps. p_group q = Some g}"
    using assms(2) addr_unique [OF assms(3,4)] by (auto simp: without_def)
  with assms(1) show ?thesis by (simp add: group_ok_def without_def)
qed

lemma pt_ok_out_without:
  assumes "pt_ok self" and "p \<in> set (pt_out_paths self)" and "p_group p = None"
  shows "pt_ok (self\<lparr>pt_out_paths := without (pt_out_paths self) p\<rparr>)"
  using assms group_ok_without [OF _ assms(3) pt_okD(1) [OF assms(1)] assms(2)]
  by (auto simp: pt_ok_def without_def distinct_map_filter)

lemma pt_ok_create: "pt_ok (ten_path_table_create attach in_timeout out_timeout)"
  by (simp add: pt_ok_def ten_path_table_create_def)

lemma pt_ok_in_timer: "pt_ok self \<Longrightarrow> pt_ok (ten_extension_in_path_timer_on_triggered now self)"
  unfolding ten_extension_in_path_timer_on_triggered_def by (rule pt_ok_in_filter)

lemma processed_single_ok:
  assumes ok: "pt_ok self"
    and found: "ten_path_table_find_path_from_cmd_id self type (cb_cmd_id r) = Some path"
    and single: "p_group path = None"
  shows "\<exists>out self'. ten_path_table_process_cmd_result convert self type r = Some (True, Some out, self') \<and>
    pt_ok self'"
proof -
  note P = find_path_cmd_idD [OF found]
  have "conv_result convert (p_result_conversion path) r' = r'" if "type = TEN_PATH_OUT" for r'
    using pt_ok_paths(4) [OF ok, of path type] P that by (cases "p_result_conversion path") (auto simp: conv_result_def)
  moreover have "pt_ok (set_paths_of self type (without (paths_of self type) path))"
    using pt_ok_in_filter [OF ok] pt_ok_out_without [OF ok _ single] P
    by (cases type) (simp_all add: without_def)
  moreover have "pt_ok (set_paths_of self type
      (update_path (p_addr path) (\<lambda>_. received f c path) (paths_of self type)))"
    if "type = TEN_PATH_IN \<or> \<not> f" for f c
    using that pt_ok_in_received [OF ok] pt_ok_received [OF ok, of path f c] P single
    by (cases type) simp_all
  ultimately show ?thesis
    unfolding process_single [OF assms] Let_def by (cases type) auto
qed

lemma processed_group_ok:
  assumes gp: "group_path self r path g grp"
  shows "\<exists>proceed passed self'. ten_path_table_process_cmd_result convert self TEN_PATH_OUT r =
      Some (proceed, passed, self') \<and> (proceed \<longleftrightarrow> passed \<noteq> None) \<and> pt_ok self'"
proof -
  note D = group_pathD [OF gp]
  have ok: "pt_ok self" using gp by (simp add: group_path_def)
  let ?c = "if p_last_in_group path
     then Some (routed TEN_PATH_OUT path (ten_cmd_result_set_completed r False))
     else p_cached_cmd_result path"
  note dropped = pt_ok_drop_group [OF ok, of g]
  have "pg_policy grp \<noteq> TEN_RESULT_RETURN_POLICY_INVALID" using D(2) by (simp add: group_ok_def)
  then consider
      (first_error) "pg_policy grp = TEN_RESULT_RETURN_POLICY_FIRST_ERROR_OR_LAST_OK"
        "cr_status_code r \<noteq> TEN_STATUS_CODE_OK"
    | (last_ok) "pg_policy grp = TEN_RESULT_RETURN_POLICY_FIRST_ERROR_OR_LAST_OK"
        "cr_status_code r = TEN_STATUS_CODE_OK"
    | (each) "pg_policy grp = TEN_RESULT_RETURN_POLICY_EACH_OK_AND_ERROR"
    by (cases "pg_policy grp") auto
  then show ?thesis
  proof cases
    case first_error
    with dropped show ?thesis by (auto simp: process_first_error [OF gp])
  next
    case last_ok
    have "pt_ok (self\<lparr>pt_out_paths := arrived self r path ?c\<rparr>)"
      by (rule pt_ok_received [OF ok D(1)]) (use D(5) in auto)
    with process_last_ok [OF gp last_ok refl, of convert] dropped show ?thesis
      by (cases "group_finished (arrived self r path ?c) g") auto
  next
    case each
    have "pt_ok (self\<lparr>pt_out_paths := arrived self r path (p_cached_cmd_result path)\<rparr>)"
      by (rule pt_ok_received [OF ok D(1)]) (use D(5,6) each in auto)
    with process_each [OF gp each, of convert] dropped show ?thesis
      by (auto simp: Let_def split: if_splits)
  qed
qed

section \<open>Sending a command\<close>

text \<open>
  The part of \<open>ten_extension_dispatch_msg\<close> that records a command before it leaves: an OUT path for
  each destination, and a group when there is more than one. Each command comes with the reading of
  the clock that its path is given.
\<close>

fun add_out_paths ::
  "'c path_table \<Rightarrow> (64 word \<times> 'a cmd_base_scheme) list \<Rightarrow>
   (nat list \<times> 'c path_table \<times> 'a cmd_base_scheme list) run" where
  "add_out_paths self [] = Some ([], self, [])"
| "add_out_paths self ((now, cmd) # cmds) =
     do { (path, self, cmd) \<leftarrow> ten_path_table_add_out_path now self cmd;
          (paths, self, cmds) \<leftarrow> add_out_paths self cmds;
          Some (path # paths, self, cmd # cmds) }"

definition record_out_paths ::
  "'c path_table \<Rightarrow> (64 word \<times> 'a cmd_base_scheme) list \<Rightarrow> result_return_policy \<Rightarrow>
   ('c path_table \<times> 'a cmd_base_scheme list) run" where
  "record_out_paths self cmds result_return_policy =
     do { (result_out_paths, self, cmds) \<leftarrow> add_out_paths self cmds;
          self \<leftarrow> (if length result_out_paths > 1
                   then ten_paths_create_group self result_out_paths result_return_policy
                   else Some self);
          Some (self, cmds) }"

lemma ten_assert_Some [simp]: "ten_assert b = Some u \<longleftrightarrow> b"
  by (cases b) simp_all

lemma path_init_SomeD:
  "ten_path_in_create addr name parent cid src conv = Some p \<Longrightarrow>
   p_addr p = addr \<and> p_type p = TEN_PATH_IN \<and> p_cmd_name p \<noteq> [] \<and> p_group p = None \<and>
   p_cmd_id p = cid \<and> p_result_conversion p = conv \<and> \<not> p_has_received_final_cmd_result p"
  "ten_path_out_create addr name parent cid src h d = Some q \<Longrightarrow>
   p_addr q = addr \<and> p_type q = TEN_PATH_OUT \<and> p_cmd_name q \<noteq> [] \<and> p_group q = None \<and>
   p_cmd_id q = cid \<and> p_result_conversion q = None \<and> \<not> p_has_received_final_cmd_result q \<and>
   \<not> p_last_in_group q"
  by (auto simp: ten_path_in_create_def ten_path_out_create_def ten_path_init_def)

lemma find_cmd_id_None:
  "ten_path_table_find_path_from_cmd_id self type cmd_id = None \<longleftrightarrow>
   cmd_id \<notin> p_cmd_id ` set (paths_of self type)"
  by (auto simp: ten_path_table_find_path_from_cmd_id_def find_None_iff)

lemma pt_ok_new_in:
  assumes "pt_ok self" and "p_addr p = pt_next self" and "p_type p = TEN_PATH_IN"
    and "p_cmd_name p \<noteq> []" and "p_group p = None" and "p_cmd_id p \<notin> p_cmd_id ` set (pt_in_paths self)"
  shows "pt_ok (self\<lparr>pt_in_paths := pt_in_paths self @ [p], pt_next := pt_next self + 1\<rparr>)"
  using assms by (fastforce simp: pt_ok_def)

lemma group_ok_new:
  "group_ok ps g grp \<Longrightarrow> p_group p = None \<Longrightarrow> group_ok (ps @ [p]) g grp"
proof -
  assume "group_ok ps g grp" and "p_group p = None"
  moreover have "{q \<in> set (ps @ [p]). p_group q = Some g} = {q \<in> set ps. p_group q = Some g}"
    using \<open>p_group p = None\<close> by auto
  ultimately show ?thesis by (auto simp: group_ok_def)
qed

lemma pt_ok_new_out:
  assumes "pt_ok self" and "p_addr p = pt_next self" and "p_type p = TEN_PATH_OUT"
    and "p_cmd_name p \<noteq> []" and "p_group p = None" and "p_result_conversion p = None"
    and "\<not> p_last_in_group p" and "\<not> p_has_received_final_cmd_result p"
  shows "pt_ok (self\<lparr>pt_out_paths := pt_out_paths self @ [p], pt_next := pt_next self + 1\<rparr>)"
proof -
  have "g < pt_next self + 1 \<and> group_ok (pt_out_paths self @ [p]) g grp"
    if "pt_groups self g = Some grp" for g grp
  proof -
    have "g < pt_next self" using assms(1) that unfolding pt_ok_def by blast
    with group_ok_new [OF pt_okD(6) [OF assms(1) that] assms(5)] show ?thesis by simp
  qed
  moreover have "pt_next self \<notin> p_addr ` set (pt_out_paths self)"
    using assms(1) by (auto simp: pt_ok_def)
  moreover have "p_addr q < pt_next self + 1" if "q \<in> set (pt_in_paths self) \<union> set (pt_out_paths self)" for q
    using assms(1) that by (auto simp: pt_ok_def)
  ultimately show ?thesis
    using assms unfolding pt_ok_def by simp
qed

lemma pt_ok_add_in:
  assumes "pt_ok self"
    and "ten_path_table_add_in_path now uuid self cmd conv = Some (a, self', cmd')"
  shows "pt_ok self'"
proof -
  let ?fresh = "ten_path_table_find_path_from_cmd_id self TEN_PATH_IN (cb_cmd_id cmd) \<noteq> None \<and>
    cb_is_cmd cmd"
  from assms(2) obtain cid name parent src p e where
    "ten_path_table_find_path_from_cmd_id self TEN_PATH_IN cid = None"
    "ten_path_in_create (pt_next self) name parent cid src conv = Some p"
    "self' = self\<lparr>pt_in_paths := pt_in_paths self @ [ten_path_set_expired_time p e],
                  pt_next := pt_next self + 1\<rparr>"
    unfolding ten_path_table_add_in_path_def Let_def
    by (cases ?fresh) (auto simp: Option.bind_eq_Some_conv ten_cmd_base_gen_new_cmd_id_forcibly_def
        ten_cmd_base_save_cmd_id_to_parent_cmd_id_def split: if_splits)
  then show ?thesis
    using pt_ok_new_in [OF assms(1), of "ten_path_set_expired_time p e"] path_init_SomeD(1)
    by (fastforce simp: find_cmd_id_None ten_path_set_expired_time_def)
qed

lemma add_out_pathD:
  assumes "pt_ok self" and "ten_path_table_add_out_path now self cmd = Some (a, self', cmd')"
  shows "pt_ok self'" and "a = pt_next self" and "pt_next self' = Suc a"
    and "\<exists>p. pt_out_paths self' = pt_out_paths self @ [p] \<and> p_addr p = a \<and> p_group p = None"
proof -
  from assms(2) obtain cid name parent src h d p e where p:
    "ten_path_out_create (pt_next self) name parent cid src h d = Some p"
    "a = pt_next self"
    "self' = self\<lparr>pt_out_paths := pt_out_paths self @ [ten_path_set_expired_time p e],
                  pt_next := pt_next self + 1\<rparr>"
    unfolding ten_path_table_add_out_path_def Let_def
    by (auto simp: Option.bind_eq_Some_conv)
  note q = path_init_SomeD(2) [OF p(1)]
  show "pt_ok self'"
    unfolding p(3) by (rule pt_ok_new_out [OF assms(1)]) (simp_all add: q ten_path_set_expired_time_def)
  show "a = pt_next self" "pt_next self' = Suc a"
    "\<exists>p. pt_out_paths self' = pt_out_paths self @ [p] \<and> p_addr p = a \<and> p_group p = None"
    using p q by (simp_all add: ten_path_set_expired_time_def)
qed

lemma add_out_pathsD:
  assumes "pt_ok self" and "add_out_paths self cmds = Some (as, self', cmds')"
  shows "pt_ok self' \<and> as = [pt_next self ..< pt_next self'] \<and> pt_next self \<le> pt_next self' \<and>
    (\<exists>ps. pt_out_paths self' = pt_out_paths self @ ps \<and> map p_addr ps = as \<and>
       (\<forall>p \<in> set ps. p_group p = None))"
  using assms
proof (induction cmds arbitrary: self as cmds')
  case (Cons nc cmds)
  obtain now cmd where nc: "nc = (now, cmd)" by force
  from Cons.prems(2) obtain a self1 cmd1 as1 cmds1 where
    one: "ten_path_table_add_out_path now self cmd = Some (a, self1, cmd1)"
    and rest: "add_out_paths self1 cmds = Some (as1, self', cmds1)" and "as": "as = a # as1"
    by (auto simp: nc Option.bind_eq_Some_conv)
  note D = add_out_pathD [OF Cons.prems(1) one]
  from D(4) obtain p where p: "pt_out_paths self1 = pt_out_paths self @ [p]" "p_addr p = a"
    "p_group p = None" by blast
  from Cons.IH [OF D(1) rest] obtain ps where ps: "pt_ok self'" "as1 = [pt_next self1 ..< pt_next self']"
    "pt_next self1 \<le> pt_next self'" "pt_out_paths self' = pt_out_paths self1 @ ps"
    "map p_addr ps = as1" "\<forall>p \<in> set ps. p_group p = None" by blast
  have "as = [pt_next self ..< pt_next self']" "pt_next self \<le> pt_next self'"
    using D(2,3) ps(2,3) "as" by (simp_all add: upt_conv_Cons)
  moreover have "pt_out_paths self' = pt_out_paths self @ p # ps" using p(1) ps(4) by simp
  ultimately show ?case
    using p ps "as" by (intro conjI exI [of _ "p # ps"]) simp_all
qed simp

text \<open>What \<open>ten_paths_create_group\<close> does to the paths, at once.\<close>

definition grouped :: "nat list \<Rightarrow> nat \<Rightarrow> 'c ten_path \<Rightarrow> 'c ten_path" where
  "grouped as g p =
     (if p_addr p \<in> set as
      then p\<lparr>p_group := Some g, p_last_in_group := p_last_in_group p \<or> p_addr p = last as\<rparr>
      else p)"

lemma grouped_simps [simp]:
  "p_addr (grouped as g p) = p_addr p" "p_type (grouped as g p) = p_type p"
  "p_cmd_name (grouped as g p) = p_cmd_name p" "p_cmd_id (grouped as g p) = p_cmd_id p"
  "p_result_conversion (grouped as g p) = p_result_conversion p"
  "p_has_received_final_cmd_result (grouped as g p) = p_has_received_final_cmd_result p"
  "p_cached_cmd_result (grouped as g p) = p_cached_cmd_result p"
  "p_group (grouped as g p) = (if p_addr p \<in> set as then Some g else p_group p)"
  "p_last_in_group (grouped as g p) \<longleftrightarrow>
     p_last_in_group p \<or> p_addr p \<in> set as \<and> p_addr p = last as"
  by (simp_all add: grouped_def)

lemma create_group_loop_eq:
  "create_group_loop as g grp ps =
     (grp\<lparr>pg_members := pg_members grp @ as\<rparr>,
      map (\<lambda>p. if p_addr p \<in> set as then p\<lparr>p_group := Some g\<rparr> else p) ps)"
  by (induction "as" g grp ps rule: create_group_loop.induct) (auto simp: update_path_def)

lemma grouped_eq:
  assumes "as \<noteq> []"
  shows "(\<lambda>p. if p_addr p = last as then p\<lparr>p_last_in_group := True\<rparr> else p) \<circ>
    (\<lambda>p. if p_addr p \<in> set as then p\<lparr>p_group := Some g\<rparr> else p) = grouped as g"
proof
  fix p :: "'c ten_path"
  have "last as \<in> set as" using assms by simp
  then show "((\<lambda>p. if p_addr p = last as then p\<lparr>p_last_in_group := True\<rparr> else p) \<circ>
    (\<lambda>p. if p_addr p \<in> set as then p\<lparr>p_group := Some g\<rparr> else p)) p = grouped as g p"
    by (cases p) (auto simp: grouped_def)
qed

lemma create_group_eq:
  assumes "length as > 1" and "set as \<subseteq> p_addr ` set (pt_out_paths self)"
  shows "ten_paths_create_group self as policy =
    Some (self\<lparr>pt_out_paths := map (grouped as (pt_next self)) (pt_out_paths self),
               pt_groups := (pt_groups self)(pt_next self \<mapsto> \<lparr>pg_policy = policy, pg_members = as\<rparr>),
               pt_next := pt_next self + 1\<rparr>)"
proof -
  have "\<exists>y. find (\<lambda>p. p_addr p = a) (pt_out_paths self) = Some y" if "a \<in> set as" for a
    using find_addr_None [of a "pt_out_paths self"] that assms(2) by auto
  moreover have "as \<noteq> []" using assms(1) by auto
  ultimately show ?thesis
    using assms(1)
    by (auto simp: ten_paths_create_group_def create_group_loop_eq ten_path_group_create_def
        update_path_def grouped_eq list_all_iff Let_def)
qed

lemma pt_ok_create_group:
  assumes ok: "pt_ok self" and "length as > 1" and "distinct as"
    and members: "set as \<subseteq> p_addr ` {p \<in> set (pt_out_paths self). p_group p = None}"
    and policy: "policy \<noteq> TEN_RESULT_RETURN_POLICY_INVALID"
    and new: "ten_paths_create_group self as policy = Some self'"
  shows "pt_ok self'"
proof -
  let ?ps = "pt_out_paths self" and ?g = "pt_next self"
  let ?grp = "\<lparr>pg_policy = policy, pg_members = as\<rparr>"
  have self': "self' = self\<lparr>pt_out_paths := map (grouped as ?g) ?ps,
      pt_groups := (pt_groups self)(?g \<mapsto> ?grp), pt_next := ?g + 1\<rparr>"
    using create_group_eq [of "as" self policy] assms(2) members new by auto
  have "as \<noteq> []" using assms(2) by auto
  have None: "p_group p = None" if "p \<in> set ?ps" "p_addr p \<in> set as" for p
    using that members addr_unique [OF pt_okD(1) [OF ok]] by fastforce
  have fresh: "p_group p \<noteq> Some ?g" if "p \<in> set ?ps" for p
    using ok that unfolding pt_ok_def by (metis less_irrefl not_None_eq)
  have new: "group_ok (map (grouped as ?g) ?ps) ?g ?grp"
  proof -
    have "set as = p_addr ` {p \<in> set (map (grouped as ?g) ?ps). p_group p = Some ?g}"
      using members fresh by (fastforce simp: image_iff split: if_splits)
    moreover have "\<not> p_last_in_group p \<and> \<not> p_has_received_final_cmd_result p"
      if "p \<in> set ?ps" "p_addr p \<in> set as" for p
      using ok None [OF that] that(1) unfolding pt_ok_def by blast
    ultimately show ?thesis
      using policy assms(2,3) \<open>as \<noteq> []\<close> fresh unfolding group_ok_def by auto
  qed
  have old: "group_ok (map (grouped as ?g) ?ps) h grp" if "pt_groups self h = Some grp" "h \<noteq> ?g" for h grp
  proof -
    have "p_addr p \<notin> set as" if "p \<in> set ?ps" "p_group p = Some h" for p
      using None that by auto
    then have "{p \<in> set (map (grouped as ?g) ?ps). p_group p = Some h} = {p \<in> set ?ps. p_group p = Some h}"
      using that(2) by (force simp: grouped_def image_iff)
    then show ?thesis
      using pt_okD(6) [OF ok that(1)] that(2) unfolding group_ok_def
      by (auto simp: grouped_def)
  qed
  have "map p_addr (map (grouped as ?g) ?ps) = map p_addr ?ps" by simp
  then show ?thesis
    using ok new old None unfolding pt_ok_def self'
    by (simp add: o_def) (metis less_SucI option.distinct(1) option.exhaust)
qed

lemma pt_ok_record_out:
  assumes ok: "pt_ok self" and policy: "policy \<noteq> TEN_RESULT_RETURN_POLICY_INVALID"
    and rec: "record_out_paths self cmds policy = Some (self', cmds')"
  shows "pt_ok self'"
proof -
  from rec obtain "as" self1 where added: "add_out_paths self cmds = Some (as, self1, cmds')"
    and grp: "(if length as > 1 then ten_paths_create_group self1 as policy else Some self1) = Some self'"
    by (auto simp: record_out_paths_def Option.bind_eq_Some_conv)
  from add_out_pathsD [OF ok added] obtain ps where D: "pt_ok self1" "as = [pt_next self ..< pt_next self1]"
    "pt_out_paths self1 = pt_out_paths self @ ps" "map p_addr ps = as" "\<forall>p \<in> set ps. p_group p = None"
    by blast
  show ?thesis
  proof (cases "length as > 1")
    case True
    have "set as = p_addr ` set ps" using D(4) by (metis set_map)
    with D(3,5) have "set as \<subseteq> p_addr ` {p \<in> set (pt_out_paths self1). p_group p = None}" by auto
    moreover have "ten_paths_create_group self1 as policy = Some self'" using True grp by simp
    moreover have "distinct as" using D(2) by simp
    ultimately show ?thesis by (rule pt_ok_create_group [OF D(1) True _ _ policy, rotated])
  next
    case False
    with grp D(1) show ?thesis by simp
  qed
qed

section \<open>The table as a state machine\<close>

text \<open>
  The steps are the calls that its owner makes: a command enters, a command leaves for one or more
  destinations, a result comes by on either side, the timer of the IN paths fires. The timer of
  the OUT paths makes results that come by as any other.
\<close>

inductive pt_step ::
  "('c \<Rightarrow> cmd_result \<Rightarrow> cmd_result option) \<Rightarrow> 'c path_table \<Rightarrow> 'c path_table \<Rightarrow> bool"
  for convert where
  enter: "ten_path_table_add_in_path now uuid self (cmd :: cmd_base) conversion = Some (a, self', cmd') \<Longrightarrow>
    pt_step convert self self'"
| leave: "record_out_paths self (cmds :: (64 word \<times> cmd_base) list) policy = Some (self', cmds') \<Longrightarrow>
    policy \<noteq> TEN_RESULT_RETURN_POLICY_INVALID \<Longrightarrow> pt_step convert self self'"
| result: "ten_path_table_process_cmd_result convert self type r = Some (proceed, passed, self') \<Longrightarrow>
    pt_step convert self self'"
| timeout: "pt_step convert self (ten_extension_in_path_timer_on_triggered now self)"

inductive pt_reachable ::
  "('c \<Rightarrow> cmd_result \<Rightarrow> cmd_result option) \<Rightarrow> 'c path_table \<Rightarrow> bool"
  for convert where
  created: "pt_reachable convert (ten_path_table_create attach in_timeout out_timeout)"
| stepped: "pt_reachable convert self \<Longrightarrow> pt_step convert self self' \<Longrightarrow> pt_reachable convert self'"

lemma process_returns:
  assumes ok: "pt_ok self"
  shows "\<exists>proceed passed self'. ten_path_table_process_cmd_result convert self type r =
      Some (proceed, passed, self') \<and> (proceed \<longleftrightarrow> passed \<noteq> None) \<and> pt_ok self'"
proof (cases "ten_path_table_find_path_from_cmd_id self type (cb_cmd_id r)")
  case None
  with ok show ?thesis by (auto simp: process_unknown)
next
  case (Some path)
  show ?thesis
  proof (cases "p_group path")
    case None
    from processed_single_ok [OF ok Some None, of convert] show ?thesis by auto
  next
    fix g assume g: "p_group path = Some g"
    note P = find_path_cmd_idD [OF Some]
    have "type = TEN_PATH_OUT" using pt_ok_paths(5) [OF ok, of path type] P g by (cases type) auto
    moreover from this obtain grp where "pt_groups self g = Some grp"
      using pt_okD(5) [OF ok _ g] P by auto
    ultimately show ?thesis
      using processed_group_ok [of self r path g grp convert] ok Some g by (simp add: group_path_def)
  qed
qed

lemma pt_step_ok: "pt_step convert self self' \<Longrightarrow> pt_ok self \<Longrightarrow> pt_ok self'"
proof (induction rule: pt_step.induct)
  case (result self type r proceed passed self')
  then show ?case using process_returns [of self convert type r] by auto
qed (auto intro: pt_ok_add_in pt_ok_record_out pt_ok_in_timer)

lemma pt_reachable_ok: "pt_reachable convert self \<Longrightarrow> pt_ok self"
  by (induction rule: pt_reachable.induct) (auto intro: pt_ok_create pt_step_ok)

section \<open>Properties\<close>



end
