(* ===== verification/Path_Contract.thy ===== *)
theory Path_Contract
  imports Path_Flow
begin

text \<open>
  How the results of one command come back, stated over the tables that the calls of their owner
  can lead to: the two policies of a group over whole sequences of results, the way back of a
  command that entered, the deadlines and the two timers. The example at the start is a command
  sent to two destinations, which the witnesses use.
\<close>

section \<open>An example\<close>

definition example_loc :: "string \<Rightarrow> ten_loc" where
  "example_loc name = \<lparr>loc_app_uri = [], loc_graph_id = ''g'', loc_extension_name = name\<rparr>"

definition example_cmd :: "string \<Rightarrow> string \<Rightarrow> cmd_base" where
  "example_cmd cmd_id parent_cmd_id =
     \<lparr>cb_is_cmd = True, cb_name = ''hello'', cb_cmd_id = cmd_id, cb_parent_cmd_id = parent_cmd_id,
      cb_src_loc = example_loc ''a'', cb_dest_loc = [example_loc ''b''], cb_result_handler = 7,
      cb_result_handler_data = 8, cb_properties = V_object []\<rparr>"

definition example_send :: "result_return_policy \<Rightarrow> (unit path_table \<times> cmd_base list) run" where
  "example_send policy =
     record_out_paths (ten_path_table_create TEN_PATH_TABLE_ATTACH_TO_EXTENSION 10 20)
       [(100, example_cmd ''1'' ''''), (100, example_cmd ''2'' ''1'')] policy"

definition example_table :: "result_return_policy \<Rightarrow> unit path_table" where
  "example_table policy = fst (the (example_send policy))"

definition example_result :: "string \<Rightarrow> int \<Rightarrow> cmd_result" where
  "example_result cmd_id status_code =
     (ten_cmd_result_create status_code)\<lparr>cb_cmd_id := cmd_id\<rparr>"

definition example_path :: "nat \<Rightarrow> string \<Rightarrow> string \<Rightarrow> bool \<Rightarrow> unit ten_path" where
  "example_path addr cmd_id parent_cmd_id is_last =
     \<lparr>p_addr = addr, p_type = TEN_PATH_OUT, p_cmd_name = ''hello'', p_cmd_id = cmd_id,
      p_parent_cmd_id = parent_cmd_id, p_src_loc = example_loc ''a'', p_group = Some 2,
      p_last_in_group = is_last, p_cached_cmd_result = None, p_has_received_final_cmd_result = False,
      p_result_conversion = None, p_expired_time_us = 120, p_result_handler = 7,
      p_result_handler_data = 8\<rparr>"

lemma example_send_returns: "example_send policy \<noteq> None"
proof -
  have "\<not> Option.is_none (example_send policy)" by (cases policy; code_simp)
  then show ?thesis by (simp add: Option.is_none_def)
qed

lemma example_table_simps [simp]:
  "pt_out_paths (example_table policy) = [example_path 0 ''1'' '''' False, example_path 1 ''2'' ''1'' True]"
  "pt_groups (example_table policy) 2 = Some \<lparr>pg_policy = policy, pg_members = [0, 1]\<rparr>"
  by (cases policy; code_simp)+

lemma example_path_simps [simp]:
  "p_addr (example_path a i q l) = a" "p_cmd_id (example_path a i q l) = i"
  "p_group (example_path a i q l) = Some 2" "p_last_in_group (example_path a i q l) = l"
  "p_has_received_final_cmd_result (example_path a i q l) = False"
  "p_expired_time_us (example_path a i q l) = 120"
  by (simp_all add: example_path_def)

lemma example_result_simps [simp]:
  "cb_cmd_id (example_result i s) = i" "cr_status_code (example_result i s) = s"
  "cr_is_final (example_result i s)"
  by (simp_all add: example_result_def ten_cmd_result_create_def)

lemma example_reachable:
  assumes "policy \<noteq> TEN_RESULT_RETURN_POLICY_INVALID"
  shows "pt_reachable convert (example_table policy)"
proof -
  obtain self cmds where "example_send policy = Some (self, cmds)"
    using example_send_returns [of policy] by auto
  then show ?thesis
    unfolding example_table_def example_send_def
    using pt_reachable.stepped [OF pt_reachable.created pt_step.leave [OF _ assms]] by auto
qed

lemma example_enter:
  "\<exists>self' cmd' p. ten_path_table_add_in_path 5 ''u''
     (ten_path_table_create TEN_PATH_TABLE_ATTACH_TO_EXTENSION 10 0 :: unit path_table) (example_cmd ''1'' '''') None =
       Some (0, self', cmd') \<and> pt_reachable convert self' \<and>
     pt_in_paths self' = [p] \<and> p_cmd_id p = ''1'' \<and> p_expired_time_us p = 15 \<and> p_group p = None \<and>
     p_result_conversion p = None"
proof -
  let ?init = "ten_path_table_create TEN_PATH_TABLE_ATTACH_TO_EXTENSION 10 0 :: unit path_table"
  obtain p self' cmd' where enter:
    "ten_path_table_add_in_path 5 ''u'' ?init (example_cmd ''1'' '''') None = Some (0, self', cmd')"
    and p: "pt_in_paths self' = [p]" "p_cmd_id p = ''1''" "p_expired_time_us p = 15" "p_group p = None"
      "p_result_conversion p = None"
    by (auto simp: ten_path_table_add_in_path_def ten_path_table_create_def example_cmd_def Let_def
        ten_path_table_find_path_from_cmd_id_def ten_path_in_create_def ten_path_init_def
        get_expired_time_def ten_path_table_get_path_timeout_duration_def ten_path_set_expired_time_def)
  have "pt_reachable convert self'"
    by (rule pt_reachable.stepped [OF pt_reachable.created pt_step.enter [OF enter]])
  with enter p show ?thesis by blast
qed

section \<open>A path outside every group\<close>

text \<open>A result for a path outside every group passes with the path's command name, source and, if
  it has one, parent command id; it is marked completed and the path is removed exactly when the
  result, after its conversion, is final. A conversion that fails lets the result pass as an error.\<close>

theorem single_path_result:
  assumes "pt_reachable convert self"
    and "ten_path_table_find_path_from_cmd_id self type (cb_cmd_id r) = Some path"
    and "p_group path = None"
  shows "\<exists>out self'. ten_path_table_process_cmd_result convert self type r = Some (True, Some out, self') \<and>
    cr_original_cmd_name out = p_cmd_name path \<and> cb_dest_loc out = [p_src_loc path] \<and>
    (p_parent_cmd_id path \<noteq> [] \<longrightarrow> cb_cmd_id out = p_parent_cmd_id path) \<and>
    (p_result_conversion path = None \<longrightarrow>
       cb_properties out = cb_properties r \<and> cr_status_code out = cr_status_code r \<and>
       cr_is_final out = cr_is_final r) \<and>
    (p_result_conversion path = Some c \<and> convert c (ten_cmd_result_set_completed r False) = None \<longrightarrow>
       cb_properties out = cb_properties r \<and> cr_status_code out = TEN_STATUS_CODE_ERROR) \<and>
    map p_addr (paths_of self' type) =
      (if cr_is_final out then filter (\<lambda>a. a \<noteq> p_addr path) (map p_addr (paths_of self type))
       else map p_addr (paths_of self type)) \<and>
    (cr_is_final out \<longrightarrow> cr_is_completed out)"
proof -
  let ?r = "conv_result convert (p_result_conversion path) (ten_cmd_result_set_completed r False)"
  have "map p_addr (without ps path) = filter (\<lambda>a. a \<noteq> p_addr path) (map p_addr ps)"
    for ps :: "'a ten_path list"
    by (simp add: without_def filter_map o_def)
  moreover have "map p_addr (update_path (p_addr path) (\<lambda>_. received f x path) ps) = map p_addr ps"
    for f x and ps :: "'a ten_path list"
    by (simp add: update_path_def)
  moreover have "p_result_conversion path = None \<longrightarrow>
      cb_properties ?r = cb_properties r \<and> cr_status_code ?r = cr_status_code r \<and>
      cr_is_final ?r = cr_is_final r"
    by (simp add: conv_result_def)
  moreover have "p_result_conversion path = Some c \<and>
      convert c (ten_cmd_result_set_completed r False) = None \<longrightarrow>
      cb_properties ?r = cb_properties r \<and> cr_status_code ?r = TEN_STATUS_CODE_ERROR"
    by (auto simp: conv_result_def ten_cmd_result_set_status_code_def ten_cmd_result_set_completed_def)
  ultimately show ?thesis
    using process_single [OF pt_reachable_ok [OF assms(1)] assms(2,3), of convert]
    by (cases type; cases "cr_is_final ?r") (simp_all add: Let_def)
qed

theorem single_path_result_witness:
  "\<exists>(self :: unit path_table) out self'. ten_path_table_process_cmd_result (\<lambda>_ _. None) self TEN_PATH_IN
     (example_result ''1'' 0) = Some (True, Some out, self') \<and>
     map p_addr (pt_in_paths self) \<noteq> [] \<and> map p_addr (pt_in_paths self') = []"
proof -
  obtain self' p where self': "pt_reachable (\<lambda>_ _. None) self'" "pt_in_paths self' = [p :: unit ten_path]"
    "p_cmd_id p = ''1''" "p_group p = None" "p_result_conversion p = None"
    using example_enter [of "\<lambda>_ _. None"] by blast
  have "ten_path_table_find_path_from_cmd_id self' TEN_PATH_IN (cb_cmd_id (example_result ''1'' 0)) = Some p"
    using self' by (simp add: ten_path_table_find_path_from_cmd_id_def)
  from single_path_result [OF self'(1) this self'(4)] self'(2,5) show ?thesis
    by (intro exI [of _ self']) fastforce
qed

section \<open>Groups\<close>

text \<open>C14: With the policy that returns the first error or the last success, an error passes at once,
  marked as completing the command, and ends the group: no path of the group is left, all other
  paths stay, and a result that arrives later for another path of the group is dropped.\<close>

theorem first_error_ends_group:
  assumes "pt_reachable convert self" and "distinct (map p_cmd_id (pt_out_paths self))"
    and "ten_path_table_find_path_from_cmd_id self TEN_PATH_OUT (cb_cmd_id r) = Some path"
    and "p_group path = Some g" and "pt_groups self g = Some grp"
    and "pg_policy grp = TEN_RESULT_RETURN_POLICY_FIRST_ERROR_OR_LAST_OK"
    and "cr_status_code r \<noteq> TEN_STATUS_CODE_OK"
  shows "\<exists>out self'. ten_path_table_process_cmd_result convert self TEN_PATH_OUT r = Some (True, Some out, self') \<and>
    cr_is_completed out \<and> cr_status_code out = cr_status_code r \<and> cb_properties out = cb_properties r \<and>
    cb_dest_loc out = [p_src_loc path] \<and>
    pt_out_paths self' = filter (\<lambda>p. p_group p \<noteq> Some g) (pt_out_paths self) \<and>
    (\<forall>q \<in> set (pt_out_paths self). \<forall>late. p_group q = Some g \<and> cb_cmd_id late = p_cmd_id q \<longrightarrow>
       ten_path_table_process_cmd_result convert self' TEN_PATH_OUT late = Some (False, None, self'))"
proof -
  have gp: "group_path self r path g grp"
    using assms(3-5) pt_reachable_ok [OF assms(1)] by (simp add: group_path_def)
  have gone: "ten_path_table_find_path_from_cmd_id (drop_group self g) TEN_PATH_OUT (p_cmd_id q) = None"
    if "q \<in> set (pt_out_paths self)" "p_group q = Some g" for q
  proof -
    have "x = q" if "x \<in> set (pt_out_paths self)" "p_cmd_id x = p_cmd_id q" for x
      using assms(2) that \<open>q \<in> _\<close> by (metis distinct_map inj_onD)
    with that(2) show ?thesis by (auto simp: find_cmd_id_None drop_group_def)
  qed
  have "ten_path_table_process_cmd_result convert (drop_group self g) TEN_PATH_OUT late =
      Some (False, None, drop_group self g)"
    if "q \<in> set (pt_out_paths self)" "p_group q = Some g" "cb_cmd_id late = p_cmd_id q" for q late
    using gone [OF that(1,2)] that(3) by (simp add: process_unknown)
  then show ?thesis
    by (simp add: process_first_error [OF gp assms(6,7)]) (simp add: drop_group_def)
qed

theorem first_error_ends_group_witness:
  "\<exists>out self'. ten_path_table_process_cmd_result (\<lambda>_ _. None)
     (example_table TEN_RESULT_RETURN_POLICY_FIRST_ERROR_OR_LAST_OK) TEN_PATH_OUT
     (example_result ''2'' 1) = Some (True, Some out, self') \<and> pt_out_paths self' = []"
  using first_error_ends_group [OF example_reachable, of TEN_RESULT_RETURN_POLICY_FIRST_ERROR_OR_LAST_OK
    "example_result ''2'' 1" "example_path 1 ''2'' ''1'' True" 2 _ "\<lambda>_ _. None"]
  by (auto simp: ten_path_table_find_path_from_cmd_id_def)

text \<open>C13: With that policy the final successes of all paths of a group, in whatever order they
  arrive, are held back until the last of them; then exactly one result passes, with the content
  of the result of the last destination, and the group is gone.\<close>

theorem last_ok_passes_once:
  assumes "pt_reachable convert self" and "pt_groups self g = Some grp"
    and "pg_policy grp = TEN_RESULT_RETURN_POLICY_FIRST_ERROR_OR_LAST_OK"
    and "distinct (map p_cmd_id (pt_out_paths self))"
    and "l \<in> set (pt_out_paths self)" and "p_group l = Some g" and "p_last_in_group l"
    and "rs \<noteq> []" and "distinct (map cb_cmd_id rs)"
    and "cb_cmd_id ` set rs = p_cmd_id ` set (unfinished self g)"
    and "\<forall>r \<in> set rs. cr_is_final r \<and> cr_status_code r = TEN_STATUS_CODE_OK"
  shows "\<exists>out src. process_all convert self rs =
      Some (replicate (length rs - 1) None @ [Some out], drop_group self g) \<and>
    cr_is_completed out \<and> result_of l rs = Some src \<and>
    cb_properties out = cb_properties src \<and> cr_status_code out = cr_status_code src"
  by (rule last_ok_sequence [OF pt_reachable_ok [OF assms(1)] assms(2-)])

theorem last_ok_passes_once_witness:
  "\<exists>out. process_all (\<lambda>_ _. None) (example_table TEN_RESULT_RETURN_POLICY_FIRST_ERROR_OR_LAST_OK)
     [example_result ''2'' 0, example_result ''1'' 0] =
     Some ([None, Some out], drop_group (example_table TEN_RESULT_RETURN_POLICY_FIRST_ERROR_OR_LAST_OK) 2)"
proof -
  have "unfinished (example_table policy) 2 = [example_path 0 ''1'' '''' False, example_path 1 ''2'' ''1'' True]"
    for policy by (simp add: unfinished_def)
  then show ?thesis
    using last_ok_passes_once [OF example_reachable, of TEN_RESULT_RETURN_POLICY_FIRST_ERROR_OR_LAST_OK
      2 _ "example_path 1 ''2'' ''1'' True" "[example_result ''2'' 0, example_result ''1'' 0]" "\<lambda>_ _. None"]
    by auto
qed

lemma each_step:
  assumes ok: "pt_ok self" and g: "pt_groups self g = Some grp"
    and pol: "pg_policy grp = TEN_RESULT_RETURN_POLICY_EACH_OK_AND_ERROR"
    and ids: "distinct (map p_cmd_id (pt_out_paths self))"
    and path: "path \<in> set (unfinished self g)" "cb_cmd_id r = p_cmd_id path" and r: "cr_is_final r"
  shows "\<exists>out. cr_status_code out = cr_status_code r \<and> cb_properties out = cb_properties r \<and>
    (cr_is_completed out \<longleftrightarrow> set (unfinished self g) \<subseteq> {path}) \<and>
    ten_path_table_process_cmd_result convert self TEN_PATH_OUT r =
      Some (True, Some out,
            if set (unfinished self g) \<subseteq> {path} then drop_group self g
            else self\<lparr>pt_out_paths := arrived self r path (p_cached_cmd_result path)\<rparr>)"
proof -
  have p: "path \<in> set (pt_out_paths self)" "p_group path = Some g"
    using path(1) by (auto simp: unfinished_def)
  then have gp: "group_path self r path g grp"
    using ok g find_cmd_id [OF ids p(1)] path(2)
    by (simp add: group_path_def ten_path_table_find_path_from_cmd_id_def)
  show ?thesis
    using process_each [OF gp pol, of convert] group_finished_arrived [OF group_pathD(3) [OF gp] p(1) r]
    by (simp add: Let_def)
qed

lemma each_sequence:
  assumes "pt_ok self" and "pt_groups self g = Some grp"
    and pol: "pg_policy grp = TEN_RESULT_RETURN_POLICY_EACH_OK_AND_ERROR"
    and "distinct (map p_cmd_id (pt_out_paths self))"
    and "rs \<noteq> []" and "distinct (map cb_cmd_id rs)"
    and "cb_cmd_id ` set rs = p_cmd_id ` set (unfinished self g)"
    and "\<forall>r \<in> set rs. cr_is_final r"
  shows "\<exists>outs. process_all convert self rs = Some (map Some outs, drop_group self g) \<and>
    map cr_status_code outs = map cr_status_code rs \<and> map cb_properties outs = map cb_properties rs \<and>
    map cr_is_completed outs = replicate (length rs - 1) False @ [True]"
  using assms(1,2,4-)
proof (induction rs arbitrary: self)
  case (Cons r rs)
  note ok = Cons.prems(1) and g = Cons.prems(2) and ids = Cons.prems(3)
    and dist = Cons.prems(5) and cover = Cons.prems(6)
  have r: "cr_is_final r" using Cons.prems(7) by simp
  have "cb_cmd_id r \<in> p_cmd_id ` set (unfinished self g)"
    using cover by (metis image_insert insertI1 list.simps(15))
  then obtain path where path: "path \<in> set (unfinished self g)" "cb_cmd_id r = p_cmd_id path" by auto
  then have p: "path \<in> set (pt_out_paths self)" "p_group path = Some g" by (auto simp: unfinished_def)
  note d = pt_okD(1) [OF ok]
  obtain out where out: "cr_status_code out = cr_status_code r" "cb_properties out = cb_properties r"
    "cr_is_completed out \<longleftrightarrow> set (unfinished self g) \<subseteq> {path}"
    "ten_path_table_process_cmd_result convert self TEN_PATH_OUT r =
      Some (True, Some out,
            if set (unfinished self g) \<subseteq> {path} then drop_group self g
            else self\<lparr>pt_out_paths := arrived self r path (p_cached_cmd_result path)\<rparr>)"
    using each_step [OF ok g pol ids path r, of convert] by blast
  let ?self = "self\<lparr>pt_out_paths := arrived self r path (p_cached_cmd_result path)\<rparr>"
  note rest = unfinished_rest [OF d ids p(1) path dist cover r, of "p_cached_cmd_result path"]
  show ?case
  proof (cases "rs = []")
    case True
    then have "set (unfinished self g) \<subseteq> {path}"
      using rest unfinished_arrived [OF d p(1) r, of "p_cached_cmd_result path" g] by auto
    with out True show ?thesis by (intro exI [of _ "[out]"]) simp
  next
    case False
    have "set (unfinished ?self g) \<noteq> {}" using rest False by force
    then have more: "\<not> set (unfinished self g) \<subseteq> {path}"
      unfolding unfinished_arrived [OF d p(1) r] by blast
    have ok': "pt_ok ?self"
      by (rule pt_ok_received [OF ok p(1)]) (use p(2) g pol in auto)
    have ids': "distinct (map p_cmd_id (pt_out_paths ?self))"
      using ids by (simp add: cmd_ids_arrived [OF d p(1)])
    from Cons.IH [OF ok' _ ids' False _ rest] g dist Cons.prems(7) obtain outs where
      IH: "process_all convert ?self rs = Some (map Some outs, drop_group ?self g)"
        "map cr_status_code outs = map cr_status_code rs" "map cb_properties outs = map cb_properties rs"
        "map cr_is_completed outs = replicate (length rs - 1) False @ [True]" by auto
    have "length rs = Suc (length rs - 1)" using False by (cases rs) auto
    then have "False # replicate (length rs - 1) False = replicate (length rs) False"
      by (metis replicate_Suc)
    with IH out more show ?thesis
      by (intro exI [of _ "out # outs"]) (simp add: drop_group_received [OF d p])
  qed
qed simp

text \<open>C16: With the policy that returns each result, the final results of all paths of a group, in
  whatever order they arrive and whether they are errors or not, all pass as they come; exactly the
  last one is marked as completing the command, and then the group is gone.\<close>

theorem each_passes_all:
  assumes "pt_reachable convert self" and "pt_groups self g = Some grp"
    and "pg_policy grp = TEN_RESULT_RETURN_POLICY_EACH_OK_AND_ERROR"
    and "distinct (map p_cmd_id (pt_out_paths self))"
    and "rs \<noteq> []" and "distinct (map cb_cmd_id rs)"
    and "cb_cmd_id ` set rs = p_cmd_id ` set (unfinished self g)"
    and "\<forall>r \<in> set rs. cr_is_final r"
  shows "\<exists>outs. process_all convert self rs = Some (map Some outs, drop_group self g) \<and>
    map cr_status_code outs = map cr_status_code rs \<and> map cb_properties outs = map cb_properties rs \<and>
    map cr_is_completed outs = replicate (length rs - 1) False @ [True]"
  by (rule each_sequence [OF pt_reachable_ok [OF assms(1)] assms(2-)])

theorem each_passes_all_witness:
  "\<exists>outs. process_all (\<lambda>_ _. None) (example_table TEN_RESULT_RETURN_POLICY_EACH_OK_AND_ERROR)
     [example_result ''2'' 1, example_result ''1'' 0] =
     Some (map Some outs, drop_group (example_table TEN_RESULT_RETURN_POLICY_EACH_OK_AND_ERROR) 2) \<and>
     map cr_is_completed outs = [False, True]"
proof -
  have "unfinished (example_table policy) 2 = [example_path 0 ''1'' '''' False, example_path 1 ''2'' ''1'' True]"
    for policy by (simp add: unfinished_def)
  then show ?thesis
    using each_passes_all [OF example_reachable, of TEN_RESULT_RETURN_POLICY_EACH_OK_AND_ERROR
      2 _ "[example_result ''2'' 1, example_result ''1'' 0]" "\<lambda>_ _. None"]
    by (auto simp: insert_commute simp del: process_all.simps)
qed

section \<open>The way back of a command that entered\<close>

lemma enter_eq:
  assumes "length (cb_dest_loc cmd) = 1" and "cb_name cmd \<noteq> []" and "0 \<le> sint now" and "cb_is_cmd cmd"
    and "uuid \<notin> p_cmd_id ` set (pt_in_paths self)"
  shows "\<exists>p e. let taken = cb_cmd_id cmd \<in> p_cmd_id ` set (pt_in_paths self);
      cid = (if taken then uuid else cb_cmd_id cmd) in
    ten_path_table_add_in_path now uuid self cmd conversion =
      Some (pt_next self, self\<lparr>pt_in_paths := pt_in_paths self @ [p], pt_next := pt_next self + 1\<rparr>,
            cmd\<lparr>cb_cmd_id := cid, cb_parent_cmd_id := []\<rparr>) \<and>
    p_cmd_id p = cid \<and> p_group p = None \<and> p_result_conversion p = conversion \<and> p_cmd_name p = cb_name cmd \<and>
    p_src_loc p = cb_src_loc cmd \<and> p_addr p = pt_next self \<and>
    p_parent_cmd_id p = (if taken then cb_cmd_id cmd else cb_parent_cmd_id cmd)"
proof -
  have find_None: "ten_path_table_find_path_from_cmd_id self TEN_PATH_IN i = None \<longleftrightarrow>
      i \<notin> p_cmd_id ` set (pt_in_paths self)" for i
    by (simp add: find_cmd_id_None)
  have taken: "(\<exists>y. ten_path_table_find_path_from_cmd_id self TEN_PATH_IN i = Some y) \<longleftrightarrow>
      i \<in> p_cmd_id ` set (pt_in_paths self)" for i
    using find_None [of i] by auto
  obtain e where e: "get_expired_time now (ten_path_table_get_path_timeout_duration self TEN_PATH_IN) = Some e"
    using assms(3) by (auto simp: get_expired_time_def)
  show ?thesis
    using assms e
    by (cases "cb_cmd_id cmd \<in> p_cmd_id ` set (pt_in_paths self)")
      (auto simp: ten_path_table_add_in_path_def find_None taken Let_def ten_path_in_create_def
        ten_path_init_def ten_path_set_expired_time_def ten_cmd_base_gen_new_cmd_id_forcibly_def
        ten_cmd_base_save_cmd_id_to_parent_cmd_id_def ten_cmd_base_reset_parent_cmd_id_def
        ten_cmd_base_get_parent_cmd_id_def split: option.splits)
qed

lemma find_new:
  "p_cmd_id p = i \<Longrightarrow> i \<notin> p_cmd_id ` set ps \<Longrightarrow> find (\<lambda>q. p_cmd_id q = i) (ps @ [p]) = Some p"
  by (induction ps) auto

text \<open>C15: The way back of a command. A command enters, also when its id is taken, and leaves an IN path
  under an id that is not; its final result, which carries that id, then passes back to the place
  the command came from, with the id the command had there when its own was replaced, else with
  its parent's id, else with the same id. The path is gone afterwards and the other paths are as
  before.\<close>

theorem entered_result_returns:
  fixes cmd :: cmd_base
  assumes "pt_reachable convert self" and "length (cb_dest_loc cmd) = 1" and "cb_name cmd \<noteq> []"
    and "0 \<le> sint now" and "cb_is_cmd cmd" and "uuid \<notin> p_cmd_id ` set (pt_in_paths self)"
  shows "\<exists>a self' cmd'. ten_path_table_add_in_path now uuid self cmd None = Some (a, self', cmd') \<and>
    pt_reachable convert self' \<and> cb_cmd_id cmd' \<notin> p_cmd_id ` set (pt_in_paths self) \<and>
    cb_parent_cmd_id cmd' = [] \<and>
    (\<forall>r. cb_cmd_id r = cb_cmd_id cmd' \<and> cr_is_final r \<longrightarrow>
      (\<exists>out self''. ten_path_table_process_cmd_result convert self' TEN_PATH_IN r = Some (True, Some out, self'') \<and>
         pt_in_paths self'' = pt_in_paths self \<and> pt_out_paths self'' = pt_out_paths self \<and>
         cb_dest_loc out = [cb_src_loc cmd] \<and> cr_original_cmd_name out = cb_name cmd \<and>
         cb_cmd_id out =
           (if cb_cmd_id cmd \<notin> p_cmd_id ` set (pt_in_paths self) \<and> cb_parent_cmd_id cmd \<noteq> []
            then cb_parent_cmd_id cmd
            else if cb_cmd_id cmd \<in> p_cmd_id ` set (pt_in_paths self) \<and> cb_cmd_id cmd = []
            then cb_cmd_id cmd' else cb_cmd_id cmd)))"
proof -
  let ?ps = "pt_in_paths self"
  let ?taken = "cb_cmd_id cmd \<in> p_cmd_id ` set ?ps"
  let ?cid = "if ?taken then uuid else cb_cmd_id cmd"
  note ok = pt_reachable_ok [OF assms(1)]
  from enter_eq [OF assms(2-6), of None] obtain p where
    enter: "ten_path_table_add_in_path now uuid self cmd None =
      Some (pt_next self, self\<lparr>pt_in_paths := ?ps @ [p], pt_next := pt_next self + 1\<rparr>,
            cmd\<lparr>cb_cmd_id := ?cid, cb_parent_cmd_id := []\<rparr>)"
    and p: "p_cmd_id p = ?cid" "p_group p = None" "p_result_conversion p = None"
      "p_cmd_name p = cb_name cmd" "p_src_loc p = cb_src_loc cmd" "p_addr p = pt_next self"
      "p_parent_cmd_id p = (if ?taken then cb_cmd_id cmd else cb_parent_cmd_id cmd)"
    by (auto simp: Let_def)
  let ?self = "self\<lparr>pt_in_paths := ?ps @ [p], pt_next := pt_next self + 1\<rparr>"
  have new: "?cid \<notin> p_cmd_id ` set ?ps" using assms(6) by simp
  have reach: "pt_reachable convert ?self"
    by (rule pt_reachable.stepped [OF assms(1) pt_step.enter [OF enter]])
  have "p_addr q \<noteq> p_addr p" if "q \<in> set ?ps" for q
    using ok that p(6) unfolding pt_ok_def by fastforce
  then have gone: "without (?ps @ [p]) p = ?ps"
    by (auto simp: without_def filter_id_conv)
  let ?id = "if \<not> ?taken \<and> cb_parent_cmd_id cmd \<noteq> [] then cb_parent_cmd_id cmd
     else if ?taken \<and> cb_cmd_id cmd = [] then ?cid else cb_cmd_id cmd"
  have passes: "\<exists>out self''. ten_path_table_process_cmd_result convert ?self TEN_PATH_IN r =
      Some (True, Some out, self'') \<and>
      pt_in_paths self'' = ?ps \<and> pt_out_paths self'' = pt_out_paths self \<and>
      cb_dest_loc out = [cb_src_loc cmd] \<and> cr_original_cmd_name out = cb_name cmd \<and> cb_cmd_id out = ?id"
    if r: "cb_cmd_id r = ?cid" "cr_is_final r" for r
  proof -
    have "ten_path_table_find_path_from_cmd_id ?self TEN_PATH_IN (cb_cmd_id r) = Some p"
      using find_new [OF p(1) new] r(1) by (simp add: ten_path_table_find_path_from_cmd_id_def)
    from process_single [OF pt_reachable_ok [OF reach] this p(2), of convert]
    obtain out where out: "ten_path_table_process_cmd_result convert ?self TEN_PATH_IN r =
        Some (True, Some out, ?self\<lparr>pt_in_paths := ?ps\<rparr>)"
      "cb_dest_loc out = [p_src_loc p]" "cr_original_cmd_name out = p_cmd_name p"
      "cb_cmd_id out = (if p_parent_cmd_id p \<noteq> [] then p_parent_cmd_id p else cb_cmd_id r)"
      using r(2) gone by (simp add: Let_def conv_result_def p(3))
    have id: "cb_cmd_id out = ?id" unfolding out(4) p(7) r(1) by simp
    show ?thesis
      by (intro exI [of _ out] exI [of _ "?self\<lparr>pt_in_paths := ?ps\<rparr>"] conjI, rule out(1))
        (simp_all add: id out(2,3) p(4,5))
  qed
  let ?cmd = "cmd\<lparr>cb_cmd_id := ?cid, cb_parent_cmd_id := []\<rparr>"
  have id: "cb_cmd_id ?cmd = ?cid" by simp
  show ?thesis
    unfolding enter
    by (rule exI [of _ "pt_next self"], rule exI [of _ ?self], rule exI [of _ ?cmd], unfold id)
      (use reach new passes in \<open>intro conjI allI impI; (simp; fail)?\<close>)
qed

theorem entered_result_returns_witness:
  "\<exists>a self' cmd'. ten_path_table_add_in_path 5 ''u''
     (ten_path_table_create TEN_PATH_TABLE_ATTACH_TO_APP 0 0 :: unit path_table) (example_cmd ''1'' '''') None =
       Some (a, self', cmd') \<and> cb_parent_cmd_id cmd' = []"
  using entered_result_returns [where convert = "\<lambda>_ _. None" and cmd = "example_cmd ''1'' ''''"
      and now = 5 and uuid = "''u''",
    OF pt_reachable.created [where attach = TEN_PATH_TABLE_ATTACH_TO_APP and in_timeout = 0 and out_timeout = 0]]
  by (auto simp: example_cmd_def ten_path_table_create_def)

section \<open>Deadlines\<close>

text \<open>The deadline of a path is the clock plus the timeout, saturating at the largest 64-bit
  number instead of wrapping around, for every non-negative reading of the clock; a path whose
  table is not an extension's has the largest deadline of all.\<close>

theorem deadline_saturates:
  assumes "0 \<le> sint now"
  shows "\<exists>e. get_expired_time now t = Some e \<and> unat e = min (unat now + unat t) (2 ^ 64 - 1) \<and>
    (pt_attach_to self \<noteq> TEN_PATH_TABLE_ATTACH_TO_EXTENSION \<longrightarrow>
       get_expired_time now (ten_path_table_get_path_timeout_duration self type) = Some (- 1))"
proof -
  have top: "unat (- 1 :: 64 word) = 2 ^ 64 - 1"
    by (simp add: unsigned_minus_1_eq_mask mask_eq_exp_minus_1)
  have lt: "unat now < 2 ^ 64"
    by (rule order.strict_trans2 [OF unsigned_less]) simp
  have room: "unat (- 1 - now) = 2 ^ 64 - 1 - unat now"
    using lt by (simp add: unat_sub_if' top)
  have "unat (now + t) = unat now + unat t" if "unat now + unat t \<le> 2 ^ 64 - 1"
    using that by (simp add: unat_word_ariths)
  moreover have "- 1 - now < t \<longleftrightarrow> 2 ^ 64 - 1 < unat now + unat t"
    using lt by (auto simp: word_less_nat_alt room)
  moreover have "now = 0" if "- 1 - now \<ge> (- 1 :: 64 word)"
  proof -
    have "unat now = 0" using that lt unfolding word_le_nat_alt room top by arith
    then show ?thesis by (metis unsigned_eq_0_iff)
  qed
  ultimately show ?thesis
    using assms
    by (cases "- 1 - now < t")
      (auto simp: get_expired_time_def top ten_path_table_get_path_timeout_duration_def)
qed

theorem deadline_saturates_witness:
  "get_expired_time 5 (- 3) = Some (- 1) \<and>
   (\<exists>e. get_expired_time 5 10 = Some e \<and> unat e = 15)"
proof -
  show ?thesis
    using deadline_saturates [of 5 "- 3" "ten_path_table_create TEN_PATH_TABLE_ATTACH_TO_APP 0 0" TEN_PATH_IN]
      deadline_saturates [of 5 10 "ten_path_table_create TEN_PATH_TABLE_ATTACH_TO_APP 0 0" TEN_PATH_IN]
    by (simp add: get_expired_time_def)
qed

text \<open>When the timer of the IN paths fires, exactly the paths whose deadline has come go, in order;
  a path with the largest deadline never expires, and a result for a path that expired is dropped.\<close>

theorem in_timer_removes_expired:
  assumes "pt_reachable convert self" and "0 \<le> sint now" and "path \<in> set (pt_in_paths self)"
  shows "let self' = ten_extension_in_path_timer_on_triggered now self in
    pt_reachable convert self' \<and> pt_out_paths self' = pt_out_paths self \<and>
    pt_in_paths self' = filter (\<lambda>p. now < p_expired_time_us p) (pt_in_paths self) \<and>
    (p_expired_time_us path = - 1 \<longrightarrow> path \<in> set (pt_in_paths self')) \<and>
    (p_expired_time_us path \<le> now \<and> cb_cmd_id r = p_cmd_id path \<longrightarrow>
       ten_path_table_process_cmd_result convert self' TEN_PATH_IN r = Some (False, None, self'))"
proof -
  let ?self = "ten_extension_in_path_timer_on_triggered now self"
  have kept: "pt_in_paths ?self = filter (\<lambda>p. now < p_expired_time_us p) (pt_in_paths self)"
    by (simp add: ten_extension_in_path_timer_on_triggered_def not_le)
  have "now < - 1"
  proof -
    have "now \<noteq> - 1" using assms(2) by auto
    then show ?thesis by (simp add: word_order.not_eq_extremum)
  qed
  moreover have "ten_path_table_find_path_from_cmd_id ?self TEN_PATH_IN (p_cmd_id path) = None"
    if "p_expired_time_us path \<le> now"
  proof -
    have "x = path" if "x \<in> set (pt_in_paths self)" "p_cmd_id x = p_cmd_id path" for x
      using that assms(3) pt_reachable_ok [OF assms(1)] unfolding pt_ok_def
      by (metis distinct_map inj_onD)
    with that kept show ?thesis by (force simp: find_cmd_id_None)
  qed
  moreover have "pt_out_paths ?self = pt_out_paths self"
    by (simp add: ten_extension_in_path_timer_on_triggered_def)
  moreover have "pt_reachable convert ?self"
    by (rule pt_reachable.stepped [OF assms(1) pt_step.timeout])
  ultimately show ?thesis
    using assms(3) kept by (simp add: Let_def process_unknown)
qed

theorem in_timer_removes_expired_witness:
  "\<exists>a self' cmd'. ten_path_table_add_in_path 5 ''u''
     (ten_path_table_create TEN_PATH_TABLE_ATTACH_TO_EXTENSION 10 0 :: unit path_table) (example_cmd ''1'' '''') None =
       Some (a, self', cmd') \<and>
     ten_path_table_process_cmd_result (\<lambda>_ _. None) (ten_extension_in_path_timer_on_triggered 15 self')
       TEN_PATH_IN (example_result ''1'' 0) =
       Some (False, None, ten_extension_in_path_timer_on_triggered 15 self')"
proof -
  obtain self' cmd' p where enter:
    "ten_path_table_add_in_path 5 ''u'' (ten_path_table_create TEN_PATH_TABLE_ATTACH_TO_EXTENSION 10 0)
       (example_cmd ''1'' '''') None = Some (0, self', cmd')"
    and p: "pt_reachable (\<lambda>_ _. None) self'" "pt_in_paths self' = [p :: unit ten_path]" "p_cmd_id p = ''1''"
      "p_expired_time_us p = 15"
    using example_enter [of "\<lambda>_ _. None"] by blast
  from in_timer_removes_expired [OF p(1), of 15 p "example_result ''1'' 0"] p enter show ?thesis
    by (simp add: Let_def)
qed

lemma error_step:
  assumes ok: "pt_ok self" and ids: "distinct (map p_cmd_id (pt_out_paths self))"
    and r: "cr_is_final r" "cr_status_code r \<noteq> TEN_STATUS_CODE_OK"
  shows "\<exists>proceed passed self'. ten_path_table_process_cmd_result convert self TEN_PATH_OUT r =
      Some (proceed, passed, self') \<and> pt_ok self' \<and> distinct (map p_cmd_id (pt_out_paths self')) \<and>
    (\<forall>p' \<in> set (pt_out_paths self').
       (p_cmd_id p' = cb_cmd_id r \<longrightarrow> p_has_received_final_cmd_result p') \<and>
       (\<exists>p \<in> set (pt_out_paths self). p_cmd_id p' = p_cmd_id p \<and>
          p_expired_time_us p' = p_expired_time_us p \<and>
          (p_has_received_final_cmd_result p \<longrightarrow> p_has_received_final_cmd_result p')))"
    (is "\<exists>proceed passed self'. ?run proceed passed self' \<and> pt_ok self' \<and>
      ?ids self' \<and> (\<forall>p' \<in> set (pt_out_paths self'). ?final p' \<and> ?from p')")
proof -
  obtain proceed passed self' where run: "?run proceed passed self'" and ok': "pt_ok self'"
    using process_returns [OF ok, of convert TEN_PATH_OUT r] by auto
  let ?good = "\<lambda>self'. ?ids self' \<and> (\<forall>p' \<in> set (pt_out_paths self'). ?final p' \<and> ?from p')"
  have sub: "?good self'" if "set (pt_out_paths self') \<subseteq> set (pt_out_paths self)"
    "distinct (map p_cmd_id (pt_out_paths self'))"
    "\<And>p. p \<in> set (pt_out_paths self') \<Longrightarrow> p_cmd_id p \<noteq> cb_cmd_id r"
    using that by blast
  have "?good self'"
  proof (cases "ten_path_table_find_path_from_cmd_id self TEN_PATH_OUT (cb_cmd_id r)")
    case None
    with run have "self' = self" by (simp add: process_unknown)
    with None ids show ?thesis by (intro sub) (auto simp: find_cmd_id_None image_iff)
  next
    case (Some path)
    note P = find_path_cmd_idD [OF Some, simplified]
    have uniq: "x = path" if "x \<in> set (pt_out_paths self)" "p_cmd_id x = cb_cmd_id r" for x
      using that P ids by (metis distinct_map inj_onD)
    show ?thesis
    proof (cases "p_group path")
      case None
      have "p_result_conversion path = None" using pt_okD(3) [OF ok] P by blast
      with run process_single [OF ok Some None, of convert] r(1)
      have "self' = self\<lparr>pt_out_paths := without (pt_out_paths self) path\<rparr>"
        by (simp add: conv_result_def)
      then show ?thesis
        using ids uniq by (intro sub) (auto simp: without_def distinct_map_filter)
    next
      fix g assume g: "p_group path = Some g"
      then obtain grp where grp: "pt_groups self g = Some grp" using pt_okD(5) [OF ok] P by blast
      have gp: "group_path self r path g grp" using ok Some g grp by (simp add: group_path_def)
      have dropped: "?good (drop_group self g)"
        using ids uniq g by (auto simp: drop_group_def distinct_map_filter)
      have "pg_policy grp \<noteq> TEN_RESULT_RETURN_POLICY_INVALID"
        using pt_okD(6) [OF ok grp] by (simp add: group_ok_def)
      then consider "pg_policy grp = TEN_RESULT_RETURN_POLICY_FIRST_ERROR_OR_LAST_OK"
        | "pg_policy grp = TEN_RESULT_RETURN_POLICY_EACH_OK_AND_ERROR"
        by (cases "pg_policy grp") auto
      then show ?thesis
      proof cases
        case 1
        with run process_first_error [OF gp _ r(2), of convert] dropped show ?thesis by simp
      next
        case 2
        let ?self = "self\<lparr>pt_out_paths := arrived self r path (p_cached_cmd_result path)\<rparr>"
        let ?new = "received (cr_is_final r) (p_cached_cmd_result path) path"
        note d = pt_okD(1) [OF ok]
        have "distinct (map p_cmd_id (pt_out_paths ?self))"
          using ids P by (simp add: cmd_ids_arrived [OF d])
        moreover have "?final p' \<and> ?from p'" if "p' \<in> set (pt_out_paths ?self)" for p'
        proof (cases "p' = ?new")
          case True
          have "?final p'" using r(1) unfolding True by simp
          moreover have "?from p'" using P unfolding True by (intro bexI [of _ path]) simp_all
          ultimately show ?thesis by blast
        next
          case False
          with that P have "p' \<in> set (pt_out_paths self)" "p' \<noteq> path"
            by (simp_all add: set_arrived [OF d])
          then show ?thesis using uniq by blast
        qed
        ultimately have "?good ?self" by blast
        with run process_each [OF gp 2, of convert] dropped show ?thesis
          by (auto simp: Let_def split: if_splits)
      qed
    qed
  qed
  with run ok' show ?thesis by blast
qed

lemma error_sequence:
  assumes "pt_reachable convert self" and "distinct (map p_cmd_id (pt_out_paths self))"
    and "\<forall>r \<in> set rs. cr_is_final r \<and> cr_status_code r \<noteq> TEN_STATUS_CODE_OK"
  shows "\<exists>outs self'. process_all convert self rs = Some (outs, self') \<and> pt_reachable convert self' \<and>
    (\<forall>p' \<in> set (pt_out_paths self').
       (p_cmd_id p' \<in> cb_cmd_id ` set rs \<longrightarrow> p_has_received_final_cmd_result p') \<and>
       (\<exists>p \<in> set (pt_out_paths self). p_cmd_id p' = p_cmd_id p \<and>
          p_expired_time_us p' = p_expired_time_us p \<and>
          (p_has_received_final_cmd_result p \<longrightarrow> p_has_received_final_cmd_result p')))"
  using assms
proof (induction rs arbitrary: self)
  case (Cons r rs)
  then obtain proceed passed self1 where
    one: "ten_path_table_process_cmd_result convert self TEN_PATH_OUT r = Some (proceed, passed, self1)"
      "distinct (map p_cmd_id (pt_out_paths self1))"
    and old: "\<forall>p' \<in> set (pt_out_paths self1).
       (p_cmd_id p' = cb_cmd_id r \<longrightarrow> p_has_received_final_cmd_result p') \<and>
       (\<exists>p \<in> set (pt_out_paths self). p_cmd_id p' = p_cmd_id p \<and>
          p_expired_time_us p' = p_expired_time_us p \<and>
          (p_has_received_final_cmd_result p \<longrightarrow> p_has_received_final_cmd_result p'))"
    using error_step [OF pt_reachable_ok [OF Cons.prems(1)] Cons.prems(2), of r convert] by auto
  have "pt_reachable convert self1"
    by (rule pt_reachable.stepped [OF Cons.prems(1) pt_step.result [OF one(1)]])
  from Cons.IH [OF this one(2)] Cons.prems(3) obtain outs self2 where
    rest: "process_all convert self1 rs = Some (outs, self2)" "pt_reachable convert self2"
    and new: "\<forall>p' \<in> set (pt_out_paths self2).
       (p_cmd_id p' \<in> cb_cmd_id ` set rs \<longrightarrow> p_has_received_final_cmd_result p') \<and>
       (\<exists>p \<in> set (pt_out_paths self1). p_cmd_id p' = p_cmd_id p \<and>
          p_expired_time_us p' = p_expired_time_us p \<and>
          (p_has_received_final_cmd_result p \<longrightarrow> p_has_received_final_cmd_result p'))"
    by auto
  have "(p_cmd_id p' \<in> cb_cmd_id ` set (r # rs) \<longrightarrow> p_has_received_final_cmd_result p') \<and>
       (\<exists>p \<in> set (pt_out_paths self). p_cmd_id p' = p_cmd_id p \<and>
          p_expired_time_us p' = p_expired_time_us p \<and>
          (p_has_received_final_cmd_result p \<longrightarrow> p_has_received_final_cmd_result p'))"
    if p': "p' \<in> set (pt_out_paths self2)" for p'
  proof -
    obtain q where q: "q \<in> set (pt_out_paths self1)" "p_cmd_id p' = p_cmd_id q"
      "p_expired_time_us p' = p_expired_time_us q"
      "p_has_received_final_cmd_result q \<longrightarrow> p_has_received_final_cmd_result p'"
      using new p' by blast
    moreover have "p_cmd_id p' \<in> cb_cmd_id ` set rs \<longrightarrow> p_has_received_final_cmd_result p'"
      using new p' by blast
    ultimately show ?thesis using old by fastforce
  qed
  with one(1) rest show ?case by auto
qed auto

text \<open>C36: When the timer of the OUT paths fires, the extension processes a final error for every path
  whose deadline has come. This always returns, and afterwards an expired path is either gone or,
  in a group that returns each result, has received a final result: no command waits for a
  destination beyond its deadline.\<close>

theorem out_timer_finishes_expired:
  assumes "pt_reachable convert self" and "distinct (map p_cmd_id (pt_out_paths self))"
  shows "\<exists>outs self'. process_all convert self (out_path_timeout_results now self) = Some (outs, self') \<and>
    pt_reachable convert self' \<and>
    (\<forall>p \<in> set (pt_out_paths self'). p_expired_time_us p \<le> now \<longrightarrow>
       p_has_received_final_cmd_result p \<and> p_group p \<noteq> None)"
proof -
  let ?rs = "out_path_timeout_results now self"
  have "\<forall>r \<in> set ?rs. cr_is_final r \<and> cr_status_code r \<noteq> TEN_STATUS_CODE_OK"
    by (auto simp: out_path_timeout_results_def ten_cmd_result_create_def ten_cmd_base_set_cmd_id_def)
  from error_sequence [OF assms this] obtain outs self' where
    run: "process_all convert self ?rs = Some (outs, self')" "pt_reachable convert self'"
    and after: "\<forall>p' \<in> set (pt_out_paths self').
       (p_cmd_id p' \<in> cb_cmd_id ` set ?rs \<longrightarrow> p_has_received_final_cmd_result p') \<and>
       (\<exists>p \<in> set (pt_out_paths self). p_cmd_id p' = p_cmd_id p \<and>
          p_expired_time_us p' = p_expired_time_us p \<and>
          (p_has_received_final_cmd_result p \<longrightarrow> p_has_received_final_cmd_result p'))"
    by blast
  have ids: "cb_cmd_id ` set ?rs = p_cmd_id ` {p \<in> set (pt_out_paths self). p_expired_time_us p \<le> now}"
    by (auto simp: out_path_timeout_results_def ten_cmd_base_set_cmd_id_def image_image)
  have "p_has_received_final_cmd_result p \<and> p_group p \<noteq> None"
    if p: "p \<in> set (pt_out_paths self')" "p_expired_time_us p \<le> now" for p
  proof -
    obtain q where "q \<in> set (pt_out_paths self)" "p_cmd_id p = p_cmd_id q" "p_expired_time_us p = p_expired_time_us q"
      using after p(1) by blast
    with p(2) have "p_cmd_id p \<in> cb_cmd_id ` set ?rs" unfolding ids by auto
    with after p(1) have "p_has_received_final_cmd_result p" by blast
    with p(1) pt_reachable_ok [OF run(2)] show ?thesis unfolding pt_ok_def by blast
  qed
  with run show ?thesis by blast
qed

theorem out_timer_finishes_expired_witness:
  "\<exists>outs self'. process_all (\<lambda>_ _. None) (example_table TEN_RESULT_RETURN_POLICY_EACH_OK_AND_ERROR)
     (out_path_timeout_results 120 (example_table TEN_RESULT_RETURN_POLICY_EACH_OK_AND_ERROR)) =
     Some (outs, self')"
  using out_timer_finishes_expired [OF example_reachable, of TEN_RESULT_RETURN_POLICY_EACH_OK_AND_ERROR
    "\<lambda>_ _. None" 120] by auto

end
