(* ===== verification/Ten_Frame.thy ===== *)
theory Ten_Frame
  imports Value_Access Value_Path
begin

text \<open>
  The formats of the picture and sound frames (\<open>ten_runtime/msg/video_frame\<close>, \<open>audio_frame\<close>): the
  fields beside the header and the data, their accessors, and the properties in the \<open>ten\<close>
  namespace of a message.

  Every field of a frame is a value of a fixed type in C; the records hold its content. The data is
  the buffer of the message in \<open>Ten_Msg\<close>.
\<close>

section \<open>Formats\<close>

datatype pixel_fmt =
    TEN_PIXEL_FMT_INVALID
  | TEN_PIXEL_FMT_RGB24
  | TEN_PIXEL_FMT_RGBA
  | TEN_PIXEL_FMT_BGR24
  | TEN_PIXEL_FMT_BGRA
  | TEN_PIXEL_FMT_I422
  | TEN_PIXEL_FMT_I420
  | TEN_PIXEL_FMT_NV21
  | TEN_PIXEL_FMT_NV12

fun ten_video_frame_pixel_fmt_to_string :: "pixel_fmt \<Rightarrow> string run" where
  "ten_video_frame_pixel_fmt_to_string TEN_PIXEL_FMT_RGB24 = Some ''rgb24''"
| "ten_video_frame_pixel_fmt_to_string TEN_PIXEL_FMT_RGBA = Some ''rgba''"
| "ten_video_frame_pixel_fmt_to_string TEN_PIXEL_FMT_BGR24 = Some ''bgr24''"
| "ten_video_frame_pixel_fmt_to_string TEN_PIXEL_FMT_BGRA = Some ''bgra''"
| "ten_video_frame_pixel_fmt_to_string TEN_PIXEL_FMT_I420 = Some ''i420''"
| "ten_video_frame_pixel_fmt_to_string TEN_PIXEL_FMT_I422 = Some ''i422''"
| "ten_video_frame_pixel_fmt_to_string TEN_PIXEL_FMT_NV21 = Some ''nv21''"
| "ten_video_frame_pixel_fmt_to_string TEN_PIXEL_FMT_NV12 = Some ''nv12''"
| "ten_video_frame_pixel_fmt_to_string TEN_PIXEL_FMT_INVALID = None"

definition ten_video_frame_pixel_fmt_from_string :: "string \<Rightarrow> pixel_fmt run" where
  "ten_video_frame_pixel_fmt_from_string s =
     (if s = ''rgb24'' then Some TEN_PIXEL_FMT_RGB24
      else if s = ''rgba'' then Some TEN_PIXEL_FMT_RGBA
      else if s = ''bgr24'' then Some TEN_PIXEL_FMT_BGR24
      else if s = ''bgra'' then Some TEN_PIXEL_FMT_BGRA
      else if s = ''i420'' then Some TEN_PIXEL_FMT_I420
      else if s = ''i422'' then Some TEN_PIXEL_FMT_I422
      else if s = ''nv21'' then Some TEN_PIXEL_FMT_NV21
      else if s = ''nv12'' then Some TEN_PIXEL_FMT_NV12
      else None)"

datatype data_fmt =
    TEN_AUDIO_FRAME_DATA_FMT_INVALID
  | TEN_AUDIO_FRAME_DATA_FMT_INTERLEAVE
  | TEN_AUDIO_FRAME_DATA_FMT_NON_INTERLEAVE

fun ten_audio_frame_data_fmt_to_string :: "data_fmt \<Rightarrow> string run" where
  "ten_audio_frame_data_fmt_to_string TEN_AUDIO_FRAME_DATA_FMT_INTERLEAVE = Some ''interleave''"
| "ten_audio_frame_data_fmt_to_string TEN_AUDIO_FRAME_DATA_FMT_NON_INTERLEAVE = Some ''non_interleave''"
| "ten_audio_frame_data_fmt_to_string TEN_AUDIO_FRAME_DATA_FMT_INVALID = None"

definition ten_audio_frame_data_fmt_from_string :: "string \<Rightarrow> data_fmt run" where
  "ten_audio_frame_data_fmt_from_string s =
     (if s = ''interleave'' then Some TEN_AUDIO_FRAME_DATA_FMT_INTERLEAVE
      else if s = ''non_interleave'' then Some TEN_AUDIO_FRAME_DATA_FMT_NON_INTERLEAVE
      else None)"

text \<open>The two formats as the numbers the values hold.\<close>

fun pixel_fmt_num :: "pixel_fmt \<Rightarrow> 32 word" where
  "pixel_fmt_num TEN_PIXEL_FMT_INVALID = 0"
| "pixel_fmt_num TEN_PIXEL_FMT_RGB24 = 1"
| "pixel_fmt_num TEN_PIXEL_FMT_RGBA = 2"
| "pixel_fmt_num TEN_PIXEL_FMT_BGR24 = 3"
| "pixel_fmt_num TEN_PIXEL_FMT_BGRA = 4"
| "pixel_fmt_num TEN_PIXEL_FMT_I422 = 5"
| "pixel_fmt_num TEN_PIXEL_FMT_I420 = 6"
| "pixel_fmt_num TEN_PIXEL_FMT_NV21 = 7"
| "pixel_fmt_num TEN_PIXEL_FMT_NV12 = 8"

fun data_fmt_num :: "data_fmt \<Rightarrow> 32 word" where
  "data_fmt_num TEN_AUDIO_FRAME_DATA_FMT_INVALID = 0"
| "data_fmt_num TEN_AUDIO_FRAME_DATA_FMT_INTERLEAVE = 1"
| "data_fmt_num TEN_AUDIO_FRAME_DATA_FMT_NON_INTERLEAVE = 2"

section \<open>Frames\<close>

record video_frame =
  vf_pixel_fmt :: pixel_fmt
  vf_timestamp :: "64 word"
  vf_width :: "32 word"
  vf_height :: "32 word"
  vf_is_eof :: bool

record audio_frame =
  af_timestamp :: "64 word"
  af_sample_rate :: "32 word"
  af_bytes_per_sample :: "32 word"
  af_samples_per_channel :: "32 word"
  af_number_of_channel :: "32 word"
  af_channel_layout :: "64 word"
  af_data_fmt :: data_fmt
  af_line_size :: "32 word"
  af_is_eof :: bool

definition ten_raw_video_frame_init :: video_frame where
  "ten_raw_video_frame_init =
     \<lparr>vf_pixel_fmt = TEN_PIXEL_FMT_RGBA, vf_timestamp = 0, vf_width = 0, vf_height = 0, vf_is_eof = False\<rparr>"

definition ten_raw_audio_frame_init :: audio_frame where
  "ten_raw_audio_frame_init =
     \<lparr>af_timestamp = 0, af_sample_rate = 0, af_bytes_per_sample = 0, af_samples_per_channel = 0,
      af_number_of_channel = 0, af_channel_layout = 0, af_data_fmt = TEN_AUDIO_FRAME_DATA_FMT_INTERLEAVE,
      af_line_size = 0, af_is_eof = False\<rparr>"

section \<open>The properties in the ten namespace\<close>

text \<open>
  Every item of the path is looked at; the last one that names a field decides the outcome. The
  error is shared by all items, so a failed item makes all later ones fail as well. A pixel format that
  is not a string dereferences a null pointer, an unknown one fails an assertion.
\<close>

definition set_video_field :: "string \<Rightarrow> ten_value \<Rightarrow> video_frame \<times> ten_error option \<times> bool \<Rightarrow>
  (video_frame \<times> ten_error option \<times> bool) run" where
  "set_video_field item v st =
     (case st of (self, err, success) \<Rightarrow>
        if item = ''pixel_fmt''
        then do { s \<leftarrow> ten_value_peek_raw_str v;
                  fmt \<leftarrow> ten_video_frame_pixel_fmt_from_string s;
                  Some (self\<lparr>vf_pixel_fmt := fmt\<rparr>, err, err = None) }
        else if item = ''timestamp''
        then (case ten_value_get_int64 v of (n, e) \<Rightarrow>
                let err = (if e = None then err else e) in Some (self\<lparr>vf_timestamp := n\<rparr>, err, err = None))
        else if item = ''width''
        then (case ten_value_get_int32 v of (n, e) \<Rightarrow>
                let err = (if e = None then err else e) in Some (self\<lparr>vf_width := n\<rparr>, err, err = None))
        else if item = ''height''
        then (case ten_value_get_int32 v of (n, e) \<Rightarrow>
                let err = (if e = None then err else e) in Some (self\<lparr>vf_height := n\<rparr>, err, err = None))
        else Some (self, err, success))"

fun ten_raw_video_frame_set_ten_property ::
  "path_item list \<Rightarrow> ten_value \<Rightarrow> video_frame \<times> ten_error option \<times> bool \<Rightarrow>
   (video_frame \<times> ten_error option \<times> bool) run" where
  "ten_raw_video_frame_set_ten_property [] v st = Some st"
| "ten_raw_video_frame_set_ten_property (OBJECT_ITEM item # paths) v st =
     do { st \<leftarrow> set_video_field item v st; ten_raw_video_frame_set_ten_property paths v st }"
| "ten_raw_video_frame_set_ten_property (ARRAY_ITEM i # paths) v st =
     ten_raw_video_frame_set_ten_property paths v st"

definition peek_video_field :: "video_frame \<Rightarrow> ten_buf \<Rightarrow> string \<Rightarrow> ten_value option" where
  "peek_video_field self data item =
     (if item = ''pixel_fmt'' then Some (V_int32 (pixel_fmt_num (vf_pixel_fmt self)))
      else if item = ''timestamp'' then Some (V_int64 (vf_timestamp self))
      else if item = ''width'' then Some (V_int32 (vf_width self))
      else if item = ''height'' then Some (V_int32 (vf_height self))
      else if item = ''is_eof'' then Some (V_bool (vf_is_eof self))
      else if item = ''data'' then Some (V_buf data)
      else None)"

definition peek_audio_field :: "audio_frame \<Rightarrow> string \<Rightarrow> ten_value option" where
  "peek_audio_field self item =
     (if item = ''bytes_per_sample'' then Some (V_int32 (af_bytes_per_sample self))
      else if item = ''timestamp'' then Some (V_int64 (af_timestamp self))
      else if item = ''channel_layout'' then Some (V_uint64 (af_channel_layout self))
      else if item = ''data_fmt'' then Some (V_int32 (data_fmt_num (af_data_fmt self)))
      else if item = ''is_eof'' then Some (V_bool (af_is_eof self))
      else if item = ''line_size'' then Some (V_int32 (af_line_size self))
      else if item = ''number_of_channel'' then Some (V_int32 (af_number_of_channel self))
      else if item = ''sample_rate'' then Some (V_int32 (af_sample_rate self))
      else if item = ''samples_per_channel'' then Some (V_int32 (af_samples_per_channel self))
      else None)"

fun last_field :: "(string \<Rightarrow> ten_value option) \<Rightarrow> path_item list \<Rightarrow> ten_value option \<Rightarrow> ten_value option" where
  "last_field f [] result = result"
| "last_field f (OBJECT_ITEM item # paths) result =
     last_field f paths (case f item of None \<Rightarrow> result | Some v \<Rightarrow> Some v)"
| "last_field f (ARRAY_ITEM i # paths) result = last_field f paths result"

definition ten_raw_video_frame_peek_ten_property :: "video_frame \<Rightarrow> ten_buf \<Rightarrow> path_item list \<Rightarrow> ten_value option" where
  "ten_raw_video_frame_peek_ten_property self data paths = last_field (peek_video_field self data) paths None"

definition ten_raw_audio_frame_peek_ten_property :: "audio_frame \<Rightarrow> path_item list \<Rightarrow> ten_value option" where
  "ten_raw_audio_frame_peek_ten_property self paths = last_field (peek_audio_field self) paths None"

text \<open>The names of the formats identify them.\<close>

lemma pixel_fmt_roundtrip: "f \<noteq> TEN_PIXEL_FMT_INVALID \<Longrightarrow>
    Option.bind (ten_video_frame_pixel_fmt_to_string f) ten_video_frame_pixel_fmt_from_string = Some f"
  by (cases f) (simp_all add: ten_video_frame_pixel_fmt_from_string_def)

lemma data_fmt_roundtrip: "f \<noteq> TEN_AUDIO_FRAME_DATA_FMT_INVALID \<Longrightarrow>
    Option.bind (ten_audio_frame_data_fmt_to_string f) ten_audio_frame_data_fmt_from_string = Some f"
  by (cases f) (simp_all add: ten_audio_frame_data_fmt_from_string_def)

end
