(* ===== verification/Ten_Msg.thy ===== *)
theory Ten_Msg
  imports Path_Table Value_Path Ten_Frame
begin

text \<open>
  Messages (\<open>ten_runtime/msg\<close>): commands, their results, and the data-like messages, with the header
  operations that routing uses, cloning and the completion of destinations.

  A message is one of three shapes; commands and results share the fields of \<open>ten_cmd_base_t\<close>, which
  \<open>Path_Table\<close> declares. The body of a start-graph command, the timer id of a timeout command, the sequence id and the
  timestamp of the header are not modelled, they take no part in routing.
\<close>

section \<open>Message types\<close>

datatype msg_type =
    TEN_MSG_TYPE_INVALID
  | TEN_MSG_TYPE_CMD
  | TEN_MSG_TYPE_CMD_RESULT
  | TEN_MSG_TYPE_CMD_CLOSE_APP
  | TEN_MSG_TYPE_CMD_START_GRAPH
  | TEN_MSG_TYPE_CMD_STOP_GRAPH
  | TEN_MSG_TYPE_CMD_TIMER
  | TEN_MSG_TYPE_CMD_TIMEOUT
  | TEN_MSG_TYPE_DATA
  | TEN_MSG_TYPE_VIDEO_FRAME
  | TEN_MSG_TYPE_AUDIO_FRAME

definition msg_types :: "msg_type list" where
  "msg_types =
     [TEN_MSG_TYPE_INVALID, TEN_MSG_TYPE_CMD, TEN_MSG_TYPE_CMD_RESULT, TEN_MSG_TYPE_CMD_CLOSE_APP,
      TEN_MSG_TYPE_CMD_START_GRAPH, TEN_MSG_TYPE_CMD_STOP_GRAPH, TEN_MSG_TYPE_CMD_TIMER,
      TEN_MSG_TYPE_CMD_TIMEOUT, TEN_MSG_TYPE_DATA, TEN_MSG_TYPE_VIDEO_FRAME, TEN_MSG_TYPE_AUDIO_FRAME]"

text \<open>
  The table of the types. Which function clones a type is only told by whether there is one, and
  the engine's handler by whether the engine handles the type.
\<close>

record msg_info =
  mi_msg_type_name :: "string option"
  mi_msg_unique_name :: "string option"
  mi_create_in_path :: bool
  mi_engine_handler :: bool
  mi_clone :: bool

fun ten_msg_info :: "msg_type \<Rightarrow> msg_info" where
  "ten_msg_info TEN_MSG_TYPE_INVALID = \<lparr>mi_msg_type_name = None, mi_msg_unique_name = None,
     mi_create_in_path = False, mi_engine_handler = False, mi_clone = False\<rparr>"
| "ten_msg_info TEN_MSG_TYPE_CMD = \<lparr>mi_msg_type_name = Some ''cmd'', mi_msg_unique_name = None,
     mi_create_in_path = True, mi_engine_handler = False, mi_clone = True\<rparr>"
| "ten_msg_info TEN_MSG_TYPE_CMD_STOP_GRAPH = \<lparr>mi_msg_type_name = Some ''stop_graph'',
     mi_msg_unique_name = Some ''ten:stop_graph'', mi_create_in_path = False, mi_engine_handler = True,
     mi_clone = False\<rparr>"
| "ten_msg_info TEN_MSG_TYPE_CMD_START_GRAPH = \<lparr>mi_msg_type_name = Some ''start_graph'',
     mi_msg_unique_name = Some ''ten:start_graph'', mi_create_in_path = True, mi_engine_handler = True,
     mi_clone = True\<rparr>"
| "ten_msg_info TEN_MSG_TYPE_CMD_RESULT = \<lparr>mi_msg_type_name = Some ''result'',
     mi_msg_unique_name = Some ''ten:result'', mi_create_in_path = False, mi_engine_handler = True,
     mi_clone = True\<rparr>"
| "ten_msg_info TEN_MSG_TYPE_CMD_CLOSE_APP = \<lparr>mi_msg_type_name = Some ''close_app'',
     mi_msg_unique_name = Some ''ten:close_app'', mi_create_in_path = False, mi_engine_handler = True,
     mi_clone = False\<rparr>"
| "ten_msg_info TEN_MSG_TYPE_CMD_TIMEOUT = \<lparr>mi_msg_type_name = Some ''timeout'',
     mi_msg_unique_name = Some ''ten:timeout'', mi_create_in_path = False, mi_engine_handler = False,
     mi_clone = False\<rparr>"
| "ten_msg_info TEN_MSG_TYPE_CMD_TIMER = \<lparr>mi_msg_type_name = Some ''timer'',
     mi_msg_unique_name = Some ''ten:timer'', mi_create_in_path = True, mi_engine_handler = True,
     mi_clone = False\<rparr>"
| "ten_msg_info TEN_MSG_TYPE_DATA = \<lparr>mi_msg_type_name = Some ''data'', mi_msg_unique_name = None,
     mi_create_in_path = False, mi_engine_handler = False, mi_clone = True\<rparr>"
| "ten_msg_info TEN_MSG_TYPE_AUDIO_FRAME = \<lparr>mi_msg_type_name = Some ''audio_frame'',
     mi_msg_unique_name = None, mi_create_in_path = False, mi_engine_handler = False, mi_clone = True\<rparr>"
| "ten_msg_info TEN_MSG_TYPE_VIDEO_FRAME = \<lparr>mi_msg_type_name = Some ''video_frame'',
     mi_msg_unique_name = None, mi_create_in_path = False, mi_engine_handler = False, mi_clone = True\<rparr>"

definition ten_msg_type_to_string :: "msg_type \<Rightarrow> string option" where
  "ten_msg_type_to_string type = mi_msg_type_name (ten_msg_info type)"

text \<open>A search that fails gives the invalid type.\<close>

definition found_type :: "msg_type option \<Rightarrow> msg_type" where
  "found_type r = (case r of None \<Rightarrow> TEN_MSG_TYPE_INVALID | Some t \<Rightarrow> t)"

definition ten_msg_type_from_type_string :: "string \<Rightarrow> msg_type" where
  "ten_msg_type_from_type_string type_str =
     found_type (find (\<lambda>t. mi_msg_type_name (ten_msg_info t) = Some type_str) msg_types)"

definition ten_msg_type_from_unique_name_string :: "string \<Rightarrow> msg_type" where
  "ten_msg_type_from_unique_name_string name_str =
     found_type (find (\<lambda>t. mi_msg_unique_name (ten_msg_info t) = Some name_str) msg_types)"

definition ten_msg_type_from_type_and_name_string :: "string option \<Rightarrow> string option \<Rightarrow> msg_type run" where
  "ten_msg_type_from_type_and_name_string type_str name_str =
     (let msg_type = (case type_str of
                        None \<Rightarrow> TEN_MSG_TYPE_CMD
                      | Some type_str \<Rightarrow> ten_msg_type_from_type_string type_str)
      in if msg_type = TEN_MSG_TYPE_CMD
         then (case name_str of
                 None \<Rightarrow> None
               | Some name_str \<Rightarrow>
                   (case find (\<lambda>t. mi_msg_unique_name (ten_msg_info t) = Some name_str) msg_types of
                      None \<Rightarrow> Some msg_type
                    | Some t \<Rightarrow> Some t))
         else Some msg_type)"

section \<open>Messages\<close>

text \<open>
  The body of a timer command is zero in every other command. A frame carries its format, a data
  message none.
\<close>

record cmd_timer =
  ct_timer_id :: "32 word"
  ct_timeout_us :: "64 word"
  ct_times :: "32 word"

record ten_cmd = cmd_base +
  tc_timer :: cmd_timer

datatype frame_format =
    No_format
  | Video_format video_frame
  | Audio_format audio_frame

record data_msg =
  dm_name :: string
  dm_src_loc :: ten_loc
  dm_dest_loc :: "ten_loc list"
  dm_properties :: ten_value
  dm_buf :: ten_buf
  dm_format :: frame_format

datatype ten_msg =
    M_cmd msg_type ten_cmd
  | M_result cmd_result
  | M_data msg_type data_msg

text \<open>The type of a command is one of the six command types, and of a data-like message of the three.\<close>

definition cmd_types :: "msg_type set" where
  "cmd_types = {TEN_MSG_TYPE_CMD, TEN_MSG_TYPE_CMD_CLOSE_APP, TEN_MSG_TYPE_CMD_START_GRAPH,
     TEN_MSG_TYPE_CMD_STOP_GRAPH, TEN_MSG_TYPE_CMD_TIMER, TEN_MSG_TYPE_CMD_TIMEOUT}"

definition data_types :: "msg_type set" where
  "data_types = {TEN_MSG_TYPE_DATA, TEN_MSG_TYPE_VIDEO_FRAME, TEN_MSG_TYPE_AUDIO_FRAME}"

fun msg_ok :: "ten_msg \<Rightarrow> bool" where
  "msg_ok (M_cmd t c) \<longleftrightarrow> t \<in> cmd_types \<and> cb_is_cmd c \<and> ten_value_is_object (cb_properties c)"
| "msg_ok (M_result r) \<longleftrightarrow> \<not> cb_is_cmd r \<and> ten_value_is_object (cb_properties r)"
| "msg_ok (M_data t d) \<longleftrightarrow> t \<in> data_types \<and> ten_value_is_object (dm_properties d)"

fun ten_msg_get_type :: "ten_msg \<Rightarrow> msg_type" where
  "ten_msg_get_type (M_cmd t _) = t"
| "ten_msg_get_type (M_result _) = TEN_MSG_TYPE_CMD_RESULT"
| "ten_msg_get_type (M_data t _) = t"

fun ten_raw_msg_is_cmd :: "msg_type \<Rightarrow> bool" where
  "ten_raw_msg_is_cmd TEN_MSG_TYPE_CMD_CLOSE_APP = True"
| "ten_raw_msg_is_cmd TEN_MSG_TYPE_CMD_STOP_GRAPH = True"
| "ten_raw_msg_is_cmd TEN_MSG_TYPE_CMD_START_GRAPH = True"
| "ten_raw_msg_is_cmd TEN_MSG_TYPE_CMD_TIMER = True"
| "ten_raw_msg_is_cmd TEN_MSG_TYPE_CMD_TIMEOUT = True"
| "ten_raw_msg_is_cmd TEN_MSG_TYPE_CMD = True"
| "ten_raw_msg_is_cmd _ = False"

definition ten_raw_msg_is_cmd_result :: "msg_type \<Rightarrow> bool" where
  "ten_raw_msg_is_cmd_result type \<longleftrightarrow> type = TEN_MSG_TYPE_CMD_RESULT"

definition ten_raw_msg_is_cmd_and_result :: "msg_type \<Rightarrow> bool" where
  "ten_raw_msg_is_cmd_and_result type \<longleftrightarrow> ten_raw_msg_is_cmd type \<or> type = TEN_MSG_TYPE_CMD_RESULT"

definition ten_msg_is_cmd :: "ten_msg \<Rightarrow> bool" where
  "ten_msg_is_cmd msg = ten_raw_msg_is_cmd (ten_msg_get_type msg)"

definition ten_msg_is_cmd_result :: "ten_msg \<Rightarrow> bool" where
  "ten_msg_is_cmd_result msg = ten_raw_msg_is_cmd_result (ten_msg_get_type msg)"

definition ten_msg_is_cmd_and_result :: "ten_msg \<Rightarrow> bool" where
  "ten_msg_is_cmd_and_result msg = ten_raw_msg_is_cmd_and_result (ten_msg_get_type msg)"

definition ten_msg_type_to_handle_when_closing :: "ten_msg \<Rightarrow> bool" where
  "ten_msg_type_to_handle_when_closing msg \<longleftrightarrow> ten_msg_get_type msg = TEN_MSG_TYPE_CMD_RESULT"

fun ten_msg_get_name :: "ten_msg \<Rightarrow> string" where
  "ten_msg_get_name (M_cmd _ c) = cb_name c"
| "ten_msg_get_name (M_result r) = cb_name r"
| "ten_msg_get_name (M_data _ d) = dm_name d"

fun ten_msg_get_src_loc :: "ten_msg \<Rightarrow> ten_loc" where
  "ten_msg_get_src_loc (M_cmd _ c) = cb_src_loc c"
| "ten_msg_get_src_loc (M_result r) = cb_src_loc r"
| "ten_msg_get_src_loc (M_data _ d) = dm_src_loc d"

fun ten_msg_get_dest :: "ten_msg \<Rightarrow> ten_loc list" where
  "ten_msg_get_dest (M_cmd _ c) = cb_dest_loc c"
| "ten_msg_get_dest (M_result r) = cb_dest_loc r"
| "ten_msg_get_dest (M_data _ d) = dm_dest_loc d"

fun msg_properties :: "ten_msg \<Rightarrow> ten_value" where
  "msg_properties (M_cmd _ c) = cb_properties c"
| "msg_properties (M_result r) = cb_properties r"
| "msg_properties (M_data _ d) = dm_properties d"

text \<open>The three fields of the header that change on the way.\<close>

fun set_src :: "ten_msg \<Rightarrow> ten_loc \<Rightarrow> ten_msg" where
  "set_src (M_cmd t c) loc = M_cmd t (c\<lparr>cb_src_loc := loc\<rparr>)"
| "set_src (M_result r) loc = M_result (r\<lparr>cb_src_loc := loc\<rparr>)"
| "set_src (M_data t d) loc = M_data t (d\<lparr>dm_src_loc := loc\<rparr>)"

fun set_dest :: "ten_msg \<Rightarrow> ten_loc list \<Rightarrow> ten_msg" where
  "set_dest (M_cmd t c) locs = M_cmd t (c\<lparr>cb_dest_loc := locs\<rparr>)"
| "set_dest (M_result r) locs = M_result (r\<lparr>cb_dest_loc := locs\<rparr>)"
| "set_dest (M_data t d) locs = M_data t (d\<lparr>dm_dest_loc := locs\<rparr>)"

fun set_properties :: "ten_msg \<Rightarrow> ten_value \<Rightarrow> ten_msg" where
  "set_properties (M_cmd t c) v = M_cmd t (c\<lparr>cb_properties := v\<rparr>)"
| "set_properties (M_result r) v = M_result (r\<lparr>cb_properties := v\<rparr>)"
| "set_properties (M_data t d) v = M_data t (d\<lparr>dm_properties := v\<rparr>)"

section \<open>Source and destination\<close>

definition ten_msg_set_src_to_loc :: "ten_msg \<Rightarrow> ten_loc \<Rightarrow> ten_msg" where
  "ten_msg_set_src_to_loc self loc = set_src self (ten_loc_set_from_loc (ten_msg_get_src_loc self) loc)"

definition ten_msg_set_src :: "ten_msg \<Rightarrow> string option \<Rightarrow> string option \<Rightarrow> string option \<Rightarrow> ten_msg" where
  "ten_msg_set_src self uri graph_id extension_name =
     set_src self (ten_loc_set (ten_msg_get_src_loc self) uri graph_id extension_name)"

definition ten_msg_src_is_empty :: "ten_msg \<Rightarrow> bool" where
  "ten_msg_src_is_empty self = ten_loc_is_empty (ten_msg_get_src_loc self)"

definition ten_msg_get_src_app_uri :: "ten_msg \<Rightarrow> string" where
  "ten_msg_get_src_app_uri self = loc_app_uri (ten_msg_get_src_loc self)"

definition ten_msg_get_src_graph_id :: "ten_msg \<Rightarrow> string" where
  "ten_msg_get_src_graph_id self = loc_graph_id (ten_msg_get_src_loc self)"

definition ten_msg_src_uri_is_empty :: "ten_msg \<Rightarrow> bool" where
  "ten_msg_src_uri_is_empty self \<longleftrightarrow> ten_msg_get_src_app_uri self = []"

definition ten_msg_src_graph_id_is_empty :: "ten_msg \<Rightarrow> bool" where
  "ten_msg_src_graph_id_is_empty self \<longleftrightarrow> ten_msg_get_src_graph_id self = []"

definition ten_msg_set_src_uri :: "ten_msg \<Rightarrow> string \<Rightarrow> ten_msg" where
  "ten_msg_set_src_uri self uri = set_src self ((ten_msg_get_src_loc self)\<lparr>loc_app_uri := uri\<rparr>)"

definition ten_msg_set_src_uri_if_empty :: "ten_msg \<Rightarrow> string \<Rightarrow> ten_msg" where
  "ten_msg_set_src_uri_if_empty self uri =
     (if ten_msg_src_uri_is_empty self then ten_msg_set_src_uri self uri else self)"

definition ten_msg_clear_dest :: "ten_msg \<Rightarrow> ten_msg" where
  "ten_msg_clear_dest self = set_dest self []"

definition ten_raw_msg_clear_and_set_dest ::
  "ten_msg \<Rightarrow> string option \<Rightarrow> string option \<Rightarrow> string option \<Rightarrow> ten_msg" where
  "ten_raw_msg_clear_and_set_dest self app_uri graph_id extension_name =
     set_dest self [ten_loc_create app_uri graph_id extension_name]"

definition ten_raw_msg_add_dest ::
  "ten_msg \<Rightarrow> string option \<Rightarrow> string option \<Rightarrow> string option \<Rightarrow> ten_msg" where
  "ten_raw_msg_add_dest self app_uri graph_id extension_name =
     set_dest self (ten_msg_get_dest self @ [ten_loc_create app_uri graph_id extension_name])"

definition ten_raw_msg_clear_and_set_dest_to_loc :: "ten_msg \<Rightarrow> ten_loc \<Rightarrow> ten_msg" where
  "ten_raw_msg_clear_and_set_dest_to_loc self loc =
     ten_raw_msg_clear_and_set_dest self (Some (loc_app_uri loc)) (Some (loc_graph_id loc))
       (Some (loc_extension_name loc))"

definition ten_msg_clear_and_set_dest_from_msg_src :: "ten_msg \<Rightarrow> ten_msg \<Rightarrow> ten_msg" where
  "ten_msg_clear_and_set_dest_from_msg_src self cmd =
     ten_raw_msg_clear_and_set_dest self (Some (loc_app_uri (ten_msg_get_src_loc cmd)))
       (Some (loc_graph_id (ten_msg_get_src_loc cmd))) (Some (loc_extension_name (ten_msg_get_src_loc cmd)))"

definition ten_msg_get_dest_cnt :: "ten_msg \<Rightarrow> nat" where
  "ten_msg_get_dest_cnt self = length (ten_msg_get_dest self)"

definition ten_msg_get_first_dest_loc :: "ten_msg \<Rightarrow> ten_loc run" where
  "ten_msg_get_first_dest_loc self =
     (case ten_msg_get_dest self of [] \<Rightarrow> None | loc # _ \<Rightarrow> Some loc)"

definition ten_raw_msg_get_first_dest_uri :: "ten_msg \<Rightarrow> string run" where
  "ten_raw_msg_get_first_dest_uri self =
     (case ten_msg_get_dest self of [loc] \<Rightarrow> Some (loc_app_uri loc) | _ \<Rightarrow> None)"

section \<open>Completing the destinations\<close>

text \<open>
  What a message needs to know of the engine it leaves from: its identity, the uri of its app, its
  graph id and the app's predefined graphs, of which a singleton one that runs points to its engine.
\<close>

record predefined_graph =
  pgi_name :: string
  pgi_singleton :: bool
  pgi_engine :: "nat option"

record ten_engine =
  en_addr :: nat
  en_app_uri :: string
  en_graph_id :: string
  en_predefined_graphs :: "predefined_graph list"

definition ten_predefined_graph_infos_get_by_name ::
  "predefined_graph list \<Rightarrow> string \<Rightarrow> predefined_graph option" where
  "ten_predefined_graph_infos_get_by_name infos name = find (\<lambda>info. pgi_name info = name) infos"

definition ten_predefined_graph_infos_get_singleton_by_name ::
  "predefined_graph list \<Rightarrow> string \<Rightarrow> predefined_graph option" where
  "ten_predefined_graph_infos_get_singleton_by_name infos graph_name =
     (case ten_predefined_graph_infos_get_by_name infos graph_name of
        None \<Rightarrow> None
      | Some result \<Rightarrow> if pgi_singleton result then Some result else None)"

definition ten_msg_set_src_to_engine :: "ten_msg \<Rightarrow> ten_engine \<Rightarrow> ten_msg" where
  "ten_msg_set_src_to_engine self engine =
     ten_msg_set_src self (Some (en_app_uri engine)) (Some (en_graph_id engine)) None"

definition ten_msg_set_src_engine_if_unspecified :: "ten_msg \<Rightarrow> ten_engine \<Rightarrow> ten_msg" where
  "ten_msg_set_src_engine_if_unspecified self engine =
     (if ten_msg_src_graph_id_is_empty self
      then set_src self ((ten_msg_get_src_loc self)\<lparr>loc_graph_id := en_graph_id engine\<rparr>)
      else self)"

definition ten_msg_clear_dest_graph_id :: "ten_loc list \<Rightarrow> ten_loc list" where
  "ten_msg_clear_dest_graph_id dests = map (\<lambda>loc. loc\<lparr>loc_graph_id := []\<rparr>) dests"

fun ten_msg_set_dest_engine_if_unspecified_or_predefined_graph_name ::
  "ten_engine \<Rightarrow> ten_loc list \<Rightarrow> ten_loc list run" where
  "ten_msg_set_dest_engine_if_unspecified_or_predefined_graph_name engine [] = Some []"
| "ten_msg_set_dest_engine_if_unspecified_or_predefined_graph_name engine (dest_loc # dests) =
     do { dest_loc \<leftarrow>
            (if loc_graph_id dest_loc = [] then Some (dest_loc\<lparr>loc_graph_id := en_graph_id engine\<rparr>)
             else case ten_predefined_graph_infos_get_singleton_by_name (en_predefined_graphs engine)
                         (loc_graph_id dest_loc) of
               None \<Rightarrow> Some dest_loc
             | Some g \<Rightarrow>
                 (case pgi_engine g of
                    None \<Rightarrow> Some dest_loc
                  | Some e \<Rightarrow>
                      do { ten_assert (en_addr engine = e);
                           Some (dest_loc\<lparr>loc_graph_id := en_graph_id engine\<rparr>) }));
          rest \<leftarrow> ten_msg_set_dest_engine_if_unspecified_or_predefined_graph_name engine dests;
          Some (dest_loc # rest) }"

text \<open>
  The loop visits the destinations in order; for each one that is in the local app it completes or
  clears the graph ids of all of them, also of those in other apps.
\<close>

fun correct_dest_loop :: "ten_engine \<Rightarrow> msg_type \<Rightarrow> nat list \<Rightarrow> ten_loc list \<Rightarrow> ten_loc list run" where
  "correct_dest_loop engine type [] dests = Some dests"
| "correct_dest_loop engine type (i # is) dests =
     (let dest_loc = dests ! i;
          is_local_app = (loc_app_uri dest_loc = en_app_uri engine \<or> loc_app_uri dest_loc = []);
          dests = (if loc_app_uri dest_loc \<noteq> en_app_uri engine \<and> loc_app_uri dest_loc = []
                   then dests[i := dest_loc\<lparr>loc_app_uri := en_app_uri engine\<rparr>] else dests)
      in do { dests \<leftarrow>
                (if is_local_app
                 then (if type = TEN_MSG_TYPE_CMD_START_GRAPH \<or> type = TEN_MSG_TYPE_CMD_CLOSE_APP
                       then Some (ten_msg_clear_dest_graph_id dests)
                       else ten_msg_set_dest_engine_if_unspecified_or_predefined_graph_name engine dests)
                 else Some dests);
              correct_dest_loop engine type is dests })"

definition ten_msg_correct_dest :: "ten_msg \<Rightarrow> ten_engine \<Rightarrow> ten_msg run" where
  "ten_msg_correct_dest msg engine =
     map_option (set_dest msg)
       (correct_dest_loop engine (ten_msg_get_type msg) [0..<length (ten_msg_get_dest msg)]
          (ten_msg_get_dest msg))"

section \<open>Cloning\<close>

text \<open>
  The copied fields are those of the field tables: type, name, source, destinations, properties and,
  for commands, the id and the result handler. The properties are merged into an empty object,
  unless the caller excludes them (\<open>skip\<close>), which is the only field callers exclude. A cloned command gets a fresh id and remembers the old one as its parent.
\<close>

definition ten_raw_msg_properties_copy :: "bool \<Rightarrow> ten_value \<Rightarrow> ten_value run" where
  "ten_raw_msg_properties_copy skip src =
     (if skip then Some (V_object []) else do { (rc, v) \<leftarrow> ten_value_object_merge_with_clone (V_object []) src; Some v })"

definition ten_raw_msg_dest_copy :: "ten_loc list \<Rightarrow> ten_loc list" where
  "ten_raw_msg_dest_copy src = map ten_loc_clone src"

definition ten_raw_cmd_custom_as_msg_clone :: "bool \<Rightarrow> ten_cmd \<Rightarrow> ten_cmd run" where
  "ten_raw_cmd_custom_as_msg_clone skip self =
     do { properties \<leftarrow> ten_raw_msg_properties_copy skip (cb_properties self);
          Some \<lparr>cb_is_cmd = cb_is_cmd self, cb_name = cb_name self, cb_cmd_id = cb_cmd_id self,
                cb_parent_cmd_id = [], cb_src_loc = ten_loc_copy ten_loc_init_empty (cb_src_loc self),
                cb_dest_loc = ten_raw_msg_dest_copy (cb_dest_loc self),
                cb_result_handler = cb_result_handler self,
                cb_result_handler_data = cb_result_handler_data self, cb_properties = properties,
                tc_timer = \<lparr>ct_timer_id = 0, ct_timeout_us = 0, ct_times = 0\<rparr>\<rparr> }"

definition ten_raw_cmd_result_as_msg_clone :: "bool \<Rightarrow> cmd_result \<Rightarrow> cmd_result run" where
  "ten_raw_cmd_result_as_msg_clone skip self =
     do { properties \<leftarrow> ten_raw_msg_properties_copy skip (cb_properties self);
          Some (self\<lparr>cb_parent_cmd_id := [],
                     cb_src_loc := ten_loc_copy ten_loc_init_empty (cb_src_loc self),
                     cb_dest_loc := ten_raw_msg_dest_copy (cb_dest_loc self),
                     cb_properties := properties\<rparr>) }"

text \<open>The data message copies the block whenever it has a size, the frames run the copy handler.\<close>

definition ten_raw_data_buf_copy :: "ten_buf \<Rightarrow> ten_buf run" where
  "ten_raw_data_buf_copy src_buf =
     (if buf_size src_buf \<noteq> 0 then ten_buf_init_with_copying_data (buf_data src_buf)
      else Some ten_buf_init_empty)"

definition ten_raw_data_as_msg_clone :: "bool \<Rightarrow> msg_type \<Rightarrow> data_msg \<Rightarrow> data_msg run" where
  "ten_raw_data_as_msg_clone skip type self =
     do { properties \<leftarrow> ten_raw_msg_properties_copy skip (dm_properties self);
          buf \<leftarrow> (if type = TEN_MSG_TYPE_DATA then ten_raw_data_buf_copy (dm_buf self)
                 else Some (ten_value_copy_buf (dm_buf self)));
          Some \<lparr>dm_name = dm_name self, dm_src_loc = ten_loc_copy ten_loc_init_empty (dm_src_loc self),
                dm_dest_loc = ten_raw_msg_dest_copy (dm_dest_loc self), dm_properties = properties,
                dm_buf = buf, dm_format = dm_format self\<rparr> }"

text \<open>No result means a null pointer: the type has no clone function.\<close>

definition ten_msg_clone :: "bool \<Rightarrow> string \<Rightarrow> ten_msg \<Rightarrow> ten_msg option run" where
  "ten_msg_clone skip uuid self =
     (if \<not> mi_clone (ten_msg_info (ten_msg_get_type self)) then Some None
      else case self of
        M_cmd t c \<Rightarrow>
          do { c \<leftarrow> ten_raw_cmd_custom_as_msg_clone skip c;
               Some (Some (M_cmd t (ten_cmd_base_gen_new_cmd_id_forcibly uuid
                             (ten_cmd_base_save_cmd_id_to_parent_cmd_id c)))) }
      | M_result r \<Rightarrow>
          do { r \<leftarrow> ten_raw_cmd_result_as_msg_clone skip r;
               Some (Some (M_result (ten_cmd_base_gen_new_cmd_id_forcibly uuid
                             (ten_cmd_base_save_cmd_id_to_parent_cmd_id r)))) }
      | M_data t d \<Rightarrow> do { d \<leftarrow> ten_raw_data_as_msg_clone skip t d; Some (Some (M_data t d)) })"

section \<open>Results\<close>

text \<open>The result of a command goes back to its source; the destination of the command sends it.\<close>

definition ten_cmd_result_create_from_cmd :: "int \<Rightarrow> 'a cmd_base_scheme \<Rightarrow> cmd_result run" where
  "ten_cmd_result_create_from_cmd status_code original_cmd =
     do { let cmd = ten_cmd_base_set_cmd_id (ten_cmd_result_create status_code) (cb_cmd_id original_cmd);
          cmd \<leftarrow> ten_cmd_result_set_original_cmd_name cmd (cb_name original_cmd);
          ten_assert (length (cb_dest_loc original_cmd) \<le> 1);
          let cmd = (case cb_dest_loc original_cmd of
                       [dest_loc] \<Rightarrow> cmd\<lparr>cb_src_loc := ten_loc_set_from_loc (cb_src_loc cmd) dest_loc\<rparr>
                     | _ \<Rightarrow> cmd);
          Some (ten_msg_clear_and_set_dest_to_loc cmd (cb_src_loc original_cmd)) }"

definition ten_cmd_result_set_final :: "cmd_result \<Rightarrow> bool \<Rightarrow> cmd_result" where
  "ten_cmd_result_set_final self is_final = self\<lparr>cr_is_final := is_final\<rparr>"

text \<open>Setting the property \<open>detail\<close>, which is a path of one item.\<close>

definition set_detail :: "cmd_result \<Rightarrow> string \<Rightarrow> cmd_result" where
  "set_detail self detail =
     self\<lparr>cb_properties := snd (ten_value_set_from_path_list_with_move (cb_properties self)
                               [OBJECT_ITEM ''detail''] (V_string detail))\<rparr>"

section \<open>Lemmas\<close>

lemma msg_fields [simp]:
  "ten_msg_get_type (set_src m loc) = ten_msg_get_type m"
  "ten_msg_get_type (set_dest m locs) = ten_msg_get_type m"
  "ten_msg_get_type (set_properties m v) = ten_msg_get_type m"
  "ten_msg_get_name (set_src m loc) = ten_msg_get_name m"
  "ten_msg_get_name (set_dest m locs) = ten_msg_get_name m"
  "ten_msg_get_name (set_properties m v) = ten_msg_get_name m"
  "ten_msg_get_src_loc (set_src m loc) = loc"
  "ten_msg_get_src_loc (set_dest m locs) = ten_msg_get_src_loc m"
  "ten_msg_get_src_loc (set_properties m v) = ten_msg_get_src_loc m"
  "ten_msg_get_dest (set_src m loc) = ten_msg_get_dest m"
  "ten_msg_get_dest (set_dest m locs) = locs"
  "ten_msg_get_dest (set_properties m v) = ten_msg_get_dest m"
  "msg_properties (set_src m loc) = msg_properties m"
  "msg_properties (set_dest m locs) = msg_properties m"
  "msg_properties (set_properties m v) = v"
  "set_dest (set_dest m locs) locs' = set_dest m locs'"
  "set_dest m (ten_msg_get_dest m) = m"
  by (cases m; simp)+

lemma raw_is_cmd_iff: "ten_raw_msg_is_cmd t \<longleftrightarrow> t \<in> cmd_types"
  by (cases t) (simp_all add: cmd_types_def)

lemma types_disjoint:
  "t \<in> cmd_types \<Longrightarrow> t \<notin> data_types" "t \<in> data_types \<Longrightarrow> t \<notin> cmd_types"
  "TEN_MSG_TYPE_CMD_RESULT \<notin> cmd_types" "TEN_MSG_TYPE_CMD_RESULT \<notin> data_types"
  "t \<in> cmd_types \<Longrightarrow> t \<noteq> TEN_MSG_TYPE_CMD_RESULT" "t \<in> data_types \<Longrightarrow> t \<noteq> TEN_MSG_TYPE_CMD_RESULT"
  by (cases t; simp add: cmd_types_def data_types_def)+

lemma msg_class:
  assumes "msg_ok m"
  shows "ten_msg_is_cmd m \<longleftrightarrow> (\<exists>t c. m = M_cmd t c)"
    and "ten_msg_is_cmd_result m \<longleftrightarrow> (\<exists>r. m = M_result r)"
    and "ten_msg_is_cmd_and_result m \<longleftrightarrow> (\<forall>t d. m \<noteq> M_data t d)"
  using assms by (cases m;
      simp add: ten_msg_is_cmd_def ten_msg_is_cmd_result_def ten_msg_is_cmd_and_result_def
        ten_raw_msg_is_cmd_result_def ten_raw_msg_is_cmd_and_result_def raw_is_cmd_iff types_disjoint)+

lemma msg_ok_fields [simp]:
  "msg_ok (set_src m loc) \<longleftrightarrow> msg_ok m"
  "msg_ok (set_dest m locs) \<longleftrightarrow> msg_ok m"
  by (cases m; simp)+

text \<open>The type names identify the types.\<close>

lemma msg_types_complete: "t \<in> set msg_types"
  by (cases t) (simp_all add: msg_types_def)

lemma msg_type_strings:
  "list_all (\<lambda>t. case ten_msg_type_to_string t of
     None \<Rightarrow> t = TEN_MSG_TYPE_INVALID | Some s \<Rightarrow> ten_msg_type_from_type_string s = t) msg_types"
  by code_simp

lemma msg_type_string_roundtrip:
  "ten_msg_type_to_string t = Some s \<Longrightarrow> ten_msg_type_from_type_string s = t"
  using msg_type_strings msg_types_complete [of t] by (auto simp: list_all_iff split: option.splits)

section \<open>What the completion of destinations does\<close>

definition is_local :: "ten_engine \<Rightarrow> ten_loc \<Rightarrow> bool" where
  "is_local engine loc \<longleftrightarrow> loc_app_uri loc = en_app_uri engine \<or> loc_app_uri loc = []"

definition fix_app :: "ten_engine \<Rightarrow> ten_loc \<Rightarrow> ten_loc" where
  "fix_app engine loc = (if loc_app_uri loc = [] then loc\<lparr>loc_app_uri := en_app_uri engine\<rparr> else loc)"

text \<open>The running engine of a singleton predefined graph of that name.\<close>

definition singleton_engine :: "ten_engine \<Rightarrow> string \<Rightarrow> nat option" where
  "singleton_engine engine name =
     Option.bind (ten_predefined_graph_infos_get_singleton_by_name (en_predefined_graphs engine) name) pgi_engine"

definition fix_graph :: "ten_engine \<Rightarrow> msg_type \<Rightarrow> ten_loc \<Rightarrow> ten_loc" where
  "fix_graph engine type loc =
     (if type = TEN_MSG_TYPE_CMD_START_GRAPH \<or> type = TEN_MSG_TYPE_CMD_CLOSE_APP then loc\<lparr>loc_graph_id := []\<rparr>
      else if loc_graph_id loc = [] \<or> singleton_engine engine (loc_graph_id loc) \<noteq> None
      then loc\<lparr>loc_graph_id := en_graph_id engine\<rparr> else loc)"

text \<open>
  The graphs the destinations name, and the engine's own id, do not name the singleton graph of
  another engine: the assertion of the code.
\<close>

definition graphs_known :: "ten_engine \<Rightarrow> ten_loc list \<Rightarrow> bool" where
  "graphs_known engine dests \<longleftrightarrow>
     (\<forall>g \<in> insert (en_graph_id engine) (loc_graph_id ` set dests).
        g = [] \<or> singleton_engine engine g \<in> {None, Some (en_addr engine)})"

lemma fix_simps [simp]:
  "is_local engine (fix_graph engine type loc) \<longleftrightarrow> is_local engine loc"
  "is_local engine (fix_app engine loc) \<longleftrightarrow> is_local engine loc"
  "fix_graph engine type (fix_graph engine type loc) = fix_graph engine type loc"
  "fix_app engine (fix_app engine loc) = fix_app engine loc"
  "fix_graph engine type (fix_app engine loc) = fix_app engine (fix_graph engine type loc)"
  by (auto simp: fix_graph_def fix_app_def is_local_def)

lemma fix_graph_known:
  "graphs_known engine dests \<Longrightarrow> d \<in> set dests \<Longrightarrow>
   loc_graph_id (fix_graph engine type d) = [] \<or>
   singleton_engine engine (loc_graph_id (fix_graph engine type d)) \<in> {None, Some (en_addr engine)}"
  by (auto simp: graphs_known_def fix_graph_def)

lemma graphs_known_map:
  "graphs_known engine dests \<Longrightarrow> graphs_known engine (map (fix_graph engine type) dests)"
  using fix_graph_known by (auto simp: graphs_known_def)

lemma set_dest_engine_eq:
  assumes "graphs_known engine dests"
    and "type \<noteq> TEN_MSG_TYPE_CMD_START_GRAPH" "type \<noteq> TEN_MSG_TYPE_CMD_CLOSE_APP"
  shows "ten_msg_set_dest_engine_if_unspecified_or_predefined_graph_name engine dests =
    Some (map (fix_graph engine type) dests)"
  using assms(1)
proof (induction dests)
  case (Cons d dests)
  then have "graphs_known engine dests" by (auto simp: graphs_known_def)
  with Cons show ?case
    using assms(2,3)
    by (auto simp: fix_graph_def singleton_engine_def graphs_known_def split: option.splits)
qed simp

text \<open>One visit: the graph ids of all destinations change, if the visited one is local.\<close>

lemma correct_dest_step:
  assumes "graphs_known engine dests" and "i < length dests"
  shows "correct_dest_loop engine type (i # is) dests =
    correct_dest_loop engine type is
      (if is_local engine (dests ! i)
       then map (fix_graph engine type) (dests[i := fix_app engine (dests ! i)]) else dests)"
proof -
  let ?dests = "if loc_app_uri (dests ! i) \<noteq> en_app_uri engine \<and> loc_app_uri (dests ! i) = []
    then dests[i := (dests ! i)\<lparr>loc_app_uri := en_app_uri engine\<rparr>] else dests"
  have "?dests = dests[i := fix_app engine (dests ! i)]"
    by (auto simp: fix_app_def list_update_same_conv assms(2))
      (metis (no_types, lifting) assms(2) ten_loc.surjective ten_loc.update_convs(1) list_update_id)
  moreover have "graphs_known engine (dests[i := fix_app engine (dests ! i)])"
  proof -
    have "map loc_graph_id (dests[i := fix_app engine (dests ! i)]) = map loc_graph_id dests"
      using assms(2) by (auto simp: map_update fix_app_def list_update_same_conv)
    then have "loc_graph_id ` set (dests[i := fix_app engine (dests ! i)]) = loc_graph_id ` set dests"
      by (metis image_set)
    with assms(1) show ?thesis by (auto simp: graphs_known_def)
  qed
  note known = set_dest_engine_eq [OF this, of type]
  ultimately have dests: "?dests = dests[i := fix_app engine (dests ! i)]" by blast
  show ?thesis
  proof (cases "is_local engine (dests ! i)")
    case False
    then have "fix_app engine (dests ! i) = dests ! i" by (simp add: is_local_def fix_app_def)
    with False show ?thesis by (simp add: Let_def is_local_def)
  next
    case True
    show ?thesis
    proof (cases "type = TEN_MSG_TYPE_CMD_START_GRAPH \<or> type = TEN_MSG_TYPE_CMD_CLOSE_APP")
      case start: True
      then have "ten_msg_clear_dest_graph_id = map (fix_graph engine type)"
        by (auto simp: ten_msg_clear_dest_graph_id_def fix_graph_def fun_eq_iff)
      with True start show ?thesis by (simp only: correct_dest_loop.simps Let_def is_local_def dests) simp
    next
      case False
      with True known show ?thesis by (simp only: correct_dest_loop.simps Let_def is_local_def dests) simp
    qed
  qed
qed

text \<open>The whole loop: a single local destination is enough to change the graph ids of all.\<close>

definition corrected :: "ten_engine \<Rightarrow> msg_type \<Rightarrow> ten_loc list \<Rightarrow> ten_loc list" where
  "corrected engine type dests =
     (if \<exists>d \<in> set dests. is_local engine d
      then map (fix_graph engine type \<circ> fix_app engine) dests else dests)"

lemma fix_app_not_local: "\<not> is_local engine d \<Longrightarrow> fix_app engine d = d"
  by (auto simp: is_local_def fix_app_def)

lemma fix_app_uri:
  "en_app_uri engine \<noteq> [] \<Longrightarrow> loc_app_uri (fix_app engine d) \<noteq> []"
  "loc_app_uri (fix_graph engine type d) = loc_app_uri d"
  by (auto simp: fix_app_def fix_graph_def)

lemma correct_dest_loop_eq:
  "graphs_known engine dests \<Longrightarrow> \<forall>i \<in> set ns. i < length dests \<Longrightarrow>
   correct_dest_loop engine type ns dests =
     Some (map (\<lambda>i. (if \<exists>j \<in> set ns. is_local engine (dests ! j) then fix_graph engine type else id)
                    ((if i \<in> set ns then fix_app engine else id) (dests ! i))) [0..<length dests])"
proof (induction ns arbitrary: dests)
  case Nil
  show ?case by (simp add: map_nth)
next
  case (Cons i ns)
  have i: "i < length dests" using Cons.prems by simp
  show ?case
  proof (cases "is_local engine (dests ! i)")
    case True
    let ?dests = "map (fix_graph engine type) (dests[i := fix_app engine (dests ! i)])"
    have nth: "?dests ! j = (if j = i then fix_app engine (fix_graph engine type (dests ! i))
        else fix_graph engine type (dests ! j))" if "j < length dests" for j
      using that by simp
    have "graphs_known engine (dests[i := fix_app engine (dests ! i)])"
    proof -
      have "map loc_graph_id (dests[i := fix_app engine (dests ! i)]) = map loc_graph_id dests"
        using i by (auto simp: map_update fix_app_def list_update_same_conv)
      then have "loc_graph_id ` set (dests[i := fix_app engine (dests ! i)]) = loc_graph_id ` set dests"
        by (metis image_set)
      with Cons.prems(1) show ?thesis by (simp add: graphs_known_def)
    qed
    then have "graphs_known engine ?dests" by (rule graphs_known_map)
    from Cons.IH [OF this] Cons.prems correct_dest_step [OF Cons.prems(1) i, of type ns] True
    have "correct_dest_loop engine type (i # ns) dests =
      Some (map (\<lambda>k. (if \<exists>j \<in> set ns. is_local engine (?dests ! j) then fix_graph engine type else id)
                    ((if k \<in> set ns then fix_app engine else id) (?dests ! k))) [0..<length dests])"
      by simp
    also have "\<dots> = Some (map (\<lambda>k. fix_graph engine type
          ((if k \<in> set (i # ns) then fix_app engine else id) (dests ! k))) [0..<length dests])"
      using i by (auto simp: nth)
    finally show ?thesis using True by auto
  next
    case False
    from Cons.IH [OF Cons.prems(1)] Cons.prems correct_dest_step [OF Cons.prems(1) i, of type ns] False
    show ?thesis by (auto simp: fix_app_not_local)
  qed
qed

lemma correct_dest_eq:
  assumes "graphs_known engine (ten_msg_get_dest msg)"
  shows "ten_msg_correct_dest msg engine =
    Some (set_dest msg (corrected engine (ten_msg_get_type msg) (ten_msg_get_dest msg)))"
proof -
  let ?dests = "ten_msg_get_dest msg"
  have any: "(\<exists>j \<in> set [0..<length ?dests]. is_local engine (?dests ! j)) \<longleftrightarrow> (\<exists>d \<in> set ?dests. is_local engine d)"
    by (auto simp: set_conv_nth)
  have "correct_dest_loop engine (ten_msg_get_type msg) [0..<length ?dests] ?dests =
      Some (corrected engine (ten_msg_get_type msg) ?dests)"
    unfolding correct_dest_loop_eq [OF assms, of "[0..<length ?dests]", simplified] any [simplified]
    by (auto simp: corrected_def fix_app_not_local intro!: nth_equalityI)
  then show ?thesis by (simp add: ten_msg_correct_dest_def)
qed

lemma corrected_idem: "corrected engine type (corrected engine type dests) = corrected engine type dests"
  by (auto simp: corrected_def)

lemma corrected_single:
  "corrected engine type [d] = [if is_local engine d then fix_graph engine type (fix_app engine d) else d]"
  by (simp add: corrected_def)



end
