(* ===== verification/Msg_Conversion.thy ===== *)
theory Msg_Conversion
  imports Ten_Msg
begin

text \<open>
  The properties of a message by path, with those in the \<open>ten\<close> namespace, and the message conversions
  of a graph (\<open>ten_runtime/msg_conversion\<close>), which build a new message from rules, one per property.

  The functions that read and write conversions as JSON mirror those on values and are not modelled.
\<close>

abbreviation (input) TEN_ERROR_CODE_INVALID_JSON :: int where "TEN_ERROR_CODE_INVALID_JSON \<equiv> 2"
abbreviation (input) TEN_ERROR_CODE_INVALID_GRAPH :: int where "TEN_ERROR_CODE_INVALID_GRAPH \<equiv> 5"
abbreviation (input) TEN_ERROR_CODE_TEN_IS_CLOSED :: int where "TEN_ERROR_CODE_TEN_IS_CLOSED \<equiv> 6"
abbreviation (input) TEN_ERROR_CODE_MSG_NOT_CONNECTED :: int where "TEN_ERROR_CODE_MSG_NOT_CONNECTED \<equiv> 7"

section \<open>Properties of a message\<close>

fun set_name :: "ten_msg \<Rightarrow> string \<Rightarrow> ten_msg" where
  "set_name (M_cmd t c) s = M_cmd t (c\<lparr>cb_name := s\<rparr>)"
| "set_name (M_result r) s = M_result (r\<lparr>cb_name := s\<rparr>)"
| "set_name (M_data t d) s = M_data t (d\<lparr>dm_name := s\<rparr>)"

definition set_name_item :: "ten_value \<Rightarrow> ten_msg \<Rightarrow> ten_msg \<times> bool" where
  "set_name_item v self = (case v of V_string s \<Rightarrow> (set_name self s, True) | _ \<Rightarrow> (self, False))"

text \<open>The loop of the custom command and of the data-like messages: only the name can be set.\<close>

fun set_name_loop :: "path_item list \<Rightarrow> ten_value \<Rightarrow> ten_msg \<times> bool \<Rightarrow> ten_msg \<times> bool" where
  "set_name_loop [] v st = st"
| "set_name_loop (OBJECT_ITEM item # paths) v (self, success) =
     set_name_loop paths v (if item = ''name'' then set_name_item v self else (self, success))"
| "set_name_loop (ARRAY_ITEM i # paths) v st = set_name_loop paths v st"

definition ten_raw_cmd_custom_set_ten_property :: "ten_msg \<Rightarrow> path_item list \<Rightarrow> ten_value \<Rightarrow> ten_msg \<times> bool" where
  "ten_raw_cmd_custom_set_ten_property self paths v = set_name_loop paths v (self, True)"

definition ten_raw_data_like_set_ten_property :: "ten_msg \<Rightarrow> path_item list \<Rightarrow> ten_value \<Rightarrow> ten_msg \<times> bool" where
  "ten_raw_data_like_set_ten_property self paths v = set_name_loop paths v (self, True)"

text \<open>The error is shared by all items of the path and by the caller.\<close>

definition set_timer_field ::
  "string \<Rightarrow> ten_value \<Rightarrow> ten_cmd \<times> ten_error option \<times> bool \<Rightarrow> ten_cmd \<times> ten_error option \<times> bool" where
  "set_timer_field item v st =
     (case st of (self, err, success) \<Rightarrow>
        if item = ''timer_id''
        then (case ten_value_get_uint32 v of (n, e) \<Rightarrow>
                let err = (if e = None then err else e)
                in (self\<lparr>tc_timer := (tc_timer self)\<lparr>ct_timer_id := n\<rparr>\<rparr>, err, err = None))
        else if item = ''timeout_us''
        then (case ten_value_get_uint64 v of (n, e) \<Rightarrow>
                let err = (if e = None then err else e)
                in (self\<lparr>tc_timer := (tc_timer self)\<lparr>ct_timeout_us := n\<rparr>\<rparr>, err, err = None))
        else if item = ''times''
        then (case ten_value_get_int32 v of (n, e) \<Rightarrow>
                let err = (if e = None then err else e)
                in (self\<lparr>tc_timer := (tc_timer self)\<lparr>ct_times := n\<rparr>\<rparr>, err, err = None))
        else if item = ''name''
        then (case v of V_string s \<Rightarrow> (self\<lparr>cb_name := s\<rparr>, err, True) | _ \<Rightarrow> (self, err, False))
        else (self, err, success))"

fun timer_loop :: "path_item list \<Rightarrow> ten_value \<Rightarrow> ten_cmd \<times> ten_error option \<times> bool \<Rightarrow>
  ten_cmd \<times> ten_error option \<times> bool" where
  "timer_loop [] v st = st"
| "timer_loop (OBJECT_ITEM item # paths) v st = timer_loop paths v (set_timer_field item v st)"
| "timer_loop (ARRAY_ITEM i # paths) v st = timer_loop paths v st"

definition ten_raw_cmd_timer_set_ten_property ::
  "ten_cmd \<Rightarrow> path_item list \<Rightarrow> ten_value \<Rightarrow> ten_error option \<Rightarrow> ten_cmd \<times> ten_error option \<times> bool" where
  "ten_raw_cmd_timer_set_ten_property self paths v err = timer_loop paths v (self, err, True)"

text \<open>The entry of the table of message types; a type without one succeeds and drops the value.\<close>

definition set_ten_property ::
  "ten_msg \<Rightarrow> path_item list \<Rightarrow> ten_value \<Rightarrow> ten_error option \<Rightarrow> (ten_msg \<times> ten_error option \<times> bool) run" where
  "set_ten_property self paths v err =
     (case self of
        M_cmd t c \<Rightarrow>
          if t = TEN_MSG_TYPE_CMD
          then (case ten_raw_cmd_custom_set_ten_property self paths v of (m, ok) \<Rightarrow> Some (m, err, ok))
          else if t = TEN_MSG_TYPE_CMD_TIMER
          then (case ten_raw_cmd_timer_set_ten_property c paths v err of (c, err, ok) \<Rightarrow> Some (M_cmd t c, err, ok))
          else Some (self, err, True)
      | M_result r \<Rightarrow> Some (self, err, True)
      | M_data t d \<Rightarrow>
          if t = TEN_MSG_TYPE_VIDEO_FRAME
          then (case dm_format d of
                  Video_format f \<Rightarrow>
                    do { (f, err, ok) \<leftarrow> ten_raw_video_frame_set_ten_property paths v (f, err, True);
                         Some (M_data t (d\<lparr>dm_format := Video_format f\<rparr>), err, ok) }
                | _ \<Rightarrow> None)
          else (case ten_raw_data_like_set_ten_property self paths v of (m, ok) \<Rightarrow> Some (m, err, ok)))"

definition peek_ten_property :: "ten_msg \<Rightarrow> path_item list \<Rightarrow> ten_value option run" where
  "peek_ten_property self paths =
     (case self of
        M_data t d \<Rightarrow>
          if t = TEN_MSG_TYPE_VIDEO_FRAME
          then (case dm_format d of
                  Video_format f \<Rightarrow> Some (ten_raw_video_frame_peek_ten_property f (dm_buf d) paths)
                | _ \<Rightarrow> None)
          else if t = TEN_MSG_TYPE_AUDIO_FRAME
          then (case dm_format d of
                  Audio_format f \<Rightarrow> Some (ten_raw_audio_frame_peek_ten_property f paths)
                | _ \<Rightarrow> None)
          else Some None
      | _ \<Rightarrow> Some None)"

text \<open>
  A path that cannot be parsed stores nothing and still succeeds. With an empty path the members of
  the value replace all properties, none when it is not an object.
\<close>

definition ten_raw_msg_set_property ::
  "ten_msg \<Rightarrow> string \<Rightarrow> ten_value \<Rightarrow> ten_error option \<Rightarrow> (ten_msg \<times> ten_error option \<times> bool) run" where
  "ten_raw_msg_set_property self path v err =
     (if path = []
      then Some (set_properties self (V_object (case ten_value_peek_object v of None \<Rightarrow> [] | Some kvs \<Rightarrow> kvs)), err, True)
      else do {
        ((rc, paths), _) \<leftarrow> ten_value_path_parse path;
        if \<not> rc then Some (self, err, True)
        else case paths of
          OBJECT_ITEM item # rest \<Rightarrow>
            if item = ''ten'' then set_ten_property self rest v err
            else (case ten_value_set_from_path_list_with_move (msg_properties self) paths v of
                    (ok, props) \<Rightarrow> Some (set_properties self props, err, ok))
        | _ \<Rightarrow>
            (case ten_value_set_from_path_list_with_move (msg_properties self) paths v of
               (ok, props) \<Rightarrow> Some (set_properties self props, err, ok)) })"

definition ten_raw_msg_peek_property :: "ten_msg \<Rightarrow> string \<Rightarrow> ten_value option run" where
  "ten_raw_msg_peek_property self path =
     (if path = [] then Some (Some (msg_properties self))
      else do {
        ((rc, paths), _) \<leftarrow> ten_value_path_parse path;
        if \<not> rc then Some None
        else case paths of
          OBJECT_ITEM item # rest \<Rightarrow>
            if item = ''ten'' then peek_ten_property self rest
            else map_option fst (ten_value_peek_from_path (msg_properties self) path)
        | _ \<Rightarrow> map_option fst (ten_value_peek_from_path (msg_properties self) path) })"

section \<open>Conversion rules\<close>

datatype conversion_mode =
    From_original string
  | Fixed_value ten_value

record conversion_rule =
  ru_property_path :: string
  ru_mode :: conversion_mode

record conversion_rules =
  rs_rules :: "conversion_rule list"
  rs_keep_original :: bool

text \<open>
  The only type of conversion works property by property. Its rules are a null pointer when it was
  built from a value without an array of rules.
\<close>

datatype msg_conversion = Per_property "conversion_rules option"

definition ten_msg_conversion_per_property_rule_from_original_convert ::
  "string \<Rightarrow> ten_msg \<Rightarrow> ten_msg \<Rightarrow> string \<Rightarrow> ten_error option \<Rightarrow> (ten_msg \<times> ten_error option \<times> bool) run" where
  "ten_msg_conversion_per_property_rule_from_original_convert original_path msg new_msg path err =
     do { msg_property \<leftarrow> ten_raw_msg_peek_property msg original_path;
          ten_raw_msg_set_property new_msg path
            (case msg_property of None \<Rightarrow> V_invalid | Some v \<Rightarrow> ten_value_clone v) err }"

definition ten_msg_conversion_per_property_rule_fixed_value_convert ::
  "ten_value \<Rightarrow> ten_msg \<Rightarrow> string \<Rightarrow> ten_error option \<Rightarrow> (ten_msg \<times> ten_error option \<times> bool) run" where
  "ten_msg_conversion_per_property_rule_fixed_value_convert v new_msg path err =
     ten_raw_msg_set_property new_msg path (ten_value_clone v) err"

definition ten_msg_conversion_per_property_rule_convert ::
  "conversion_rule \<Rightarrow> ten_msg \<Rightarrow> ten_msg \<Rightarrow> ten_error option \<Rightarrow> (ten_msg \<times> ten_error option \<times> bool) run" where
  "ten_msg_conversion_per_property_rule_convert self msg new_msg err =
     (case ru_mode self of
        From_original p \<Rightarrow>
          ten_msg_conversion_per_property_rule_from_original_convert p msg new_msg (ru_property_path self) err
      | Fixed_value v \<Rightarrow>
          ten_msg_conversion_per_property_rule_fixed_value_convert v new_msg (ru_property_path self) err)"

text \<open>The first rule that fails ends the conversion; no message is left then.\<close>

fun apply_rules ::
  "conversion_rule list \<Rightarrow> ten_msg \<Rightarrow> ten_msg \<Rightarrow> ten_error option \<Rightarrow> (ten_msg option \<times> ten_error option) run" where
  "apply_rules [] msg new_msg err = Some (Some new_msg, err)"
| "apply_rules (r # rs) msg new_msg err =
     do { (new_msg, err, ok) \<leftarrow> ten_msg_conversion_per_property_rule_convert r msg new_msg err;
          if ok then apply_rules rs msg new_msg err else Some (None, err) }"

definition ten_msg_conversion_per_property_rules_convert ::
  "string \<Rightarrow> conversion_rules \<Rightarrow> ten_msg \<Rightarrow> ten_error option \<Rightarrow> (ten_msg option \<times> ten_error option) run" where
  "ten_msg_conversion_per_property_rules_convert uuid self msg err =
     do { new_msg \<leftarrow> ten_msg_clone (\<not> rs_keep_original self) uuid msg;
          case new_msg of
            None \<Rightarrow> do { ten_assert (rs_rules self = []); Some (None, err) }
          | Some new_msg \<Rightarrow> apply_rules (rs_rules self) msg new_msg err }"

text \<open>The copy of a result keeps the id of the result.\<close>

definition ten_result_conversion_per_property_rules_convert ::
  "string \<Rightarrow> conversion_rules \<Rightarrow> cmd_result \<Rightarrow> ten_error option \<Rightarrow> (ten_msg option \<times> ten_error option) run" where
  "ten_result_conversion_per_property_rules_convert uuid self msg err =
     do { new_msg \<leftarrow> ten_msg_clone (\<not> rs_keep_original self) uuid (M_result msg);
          case new_msg of
            Some (M_result r) \<Rightarrow>
              apply_rules (rs_rules self) (M_result msg)
                (M_result (ten_cmd_base_set_cmd_id r (cb_cmd_id msg))) err
          | _ \<Rightarrow> None }"

definition ten_msg_conversion_per_property_convert ::
  "string \<Rightarrow> conversion_rules option \<Rightarrow> ten_msg \<Rightarrow> ten_error option \<Rightarrow> (ten_msg option \<times> ten_error option) run" where
  "ten_msg_conversion_per_property_convert uuid rules msg err =
     (case rules of
        None \<Rightarrow> None
      | Some rules \<Rightarrow>
          (case msg of
             M_result r \<Rightarrow> ten_result_conversion_per_property_rules_convert uuid rules r err
           | _ \<Rightarrow> ten_msg_conversion_per_property_rules_convert uuid rules msg err))"

fun ten_msg_conversion_convert ::
  "string \<Rightarrow> msg_conversion \<Rightarrow> ten_msg \<Rightarrow> ten_error option \<Rightarrow> (ten_msg option \<times> ten_error option) run" where
  "ten_msg_conversion_convert uuid (Per_property rules) msg err =
     ten_msg_conversion_per_property_convert uuid rules msg err"

section \<open>Conversions from values\<close>

text \<open>
  Formatting a string that is passed as the format itself, without arguments: a doubled percent sign
  becomes one, any other conversion has no argument to read.
\<close>

fun format_no_args :: "string \<Rightarrow> string run" where
  "format_no_args [] = Some []"
| "format_no_args (c # cs) =
     (if c \<noteq> CHR 0x25 then map_option ((#) c) (format_no_args cs)
      else case cs of
        [] \<Rightarrow> None
      | d # ds \<Rightarrow> if d = CHR 0x25 then map_option ((#) c) (format_no_args ds) else None)"

text \<open>A member that must be a string.\<close>

definition string_member :: "ten_value \<Rightarrow> string \<Rightarrow> string run" where
  "string_member v key = do { m \<leftarrow> ten_value_object_peek v key; m \<leftarrow> m; ten_value_peek_raw_str m }"

definition ten_msg_conversion_per_property_rule_fixed_value_from_value :: "ten_value \<Rightarrow> ten_value run" where
  "ten_msg_conversion_per_property_rule_fixed_value_from_value v =
     do { m \<leftarrow> ten_value_object_peek v ''value'';
          fixed_value \<leftarrow> m;
          ten_assert (ten_value_get_type fixed_value \<in>
            {TEN_TYPE_INT8, TEN_TYPE_INT16, TEN_TYPE_INT32, TEN_TYPE_INT64, TEN_TYPE_UINT8, TEN_TYPE_UINT16,
             TEN_TYPE_UINT32, TEN_TYPE_UINT64, TEN_TYPE_FLOAT32, TEN_TYPE_FLOAT64, TEN_TYPE_BOOL, TEN_TYPE_STRING});
          Some (ten_value_clone fixed_value) }"

definition ten_msg_conversion_per_property_rule_from_original_from_value :: "ten_value \<Rightarrow> string run" where
  "ten_msg_conversion_per_property_rule_from_original_from_value v =
     do { s \<leftarrow> string_member v ''original_path''; format_no_args s }"

definition ten_msg_conversion_per_property_rule_from_value :: "ten_value \<Rightarrow> conversion_rule run" where
  "ten_msg_conversion_per_property_rule_from_value v =
     do { path \<leftarrow> string_member v ''path'';
          mode \<leftarrow> string_member v ''conversion_mode'';
          if mode = ''fixed_value''
          then do { fixed \<leftarrow> ten_msg_conversion_per_property_rule_fixed_value_from_value v;
                    Some \<lparr>ru_property_path = path, ru_mode = Fixed_value fixed\<rparr> }
          else if mode = ''from_original''
          then do { p \<leftarrow> ten_msg_conversion_per_property_rule_from_original_from_value v;
                    Some \<lparr>ru_property_path = path, ru_mode = From_original p\<rparr> }
          else None }"

fun rules_from_values :: "ten_value list \<Rightarrow> conversion_rule list run" where
  "rules_from_values [] = Some []"
| "rules_from_values (v # vs) =
     do { r \<leftarrow> ten_msg_conversion_per_property_rule_from_value v;
          rs \<leftarrow> rules_from_values vs;
          Some (r # rs) }"

definition ten_msg_conversion_per_property_rules_from_value :: "ten_value option \<Rightarrow> conversion_rules option run" where
  "ten_msg_conversion_per_property_rules_from_value v =
     (case v of
        None \<Rightarrow> None
      | Some (V_array vs) \<Rightarrow>
          do { rs \<leftarrow> rules_from_values vs; Some (Some \<lparr>rs_rules = rs, rs_keep_original = False\<rparr>) }
      | Some _ \<Rightarrow> Some None)"

text \<open>Without rules a boolean \<open>keep_original\<close> is stored through a null pointer.\<close>

definition ten_msg_conversion_per_property_from_value :: "ten_value \<Rightarrow> msg_conversion option run" where
  "ten_msg_conversion_per_property_from_value v =
     (if \<not> ten_value_is_object v then Some None
      else do {
        rules_value \<leftarrow> ten_value_object_peek v ''rules'';
        rules \<leftarrow> ten_msg_conversion_per_property_rules_from_value rules_value;
        keep_original_value \<leftarrow> ten_value_object_peek v ''keep_original'';
        case keep_original_value of
          Some (V_bool b) \<Rightarrow>
            do { rules \<leftarrow> rules; Some (Some (Per_property (Some (rules\<lparr>rs_keep_original := b\<rparr>)))) }
        | _ \<Rightarrow> Some (Some (Per_property rules)) })"

text \<open>No error with a null result is \<open>Inl None\<close>.\<close>

definition conversion_error :: "string \<Rightarrow> ten_error option" where
  "conversion_error s = Some (ten_error_set ten_error_init TEN_ERROR_CODE_INVALID_JSON s)"

definition ten_msg_conversion_from_value :: "ten_value \<Rightarrow> (ten_error option + msg_conversion) run" where
  "ten_msg_conversion_from_value v =
     do { type_value \<leftarrow> ten_value_object_peek v ''type'';
          case type_value of
            None \<Rightarrow> Some (Inl (conversion_error ''operation_type is missing.''))
          | Some (V_string type_str) \<Rightarrow>
              if type_str = ''per_property''
              then map_option (\<lambda>c. case c of None \<Rightarrow> Inl None | Some c \<Rightarrow> Inr c)
                     (ten_msg_conversion_per_property_from_value v)
              else Some (Inl (conversion_error (''Unsupported operation type '' @ type_str)))
          | Some _ \<Rightarrow> Some (Inl (conversion_error ''operation_type is not a string.'')) }"

record msg_and_result_conversion =
  ma_msg :: msg_conversion
  ma_result :: "msg_conversion option"

definition ten_msg_and_result_conversion_from_value ::
  "ten_value \<Rightarrow> (ten_error option + msg_and_result_conversion) run" where
  "ten_msg_and_result_conversion_from_value v =
     do { msg \<leftarrow> ten_msg_conversion_from_value v;
          case msg of
            Inl e \<Rightarrow> Some (Inl e)
          | Inr msg \<Rightarrow>
              do { resp_value \<leftarrow> ten_value_object_peek v ''result'';
                   case resp_value of
                     None \<Rightarrow> Some (Inr \<lparr>ma_msg = msg, ma_result = None\<rparr>)
                   | Some resp_value \<Rightarrow>
                       do { result \<leftarrow> ten_msg_conversion_from_value resp_value;
                            case result of
                              Inl e \<Rightarrow> Some (Inl e)
                            | Inr result \<Rightarrow> Some (Inr \<lparr>ma_msg = msg, ma_result = Some result\<rparr>) } } }"

section \<open>Conversions to values\<close>

definition ten_msg_conversion_per_property_rule_to_value :: "conversion_rule \<Rightarrow> ten_value" where
  "ten_msg_conversion_per_property_rule_to_value self =
     (case ru_mode self of
        Fixed_value v \<Rightarrow>
          V_object [(''conversion_mode'', V_string ''fixed_value''), (''path'', V_string (ru_property_path self)),
                    (''value'', ten_value_clone v)]
      | From_original p \<Rightarrow>
          V_object [(''conversion_mode'', V_string ''from_original''), (''path'', V_string (ru_property_path self)),
                    (''original_path'', V_string p)])"

definition ten_msg_conversion_per_property_rules_to_value :: "conversion_rules \<Rightarrow> ten_value" where
  "ten_msg_conversion_per_property_rules_to_value self =
     V_array (map ten_msg_conversion_per_property_rule_to_value (rs_rules self))"

fun ten_msg_conversion_to_value :: "msg_conversion \<Rightarrow> ten_value run" where
  "ten_msg_conversion_to_value (Per_property rules) =
     do { rules \<leftarrow> rules;
          Some (V_object ([(''type'', V_string ''per_property'')] @
                          (if rs_keep_original rules then [(''keep_original'', V_bool True)] else []) @
                          [(''rules'', ten_msg_conversion_per_property_rules_to_value rules)])) }"

definition ten_msg_and_result_conversion_to_value :: "msg_and_result_conversion \<Rightarrow> ten_value run" where
  "ten_msg_and_result_conversion_to_value self =
     do { v \<leftarrow> ten_msg_conversion_to_value (ma_msg self);
          case ma_result self of
            None \<Rightarrow> Some v
          | Some result \<Rightarrow>
              do { result_value \<leftarrow> ten_msg_conversion_to_value result;
                   case v of V_object kvs \<Rightarrow> Some (V_object (kvs @ [(''result'', result_value)])) | _ \<Rightarrow> None } }"

section \<open>The conversions of an extension\<close>

record msg_conversion_context =
  mc_src_loc :: ten_loc
  mc_msg_name :: string
  mc_conversion :: "msg_and_result_conversion option"

definition ten_msg_conversion_is_equal :: "msg_conversion_context \<Rightarrow> msg_conversion_context \<Rightarrow> bool" where
  "ten_msg_conversion_is_equal a b \<longleftrightarrow>
     ten_loc_is_equal (mc_src_loc a) (mc_src_loc b) \<and> mc_msg_name a = mc_msg_name b"

definition ten_msg_conversion_context_merge ::
  "msg_conversion_context list \<Rightarrow> msg_conversion_context \<Rightarrow> ten_error + msg_conversion_context list" where
  "ten_msg_conversion_context_merge msg_conversions new_msg_conversion =
     (if list_ex (\<lambda>c. ten_msg_conversion_is_equal c new_msg_conversion) msg_conversions
      then Inl (ten_error_set ten_error_init TEN_ERROR_CODE_INVALID_GRAPH ''Duplicated message conversion.'')
      else Inr (msg_conversions @ [new_msg_conversion]))"

text \<open>The comparison writes the graph id of the message's source into a context without one.\<close>

definition ten_msg_conversion_can_match_msg ::
  "msg_conversion_context \<Rightarrow> ten_msg \<Rightarrow> bool \<times> msg_conversion_context" where
  "ten_msg_conversion_can_match_msg self msg =
     (let self = (if loc_graph_id (mc_src_loc self) = []
                  then self\<lparr>mc_src_loc := (mc_src_loc self)\<lparr>loc_graph_id := loc_graph_id (ten_msg_get_src_loc msg)\<rparr>\<rparr>
                  else self)
      in (ten_loc_is_equal (ten_msg_get_src_loc msg) (mc_src_loc self) \<and> mc_msg_name self = ten_msg_get_name msg, self))"

text \<open>The messages made so far, with the conversion of their results, the error and whether one failed.\<close>

fun convert_loop ::
  "(nat \<Rightarrow> string) \<Rightarrow> nat \<Rightarrow> ten_msg \<Rightarrow> msg_conversion_context list \<Rightarrow>
   (ten_msg \<times> msg_conversion option) list \<Rightarrow> ten_error option \<Rightarrow> bool \<Rightarrow>
   (msg_conversion_context list \<times> (ten_msg \<times> msg_conversion option) list \<times> ten_error option \<times> bool) run" where
  "convert_loop uuids i msg [] result err wrong = Some ([], result, err, wrong)"
| "convert_loop uuids i msg (c # cs) result err wrong =
     (case ten_msg_conversion_can_match_msg c msg of (matched, c) \<Rightarrow>
        do { (result, err, wrong) \<leftarrow>
               (case (matched, mc_conversion c) of
                  (True, Some conversion) \<Rightarrow>
                    do { (new_msg, err) \<leftarrow> ten_msg_conversion_convert (uuids i) (ma_msg conversion) msg err;
                         case new_msg of
                           Some new_msg \<Rightarrow> Some (result @ [(new_msg, ma_result conversion)], err, wrong)
                         | None \<Rightarrow> Some (result, err, True) }
                | _ \<Rightarrow> Some (result, err, wrong));
             (cs, rest) \<leftarrow> convert_loop uuids (Suc i) msg cs result err wrong;
             Some (c # cs, rest) })"

definition ten_extension_convert_msg ::
  "(nat \<Rightarrow> string) \<Rightarrow> msg_conversion_context list \<Rightarrow> ten_msg \<Rightarrow>
   (bool \<times> ten_error option \<times> msg_conversion_context list \<times> (ten_msg \<times> msg_conversion option) list) run" where
  "ten_extension_convert_msg uuids contexts msg =
     (if ten_msg_is_cmd_and_result msg \<and> ten_msg_get_type msg \<noteq> TEN_MSG_TYPE_CMD
      then Some (False, Some (ten_error_set ten_error_init TEN_ERROR_CODE_GENERIC ''Can not convert a builtin cmd.''),
                 contexts, [])
      else do {
        (contexts, result, err, wrong) \<leftarrow> convert_loop uuids 0 msg contexts [] None False;
        Some (\<not> wrong, err, contexts, if result = [] then [(msg, None)] else result) })"

section \<open>Lemmas\<close>

text \<open>
  A conversion that can be written and read back: it has rules, the fixed values are scalars and the
  original paths hold no percent sign.
\<close>

definition scalar :: "ten_value \<Rightarrow> bool" where
  "scalar v \<longleftrightarrow> ten_value_get_type v \<in>
     {TEN_TYPE_INT8, TEN_TYPE_INT16, TEN_TYPE_INT32, TEN_TYPE_INT64, TEN_TYPE_UINT8, TEN_TYPE_UINT16,
      TEN_TYPE_UINT32, TEN_TYPE_UINT64, TEN_TYPE_FLOAT32, TEN_TYPE_FLOAT64, TEN_TYPE_BOOL, TEN_TYPE_STRING}"

definition rule_ok :: "conversion_rule \<Rightarrow> bool" where
  "rule_ok r \<longleftrightarrow> (case ru_mode r of Fixed_value v \<Rightarrow> scalar v | From_original p \<Rightarrow> CHR 0x25 \<notin> set p)"

fun conversion_ok :: "msg_conversion \<Rightarrow> bool" where
  "conversion_ok (Per_property rules) \<longleftrightarrow>
     (case rules of None \<Rightarrow> False | Some rules \<Rightarrow> (\<forall>r \<in> set (rs_rules rules). rule_ok r))"

lemma format_no_args_plain: "CHR 0x25 \<notin> set s \<Longrightarrow> format_no_args s = Some s"
  by (induction s rule: format_no_args.induct) auto

lemma clone_scalar: "scalar v \<Longrightarrow> ten_value_clone v = v"
  by (cases v) (simp_all add: scalar_def)

lemma rule_value_roundtrip:
  "rule_ok r \<Longrightarrow>
   ten_msg_conversion_per_property_rule_from_value (ten_msg_conversion_per_property_rule_to_value r) = Some r"
  by (cases r; cases "ru_mode r")
    (auto simp: rule_ok_def clone_scalar format_no_args_plain string_member_def ten_value_object_peek_def
      ten_value_peek_raw_str_def ten_msg_conversion_per_property_rule_from_value_def scalar_def
      ten_msg_conversion_per_property_rule_to_value_def
      ten_msg_conversion_per_property_rule_from_original_from_value_def
      ten_msg_conversion_per_property_rule_fixed_value_from_value_def)

lemma rules_from_to:
  "\<forall>r \<in> set rs. rule_ok r \<Longrightarrow>
   rules_from_values (map ten_msg_conversion_per_property_rule_to_value rs) = Some rs"
  by (induction rs) (simp_all add: rule_value_roundtrip)

lemma conversion_value_roundtrip_one:
  assumes "conversion_ok c"
  shows "\<exists>kvs. ten_msg_conversion_to_value c = Some (V_object kvs) \<and> map_of kvs ''result'' = None \<and>
    (\<forall>more. map_of more ''type'' = None \<longrightarrow> map_of more ''rules'' = None \<longrightarrow> map_of more ''keep_original'' = None \<longrightarrow>
       ten_msg_conversion_from_value (V_object (kvs @ more)) = Some (Inr c))"
proof -
  obtain rs keep where c: "c = Per_property (Some \<lparr>rs_rules = rs, rs_keep_original = keep\<rparr>)"
    and rs: "\<forall>r \<in> set rs. rule_ok r"
    using assms by (cases c rule: ten_msg_conversion_to_value.cases)
      (auto split: option.splits, metis conversion_rules.surjective old.unit.exhaust)
  show ?thesis
    by (cases keep)
      (auto simp: c rules_from_to [OF rs] ten_msg_conversion_per_property_rules_to_value_def
        ten_msg_conversion_from_value_def ten_msg_conversion_per_property_from_value_def
        ten_msg_conversion_per_property_rules_from_value_def ten_value_object_peek_def map_add_def)
qed

lemma conversion_and_result_roundtrip:
  assumes "conversion_ok (ma_msg c)" and "\<forall>r \<in> set_option (ma_result c). conversion_ok r"
  shows "\<exists>v. ten_msg_and_result_conversion_to_value c = Some v \<and> ten_value_is_object v \<and>
    ten_msg_and_result_conversion_from_value v = Some (Inr c)"
proof -
  obtain kvs where to: "ten_msg_conversion_to_value (ma_msg c) = Some (V_object kvs)"
    and none: "map_of kvs ''result'' = None"
    and from_any: "\<And>more. map_of more ''type'' = None \<Longrightarrow> map_of more ''rules'' = None \<Longrightarrow>
      map_of more ''keep_original'' = None \<Longrightarrow>
      ten_msg_conversion_from_value (V_object (kvs @ more)) = Some (Inr (ma_msg c))"
    using conversion_value_roundtrip_one [OF assms(1)] by blast
  show ?thesis
  proof (cases "ma_result c")
    case None
    with to none from_any [of "[]"] show ?thesis
      by (cases c) (simp add: ten_msg_and_result_conversion_to_value_def
          ten_msg_and_result_conversion_from_value_def ten_value_object_peek_def)
  next
    case (Some r)
    with assms(2) obtain kvs' where r: "ten_msg_conversion_to_value r = Some (V_object kvs')"
      "ten_msg_conversion_from_value (V_object kvs') = Some (Inr r)"
      using conversion_value_roundtrip_one [of r] by (metis append_Nil2 map_of.simps(1) option.set_intros)
    show ?thesis
      using to none from_any [of "[(''result'', V_object kvs')]"] Some r
      by (cases c) (simp add: ten_msg_and_result_conversion_to_value_def
          ten_msg_and_result_conversion_from_value_def ten_value_object_peek_def map_add_def)
  qed
qed

text \<open>C24: A conversion, also of the result that may go with it, is read back from the value it is written
  to, provided that its fixed values are scalars and no original path holds a percent sign (the
  path is used as a format string when it is read).
\<close>

theorem conversion_value_roundtrip:
  assumes "conversion_ok (ma_msg c)" and "\<forall>r \<in> set_option (ma_result c). conversion_ok r"
  shows "\<exists>v. ten_msg_and_result_conversion_to_value c = Some v \<and>
    ten_msg_and_result_conversion_from_value v = Some (Inr c)"
  using conversion_and_result_roundtrip [OF assms] by blast

theorem conversion_value_roundtrip_witness:
  "\<exists>v. ten_msg_and_result_conversion_to_value
      \<lparr>ma_msg = Per_property (Some \<lparr>rs_rules = [\<lparr>ru_property_path = ''a'', ru_mode = From_original ''b''\<rparr>,
         \<lparr>ru_property_path = ''c'', ru_mode = Fixed_value (V_int8 1)\<rparr>], rs_keep_original = True\<rparr>),
       ma_result = None\<rparr> = Some v \<and> ten_value_is_object v"
proof -
  let ?c = "\<lparr>ma_msg = Per_property (Some \<lparr>rs_rules = [\<lparr>ru_property_path = ''a'', ru_mode = From_original ''b''\<rparr>,
         \<lparr>ru_property_path = ''c'', ru_mode = Fixed_value (V_int8 1)\<rparr>], rs_keep_original = True\<rparr>),
       ma_result = None\<rparr>"
  have "conversion_ok (ma_msg ?c)" by (simp add: rule_ok_def scalar_def)
  from conversion_value_roundtrip [OF this] obtain v where
    "ten_msg_and_result_conversion_to_value ?c = Some v"
    by auto
  then show ?thesis by (auto simp: ten_msg_and_result_conversion_to_value_def)
qed

section \<open>What a conversion computes\<close>

definition prop_of :: "ten_msg \<Rightarrow> string \<Rightarrow> ten_value option" where
  "prop_of m k = (case msg_properties m of V_object kvs \<Rightarrow> map_of kvs k | _ \<Rightarrow> None)"

text \<open>A path that names one property of the message itself.\<close>

definition flat_path :: "string \<Rightarrow> bool" where
  "flat_path p \<longleftrightarrow> segment_ok (p, []) \<and> p \<noteq> ''ten''"

definition flat_rule :: "conversion_rule \<Rightarrow> bool" where
  "flat_rule r \<longleftrightarrow> flat_path (ru_property_path r) \<and>
     (case ru_mode r of From_original p \<Rightarrow> flat_path p | Fixed_value v \<Rightarrow> True)"

definition rule_value :: "ten_msg \<Rightarrow> conversion_rule \<Rightarrow> ten_value" where
  "rule_value m r =
     (case ru_mode r of
        From_original p \<Rightarrow> (case prop_of m p of None \<Rightarrow> V_invalid | Some v \<Rightarrow> ten_value_clone v)
      | Fixed_value v \<Rightarrow> ten_value_clone v)"

lemma parse_flat:
  "flat_path p \<Longrightarrow> p \<noteq> [] \<and> ten_value_path_parse p = Some ((True, [OBJECT_ITEM p]), None)"
  using parse_render_path [of "[(p, [])]"]
  by (auto simp: flat_path_def segment_ok_def segment_items_def render_segment_def)

lemma peek_flat:
  assumes "flat_path p" "msg_properties m = V_object kvs"
  shows "ten_raw_msg_peek_property m p = Some (prop_of m p)"
  using parse_flat [OF assms(1)] assms
  by (auto simp: ten_raw_msg_peek_property_def ten_value_peek_from_path_def prop_of_def flat_path_def
      split: option.splits)

lemma set_flat:
  assumes "flat_path p" "msg_properties m = V_object kvs"
  shows "ten_raw_msg_set_property m p v err =
    Some (set_properties m (V_object (alist_update kvs p v)), err, True)"
  using parse_flat [OF assms(1)] assms
  by (auto simp: ten_raw_msg_set_property_def flat_path_def split: option.splits)

lemma rule_convert_flat:
  assumes "flat_rule r" "msg_properties m = V_object ms" "msg_properties n = V_object kvs"
  shows "ten_msg_conversion_per_property_rule_convert r m n err =
    Some (set_properties n (V_object (alist_update kvs (ru_property_path r) (rule_value m r))), err, True)"
  using assms set_flat [of "ru_property_path r" n kvs] peek_flat [of _ m ms]
  by (auto simp: flat_rule_def ten_msg_conversion_per_property_rule_convert_def rule_value_def
      ten_msg_conversion_per_property_rule_from_original_convert_def
      ten_msg_conversion_per_property_rule_fixed_value_convert_def split: conversion_mode.splits)

text \<open>Applying flat rules one after the other stores their values in this order.\<close>

lemma apply_flat_rules:
  assumes "\<forall>r \<in> set rs. flat_rule r" "msg_properties m = V_object ms" "msg_properties n = V_object kvs"
  shows "\<exists>kvs'. apply_rules rs m n err = Some (Some (set_properties n (V_object kvs')), err) \<and>
    map_of kvs' = map_of kvs ++ map_of (rev (map (\<lambda>r. (ru_property_path r, rule_value m r)) rs))"
  using assms
proof (induction rs arbitrary: n kvs)
  case Nil
  then have "set_properties n (V_object kvs) = n" by (cases n) auto
  with Nil show ?case by (intro exI [of _ kvs]) simp
next
  case (Cons r rs)
  let ?kvs = "alist_update kvs (ru_property_path r) (rule_value m r)"
  let ?n = "set_properties n (V_object ?kvs)"
  obtain kvs' where "apply_rules rs m ?n err = Some (Some (set_properties ?n (V_object kvs')), err)"
    "map_of kvs' = map_of ?kvs ++ map_of (rev (map (\<lambda>r. (ru_property_path r, rule_value m r)) rs))"
    using Cons.IH [of ?n ?kvs] Cons.prems(1,2) by (auto simp del: map_of_alist_update)
  moreover have "set_properties ?n (V_object kvs') = set_properties n (V_object kvs')" by (cases n) auto
  ultimately show ?case
    using rule_convert_flat [OF _ Cons.prems(2,3)] Cons.prems(1)
    by (intro exI [of _ kvs']) (auto simp: fun_eq_iff map_add_def split: option.splits)
qed

text \<open>A copy has the properties of the message, or none, and its header; commands get a new id.\<close>

definition copied_header :: "ten_msg \<Rightarrow> ten_msg \<Rightarrow> bool" where
  "copied_header m n \<longleftrightarrow>
     ten_msg_get_type n = ten_msg_get_type m \<and> ten_msg_get_name n = ten_msg_get_name m \<and>
     ten_msg_get_src_loc n = ten_msg_get_src_loc m \<and> ten_msg_get_dest n = ten_msg_get_dest m"

lemma copied_header_set_properties [simp]:
  "copied_header m (set_properties n v) \<longleftrightarrow> copied_header m n"
  by (simp add: copied_header_def)

lemma dest_copy_eq [simp]: "ten_raw_msg_dest_copy dests = dests"
  by (simp add: ten_raw_msg_dest_copy_def map_idI)

lemma properties_copy_eq:
  assumes "keys_ok (V_object kvs)"
  shows "\<exists>kvs'. ten_raw_msg_properties_copy skip (V_object kvs) = Some (V_object kvs') \<and>
    map_of kvs' = (\<lambda>k. if skip then None else map_option ten_value_clone (map_of kvs k))"
  using assms
  by (cases skip)
    (auto simp: ten_raw_msg_properties_copy_def ten_value_object_merge_with_clone_def keys_ok_object
      map_of_merge_clone fun_eq_iff split: option.splits)

fun cmd_id_of :: "ten_msg \<Rightarrow> string" where
  "cmd_id_of (M_cmd t c) = cb_cmd_id c"
| "cmd_id_of (M_result r) = cb_cmd_id r"
| "cmd_id_of (M_data t d) = []"

lemma msg_clone_eq:
  assumes "msg_ok m" "mi_clone (ten_msg_info (ten_msg_get_type m))"
    and "msg_properties m = V_object kvs" "keys_ok (V_object kvs)"
  shows "\<exists>n kvs'. ten_msg_clone skip uuid m = Some (Some n) \<and> msg_ok n \<and> copied_header m n \<and>
    msg_properties n = V_object kvs' \<and>
    map_of kvs' = (\<lambda>k. if skip then None else map_option ten_value_clone (map_of kvs k)) \<and>
    (\<forall>t c. m = M_cmd t c \<longrightarrow> (\<exists>c'. n = M_cmd t c' \<and> cb_cmd_id c' = uuid \<and> cb_parent_cmd_id c' = cb_cmd_id c)) \<and>
    (\<forall>r. m = M_result r \<longrightarrow> (\<exists>r'. n = M_result r'))"
proof -
  obtain kvs' where c: "ten_raw_msg_properties_copy skip (V_object kvs) = Some (V_object kvs')"
    "map_of kvs' = (\<lambda>k. if skip then None else map_option ten_value_clone (map_of kvs k))"
    using properties_copy_eq [OF assms(4)] by blast
  show ?thesis
  proof (cases m)
    case (M_cmd t x)
    then show ?thesis
      using assms c
      by (simp add: ten_msg_clone_def ten_raw_cmd_custom_as_msg_clone_def copied_header_def ten_cmd_base_gen_new_cmd_id_forcibly_def
          ten_cmd_base_save_cmd_id_to_parent_cmd_id_def)
  next
    case (M_result r)
    then show ?thesis
      using assms c
      by (simp add: ten_msg_clone_def ten_raw_cmd_result_as_msg_clone_def copied_header_def ten_cmd_base_gen_new_cmd_id_forcibly_def
          ten_cmd_base_save_cmd_id_to_parent_cmd_id_def)
  next
    case (M_data t d)
    have "\<exists>b. ten_raw_data_buf_copy (dm_buf d) = Some b"
      by (simp add: ten_raw_data_buf_copy_def ten_buf_init_with_copying_data_def buf_size_def)
    with M_data show ?thesis
      using assms c
      by (auto simp add: ten_msg_clone_def ten_raw_data_as_msg_clone_def copied_header_def)
  qed
qed

text \<open>What a conversion by rules on the message's own properties makes.\<close>

lemma msg_ok_set_object: "msg_ok m \<Longrightarrow> msg_ok (set_properties m (V_object kvs))"
  by (cases m) simp_all

lemma convert_flat:
  assumes "msg_ok m" "mi_clone (ten_msg_info (ten_msg_get_type m))" "keys_ok (msg_properties m)"
    and "\<forall>r \<in> set (rs_rules rules). flat_rule r"
  shows "\<exists>n. ten_msg_conversion_convert uuid (Per_property (Some rules)) m err = Some (Some n, err) \<and>
    copied_header m n \<and> msg_ok n \<and>
    (\<forall>k. prop_of n k =
       (case map_of (rev (map (\<lambda>r. (ru_property_path r, rule_value m r)) (rs_rules rules))) k of
          Some v \<Rightarrow> Some v
        | None \<Rightarrow> if rs_keep_original rules then map_option ten_value_clone (prop_of m k) else None)) \<and>
    (\<forall>r. m = M_result r \<longrightarrow> (\<exists>r'. n = M_result r' \<and> cb_cmd_id r' = cb_cmd_id r)) \<and>
    (\<forall>t c. m = M_cmd t c \<longrightarrow> (\<exists>c'. n = M_cmd t c' \<and> cb_cmd_id c' = uuid \<and> cb_parent_cmd_id c' = cb_cmd_id c))"
proof -
  obtain kvs where kvs: "msg_properties m = V_object kvs"
    using assms(1) by (cases m; cases "msg_properties m") auto
  obtain n0 kvs0 where n0: "ten_msg_clone (\<not> rs_keep_original rules) uuid m = Some (Some n0)" "copied_header m n0"
      "msg_ok n0"
      "msg_properties n0 = V_object kvs0"
      "map_of kvs0 = (\<lambda>k. if \<not> rs_keep_original rules then None else map_option ten_value_clone (map_of kvs k))"
    and cmd: "\<forall>t c. m = M_cmd t c \<longrightarrow> (\<exists>c'. n0 = M_cmd t c' \<and> cb_cmd_id c' = uuid \<and> cb_parent_cmd_id c' = cb_cmd_id c)"
    and res: "\<forall>r. m = M_result r \<longrightarrow> (\<exists>r'. n0 = M_result r')"
    using msg_clone_eq [OF assms(1,2) kvs, of "\<not> rs_keep_original rules" uuid] assms(3) kvs by fastforce
  define n1 where "n1 = (case (m, n0) of
      (M_result r, M_result r') \<Rightarrow> M_result (ten_cmd_base_set_cmd_id r' (cb_cmd_id r)) | _ \<Rightarrow> n0)"
  have n1: "copied_header m n1" "msg_properties n1 = V_object kvs0" "msg_ok n1"
    using n0(2-4) by (auto simp: n1_def copied_header_def ten_cmd_base_set_cmd_id_def split: ten_msg.splits)
  obtain kvs' where ap: "apply_rules (rs_rules rules) m n1 err = Some (Some (set_properties n1 (V_object kvs')), err)"
    "map_of kvs' = map_of kvs0 ++ map_of (rev (map (\<lambda>r. (ru_property_path r, rule_value m r)) (rs_rules rules)))"
    using apply_flat_rules [OF assms(4) kvs n1(2)] by blast
  have "ten_msg_conversion_convert uuid (Per_property (Some rules)) m err =
      Some (Some (set_properties n1 (V_object kvs')), err)"
  proof (cases m)
    case (M_result r)
    then show ?thesis
      using n0(1) res M_result ap(1)
      by (auto simp: ten_msg_conversion_per_property_convert_def n1_def
          ten_result_conversion_per_property_rules_convert_def)
  qed (use n0(1) ap(1) in \<open>simp_all add: ten_msg_conversion_per_property_convert_def n1_def
      ten_msg_conversion_per_property_rules_convert_def\<close>)
  moreover have "\<exists>r'. set_properties n1 (V_object kvs') = M_result r' \<and> cb_cmd_id r' = cb_cmd_id r" if "m = M_result r" for r
    using res that by (auto simp: n1_def ten_cmd_base_set_cmd_id_def)
  moreover have "\<exists>c'. set_properties n1 (V_object kvs') = M_cmd t c' \<and> cb_cmd_id c' = uuid \<and>
      cb_parent_cmd_id c' = cb_cmd_id c" if "m = M_cmd t c" for t c
    using cmd that by (auto simp: n1_def)
  ultimately show ?thesis
    using n1(1,3) ap(2) n0(5) kvs
    by (intro exI [of _ "set_properties n1 (V_object kvs')"])
      (auto simp: prop_of_def map_add_def msg_ok_set_object split: option.splits)
qed




end
