(* ===== verification/Graph_Info.thy ===== *)
theory Graph_Info
  imports Msg_Conversion
begin

text \<open>
  The description of a graph (\<open>extension/extension_info\<close>, \<open>extension/msg_dest_info\<close>,
  \<open>extension_group/extension_group_info\<close>): what a start-graph command carries about each extension and
  each group, and how it is looked up, copied, completed with locations, and written to and read from
  values.

  The destinations of an extension are weak pointers to the descriptions of other extensions in the
  same list; a pointer is the position in the list, which only grows at its end. The message
  conversions of an extension are separate objects that are freed with it, so they have an address.
\<close>

record dest_info =
  de_name :: string
  de_dest :: "nat list"

record graph_extension =
  gx_addon :: string
  gx_group :: string
  gx_loc :: ten_loc
  gx_cmd :: "dest_info list"
  gx_data :: "dest_info list"
  gx_video_frame :: "dest_info list"
  gx_audio_frame :: "dest_info list"
  gx_property :: ten_value
  gx_contexts :: "(nat \<times> msg_conversion_context) list"

record graph_group =
  gg_addon :: string
  gg_name :: string
  gg_loc :: ten_loc
  gg_property :: ten_value

definition ten_extension_info_create :: graph_extension where
  "ten_extension_info_create =
     \<lparr>gx_addon = [], gx_group = [], gx_loc = ten_loc_init_empty, gx_cmd = [], gx_data = [], gx_video_frame = [],
      gx_audio_frame = [], gx_property = V_object [], gx_contexts = []\<rparr>"

text \<open>The addresses of the conversions that destroying the description frees.\<close>

definition ten_extension_info_destroy :: "graph_extension \<Rightarrow> nat list" where
  "ten_extension_info_destroy self = map fst (gx_contexts self)"

text \<open>An error is set when the caller gave a place for it; otherwise an assertion fails.\<close>

definition graph_error :: "bool \<Rightarrow> string \<Rightarrow> (ten_error option + 'a) run" where
  "graph_error err s =
     (if err then Some (Inl (Some (ten_error_set ten_error_init TEN_ERROR_CODE_INVALID_GRAPH s))) else None)"

definition quoted :: "string \<Rightarrow> string" where
  "quoted s = [CHR 0x27] @ s @ [CHR 0x27]"

section \<open>Looking up an extension\<close>

definition same_or_null :: "string option \<Rightarrow> string \<Rightarrow> bool" where
  "same_or_null s t \<longleftrightarrow> s = None \<or> s = Some t"

definition ten_extension_info_is_specified_extension ::
  "graph_extension \<Rightarrow> string option \<Rightarrow> string option \<Rightarrow> string \<Rightarrow> bool" where
  "ten_extension_info_is_specified_extension self app_uri graph_id extension_name \<longleftrightarrow>
     same_or_null app_uri (loc_app_uri (gx_loc self)) \<and> same_or_null graph_id (loc_graph_id (gx_loc self)) \<and>
     loc_extension_name (gx_loc self) = extension_name"

definition find_extension ::
  "graph_extension list \<Rightarrow> string option \<Rightarrow> string option \<Rightarrow> string \<Rightarrow> nat option" where
  "find_extension infos app_uri graph_id name =
     find (\<lambda>i. ten_extension_info_is_specified_extension (infos ! i) app_uri graph_id name) [0..<length infos]"

text \<open>
  Finds a description or, when it must not exist yet, adds one. The name of the group is formatted
  into the new description, so a null pointer there is undefined behaviour.
\<close>

definition get_extension_info_in_extensions_info ::
  "graph_extension list \<Rightarrow> string option \<Rightarrow> string option \<Rightarrow> string option \<Rightarrow> string option \<Rightarrow> string option \<Rightarrow>
   bool \<Rightarrow> bool \<Rightarrow> (ten_error option + graph_extension list \<times> nat) run" where
  "get_extension_info_in_extensions_info infos app_uri graph_id group_name addon_name instance_name should_exist err =
     do { name \<leftarrow> instance_name;
          ten_assert (should_exist \<or> addon_name \<noteq> None);
          case find_extension infos app_uri graph_id name of
            Some i \<Rightarrow>
              if addon_name \<noteq> None \<and> addon_name \<noteq> Some [] \<and> addon_name \<noteq> Some (gx_addon (infos ! i))
              then graph_error err (''extension '' @ quoted name @ '' is associated with different addon '' @
                     quoted (the addon_name) @ '', '' @ quoted (gx_addon (infos ! i)))
              else if \<not> should_exist
              then graph_error err (''The extension_info is duplicated, extension : '' @ name)
              else Some (Inr (infos, i))
          | None \<Rightarrow>
              if should_exist then graph_error err (''The extension_info is not found, extension: '' @ name @ ''.'')
              else do { addon \<leftarrow> addon_name;
                        grp \<leftarrow> group_name;
                        Some (Inr (infos @ [ten_extension_info_create\<lparr>gx_addon := addon, gx_group := grp,
                                      gx_loc := ten_loc_set ten_loc_init_empty app_uri graph_id (Some name)\<rparr>],
                                   length infos)) } }"


section \<open>Copying\<close>

text \<open>The copies are made without an error of their own; each step is asserted to succeed.\<close>

definition expect :: "(ten_error option + 'a) run \<Rightarrow> 'a run" where
  "expect r = (case r of Some (Inr x) \<Rightarrow> Some x | _ \<Rightarrow> None)"

fun clone_dests :: "graph_extension list \<Rightarrow> graph_extension list \<Rightarrow> nat list \<Rightarrow> nat list run" where
  "clone_dests from extensions_info [] = Some []"
| "clone_dests from extensions_info (d # ds) =
     do { (_, i) \<leftarrow> expect (get_extension_info_in_extensions_info extensions_info
                 (Some (loc_app_uri (gx_loc (from ! d)))) (Some (loc_graph_id (gx_loc (from ! d))))
                 (Some (gx_group (from ! d))) None (Some (loc_extension_name (gx_loc (from ! d)))) True True);
          is \<leftarrow> clone_dests from extensions_info ds;
          Some (i # is) }"

definition ten_msg_dest_info_clone ::
  "graph_extension list \<Rightarrow> graph_extension list \<Rightarrow> dest_info \<Rightarrow> dest_info run" where
  "ten_msg_dest_info_clone from extensions_info self =
     map_option (\<lambda>is. \<lparr>de_name = de_name self, de_dest = is\<rparr>) (clone_dests from extensions_info (de_dest self))"

fun copy_msg_dest ::
  "graph_extension list \<Rightarrow> graph_extension list \<Rightarrow> dest_info list \<Rightarrow> dest_info list \<Rightarrow> dest_info list run" where
  "copy_msg_dest from extensions_info to_static_info [] = Some to_static_info"
| "copy_msg_dest from extensions_info to_static_info (x # xs) =
     do { x \<leftarrow> ten_msg_dest_info_clone from extensions_info x;
          copy_msg_dest from extensions_info (to_static_info @ [x]) xs }"

text \<open>The conversions are added to the copy as they are: the object itself, not a copy of it.\<close>

fun merge_contexts ::
  "(nat \<times> msg_conversion_context) list \<Rightarrow> (nat \<times> msg_conversion_context) list \<Rightarrow>
   (nat \<times> msg_conversion_context) list run" where
  "merge_contexts contexts [] = Some contexts"
| "merge_contexts contexts (c # cs) =
     (case ten_msg_conversion_context_merge (map snd contexts) (snd c) of
        Inl _ \<Rightarrow> None
      | Inr _ \<Rightarrow> merge_contexts (contexts @ [c]) cs)"

definition ten_extension_info_clone_except_dest ::
  "graph_extension list \<Rightarrow> graph_extension \<Rightarrow> graph_extension list run" where
  "ten_extension_info_clone_except_dest extensions_info self =
     do { (infos, i) \<leftarrow> expect (get_extension_info_in_extensions_info extensions_info
                 (Some (loc_app_uri (gx_loc self))) (Some (loc_graph_id (gx_loc self))) (Some (gx_group self))
                 (Some (gx_addon self)) (Some (loc_extension_name (gx_loc self))) False True);
          (_, property) \<leftarrow> ten_value_object_merge_with_clone (gx_property (infos ! i)) (gx_property self);
          contexts \<leftarrow> merge_contexts (gx_contexts (infos ! i)) (gx_contexts self);
          Some (infos[i := (infos ! i)\<lparr>gx_property := property, gx_contexts := contexts\<rparr>]) }"

definition ten_extension_info_clone_dest ::
  "graph_extension list \<Rightarrow> graph_extension list \<Rightarrow> graph_extension \<Rightarrow> graph_extension list run" where
  "ten_extension_info_clone_dest from extensions_info self =
     do { (infos, i) \<leftarrow> expect (get_extension_info_in_extensions_info extensions_info
                 (Some (loc_app_uri (gx_loc self))) (Some (loc_graph_id (gx_loc self))) (Some (gx_group self))
                 (Some (gx_addon self)) (Some (loc_extension_name (gx_loc self))) True True);
          cmd \<leftarrow> copy_msg_dest from infos (gx_cmd (infos ! i)) (gx_cmd self);
          data \<leftarrow> copy_msg_dest from infos (gx_data (infos ! i)) (gx_data self);
          audio_frame \<leftarrow> copy_msg_dest from infos (gx_audio_frame (infos ! i)) (gx_audio_frame self);
          video_frame \<leftarrow> copy_msg_dest from infos (gx_video_frame (infos ! i)) (gx_video_frame self);
          Some (infos[i := (infos ! i)\<lparr>gx_cmd := cmd, gx_data := data, gx_audio_frame := audio_frame,
                                       gx_video_frame := video_frame\<rparr>]) }"

fun clone_nodes :: "graph_extension list \<Rightarrow> graph_extension list \<Rightarrow> graph_extension list run" where
  "clone_nodes to [] = Some to"
| "clone_nodes to (x # xs) = do { to \<leftarrow> ten_extension_info_clone_except_dest to x; clone_nodes to xs }"

fun clone_connections ::
  "graph_extension list \<Rightarrow> graph_extension list \<Rightarrow> graph_extension list \<Rightarrow> graph_extension list run" where
  "clone_connections from to [] = Some to"
| "clone_connections from to (x # xs) =
     do { to \<leftarrow> ten_extension_info_clone_dest from to x; clone_connections from to xs }"

definition ten_extensions_info_clone :: "graph_extension list \<Rightarrow> graph_extension list \<Rightarrow> graph_extension list run" where
  "ten_extensions_info_clone from to = do { to \<leftarrow> clone_nodes to from; clone_connections from to from }"

section \<open>Completing locations\<close>

definition fill_context :: "(ten_loc \<Rightarrow> ten_loc) \<Rightarrow> nat \<times> msg_conversion_context \<Rightarrow> nat \<times> msg_conversion_context" where
  "fill_context f c = (fst c, (snd c)\<lparr>mc_src_loc := f (mc_src_loc (snd c))\<rparr>)"

definition or_app :: "string \<Rightarrow> ten_loc \<Rightarrow> ten_loc" where
  "or_app app_uri loc = (if loc_app_uri loc = [] then loc\<lparr>loc_app_uri := app_uri\<rparr> else loc)"

definition or_graph :: "string \<Rightarrow> ten_loc \<Rightarrow> ten_loc" where
  "or_graph graph_id loc = (if loc_graph_id loc = [] then loc\<lparr>loc_graph_id := graph_id\<rparr> else loc)"

definition ten_extension_info_fill_app_uri :: "string \<Rightarrow> graph_extension \<Rightarrow> graph_extension run" where
  "ten_extension_info_fill_app_uri app_uri self =
     do { ten_assert (\<not> ten_loc_is_empty (gx_loc self));
          Some (self\<lparr>gx_loc := or_app app_uri (gx_loc self),
                     gx_contexts := map (fill_context (or_app app_uri)) (gx_contexts self)\<rparr>) }"

definition ten_extensions_info_fill_app_uri :: "graph_extension list \<Rightarrow> string \<Rightarrow> graph_extension list run" where
  "ten_extensions_info_fill_app_uri infos app_uri = those (map (ten_extension_info_fill_app_uri app_uri) infos)"

text \<open>
  The uri of the app is used as a format string. The loop over the conversions completes their graph
  ids, and the uri of the extension once more instead of theirs.
\<close>

definition ten_extension_info_fill_loc_info :: "string \<Rightarrow> string \<Rightarrow> graph_extension \<Rightarrow> graph_extension run" where
  "ten_extension_info_fill_loc_info app_uri graph_id self =
     do { formatted \<leftarrow> (if loc_app_uri (gx_loc self) = [] then format_no_args app_uri else Some []);
          Some (self\<lparr>gx_loc := or_app formatted (or_graph graph_id (gx_loc self)),
                     gx_contexts := map (fill_context (or_graph graph_id)) (gx_contexts self)\<rparr>) }"

definition ten_extensions_info_fill_loc_info ::
  "graph_extension list \<Rightarrow> string \<Rightarrow> string \<Rightarrow> graph_extension list run" where
  "ten_extensions_info_fill_loc_info infos app_uri graph_id =
     do { infos \<leftarrow> those (map (ten_extension_info_fill_loc_info app_uri graph_id) infos);
          ten_assert (\<forall>self \<in> set infos. \<forall>info \<in> set (gx_cmd self). \<forall>d \<in> set (de_dest info).
            loc_app_uri (gx_loc (infos ! d)) \<noteq> ''localhost'' \<and> loc_graph_id (gx_loc (infos ! d)) \<noteq> []);
          Some infos }"

section \<open>Groups\<close>

definition ten_extension_group_info_create :: graph_group where
  "ten_extension_group_info_create =
     \<lparr>gg_addon = [], gg_name = [], gg_loc = ten_loc_init_empty, gg_property = V_object []\<rparr>"

definition ten_extension_group_info_is_specified_extension_group ::
  "graph_group \<Rightarrow> string option \<Rightarrow> string option \<Rightarrow> string \<Rightarrow> bool" where
  "ten_extension_group_info_is_specified_extension_group self app_uri graph_id name \<longleftrightarrow>
     same_or_null app_uri (loc_app_uri (gg_loc self)) \<and> same_or_null graph_id (loc_graph_id (gg_loc self)) \<and>
     gg_name self = name"

definition get_extension_group_info_in_extension_groups_info ::
  "graph_group list \<Rightarrow> string option \<Rightarrow> string option \<Rightarrow> string option \<Rightarrow> string option \<Rightarrow> bool \<Rightarrow>
   (ten_error option + graph_group list \<times> nat \<times> bool) run" where
  "get_extension_group_info_in_extension_groups_info infos app_uri graph_id addon_name instance_name err =
     do { name \<leftarrow> instance_name;
          ten_assert (name \<noteq> []);
          addon \<leftarrow> addon_name;
          case find (\<lambda>i. ten_extension_group_info_is_specified_extension_group (infos ! i) app_uri graph_id name)
                 [0..<length infos] of
            Some i \<Rightarrow>
              if addon \<noteq> [] \<and> gg_addon (infos ! i) \<noteq> [] \<and> gg_addon (infos ! i) \<noteq> addon
              then graph_error err (''extension group '' @ quoted name @ '' is associated with different addon '' @
                     quoted addon @ '', '' @ quoted (gg_addon (infos ! i)))
              else Some (Inr ((if addon \<noteq> [] \<and> gg_addon (infos ! i) = []
                               then infos[i := (infos ! i)\<lparr>gg_addon := addon\<rparr>] else infos), i, False))
          | None \<Rightarrow>
              Some (Inr (infos @ [ten_extension_group_info_create\<lparr>gg_name := name, gg_addon := addon,
                           gg_loc := ten_loc_set ten_loc_init_empty app_uri graph_id None\<rparr>], length infos, True)) }"

text \<open>The properties of the group are not copied.\<close>

definition ten_extension_group_info_clone :: "graph_group \<Rightarrow> graph_group list \<Rightarrow> graph_group list run" where
  "ten_extension_group_info_clone self infos =
     do { (infos, _) \<leftarrow> expect (get_extension_group_info_in_extension_groups_info infos
                 (Some (loc_app_uri (gg_loc self))) (Some (loc_graph_id (gg_loc self))) (Some (gg_addon self))
                 (Some (gg_name self)) False);
          Some infos }"

definition ten_extension_group_info_fill_app_uri :: "string \<Rightarrow> graph_group \<Rightarrow> graph_group run" where
  "ten_extension_group_info_fill_app_uri app_uri self =
     do { ten_assert (\<not> ten_loc_is_empty (gg_loc self)); Some (self\<lparr>gg_loc := or_app app_uri (gg_loc self)\<rparr>) }"

definition ten_extension_groups_info_fill_app_uri :: "graph_group list \<Rightarrow> string \<Rightarrow> graph_group list run" where
  "ten_extension_groups_info_fill_app_uri infos app_uri =
     those (map (ten_extension_group_info_fill_app_uri app_uri) infos)"

definition ten_extension_group_info_fill_graph_id :: "string \<Rightarrow> graph_group \<Rightarrow> graph_group" where
  "ten_extension_group_info_fill_graph_id graph_id self = self\<lparr>gg_loc := (gg_loc self)\<lparr>loc_graph_id := graph_id\<rparr>\<rparr>"

definition ten_extension_groups_info_fill_graph_id :: "graph_group list \<Rightarrow> string \<Rightarrow> graph_group list" where
  "ten_extension_groups_info_fill_graph_id infos graph_id =
     map (ten_extension_group_info_fill_graph_id graph_id) infos"

text \<open>Reading a group returns a null pointer also when it succeeds: only the groups are left of it.\<close>

definition ten_extension_group_info_from_value ::
  "ten_value \<Rightarrow> graph_group list \<Rightarrow> bool \<Rightarrow> graph_group list run" where
  "ten_extension_group_info_from_value v infos err =
     do { app_uri \<leftarrow> ten_value_object_peek_string v ''app'';
          graph_id \<leftarrow> ten_value_object_peek_string v ''graph'';
          addon_name \<leftarrow> ten_value_object_peek_string v ''addon'';
          instance_name \<leftarrow> ten_value_object_peek_string v ''name'';
          self \<leftarrow> get_extension_group_info_in_extension_groups_info infos app_uri graph_id addon_name instance_name err;
          case self of
            Inl _ \<Rightarrow> Some infos
          | Inr (infos, i, _) \<Rightarrow>
              do { props_value \<leftarrow> ten_value_object_peek v ''property'';
                   case props_value of
                     None \<Rightarrow> Some infos
                   | Some props_value \<Rightarrow>
                       do { ten_assert (ten_value_is_object props_value);
                            (_, property) \<leftarrow> ten_value_object_merge_with_clone (gg_property (infos ! i)) props_value;
                            Some (infos[i := (infos ! i)\<lparr>gg_property := property\<rparr>]) } } }"

end
