(* ===== verification/Graph_Value.thy ===== *)
theory Graph_Value
  imports Graph_Info
begin

text \<open>
  The description of a graph as values (\<open>extension_info/value.c\<close>, \<open>msg_dest_info/value.c\<close>, the field
  \<open>start_graph/field/extension_info.c\<close>): an array of nodes and an array of connections. A description that
  is written out and read back is the same one.
\<close>

section \<open>Writing\<close>

definition string_kv :: "string \<Rightarrow> string \<Rightarrow> string \<times> ten_value" where
  "string_kv key s = ten_value_kv_create key (V_string s)"

definition ten_extension_info_node_to_value :: "graph_extension \<Rightarrow> ten_value" where
  "ten_extension_info_node_to_value self =
     ten_value_init_object_with_move
       [string_kv ''type'' ''extension'', string_kv ''name'' (loc_extension_name (gx_loc self)),
        string_kv ''addon'' (gx_addon self), string_kv ''extension_group'' (gx_group self),
        string_kv ''graph'' (loc_graph_id (gx_loc self)), string_kv ''app'' (loc_app_uri (gx_loc self)),
        ten_value_kv_create ''property'' (gx_property self)]"

text \<open>At most one conversion of the destination is for messages of that name from the source.\<close>

fun conversion_kvs ::
  "ten_loc \<Rightarrow> string \<Rightarrow> bool \<Rightarrow> (nat \<times> msg_conversion_context) list \<Rightarrow> (string \<times> ten_value) list run" where
  "conversion_kvs src_loc name found [] = Some []"
| "conversion_kvs src_loc name found (c # cs) =
     (if ten_loc_is_equal src_loc (mc_src_loc (snd c)) \<and> mc_msg_name (snd c) = name
      then do { ten_assert (\<not> found);
                conversion \<leftarrow> mc_conversion (snd c);
                v \<leftarrow> ten_msg_and_result_conversion_to_value conversion;
                kvs \<leftarrow> conversion_kvs src_loc name True cs;
                Some (ten_value_kv_create ''msg_conversion'' v # kvs) }
      else conversion_kvs src_loc name found cs)"

definition dest_to_value :: "ten_loc \<Rightarrow> string \<Rightarrow> graph_extension \<Rightarrow> ten_value run" where
  "dest_to_value src_loc name extension_info =
     do { kvs \<leftarrow> conversion_kvs src_loc name False (gx_contexts extension_info);
          Some (ten_value_init_object_with_move
            ([string_kv ''app'' (loc_app_uri (gx_loc extension_info)), string_kv ''graph'' (loc_graph_id (gx_loc extension_info)),
              string_kv ''extension_group'' (gx_group extension_info),
              string_kv ''extension'' (loc_extension_name (gx_loc extension_info))] @ kvs)) }"

definition ten_msg_dest_info_to_value :: "graph_extension list \<Rightarrow> dest_info \<Rightarrow> graph_extension \<Rightarrow> ten_value run" where
  "ten_msg_dest_info_to_value infos self src_extension_info =
     do { dests \<leftarrow> those (map (\<lambda>d. dest_to_value (gx_loc src_extension_info) (de_name self) (infos ! d)) (de_dest self));
          Some (ten_value_init_object_with_move
            [string_kv ''name'' (de_name self), ten_value_kv_create ''dest'' (V_array dests)]) }"

definition pack_msg_dest :: "graph_extension list \<Rightarrow> graph_extension \<Rightarrow> dest_info list \<Rightarrow> ten_value run" where
  "pack_msg_dest infos self msg_dests =
     map_option V_array (those (map (\<lambda>x. ten_msg_dest_info_to_value infos x self) msg_dests))"

definition pack_kv ::
  "graph_extension list \<Rightarrow> graph_extension \<Rightarrow> string \<Rightarrow> dest_info list \<Rightarrow> (string \<times> ten_value) list run" where
  "pack_kv infos self key msg_dests =
     (if msg_dests = [] then Some []
      else map_option (\<lambda>v. [ten_value_kv_create key v]) (pack_msg_dest infos self msg_dests))"

text \<open>No value is a null pointer: an extension without destinations and conversions has no connection.\<close>

definition ten_extension_info_connection_to_value ::
  "graph_extension list \<Rightarrow> graph_extension \<Rightarrow> ten_value option run" where
  "ten_extension_info_connection_to_value infos self =
     (if gx_cmd self = [] \<and> gx_data self = [] \<and> gx_video_frame self = [] \<and> gx_audio_frame self = [] \<and>
         gx_contexts self = [] then Some None
      else do { cmd \<leftarrow> pack_kv infos self ''cmd'' (gx_cmd self);
                data \<leftarrow> pack_kv infos self ''data'' (gx_data self);
                video_frame \<leftarrow> pack_kv infos self ''video_frame'' (gx_video_frame self);
                audio_frame \<leftarrow> pack_kv infos self ''audio_frame'' (gx_audio_frame self);
                Some (Some (ten_value_init_object_with_move
                  ([string_kv ''app'' (loc_app_uri (gx_loc self)), string_kv ''graph'' (loc_graph_id (gx_loc self)),
                    string_kv ''extension_group'' (gx_group self), string_kv ''extension'' (loc_extension_name (gx_loc self))] @
                   cmd @ data @ video_frame @ audio_frame))) })"

text \<open>The nodes are compared by the text of their locations.\<close>

fun nodes_to_values :: "string list \<Rightarrow> graph_extension list \<Rightarrow> ten_error + ten_value list" where
  "nodes_to_values unique_extension_list [] = Inr []"
| "nodes_to_values unique_extension_list (x # xs) =
     (let loc_str = ten_loc_to_string (gx_loc x)
      in if loc_str \<in> set unique_extension_list
         then Inl (ten_error_set ten_error_init TEN_ERROR_CODE_GENERIC (''Extension '' @ loc_str @ '' is duplicated.''))
         else map_sum id (\<lambda>vs. ten_extension_info_node_to_value x # vs)
                (nodes_to_values (unique_extension_list @ [loc_str]) xs))"

definition ten_cmd_start_graph_extensions_info_to_value ::
  "graph_extension list \<Rightarrow> (ten_error + ten_value) run" where
  "ten_cmd_start_graph_extensions_info_to_value infos =
     (case nodes_to_values [] infos of
        Inl e \<Rightarrow> Some (Inl e)
      | Inr nodes \<Rightarrow>
          do { connections \<leftarrow> those (map (ten_extension_info_connection_to_value infos) infos);
               Some (Inr (ten_value_init_object_with_move
                 [ten_value_kv_create ''nodes'' (V_array nodes),
                  ten_value_kv_create ''connections'' (V_array (List.map_filter id connections))])) })"

section \<open>Reading\<close>

text \<open>The state of reading connections: the next free address and the descriptions.\<close>

type_synonym reading = "nat \<times> graph_extension list"

definition ten_extension_info_node_from_value ::
  "ten_value \<Rightarrow> graph_extension list \<Rightarrow> bool \<Rightarrow> (ten_error option + graph_extension list) run" where
  "ten_extension_info_node_from_value v infos err =
     do { app_uri \<leftarrow> ten_value_object_peek_string v ''app'';
          graph_id \<leftarrow> ten_value_object_peek_string v ''graph'';
          group_name \<leftarrow> ten_value_object_peek_string v ''extension_group'';
          addon_name \<leftarrow> ten_value_object_peek_string v ''addon'';
          instance_name \<leftarrow> ten_value_object_peek_string v ''name'';
          self \<leftarrow> get_extension_info_in_extensions_info infos app_uri graph_id group_name addon_name instance_name
                   False err;
          case self of
            Inl e \<Rightarrow> Some (Inl e)
          | Inr (infos, i) \<Rightarrow>
              do { props_value \<leftarrow> ten_value_object_peek v ''property'';
                   case props_value of
                     None \<Rightarrow> Some (Inr infos)
                   | Some props_value \<Rightarrow>
                       if \<not> ten_value_is_object props_value
                       then (if err then Some (Inl (Some (ten_error_set ten_error_init TEN_ERROR_CODE_GENERIC
                               ''The `property` in graph node should be an object.''))) else None)
                       else do { (_, property) \<leftarrow> ten_value_object_merge_with_clone (gx_property (infos ! i)) props_value;
                                 Some (Inr (infos[i := (infos ! i)\<lparr>gx_property := property\<rparr>])) } } }"

definition ten_msg_conversion_context_from_value ::
  "ten_value \<Rightarrow> ten_loc \<Rightarrow> string \<Rightarrow> msg_conversion_context run" where
  "ten_msg_conversion_context_from_value v src_loc cmd_name =
     do { ten_assert (ten_value_is_object v);
          conversion \<leftarrow> ten_msg_and_result_conversion_from_value v;
          conversion \<leftarrow> (case conversion of Inl _ \<Rightarrow> None | Inr c \<Rightarrow> Some c);
          Some \<lparr>mc_src_loc = ten_loc_init_from_loc src_loc, mc_msg_name = cmd_name, mc_conversion = Some conversion\<rparr> }"

definition parse_msg_conversions_value ::
  "ten_value \<Rightarrow> ten_loc \<Rightarrow> string \<Rightarrow> nat \<Rightarrow> (nat \<times> msg_conversion_context) list \<Rightarrow>
   (ten_error + (nat \<times> msg_conversion_context) list) run" where
  "parse_msg_conversions_value v src_loc msg_name addr contexts =
     do { c \<leftarrow> ten_msg_conversion_context_from_value v src_loc msg_name;
          Some (case ten_msg_conversion_context_merge (map snd contexts) c of
                  Inl e \<Rightarrow> Inl e
                | Inr _ \<Rightarrow> Inr (contexts @ [(addr, c)])) }"

text \<open>An extension of a connection: the locations with a name that is required.\<close>

definition connection_extension ::
  "ten_value \<Rightarrow> graph_extension list \<Rightarrow> bool \<Rightarrow> (ten_error option + graph_extension list \<times> nat) run" where
  "connection_extension v infos err =
     do { app_uri \<leftarrow> ten_value_object_peek_string v ''app'';
          graph_id \<leftarrow> ten_value_object_peek_string v ''graph'';
          extension_name \<leftarrow> ten_value_object_peek_string v ''extension'';
          if extension_name = None \<or> extension_name = Some []
          then graph_error err ''The extension in connection is required.''
          else get_extension_info_in_extensions_info infos app_uri graph_id None None extension_name True err }"

definition ten_extension_info_parse_connection_dest_part_from_value ::
  "ten_value \<Rightarrow> reading \<Rightarrow> nat \<Rightarrow> string \<Rightarrow> bool \<Rightarrow> (ten_error option + reading \<times> nat) run" where
  "ten_extension_info_parse_connection_dest_part_from_value v s src name err =
     do { self \<leftarrow> connection_extension v (snd s) err;
          case self of
            Inl e \<Rightarrow> Some (Inl e)
          | Inr (infos, i) \<Rightarrow>
              do { msg_conversions_value \<leftarrow> ten_value_object_peek v ''msg_conversion'';
                   case msg_conversions_value of
                     None \<Rightarrow> Some (Inr ((fst s, infos), i))
                   | Some c \<Rightarrow>
                       do { r \<leftarrow> parse_msg_conversions_value c (gx_loc (infos ! src)) name (fst s) (gx_contexts (infos ! i));
                            contexts \<leftarrow> (case r of Inl _ \<Rightarrow> None | Inr contexts \<Rightarrow> Some contexts);
                            Some (Inr ((fst s + 1, infos[i := (infos ! i)\<lparr>gx_contexts := contexts\<rparr>]), i)) } } }"

text \<open>A value of the wrong kind ends the reading without an error being set.\<close>

fun dests_from_values ::
  "ten_value list \<Rightarrow> reading \<Rightarrow> nat \<Rightarrow> string \<Rightarrow> bool \<Rightarrow> (ten_error option + reading \<times> nat list) run" where
  "dests_from_values [] s src name err = Some (Inr (s, []))"
| "dests_from_values (v # vs) s src name err =
     (if \<not> ten_value_is_object v then Some (Inl None)
      else do { r \<leftarrow> ten_extension_info_parse_connection_dest_part_from_value v s src name err;
                case r of
                  Inl e \<Rightarrow> Some (Inl e)
                | Inr (s, i) \<Rightarrow>
                    map_option (\<lambda>r. map_sum id (\<lambda>(s, is). (s, i # is)) r) (dests_from_values vs s src name err) })"

definition ten_msg_dest_info_from_value ::
  "ten_value \<Rightarrow> reading \<Rightarrow> nat \<Rightarrow> bool \<Rightarrow> (ten_error option + reading \<times> dest_info) run" where
  "ten_msg_dest_info_from_value v s src err =
     do { name_value \<leftarrow> ten_value_object_peek v ''name'';
          name \<leftarrow> (case name_value of None \<Rightarrow> Some [] | Some n \<Rightarrow> ten_value_peek_raw_str n);
          dests_value \<leftarrow> ten_value_object_peek v ''dest'';
          case dests_value of
            None \<Rightarrow> Some (Inr (s, \<lparr>de_name = name, de_dest = []\<rparr>))
          | Some (V_array vs) \<Rightarrow>
              map_option (\<lambda>r. map_sum id (\<lambda>(s, is). (s, \<lparr>de_name = name, de_dest = is\<rparr>)) r)
                (dests_from_values vs s src name err)
          | Some _ \<Rightarrow> Some (Inl None) }"

text \<open>The four lists of destinations of an extension, by their key.\<close>

datatype dest_kind = Cmd_dest | Data_dest | Video_frame_dest | Audio_frame_dest

fun dest_key :: "dest_kind \<Rightarrow> string" where
  "dest_key Cmd_dest = ''cmd''"
| "dest_key Data_dest = ''data''"
| "dest_key Video_frame_dest = ''video_frame''"
| "dest_key Audio_frame_dest = ''audio_frame''"

fun dests :: "dest_kind \<Rightarrow> graph_extension \<Rightarrow> dest_info list" where
  "dests Cmd_dest x = gx_cmd x"
| "dests Data_dest x = gx_data x"
| "dests Video_frame_dest x = gx_video_frame x"
| "dests Audio_frame_dest x = gx_audio_frame x"

fun set_dests :: "dest_kind \<Rightarrow> dest_info list \<Rightarrow> graph_extension \<Rightarrow> graph_extension" where
  "set_dests Cmd_dest ds x = x\<lparr>gx_cmd := ds\<rparr>"
| "set_dests Data_dest ds x = x\<lparr>gx_data := ds\<rparr>"
| "set_dests Video_frame_dest ds x = x\<lparr>gx_video_frame := ds\<rparr>"
| "set_dests Audio_frame_dest ds x = x\<lparr>gx_audio_frame := ds\<rparr>"

fun parse_msg_dest_value ::
  "dest_kind \<Rightarrow> ten_value list \<Rightarrow> reading \<Rightarrow> nat \<Rightarrow> bool \<Rightarrow> (ten_error option + reading) run" where
  "parse_msg_dest_value kind [] s src err = Some (Inr s)"
| "parse_msg_dest_value kind (v # vs) s src err =
     (if \<not> ten_value_is_object v then Some (Inl None)
      else do { r \<leftarrow> ten_msg_dest_info_from_value v s src err;
                case r of
                  Inl e \<Rightarrow> Some (Inl e)
                | Inr (s, d) \<Rightarrow>
                    parse_msg_dest_value kind vs
                      (fst s, (snd s)[src := set_dests kind (dests kind (snd s ! src) @ [d]) (snd s ! src)]) src err })"

fun parse_kinds :: "dest_kind list \<Rightarrow> ten_value \<Rightarrow> reading \<Rightarrow> nat \<Rightarrow> bool \<Rightarrow> (ten_error option + reading) run" where
  "parse_kinds [] v s src err = Some (Inr s)"
| "parse_kinds (kind # kinds) v s src err =
     do { member \<leftarrow> ten_value_object_peek v (dest_key kind);
          r \<leftarrow> (case member of
                 None \<Rightarrow> Some (Inr s)
               | Some (V_array vs) \<Rightarrow> parse_msg_dest_value kind vs s src err
               | Some _ \<Rightarrow> None);
          case r of Inl e \<Rightarrow> Some (Inl e) | Inr s \<Rightarrow> parse_kinds kinds v s src err }"

definition ten_extension_info_parse_connection_src_part_from_value ::
  "ten_value \<Rightarrow> reading \<Rightarrow> bool \<Rightarrow> (ten_error option + reading) run" where
  "ten_extension_info_parse_connection_src_part_from_value v s err =
     do { self \<leftarrow> connection_extension v (snd s) err;
          case self of
            Inl e \<Rightarrow> Some (Inl e)
          | Inr (infos, i) \<Rightarrow>
              parse_kinds [Cmd_dest, Data_dest, Video_frame_dest, Audio_frame_dest] v (fst s, infos) i err }"

fun nodes_from_values ::
  "ten_value list \<Rightarrow> graph_extension list \<Rightarrow> bool \<Rightarrow> (ten_error option + graph_extension list) run" where
  "nodes_from_values [] infos err = Some (Inr infos)"
| "nodes_from_values (v # vs) infos err =
     (if \<not> ten_value_is_object v then Some (Inl None)
      else do { r \<leftarrow> ten_extension_info_node_from_value v infos err;
                case r of Inl e \<Rightarrow> Some (Inl e) | Inr infos \<Rightarrow> nodes_from_values vs infos err })"

fun connections_from_values :: "ten_value list \<Rightarrow> reading \<Rightarrow> bool \<Rightarrow> (ten_error option + reading) run" where
  "connections_from_values [] s err = Some (Inr s)"
| "connections_from_values (v # vs) s err =
     (if \<not> ten_value_is_object v then Some (Inl None)
      else do { r \<leftarrow> ten_extension_info_parse_connection_src_part_from_value v s err;
                case r of Inl e \<Rightarrow> Some (Inl e) | Inr s \<Rightarrow> connections_from_values vs s err })"

text \<open>
  Processing the field: the callback sees the nodes and then the connections, may replace them, and
  says whether it did; what it replaced is read back. It gives an error or fails without one. The
  values of both are the ones of before.
\<close>

definition ten_cmd_start_graph_process_extensions_info ::
  "(string \<Rightarrow> ten_value \<Rightarrow> ten_error option + ten_value \<times> bool) \<Rightarrow> reading \<Rightarrow> bool \<Rightarrow>
   (ten_error option + reading) run" where
  "ten_cmd_start_graph_process_extensions_info cb s err =
     do { extensions_info_value \<leftarrow> ten_cmd_start_graph_extensions_info_to_value (snd s);
          extensions_info_value \<leftarrow> (case extensions_info_value of Inl _ \<Rightarrow> None | Inr v \<Rightarrow> Some v);
          nodes_value \<leftarrow> ten_value_object_peek extensions_info_value ''nodes'';
          connections_value \<leftarrow> ten_value_object_peek extensions_info_value ''connections'';
          case cb ''nodes'' (the nodes_value) of
            Inl e \<Rightarrow> Some (Inl e)
          | Inr (nodes, changed) \<Rightarrow>
              do { r \<leftarrow> (if changed then do { vs \<leftarrow> (case nodes of V_array vs \<Rightarrow> Some vs | _ \<Rightarrow> None);
                                            nodes_from_values vs (snd s) err }
                        else Some (Inr (snd s)));
                   case r of
                     Inl e \<Rightarrow> Some (Inl e)
                   | Inr infos \<Rightarrow>
                       (case cb ''connections'' (the connections_value) of
                          Inl e \<Rightarrow> Some (Inl e)
                        | Inr (connections, changed) \<Rightarrow>
                            if changed
                            then do { vs \<leftarrow> (case connections of V_array vs \<Rightarrow> Some vs | _ \<Rightarrow> None);
                                      connections_from_values vs (fst s, infos) err }
                            else Some (Inr (fst s, infos))) } }"

end
