(* ===== verification/Graph_Contract.thy ===== *)
theory Graph_Contract
  imports Graph_Value
begin

text \<open>
  What copying the description of a graph, and writing and reading it, preserve. The locations of the
  extensions are their identity.
\<close>

definition infos_of :: "graph_extension \<Rightarrow> dest_info list" where
  "infos_of x = gx_cmd x @ gx_data x @ gx_video_frame x @ gx_audio_frame x"

text \<open>The source and the name of the messages a conversion is for.\<close>

definition context_key :: "nat \<times> msg_conversion_context \<Rightarrow> ten_loc \<times> string" where
  "context_key c = (mc_src_loc (snd c), mc_msg_name (snd c))"

definition extension_ok :: "nat \<Rightarrow> graph_extension \<Rightarrow> bool" where
  "extension_ok n x \<longleftrightarrow> loc_extension_name (gx_loc x) \<noteq> [] \<and> ten_value_is_object (gx_property x) \<and>
     keys_ok (gx_property x) \<and> clone_faithful (gx_property x) \<and> distinct (map context_key (gx_contexts x)) \<and>
     (\<forall>info \<in> set (infos_of x). \<forall>d \<in> set (de_dest info). d < n)"

definition graph_ok :: "graph_extension list \<Rightarrow> bool" where
  "graph_ok g \<longleftrightarrow> distinct (map (ten_loc_to_string \<circ> gx_loc) g) \<and> (\<forall>x \<in> set g. extension_ok (length g) x)"

section \<open>Looking up\<close>

lemma find_upt:
  assumes "i < n" and "P i" and "\<And>j. j < n \<Longrightarrow> P j \<Longrightarrow> j = i"
  shows "find P [0..<n] = Some i"
proof -
  have "\<not> P j" if "j < i" for j using assms(1) assms(3) [of j] that by auto
  then show ?thesis using assms(1,2) unfolding find_Some_iff by (intro exI [of _ i]) simp
qed

lemma find_upt_None: "(\<And>j. j < n \<Longrightarrow> \<not> P j) \<Longrightarrow> find P [0..<n] = None"
  by (auto simp: find_None_iff)

lemma specified_by_loc:
  "ten_extension_info_is_specified_extension x (Some (loc_app_uri loc)) (Some (loc_graph_id loc)) (loc_extension_name loc) \<longleftrightarrow>
   gx_loc x = loc"
  by (auto simp: ten_extension_info_is_specified_extension_def same_or_null_def)

lemma find_extension_loc:
  assumes "distinct (map gx_loc infos)" and "i < length infos"
  shows "find_extension infos (Some (loc_app_uri (gx_loc (infos ! i)))) (Some (loc_graph_id (gx_loc (infos ! i))))
    (loc_extension_name (gx_loc (infos ! i))) = Some i"
  unfolding find_extension_def specified_by_loc
  using assms by (intro find_upt) (auto simp: distinct_conv_nth)

lemma find_extension_new:
  assumes "gx_loc x \<notin> gx_loc ` set infos"
  shows "find_extension infos (Some (loc_app_uri (gx_loc x))) (Some (loc_graph_id (gx_loc x)))
    (loc_extension_name (gx_loc x)) = None"
  unfolding find_extension_def specified_by_loc
  using assms by (intro find_upt_None) (metis image_eqI nth_mem)

text \<open>An extension that is there is found by its location, whatever the addon that goes with it.\<close>

lemma get_existing:
  assumes "distinct (map gx_loc infos)" and "i < length infos" and "gx_loc (infos ! i) = loc"
    and "addon = None \<or> addon = Some (gx_addon (infos ! i))"
  shows "get_extension_info_in_extensions_info infos (Some (loc_app_uri loc)) (Some (loc_graph_id loc)) grp addon
    (Some (loc_extension_name loc)) True err = Some (Inr (infos, i))"
  using find_extension_loc [OF assms(1,2)] assms(3,4)
  by (auto simp: get_extension_info_in_extensions_info_def)

lemma get_new:
  assumes "gx_loc x \<notin> gx_loc ` set infos"
  shows "get_extension_info_in_extensions_info infos (Some (loc_app_uri (gx_loc x))) (Some (loc_graph_id (gx_loc x)))
    (Some grp) (Some addon) (Some (loc_extension_name (gx_loc x))) False err =
    Some (Inr (infos @ [ten_extension_info_create\<lparr>gx_addon := addon, gx_group := grp, gx_loc := gx_loc x\<rparr>], length infos))"
  using find_extension_new [OF assms]
  by (simp add: get_extension_info_in_extensions_info_def ten_loc_defs)

lemma distinct_locs: "distinct (map (ten_loc_to_string \<circ> gx_loc) g) \<Longrightarrow> distinct (map gx_loc g)"
  by (metis distinct_map map_map)

lemma property_merges:
  assumes "extension_ok n x"
  shows "ten_value_object_merge_with_clone (V_object []) (gx_property x) = Some (True, gx_property x)"
  using assms by (cases "gx_property x")
    (simp_all add: extension_ok_def ten_value_object_merge_with_clone_def merge_clone_empty)

section \<open>Copying\<close>

definition without_dests :: "graph_extension \<Rightarrow> graph_extension" where
  "without_dests x = x\<lparr>gx_cmd := [], gx_data := [], gx_video_frame := [], gx_audio_frame := []\<rparr>"

lemma without_dests_simps [simp]:
  "gx_loc (without_dests x) = gx_loc x" "gx_addon (without_dests x) = gx_addon x" "gx_group (without_dests x) = gx_group x"
  "gx_property (without_dests x) = gx_property x" "gx_contexts (without_dests x) = gx_contexts x"
  "gx_cmd (without_dests x) = []" "gx_data (without_dests x) = []" "gx_video_frame (without_dests x) = []"
  "gx_audio_frame (without_dests x) = []"
  by (simp_all add: without_dests_def)

lemma merge_context_new:
  assumes "context_key c \<notin> context_key ` set contexts"
  shows "ten_msg_conversion_context_merge (map snd contexts) (snd c) = Inr (map snd contexts @ [snd c])"
proof -
  have "\<not> list_ex (\<lambda>d. ten_msg_conversion_is_equal d (snd c)) (map snd contexts)"
    using assms by (auto simp: list_ex_iff ten_msg_conversion_is_equal_def context_key_def image_iff)
  then show ?thesis by (simp add: ten_msg_conversion_context_merge_def)
qed

lemma merge_contexts_eq:
  "distinct (map context_key (contexts @ cs)) \<Longrightarrow> merge_contexts contexts cs = Some (contexts @ cs)"
proof (induction cs arbitrary: contexts)
  case (Cons c cs)
  then have "context_key c \<notin> context_key ` set contexts" by auto
  from merge_context_new [OF this] Cons.IH [of "contexts @ [c]"] Cons.prems show ?case by simp
qed simp

lemma clone_except_dest_eq:
  assumes "extension_ok n x" and "gx_loc x \<notin> gx_loc ` set infos"
  shows "ten_extension_info_clone_except_dest infos x = Some (infos @ [without_dests x])"
proof -
  have "merge_contexts [] (gx_contexts x) = Some (gx_contexts x)"
    using assms(1) merge_contexts_eq [of "[]"] by (simp add: extension_ok_def)
  then show ?thesis
    using get_new [OF assms(2)] property_merges [OF assms(1)]
    by (simp add: ten_extension_info_clone_except_dest_def expect_def ten_extension_info_create_def without_dests_def
        list_update_append)
qed

lemma clone_nodes_eq:
  "\<forall>x \<in> set xs. extension_ok n x \<Longrightarrow> distinct (map gx_loc (ys @ xs)) \<Longrightarrow>
   clone_nodes (map without_dests ys) xs = Some (map without_dests (ys @ xs))"
proof (induction xs arbitrary: ys)
  case (Cons x xs)
  have "gx_loc x \<notin> gx_loc ` set (map without_dests ys)" using Cons.prems(2) by auto
  with clone_except_dest_eq [of n x "map without_dests ys"] Cons.IH [of "ys @ [x]"] Cons.prems show ?case by simp
qed simp

text \<open>Lists with the locations of \<open>g\<close>, where the extensions are found at the same places.\<close>

definition same_locs :: "graph_extension list \<Rightarrow> graph_extension list \<Rightarrow> bool" where
  "same_locs g infos \<longleftrightarrow> map gx_loc infos = map gx_loc g"

lemma same_locs_simps:
  assumes "same_locs g infos"
  shows "length infos = length g" and "i < length g \<Longrightarrow> gx_loc (infos ! i) = gx_loc (g ! i)"
    and "distinct (map gx_loc g) \<Longrightarrow> distinct (map gx_loc infos)"
proof -
  show l: "length infos = length g" using assms by (metis same_locs_def length_map)
  show "gx_loc (infos ! i) = gx_loc (g ! i)" if "i < length g"
    using arg_cong [OF assms [unfolded same_locs_def], of "\<lambda>xs. xs ! i"] l that by simp
  show "distinct (map gx_loc g) \<Longrightarrow> distinct (map gx_loc infos)" using assms by (simp add: same_locs_def)
qed

lemma clone_dests_eq:
  assumes "distinct (map gx_loc g)" and "same_locs g infos"
  shows "\<forall>d \<in> set ds. d < length g \<Longrightarrow> clone_dests g infos ds = Some ds"
proof (induction ds)
  case (Cons d ds)
  note l = same_locs_simps [OF assms(2)]
  have "d < length infos" "gx_loc (infos ! d) = gx_loc (g ! d)" using Cons.prems l by auto
  from get_existing [OF l(3) [OF assms(1)] this, of None] Cons show ?case by (simp add: expect_def)
qed simp

lemma copy_msg_dest_eq:
  assumes "distinct (map gx_loc g)" and "same_locs g infos"
  shows "\<forall>x \<in> set xs. \<forall>d \<in> set (de_dest x). d < length g \<Longrightarrow> copy_msg_dest g infos to xs = Some (to @ xs)"
proof (induction xs arbitrary: to)
  case (Cons x xs)
  have "ten_msg_dest_info_clone g infos x = Some x"
    using clone_dests_eq [OF assms, of "de_dest x"] Cons.prems by (simp add: ten_msg_dest_info_clone_def)
  with Cons show ?case by simp
qed simp

lemma clone_dest_eq:
  assumes "distinct (map gx_loc g)" and "same_locs g infos" and "i < length g" and "extension_ok (length g) (g ! i)"
    and "infos ! i = without_dests (g ! i)"
  shows "ten_extension_info_clone_dest g infos (g ! i) = Some (infos[i := g ! i])"
proof -
  note l = same_locs_simps [OF assms(2)]
  have get: "get_extension_info_in_extensions_info infos (Some (loc_app_uri (gx_loc (g ! i))))
      (Some (loc_graph_id (gx_loc (g ! i)))) (Some (gx_group (g ! i))) (Some (gx_addon (g ! i)))
      (Some (loc_extension_name (gx_loc (g ! i)))) True True = Some (Inr (infos, i))"
    using assms(3,5) l by (intro get_existing) (simp_all add: assms(1))
  have copy: "copy_msg_dest g infos [] (gx_cmd (g ! i)) = Some (gx_cmd (g ! i))"
    "copy_msg_dest g infos [] (gx_data (g ! i)) = Some (gx_data (g ! i))"
    "copy_msg_dest g infos [] (gx_audio_frame (g ! i)) = Some (gx_audio_frame (g ! i))"
    "copy_msg_dest g infos [] (gx_video_frame (g ! i)) = Some (gx_video_frame (g ! i))"
    using copy_msg_dest_eq [OF assms(1,2), where to = "[]"] assms(4)
    by (auto simp: extension_ok_def infos_of_def)
  show ?thesis
    by (simp add: ten_extension_info_clone_dest_def get expect_def assms(5) copy without_dests_def)
qed

lemma clone_connections_eq:
  assumes "graph_ok g"
  shows "g = ys @ xs \<Longrightarrow> clone_connections g (ys @ map without_dests xs) xs = Some g"
proof (induction xs arbitrary: ys)
  case (Cons x xs)
  let ?to = "ys @ map without_dests (x # xs)"
  have g: "distinct (map gx_loc g)" "extension_ok (length g) x" "g ! length ys = x" "length ys < length g"
    using assms distinct_locs [of g] Cons.prems by (auto simp: graph_ok_def)
  have "ten_extension_info_clone_dest g ?to x = Some (?to[length ys := x])"
    using clone_dest_eq [of g ?to "length ys"] g by (simp add: same_locs_def Cons.prems)
  with Cons.IH [of "ys @ [x]"] Cons.prems show ?case by (simp add: list_update_append)
qed simp

lemma extensions_clone_eq:
  assumes "graph_ok g"
  shows "ten_extensions_info_clone g [] = Some g"
proof -
  have "clone_nodes [] g = Some (map without_dests g)"
    using clone_nodes_eq [of g "length g" "[]"] assms distinct_locs [of g] by (simp add: graph_ok_def)
  with clone_connections_eq [OF assms, of "[]" g] show ?thesis by (simp add: ten_extensions_info_clone_def)
qed


section \<open>Writing and reading\<close>

abbreviation kinds :: "dest_kind list" where
  "kinds \<equiv> [Cmd_dest, Data_dest, Video_frame_dest, Audio_frame_dest]"

text \<open>The edges of a graph in the order in which they are written: source, name and destination.\<close>

type_synonym edge = "ten_loc \<times> string \<times> nat"

definition info_edges :: "ten_loc \<Rightarrow> dest_info \<Rightarrow> edge list" where
  "info_edges loc x = map (\<lambda>d. (loc, de_name x, d)) (de_dest x)"

definition kind_edges :: "graph_extension \<Rightarrow> dest_kind \<Rightarrow> edge list" where
  "kind_edges x kind = concat (map (info_edges (gx_loc x)) (dests kind x))"

definition extension_edges :: "graph_extension \<Rightarrow> edge list" where
  "extension_edges x = concat (map (kind_edges x) kinds)"

definition edges :: "graph_extension list \<Rightarrow> edge list" where
  "edges g = concat (map extension_edges g)"

text \<open>The conversions of a destination that belong to the edges of a list.\<close>

definition conversions_for :: "graph_extension \<Rightarrow> ten_loc \<Rightarrow> string \<Rightarrow> msg_conversion_context list" where
  "conversions_for x loc name = map snd (filter (\<lambda>c. context_key c = (loc, name)) (gx_contexts x))"

definition conversions_along :: "graph_extension list \<Rightarrow> edge list \<Rightarrow> nat \<Rightarrow> msg_conversion_context list" where
  "conversions_along g es d = concat (map (\<lambda>(loc, name, e). if e = d then conversions_for (g ! d) loc name else []) es)"

lemma conversions_along_simps [simp]:
  "conversions_along g [] d = []"
  "conversions_along g (es @ es') d = conversions_along g es d @ conversions_along g es' d"
  "conversions_along g [(loc, name, e)] d = (if e = d then conversions_for (g ! d) loc name else [])"
  by (simp_all add: conversions_along_def)

text \<open>
  Each conversion belongs to one edge, and they are in the order of the edges, which is the order in
  which reading a graph adds them. They can be written and read back.
\<close>

definition conversions_written :: "graph_extension list \<Rightarrow> bool" where
  "conversions_written g \<longleftrightarrow>
     (\<forall>d < length g. map snd (gx_contexts (g ! d)) = conversions_along g (edges g) d \<and>
        (\<forall>c \<in> set (gx_contexts (g ! d)). \<exists>conversion. mc_conversion (snd c) = Some conversion \<and>
           conversion_ok (ma_msg conversion) \<and> (\<forall>r \<in> set_option (ma_result conversion). conversion_ok r)))"

text \<open>
  A state of reading: the nodes are there, the destinations read so far, and the conversions of the
  edges read so far.
\<close>

definition reading_ok ::
  "graph_extension list \<Rightarrow> edge list \<Rightarrow> (nat \<Rightarrow> dest_kind \<Rightarrow> dest_info list) \<Rightarrow> reading \<Rightarrow> bool" where
  "reading_ok g es D s \<longleftrightarrow> length (snd s) = length g \<and>
     (\<forall>i < length g. gx_loc (snd s ! i) = gx_loc (g ! i) \<and> gx_addon (snd s ! i) = gx_addon (g ! i) \<and>
        gx_group (snd s ! i) = gx_group (g ! i) \<and> gx_property (snd s ! i) = gx_property (g ! i) \<and>
        (\<forall>kind. dests kind (snd s ! i) = D i kind) \<and>
        map snd (gx_contexts (snd s ! i)) = conversions_along g es i)"

lemma reading_locs:
  assumes "reading_ok g es D s"
  shows "same_locs g (snd s)"
  using assms by (auto simp: reading_ok_def same_locs_def intro: nth_equalityI)

lemma reading_ok_cong:
  "conversions_along g es = conversions_along g es' \<Longrightarrow> reading_ok g es D s = reading_ok g es' D s"
  by (simp add: reading_ok_def)

lemma distinct_prefix_keys:
  assumes "graph_ok g" and "conversions_written g" and "edges g = es @ (loc, name, d) # es'" and "d < length g"
    and "c \<in> set (conversions_for (g ! d) loc name)"
  shows "(mc_src_loc c, mc_msg_name c) \<notin> (\<lambda>c. (mc_src_loc c, mc_msg_name c)) ` set (conversions_along g es d)"
proof -
  let ?key = "\<lambda>c. (mc_src_loc c, mc_msg_name c)"
  have "map snd (gx_contexts (g ! d)) = conversions_along g es d @ conversions_for (g ! d) loc name @ conversions_along g es' d"
    using assms(2,4) unfolding conversions_written_def assms(3)
    by (metis append_Cons append_Nil conversions_along_simps(2,3))
  moreover have "distinct (map ?key (map snd (gx_contexts (g ! d))))"
    using assms(1,4) by (simp add: graph_ok_def extension_ok_def context_key_def [abs_def] comp_def)
  ultimately have "?key ` set (conversions_along g es d) \<inter> ?key ` set (conversions_for (g ! d) loc name) = {}"
    by (simp only: map_append distinct_append set_append set_map Int_Un_distrib Un_empty)
  with assms(5) show ?thesis by blast
qed

text \<open>There is at most one conversion per edge.\<close>

lemma conversion_kvs_eq:
  assumes "distinct (map context_key cs)"
    and "\<forall>c \<in> set cs. \<exists>conversion. mc_conversion (snd c) = Some conversion \<and>
           conversion_ok (ma_msg conversion) \<and> (\<forall>r \<in> set_option (ma_result conversion). conversion_ok r)"
  shows "case filter (\<lambda>c. context_key c = (loc, name)) cs of
      [] \<Rightarrow> conversion_kvs loc name found cs = Some []
    | [c] \<Rightarrow> \<exists>v conversion. (found = False \<longrightarrow> conversion_kvs loc name found cs = Some [(''msg_conversion'', v)]) \<and>
        ten_value_is_object v \<and> mc_conversion (snd c) = Some conversion \<and>
        ten_msg_and_result_conversion_from_value v = Some (Inr conversion)
    | _ \<Rightarrow> False"
  using assms
proof (induction cs arbitrary: found)
  case (Cons c cs)
  show ?case
  proof (cases "context_key c = (loc, name)")
    case False
    then have skip: "conversion_kvs loc name found (c # cs) = conversion_kvs loc name found cs" for found
      by (auto simp: context_key_def)
    have f: "filter (\<lambda>c. context_key c = (loc, name)) (c # cs) = filter (\<lambda>c. context_key c = (loc, name)) cs"
      using False by simp
    show ?thesis unfolding f skip by (rule Cons.IH) (use Cons.prems in simp_all)
  next
    case True
    then have none: "filter (\<lambda>c. context_key c = (loc, name)) cs = []"
      using Cons.prems(1) by (auto simp: filter_empty_conv image_iff)
    have rest: "conversion_kvs loc name True cs = Some []"
      using Cons.IH [of True] Cons.prems none by simp
    obtain conversion where c: "mc_conversion (snd c) = Some conversion" "conversion_ok (ma_msg conversion)"
      "\<forall>r \<in> set_option (ma_result conversion). conversion_ok r" using Cons.prems(2) by auto
    from conversion_and_result_roundtrip [OF c(2,3)] obtain v where
      v: "ten_msg_and_result_conversion_to_value conversion = Some v" "ten_value_is_object v"
        "ten_msg_and_result_conversion_from_value v = Some (Inr conversion)" by blast
    have "conversion_kvs loc name False (c # cs) = Some [(''msg_conversion'', v)]"
      using True rest c(1) v(1) by (simp add: context_key_def)
    then show ?thesis using True none v c(1) by auto
  qed
qed simp


lemma conversions_for_cases:
  assumes "graph_ok g" and "conversions_written g" and "d < length g"
  obtains (none) "conversions_for (g ! d) loc name = []" "conversion_kvs loc name False (gx_contexts (g ! d)) = Some []"
  | (one) v conversion where
      "conversions_for (g ! d) loc name = [\<lparr>mc_src_loc = loc, mc_msg_name = name, mc_conversion = Some conversion\<rparr>]"
      "conversion_kvs loc name False (gx_contexts (g ! d)) = Some [(''msg_conversion'', v)]"
      "ten_value_is_object v" "ten_msg_and_result_conversion_from_value v = Some (Inr conversion)"
proof -
  let ?cs = "gx_contexts (g ! d)" and ?p = "\<lambda>c. context_key c = (loc, name)"
  have "distinct (map context_key ?cs)" using assms by (simp add: graph_ok_def extension_ok_def)
  moreover have "\<forall>c \<in> set ?cs. \<exists>conversion. mc_conversion (snd c) = Some conversion \<and>
      conversion_ok (ma_msg conversion) \<and> (\<forall>r \<in> set_option (ma_result conversion). conversion_ok r)"
    using assms(2,3) by (simp add: conversions_written_def)
  ultimately have eq: "case filter ?p ?cs of
      [] \<Rightarrow> conversion_kvs loc name False ?cs = Some []
    | [c] \<Rightarrow> \<exists>v conversion. (False = False \<longrightarrow> conversion_kvs loc name False ?cs = Some [(''msg_conversion'', v)]) \<and>
        ten_value_is_object v \<and> mc_conversion (snd c) = Some conversion \<and>
        ten_msg_and_result_conversion_from_value v = Some (Inr conversion)
    | _ \<Rightarrow> False" by (rule conversion_kvs_eq)
  show thesis
  proof (cases "filter ?p ?cs")
    case Nil
    with eq none show thesis by (simp add: conversions_for_def)
  next
    case (Cons c cs)
    with eq have c: "filter ?p ?cs = [c]" by (cases cs) simp_all
    then have "c \<in> set (filter ?p ?cs)" by simp
    then have "?p c" by simp
    then have key: "mc_src_loc (snd c) = loc" "mc_msg_name (snd c) = name" by (simp_all add: context_key_def)
    from eq c obtain v conversion where v: "conversion_kvs loc name False ?cs = Some [(''msg_conversion'', v)]"
      "ten_value_is_object v" "mc_conversion (snd c) = Some conversion"
      "ten_msg_and_result_conversion_from_value v = Some (Inr conversion)" by auto
    have "conversions_for (g ! d) loc name = [\<lparr>mc_src_loc = loc, mc_msg_name = name, mc_conversion = Some conversion\<rparr>]"
      using c key v(3) by (simp add: conversions_for_def)
    with v one show thesis by blast
  qed
qed

text \<open>Reading one destination.\<close>

lemma read_dest:
  assumes "graph_ok g" and "conversions_written g" and "edges g = es @ (gx_loc (g ! src), name, d) # es'"
    and "reading_ok g es D s" and "src < length g" and "d < length g"
  shows "\<exists>v s'. dest_to_value (gx_loc (g ! src)) name (g ! d) = Some v \<and> ten_value_is_object v \<and>
    ten_extension_info_parse_connection_dest_part_from_value v s src name err = Some (Inr (s', d)) \<and>
    reading_ok g (es @ [(gx_loc (g ! src), name, d)]) D s'"
proof -
  let ?loc = "gx_loc (g ! src)" and ?x = "g ! d"
  let ?kvs = "[string_kv ''app'' (loc_app_uri (gx_loc ?x)), string_kv ''graph'' (loc_graph_id (gx_loc ?x)),
      string_kv ''extension_group'' (gx_group ?x), string_kv ''extension'' (loc_extension_name (gx_loc ?x))]"
  note l = same_locs_simps [OF reading_locs [OF assms(4)]]
  have locs: "distinct (map gx_loc g)" "loc_extension_name (gx_loc ?x) \<noteq> []"
    using assms(1,6) distinct_locs by (auto simp: graph_ok_def extension_ok_def)
  have get: "get_extension_info_in_extensions_info (snd s) (Some (loc_app_uri (gx_loc ?x)))
      (Some (loc_graph_id (gx_loc ?x))) None None (Some (loc_extension_name (gx_loc ?x))) True err = Some (Inr (snd s, d))"
    using assms(6) l locs(1) by (intro get_existing) simp_all
  have found: "connection_extension (V_object (?kvs @ more)) (snd s) err = Some (Inr (snd s, d))" for more
    using get locs(2) by (simp add: connection_extension_def string_kv_def ten_value_object_peek_string_def
        ten_value_object_peek_def ten_value_peek_raw_str_def)
  show ?thesis
  proof (cases rule: conversions_for_cases [OF assms(1,2,6), where loc = ?loc and name = name])
    case none: 1
    have "dest_to_value ?loc name ?x = Some (V_object ?kvs)" using none(2) by (simp add: dest_to_value_def)
    moreover have "ten_extension_info_parse_connection_dest_part_from_value (V_object ?kvs) s src name err =
        Some (Inr (s, d))"
      using found [of "[]"] by (simp add: ten_extension_info_parse_connection_dest_part_from_value_def
          ten_value_object_peek_def string_kv_def)
    moreover have "ten_value_is_object (V_object ?kvs)" by simp
    moreover have same: "conversions_along g (es @ [(?loc, name, d)]) = conversions_along g es"
      using none(1) by (intro ext) auto
    moreover have "reading_ok g (es @ [(?loc, name, d)]) D s" by (rule iffD2 [OF reading_ok_cong [OF same] assms(4)])
    ultimately show ?thesis by blast
  next
    case one: (2 v conversion)
    let ?c = "\<lparr>mc_src_loc = ?loc, mc_msg_name = name, mc_conversion = Some conversion\<rparr>"
    let ?infos = "(snd s)[d := (snd s ! d)\<lparr>gx_contexts := gx_contexts (snd s ! d) @ [(fst s, ?c)]\<rparr>]"
    have "dest_to_value ?loc name ?x = Some (V_object (?kvs @ [(''msg_conversion'', v)]))"
      using one(2) by (simp add: dest_to_value_def)
    moreover have "context_key (0, ?c) \<notin> context_key ` set (gx_contexts (snd s ! d))"
    proof -
      have "(mc_src_loc ?c, mc_msg_name ?c) \<notin> (\<lambda>c. (mc_src_loc c, mc_msg_name c)) ` set (conversions_along g es d)"
        by (rule distinct_prefix_keys [OF assms(1-3,6)]) (simp add: one(1))
      moreover have "map snd (gx_contexts (snd s ! d)) = conversions_along g es d"
        using assms(4,6) by (simp add: reading_ok_def)
      then have "snd ` set (gx_contexts (snd s ! d)) = set (conversions_along g es d)" by (metis set_map)
      ultimately show ?thesis by (auto simp: context_key_def)
    qed
    then have "ten_msg_conversion_context_merge (map snd (gx_contexts (snd s ! d))) ?c =
        Inr (map snd (gx_contexts (snd s ! d)) @ [?c])"
      using merge_context_new [of "(0, ?c)"] by simp
    then have "ten_extension_info_parse_connection_dest_part_from_value (V_object (?kvs @ [(''msg_conversion'', v)]))
        s src name err = Some (Inr ((fst s + 1, ?infos), d))"
      using found [of "[(''msg_conversion'', v)]"] one(3,4) l(2) [OF assms(5)]
      by (simp add: ten_extension_info_parse_connection_dest_part_from_value_def ten_value_object_peek_def string_kv_def
          parse_msg_conversions_value_def ten_msg_conversion_context_from_value_def)
    moreover have "ten_value_is_object (V_object (?kvs @ [(''msg_conversion'', v)]))" by simp
    moreover have "reading_ok g (es @ [(?loc, name, d)]) D (fst s + 1, ?infos)"
    proof -
      have "dests kind (x\<lparr>gx_contexts := cs\<rparr>) = dests kind x" for kind x cs by (cases kind) simp_all
      then show ?thesis using assms(4,6) one(1) by (auto simp: reading_ok_def nth_list_update)
    qed
    ultimately show ?thesis by blast
  qed
qed


lemma read_dests:
  assumes "graph_ok g" and "conversions_written g" and "src < length g"
  shows "edges g = es @ map (\<lambda>d. (gx_loc (g ! src), name, d)) ds @ es' \<Longrightarrow> reading_ok g es D s \<Longrightarrow>
    \<forall>d \<in> set ds. d < length g \<Longrightarrow>
    \<exists>vs s'. those (map (\<lambda>d. dest_to_value (gx_loc (g ! src)) name (g ! d)) ds) = Some vs \<and>
      dests_from_values vs s src name err = Some (Inr (s', ds)) \<and>
      reading_ok g (es @ map (\<lambda>d. (gx_loc (g ! src), name, d)) ds) D s'"
proof (induction ds arbitrary: es s)
  case Nil
  then show ?case by (cases s) simp
next
  case (Cons d ds)
  let ?e = "(gx_loc (g ! src), name, d)"
  have "edges g = es @ ?e # (map (\<lambda>d. (gx_loc (g ! src), name, d)) ds @ es')" "d < length g"
    using Cons.prems by simp_all
  from read_dest [OF assms(1,2) this(1) Cons.prems(2) assms(3) this(2), of err] obtain v s1 where
    v: "dest_to_value (gx_loc (g ! src)) name (g ! d) = Some v" "ten_value_is_object v"
      "ten_extension_info_parse_connection_dest_part_from_value v s src name err = Some (Inr (s1, d))"
      "reading_ok g (es @ [?e]) D s1" by blast
  from Cons.IH [of "es @ [?e]" s1] Cons.prems v(4) obtain vs s' where
    "those (map (\<lambda>d. dest_to_value (gx_loc (g ! src)) name (g ! d)) ds) = Some vs"
    "dests_from_values vs s1 src name err = Some (Inr (s', ds))"
    "reading_ok g (es @ ?e # map (\<lambda>d. (gx_loc (g ! src), name, d)) ds) D s'" by auto
  with v show ?case by (intro exI [of _ "v # vs"]) simp
qed

lemma read_info:
  assumes "graph_ok g" and "conversions_written g" and "src < length g"
    and "edges g = es @ info_edges (gx_loc (g ! src)) info @ es'" and "reading_ok g es D s"
    and "\<forall>d \<in> set (de_dest info). d < length g"
  shows "\<exists>v s'. ten_msg_dest_info_to_value g info (g ! src) = Some v \<and> ten_value_is_object v \<and>
    ten_msg_dest_info_from_value v s src err = Some (Inr (s', info)) \<and>
    reading_ok g (es @ info_edges (gx_loc (g ! src)) info) D s'"
proof -
  from read_dests [OF assms(1-3) assms(4) [unfolded info_edges_def] assms(5,6), of err] obtain vs s' where
    "those (map (\<lambda>d. dest_to_value (gx_loc (g ! src)) (de_name info) (g ! d)) (de_dest info)) = Some vs"
    "dests_from_values vs s src (de_name info) err = Some (Inr (s', de_dest info))"
    "reading_ok g (es @ info_edges (gx_loc (g ! src)) info) D s'"
    unfolding info_edges_def by blast
  then show ?thesis
    by (intro exI [of _ "V_object [(''name'', V_string (de_name info)), (''dest'', V_array vs)]"] exI [of _ s'])
      (simp add: ten_msg_dest_info_to_value_def ten_msg_dest_info_from_value_def string_kv_def ten_value_object_peek_def
        ten_value_peek_raw_str_def)
qed

text \<open>Adding destinations of one kind to the extension they were read for.\<close>

lemma dests_set_dests [simp]: "dests k (set_dests kind ds x) = (if k = kind then ds else dests k x)"
  by (cases k; cases kind) simp_all

lemma set_dests_simps [simp]:
  "gx_loc (set_dests kind ds x) = gx_loc x" "gx_addon (set_dests kind ds x) = gx_addon x"
  "gx_group (set_dests kind ds x) = gx_group x" "gx_property (set_dests kind ds x) = gx_property x"
  "gx_contexts (set_dests kind ds x) = gx_contexts x"
  by (cases kind; simp)+

lemma reading_ok_add:
  assumes "reading_ok g es D s" and "src < length g"
  shows "reading_ok g es (D(src := (D src)(kind := D src kind @ ds)))
    (fst s, (snd s)[src := set_dests kind (dests kind (snd s ! src) @ ds) (snd s ! src)])"
  using assms by (simp add: reading_ok_def nth_list_update)

lemma read_kind:
  assumes "graph_ok g" and "conversions_written g" and "src < length g"
  shows "edges g = es @ concat (map (info_edges (gx_loc (g ! src))) xs) @ es' \<Longrightarrow> reading_ok g es D s \<Longrightarrow>
    \<forall>x \<in> set xs. \<forall>d \<in> set (de_dest x). d < length g \<Longrightarrow>
    \<exists>vs s'. those (map (\<lambda>x. ten_msg_dest_info_to_value g x (g ! src)) xs) = Some vs \<and>
      parse_msg_dest_value kind vs s src err = Some (Inr s') \<and>
      reading_ok g (es @ concat (map (info_edges (gx_loc (g ! src))) xs)) (D(src := (D src)(kind := D src kind @ xs))) s'"
proof (induction xs arbitrary: es D s)
  case Nil
  then show ?case by (cases s) simp
next
  case (Cons x xs)
  let ?e = "info_edges (gx_loc (g ! src)) x"
  have "edges g = es @ ?e @ (concat (map (info_edges (gx_loc (g ! src))) xs) @ es')" "\<forall>d \<in> set (de_dest x). d < length g"
    using Cons.prems by simp_all
  from read_info [OF assms this(1) Cons.prems(2) this(2), of err] obtain v s1 where
    v: "ten_msg_dest_info_to_value g x (g ! src) = Some v" "ten_value_is_object v"
      "ten_msg_dest_info_from_value v s src err = Some (Inr (s1, x))" "reading_ok g (es @ ?e) D s1" by blast
  let ?s1 = "(fst s1, (snd s1)[src := set_dests kind (dests kind (snd s1 ! src) @ [x]) (snd s1 ! src)])"
  let ?D1 = "D(src := (D src)(kind := D src kind @ [x]))"
  have s1: "reading_ok g (es @ ?e) ?D1 ?s1" by (rule reading_ok_add [OF v(4) assms(3)])
  have e: "edges g = (es @ ?e) @ concat (map (info_edges (gx_loc (g ! src))) xs) @ es'" using Cons.prems(1) by simp
  have D: "?D1(src := (?D1 src)(kind := ?D1 src kind @ xs)) = D(src := (D src)(kind := D src kind @ x # xs))"
    by (auto simp: fun_eq_iff)
  have "\<forall>x \<in> set xs. \<forall>d \<in> set (de_dest x). d < length g" using Cons.prems(3) by simp
  from Cons.IH [OF e s1 this, unfolded D] obtain vs s' where
    "those (map (\<lambda>x. ten_msg_dest_info_to_value g x (g ! src)) xs) = Some vs"
    "parse_msg_dest_value kind vs ?s1 src err = Some (Inr s')"
    "reading_ok g ((es @ ?e) @ concat (map (info_edges (gx_loc (g ! src))) xs))
       (D(src := (D src)(kind := D src kind @ x # xs))) s'" by blast
  with v show ?case by (intro exI [of _ "v # vs"] exI [of _ s'] conjI) (simp_all del: fun_upd_apply)
qed

text \<open>Reading all kinds of destinations of one extension.\<close>

lemma read_kinds:
  assumes "graph_ok g" and "conversions_written g" and "src < length g"
  shows "edges g = es @ concat (map (kind_edges (g ! src)) ks) @ es' \<Longrightarrow> reading_ok g es D s \<Longrightarrow> distinct ks \<Longrightarrow>
    \<forall>k \<in> set ks. D src k = [] \<Longrightarrow>
    \<forall>k \<in> set ks. map_of kvs (dest_key k) = (if dests k (g ! src) = [] then None
       else map_option V_array (those (map (\<lambda>x. ten_msg_dest_info_to_value g x (g ! src)) (dests k (g ! src))))) \<Longrightarrow>
    \<exists>s'. parse_kinds ks (V_object kvs) s src err = Some (Inr s') \<and>
      reading_ok g (es @ concat (map (kind_edges (g ! src)) ks))
        (D(src := (\<lambda>k. if k \<in> set ks then dests k (g ! src) else D src k))) s'"
proof (induction ks arbitrary: es D s)
  case Nil
  then show ?case by simp
next
  case (Cons k ks)
  let ?xs = "dests k (g ! src)" and ?e = "kind_edges (g ! src) k"
  have ok: "\<forall>x \<in> set ?xs. \<forall>d \<in> set (de_dest x). d < length g"
  proof -
    have "extension_ok (length g) (g ! src)" using assms(1,3) by (simp add: graph_ok_def)
    then show ?thesis by (cases k) (auto simp: extension_ok_def infos_of_def)
  qed
  have e: "edges g = es @ concat (map (info_edges (gx_loc (g ! src))) ?xs) @ (concat (map (kind_edges (g ! src)) ks) @ es')"
    using Cons.prems(1) by (simp add: kind_edges_def [of _ k])
  from read_kind [OF assms e Cons.prems(2) ok, of k err] obtain vs s1 where
    vs: "those (map (\<lambda>x. ten_msg_dest_info_to_value g x (g ! src)) ?xs) = Some vs"
      "parse_msg_dest_value k vs s src err = Some (Inr s1)"
      "reading_ok g (es @ ?e) (D(src := (D src)(k := D src k @ ?xs))) s1"
    unfolding kind_edges_def by blast
  let ?D1 = "D(src := (D src)(k := ?xs))"
  have s1: "reading_ok g (es @ ?e) ?D1 s1" using vs(3) Cons.prems(4) by simp
  have step: "parse_kinds (k # ks) (V_object kvs) s src err = parse_kinds ks (V_object kvs) s1 src err"
  proof (cases "?xs = []")
    case True
    with vs(1,2) have "s1 = s" by simp
    with True Cons.prems(5) show ?thesis by (simp add: ten_value_object_peek_def)
  next
    case False
    with vs Cons.prems(5) show ?thesis by (simp add: ten_value_object_peek_def)
  qed
  have "\<forall>k' \<in> set ks. ?D1 src k' = []" using Cons.prems(3,4) by auto
  note IH = Cons.IH [OF _ s1 _ this]
  have D: "?D1(src := (\<lambda>k'. if k' \<in> set ks then dests k' (g ! src) else ?D1 src k')) =
      D(src := (\<lambda>k'. if k' \<in> set (k # ks) then dests k' (g ! src) else D src k'))"
    by (auto simp: fun_eq_iff)
  have e: "edges g = (es @ ?e) @ concat (map (kind_edges (g ! src)) ks) @ es'" using Cons.prems(1) by simp
  have "distinct ks" "\<forall>k \<in> set ks. map_of kvs (dest_key k) = (if dests k (g ! src) = [] then None
      else map_option V_array (those (map (\<lambda>x. ten_msg_dest_info_to_value g x (g ! src)) (dests k (g ! src)))))"
    using Cons.prems(3,5) by simp_all
  from IH [OF e this, unfolded D] obtain s' where
    "parse_kinds ks (V_object kvs) s1 src err = Some (Inr s')"
    "reading_ok g ((es @ ?e) @ concat (map (kind_edges (g ! src)) ks))
      (D(src := (\<lambda>k'. if k' \<in> set (k # ks) then dests k' (g ! src) else D src k'))) s'" by blast
  then show ?case unfolding step by (intro exI [of _ s'] conjI) (simp_all only: concat.simps list.map append_assoc)
qed


text \<open>Reading the connection of one extension, and of all.\<close>

lemma pack_kv_member:
  assumes "those (map (\<lambda>x. ten_msg_dest_info_to_value g x e) xs) = Some vs"
  shows "pack_kv g e key xs = Some (if xs = [] then [] else [(key, V_array vs)])"
  using assms by (simp add: pack_kv_def pack_msg_dest_def)

lemma those_Some: "\<forall>x \<in> set xs. \<exists>y. f x = Some y \<Longrightarrow> \<exists>ys. those (map f xs) = Some ys"
  by (induction xs) auto

lemma written:
  assumes "graph_ok g" and "conversions_written g" and "src < length g"
  shows "\<exists>vs. those (map (\<lambda>x. ten_msg_dest_info_to_value g x (g ! src)) (dests k (g ! src))) = Some vs"
proof (intro those_Some ballI)
  fix x assume x: "x \<in> set (dests k (g ! src))"
  have "extension_ok (length g) (g ! src)" using assms(1,3) by (simp add: graph_ok_def)
  with x have d: "\<forall>d \<in> set (de_dest x). d < length g" by (cases k) (auto simp: extension_ok_def infos_of_def)
  have "\<exists>v. dest_to_value (gx_loc (g ! src)) (de_name x) (g ! d) = Some v" if "d < length g" for d
    by (cases rule: conversions_for_cases [OF assms(1,2) that, where loc = "gx_loc (g ! src)" and name = "de_name x"])
      (simp_all add: dest_to_value_def)
  with d have "\<exists>vs. those (map (\<lambda>d. dest_to_value (gx_loc (g ! src)) (de_name x) (g ! d)) (de_dest x)) = Some vs"
    by (intro those_Some) blast
  then show "\<exists>v. ten_msg_dest_info_to_value g x (g ! src) = Some v" by (auto simp: ten_msg_dest_info_to_value_def)
qed

text \<open>The destinations read after the first \<open>n\<close> extensions.\<close>

definition dests_upto :: "graph_extension list \<Rightarrow> nat \<Rightarrow> nat \<Rightarrow> dest_kind \<Rightarrow> dest_info list" where
  "dests_upto g n i k = (if i < n then dests k (g ! i) else [])"

lemma dests_upto_Suc: "(dests_upto g n)(n := (\<lambda>k. dests k (g ! n))) = dests_upto g (Suc n)"
  by (auto simp: dests_upto_def fun_eq_iff)

lemma read_connection:
  assumes "graph_ok g" and "conversions_written g" and "n < length g"
    and "edges g = es @ extension_edges (g ! n) @ es'" and "reading_ok g es (dests_upto g n) s"
  shows "\<exists>c. ten_extension_info_connection_to_value g (g ! n) = Some c \<and>
    (case c of
       None \<Rightarrow> reading_ok g (es @ extension_edges (g ! n)) (dests_upto g (Suc n)) s
     | Some v \<Rightarrow> ten_value_is_object v \<and> (\<exists>s'. ten_extension_info_parse_connection_src_part_from_value v s err = Some (Inr s') \<and>
         reading_ok g (es @ extension_edges (g ! n)) (dests_upto g (Suc n)) s'))"
proof (cases "gx_cmd (g ! n) = [] \<and> gx_data (g ! n) = [] \<and> gx_video_frame (g ! n) = [] \<and> gx_audio_frame (g ! n) = []
    \<and> gx_contexts (g ! n) = []")
  case True
  then have none: "dests k (g ! n) = []" for k by (cases k) simp_all
  then have "dests_upto g (Suc n) = dests_upto g n" by (auto simp: dests_upto_def fun_eq_iff less_Suc_eq)
  with none assms(5) True show ?thesis
    by (simp add: ten_extension_info_connection_to_value_def extension_edges_def kind_edges_def)
next
  case False
  let ?x = "g ! n"
  note w = written [OF assms(1-3)]
  obtain cmd where cmd: "those (map (\<lambda>x. ten_msg_dest_info_to_value g x ?x) (gx_cmd ?x)) = Some cmd"
    using w [of Cmd_dest] by auto
  obtain data where data: "those (map (\<lambda>x. ten_msg_dest_info_to_value g x ?x) (gx_data ?x)) = Some data"
    using w [of Data_dest] by auto
  obtain video where video: "those (map (\<lambda>x. ten_msg_dest_info_to_value g x ?x) (gx_video_frame ?x)) = Some video"
    using w [of Video_frame_dest] by auto
  obtain audio where audio: "those (map (\<lambda>x. ten_msg_dest_info_to_value g x ?x) (gx_audio_frame ?x)) = Some audio"
    using w [of Audio_frame_dest] by auto
  let ?kv = "\<lambda>key xs vs. if xs = [] then [] else [(key, V_array vs)]"
  let ?kvs = "[string_kv ''app'' (loc_app_uri (gx_loc ?x)), string_kv ''graph'' (loc_graph_id (gx_loc ?x)),
      string_kv ''extension_group'' (gx_group ?x), string_kv ''extension'' (loc_extension_name (gx_loc ?x))] @
      ?kv ''cmd'' (gx_cmd ?x) cmd @ ?kv ''data'' (gx_data ?x) data @ ?kv ''video_frame'' (gx_video_frame ?x) video @
      ?kv ''audio_frame'' (gx_audio_frame ?x) audio"
  have v: "ten_extension_info_connection_to_value g ?x = Some (Some (V_object ?kvs))"
    using False pack_kv_member [OF cmd] pack_kv_member [OF data] pack_kv_member [OF video] pack_kv_member [OF audio]
    by (auto simp: ten_extension_info_connection_to_value_def)
  note l = same_locs_simps [OF reading_locs [OF assms(5)]]
  have locs: "distinct (map gx_loc g)" "loc_extension_name (gx_loc ?x) \<noteq> []"
    using assms(1,3) distinct_locs by (auto simp: graph_ok_def extension_ok_def)
  have "get_extension_info_in_extensions_info (snd s) (Some (loc_app_uri (gx_loc ?x)))
      (Some (loc_graph_id (gx_loc ?x))) None None (Some (loc_extension_name (gx_loc ?x))) True err = Some (Inr (snd s, n))"
    using assms(3) l locs(1) by (intro get_existing) simp_all
  then have found: "connection_extension (V_object ?kvs) (snd s) err = Some (Inr (snd s, n))"
    using locs(2) by (simp add: connection_extension_def string_kv_def ten_value_object_peek_string_def
        ten_value_object_peek_def ten_value_peek_raw_str_def)
  have member: "\<forall>k \<in> set kinds. map_of ?kvs (dest_key k) = (if dests k ?x = [] then None
       else map_option V_array (those (map (\<lambda>x. ten_msg_dest_info_to_value g x ?x) (dests k ?x))))"
    using cmd data video audio by (simp add: string_kv_def map_add_def)
  have "edges g = es @ concat (map (kind_edges ?x) kinds) @ es'" using assms(4) by (simp only: extension_edges_def)
  from read_kinds [OF assms(1-3) this assms(5) _ _ member, of err] obtain s' where
    s': "parse_kinds kinds (V_object ?kvs) s n err = Some (Inr s')"
      "reading_ok g (es @ concat (map (kind_edges ?x) kinds))
        ((dests_upto g n)(n := (\<lambda>k. if k \<in> set kinds then dests k ?x else dests_upto g n n k))) s'"
    by (auto simp: dests_upto_def simp del: fun_upd_apply)
  have "(\<lambda>k. if k \<in> set kinds then dests k ?x else dests_upto g n n k) = (\<lambda>k. dests k ?x)"
    by (rule ext) (metis (full_types) dest_kind.exhaust list.set_intros)
  then have "reading_ok g (es @ extension_edges ?x) (dests_upto g (Suc n)) s'"
    using s'(2) by (simp only: extension_edges_def dests_upto_Suc)
  moreover have "ten_extension_info_parse_connection_src_part_from_value (V_object ?kvs) s err = Some (Inr s')"
    using s'(1) by (simp only: ten_extension_info_parse_connection_src_part_from_value_def found Option.bind.simps
        sum.case prod.case prod.collapse)
  ultimately have "ten_value_is_object (V_object ?kvs) \<and>
      (\<exists>s'. ten_extension_info_parse_connection_src_part_from_value (V_object ?kvs) s err = Some (Inr s') \<and>
         reading_ok g (es @ extension_edges ?x) (dests_upto g (Suc n)) s')" by (intro conjI exI [of _ s']) simp_all
  with v show ?thesis by (intro exI [of _ "Some (V_object ?kvs)"]) (simp only: option.case)
qed


lemma read_connections:
  assumes "graph_ok g" and "conversions_written g"
  shows "n + length xs = length g \<Longrightarrow> drop n g = xs \<Longrightarrow> reading_ok g (edges (take n g)) (dests_upto g n) s \<Longrightarrow>
    \<exists>cs s'. those (map (ten_extension_info_connection_to_value g) xs) = Some cs \<and>
      connections_from_values (List.map_filter id cs) s err = Some (Inr s') \<and>
      reading_ok g (edges g) (dests_upto g (length g)) s'"
proof (induction xs arbitrary: n s)
  case Nil
  then show ?case by (cases s) (simp add: List.map_filter_def)
next
  case (Cons x xs)
  have n: "n < length g" "g ! n = x" "drop (Suc n) g = xs" "Suc n + length xs = length g"
    using Cons.prems(1,2) by (auto simp: nth_via_drop dest: arg_cong [of _ _ tl] simp: tl_drop drop_Suc)
  have take: "edges (take n g) @ extension_edges x = edges (take (Suc n) g)"
    using n by (simp add: edges_def take_Suc_conv_app_nth)
  have "edges g = edges (take n g) @ extension_edges (g ! n) @ edges xs"
    using n(2) Cons.prems(2) by (metis append_take_drop_id concat.simps(2) concat_append edges_def list.simps(9) map_append)
  from read_connection [OF assms n(1) this Cons.prems(3), of err] obtain c where
    c: "ten_extension_info_connection_to_value g x = Some c"
      "case c of None \<Rightarrow> reading_ok g (edges (take (Suc n) g)) (dests_upto g (Suc n)) s
       | Some v \<Rightarrow> ten_value_is_object v \<and> (\<exists>s'. ten_extension_info_parse_connection_src_part_from_value v s err = Some (Inr s') \<and>
           reading_ok g (edges (take (Suc n) g)) (dests_upto g (Suc n)) s')"
    unfolding n(2) take by blast
  show ?case
  proof (cases c)
    case None
    with c Cons.IH [OF n(4,3), of s] show ?thesis by (auto simp: List.map_filter_def)
  next
    case (Some v)
    with c(2) obtain s1 where s1: "ten_value_is_object v"
      "ten_extension_info_parse_connection_src_part_from_value v s err = Some (Inr s1)"
      "reading_ok g (edges (take (Suc n) g)) (dests_upto g (Suc n)) s1" by auto
    from Cons.IH [OF n(4,3) s1(3)] obtain cs s' where
      "those (map (ten_extension_info_connection_to_value g) xs) = Some cs"
      "connections_from_values (List.map_filter id cs) s1 err = Some (Inr s')"
      "reading_ok g (edges g) (dests_upto g (length g)) s'" by blast
    with c(1) Some s1(1,2) show ?thesis
      by (intro exI [of _ "c # cs"] exI [of _ s']) (simp add: List.map_filter_def comp_def)
  qed
qed

text \<open>The nodes alone, without destinations and conversions.\<close>

definition node :: "graph_extension \<Rightarrow> graph_extension" where
  "node x = (without_dests x)\<lparr>gx_contexts := []\<rparr>"

lemma read_node:
  assumes "extension_ok n x" and "gx_loc x \<notin> gx_loc ` set infos"
  shows "ten_extension_info_node_from_value (ten_extension_info_node_to_value x) infos err = Some (Inr (infos @ [node x]))"
proof -
  obtain p where p: "gx_property x = V_object p" using assms(1) by (auto simp: extension_ok_def)
  show ?thesis
    using get_new [OF assms(2), of "gx_group x" "gx_addon x" err] property_merges [OF assms(1)]
    by (simp add: ten_extension_info_node_from_value_def ten_extension_info_node_to_value_def string_kv_def
        ten_value_object_peek_string_def ten_value_object_peek_def ten_value_peek_raw_str_def p
        ten_extension_info_create_def node_def without_dests_def list_update_append)
qed

lemma read_nodes:
  "\<forall>x \<in> set xs. extension_ok n x \<Longrightarrow> distinct (map gx_loc (ys @ xs)) \<Longrightarrow>
   nodes_from_values (map ten_extension_info_node_to_value xs) (map node ys) err = Some (Inr (map node (ys @ xs)))"
proof (induction xs arbitrary: ys)
  case (Cons x xs)
  have "gx_loc x \<notin> gx_loc ` set (map node ys)" using Cons.prems(2) by (auto simp: node_def)
  moreover have "ten_value_is_object (ten_extension_info_node_to_value x)"
    by (simp add: ten_extension_info_node_to_value_def)
  ultimately show ?case
    using read_node [of n x "map node ys" err] Cons.IH [of "ys @ [x]"] Cons.prems by simp
qed simp

lemma written_nodes:
  "distinct (map (ten_loc_to_string \<circ> gx_loc) xs) \<Longrightarrow> set us \<inter> (ten_loc_to_string \<circ> gx_loc) ` set xs = {} \<Longrightarrow>
   nodes_to_values us xs = Inr (map ten_extension_info_node_to_value xs)"
  by (induction xs arbitrary: us) (auto simp: Let_def)


text \<open>A description without the addresses of its conversions.\<close>

definition content :: "graph_extension \<Rightarrow> graph_extension" where
  "content x = x\<lparr>gx_contexts := map (\<lambda>c. (0, snd c)) (gx_contexts x)\<rparr>"

lemma content_eqI:
  assumes "gx_loc x = gx_loc y" and "gx_addon x = gx_addon y" and "gx_group x = gx_group y"
    and "gx_property x = gx_property y" and "\<And>k. dests k x = dests k y"
    and "map snd (gx_contexts x) = map snd (gx_contexts y)"
  shows "content x = content y"
proof -
  have "gx_cmd x = gx_cmd y" "gx_data x = gx_data y" "gx_video_frame x = gx_video_frame y"
    "gx_audio_frame x = gx_audio_frame y"
    using assms(5) [of Cmd_dest] assms(5) [of Data_dest] assms(5) [of Video_frame_dest] assms(5) [of Audio_frame_dest]
    by simp_all
  moreover have "map (\<lambda>c. (0, snd c)) (gx_contexts x) = map (\<lambda>c. (0 :: nat, snd c)) (gx_contexts y)"
    using arg_cong [OF assms(6), of "map (Pair 0)"] by (simp add: comp_def)
  ultimately show ?thesis using assms(1-4) by (simp add: content_def)
qed

lemma reading_done:
  assumes "conversions_written g" and "reading_ok g (edges g) (dests_upto g (length g)) s"
  shows "map content (snd s) = map content g"
proof (rule nth_equalityI)
  fix i assume "i < length (map content (snd s))"
  then have i: "i < length g" "i < length (snd s)" using assms(2) by (simp_all add: reading_ok_def)
  then have "content (snd s ! i) = content (g ! i)"
    using assms by (intro content_eqI) (simp_all add: reading_ok_def dests_upto_def conversions_written_def)
  with i show "map content (snd s) ! i = map content g ! i" by simp
qed (use assms(2) in \<open>simp add: reading_ok_def\<close>)

lemma reading_start:
  assumes "graph_ok g"
  shows "reading_ok g [] (dests_upto g 0) (addr, map node g)"
proof -
  have "dests k (node x) = []" for k x by (cases k) (simp_all add: node_def)
  then show ?thesis by (simp add: reading_ok_def dests_upto_def node_def without_dests_def)
qed

text \<open>C25: The description of a graph, written out as an array of nodes and one of connections, is read back
  into an empty start-graph command without an error, and is the same: addons, groups, locations,
  properties, the destinations of the four kinds of messages and the conversions. The graph has to be
  one that can be written: its extensions have a name, locations that differ also as text, objects
  without repeated keys as properties; and each conversion belongs to one connection.\<close>

theorem graph_value_roundtrip:
  assumes "graph_ok g" and "conversions_written g"
  shows "\<exists>nodes connections s.
    ten_cmd_start_graph_extensions_info_to_value g =
      Some (Inr (V_object [(''nodes'', nodes), (''connections'', connections)])) \<and>
    ten_cmd_start_graph_process_extensions_info
      (\<lambda>field v. Inr (if field = ''nodes'' then nodes else connections, True)) (addr, []) err = Some (Inr s) \<and>
    map content (snd s) = map content g"
proof -
  let ?nodes = "map ten_extension_info_node_to_value g"
  have nodes: "nodes_to_values [] g = Inr ?nodes" using assms(1) by (intro written_nodes) (simp_all add: graph_ok_def)
  have read: "nodes_from_values ?nodes [] err = Some (Inr (map node g))"
    using read_nodes [of g "length g" "[]" err] assms(1) distinct_locs [of g] by (simp add: graph_ok_def)
  from read_connections [OF assms, of 0 g "(addr, map node g)" err] reading_start [OF assms(1), of addr] obtain cs s where
    cs: "those (map (ten_extension_info_connection_to_value g) g) = Some cs"
      "connections_from_values (List.map_filter id cs) (addr, map node g) err = Some (Inr s)"
      "reading_ok g (edges g) (dests_upto g (length g)) s" by (auto simp: edges_def)
  have to: "ten_cmd_start_graph_extensions_info_to_value g =
      Some (Inr (V_object [(''nodes'', V_array ?nodes), (''connections'', V_array (List.map_filter id cs))]))"
    by (simp add: ten_cmd_start_graph_extensions_info_to_value_def nodes cs(1))
  have empty: "ten_cmd_start_graph_extensions_info_to_value [] =
      Some (Inr (V_object [(''nodes'', V_array []), (''connections'', V_array [])]))"
    by (simp add: ten_cmd_start_graph_extensions_info_to_value_def List.map_filter_def)
  have "ten_cmd_start_graph_process_extensions_info
      (\<lambda>field v. Inr (if field = ''nodes'' then V_array ?nodes else V_array (List.map_filter id cs), True)) (addr, []) err =
      Some (Inr s)"
    using read cs(2) by (simp add: ten_cmd_start_graph_process_extensions_info_def empty ten_value_object_peek_def)
  with to reading_done [OF assms(2) cs(3)] show ?thesis by blast
qed


text \<open>A graph of two extensions: a command goes from the first to the second, where it is converted, and data back.\<close>

definition example_conversion :: msg_and_result_conversion where
  "example_conversion =
     \<lparr>ma_msg = Per_property (Some \<lparr>rs_rules = [\<lparr>ru_property_path = ''a'', ru_mode = From_original ''b''\<rparr>],
        rs_keep_original = True\<rparr>), ma_result = None\<rparr>"

definition example_graph :: "graph_extension list" where
  "example_graph =
     [ten_extension_info_create\<lparr>gx_addon := ''p'', gx_group := ''g'', gx_loc := ten_loc_create None None (Some ''a''),
        gx_cmd := [\<lparr>de_name = ''hello'', de_dest = [1]\<rparr>], gx_property := V_object [(''x'', V_int8 1)]\<rparr>,
      ten_extension_info_create\<lparr>gx_addon := ''q'', gx_group := ''g'', gx_loc := ten_loc_create None None (Some ''b''),
        gx_data := [\<lparr>de_name = ''d'', de_dest = [0]\<rparr>],
        gx_contexts := [(7, \<lparr>mc_src_loc = ten_loc_create None None (Some ''a''), mc_msg_name = ''hello'',
                             mc_conversion = Some example_conversion\<rparr>)]\<rparr>]"

lemma example_graph_ok: "graph_ok example_graph" "conversions_written example_graph"
proof -
  show "graph_ok example_graph"
    by (simp add: graph_ok_def extension_ok_def example_graph_def ten_extension_info_create_def ten_loc_defs
        ten_loc_to_string_def infos_of_def keys_ok_object clone_faithful_object context_key_def)
  show "conversions_written example_graph"
    by (simp add: conversions_written_def example_graph_def ten_extension_info_create_def ten_loc_defs less_Suc_eq
        conversions_along_def edges_def extension_edges_def kind_edges_def info_edges_def conversions_for_def
        context_key_def example_conversion_def rule_ok_def)
qed

theorem graph_value_roundtrip_witness:
  "\<exists>nodes connections s. ten_cmd_start_graph_extensions_info_to_value example_graph =
      Some (Inr (V_object [(''nodes'', nodes), (''connections'', connections)])) \<and>
    ten_cmd_start_graph_process_extensions_info
      (\<lambda>field v. Inr (if field = ''nodes'' then nodes else connections, True)) (100, []) True = Some (Inr s) \<and>
    map content (snd s) = map content example_graph"
  using graph_value_roundtrip [OF example_graph_ok, of 100 True] .

text \<open>C26: A copy of the description of a graph, as every start-graph command sent on to another app holds
  one, is equal to the original, down to the objects of the conversions: these are not copied, and as
  each of the two descriptions frees its conversions when it is destroyed, every conversion of the graph
  is freed twice.\<close>

theorem graph_clone_shares_conversions:
  assumes "graph_ok g"
  shows "\<exists>g'. ten_extensions_info_clone g [] = Some g' \<and> map content g' = map content g \<and>
    (\<forall>x \<in> set g. \<forall>c \<in> set (gx_contexts x).
       fst c \<in> set (concat (map ten_extension_info_destroy g)) \<and> fst c \<in> set (concat (map ten_extension_info_destroy g')))"
proof (intro exI [of _ g] conjI ballI)
  fix x c assume "x \<in> set g" "c \<in> set (gx_contexts x)"
  then show "fst c \<in> set (concat (map ten_extension_info_destroy g))"
    "fst c \<in> set (concat (map ten_extension_info_destroy g))"
    by (auto simp: ten_extension_info_destroy_def)
qed (simp_all add: extensions_clone_eq [OF assms])

theorem graph_clone_shares_conversions_witness:
  "\<exists>g'. ten_extensions_info_clone example_graph [] = Some g' \<and> 7 \<in> set (concat (map ten_extension_info_destroy g'))"
proof -
  have c: "example_graph ! 1 \<in> set example_graph" "(7, snd (gx_contexts (example_graph ! 1) ! 0)) \<in> set (gx_contexts (example_graph ! 1))"
    by (simp_all add: example_graph_def)
  from graph_clone_shares_conversions [OF example_graph_ok(1)] obtain g' where
    "ten_extensions_info_clone example_graph [] = Some g'"
    "\<forall>x \<in> set example_graph. \<forall>c \<in> set (gx_contexts x). fst c \<in> set (concat (map ten_extension_info_destroy g'))" by blast
  with c show ?thesis by (metis fst_conv)
qed

end
