(* ===== verification/Start_Graph.thy ===== *)
theory Start_Graph
  imports Graph_Contract "HOL-Library.Multiset"
begin

text \<open>
  The body of a start-graph command (\<open>msg/cmd_base/cmd/start_graph/cmd.c\<close>): the graph it describes, with
  the groups, and what an app finds out from it: the groups that are missing, the apps next to it, and
  the extensions of a group.
\<close>

record start_graph =
  sg_long_running_mode :: bool
  sg_predefined_graph_name :: string
  sg_groups :: "graph_group list"
  sg_extensions :: "graph_extension list"
  sg_graph_json :: string

definition ten_raw_cmd_start_graph_create :: start_graph where
  "ten_raw_cmd_start_graph_create =
     \<lparr>sg_long_running_mode = False, sg_predefined_graph_name = [], sg_groups = [], sg_extensions = [], sg_graph_json = []\<rparr>"

text \<open>The copy of the body when the command is cloned.\<close>

fun clone_groups :: "graph_group list \<Rightarrow> graph_group list \<Rightarrow> graph_group list run" where
  "clone_groups to [] = Some to"
| "clone_groups to (x # xs) = do { to \<leftarrow> ten_extension_group_info_clone x to; clone_groups to xs }"

definition ten_cmd_start_graph_copy_extensions_info :: "start_graph \<Rightarrow> start_graph \<Rightarrow> start_graph run" where
  "ten_cmd_start_graph_copy_extensions_info self src =
     do { groups \<leftarrow> clone_groups (sg_groups self) (sg_groups src);
          extensions \<leftarrow> ten_extensions_info_clone (sg_extensions src) (sg_extensions self);
          Some (self\<lparr>sg_groups := groups, sg_extensions := extensions\<rparr>) }"

definition ten_raw_cmd_start_graph_as_msg_clone :: "start_graph \<Rightarrow> start_graph run" where
  "ten_raw_cmd_start_graph_as_msg_clone self =
     do { let cloned = ten_raw_cmd_start_graph_create\<lparr>sg_long_running_mode := sg_long_running_mode self,
            sg_predefined_graph_name := sg_predefined_graph_name self\<rparr>;
          cloned \<leftarrow> ten_cmd_start_graph_copy_extensions_info cloned self;
          Some (cloned\<lparr>sg_graph_json := sg_graph_json self\<rparr>) }"

definition ten_cmd_start_graph_set_predefined_graph_name :: "start_graph \<Rightarrow> string \<Rightarrow> start_graph" where
  "ten_cmd_start_graph_set_predefined_graph_name self name = self\<lparr>sg_predefined_graph_name := name\<rparr>"

definition ten_cmd_start_graph_set_long_running_mode :: "start_graph \<Rightarrow> bool \<Rightarrow> start_graph" where
  "ten_cmd_start_graph_set_long_running_mode self mode = self\<lparr>sg_long_running_mode := mode\<rparr>"

section \<open>Groups\<close>

text \<open>An extension whose group is not described gets a group of the built-in kind.\<close>

definition has_group :: "graph_group list \<Rightarrow> graph_extension \<Rightarrow> bool" where
  "has_group groups x \<longleftrightarrow>
     list_ex (\<lambda>gg. gx_group x = gg_name gg \<and> loc_app_uri (gx_loc x) = loc_app_uri (gg_loc gg)) groups"

definition builtin_group :: "graph_extension \<Rightarrow> graph_group" where
  "builtin_group x =
     ten_extension_group_info_create\<lparr>gg_addon := ''default_extension_group'', gg_name := gx_group x,
       gg_loc := ten_loc_set ten_loc_init_empty (Some (loc_app_uri (gx_loc x))) None None\<rparr>"

fun add_missing_groups :: "graph_group list \<Rightarrow> graph_extension list \<Rightarrow> graph_group list" where
  "add_missing_groups groups [] = groups"
| "add_missing_groups groups (x # xs) =
     add_missing_groups (if has_group groups x then groups else groups @ [builtin_group x]) xs"

definition ten_raw_cmd_start_graph_add_missing_extension_group_node :: "start_graph \<Rightarrow> start_graph" where
  "ten_raw_cmd_start_graph_add_missing_extension_group_node self =
     self\<lparr>sg_groups := add_missing_groups (sg_groups self) (sg_extensions self)\<rparr>"

text \<open>The instances of a group, by the names of their addons.\<close>

definition
  ten_cmd_start_graph_get_extension_addon_and_instance_name_pairs_of_specified_extension_group ::
  "start_graph \<Rightarrow> string \<Rightarrow> string \<Rightarrow> string \<Rightarrow> (string \<times> string) list" where
  "ten_cmd_start_graph_get_extension_addon_and_instance_name_pairs_of_specified_extension_group self app_uri graph_id
       extension_group_name =
     map (\<lambda>x. (gx_addon x, loc_extension_name (gx_loc x)))
       (filter (\<lambda>x. loc_app_uri (gx_loc x) = app_uri \<and> loc_graph_id (gx_loc x) = graph_id \<and>
                    gx_group x = extension_group_name) (sg_extensions self))"

definition ten_cmd_start_graph_get_requested_extension_names :: "start_graph \<Rightarrow> string list run" where
  "ten_cmd_start_graph_get_requested_extension_names self =
     do { ten_assert (\<forall>x \<in> set (sg_extensions self). loc_extension_name (gx_loc x) \<noteq> []);
          Some (map (\<lambda>x. loc_extension_name (gx_loc x)) (sg_extensions self)) }"

definition ten_cmd_start_graph_fill_loc_info :: "start_graph \<Rightarrow> string \<Rightarrow> string \<Rightarrow> start_graph run" where
  "ten_cmd_start_graph_fill_loc_info self app_uri graph_id =
     do { ten_assert (graph_id \<noteq> []);
          extensions \<leftarrow> ten_extensions_info_fill_loc_info (sg_extensions self) app_uri graph_id;
          Some (self\<lparr>sg_extensions := extensions,
                     sg_groups := ten_extension_groups_info_fill_graph_id (sg_groups self) graph_id\<rparr>) }"

section \<open>The apps to connect to\<close>

text \<open>
  Seen from the source, the target is the app of a destination that is elsewhere; seen from the
  destination, it is the app of a source that sends here. A client has no address to connect to.
\<close>

fun ten_cmd_start_graph_collect_connectable_apps ::
  "graph_extension list \<Rightarrow> string \<Rightarrow> graph_extension \<Rightarrow> nat list \<Rightarrow> string list \<Rightarrow> bool \<Rightarrow> string list" where
  "ten_cmd_start_graph_collect_connectable_apps infos app_uri x [] apps from_src_point_of_view = apps"
| "ten_cmd_start_graph_collect_connectable_apps infos app_uri x (d # ds) apps from_src_point_of_view =
     (let equal = (loc_app_uri (gx_loc (infos ! d)) = app_uri);
          target = loc_app_uri (gx_loc (if from_src_point_of_view then infos ! d else x))
      in ten_cmd_start_graph_collect_connectable_apps infos app_uri x ds
           (if equal = (\<not> from_src_point_of_view) \<and> take 7 target \<noteq> ''client:'' \<and> target \<notin> set apps
            then apps @ [target] else apps) from_src_point_of_view)"

fun collect_infos ::
  "graph_extension list \<Rightarrow> string \<Rightarrow> graph_extension \<Rightarrow> dest_info list \<Rightarrow> string list \<Rightarrow> bool \<Rightarrow> string list" where
  "collect_infos infos app_uri x [] apps from_src_point_of_view = apps"
| "collect_infos infos app_uri x (info # is) apps from_src_point_of_view =
     collect_infos infos app_uri x is
       (ten_cmd_start_graph_collect_connectable_apps infos app_uri x (de_dest info) apps from_src_point_of_view)
       from_src_point_of_view"

definition ten_cmd_start_graph_collect_all_connectable_apps ::
  "graph_extension list \<Rightarrow> string \<Rightarrow> graph_extension \<Rightarrow> string list \<Rightarrow> bool \<Rightarrow> string list" where
  "ten_cmd_start_graph_collect_all_connectable_apps infos app_uri x apps from_src_point_of_view =
     (let apps = collect_infos infos app_uri x (gx_cmd x) apps from_src_point_of_view;
          apps = collect_infos infos app_uri x (gx_video_frame x) apps from_src_point_of_view;
          apps = collect_infos infos app_uri x (gx_audio_frame x) apps from_src_point_of_view
      in collect_infos infos app_uri x (gx_data x) apps from_src_point_of_view)"

fun collect_extensions ::
  "graph_extension list \<Rightarrow> string \<Rightarrow> graph_extension list \<Rightarrow> string list \<Rightarrow> string list" where
  "collect_extensions infos app_uri [] apps = apps"
| "collect_extensions infos app_uri (x # xs) apps =
     collect_extensions infos app_uri xs
       (ten_cmd_start_graph_collect_all_connectable_apps infos app_uri x apps (loc_app_uri (gx_loc x) = app_uri))"

definition ten_cmd_start_graph_collect_all_immediate_connectable_apps :: "start_graph \<Rightarrow> string \<Rightarrow> string list" where
  "ten_cmd_start_graph_collect_all_immediate_connectable_apps self app_uri =
     collect_extensions (sg_extensions self) app_uri (sg_extensions self) []"


section \<open>What they compute\<close>

text \<open>Two apps are next to each other when an extension of one sends to an extension of the other.\<close>

definition next_to :: "graph_extension list \<Rightarrow> string \<Rightarrow> string \<Rightarrow> bool" where
  "next_to g a b \<longleftrightarrow> (\<exists>x \<in> set g. \<exists>info \<in> set (infos_of x). \<exists>d \<in> set (de_dest info).
     (loc_app_uri (gx_loc x) = a \<and> loc_app_uri (gx_loc (g ! d)) = b) \<or>
     (loc_app_uri (gx_loc x) = b \<and> loc_app_uri (gx_loc (g ! d)) = a))"

definition client :: "string \<Rightarrow> bool" where
  "client uri \<longleftrightarrow> take 7 uri = ''client:''"

text \<open>What one extension contributes, in either role.\<close>

definition target :: "graph_extension list \<Rightarrow> string \<Rightarrow> graph_extension \<Rightarrow> nat \<Rightarrow> bool \<Rightarrow> string \<Rightarrow> bool" where
  "target infos app x d from_src u \<longleftrightarrow> \<not> client u \<and> (loc_app_uri (gx_loc (infos ! d)) = app) = (\<not> from_src) \<and>
     u = loc_app_uri (gx_loc (if from_src then infos ! d else x))"

lemma collect_connectable:
  "set (ten_cmd_start_graph_collect_connectable_apps infos app x ds apps from_src) =
     set apps \<union> {u. \<exists>d \<in> set ds. target infos app x d from_src u}"
  "distinct apps \<Longrightarrow> distinct (ten_cmd_start_graph_collect_connectable_apps infos app x ds apps from_src)"
  by (induction ds arbitrary: apps) (auto simp: Let_def target_def client_def)

lemma collect_infos_set:
  "set (collect_infos infos app x is apps from_src) =
     set apps \<union> {u. \<exists>info \<in> set is. \<exists>d \<in> set (de_dest info). target infos app x d from_src u}"
  "distinct apps \<Longrightarrow> distinct (collect_infos infos app x is apps from_src)"
  by (induction "is" arbitrary: apps) (auto simp: collect_connectable)

lemma collect_all_set:
  "set (ten_cmd_start_graph_collect_all_connectable_apps infos app x apps from_src) =
     set apps \<union> {u. \<exists>info \<in> set (infos_of x). \<exists>d \<in> set (de_dest info). target infos app x d from_src u}"
  "distinct apps \<Longrightarrow> distinct (ten_cmd_start_graph_collect_all_connectable_apps infos app x apps from_src)"
  by (auto simp: ten_cmd_start_graph_collect_all_connectable_apps_def Let_def collect_infos_set infos_of_def)

lemma collect_extensions_set:
  "set (collect_extensions infos app xs apps) =
     set apps \<union> {u. \<exists>x \<in> set xs. \<exists>info \<in> set (infos_of x). \<exists>d \<in> set (de_dest info).
       target infos app x d (loc_app_uri (gx_loc x) = app) u}"
  "distinct apps \<Longrightarrow> distinct (collect_extensions infos app xs apps)"
  by (induction xs arbitrary: apps) (auto simp: collect_all_set)

text \<open>C28: An app that starts a graph connects to exactly the other apps that send to it or that it sends to,
  each once, unless they are clients, which cannot be connected to. The relation is symmetric: of two apps
  next to each other neither of which is a client, each one connects to the other.\<close>

theorem connects_to_neighbours:
  fixes sg :: start_graph
  defines "apps \<equiv> ten_cmd_start_graph_collect_all_immediate_connectable_apps sg"
  shows "distinct (apps a) \<and>
    (b \<in> set (apps a) \<longleftrightarrow> b \<noteq> a \<and> \<not> client b \<and> next_to (sg_extensions sg) a b) \<and>
    (\<not> client a \<and> \<not> client b \<longrightarrow> (b \<in> set (apps a) \<longleftrightarrow> a \<in> set (apps b)))"
proof -
  have set: "set (apps a) = {b. b \<noteq> a \<and> \<not> client b \<and> next_to (sg_extensions sg) a b}" for a
    unfolding apps_def ten_cmd_start_graph_collect_all_immediate_connectable_apps_def collect_extensions_set(1)
    by (auto simp: next_to_def target_def; metis)
  have "distinct (apps a)"
    unfolding apps_def ten_cmd_start_graph_collect_all_immediate_connectable_apps_def
    by (simp add: collect_extensions_set(2))
  moreover have "next_to (sg_extensions sg) a b \<longleftrightarrow> next_to (sg_extensions sg) b a"
    by (auto simp: next_to_def)
  ultimately show ?thesis by (auto simp: set)
qed

definition two_apps :: "graph_extension list" where
  "two_apps =
     [ten_extension_info_create\<lparr>gx_addon := ''p'', gx_loc := ten_loc_set ten_loc_init_empty (Some ''x'') None (Some ''a''),
        gx_cmd := [\<lparr>de_name = ''hello'', de_dest = [1]\<rparr>]\<rparr>,
      ten_extension_info_create\<lparr>gx_addon := ''q'', gx_loc := ten_loc_set ten_loc_init_empty (Some ''y'') None (Some ''b'')\<rparr>]"

theorem connects_to_neighbours_witness:
  "''y'' \<in> set (ten_cmd_start_graph_collect_all_immediate_connectable_apps
      (ten_raw_cmd_start_graph_create\<lparr>sg_extensions := two_apps\<rparr>) ''x'') \<and>
   ''x'' \<in> set (ten_cmd_start_graph_collect_all_immediate_connectable_apps
      (ten_raw_cmd_start_graph_create\<lparr>sg_extensions := two_apps\<rparr>) ''y'')"
proof -
  have "next_to two_apps ''x'' ''y''" and "\<not> client ''x''" and "\<not> client ''y''"
    by (simp_all add: next_to_def client_def two_apps_def infos_of_def ten_loc_defs)
  then have "next_to (sg_extensions (ten_raw_cmd_start_graph_create\<lparr>sg_extensions := two_apps\<rparr>)) ''x'' ''y''"
    and "\<not> client ''x''" and "\<not> client ''y''" and "''y'' \<noteq> ''x''" by simp_all
  then show ?thesis
    using connects_to_neighbours [of "ten_raw_cmd_start_graph_create\<lparr>sg_extensions := two_apps\<rparr>" "''x''" "''y''"]
    by blast
qed

text \<open>The groups of an app, and the extensions it has in a graph.\<close>

definition group_key :: "graph_group \<Rightarrow> string \<times> string" where
  "group_key gg = (loc_app_uri (gg_loc gg), gg_name gg)"

definition extension_key :: "graph_extension \<Rightarrow> string \<times> string" where
  "extension_key x = (loc_app_uri (gx_loc x), gx_group x)"

lemma has_group_iff: "has_group groups x \<longleftrightarrow> extension_key x \<in> group_key ` set groups"
  by (auto simp: has_group_def list_ex_iff extension_key_def group_key_def image_iff)

lemma group_key_builtin [simp]: "group_key (builtin_group x) = extension_key x"
  by (simp add: group_key_def builtin_group_def extension_key_def ten_loc_defs)

lemma add_missing_groups_eq:
  "\<exists>new. add_missing_groups groups xs = groups @ new \<and> (\<forall>gg \<in> set new. \<exists>x \<in> set xs. gg = builtin_group x) \<and>
     extension_key ` set xs \<subseteq> group_key ` set (groups @ new) \<and>
     (distinct (map group_key groups) \<longrightarrow> distinct (map group_key (groups @ new)))"
proof (induction xs arbitrary: groups)
  case (Cons x xs)
  let ?groups = "if has_group groups x then groups else groups @ [builtin_group x]"
  from Cons.IH [of ?groups] obtain new where
    new: "add_missing_groups ?groups xs = ?groups @ new" "\<forall>gg \<in> set new. \<exists>x \<in> set xs. gg = builtin_group x"
      "extension_key ` set xs \<subseteq> group_key ` set (?groups @ new)"
      "distinct (map group_key ?groups) \<longrightarrow> distinct (map group_key (?groups @ new))" by blast
  show ?case
  proof (cases "has_group groups x")
    case True
    with new show ?thesis by (intro exI [of _ new]) (auto simp: has_group_iff)
  next
    case False
    with new show ?thesis by (intro exI [of _ "builtin_group x # new"]) (auto simp: has_group_iff)
  qed
qed simp

lemma mset_by_keys:
  "distinct ks \<Longrightarrow> mset (concat (map (\<lambda>k. filter (\<lambda>x. f x = k) xs) ks)) = filter_mset (\<lambda>x. f x \<in> set ks) (mset xs)"
proof (induction ks)
  case (Cons k ks)
  then have "filter_mset (\<lambda>x. f x = k \<or> f x \<in> set ks) (mset xs) =
      filter_mset (\<lambda>x. f x = k) (mset xs) + filter_mset (\<lambda>x. f x \<in> set ks) (mset xs)"
    by (intro multiset_eqI) auto
  with Cons show ?case by simp
qed simp

text \<open>C27: Completing the groups keeps those that are described and adds one built-in group for every other
  name of a group that an extension of an app has; doing it again adds none. The instances that the
  groups of an app then create in a graph are exactly its extensions in that graph, each once.\<close>

theorem groups_create_all_extensions:
  fixes sg :: start_graph and app graph :: string
  defines "sg' \<equiv> ten_raw_cmd_start_graph_add_missing_extension_group_node sg"
  assumes "distinct (map group_key (sg_groups sg))"
  shows "(\<exists>new. sg_groups sg' = sg_groups sg @ new \<and> (\<forall>gg \<in> set new. gg_addon gg = ''default_extension_group'')) \<and>
    ten_raw_cmd_start_graph_add_missing_extension_group_node sg' = sg' \<and>
    mset (concat (map (\<lambda>gg.
        ten_cmd_start_graph_get_extension_addon_and_instance_name_pairs_of_specified_extension_group sg' app graph (gg_name gg))
      (filter (\<lambda>gg. loc_app_uri (gg_loc gg) = app) (sg_groups sg')))) =
    mset (map (\<lambda>x. (gx_addon x, loc_extension_name (gx_loc x)))
      (filter (\<lambda>x. loc_app_uri (gx_loc x) = app \<and> loc_graph_id (gx_loc x) = graph) (sg_extensions sg)))"
proof -
  from add_missing_groups_eq [of "sg_groups sg" "sg_extensions sg"] assms(2) obtain new where
    new: "sg_groups sg' = sg_groups sg @ new" "\<forall>gg \<in> set new. \<exists>x \<in> set (sg_extensions sg). gg = builtin_group x"
      "extension_key ` set (sg_extensions sg) \<subseteq> group_key ` set (sg_groups sg')"
      "distinct (map group_key (sg_groups sg'))"
    unfolding sg'_def ten_raw_cmd_start_graph_add_missing_extension_group_node_def by auto
  have ext: "sg_extensions sg' = sg_extensions sg"
    by (simp add: sg'_def ten_raw_cmd_start_graph_add_missing_extension_group_node_def)
  have again: "add_missing_groups groups xs = groups" if "extension_key ` set xs \<subseteq> group_key ` set groups" for groups xs
    using that by (induction xs) (auto simp: has_group_iff)
  let ?groups = "filter (\<lambda>gg. loc_app_uri (gg_loc gg) = app) (sg_groups sg')"
  let ?xs = "filter (\<lambda>x. loc_app_uri (gx_loc x) = app \<and> loc_graph_id (gx_loc x) = graph) (sg_extensions sg)"
  let ?pair = "\<lambda>x. (gx_addon x, loc_extension_name (gx_loc x))"
  have names: "distinct (map gg_name ?groups)"
  proof -
    have "distinct (map group_key ?groups)" using new(4) by (simp add: distinct_map inj_on_def)
    then show ?thesis by (auto simp: distinct_map inj_on_def group_key_def)
  qed
  have all: "\<forall>x \<in> set ?xs. gx_group x \<in> set (map gg_name ?groups)"
  proof
    fix x assume "x \<in> set ?xs"
    then have "extension_key x \<in> group_key ` set (sg_groups sg')" "loc_app_uri (gx_loc x) = app" using new(3) by auto
    then show "gx_group x \<in> set (map gg_name ?groups)" by (auto simp: extension_key_def group_key_def)
  qed
  have "concat (map (\<lambda>gg.
        ten_cmd_start_graph_get_extension_addon_and_instance_name_pairs_of_specified_extension_group sg' app graph (gg_name gg))
      ?groups) = map ?pair (concat (map (\<lambda>k. filter (\<lambda>x. gx_group x = k) ?xs) (map gg_name ?groups)))"
    by (simp add: map_concat comp_def ext conj_ac
        ten_cmd_start_graph_get_extension_addon_and_instance_name_pairs_of_specified_extension_group_def)
  moreover have "mset (concat (map (\<lambda>k. filter (\<lambda>x. gx_group x = k) ?xs) (map gg_name ?groups))) = mset ?xs"
    using mset_by_keys [OF names, of gx_group ?xs] all by (simp add: filter_mset_eq_conv)
  ultimately have "mset (concat (map (\<lambda>gg.
        ten_cmd_start_graph_get_extension_addon_and_instance_name_pairs_of_specified_extension_group sg' app graph (gg_name gg))
      ?groups)) = mset (map ?pair ?xs)" by (simp only: mset_map)
  moreover have "ten_raw_cmd_start_graph_add_missing_extension_group_node sg' = sg'"
    using again [OF new(3)] ext by (simp add: ten_raw_cmd_start_graph_add_missing_extension_group_node_def)
  moreover have "\<forall>gg \<in> set new. gg_addon gg = ''default_extension_group''" using new(2) by (auto simp: builtin_group_def)
  ultimately show ?thesis using new(1) by blast
qed

theorem groups_create_all_extensions_witness:
  "mset (concat (map (\<lambda>gg.
        ten_cmd_start_graph_get_extension_addon_and_instance_name_pairs_of_specified_extension_group
          (ten_raw_cmd_start_graph_add_missing_extension_group_node
            (ten_raw_cmd_start_graph_create\<lparr>sg_extensions := example_graph\<rparr>)) [] [] (gg_name gg))
      (filter (\<lambda>gg. loc_app_uri (gg_loc gg) = [])
        (sg_groups (ten_raw_cmd_start_graph_add_missing_extension_group_node
          (ten_raw_cmd_start_graph_create\<lparr>sg_extensions := example_graph\<rparr>)))))) =
    mset [(''p'', ''a''), (''q'', ''b'')]"
  using groups_create_all_extensions [of "ten_raw_cmd_start_graph_create\<lparr>sg_extensions := example_graph\<rparr>" "[]" "[]"]
  by (simp add: ten_raw_cmd_start_graph_create_def example_graph_def ten_loc_defs)

end
