(* ===== verification/Ten_Schema.thy ===== *)
theory Ten_Schema
  imports Value_Access Value_Object
begin

text \<open>
  Schemas of values (\<open>schema/schema.c\<close> and its \<open>keywords\<close>): a schema is a table of keywords, built
  from a value such as a parsed JSON object, which values are validated against and adjusted to,
  and which is compared with another schema when two extensions are connected.

  The keyword table and the table of properties are hash tables that keep the order of insertion;
  they are lists here. Iterating goes in order, and a lookup finds the entry added last, which is
  at the front of its bucket. A schema error is the path to the offending part and the error; a
  validation result is an error on the left or nothing on the right.
\<close>

datatype keyword =
    KW_type ten_type
  | KW_properties "(string \<times> schema) list"
  | KW_items schema
  | KW_required "string list"
and schema = Schema "keyword list"

datatype keyword_kind =
    TEN_SCHEMA_KEYWORD_TYPE
  | TEN_SCHEMA_KEYWORD_PROPERTIES
  | TEN_SCHEMA_KEYWORD_ITEMS
  | TEN_SCHEMA_KEYWORD_REQUIRED

fun keyword_kind_of :: "keyword \<Rightarrow> keyword_kind" where
  "keyword_kind_of (KW_type _) = TEN_SCHEMA_KEYWORD_TYPE"
| "keyword_kind_of (KW_properties _) = TEN_SCHEMA_KEYWORD_PROPERTIES"
| "keyword_kind_of (KW_items _) = TEN_SCHEMA_KEYWORD_ITEMS"
| "keyword_kind_of (KW_required _) = TEN_SCHEMA_KEYWORD_REQUIRED"

fun schema_keywords :: "schema \<Rightarrow> keyword list" where
  "schema_keywords (Schema kws) = kws"

type_synonym schema_error = "string \<times> ten_error"

definition schema_fail :: "string \<Rightarrow> schema_error" where
  "schema_fail msg = ([], ten_error_set ten_error_init TEN_ERROR_CODE_GENERIC msg)"

definition prepend_path :: "string \<Rightarrow> schema_error \<Rightarrow> schema_error" where
  "prepend_path s e = (s @ fst e, snd e)"

definition ten_schema_keyword_properties_peek_property_schema ::
  "(string \<times> schema) list \<Rightarrow> string \<Rightarrow> schema option" where
  "ten_schema_keyword_properties_peek_property_schema self prop_name = map_of (rev self) prop_name"

section \<open>Building a schema\<close>

definition ten_schema_keyword_info_get_by_name :: "string \<Rightarrow> keyword_kind option" where
  "ten_schema_keyword_info_get_by_name name =
     map_of [(''type'', TEN_SCHEMA_KEYWORD_TYPE), (''properties'', TEN_SCHEMA_KEYWORD_PROPERTIES),
             (''items'', TEN_SCHEMA_KEYWORD_ITEMS), (''required'', TEN_SCHEMA_KEYWORD_REQUIRED)] name"

datatype schema_class = SCHEMA_OBJECT | SCHEMA_ARRAY | SCHEMA_PRIMITIVE

definition ten_schema_create_by_type :: "string \<Rightarrow> schema_class run" where
  "ten_schema_create_by_type type =
     do { ten_assert (type \<noteq> []);
          case ten_type_from_string type of
            TEN_TYPE_OBJECT \<Rightarrow> Some SCHEMA_OBJECT
          | TEN_TYPE_ARRAY \<Rightarrow> Some SCHEMA_ARRAY
          | TEN_TYPE_INVALID \<Rightarrow> None
          | TEN_TYPE_NULL \<Rightarrow> None
          | _ \<Rightarrow> Some SCHEMA_PRIMITIVE }"

definition ten_schema_keyword_type_create_from_value :: "ten_value \<Rightarrow> keyword run" where
  "ten_schema_keyword_type_create_from_value v =
     (case v of
        V_string s \<Rightarrow>
          (let type = ten_type_from_string s
           in if type = TEN_TYPE_INVALID then None else Some (KW_type type))
      | _ \<Rightarrow> None)"

fun required_items :: "ten_value list \<Rightarrow> string list run" where
  "required_items [] = Some []"
| "required_items (V_string s # vs) = map_option ((#) s) (required_items vs)"
| "required_items (_ # vs) = None"

definition ten_schema_keyword_required_create_from_value ::
  "schema_class \<Rightarrow> ten_value \<Rightarrow> keyword run" where
  "ten_schema_keyword_required_create_from_value owner v =
     (case v of
        V_array vs \<Rightarrow>
          do { ten_assert (owner = SCHEMA_OBJECT);
               keys \<leftarrow> required_items vs;
               if keys = [] then None else Some (KW_required keys) }
      | _ \<Rightarrow> None)"

text \<open>
  A missing or unknown keyword, a keyword of the wrong shape and a keyword of another class of
  schema fail an assertion. \<open>keywords_from_fields\<close> is the loop of \<open>ten_schema_create_from_value\<close>,
  \<open>properties_from_fields\<close> the one of \<open>ten_schema_keyword_properties_create_from_value\<close>.
\<close>

fun ten_schema_create_from_value :: "ten_value \<Rightarrow> schema run"
  and keywords_from_fields :: "schema_class \<Rightarrow> kvs \<Rightarrow> keyword list run"
  and properties_from_fields :: "kvs \<Rightarrow> (string \<times> schema) list run" where
  "ten_schema_create_from_value v =
     (case v of
        V_object flds \<Rightarrow>
          (case ten_value_object_peek_string v ''type'' of
             Some (Some type) \<Rightarrow>
               (case ten_schema_create_by_type type of
                  None \<Rightarrow> None
                | Some class \<Rightarrow> map_option Schema (keywords_from_fields class flds))
           | _ \<Rightarrow> None)
      | _ \<Rightarrow> None)"
| "keywords_from_fields class [] = Some []"
| "keywords_from_fields class ((key, v) # flds) =
     (case ten_schema_keyword_info_get_by_name key of
        None \<Rightarrow> None
      | Some kind \<Rightarrow>
          (case
             (case kind of
                TEN_SCHEMA_KEYWORD_TYPE \<Rightarrow> ten_schema_keyword_type_create_from_value v
              | TEN_SCHEMA_KEYWORD_PROPERTIES \<Rightarrow>
                  (case v of
                     V_object props \<Rightarrow>
                       if class = SCHEMA_OBJECT
                       then map_option KW_properties (properties_from_fields props) else None
                   | _ \<Rightarrow> None)
              | TEN_SCHEMA_KEYWORD_ITEMS \<Rightarrow>
                  (if ten_value_is_object v \<and> class = SCHEMA_ARRAY
                   then map_option KW_items (ten_schema_create_from_value v) else None)
              | TEN_SCHEMA_KEYWORD_REQUIRED \<Rightarrow>
                  ten_schema_keyword_required_create_from_value class v)
           of
             None \<Rightarrow> None
           | Some kw \<Rightarrow> map_option ((#) kw) (keywords_from_fields class flds)))"
| "properties_from_fields [] = Some []"
| "properties_from_fields ((key, v) # flds) =
     (case ten_schema_create_from_value v of
        None \<Rightarrow> None
      | Some s \<Rightarrow> map_option ((#) (key, s)) (properties_from_fields flds))"

declare ten_schema_create_from_value.simps [simp del]

section \<open>Validating a value\<close>

definition ten_schema_keyword_type_validate_value :: "ten_type \<Rightarrow> ten_value \<Rightarrow> schema_error + unit" where
  "ten_schema_keyword_type_validate_value type v =
     (if \<not> ten_type_is_compatible (ten_value_get_type v) type
      then Inl (schema_fail (''the value type does not match the schema type, given: '' @
                  fmt_type (ten_value_get_type v) @ '', expected: '' @ fmt_type type))
      else Inr ())"

text \<open>The absent keys are joined with the index in the whole list deciding on the comma.\<close>

fun absent_keys :: "kvs \<Rightarrow> string list \<Rightarrow> string" where
  "absent_keys kvs [] = []"
| "absent_keys kvs (key # keys) =
     (if kv_peek kvs key = None
      then CHR 0x27 # key @ (if keys = [] then [CHR 0x27] else CHR 0x27 # '', '')
      else []) @ absent_keys kvs keys"

definition ten_schema_keyword_required_validate_value ::
  "string list \<Rightarrow> ten_value \<Rightarrow> (schema_error + unit) run" where
  "ten_schema_keyword_required_validate_value keys v =
     (case v of
        V_object kvs \<Rightarrow>
          do { ten_assert (keys \<noteq> []);
               let absent = absent_keys kvs keys;
               Some (if absent \<noteq> []
                     then Inl (schema_fail (''the required properties are absent: '' @ absent))
                     else Inr ()) }
      | _ \<Rightarrow> Some (Inl (schema_fail ''the value should be an object'')))"

definition not_an :: "string \<Rightarrow> ten_value \<Rightarrow> schema_error" where
  "not_an what v =
     schema_fail (''the value should be an '' @ what @ '', but is: '' @ fmt_type (ten_value_get_type v))"

text \<open>
  The keywords of a schema are tried in order and the first failure ends the validation. The two
  container keywords visit the members of the value, each failure prepending its step to the path.
\<close>

fun ten_schema_validate_value_with_schema_error :: "schema \<Rightarrow> ten_value \<Rightarrow> (schema_error + unit) run"
  and validate_keywords :: "keyword list \<Rightarrow> ten_value \<Rightarrow> (schema_error + unit) run"
  and validate_keyword :: "keyword \<Rightarrow> ten_value \<Rightarrow> (schema_error + unit) run"
  and validate_members :: "(string \<times> schema) list \<Rightarrow> kvs \<Rightarrow> (schema_error + unit) run"
  and validate_elements :: "schema \<Rightarrow> nat \<Rightarrow> ten_value list \<Rightarrow> (schema_error + unit) run" where
  "ten_schema_validate_value_with_schema_error (Schema kws) v = validate_keywords kws v"
| "validate_keywords [] v = Some (Inr ())"
| "validate_keywords (kw # kws) v =
     (case validate_keyword kw v of
        Some (Inr ()) \<Rightarrow> validate_keywords kws v
      | r \<Rightarrow> r)"
| "validate_keyword (KW_type type) v = Some (ten_schema_keyword_type_validate_value type v)"
| "validate_keyword (KW_properties props) v =
     (case v of
        V_object kvs \<Rightarrow> validate_members props kvs
      | _ \<Rightarrow> Some (Inl (not_an ''object'' v)))"
| "validate_keyword (KW_items item_schema) v =
     (case v of
        V_array vs \<Rightarrow> validate_elements item_schema 0 vs
      | _ \<Rightarrow> Some (Inl (not_an ''array'' v)))"
| "validate_keyword (KW_required keys) v = ten_schema_keyword_required_validate_value keys v"
| "validate_members props [] = Some (Inr ())"
| "validate_members props ((key, v) # kvs) =
     (case ten_schema_keyword_properties_peek_property_schema props key of
        None \<Rightarrow> validate_members props kvs
      | Some prop_schema \<Rightarrow>
          (case ten_schema_validate_value_with_schema_error prop_schema v of
             Some (Inr ()) \<Rightarrow> validate_members props kvs
           | Some (Inl e) \<Rightarrow> Some (Inl (prepend_path (CHR ''.'' # key) e))
           | None \<Rightarrow> None))"
| "validate_elements item_schema i [] = Some (Inr ())"
| "validate_elements item_schema i (v # vs) =
     (case ten_schema_validate_value_with_schema_error item_schema v of
        Some (Inr ()) \<Rightarrow> validate_elements item_schema (i + 1) vs
      | Some (Inl e) \<Rightarrow> Some (Inl (prepend_path (CHR ''['' # show_nat i @ '']'') e))
      | None \<Rightarrow> None)"

text \<open>The path is put before the message when it is not empty. A null value is \<open>None\<close>.\<close>

definition path_error :: "schema_error \<Rightarrow> ten_error" where
  "path_error e =
     (if fst e \<noteq> [] then ten_error_prepend_error_message (snd e) (fst e @ '': '') else snd e)"

definition ten_schema_validate_value :: "schema \<Rightarrow> ten_value option \<Rightarrow> (ten_error + unit) run" where
  "ten_schema_validate_value self v =
     (case v of
        None \<Rightarrow> Some (Inl (ten_error_set ten_error_init TEN_ERROR_CODE_GENERIC ''Value is required.''))
      | Some v \<Rightarrow> map_option (map_sum path_error id) (ten_schema_validate_value_with_schema_error self v))"

section \<open>Adjusting a value\<close>

text \<open>
  The conversion functions change the value in place or leave it with an error. The result is the
  error, if any, and the value: what was adjusted before a failure stays adjusted.
\<close>

definition converted :: "ten_value \<Rightarrow> (ten_error + ten_value) run \<Rightarrow> (schema_error option \<times> ten_value) run" where
  "converted v r =
     (case r of
        None \<Rightarrow> None
      | Some (Inl e) \<Rightarrow> Some (Some ([], e), v)
      | Some (Inr v') \<Rightarrow> Some (None, v'))"

definition ten_schema_keyword_type_adjust_value ::
  "fp_host \<Rightarrow> ten_type \<Rightarrow> ten_value \<Rightarrow> (schema_error option \<times> ten_value) run" where
  "ten_schema_keyword_type_adjust_value h type v =
     (if ten_value_get_type v = type then Some (None, v)
      else case type of
        TEN_TYPE_INT8 \<Rightarrow> converted v (ten_value_convert_to_int8 v)
      | TEN_TYPE_INT16 \<Rightarrow> converted v (ten_value_convert_to_int16 v)
      | TEN_TYPE_INT32 \<Rightarrow> converted v (ten_value_convert_to_int32 v)
      | TEN_TYPE_INT64 \<Rightarrow> converted v (ten_value_convert_to_int64 v)
      | TEN_TYPE_UINT8 \<Rightarrow> converted v (ten_value_convert_to_uint8 v)
      | TEN_TYPE_UINT16 \<Rightarrow> converted v (ten_value_convert_to_uint16 v)
      | TEN_TYPE_UINT32 \<Rightarrow> converted v (ten_value_convert_to_uint32 v)
      | TEN_TYPE_UINT64 \<Rightarrow> converted v (ten_value_convert_to_uint64 v)
      | TEN_TYPE_FLOAT32 \<Rightarrow> converted v (ten_value_convert_to_float32 h v)
      | TEN_TYPE_FLOAT64 \<Rightarrow> converted v (ten_value_convert_to_float64 h v)
      | _ \<Rightarrow>
          Some (Some (schema_fail (''unsupported conversion from `'' @ fmt_type (ten_value_get_type v) @
                                   ''` to `'' @ fmt_type type @ ''`'')), v))"

lemma size_peek_property:
  "ten_schema_keyword_properties_peek_property_schema props key = Some s \<Longrightarrow>
   size s < size_list (size_prod (\<lambda>_. 0) size) props"
  unfolding ten_schema_keyword_properties_peek_property_schema_def
  by (drule map_of_SomeD) (auto dest!: size_list_estimation' [where f = "size_prod (\<lambda>_. 0) size" and y = "Suc (size s)"])

function (sequential)
  ten_schema_adjust_value_type_with_schema_error ::
    "fp_host \<Rightarrow> schema \<Rightarrow> ten_value \<Rightarrow> (schema_error option \<times> ten_value) run"
  and adjust_keywords :: "fp_host \<Rightarrow> keyword list \<Rightarrow> ten_value \<Rightarrow> (schema_error option \<times> ten_value) run"
  and adjust_keyword :: "fp_host \<Rightarrow> keyword \<Rightarrow> ten_value \<Rightarrow> (schema_error option \<times> ten_value) run"
  and adjust_members ::
    "fp_host \<Rightarrow> (string \<times> schema) list \<Rightarrow> kvs \<Rightarrow> (schema_error option \<times> kvs) run"
  and adjust_elements ::
    "fp_host \<Rightarrow> schema \<Rightarrow> nat \<Rightarrow> ten_value list \<Rightarrow> (schema_error option \<times> ten_value list) run" where
  "ten_schema_adjust_value_type_with_schema_error h (Schema kws) v = adjust_keywords h kws v"
| "adjust_keywords h [] v = Some (None, v)"
| "adjust_keywords h (kw # kws) v =
     (case adjust_keyword h kw v of
        Some (None, v) \<Rightarrow> adjust_keywords h kws v
      | r \<Rightarrow> r)"
| "adjust_keyword h (KW_type type) v = ten_schema_keyword_type_adjust_value h type v"
| "adjust_keyword h (KW_properties props) v =
     (case v of
        V_object kvs \<Rightarrow> map_option (map_prod id V_object) (adjust_members h props kvs)
      | _ \<Rightarrow> Some (Some (not_an ''object'' v), v))"
| "adjust_keyword h (KW_items item_schema) v =
     (case v of
        V_array vs \<Rightarrow> map_option (map_prod id V_array) (adjust_elements h item_schema 0 vs)
      | _ \<Rightarrow> Some (Some (not_an ''array'' v), v))"
| "adjust_keyword h (KW_required keys) v = Some (None, v)"
| "adjust_members h props [] = Some (None, [])"
| "adjust_members h props ((key, v) # kvs) =
     (case ten_schema_keyword_properties_peek_property_schema props key of
        None \<Rightarrow> map_option (map_prod id ((#) (key, v))) (adjust_members h props kvs)
      | Some prop_schema \<Rightarrow>
          (case ten_schema_adjust_value_type_with_schema_error h prop_schema v of
             None \<Rightarrow> None
           | Some (None, v) \<Rightarrow> map_option (map_prod id ((#) (key, v))) (adjust_members h props kvs)
           | Some (Some e, v) \<Rightarrow> Some (Some (prepend_path (CHR ''.'' # key) e), (key, v) # kvs)))"
| "adjust_elements h item_schema i [] = Some (None, [])"
| "adjust_elements h item_schema i (v # vs) =
     (case ten_schema_adjust_value_type_with_schema_error h item_schema v of
        None \<Rightarrow> None
      | Some (None, v) \<Rightarrow> map_option (map_prod id ((#) v)) (adjust_elements h item_schema (i + 1) vs)
      | Some (Some e, v) \<Rightarrow> Some (Some (prepend_path (CHR ''['' # show_nat i @ '']'') e), v # vs))"
  by pat_completeness auto
termination
  by (relation "measures
      [\<lambda>x. case x of
          Inl (Inl (h, s, v)) \<Rightarrow> 2 * size s
        | Inl (Inr (h, kws, v)) \<Rightarrow> 2 * size_list size kws
        | Inr (Inl (h, kw, v)) \<Rightarrow> 2 * size kw
        | Inr (Inr (Inl (h, props, kvs))) \<Rightarrow> 2 * size_list (size_prod (\<lambda>_. 0) size) props
        | Inr (Inr (Inr (h, s, i, vs))) \<Rightarrow> 2 * size s + 1,
       \<lambda>x. case x of
          Inr (Inr (Inl (h, props, kvs))) \<Rightarrow> length kvs
        | Inr (Inr (Inr (h, s, i, vs))) \<Rightarrow> length vs
        | _ \<Rightarrow> 0]")
    (auto dest: size_peek_property)

definition ten_schema_adjust_value_type ::
  "fp_host \<Rightarrow> schema \<Rightarrow> ten_value option \<Rightarrow> (ten_error option \<times> ten_value option) run" where
  "ten_schema_adjust_value_type h self v =
     (case v of
        None \<Rightarrow>
          Some (Some (ten_error_set ten_error_init TEN_ERROR_CODE_GENERIC ''Value is required.''), None)
      | Some v \<Rightarrow>
          map_option (map_prod (map_option path_error) Some)
            (ten_schema_adjust_value_type_with_schema_error h self v))"

section \<open>Comparing two schemas\<close>

definition ten_schema_peek_keyword_by_type :: "schema \<Rightarrow> keyword_kind \<Rightarrow> keyword option" where
  "ten_schema_peek_keyword_by_type self kind =
     find (\<lambda>kw. keyword_kind_of kw = kind) (rev (schema_keywords self))"

definition ten_schema_keyword_type_is_compatible :: "ten_type \<Rightarrow> ten_type \<Rightarrow> schema_error + unit" where
  "ten_schema_keyword_type_is_compatible self target =
     (if ten_type_is_compatible self target then Inr ()
      else Inl (schema_fail (''type is incompatible, source is ['' @ fmt_type self @
                  ''], but target is ['' @ fmt_type target @ '']'')))"

definition ten_schema_keyword_required_is_compatible ::
  "string list option \<Rightarrow> string list option \<Rightarrow> schema_error + unit" where
  "ten_schema_keyword_required_is_compatible self target =
     (case self of
        None \<Rightarrow> Inl (schema_fail ''the `required` in the source schema is undefined'')
      | Some self \<Rightarrow>
          (case target of
             None \<Rightarrow> Inr ()
           | Some target \<Rightarrow>
               if length self < length target
               then Inl (schema_fail (''required is incompatible, the size of the source can not be '' @
                           ''less than the target.''))
               else let missing_keys = concat (map (\<lambda>key. CHR 0x27 # key @ CHR 0x27 # '', '')
                                         (filter (\<lambda>key. key \<notin> set self) target))
                    in if missing_keys = [] then Inr ()
                       else Inl (schema_fail (''required is incompatible, the properties ['' @ missing_keys @
                              ''] are defined in the source but not in the target''))))"

definition incompatible_field :: "string \<Rightarrow> string \<Rightarrow> schema_error \<Rightarrow> string" where
  "incompatible_field incompatible_fields name e =
     incompatible_fields @ (if incompatible_fields = [] then [] else ''; '') @ CHR ''.'' # name @ fst e @
     '': '' @ error_message (snd e)"

lemma size_peek_keyword:
  "ten_schema_peek_keyword_by_type self kind = Some kw \<Longrightarrow> size kw < size self"
proof -
  assume "ten_schema_peek_keyword_by_type self kind = Some kw"
  then have "kw \<in> set (schema_keywords self)"
    by (auto simp: ten_schema_peek_keyword_by_type_def find_Some_iff intro: nth_mem)
      (metis nth_mem length_rev set_rev)
  then show ?thesis
    by (cases self) (auto dest!: size_list_estimation' [where f = size and y = "size kw"])
qed

text \<open>
  The keywords are compared in the order of their kinds and the first failure ends the comparison.
  The comparison of properties goes on after a failure and lists all properties that fail.
\<close>

function (sequential)
  ten_schema_is_compatible_with_schema_error :: "schema \<Rightarrow> schema \<Rightarrow> (schema_error + unit) run"
  and compatible_kinds :: "keyword_kind list \<Rightarrow> schema \<Rightarrow> schema \<Rightarrow> (schema_error + unit) run"
  and compatible_keyword :: "keyword option \<Rightarrow> keyword option \<Rightarrow> (schema_error + unit) run"
  and compatible_properties ::
    "(string \<times> schema) list \<Rightarrow> (string \<times> schema) list \<Rightarrow> string \<Rightarrow> string run" where
  "ten_schema_is_compatible_with_schema_error self target =
     compatible_kinds
       [TEN_SCHEMA_KEYWORD_TYPE, TEN_SCHEMA_KEYWORD_PROPERTIES, TEN_SCHEMA_KEYWORD_ITEMS,
        TEN_SCHEMA_KEYWORD_REQUIRED] self target"
| "compatible_kinds [] self target = Some (Inr ())"
| "compatible_kinds (kind # kinds) self target =
     (case compatible_keyword (ten_schema_peek_keyword_by_type self kind)
             (ten_schema_peek_keyword_by_type target kind) of
        Some (Inr ()) \<Rightarrow> compatible_kinds kinds self target
      | r \<Rightarrow> r)"
| "compatible_keyword None None = Some (Inr ())"
| "compatible_keyword (Some (KW_type self)) (Some (KW_type target)) =
     Some (ten_schema_keyword_type_is_compatible self target)"
| "compatible_keyword (Some (KW_properties self)) (Some (KW_properties target)) =
     (case compatible_properties self target [] of
        None \<Rightarrow> None
      | Some incompatible_fields \<Rightarrow>
          Some (if incompatible_fields = [] then Inr ()
                else Inl (schema_fail (''{ '' @ incompatible_fields @ '' }''))))"
| "compatible_keyword (Some (KW_items self)) (Some (KW_items target)) =
     map_option (map_sum (prepend_path ''[]'') id)
       (ten_schema_is_compatible_with_schema_error self target)"
| "compatible_keyword (Some (KW_required self)) (Some (KW_required target)) =
     Some (ten_schema_keyword_required_is_compatible (Some self) (Some target))"
| "compatible_keyword None (Some (KW_required target)) =
     Some (ten_schema_keyword_required_is_compatible None (Some target))"
| "compatible_keyword None (Some kw) = Some (Inr ())"
| "compatible_keyword (Some kw) None = Some (Inr ())"
| "compatible_keyword (Some kw) (Some kw') = None"
| "compatible_properties [] target incompatible_fields = Some incompatible_fields"
| "compatible_properties ((name, schema) # props) target incompatible_fields =
     (case ten_schema_keyword_properties_peek_property_schema target name of
        None \<Rightarrow> compatible_properties props target incompatible_fields
      | Some target_schema \<Rightarrow>
          (case ten_schema_is_compatible_with_schema_error schema target_schema of
             None \<Rightarrow> None
           | Some (Inr ()) \<Rightarrow> compatible_properties props target incompatible_fields
           | Some (Inl e) \<Rightarrow>
               compatible_properties props target (incompatible_field incompatible_fields name e)))"
  by pat_completeness auto
termination
  by (relation "measures
      [\<lambda>x. case x of
          Inl (Inl (s, t)) \<Rightarrow> size s
        | Inl (Inr (kinds, s, t)) \<Rightarrow> size s
        | Inr (Inl (kw, kw')) \<Rightarrow> (case kw of None \<Rightarrow> 0 | Some kw \<Rightarrow> size kw)
        | Inr (Inr (props, t, acc)) \<Rightarrow> size_list (size_prod (\<lambda>_. 0) size) props,
       \<lambda>x. case x of
          Inl (Inl (s, t)) \<Rightarrow> 5
        | Inl (Inr (kinds, s, t)) \<Rightarrow> length kinds
        | _ \<Rightarrow> 0]")
    (auto dest: size_peek_keyword split: option.splits)

definition ten_schema_is_compatible :: "schema \<Rightarrow> schema \<Rightarrow> (ten_error + unit) run" where
  "ten_schema_is_compatible self target =
     map_option (map_sum path_error id) (ten_schema_is_compatible_with_schema_error self target)"

end
