(* ===== verification/Schema_Contract.thy ===== *)
theory Schema_Contract
  imports Ten_Schema
begin

text \<open>
  What schemas promise. A declarative reading of a schema is the specification of the validation; a
  schema built from a value is well formed; a value that was adjusted has the types of the schema,
  so that only required members can be missing; and a schema that is compatible with another, and
  says something about every part the other constrains, accepts fewer values.
\<close>

section \<open>The declarative reading of a schema\<close>

text \<open>
  Parameters are the test of a value's type and whether required members are looked for, so that
  one recursion gives the meaning of a schema, of its types alone and of its requirements alone.
\<close>

function (sequential)
  meets :: "(ten_type \<Rightarrow> ten_type \<Rightarrow> bool) \<Rightarrow> bool \<Rightarrow> schema \<Rightarrow> ten_value \<Rightarrow> bool"
  and meets_keyword :: "(ten_type \<Rightarrow> ten_type \<Rightarrow> bool) \<Rightarrow> bool \<Rightarrow> keyword \<Rightarrow> ten_value \<Rightarrow> bool" where
  "meets ty req (Schema kws) v \<longleftrightarrow> (\<forall>kw \<in> set kws. meets_keyword ty req kw v)"
| "meets_keyword ty req (KW_type t) v \<longleftrightarrow> ty (ten_value_get_type v) t"
| "meets_keyword ty req (KW_properties props) v \<longleftrightarrow>
     (case v of
        V_object kvs \<Rightarrow>
          \<forall>kv \<in> set kvs. case ten_schema_keyword_properties_peek_property_schema props (fst kv) of
             None \<Rightarrow> True | Some s \<Rightarrow> meets ty req s (snd kv)
      | _ \<Rightarrow> False)"
| "meets_keyword ty req (KW_items s) v \<longleftrightarrow>
     (case v of V_array vs \<Rightarrow> \<forall>w \<in> set vs. meets ty req s w | _ \<Rightarrow> False)"
| "meets_keyword ty req (KW_required keys) v \<longleftrightarrow>
     (req \<longrightarrow> (case v of V_object kvs \<Rightarrow> set keys \<subseteq> fst ` set kvs | _ \<Rightarrow> False))"
  by pat_completeness auto
termination
  by (relation "measure (\<lambda>x. case x of
          Inl (ty, req, s, v) \<Rightarrow> 2 * size s
        | Inr (ty, req, kw, v) \<Rightarrow> 2 * size kw)")
    (auto dest!: size_list_estimation' [where f = size, OF _ order.refl] dest: size_peek_property)

abbreviation conforms :: "schema \<Rightarrow> ten_value \<Rightarrow> bool" where
  "conforms \<equiv> meets ten_type_is_compatible True"

abbreviation has_types :: "schema \<Rightarrow> ten_value \<Rightarrow> bool" where
  "has_types \<equiv> meets (=) False"

abbreviation has_required :: "schema \<Rightarrow> ten_value \<Rightarrow> bool" where
  "has_required \<equiv> meets (\<lambda>_ _. True) True"

text \<open>Well-formed schemas: what building a schema from a value guarantees.\<close>

fun keyword_of_type :: "ten_type \<Rightarrow> keyword \<Rightarrow> bool" where
  "keyword_of_type t (KW_type t') \<longleftrightarrow> t' = t"
| "keyword_of_type t (KW_properties _) \<longleftrightarrow> t = TEN_TYPE_OBJECT"
| "keyword_of_type t (KW_required _) \<longleftrightarrow> t = TEN_TYPE_OBJECT"
| "keyword_of_type t (KW_items _) \<longleftrightarrow> t = TEN_TYPE_ARRAY"

fun schema_ok :: "schema \<Rightarrow> bool" and keyword_ok :: "keyword \<Rightarrow> bool" where
  "schema_ok (Schema kws) \<longleftrightarrow>
     distinct (map keyword_kind_of kws) \<and> (\<forall>kw \<in> set kws. keyword_ok kw) \<and>
     (\<exists>kw \<in> set kws. case kw of KW_type t \<Rightarrow> \<forall>kw' \<in> set kws. keyword_of_type t kw' | _ \<Rightarrow> False)"
| "keyword_ok (KW_type t) \<longleftrightarrow> t \<noteq> TEN_TYPE_INVALID"
| "keyword_ok (KW_properties props) \<longleftrightarrow> distinct (map fst props) \<and> (\<forall>p \<in> set props. schema_ok (snd p))"
| "keyword_ok (KW_items s) \<longleftrightarrow> schema_ok s"
| "keyword_ok (KW_required keys) \<longleftrightarrow> keys \<noteq> []"

lemma schema_okE:
  assumes "schema_ok (Schema kws)"
  obtains t where "KW_type t \<in> set kws" "\<forall>kw \<in> set kws. keyword_of_type t kw" "t \<noteq> TEN_TYPE_INVALID"
    "distinct (map keyword_kind_of kws)" "\<forall>kw \<in> set kws. keyword_ok kw"
proof -
  from assms obtain kw where kw: "kw \<in> set kws"
    "case kw of KW_type t \<Rightarrow> \<forall>kw' \<in> set kws. keyword_of_type t kw' | _ \<Rightarrow> False" by auto
  from kw(2) obtain t where "kw = KW_type t" by (simp split: keyword.splits)
  with kw assms that show thesis by fastforce
qed

lemma schema_ok_property:
  "keyword_ok (KW_properties props) \<Longrightarrow>
   ten_schema_keyword_properties_peek_property_schema props key = Some s \<Longrightarrow> schema_ok s"
  unfolding ten_schema_keyword_properties_peek_property_schema_def
  by (drule map_of_SomeD) auto

section \<open>Building\<close>

lemma keywords_from_fields_kinds:
  assumes "keywords_from_fields class flds = Some kws"
  shows "map (Some \<circ> keyword_kind_of) kws = map (ten_schema_keyword_info_get_by_name \<circ> fst) flds"
  using assms
proof (induction flds arbitrary: kws)
  case (Cons kv flds)
  obtain key v where kv: "kv = (key, v)" by force
  from Cons.prems obtain kind kw kws' where k: "ten_schema_keyword_info_get_by_name key = Some kind"
    "keywords_from_fields class flds = Some kws'" "kws = kw # kws'"
    by (auto simp: kv split: option.splits)
  have "keyword_kind_of kw = kind"
    using Cons.prems k
    by (cases kind) (auto simp: kv ten_schema_keyword_type_create_from_value_def
        ten_schema_keyword_required_create_from_value_def Let_def Option.bind_eq_Some_conv
        split: ten_value.splits option.splits if_splits)
  with k Cons.IH show ?case by (simp add: kv)
qed simp

lemma keyword_info_inj:
  "ten_schema_keyword_info_get_by_name a = Some k \<Longrightarrow> ten_schema_keyword_info_get_by_name b = Some k \<Longrightarrow> a = b"
  by (auto simp: ten_schema_keyword_info_get_by_name_def split: if_splits)

lemma keyword_info_type: "ten_schema_keyword_info_get_by_name k = Some TEN_SCHEMA_KEYWORD_TYPE \<longleftrightarrow> k = ''type''"
  by (auto simp: ten_schema_keyword_info_get_by_name_def split: if_splits)

lemma properties_from_fields_names:
  "properties_from_fields flds = Some props \<Longrightarrow> map fst props = map fst flds"
  by (induction flds arbitrary: props) (auto split: option.splits)

lemma keywords_from_fields_Cons:
  assumes "keywords_from_fields cls ((key, v) # flds) = Some kws"
  obtains kind kw kws' where "ten_schema_keyword_info_get_by_name key = Some kind"
    "keywords_from_fields cls flds = Some kws'" "kws = kw # kws'" "keyword_kind_of kw = kind"
  using assms keywords_from_fields_kinds [OF assms] by (auto split: option.splits)

lemma keywords_from_fields_type:
  assumes "keywords_from_fields cls flds = Some kws"
  shows "KW_type t \<in> set kws \<longleftrightarrow> (\<exists>s. (''type'', V_string s) \<in> set flds \<and> t = ten_type_from_string s)"
  using assms
proof (induction flds arbitrary: kws)
  case (Cons kv flds)
  obtain key v where kv: "kv = (key, v)" by force
  from Cons.prems obtain kind kw kws' where k: "ten_schema_keyword_info_get_by_name key = Some kind"
    "keywords_from_fields cls flds = Some kws'" "kws = kw # kws'" "keyword_kind_of kw = kind"
    unfolding kv by (rule keywords_from_fields_Cons)
  have "kw = KW_type t \<longleftrightarrow> key = ''type'' \<and> (\<exists>s. v = V_string s \<and> t = ten_type_from_string s)"
  proof (cases "kind = TEN_SCHEMA_KEYWORD_TYPE")
    case True
    then have "ten_schema_keyword_type_create_from_value v = Some kw"
      using Cons.prems k by (auto simp: kv split: option.splits)
    moreover have "key = ''type''" using True k(1) keyword_info_type by simp
    ultimately show ?thesis
      by (auto simp: ten_schema_keyword_type_create_from_value_def Let_def split: ten_value.splits if_splits)
  next
    case False
    with k(1,4) keyword_info_type [of key] show ?thesis by auto
  qed
  with Cons.IH [OF k(2)] show ?case by (auto simp: k(3) kv)
qed simp

fun keyword_of_class :: "schema_class \<Rightarrow> keyword \<Rightarrow> bool" where
  "keyword_of_class cls (KW_type _) \<longleftrightarrow> True"
| "keyword_of_class cls (KW_items _) \<longleftrightarrow> cls = SCHEMA_ARRAY"
| "keyword_of_class cls _ \<longleftrightarrow> cls = SCHEMA_OBJECT"

lemma create_by_type_class:
  "ten_schema_create_by_type ty = Some cls \<Longrightarrow>
   (cls = SCHEMA_OBJECT \<longleftrightarrow> ten_type_from_string ty = TEN_TYPE_OBJECT) \<and>
   (cls = SCHEMA_ARRAY \<longleftrightarrow> ten_type_from_string ty = TEN_TYPE_ARRAY) \<and>
   ten_type_from_string ty \<noteq> TEN_TYPE_INVALID"
  by (auto simp: ten_schema_create_by_type_def split: ten_type.splits)

lemma schema_from_value_ok:
  "ten_schema_create_from_value v = Some s \<Longrightarrow> keys_ok v \<Longrightarrow> schema_ok s"
  "keywords_from_fields cls flds = Some kws \<Longrightarrow> \<forall>kv \<in> set flds. keys_ok (snd kv) \<Longrightarrow>
     \<forall>kw \<in> set kws. keyword_ok kw \<and> keyword_of_class cls kw"
  "properties_from_fields flds = Some props \<Longrightarrow> \<forall>kv \<in> set flds. keys_ok (snd kv) \<Longrightarrow>
     \<forall>p \<in> set props. schema_ok (snd p)"
proof (induction v and cls flds and flds arbitrary: s and kws and props
    rule: ten_schema_create_from_value_keywords_from_fields_properties_from_fields.induct)
  case (1 v)
  from "1.prems"(1) obtain flds ty cls kws where
    v: "v = V_object flds" "ten_value_object_peek_string v ''type'' = Some (Some ty)"
    and cls: "ten_schema_create_by_type ty = Some cls"
    and kws: "keywords_from_fields cls flds = Some kws" "s = Schema kws"
    by (auto simp: ten_schema_create_from_value.simps(1) [of v] split: ten_value.splits option.splits)
  have d: "distinct (map fst flds)" and sub: "\<forall>kv \<in> set flds. keys_ok (snd kv)"
    using "1.prems"(2) v(1) by (auto simp: keys_ok_object list_all_iff)
  have ht: "map_of flds ''type'' = Some (V_string ty)"
    using v by (auto simp: ten_value_object_peek_string_def ten_value_object_peek_def
        ten_value_peek_raw_str_def split: option.splits if_splits)
  let ?t = "ten_type_from_string ty"
  have "(''type'', V_string s) \<in> set flds \<longleftrightarrow> s = ty" for s
    using map_of_eq_Some_iff [OF d, of "''type''" "V_string s"] ht by auto
  then have only: "KW_type t \<in> set kws \<longleftrightarrow> t = ?t" for t
    by (simp add: keywords_from_fields_type [OF kws(1)])
  have all: "\<forall>kw \<in> set kws. keyword_ok kw \<and> keyword_of_class cls kw"
    by (rule "1.IH" [OF v(1,2) refl cls kws(1) sub])
  have "keyword_of_type ?t kw" if "kw \<in> set kws" for kw
  proof -
    have "keyword_of_class cls kw" using all that by blast
    with create_by_type_class [OF cls] only that show ?thesis by (cases kw) auto
  qed
  moreover have "distinct (map keyword_kind_of kws)"
  proof -
    have "distinct (map (Some \<circ> keyword_kind_of) kws)"
      unfolding keywords_from_fields_kinds [OF kws(1)]
    proof (subst distinct_map, intro conjI inj_onI)
      show "distinct flds" using d distinct_map by blast
      fix x y assume xy: "x \<in> set flds" "y \<in> set flds"
        and eq: "(ten_schema_keyword_info_get_by_name \<circ> fst) x = (ten_schema_keyword_info_get_by_name \<circ> fst) y"
      have "ten_schema_keyword_info_get_by_name (fst z) \<noteq> None" if "z \<in> set flds" for z
      proof -
        have "map (Some \<circ> keyword_kind_of) kws = map (ten_schema_keyword_info_get_by_name \<circ> fst) flds"
          by (rule keywords_from_fields_kinds [OF kws(1)])
        then have "(ten_schema_keyword_info_get_by_name \<circ> fst) z \<in> set (map (Some \<circ> keyword_kind_of) kws)"
          using that by simp
        then show ?thesis by auto
      qed
      with xy eq have "fst x = fst y" using keyword_info_inj by (metis comp_apply not_None_eq)
      with d xy show "x = y" by (metis distinct_map inj_onD)
    qed
    then show ?thesis by (simp add: distinct_map inj_on_def)
  qed
  moreover have "KW_type ?t \<in> set kws" using only by blast
  ultimately show ?case using all by (auto simp: kws(2) intro!: bexI [of _ "KW_type ?t"])
next
  case (3 cls key v flds)
  from "3.prems"(1) obtain kind kw kws' where k: "ten_schema_keyword_info_get_by_name key = Some kind"
    "keywords_from_fields cls flds = Some kws'" "kws = kw # kws'" "keyword_kind_of kw = kind"
    by (rule keywords_from_fields_Cons)
  have "keyword_ok kw \<and> keyword_of_class cls kw"
  proof (cases kind)
    case TEN_SCHEMA_KEYWORD_PROPERTIES
    with "3.prems" k obtain props ps where v: "v = V_object props" "cls = SCHEMA_OBJECT"
      "properties_from_fields props = Some ps" "kw = KW_properties ps"
      by (auto split: ten_value.splits if_splits option.splits)
    have "keys_ok v" using "3.prems"(2) by simp
    then have "distinct (map fst props)" "\<forall>kv \<in> set props. keys_ok (snd kv)"
      by (auto simp: v keys_ok_object list_all_iff)
    with "3.IH" TEN_SCHEMA_KEYWORD_PROPERTIES k v show ?thesis
      by (simp add: properties_from_fields_names)
  next
    case TEN_SCHEMA_KEYWORD_ITEMS
    with "3.prems" k "3.IH" show ?thesis by (auto split: if_splits option.splits)
  qed (use "3.prems" k in \<open>auto simp: ten_assert_def ten_schema_keyword_type_create_from_value_def
      ten_schema_keyword_required_create_from_value_def Let_def Option.bind_eq_Some_conv
      split: ten_value.splits option.splits if_splits\<close>)
  moreover have "\<forall>kw \<in> set kws'. keyword_ok kw \<and> keyword_of_class cls kw"
    using "3.IH" "3.prems" k by (auto split: option.splits)
  ultimately show ?case by (simp add: k(3))
next
  case (5 key v flds)
  then show ?case by (fastforce split: option.splits)
qed simp_all

text \<open>A schema that is built from a value is well formed: it has exactly one type, which is a known
  one, no keyword occurs twice, properties and required members belong to objects and items to arrays,
  required members are not an empty list, and the schemas inside are well formed.\<close>

theorem schema_from_value_well_formed:
  assumes "ten_schema_create_from_value v = Some s" and "keys_ok v"
  shows "schema_ok s"
  by (rule schema_from_value_ok(1) [OF assms])

theorem schema_from_value_well_formed_witness:
  "\<exists>s. ten_schema_create_from_value
     (V_object [(''type'', V_string ''object''),
                (''properties'', V_object [(''x'', V_object [(''type'', V_string ''int8'')])]),
                (''required'', V_array [V_string ''x''])]) = Some s \<and> schema_ok s"
proof -
  let ?v = "V_object [(''type'', V_string ''object''),
                (''properties'', V_object [(''x'', V_object [(''type'', V_string ''int8'')])]),
                (''required'', V_array [V_string ''x''])]"
  have "ten_schema_create_from_value ?v =
    Some (Schema [KW_type TEN_TYPE_OBJECT, KW_properties [(''x'', Schema [KW_type TEN_TYPE_INT8])],
                  KW_required [''x'']])"
    by code_simp
  moreover have "keys_ok ?v" by code_simp
  ultimately show ?thesis using schema_from_value_well_formed by blast
qed

section \<open>Validation\<close>

lemma absent_keys_empty: "absent_keys kvs keys = [] \<longleftrightarrow> set keys \<subseteq> fst ` set kvs"
  by (induction keys) (auto simp: map_of_eq_None_iff simp del: not_None_eq)

text \<open>A run that returns, and accepts exactly when the condition holds.\<close>

definition decides :: "(schema_error + unit) run \<Rightarrow> bool \<Rightarrow> bool" where
  "decides r P \<longleftrightarrow> r = Some (Inr ()) \<and> P \<or> (\<exists>e. r = Some (Inl e)) \<and> \<not> P"

lemma decidesI [intro]: "P \<Longrightarrow> decides (Some (Inr ())) P" "\<not> P \<Longrightarrow> decides (Some (Inl e)) P"
  by (simp_all add: decides_def)

lemma decides_Some [simp]: "decides (Some (Inr ())) P \<longleftrightarrow> P" "decides (Some (Inl e)) P \<longleftrightarrow> \<not> P"
  by (auto simp: decides_def)

lemma decidesE [consumes 1, case_names accepts rejects]:
  assumes "decides r P"
  obtains "r = Some (Inr ())" "P" | e where "r = Some (Inl e)" "\<not> P"
  using assms by (auto simp: decides_def)

lemma decides_required:
  "keys \<noteq> [] \<Longrightarrow> decides (ten_schema_keyword_required_validate_value keys v)
     (meets_keyword ty True (KW_required keys) v)"
  by (cases v) (auto simp: ten_schema_keyword_required_validate_value_def Let_def absent_keys_empty
      simp del: not_Some_eq)

lemma validate_decides:
  "schema_ok s \<Longrightarrow> decides (ten_schema_validate_value_with_schema_error s v) (conforms s v)"
  "\<forall>kw \<in> set kws. keyword_ok kw \<Longrightarrow>
     decides (validate_keywords kws v) (\<forall>kw \<in> set kws. meets_keyword ten_type_is_compatible True kw v)"
  "keyword_ok kw \<Longrightarrow>
     decides (validate_keyword kw v) (meets_keyword ten_type_is_compatible True kw v)"
  "keyword_ok (KW_properties props) \<Longrightarrow>
     decides (validate_members props kvs)
       (meets_keyword ten_type_is_compatible True (KW_properties props) (V_object kvs))"
  "schema_ok s \<Longrightarrow> decides (validate_elements s i vs) (\<forall>w \<in> set vs. conforms s w)"
proof (induction s v and kws v and kw v and props kvs and s i vs
    rule: ten_schema_validate_value_with_schema_error_validate_keywords_validate_keyword_validate_members_validate_elements.induct)
  case (3 kw kws v)
  then have "decides (validate_keyword kw v) (meets_keyword ten_type_is_compatible True kw v)" by simp
  then show ?case
  proof (cases rule: decidesE)
    case accepts
    then have "decides (validate_keywords kws v) (\<forall>kw \<in> set kws. meets_keyword ten_type_is_compatible True kw v)"
      using 3 by simp
    moreover have "validate_keywords (kw # kws) v = validate_keywords kws v"
      using accepts by (simp split: unit.splits)
    ultimately show ?thesis using accepts by (simp del: validate_keywords.simps)
  qed simp
next
  case (4 t v)
  then show ?case by (simp add: ten_schema_keyword_type_validate_value_def)
next
  case (5 props v)
  then show ?case by (cases v) auto
next
  case (6 s v)
  then show ?case by (cases v) auto
next
  case (7 keys v)
  then have "keys \<noteq> []" by simp
  from decides_required [OF this, of v ten_type_is_compatible] show ?case by simp
next
  case (9 props key v kvs)
  show ?case
  proof (cases "ten_schema_keyword_properties_peek_property_schema props key")
    case None
    with 9 show ?thesis by simp
  next
    case (Some s)
    with 9 have "decides (ten_schema_validate_value_with_schema_error s v) (conforms s v)"
      using schema_ok_property by blast
    then show ?thesis
    proof (cases rule: decidesE)
      case accepts
      with 9 Some have "decides (validate_members props kvs)
          (meets_keyword ten_type_is_compatible True (KW_properties props) (V_object kvs))"
        by blast
      with accepts Some show ?thesis by (simp split: unit.splits)
    qed (simp add: Some)
  qed
next
  case (11 s i v vs)
  from "11.IH"(1) "11.prems" have "decides (ten_schema_validate_value_with_schema_error s v) (conforms s v)" .
  then show ?case
  proof (cases rule: decidesE)
    case accepts
    with 11 have "decides (validate_elements s (i + 1) vs) (\<forall>w \<in> set vs. conforms s w)" by blast
    with accepts show ?thesis by (simp split: unit.splits)
  qed simp
qed simp_all


definition example_schema :: schema where
  "example_schema =
     Schema [KW_type TEN_TYPE_OBJECT,
             KW_properties [(''id'', Schema [KW_type TEN_TYPE_INT32]),
                            (''tags'', Schema [KW_type TEN_TYPE_ARRAY,
                                               KW_items (Schema [KW_type TEN_TYPE_STRING])])],
             KW_required [''id'']]"

lemma example_schema_ok: "schema_ok example_schema"
  by code_simp


section \<open>Adjusting\<close>

locale type_conversion =
  fixes conv :: "ten_value \<Rightarrow> (ten_error + ten_value) run" and ty :: ten_type
  assumes returns: "\<exists>r. conv v = Some r"
    and gives_type: "conv v = Some (Inr v') \<Longrightarrow> ten_value_get_type v' = ty"
begin

lemma converted_returns: "\<exists>r v'. converted v (conv v) = Some (r, v')"
  using returns [of v] by (auto simp: converted_def split: sum.splits)

lemma converted_type: "converted v (conv v) = Some (None, v') \<Longrightarrow> ten_value_get_type v' = ty"
  using gives_type [of v v'] by (auto simp: converted_def split: option.splits sum.splits)

end

sublocale int_conversion \<subseteq> type_conversion conv ty
  by unfold_locales (auto simp: conv_total conv_Inr_iff)

interpretation to_float32: type_conversion "ten_value_convert_to_float32 h" TEN_TYPE_FLOAT32
  by unfold_locales
    (auto simp: ten_value_convert_to_float32_def ten_type_is_compatible_iff split: ten_value.splits if_splits)

interpretation to_float64: type_conversion "ten_value_convert_to_float64 h" TEN_TYPE_FLOAT64
  by unfold_locales
    (auto simp: ten_value_convert_to_float64_def ten_type_is_compatible_iff split: ten_value.splits if_splits)

lemmas converted_returns =
  to_int8.converted_returns to_int16.converted_returns to_int32.converted_returns
  to_int64.converted_returns to_uint8.converted_returns to_uint16.converted_returns
  to_uint32.converted_returns to_uint64.converted_returns to_float32.converted_returns
  to_float64.converted_returns

lemmas converted_type =
  to_int8.converted_type to_int16.converted_type to_int32.converted_type
  to_int64.converted_type to_uint8.converted_type to_uint16.converted_type
  to_uint32.converted_type to_uint64.converted_type to_float32.converted_type
  to_float64.converted_type

lemma type_adjust_returns: "\<exists>r v'. ten_schema_keyword_type_adjust_value h t v = Some (r, v')"
  by (cases t) (auto simp: ten_schema_keyword_type_adjust_value_def converted_returns)

lemma type_adjust_type:
  "ten_schema_keyword_type_adjust_value h t v = Some (None, v') \<Longrightarrow> ten_value_get_type v' = t"
  by (cases t) (auto simp: ten_schema_keyword_type_adjust_value_def dest: converted_type split: if_splits)

lemma type_adjust_container:
  "ten_schema_keyword_type_adjust_value h t v = Some (None, v') \<Longrightarrow>
   t = TEN_TYPE_OBJECT \<or> t = TEN_TYPE_ARRAY \<Longrightarrow> v' = v"
  by (auto simp: ten_schema_keyword_type_adjust_value_def split: if_splits)

text \<open>Adjusting always returns.\<close>

lemma adjust_returns:
  "\<exists>r v'. ten_schema_adjust_value_type_with_schema_error h s v = Some (r, v')"
  "\<exists>r v'. adjust_keywords h kws v = Some (r, v')"
  "\<exists>r v'. adjust_keyword h kw v = Some (r, v')"
  "\<exists>r kvs'. adjust_members h props kvs = Some (r, kvs')"
  "\<exists>r vs'. adjust_elements h s i vs = Some (r, vs')"
proof (induction h s v and h kws v and h kw v and h props kvs and h s i vs
    rule: ten_schema_adjust_value_type_with_schema_error_adjust_keywords_adjust_keyword_adjust_members_adjust_elements.induct)
  case (3 h kw kws v)
  from 3(1) obtain r v' where r: "adjust_keyword h kw v = Some (r, v')" by blast
  show ?case
  proof (cases r)
    case None
    with 3(2) r show ?thesis by fastforce
  qed (simp add: r)
next
  case (4 h t v)
  show ?case by (simp add: type_adjust_returns)
next
  case (9 h props key v kvs)
  show ?case
  proof (cases "ten_schema_keyword_properties_peek_property_schema props key")
    case None
    with 9 show ?thesis by fastforce
  next
    case (Some s)
    with 9(2) obtain r v' where r: "ten_schema_adjust_value_type_with_schema_error h s v = Some (r, v')"
      by blast
    show ?thesis
    proof (cases r)
      case None
      with 9(3) [OF Some r refl] r Some show ?thesis by fastforce
    qed (simp add: r Some)
  qed
next
  case (11 h s i v vs)
  from 11(1) obtain r v' where r: "ten_schema_adjust_value_type_with_schema_error h s v = Some (r, v')"
    by blast
  show ?case
  proof (cases r)
    case None
    with 11(2) r show ?thesis by fastforce
  qed (simp add: r)
qed (fastforce split: ten_value.splits)+

text \<open>A value that has the types of a schema is not changed by adjusting.\<close>

lemma adjust_identity:
  "has_types s v \<Longrightarrow> ten_schema_adjust_value_type_with_schema_error h s v = Some (None, v)"
  "\<forall>kw \<in> set kws. meets_keyword (=) False kw v \<Longrightarrow> adjust_keywords h kws v = Some (None, v)"
  "meets_keyword (=) False kw v \<Longrightarrow> adjust_keyword h kw v = Some (None, v)"
  "meets_keyword (=) False (KW_properties props) (V_object kvs) \<Longrightarrow>
     adjust_members h props kvs = Some (None, kvs)"
  "\<forall>w \<in> set vs. has_types s w \<Longrightarrow> adjust_elements h s i vs = Some (None, vs)"
proof (induction h s v and h kws v and h kw v and h props kvs and h s i vs
    rule: ten_schema_adjust_value_type_with_schema_error_adjust_keywords_adjust_keyword_adjust_members_adjust_elements.induct)
  case (3 h kw kws v)
  then have "adjust_keyword h kw v = Some (None, v)" by simp
  with 3 show ?case by simp
next
  case (4 h t v)
  then show ?case by (simp add: ten_schema_keyword_type_adjust_value_def)
next
  case (9 h props key v kvs)
  then show ?case by (cases "ten_schema_keyword_properties_peek_property_schema props key") auto
qed (auto split: ten_value.splits)

text \<open>
  Adjusting one keyword does not undo another: of the keywords of an object only the properties
  change the value and of an array only the items, and both keep its type.
\<close>

lemma adjust_keyword_frame:
  assumes "adjust_keyword h kw v = Some (None, v')"
    and "keyword_of_type t kw" "keyword_of_type t kw'" "keyword_kind_of kw \<noteq> keyword_kind_of kw'"
    and "meets_keyword (=) False kw' v"
  shows "meets_keyword (=) False kw' v'"
  using assms by (cases kw; cases kw') (auto dest: type_adjust_container split: ten_value.splits)

lemma adjust_keywords_frame:
  "adjust_keywords h kws v = Some (None, v') \<Longrightarrow> \<forall>kw \<in> set kws. keyword_of_type t kw \<Longrightarrow>
   keyword_of_type t kw' \<Longrightarrow> keyword_kind_of kw' \<notin> keyword_kind_of ` set kws \<Longrightarrow>
   meets_keyword (=) False kw' v \<Longrightarrow> meets_keyword (=) False kw' v'"
proof (induction kws arbitrary: v)
  case (Cons kw kws)
  from Cons.prems(1) obtain w where w: "adjust_keyword h kw v = Some (None, w)"
    "adjust_keywords h kws w = Some (None, v')"
    by (auto split: option.splits prod.splits)
  have "meets_keyword (=) False kw' w"
    by (rule adjust_keyword_frame [OF w(1), of t]) (use Cons.prems in auto)
  with Cons.IH [OF w(2)] Cons.prems show ?case by simp
qed simp

lemma adjust_keywords_types:
  assumes "\<And>kw v v'. kw \<in> set kws \<Longrightarrow> adjust_keyword h kw v = Some (None, v') \<Longrightarrow> meets_keyword (=) False kw v'"
    and "\<forall>kw \<in> set kws. keyword_of_type t kw" and "distinct (map keyword_kind_of kws)"
    and "adjust_keywords h kws v = Some (None, v')"
  shows "\<forall>kw \<in> set kws. meets_keyword (=) False kw v'"
  using assms
proof (induction kws arbitrary: v)
  case (Cons kw kws)
  from Cons.prems(4) obtain w where w: "adjust_keyword h kw v = Some (None, w)"
    "adjust_keywords h kws w = Some (None, v')"
    by (auto split: option.splits prod.splits)
  have "meets_keyword (=) False kw w" using Cons.prems(1) w(1) by simp
  then have "meets_keyword (=) False kw v'"
    using adjust_keywords_frame [OF w(2), of t kw] Cons.prems by simp
  moreover have "\<forall>kw \<in> set kws. meets_keyword (=) False kw v'"
    by (rule Cons.IH [OF _ _ _ w(2)]) (use Cons.prems in simp_all)
  ultimately show ?case by simp
qed simp

text \<open>Adjusting the members or elements adjusts each of them.\<close>

lemma adjust_members_types:
  assumes "\<And>s v v'. s \<in> snd ` set props \<Longrightarrow>
      ten_schema_adjust_value_type_with_schema_error h s v = Some (None, v') \<Longrightarrow> has_types s v'"
    and "adjust_members h props kvs = Some (None, kvs')"
  shows "meets_keyword (=) False (KW_properties props) (V_object kvs') \<and> map fst kvs' = map fst kvs"
  using assms(2)
proof (induction kvs arbitrary: kvs')
  case (Cons kv kvs)
  obtain key v where kv: "kv = (key, v)" by force
  show ?case
  proof (cases "ten_schema_keyword_properties_peek_property_schema props key")
    case None
    with Cons show ?thesis by (fastforce simp: kv)
  next
    case (Some s)
    then have "s \<in> snd ` set props"
      unfolding ten_schema_keyword_properties_peek_property_schema_def
      by (auto dest!: map_of_SomeD intro: rev_image_eqI)
    with Cons Some assms(1) show ?thesis by (fastforce simp: kv split: option.splits prod.splits)
  qed
qed simp

lemma adjust_elements_types:
  assumes "\<And>v v'. ten_schema_adjust_value_type_with_schema_error h s v = Some (None, v') \<Longrightarrow> has_types s v'"
    and "adjust_elements h s i vs = Some (None, vs')"
  shows "(\<forall>w \<in> set vs'. has_types s w) \<and> length vs' = length vs"
  using assms(2)
  by (induction vs arbitrary: i vs') (fastforce split: option.splits prod.splits dest: assms(1))+

lemma adjust_types:
  "schema_ok s \<Longrightarrow> ten_schema_adjust_value_type_with_schema_error h s v = Some (None, v') \<Longrightarrow> has_types s v'"
  "keyword_ok kw \<Longrightarrow> adjust_keyword h kw v = Some (None, v') \<Longrightarrow> meets_keyword (=) False kw v'"
proof (induction s and kw arbitrary: v v' and v v' rule: schema_ok_keyword_ok.induct)
  case (1 kws)
  from "1.prems"(1) obtain t where "\<forall>kw \<in> set kws. keyword_of_type t kw"
    "distinct (map keyword_kind_of kws)" "\<forall>kw \<in> set kws. keyword_ok kw"
    by (rule schema_okE)
  then have "\<forall>kw \<in> set kws. meets_keyword (=) False kw v'"
    by (intro adjust_keywords_types [of kws h t v v']) (use "1.IH" "1.prems" in auto)
  then show ?case by simp
next
  case (2 t)
  then show ?case by (auto dest: type_adjust_type)
next
  case (3 props)
  then obtain kvs kvs' where v: "v = V_object kvs" "v' = V_object kvs'"
    "adjust_members h props kvs = Some (None, kvs')"
    by (auto split: ten_value.splits)
  have "meets_keyword (=) False (KW_properties props) (V_object kvs')"
    using adjust_members_types [OF _ v(3)] 3 by fastforce
  then show ?case using v by simp
next
  case (4 s)
  then obtain vs vs' where v: "v = V_array vs" "v' = V_array vs'"
    "adjust_elements h s 0 vs = Some (None, vs')"
    by (auto split: ten_value.splits)
  with adjust_elements_types [OF _ v(3)] 4 show ?case by auto
qed simp

text \<open>What is left to check of a value of the right types are the required members.\<close>

lemma types_then_conforms:
  "has_types s v \<Longrightarrow> schema_ok s \<Longrightarrow> conforms s v \<longleftrightarrow> has_required s v"
  "meets_keyword (=) False kw v \<Longrightarrow> keyword_ok kw \<Longrightarrow>
     meets_keyword ten_type_is_compatible True kw v \<longleftrightarrow> meets_keyword (\<lambda>_ _. True) True kw v"
proof (induction "(=) :: ten_type \<Rightarrow> ten_type \<Rightarrow> bool" False s v
    and "(=) :: ten_type \<Rightarrow> ten_type \<Rightarrow> bool" False kw v rule: meets_meets_keyword.induct)
  case (2 t v)
  then show ?case by (simp add: ten_type_is_compatible_refl)
next
  case (3 props v)
  show ?case
  proof (cases v)
    case (V_object kvs)
    have "(case ten_schema_keyword_properties_peek_property_schema props (fst kv) of
        None \<Rightarrow> True | Some s \<Rightarrow> conforms s (snd kv)) \<longleftrightarrow>
      (case ten_schema_keyword_properties_peek_property_schema props (fst kv) of
        None \<Rightarrow> True | Some s \<Rightarrow> has_required s (snd kv))" if "kv \<in> set kvs" for kv
    proof (cases "ten_schema_keyword_properties_peek_property_schema props (fst kv)")
      case (Some s)
      have "has_types s (snd kv)" using "3.prems"(1) that by (auto simp: V_object Some)
      with "3.hyps" [OF V_object that Some] schema_ok_property [OF "3.prems"(2) Some] Some
      show ?thesis by simp
    qed simp
    then show ?thesis using V_object by simp
  qed (use 3 in simp_all)
next
  case (4 s v)
  then show ?case by (cases v) auto
qed simp_all



section \<open>Compatibility\<close>

lemma find_rev_kind:
  assumes "distinct (map keyword_kind_of kws)" and "kw \<in> set kws"
  shows "find (\<lambda>k. keyword_kind_of k = keyword_kind_of kw) (rev kws) = Some kw"
proof -
  have "\<exists>k. find (\<lambda>k. keyword_kind_of k = keyword_kind_of kw) (rev kws) = Some k"
    using assms(2) by (auto simp: find_None_iff simp del: not_None_eq simp add: not_None_eq [symmetric])
  then obtain k where k: "find (\<lambda>k. keyword_kind_of k = keyword_kind_of kw) (rev kws) = Some k" ..
  then have "k \<in> set kws" "keyword_kind_of k = keyword_kind_of kw"
    by (auto simp: find_Some_iff) (metis nth_mem length_rev set_rev)
  with assms have "k = kw" by (metis distinct_map inj_onD)
  with k show ?thesis by simp
qed

lemma peek_keyword:
  assumes "schema_ok s" and "kw \<in> set (schema_keywords s)"
  shows "ten_schema_peek_keyword_by_type s (keyword_kind_of kw) = Some kw"
  using assms by (cases s) (simp add: ten_schema_peek_keyword_by_type_def find_rev_kind)

lemma peek_keyword_in:
  "ten_schema_peek_keyword_by_type s kind = Some kw \<Longrightarrow> kw \<in> set (schema_keywords s) \<and> keyword_kind_of kw = kind"
  by (auto simp: ten_schema_peek_keyword_by_type_def find_Some_iff) (metis nth_mem length_rev set_rev)

lemma peek_keyword_kind:
  "ten_schema_peek_keyword_by_type s kind = Some kw \<Longrightarrow> keyword_kind_of kw = kind"
  using peek_keyword_in by blast

text \<open>Comparing always returns: keywords of one kind are compared with each other.\<close>

lemma compatible_returns:
  "\<exists>r. ten_schema_is_compatible_with_schema_error s t = Some r"
  "\<exists>r. compatible_kinds kinds s t = Some r"
  "(\<forall>k k'. kw = Some k \<and> kw' = Some k' \<longrightarrow> keyword_kind_of k = keyword_kind_of k') \<Longrightarrow>
     \<exists>r. compatible_keyword kw kw' = Some r"
  "\<exists>r. compatible_properties props target acc = Some r"
proof (induction s t and kinds s t and kw kw' and props target acc
    rule: ten_schema_is_compatible_with_schema_error_compatible_kinds_compatible_keyword_compatible_properties.induct)
  case (3 kind kinds s t)
  have "\<exists>r. compatible_keyword (ten_schema_peek_keyword_by_type s kind)
      (ten_schema_peek_keyword_by_type t kind) = Some r"
    by (rule 3(1)) (auto dest!: peek_keyword_kind)
  then obtain r where r: "compatible_keyword (ten_schema_peek_keyword_by_type s kind)
      (ten_schema_peek_keyword_by_type t kind) = Some r" ..
  show ?case
  proof (cases r)
    case (Inr u)
    with 3(2) r show ?thesis by (simp split: unit.splits)
  qed (simp add: r)
qed (auto split: option.splits sum.splits unit.splits)

declare ten_schema_is_compatible_with_schema_error.simps [simp del]

lemma compatible_kinds_all:
  "compatible_kinds kinds s t = Some (Inr ()) \<Longrightarrow> kind \<in> set kinds \<Longrightarrow>
   compatible_keyword (ten_schema_peek_keyword_by_type s kind)
     (ten_schema_peek_keyword_by_type t kind) = Some (Inr ())"
  by (induction kinds) (auto split: option.splits sum.splits unit.splits)

lemma compatible_keywords:
  assumes "ten_schema_is_compatible_with_schema_error s t = Some (Inr ())"
  shows "compatible_keyword (ten_schema_peek_keyword_by_type s kind)
     (ten_schema_peek_keyword_by_type t kind) = Some (Inr ())"
proof (rule compatible_kinds_all)
  show "compatible_kinds [TEN_SCHEMA_KEYWORD_TYPE, TEN_SCHEMA_KEYWORD_PROPERTIES, TEN_SCHEMA_KEYWORD_ITEMS,
      TEN_SCHEMA_KEYWORD_REQUIRED] s t = Some (Inr ())"
    using assms by (simp only: ten_schema_is_compatible_with_schema_error.simps)
qed (cases kind; simp)

lemma compatible_properties_grows: "compatible_properties props target acc = Some [] \<Longrightarrow> acc = []"
proof (induction props arbitrary: acc)
  case (Cons p props)
  obtain name s where p: "p = (name, s)" by force
  have "compatible_properties props target acc = Some [] \<or>
      (\<exists>e. compatible_properties props target (incompatible_field acc name e) = Some [])"
    using Cons.prems by (auto simp: p split: option.splits sum.splits unit.splits)
  with Cons.IH show ?case by (fastforce simp: incompatible_field_def)
qed simp

lemma compatible_properties_all:
  "compatible_properties props target acc = Some [] \<Longrightarrow> (name, s) \<in> set props \<Longrightarrow>
   ten_schema_keyword_properties_peek_property_schema target name = Some t \<Longrightarrow>
   ten_schema_is_compatible_with_schema_error s t = Some (Inr ())"
proof (induction props arbitrary: acc)
  case (Cons p props)
  show ?case
  proof (cases "p = (name, s)")
    case True
    with Cons.prems obtain r where r: "ten_schema_is_compatible_with_schema_error s t = Some r"
      by (auto split: option.splits)
    show ?thesis
    proof (cases r)
      case (Inl e)
      with Cons.prems True r have "compatible_properties props target (incompatible_field acc name e) = Some []"
        by simp
      then show ?thesis
        by (auto dest!: compatible_properties_grows simp: incompatible_field_def)
    qed (use r in simp)
  next
    case False
    obtain name' s' where p: "p = (name', s')" by force
    have "\<exists>acc. compatible_properties props target acc = Some []"
      using Cons.prems(1) by (auto simp: p split: option.splits sum.splits unit.splits)
    with Cons.IH Cons.prems False show ?thesis by auto
  qed
qed simp

text \<open>
  A schema covers another if it says something about every part that the other constrains: the
  comparison only looks at what both schemas mention.
\<close>

function (sequential)
  covers :: "schema \<Rightarrow> schema \<Rightarrow> bool" and covers_keyword :: "keyword list \<Rightarrow> keyword \<Rightarrow> bool" where
  "covers (Schema kws) (Schema tkws) \<longleftrightarrow> (\<forall>kw \<in> set tkws. covers_keyword kws kw)"
| "covers_keyword kws (KW_properties tprops) \<longleftrightarrow>
     (\<exists>kw \<in> set kws. case kw of
        KW_properties props \<Rightarrow>
          \<forall>p \<in> set tprops. case ten_schema_keyword_properties_peek_property_schema props (fst p) of
             None \<Rightarrow> False | Some s \<Rightarrow> covers s (snd p)
      | _ \<Rightarrow> False)"
| "covers_keyword kws (KW_items t) \<longleftrightarrow>
     (\<exists>kw \<in> set kws. case kw of KW_items s \<Rightarrow> covers s t | _ \<Rightarrow> False)"
| "covers_keyword kws (KW_type t) \<longleftrightarrow> True"
| "covers_keyword kws (KW_required keys) \<longleftrightarrow> True"
  by pat_completeness auto
termination
  by (relation "measure (\<lambda>x. case x of Inl (s, t) \<Rightarrow> 2 * size t | Inr (kws, kw) \<Rightarrow> 2 * size kw)")
    (auto dest!: size_list_estimation' [where f = size, OF _ order.refl]
      size_list_estimation' [where f = "size_prod (\<lambda>_. 0) size", OF _ order.refl])

lemma conforms_keyword: "conforms (Schema kws) v \<Longrightarrow> kw \<in> set kws \<Longrightarrow> meets_keyword ten_type_is_compatible True kw v"
  by simp

lemma schema_ok_keyword: "schema_ok (Schema kws) \<Longrightarrow> kw \<in> set kws \<Longrightarrow> keyword_ok kw"
  by simp

lemma required_included:
  "ten_schema_keyword_required_is_compatible (Some self) (Some target) = Inr () \<Longrightarrow> set target \<subseteq> set self"
  by (auto simp: ten_schema_keyword_required_is_compatible_def Let_def filter_empty_conv split: if_splits)

lemma covers_propertiesE:
  assumes "covers_keyword kws (KW_properties tprops)"
  obtains props where "KW_properties props \<in> set kws"
    "\<forall>p \<in> set tprops. case ten_schema_keyword_properties_peek_property_schema props (fst p) of
       None \<Rightarrow> False | Some s \<Rightarrow> covers s (snd p)"
proof -
  from assms obtain kw where kw: "kw \<in> set kws" "case kw of KW_properties props \<Rightarrow>
      \<forall>p \<in> set tprops. case ten_schema_keyword_properties_peek_property_schema props (fst p) of
        None \<Rightarrow> False | Some s \<Rightarrow> covers s (snd p) | _ \<Rightarrow> False"
    unfolding covers_keyword.simps by (rule bexE)
  with that show thesis by (cases kw) auto
qed

lemma covers_itemsE:
  assumes "covers_keyword kws (KW_items t)"
  obtains s where "KW_items s \<in> set kws" "covers s t"
proof -
  from assms obtain kw where kw: "kw \<in> set kws" "case kw of KW_items s \<Rightarrow> covers s t | _ \<Rightarrow> False"
    unfolding covers_keyword.simps by (rule bexE)
  with that show thesis by (cases kw) auto
qed

lemma map_sum_eq_Inr: "map_sum f id r = Inr u \<longleftrightarrow> r = Inr u"
  by (cases r) simp_all

lemma map_sum_eq_Inl: "map_sum f id r = Inl e \<longleftrightarrow> (\<exists>e'. r = Inl e' \<and> e = f e')"
  by (cases r) auto

lemma compatible_sound:
  "covers s t \<Longrightarrow> schema_ok s \<Longrightarrow> schema_ok t \<Longrightarrow>
     ten_schema_is_compatible_with_schema_error s t = Some (Inr ()) \<Longrightarrow> conforms s v \<Longrightarrow> conforms t v"
  "covers_keyword kws kw \<Longrightarrow> schema_ok (Schema kws) \<Longrightarrow> keyword_ok kw \<Longrightarrow>
     compatible_keyword (ten_schema_peek_keyword_by_type (Schema kws) (keyword_kind_of kw)) (Some kw) =
       Some (Inr ()) \<Longrightarrow>
     conforms (Schema kws) v \<Longrightarrow> meets_keyword ten_type_is_compatible True kw v"
proof (induction s t and kws kw arbitrary: v and v rule: covers_covers_keyword.induct)
  case (1 kws tkws)
  have "meets_keyword ten_type_is_compatible True kw v" if "kw \<in> set tkws" for kw
  proof -
    have "ten_schema_peek_keyword_by_type (Schema tkws) (keyword_kind_of kw) = Some kw"
      using peek_keyword [OF "1.prems"(3)] that by simp
    with compatible_keywords [OF "1.prems"(4), of "keyword_kind_of kw"]
    have "compatible_keyword (ten_schema_peek_keyword_by_type (Schema kws) (keyword_kind_of kw)) (Some kw) =
        Some (Inr ())" by simp
    with "1.IH" [OF that] "1.prems" that schema_ok_keyword show ?thesis by auto
  qed
  then show ?case by simp
next
  case (2 kws tprops)
  from "2.prems"(1) obtain props where props: "KW_properties props \<in> set kws"
    and cov: "\<forall>p \<in> set tprops. case ten_schema_keyword_properties_peek_property_schema props (fst p) of
             None \<Rightarrow> False | Some s \<Rightarrow> covers s (snd p)"
    by (rule covers_propertiesE)
  have peek: "ten_schema_peek_keyword_by_type (Schema kws) TEN_SCHEMA_KEYWORD_PROPERTIES = Some (KW_properties props)"
    using peek_keyword [OF "2.prems"(2)] props by fastforce
  from "2.prems"(4) have comp: "compatible_properties props tprops [] = Some []"
    by (simp add: peek split: option.splits if_splits)
  from conforms_keyword [OF "2.prems"(5) props] obtain kvs where v: "v = V_object kvs"
    "\<forall>kv \<in> set kvs. case ten_schema_keyword_properties_peek_property_schema props (fst kv) of
             None \<Rightarrow> True | Some s \<Rightarrow> conforms s (snd kv)"
    by (auto split: ten_value.splits)
  have "conforms t w" if "(k, w) \<in> set kvs"
    "ten_schema_keyword_properties_peek_property_schema tprops k = Some t" for k w t
  proof -
    have t: "(k, t) \<in> set tprops"
      using that(2) by (auto simp: ten_schema_keyword_properties_peek_property_schema_def dest: map_of_SomeD)
    with cov obtain s where s: "ten_schema_keyword_properties_peek_property_schema props k = Some s" "covers s t"
      by (fastforce split: option.splits)
    then have "(k, s) \<in> set props"
      by (auto simp: ten_schema_keyword_properties_peek_property_schema_def dest: map_of_SomeD)
    then have "ten_schema_is_compatible_with_schema_error s t = Some (Inr ())"
      using compatible_properties_all [OF comp] that(2) by blast
    moreover have "conforms s w" using v(2) that(1) s(1) by fastforce
    moreover have "schema_ok s" using schema_ok_keyword [OF "2.prems"(2) props] s(1) schema_ok_property by blast
    moreover have "schema_ok t" using "2.prems"(3) t by fastforce
    ultimately show ?thesis using "2.IH" [OF props refl t] s by simp
  qed
  then show ?case using v(1) by (fastforce split: option.splits)
next
  case (3 kws t)
  from "3.prems"(1) obtain s where s: "KW_items s \<in> set kws" "covers s t" by (rule covers_itemsE)
  have "ten_schema_peek_keyword_by_type (Schema kws) TEN_SCHEMA_KEYWORD_ITEMS = Some (KW_items s)"
    using peek_keyword [OF "3.prems"(2) , of "KW_items s"] s by simp
  with "3.prems"(4) have comp: "ten_schema_is_compatible_with_schema_error s t = Some (Inr ())"
    by (auto simp: map_sum_eq_Inr)
  have "schema_ok s" "schema_ok t" using schema_ok_keyword [OF "3.prems"(2) s(1)] "3.prems"(3) by simp_all
  with "3.IH" [OF s(1) refl s(2)] conforms_keyword [OF "3.prems"(5) s(1)] comp
  show ?case by (auto split: ten_value.splits)
next
  case (4 kws t)
  from "4.prems"(2) obtain t' where t': "KW_type t' \<in> set kws" by (rule schema_okE)
  have "ten_schema_peek_keyword_by_type (Schema kws) TEN_SCHEMA_KEYWORD_TYPE = Some (KW_type t')"
    using peek_keyword [OF "4.prems"(2), of "KW_type t'"] t' by simp
  with "4.prems"(4) have "ten_type_is_compatible t' t"
    by (simp add: ten_schema_keyword_type_is_compatible_def split: if_splits)
  moreover have "ten_type_is_compatible (ten_value_get_type v) t'"
    using conforms_keyword [OF "4.prems"(5) t'] by simp
  ultimately show ?case using ten_type_is_compatible_trans by auto
next
  case (5 kws keys)
  show ?case
  proof (cases "ten_schema_peek_keyword_by_type (Schema kws) TEN_SCHEMA_KEYWORD_REQUIRED")
    case None
    with "5.prems"(4) show ?thesis by (simp add: ten_schema_keyword_required_is_compatible_def)
  next
    case (Some kw)
    with peek_keyword_in obtain self where self: "kw = KW_required self" "KW_required self \<in> set kws"
      by (cases kw) fastforce+
    with Some "5.prems"(4) have "set keys \<subseteq> set self" by (simp add: required_included)
    with conforms_keyword [OF "5.prems"(5) self(2)] show ?thesis
      by (auto split: ten_value.splits)
  qed
qed


definition example_target :: schema where
  "example_target =
     Schema [KW_properties [(''id'', Schema [KW_type TEN_TYPE_INT64])],
             KW_required [''id''], KW_type TEN_TYPE_OBJECT]"


text \<open>The comparison alone is not enough: a source that does not mention a property of the target is
  compatible with it, although it lets values of every type through for that property.\<close>

theorem is_compatible_ignores_unmentioned:
  "\<exists>s t v. ten_schema_is_compatible s t = Some (Inr ()) \<and> schema_ok s \<and> schema_ok t \<and>
     ten_schema_validate_value s (Some v) = Some (Inr ()) \<and>
     ten_schema_validate_value t (Some v) \<noteq> Some (Inr ())"
proof -
  let ?s = "Schema [KW_type TEN_TYPE_OBJECT]"
  let ?t = "Schema [KW_type TEN_TYPE_OBJECT, KW_properties [(''id'', Schema [KW_type TEN_TYPE_INT64])]]"
  let ?v = "V_object [(''id'', V_string ''x'')]"
  have "ten_schema_is_compatible ?s ?t = Some (Inr ())" "schema_ok ?s" "schema_ok ?t"
    "ten_schema_validate_value ?s (Some ?v) = Some (Inr ())"
    by code_simp+
  moreover have "\<not> conforms ?t ?v" by code_simp
  then have "ten_schema_validate_value ?t (Some ?v) \<noteq> Some (Inr ())"
    using validate_decides(1) [OF calculation(3), of ?v]
    by (auto simp: ten_schema_validate_value_def decides_def map_sum_eq_Inr)
  ultimately show ?thesis by blast
qed

section \<open>Where a validation fails\<close>

text \<open>The part of a value, and the schema it is checked against, that a path leads to.\<close>

inductive at_path :: "schema \<Rightarrow> ten_value \<Rightarrow> string \<Rightarrow> schema \<Rightarrow> ten_value \<Rightarrow> bool" where
  here: "at_path s v [] s v"
| member: "KW_properties props \<in> set kws \<Longrightarrow> (key, v) \<in> set kvs \<Longrightarrow>
    ten_schema_keyword_properties_peek_property_schema props key = Some s \<Longrightarrow> at_path s v p s' v' \<Longrightarrow>
    at_path (Schema kws) (V_object kvs) (CHR ''.'' # key @ p) s' v'"
| element: "KW_items s \<in> set kws \<Longrightarrow> i < length vs \<Longrightarrow> at_path s (vs ! i) p s' v' \<Longrightarrow>
    at_path (Schema kws) (V_array vs) (CHR ''['' # show_nat i @ '']'' @ p) s' v'"

fun fails_here :: "keyword \<Rightarrow> ten_value \<Rightarrow> bool" where
  "fails_here (KW_type t) v \<longleftrightarrow> \<not> ten_type_is_compatible (ten_value_get_type v) t"
| "fails_here (KW_properties _) v \<longleftrightarrow> ten_value_get_type v \<noteq> TEN_TYPE_OBJECT"
| "fails_here (KW_items _) v \<longleftrightarrow> ten_value_get_type v \<noteq> TEN_TYPE_ARRAY"
| "fails_here (KW_required keys) v \<longleftrightarrow>
     (case v of V_object kvs \<Rightarrow> \<not> set keys \<subseteq> fst ` set kvs | _ \<Rightarrow> True)"

definition blamed :: "schema \<Rightarrow> ten_value \<Rightarrow> string \<Rightarrow> bool" where
  "blamed s v p \<longleftrightarrow>
     (\<exists>s' v' kw. at_path s v p s' v' \<and> kw \<in> set (schema_keywords s') \<and> fails_here kw v')"

lemma blamed_here: "kw \<in> set kws \<Longrightarrow> fails_here kw v \<Longrightarrow> blamed (Schema kws) v []"
  unfolding blamed_def
  by (intro exI [of _ "Schema kws"] exI [of _ v] exI [of _ kw]) (simp add: at_path.here)

lemma blamed_member:
  "KW_properties props \<in> set kws \<Longrightarrow> (key, v) \<in> set kvs \<Longrightarrow>
   ten_schema_keyword_properties_peek_property_schema props key = Some s \<Longrightarrow> blamed s v p \<Longrightarrow>
   blamed (Schema kws) (V_object kvs) (CHR ''.'' # key @ p)"
  unfolding blamed_def by (meson at_path.member)

lemma blamed_element:
  "KW_items s \<in> set kws \<Longrightarrow> i < length vs \<Longrightarrow> blamed s (vs ! i) p \<Longrightarrow>
   blamed (Schema kws) (V_array vs) (CHR ''['' # show_nat i @ '']'' @ p)"
  unfolding blamed_def by (meson at_path.element)

lemma required_error:
  "ten_schema_keyword_required_validate_value keys v = Some (Inl e) \<Longrightarrow>
   fst e = [] \<and> fails_here (KW_required keys) v"
  by (cases v) (auto simp: ten_schema_keyword_required_validate_value_def Let_def absent_keys_empty
      schema_fail_def split: if_splits)

lemma validate_blames:
  "ten_schema_validate_value_with_schema_error s v = Some (Inl e) \<Longrightarrow> blamed s v (fst e)"
  "validate_keywords kws v = Some (Inl e) \<Longrightarrow> set kws \<subseteq> set all \<Longrightarrow> blamed (Schema all) v (fst e)"
  "validate_keyword kw v = Some (Inl e) \<Longrightarrow> kw \<in> set all \<Longrightarrow> blamed (Schema all) v (fst e)"
  "validate_members props kvs = Some (Inl e) \<Longrightarrow>
     \<exists>key w s p. (key, w) \<in> set kvs \<and> fst e = CHR ''.'' # key @ p \<and>
       ten_schema_keyword_properties_peek_property_schema props key = Some s \<and> blamed s w p"
  "validate_elements s i vs = Some (Inl e) \<Longrightarrow>
     \<exists>j p. j < length vs \<and> fst e = CHR ''['' # show_nat (i + j) @ '']'' @ p \<and> blamed s (vs ! j) p"
proof (induction s v and kws v and kw v and props kvs and s i vs
    arbitrary: e and e all and e all and e and e
    rule: ten_schema_validate_value_with_schema_error_validate_keywords_validate_keyword_validate_members_validate_elements.induct)
  case (3 kw kws v)
  consider "validate_keyword kw v = Some (Inl e)" | "validate_keyword kw v = Some (Inr ())"
    "validate_keywords kws v = Some (Inl e)"
    using "3.prems"(1) by (auto split: option.splits sum.splits unit.splits)
  then show ?case using "3.IH" "3.prems"(2) by cases auto
next
  case (4 t v)
  then show ?case
    by (auto simp: ten_schema_keyword_type_validate_value_def schema_fail_def intro!: blamed_here [of "KW_type t"]
        split: if_splits)
next
  case (5 props v)
  show ?case
  proof (cases "\<exists>kvs. v = V_object kvs")
    case True
    then obtain kvs where v: "v = V_object kvs" by blast
    with "5.prems" have "validate_members props kvs = Some (Inl e)" by simp
    from "5.IH" [OF v this] show ?thesis using blamed_member [OF "5.prems"(2)] v by metis
  next
    case False
    then have "ten_value_get_type v \<noteq> TEN_TYPE_OBJECT" by (cases v) auto
    with 5 False show ?thesis
      by (auto simp: not_an_def schema_fail_def intro!: blamed_here [of "KW_properties props"]
          split: ten_value.splits)
  qed
next
  case (6 s v)
  show ?case
  proof (cases "\<exists>vs. v = V_array vs")
    case True
    then obtain vs where v: "v = V_array vs" by blast
    with "6.prems" have "validate_elements s 0 vs = Some (Inl e)" by simp
    from "6.IH" [OF v this] show ?thesis using blamed_element [OF "6.prems"(2)] v by auto
  next
    case False
    then have "ten_value_get_type v \<noteq> TEN_TYPE_ARRAY" by (cases v) auto
    with 6 False show ?thesis
      by (auto simp: not_an_def schema_fail_def intro!: blamed_here [of "KW_items s"] split: ten_value.splits)
  qed
next
  case (7 keys v)
  then show ?case by (auto dest!: required_error intro!: blamed_here [of "KW_required keys"])
next
  case (9 props key v kvs)
  show ?case
  proof (cases "ten_schema_keyword_properties_peek_property_schema props key")
    case None
    with "9.prems" have "validate_members props kvs = Some (Inl e)" by simp
    from "9.IH"(1) [OF None this] show ?thesis by (meson list.set_intros(2))
  next
    case (Some s)
    consider (head) e' where "ten_schema_validate_value_with_schema_error s v = Some (Inl e')"
        "e = prepend_path (CHR ''.'' # key) e'"
      | (tail) "ten_schema_validate_value_with_schema_error s v = Some (Inr ())"
        "validate_members props kvs = Some (Inl e)"
      using "9.prems" Some by (auto split: option.splits sum.splits unit.splits)
    then show ?thesis
    proof cases
      case head
      then have "fst e = CHR ''.'' # key @ fst e'" by (simp add: prepend_path_def)
      with head(1) "9.IH"(2) [OF Some] Some show ?thesis by (meson list.set_intros(1))
    next
      case tail
      from "9.IH"(3) [OF Some tail(1) refl refl tail(2)] show ?thesis by (meson list.set_intros(2))
    qed
  qed
next
  case (11 s i v vs)
  consider (head) e' where "ten_schema_validate_value_with_schema_error s v = Some (Inl e')"
      "e = prepend_path (CHR ''['' # show_nat i @ '']'') e'"
    | (tail) "ten_schema_validate_value_with_schema_error s v = Some (Inr ())"
      "validate_elements s (i + 1) vs = Some (Inl e)"
    using "11.prems" by (auto split: option.splits sum.splits unit.splits)
  then show ?case
  proof cases
    case head
    with "11.IH"(1) have "fst e = CHR ''['' # show_nat (i + 0) @ '']'' @ fst e'" "blamed s ((v # vs) ! 0) (fst e')"
      by (simp_all add: prepend_path_def)
    then show ?thesis by blast
  next
    case tail
    with "11.IH"(2) obtain j p where "j < length vs" "fst e = CHR ''['' # show_nat (i + 1 + j) @ '']'' @ p"
      "blamed s (vs ! j) p" by blast
    then show ?thesis by (intro exI [of _ "Suc j"] exI [of _ p]) simp
  qed
qed auto

text \<open>C21: The error of a failed validation names the part of the value that is at fault: the path before
  its message leads, through the properties and items of the schema, to a part and the schema for
  it of which one keyword fails on the part itself.\<close>

theorem validate_error_names_part:
  assumes "ten_schema_validate_value s (Some v) = Some (Inl e)"
  shows "\<exists>p s' v' kw msg. at_path s v p s' v' \<and> kw \<in> set (schema_keywords s') \<and> fails_here kw v' \<and>
    error_message e = (if p = [] then msg else p @ '': '' @ msg)"
proof -
  from assms obtain e' where e': "ten_schema_validate_value_with_schema_error s v = Some (Inl e')" "e = path_error e'"
    by (auto simp: ten_schema_validate_value_def map_sum_eq_Inl)
  from validate_blames(1) [OF e'(1)] obtain s' v' kw where
    "at_path s v (fst e') s' v' \<and> kw \<in> set (schema_keywords s') \<and> fails_here kw v'"
    by (auto simp: blamed_def)
  moreover have "error_message e = (if fst e' = [] then error_message (snd e')
      else fst e' @ '': '' @ error_message (snd e'))"
    by (simp add: e'(2) path_error_def ten_error_prepend_error_message_def)
  ultimately show ?thesis by blast
qed

theorem validate_error_names_part_witness:
  "\<exists>e p v' kw msg. ten_schema_validate_value example_schema
       (Some (V_object [(''id'', V_int8 5), (''tags'', V_array [V_string ''a'', V_int8 1])])) = Some (Inl e) \<and>
     fails_here kw v' \<and> error_message e = (if p = [] then msg else p @ '': '' @ msg)"
proof -
  let ?v = "V_object [(''id'', V_int8 5), (''tags'', V_array [V_string ''a'', V_int8 1])]"
  have "ten_schema_validate_value example_schema (Some ?v) =
    Some (Inl (path_error (''.tags[1]'', snd (schema_fail
      (''the value type does not match the schema type, given: int8, expected: string'')))))"
    by code_simp
  with validate_error_names_part [of example_schema ?v] show ?thesis by blast
qed

end
