(* ===== verification/Schema_Store.thy ===== *)
theory Schema_Store
  imports Schema_Contract Ten_Msg
begin

text \<open>
  The schemas of an extension (\<open>ten_runtime/schema_store\<close>): one for its own properties and, by
  direction and kind, one for each message it declares, with a second one for the result of a
  command. Messages are adjusted to their schema and then validated when they enter or leave.

  The maps are hash tables by message name, lists here as in \<open>Ten_Schema\<close>. The result schema is only
  present in the maps of commands.
\<close>

record msg_schema =
  ms_msg_name :: string
  ms_property :: "schema option"
  ms_cmd_result :: "schema option"

type_synonym msg_schemas = "(string \<times> msg_schema) list"

record schema_store =
  ss_property :: "schema option"
  ss_cmd_in :: msg_schemas
  ss_cmd_out :: msg_schemas
  ss_data_in :: msg_schemas
  ss_data_out :: msg_schemas
  ss_video_frame_in :: msg_schemas
  ss_video_frame_out :: msg_schemas
  ss_audio_frame_in :: msg_schemas
  ss_audio_frame_out :: msg_schemas

definition ten_schema_store_init :: schema_store where
  "ten_schema_store_init =
     \<lparr>ss_property = None, ss_cmd_in = [], ss_cmd_out = [], ss_data_in = [], ss_data_out = [],
      ss_video_frame_in = [], ss_video_frame_out = [], ss_audio_frame_in = [], ss_audio_frame_out = []\<rparr>"

section \<open>Building the store\<close>

text \<open>No property part gives no schema; a property part of the wrong shape fails an assertion.\<close>

definition ten_schemas_parse_schema_object_for_property :: "ten_value \<Rightarrow> schema option run" where
  "ten_schemas_parse_schema_object_for_property schemas_content =
     (case schemas_content of
        V_object content \<Rightarrow>
          (case kv_peek content ''property'' of
             None \<Rightarrow> Some None
           | Some (V_object property) \<Rightarrow>
               (case kv_peek property ''properties'' of
                  None \<Rightarrow> None
                | Some properties \<Rightarrow>
                    map_option Some (ten_schema_create_from_value (V_object
                      ([(''type'', V_string ''object''), (''properties'', properties)] @
                       (case kv_peek property ''required'' of
                          None \<Rightarrow> [] | Some required \<Rightarrow> [(''required'', required)])))))
           | Some _ \<Rightarrow> None)
      | _ \<Rightarrow> None)"

definition ten_msg_schema_init :: "ten_value \<Rightarrow> msg_schema run" where
  "ten_msg_schema_init msg_schema_value =
     do { ten_assert (ten_value_is_object msg_schema_value);
          name \<leftarrow> ten_value_object_peek_string msg_schema_value ''name'';
          property \<leftarrow> ten_schemas_parse_schema_object_for_property msg_schema_value;
          Some \<lparr>ms_msg_name = (case name of None \<Rightarrow> ''ten:empty'' | Some name \<Rightarrow> name),
                ms_property = property, ms_cmd_result = None\<rparr> }"

definition ten_msg_schema_create :: "ten_value \<Rightarrow> msg_schema run" where
  "ten_msg_schema_create msg_schema_value = ten_msg_schema_init msg_schema_value"

definition ten_cmd_schema_create :: "ten_value \<Rightarrow> msg_schema run" where
  "ten_cmd_schema_create cmd_schema_value =
     do { ten_assert (ten_value_is_object cmd_schema_value);
          self \<leftarrow> ten_msg_schema_init cmd_schema_value;
          result \<leftarrow> ten_value_object_peek cmd_schema_value ''result'';
          case result of
            None \<Rightarrow> Some self
          | Some result \<Rightarrow>
              do { ten_assert (ten_value_is_object result);
                   cmd_result_schema \<leftarrow> ten_schemas_parse_schema_object_for_property result;
                   Some (self\<lparr>ms_cmd_result := cmd_result_schema\<rparr>) } }"

text \<open>Both parse loops: the schemas are added in order under their names.\<close>

fun parse_schemas :: "(ten_value \<Rightarrow> msg_schema run) \<Rightarrow> ten_value list \<Rightarrow> msg_schemas run" where
  "parse_schemas create [] = Some []"
| "parse_schemas create (v # vs) =
     do { s \<leftarrow> create v; rest \<leftarrow> parse_schemas create vs; Some ((ms_msg_name s, s) # rest) }"

definition ten_schemas_parse_cmd_part :: "msg_schemas \<Rightarrow> ten_value option \<Rightarrow> msg_schemas run" where
  "ten_schemas_parse_cmd_part cmd_schema_map cmds_schema_value =
     (case cmds_schema_value of
        None \<Rightarrow> Some cmd_schema_map
      | Some (V_array vs) \<Rightarrow> map_option ((@) cmd_schema_map) (parse_schemas ten_cmd_schema_create vs)
      | Some _ \<Rightarrow> None)"

definition ten_schemas_parse_msg_part :: "msg_schemas \<Rightarrow> ten_value option \<Rightarrow> msg_schemas run" where
  "ten_schemas_parse_msg_part msg_schema_map msgs_schema_value =
     (case msgs_schema_value of
        None \<Rightarrow> Some msg_schema_map
      | Some (V_array vs) \<Rightarrow> map_option ((@) msg_schema_map) (parse_schemas ten_msg_schema_create vs)
      | Some _ \<Rightarrow> None)"

definition schema_def_error :: "string \<Rightarrow> ten_error" where
  "schema_def_error msg = ten_error_set ten_error_init TEN_ERROR_CODE_GENERIC msg"

definition ten_schema_store_set_schema_definition ::
  "schema_store \<Rightarrow> ten_value \<Rightarrow> (ten_error + schema_store) run" where
  "ten_schema_store_set_schema_definition self schema_def =
     (case schema_def of
        V_object kvs \<Rightarrow>
          if kv_peek kvs ''required'' \<noteq> None
          then Some (Inl (schema_def_error
                 ''The schema keyword [required] is only supported in the msg schema.''))
          else if kv_peek kvs ''property'' \<noteq> None \<and> \<not> ten_value_is_object (the (kv_peek kvs ''property''))
          then Some (Inl (schema_def_error ''The schema [property] should be an object.''))
          else do {
            property \<leftarrow> (if kv_peek kvs ''property'' \<noteq> None
                          then ten_schemas_parse_schema_object_for_property schema_def
                          else Some (ss_property self));
            cmd_in \<leftarrow> ten_schemas_parse_cmd_part (ss_cmd_in self) (kv_peek kvs ''cmd_in'');
            cmd_out \<leftarrow> ten_schemas_parse_cmd_part (ss_cmd_out self) (kv_peek kvs ''cmd_out'');
            data_in \<leftarrow> ten_schemas_parse_msg_part (ss_data_in self) (kv_peek kvs ''data_in'');
            data_out \<leftarrow> ten_schemas_parse_msg_part (ss_data_out self) (kv_peek kvs ''data_out'');
            video_in \<leftarrow> ten_schemas_parse_msg_part (ss_video_frame_in self) (kv_peek kvs ''video_frame_in'');
            video_out \<leftarrow> ten_schemas_parse_msg_part (ss_video_frame_out self) (kv_peek kvs ''video_frame_out'');
            audio_in \<leftarrow> ten_schemas_parse_msg_part (ss_audio_frame_in self) (kv_peek kvs ''audio_frame_in'');
            audio_out \<leftarrow> ten_schemas_parse_msg_part (ss_audio_frame_out self) (kv_peek kvs ''audio_frame_out'');
            Some (Inr \<lparr>ss_property = property, ss_cmd_in = cmd_in, ss_cmd_out = cmd_out,
                       ss_data_in = data_in, ss_data_out = data_out, ss_video_frame_in = video_in,
                       ss_video_frame_out = video_out, ss_audio_frame_in = audio_in,
                       ss_audio_frame_out = audio_out\<rparr>)
          }
      | _ \<Rightarrow> Some (Inl (schema_def_error ''The schema should be an object.'')))"

section \<open>The properties of the extension\<close>

definition ten_schema_store_validate_properties ::
  "schema_store \<Rightarrow> ten_value \<Rightarrow> (ten_error + unit) run" where
  "ten_schema_store_validate_properties self props_value =
     (case ss_property self of
        None \<Rightarrow> Some (Inr ())
      | Some s \<Rightarrow> ten_schema_validate_value s (Some props_value))"

text \<open>The cached properties keyword of an object schema; a schema without one fails an assertion.\<close>

definition ten_schema_object_peek_property_schema :: "schema \<Rightarrow> string \<Rightarrow> schema option run" where
  "ten_schema_object_peek_property_schema self prop_name =
     (case ten_schema_peek_keyword_by_type self TEN_SCHEMA_KEYWORD_PROPERTIES of
        Some (KW_properties props) \<Rightarrow>
          Some (ten_schema_keyword_properties_peek_property_schema props prop_name)
      | _ \<Rightarrow> None)"

definition ten_schema_store_validate_property_kv ::
  "schema_store \<Rightarrow> string \<Rightarrow> ten_value \<Rightarrow> (ten_error + unit) run" where
  "ten_schema_store_validate_property_kv self prop_name prop_value =
     do { ten_assert (prop_name \<noteq> []);
          case ss_property self of
            None \<Rightarrow> Some (Inr ())
          | Some s \<Rightarrow>
              do { prop_schema \<leftarrow> ten_schema_object_peek_property_schema s prop_name;
                   case prop_schema of
                     None \<Rightarrow> Some (Inr ())
                   | Some prop_schema \<Rightarrow> ten_schema_validate_value prop_schema (Some prop_value) } }"

definition ten_schema_store_adjust_property_kv ::
  "fp_host \<Rightarrow> schema_store \<Rightarrow> string \<Rightarrow> ten_value \<Rightarrow> (ten_error option \<times> ten_value option) run" where
  "ten_schema_store_adjust_property_kv h self prop_name prop_value =
     do { ten_assert (prop_name \<noteq> []);
          case ss_property self of
            None \<Rightarrow> Some (None, Some prop_value)
          | Some s \<Rightarrow>
              do { prop_schema \<leftarrow> ten_schema_object_peek_property_schema s prop_name;
                   case prop_schema of
                     None \<Rightarrow> Some (None, Some prop_value)
                   | Some prop_schema \<Rightarrow> ten_schema_adjust_value_type h prop_schema (Some prop_value) } }"

definition ten_schema_store_adjust_properties ::
  "fp_host \<Rightarrow> schema_store \<Rightarrow> ten_value \<Rightarrow> (ten_error option \<times> ten_value option) run" where
  "ten_schema_store_adjust_properties h self props_value =
     (case ss_property self of
        None \<Rightarrow> Some (None, Some props_value)
      | Some s \<Rightarrow> ten_schema_adjust_value_type h s (Some props_value))"

section \<open>Messages\<close>

definition schema_map :: "schema_store \<Rightarrow> msg_type \<Rightarrow> bool \<Rightarrow> msg_schemas run" where
  "schema_map self msg_type is_msg_out =
     (case msg_type of
        TEN_MSG_TYPE_DATA \<Rightarrow> Some (if is_msg_out then ss_data_out self else ss_data_in self)
      | TEN_MSG_TYPE_VIDEO_FRAME \<Rightarrow>
          Some (if is_msg_out then ss_video_frame_out self else ss_video_frame_in self)
      | TEN_MSG_TYPE_AUDIO_FRAME \<Rightarrow>
          Some (if is_msg_out then ss_audio_frame_out self else ss_audio_frame_in self)
      | TEN_MSG_TYPE_CMD \<Rightarrow> Some (if is_msg_out then ss_cmd_out self else ss_cmd_in self)
      | TEN_MSG_TYPE_CMD_RESULT \<Rightarrow> Some (if is_msg_out then ss_cmd_out self else ss_cmd_in self)
      | _ \<Rightarrow> None)"

definition ten_schema_store_get_msg_schema ::
  "schema_store \<Rightarrow> msg_type \<Rightarrow> string \<Rightarrow> bool \<Rightarrow> msg_schema option run" where
  "ten_schema_store_get_msg_schema self msg_type msg_name is_msg_out =
     do { m \<leftarrow> schema_map self msg_type is_msg_out;
          ten_assert (msg_type \<in> {TEN_MSG_TYPE_CMD, TEN_MSG_TYPE_CMD_RESULT} \<longrightarrow> msg_name \<noteq> []);
          Some (map_of (rev m) (if msg_name = [] then ''ten:empty'' else msg_name)) }"

text \<open>
  Adjusting and validating the properties of a message with an optional schema: the error, if any,
  and the properties, which are adjusted in place. The conversion functions never take the properties
  away, the \<open>None\<close> case does not occur.
\<close>

definition check_properties ::
  "fp_host \<Rightarrow> schema option \<Rightarrow> ten_value \<Rightarrow> (ten_error option \<times> ten_value) run" where
  "check_properties h property props =
     (case property of
        None \<Rightarrow> Some (None, props)
      | Some s \<Rightarrow>
          (case ten_schema_adjust_value_type h s (Some props) of
             Some (Some e, Some props') \<Rightarrow> Some (Some e, props')
           | Some (None, Some props') \<Rightarrow>
               (case ten_schema_validate_value s (Some props') of
                  None \<Rightarrow> None
                | Some (Inl e) \<Rightarrow> Some (Some e, props')
                | Some (Inr _) \<Rightarrow> Some (None, props'))
           | _ \<Rightarrow> None))"

definition ten_raw_msg_validate_schema ::
  "fp_host \<Rightarrow> ten_msg \<Rightarrow> schema_store \<Rightarrow> bool \<Rightarrow> (ten_error option \<times> ten_msg) run" where
  "ten_raw_msg_validate_schema h self store is_msg_out =
     do { ten_assert (ten_msg_is_cmd_and_result self \<longrightarrow> ten_msg_get_name self \<noteq> []);
          s \<leftarrow> ten_schema_store_get_msg_schema store (ten_msg_get_type self) (ten_msg_get_name self) is_msg_out;
          case s of
            None \<Rightarrow> Some (None, self)
          | Some s \<Rightarrow>
              do { (e, props) \<leftarrow> check_properties h (ms_property s) (msg_properties self);
                   Some (e, set_properties self props) } }"

text \<open>A result is checked with the schema of its command, in the opposite direction.\<close>

definition ten_raw_cmd_result_validate_schema ::
  "fp_host \<Rightarrow> cmd_result \<Rightarrow> schema_store \<Rightarrow> bool \<Rightarrow> (ten_error option \<times> cmd_result) run" where
  "ten_raw_cmd_result_validate_schema h self store is_msg_out =
     do { ten_assert (cr_original_cmd_name self \<noteq> []);
          s \<leftarrow> ten_schema_store_get_msg_schema store TEN_MSG_TYPE_CMD_RESULT (cr_original_cmd_name self)
                 (\<not> is_msg_out);
          case s of
            None \<Rightarrow> Some (None, self)
          | Some s \<Rightarrow>
              do { (e, props) \<leftarrow> check_properties h (ms_cmd_result s) (cb_properties self);
                   Some (e, self\<lparr>cb_properties := props\<rparr>) } }"

text \<open>The commands of the runtime itself have no schema.\<close>

definition ten_msg_validate_schema ::
  "fp_host \<Rightarrow> ten_msg \<Rightarrow> schema_store \<Rightarrow> bool \<Rightarrow> (ten_error option \<times> ten_msg) run" where
  "ten_msg_validate_schema h self store is_msg_out =
     (case self of
        M_result r \<Rightarrow> map_option (map_prod id M_result) (ten_raw_cmd_result_validate_schema h r store is_msg_out)
      | M_cmd t c \<Rightarrow>
          if t = TEN_MSG_TYPE_CMD then ten_raw_msg_validate_schema h self store is_msg_out else Some (None, self)
      | M_data t d \<Rightarrow> ten_raw_msg_validate_schema h self store is_msg_out)"

section \<open>What validation gives\<close>

definition msg_schema_ok :: "msg_schema \<Rightarrow> bool" where
  "msg_schema_ok s \<longleftrightarrow> (\<forall>p \<in> set_option (ms_property s) \<union> set_option (ms_cmd_result s). schema_ok p)"

definition store_ok :: "schema_store \<Rightarrow> bool" where
  "store_ok store \<longleftrightarrow>
     (\<forall>p \<in> set_option (ss_property store). schema_ok p) \<and>
     (\<forall>m \<in> {ss_cmd_in store, ss_cmd_out store, ss_data_in store, ss_data_out store,
             ss_video_frame_in store, ss_video_frame_out store, ss_audio_frame_in store, ss_audio_frame_out store}.
        \<forall>p \<in> set m. msg_schema_ok (snd p))"

text \<open>The schema that applies to a message: none for the runtime's own commands.\<close>

definition applicable_schema :: "schema_store \<Rightarrow> ten_msg \<Rightarrow> bool \<Rightarrow> schema option" where
  "applicable_schema store m is_out =
     (case m of
        M_cmd t c \<Rightarrow>
          if t = TEN_MSG_TYPE_CMD
          then Option.bind (map_of (rev (if is_out then ss_cmd_out store else ss_cmd_in store)) (cb_name c)) ms_property
          else None
      | M_result r \<Rightarrow>
          Option.bind (map_of (rev (if is_out then ss_cmd_in store else ss_cmd_out store)) (cr_original_cmd_name r))
            ms_cmd_result
      | M_data t d \<Rightarrow>
          Option.bind (Option.bind (schema_map store t is_out)
            (\<lambda>m. map_of (rev m) (if dm_name d = [] then ''ten:empty'' else dm_name d))) ms_property)"

lemma adjust_value_ok:
  assumes s: "schema_ok s"
  obtains r v' where "ten_schema_adjust_value_type h s (Some v) = Some (r, Some v')"
    and "r = None \<longrightarrow> has_types s v' \<and> ten_schema_adjust_value_type h s (Some v') = Some (None, Some v')"
proof -
  obtain r v' where r: "ten_schema_adjust_value_type_with_schema_error h s v = Some (r, v')"
    using adjust_returns(1) by blast
  have "has_types s v'" if "r = None" by (rule adjust_types(1) [OF s]) (use r that in simp)
  with r adjust_identity(1) [of s v' h] show thesis
    by (intro that [of "map_option path_error r" v']) (auto simp: ten_schema_adjust_value_type_def)
qed

lemma check_properties_ok:
  assumes "\<forall>p \<in> set_option property. schema_ok p"
  shows "\<exists>e props'. check_properties h property props = Some (e, props') \<and>
    (e = None \<longrightarrow> (case property of None \<Rightarrow> props' = props
       | Some s \<Rightarrow> has_types s props' \<and> conforms s props')) \<and>
    (e = None \<longrightarrow> check_properties h property props' = Some (None, props'))"
proof (cases property)
  case (Some s)
  with assms have s: "schema_ok s" by simp
  obtain r v' where r: "ten_schema_adjust_value_type h s (Some props) = Some (r, Some v')"
    and ok: "r = None \<longrightarrow> has_types s v' \<and> ten_schema_adjust_value_type h s (Some v') = Some (None, Some v')"
    by (rule adjust_value_ok [OF s, of h props])
  show ?thesis
  proof (cases r)
    case None
    with ok have t: "has_types s v'"
      and a: "ten_schema_adjust_value_type h s (Some v') = Some (None, Some v')" by blast+
    from validate_decides(1) [OF s, of v'] show ?thesis
    proof (cases rule: decidesE)
      case accepts
      then have "ten_schema_validate_value s (Some v') = Some (Inr ())" by (simp add: ten_schema_validate_value_def)
      with r None Some t a accepts show ?thesis by (simp del: meets.simps add: check_properties_def)
    next
      case (rejects e)
      then have "ten_schema_validate_value s (Some v') = Some (Inl (path_error e))"
        by (simp add: ten_schema_validate_value_def)
      with r None Some show ?thesis by (simp del: meets.simps add: check_properties_def)
    qed
  next
    case (Some e)
    with r \<open>property = Some s\<close> show ?thesis by (simp add: check_properties_def)
  qed
qed (simp add: check_properties_def)

text \<open>The schemas of a well-formed store are well formed, and so is the one that applies to a message.\<close>

lemma map_of_rev_in: "map_of (rev m) k = Some s \<Longrightarrow> (k, s) \<in> set m"
  by (auto dest: map_of_SomeD)

lemma schema_map_ok:
  assumes "store_ok store" "schema_map store t is_out = Some m" "map_of (rev m) k = Some s"
  shows "msg_schema_ok s"
  using assms map_of_rev_in [OF assms(3)]
  by (cases t) (auto simp: store_ok_def schema_map_def split: if_splits)

lemma msg_schema_okD:
  "msg_schema_ok s \<Longrightarrow> \<forall>p \<in> set_option (ms_property s). schema_ok p"
  "msg_schema_ok s \<Longrightarrow> \<forall>p \<in> set_option (ms_cmd_result s). schema_ok p"
  by (auto simp: msg_schema_ok_def)

text \<open>What the two lookups find, with the names the code requires.\<close>

lemma get_msg_schema_returns:
  assumes "schema_map store t is_out = Some m" "t \<in> {TEN_MSG_TYPE_CMD, TEN_MSG_TYPE_CMD_RESULT} \<longrightarrow> name \<noteq> []"
  shows "ten_schema_store_get_msg_schema store t name is_out =
    Some (map_of (rev m) (if name = [] then ''ten:empty'' else name))"
  using assms by (auto simp: ten_schema_store_get_msg_schema_def)

definition names_ok :: "ten_msg \<Rightarrow> bool" where
  "names_ok m =
     (case m of
        M_cmd t c \<Rightarrow> cb_name c \<noteq> []
      | M_result r \<Rightarrow> cr_original_cmd_name r \<noteq> []
      | M_data t d \<Rightarrow> True)"

text \<open>One lookup followed by the check, for whichever lookup and schema part.\<close>

lemma lookup_check_ok:
  assumes store: "store_ok store" and m: "schema_map store t is_out = Some m"
    and part: "part = ms_property \<or> part = ms_cmd_result"
  shows "case map_of (rev m) k of None \<Rightarrow> True
    | Some s \<Rightarrow> (\<exists>e props'. check_properties h (part s) props = Some (e, props') \<and>
        (e = None \<longrightarrow> (case part s of None \<Rightarrow> props' = props
           | Some p \<Rightarrow> has_types p props' \<and> conforms p props')) \<and>
        (e = None \<longrightarrow> check_properties h (part s) props' = Some (None, props')))"
proof (cases "map_of (rev m) k")
  case (Some s)
  from schema_map_ok [OF store m Some] part have "\<forall>p \<in> set_option (part s). schema_ok p"
    by (auto dest: msg_schema_okD)
  from check_properties_ok [OF this] Some show ?thesis by simp
qed simp

lemma schema_map_cmd [simp]:
  "schema_map store TEN_MSG_TYPE_CMD is_out = Some (if is_out then ss_cmd_out store else ss_cmd_in store)"
  "schema_map store TEN_MSG_TYPE_CMD_RESULT is_out = Some (if is_out then ss_cmd_out store else ss_cmd_in store)"
  by (simp_all add: schema_map_def)

lemma schema_map_data: "t \<in> data_types \<Longrightarrow> \<exists>m. schema_map store t is_out = Some m"
  by (auto simp: schema_map_def data_types_def)

lemma data_not_cmd_type: "t \<in> data_types \<Longrightarrow> t \<notin> {TEN_MSG_TYPE_CMD, TEN_MSG_TYPE_CMD_RESULT}"
  by (auto simp: data_types_def)

text \<open>The specification of a check: the error and the message, given the schema that applies.\<close>

definition checked ::
  "(ten_msg \<Rightarrow> (ten_error option \<times> ten_msg) run) \<Rightarrow> schema option \<Rightarrow> ten_msg \<Rightarrow> bool" where
  "checked check s m \<longleftrightarrow>
     (\<exists>e props. check m = Some (e, set_properties m props) \<and>
        (e = None \<longrightarrow>
           (case s of None \<Rightarrow> props = msg_properties m | Some p \<Rightarrow> has_types p props \<and> conforms p props) \<and>
           check (set_properties m props) = Some (None, set_properties m props)))"

lemma set_properties_same [simp]:
  "set_properties m (msg_properties m) = m" "set_properties (set_properties m v) w = set_properties m w"
  by (cases m; simp)+

lemma raw_msg_checked:
  assumes "store_ok store" "schema_map store (ten_msg_get_type m) is_out = Some sm"
    and "ten_msg_get_type m \<in> {TEN_MSG_TYPE_CMD, TEN_MSG_TYPE_CMD_RESULT} \<longrightarrow> ten_msg_get_name m \<noteq> []"
    and "ten_msg_is_cmd_and_result m \<longrightarrow> ten_msg_get_name m \<noteq> []"
  shows "checked (\<lambda>m. ten_raw_msg_validate_schema h m store is_out)
    (Option.bind (map_of (rev sm) (if ten_msg_get_name m = [] then ''ten:empty'' else ten_msg_get_name m)) ms_property) m"
proof -
  let ?k = "if ten_msg_get_name m = [] then ''ten:empty'' else ten_msg_get_name m"
  have same: "ten_msg_is_cmd_and_result (set_properties m p) = ten_msg_is_cmd_and_result m" for p
    by (simp add: ten_msg_is_cmd_and_result_def)
  have look: "ten_schema_store_get_msg_schema store (ten_msg_get_type m) (ten_msg_get_name m) is_out =
      Some (map_of (rev sm) ?k)"
    by (rule get_msg_schema_returns [OF assms(2,3)])
  show ?thesis
  proof (cases "map_of (rev sm) ?k")
    case None
    with look assms(4) show ?thesis
      unfolding checked_def
      by (intro exI [of _ None] exI [of _ "msg_properties m"]) (simp add: ten_raw_msg_validate_schema_def)
  next
    case (Some s)
    from lookup_check_ok [OF assms(1,2), where part = ms_property and k = ?k and h = h and props = "msg_properties m"] Some
    obtain e props' where c: "check_properties h (ms_property s) (msg_properties m) = Some (e, props')"
      and ok: "e = None \<longrightarrow> (case ms_property s of None \<Rightarrow> props' = msg_properties m
           | Some p \<Rightarrow> has_types p props' \<and> conforms p props')"
        "e = None \<longrightarrow> check_properties h (ms_property s) props' = Some (None, props')"
      by (auto simp del: meets.simps)
    show ?thesis
      unfolding checked_def
      using c ok look Some assms(4) same
      by (intro exI [of _ e] exI [of _ props'])
        (auto simp del: meets.simps simp: ten_raw_msg_validate_schema_def)
  qed
qed

lemma result_checked:
  assumes "store_ok store" and name: "cr_original_cmd_name r \<noteq> []"
  shows "checked (\<lambda>m. ten_msg_validate_schema h m store is_out) (applicable_schema store (M_result r) is_out)
    (M_result r)"
proof -
  let ?sm = "if is_out then ss_cmd_in store else ss_cmd_out store"
  have look: "ten_schema_store_get_msg_schema store TEN_MSG_TYPE_CMD_RESULT (cr_original_cmd_name r) (\<not> is_out) =
      Some (map_of (rev ?sm) (cr_original_cmd_name r))"
    using name by (simp add: get_msg_schema_returns)
  show ?thesis
  proof (cases "map_of (rev ?sm) (cr_original_cmd_name r)")
    case None
    with look name show ?thesis
      unfolding checked_def
      by (intro exI [of _ None] exI [of _ "cb_properties r"])
        (simp add: ten_msg_validate_schema_def ten_raw_cmd_result_validate_schema_def applicable_schema_def)
  next
    case (Some s)
    have "schema_map store TEN_MSG_TYPE_CMD_RESULT (\<not> is_out) = Some ?sm" by simp
    from lookup_check_ok [OF assms(1) this, where part = ms_cmd_result and k = "cr_original_cmd_name r"
        and h = h and props = "cb_properties r"] Some
    obtain e props' where c: "check_properties h (ms_cmd_result s) (cb_properties r) = Some (e, props')"
      and ok: "e = None \<longrightarrow> (case ms_cmd_result s of None \<Rightarrow> props' = cb_properties r
           | Some p \<Rightarrow> has_types p props' \<and> conforms p props')"
        "e = None \<longrightarrow> check_properties h (ms_cmd_result s) props' = Some (None, props')"
      by (auto simp del: meets.simps)
    show ?thesis
      unfolding checked_def
      using c ok look Some name
      by (intro exI [of _ e] exI [of _ props'])
        (simp del: meets.simps cong: option.case_cong add: ten_msg_validate_schema_def ten_raw_cmd_result_validate_schema_def
          applicable_schema_def)
  qed
qed


text \<open>A message with an \<open>int64\<close> member under a schema that asks for an \<open>int32\<close>.\<close>

definition example_store :: schema_store where
  "example_store =
     ten_schema_store_init
       \<lparr>ss_data_out := [(''d'', \<lparr>ms_msg_name = ''d'', ms_property = Some example_schema, ms_cmd_result = None\<rparr>)]\<rparr>"

definition example_data :: ten_msg where
  "example_data = M_data TEN_MSG_TYPE_DATA
     \<lparr>dm_name = ''d'', dm_src_loc = ten_loc_create_empty, dm_dest_loc = [],
      dm_properties = V_object [(''id'', V_int64 7)], dm_buf = zeroed_buf, dm_format = No_format\<rparr>"


end
