(* ===== verification/Extension_Msg.thy ===== *)
theory Extension_Msg
  imports Schema_Store Msg_Conversion Path_Flow
begin

text \<open>
  An extension as the messages see it (\<open>ten_runtime/extension\<close>, \<open>ten_env/internal\<close>): how a message
  it sends finds its destinations and is recorded, and what happens to a message that arrives.

  The functions return what they leave for the callers of the layer above as a list of effects, in the
  order of the calls: a message handed to the extension thread or to the engine, a callback of the
  extension, a result handler. These calls are the last thing the C functions do with their own state,
  so performing the effects one by one afterwards, each with all it brings about, is the same execution.

  Three things come from outside and are parameters in a record: the floating point unit, the clock,
  and the generator of command ids. Locked resources are not modelled, a message has none.
\<close>

record call_env =
  ce_host :: fp_host
  ce_clock :: "nat \<Rightarrow> 64 word"
  ce_msg_uuid :: "nat \<Rightarrow> string"
  ce_path_uuid :: "nat \<Rightarrow> string"

datatype extension_state =
    TEN_EXTENSION_STATE_INIT
  | TEN_EXTENSION_STATE_ON_CONFIGURE
  | TEN_EXTENSION_STATE_ON_CONFIGURE_DONE
  | TEN_EXTENSION_STATE_ON_INIT
  | TEN_EXTENSION_STATE_ON_INIT_DONE
  | TEN_EXTENSION_STATE_ON_START
  | TEN_EXTENSION_STATE_ON_START_DONE
  | TEN_EXTENSION_STATE_ON_STOP
  | TEN_EXTENSION_STATE_ON_STOP_DONE
  | TEN_EXTENSION_STATE_ON_DEINIT
  | TEN_EXTENSION_STATE_ON_DEINIT_DONE

fun state_num :: "extension_state \<Rightarrow> nat" where
  "state_num TEN_EXTENSION_STATE_INIT = 0"
| "state_num TEN_EXTENSION_STATE_ON_CONFIGURE = 1"
| "state_num TEN_EXTENSION_STATE_ON_CONFIGURE_DONE = 2"
| "state_num TEN_EXTENSION_STATE_ON_INIT = 3"
| "state_num TEN_EXTENSION_STATE_ON_INIT_DONE = 4"
| "state_num TEN_EXTENSION_STATE_ON_START = 5"
| "state_num TEN_EXTENSION_STATE_ON_START_DONE = 6"
| "state_num TEN_EXTENSION_STATE_ON_STOP = 7"
| "state_num TEN_EXTENSION_STATE_ON_STOP_DONE = 8"
| "state_num TEN_EXTENSION_STATE_ON_DEINIT = 9"
| "state_num TEN_EXTENSION_STATE_ON_DEINIT_DONE = 10"

text \<open>The comparisons of C, on the numbers of the states.\<close>

instantiation extension_state :: linorder
begin

definition less_eq_extension_state :: "extension_state \<Rightarrow> extension_state \<Rightarrow> bool" where
  "less_eq_extension_state a b \<longleftrightarrow> state_num a \<le> state_num b"

definition less_extension_state :: "extension_state \<Rightarrow> extension_state \<Rightarrow> bool" where
  "less_extension_state a b \<longleftrightarrow> state_num a < state_num b"

instance
proof
  fix a b :: extension_state
  assume "a \<le> b" "b \<le> a"
  then show "a = b" by (cases a; cases b) (simp_all add: less_eq_extension_state_def)
qed (auto simp: less_eq_extension_state_def less_extension_state_def)

end

text \<open>
  The graph's information on an extension: the destinations of its messages by kind and name, where
  a destination is the location of the destination extension, and its conversions.
\<close>

record msg_dest_info =
  md_name :: string
  md_dest :: "ten_loc list"

record extension_info =
  ei_dest_cmd :: "msg_dest_info list"
  ei_dest_data :: "msg_dest_info list"
  ei_dest_video_frame :: "msg_dest_info list"
  ei_dest_audio_frame :: "msg_dest_info list"
  ei_msg_conversion_contexts :: "msg_conversion_context list"

text \<open>The callbacks that are not set have a default behaviour.\<close>

record ten_extension =
  ex_name :: string
  ex_state :: extension_state
  ex_env_closed :: bool
  ex_on_cmd :: bool
  ex_on_data :: bool
  ex_on_video_frame :: bool
  ex_on_audio_frame :: bool
  ex_engine :: ten_engine
  ex_extension_info :: "extension_info option"
  ex_schema_store :: schema_store
  ex_pending :: "ten_msg list"
  ex_path_table :: "msg_conversion path_table"
  ex_not_connected :: "(string \<times> nat) list"

datatype effect =
    Dispatch ten_msg
  | To_engine ten_msg
  | Deliver ten_msg
  | On_msg ten_msg
  | On_result nat nat cmd_result

section \<open>The destinations of an outgoing message\<close>

definition ten_msg_dest_info_qualified :: "msg_dest_info \<Rightarrow> string \<Rightarrow> bool" where
  "ten_msg_dest_info_qualified self msg_name \<longleftrightarrow> md_name self = msg_name \<or> md_name self = ''*''"

definition ten_extension_get_msg_dests_from_graph_internal ::
  "msg_dest_info list \<Rightarrow> ten_msg \<Rightarrow> msg_dest_info option" where
  "ten_extension_get_msg_dests_from_graph_internal dest_info_list msg =
     find (\<lambda>i. ten_msg_dest_info_qualified i (ten_msg_get_name msg)) dest_info_list"

definition ten_extension_get_msg_dests_from_graph :: "ten_extension \<Rightarrow> ten_msg \<Rightarrow> msg_dest_info option run" where
  "ten_extension_get_msg_dests_from_graph self msg =
     do { info \<leftarrow> ex_extension_info self;
          if ten_msg_is_cmd_and_result msg
          then Some (ten_extension_get_msg_dests_from_graph_internal (ei_dest_cmd info) msg)
          else case ten_msg_get_type msg of
            TEN_MSG_TYPE_DATA \<Rightarrow> Some (ten_extension_get_msg_dests_from_graph_internal (ei_dest_data info) msg)
          | TEN_MSG_TYPE_VIDEO_FRAME \<Rightarrow>
              Some (ten_extension_get_msg_dests_from_graph_internal (ei_dest_video_frame info) msg)
          | TEN_MSG_TYPE_AUDIO_FRAME \<Rightarrow>
              Some (ten_extension_get_msg_dests_from_graph_internal (ei_dest_audio_frame info) msg)
          | _ \<Rightarrow> None }"

definition need_to_clone_msg_when_sending :: "nat \<Rightarrow> bool" where
  "need_to_clone_msg_when_sending dest_index \<longleftrightarrow> dest_index > 0"

text \<open>The loop of both functions: one message per destination, all but the first are copies.\<close>

fun split_dests :: "(nat \<Rightarrow> string) \<Rightarrow> nat \<Rightarrow> ten_msg \<Rightarrow> ten_loc list \<Rightarrow> ten_msg list run" where
  "split_dests uuids i msg [] = Some []"
| "split_dests uuids i msg (dest_loc # dests) =
     do { curr_msg \<leftarrow> (if need_to_clone_msg_when_sending i then ten_msg_clone False (uuids i) msg
                      else Some (Some msg));
          curr_msg \<leftarrow> curr_msg;
          rest \<leftarrow> split_dests uuids (Suc i) msg dests;
          Some (ten_raw_msg_clear_and_set_dest_to_loc curr_msg dest_loc # rest) }"

definition ten_extension_determine_out_msg_dest_from_msg :: "call_env \<Rightarrow> ten_msg \<Rightarrow> ten_msg list run" where
  "ten_extension_determine_out_msg_dest_from_msg e msg =
     do { ten_assert (ten_msg_get_dest msg \<noteq> []);
          split_dests (ce_msg_uuid e) 0 (set_dest msg []) (ten_msg_get_dest msg) }"

definition ten_extension_determine_out_msg_dest_from_graph ::
  "call_env \<Rightarrow> ten_extension \<Rightarrow> ten_msg \<Rightarrow> (ten_error + ten_msg list) run" where
  "ten_extension_determine_out_msg_dest_from_graph e self msg =
     do { ten_assert (ten_msg_get_dest msg = []);
          msg_dest_info \<leftarrow> ten_extension_get_msg_dests_from_graph self msg;
          let dests = (case msg_dest_info of None \<Rightarrow> [] | Some i \<Rightarrow> md_dest i);
          if dests \<noteq> [] then map_option Inr (split_dests (ce_msg_uuid e) 0 msg dests)
          else Some (Inl (ten_error_set ten_error_init TEN_ERROR_CODE_MSG_NOT_CONNECTED
                 (''Failed to find destination of a '' @ [CHR 0x27] @
                  (case ten_msg_type_to_string (ten_msg_get_type msg) of None \<Rightarrow> [] | Some t \<Rightarrow> t) @ [CHR 0x27] @
                  '' message '' @ [CHR 0x27] @ ten_msg_get_name msg @ [CHR 0x27] @ '' from graph.''))) }"

definition ten_extension_determine_out_msgs ::
  "call_env \<Rightarrow> ten_extension \<Rightarrow> ten_msg \<Rightarrow> (ten_error + ten_msg list) run" where
  "ten_extension_determine_out_msgs e self msg =
     do { ten_assert (ten_msg_is_cmd_result msg \<longrightarrow> ten_msg_get_dest msg \<noteq> []);
          if ten_msg_get_dest msg \<noteq> []
          then map_option Inr (ten_extension_determine_out_msg_dest_from_msg e msg)
          else ten_extension_determine_out_msg_dest_from_graph e self msg }"

section \<open>Sending\<close>

text \<open>
  The path table converts a result with the conversion of its path. A conversion that would fail an
  assertion counts as one that fails; \<open>conversion_ok\<close> conversions on plain properties never do.
\<close>

definition result_convert :: "msg_conversion \<Rightarrow> cmd_result \<Rightarrow> cmd_result option" where
  "result_convert c r =
     (case ten_msg_conversion_convert [] c (M_result r) None of
        Some (Some (M_result r'), _) \<Rightarrow> Some r'
      | _ \<Rightarrow> None)"

definition process_result ::
  "ten_extension \<Rightarrow> path_type \<Rightarrow> cmd_result \<Rightarrow> (cmd_result option \<times> ten_extension) run" where
  "process_result self type r =
     do { (proceed, out, pt) \<leftarrow> ten_path_table_process_cmd_result result_convert (ex_path_table self) type r;
          Some (if proceed then out else None, self\<lparr>ex_path_table := pt\<rparr>) }"

text \<open>The OUT paths of the commands that leave; the clock is read once for each.\<close>

definition record_cmds ::
  "call_env \<Rightarrow> ten_extension \<Rightarrow> ten_msg list \<Rightarrow> result_return_policy \<Rightarrow> (ten_extension \<times> ten_msg list) run" where
  "record_cmds e self msgs policy =
     do { cmds \<leftarrow> those (map (\<lambda>m. case m of M_cmd t c \<Rightarrow> Some (t, c) | _ \<Rightarrow> None) msgs);
          (pt, cs) \<leftarrow> record_out_paths (ex_path_table self)
                       (zip (map (ce_clock e) [0..<length cmds]) (map snd cmds)) policy;
          Some (self\<lparr>ex_path_table := pt\<rparr>, map (\<lambda>(t, c). M_cmd t c) (zip (map fst cmds) cs)) }"

definition closed_error :: ten_error where
  "closed_error = ten_error_set ten_error_init TEN_ERROR_CODE_TEN_IS_CLOSED ''ten_env is closed.''"

text \<open>The source, the completed destinations, and the schema of an outgoing message.\<close>

definition prepare_out ::
  "call_env \<Rightarrow> ten_extension \<Rightarrow> ten_msg \<Rightarrow> (ten_error option \<times> ten_msg) run" where
  "prepare_out e self msg =
     do { let msg = (if ten_msg_get_type msg = TEN_MSG_TYPE_CMD_RESULT then ten_msg_clear_dest msg else msg);
          let msg = ten_msg_set_src msg (Some (en_app_uri (ex_engine self))) (Some (en_graph_id (ex_engine self)))
                      (Some (ex_name self));
          msg \<leftarrow> ten_msg_correct_dest msg (ex_engine self);
          ten_msg_validate_schema (ce_host e) msg (ex_schema_store self) True }"

definition ten_extension_dispatch_msg ::
  "call_env \<Rightarrow> ten_extension \<Rightarrow> ten_msg \<Rightarrow> result_return_policy \<Rightarrow>
   (bool \<times> ten_error option \<times> ten_extension \<times> effect list) run" where
  "ten_extension_dispatch_msg e self msg result_return_policy =
     (if ex_state self = TEN_EXTENSION_STATE_ON_DEINIT_DONE
      then Some (False, Some (ten_error_set ten_error_init TEN_ERROR_CODE_TEN_IS_CLOSED
             ''The extension is closed, so the message cannot be dispatched.''), self, [])
      else do {
        (err, msg) \<leftarrow> prepare_out e self msg;
        case err of
          Some err \<Rightarrow> Some (False, Some err, self, [])
        | None \<Rightarrow> do {
            (msg, self) \<leftarrow>
              (case msg of
                 M_result r \<Rightarrow> do { (out, self) \<leftarrow> process_result self TEN_PATH_IN r;
                                   Some (map_option M_result out, self) }
               | _ \<Rightarrow> Some (Some msg, self));
            case msg of
              None \<Rightarrow> Some (True, None, self, [])
            | Some msg \<Rightarrow> do {
                result_msgs \<leftarrow> ten_extension_determine_out_msgs e self msg;
                case result_msgs of
                  Inl err \<Rightarrow> Some (False, Some err, self, [])
                | Inr result_msgs \<Rightarrow> do {
                    (self, result_msgs) \<leftarrow>
                      (if ten_msg_is_cmd msg
                       then record_cmds e self result_msgs result_return_policy else Some (self, result_msgs));
                    Some (True, None, self, map Dispatch result_msgs)
                  }
              }
          }
      })"

text \<open>
  The functions of the environment an extension calls. Whether the caller's own callback is called is
  the first component: it is called without an error when the message was accepted and, for sending,
  is not a command.
\<close>

definition ten_env_return_result_internal ::
  "call_env \<Rightarrow> ten_extension \<Rightarrow> cmd_result \<Rightarrow> string option \<Rightarrow>
   (bool \<times> ten_error option \<times> ten_extension \<times> effect list) run" where
  "ten_env_return_result_internal e self cmd_result cmd_id =
     (if ex_env_closed self then Some (False, Some closed_error, self, [])
      else let cmd_result = (case cmd_id of None \<Rightarrow> cmd_result | Some i \<Rightarrow> ten_cmd_base_set_cmd_id cmd_result i)
           in ten_extension_dispatch_msg e self (M_result cmd_result) TEN_RESULT_RETURN_POLICY_EACH_OK_AND_ERROR)"

definition ten_env_return_result ::
  "call_env \<Rightarrow> ten_extension \<Rightarrow> cmd_result \<Rightarrow> (bool \<times> ten_error option \<times> ten_extension \<times> effect list) run" where
  "ten_env_return_result e self cmd_result = ten_env_return_result_internal e self cmd_result None"

text \<open>How often a message could not be sent because the graph has no destination, for the log.\<close>

definition ten_extension_increment_msg_not_connected_count ::
  "ten_extension \<Rightarrow> string \<Rightarrow> bool \<times> ten_extension" where
  "ten_extension_increment_msg_not_connected_count extension msg_name =
     (let count = (case map_of (ex_not_connected extension) msg_name of None \<Rightarrow> 0 | Some n \<Rightarrow> n + 1);
          reset = (count mod 1000 = 0)
      in (reset, extension\<lparr>ex_not_connected :=
            alist_update (ex_not_connected extension) msg_name (if reset then 0 else count)\<rparr>))"

definition ten_env_send_msg_internal ::
  "call_env \<Rightarrow> ten_extension \<Rightarrow> ten_msg \<Rightarrow> nat \<Rightarrow> nat \<Rightarrow> result_return_policy \<Rightarrow>
   (bool \<times> ten_error option \<times> ten_extension \<times> effect list) run" where
  "ten_env_send_msg_internal e self msg handler user_data result_return_policy =
     (if ex_env_closed self then Some (False, Some closed_error, self, [])
      else if ten_msg_get_type msg = TEN_MSG_TYPE_CMD_RESULT
      then Some (False, Some (ten_error_set ten_error_init TEN_ERROR_CODE_GENERIC
                   (''Result commands should be delivered through '' @ [CHR 0x27] @ ''returning'' @
                    [CHR 0x27] @ ''.'')), self, [])
      else do {
        let msg = (case msg of
            M_cmd t c \<Rightarrow>
              let c = ten_cmd_base_set_result_handler c handler user_data
              in M_cmd t (if cb_cmd_id c = [] then ten_cmd_base_gen_new_cmd_id_forcibly (ce_msg_uuid e 0) c else c)
          | _ \<Rightarrow> msg);
        (ok, err, self, effects) \<leftarrow> ten_extension_dispatch_msg e self msg result_return_policy;
        let self = (if \<not> ok \<and> map_option error_code err = Some TEN_ERROR_CODE_MSG_NOT_CONNECTED
                    then snd (ten_extension_increment_msg_not_connected_count self (ten_msg_get_name msg)) else self);
        Some (ok, err, self, effects)
      })"

text \<open>A handler of 0 is a null pointer; without options only one result is wanted.\<close>

definition ten_env_send_cmd ::
  "call_env \<Rightarrow> ten_extension \<Rightarrow> ten_msg \<Rightarrow> nat \<Rightarrow> nat \<Rightarrow> bool \<Rightarrow>
   (bool \<times> ten_error option \<times> ten_extension \<times> effect list) run" where
  "ten_env_send_cmd e self cmd handler user_data enable_multiple_results =
     (if handler \<noteq> 0
      then ten_env_send_msg_internal e self cmd handler user_data
             (if enable_multiple_results then TEN_RESULT_RETURN_POLICY_EACH_OK_AND_ERROR
              else TEN_RESULT_RETURN_POLICY_FIRST_ERROR_OR_LAST_OK)
      else do { ten_assert (user_data = 0);
                ten_env_send_msg_internal e self cmd 0 0 TEN_RESULT_RETURN_POLICY_FIRST_ERROR_OR_LAST_OK })"

definition ten_env_send_data ::
  "call_env \<Rightarrow> ten_extension \<Rightarrow> ten_msg \<Rightarrow> nat \<Rightarrow> nat \<Rightarrow>
   (bool \<times> ten_error option \<times> ten_extension \<times> effect list) run" where
  "ten_env_send_data e self data handler user_data =
     ten_env_send_msg_internal e self data handler user_data TEN_RESULT_RETURN_POLICY_INVALID"

definition ten_env_send_video_frame ::
  "call_env \<Rightarrow> ten_extension \<Rightarrow> ten_msg \<Rightarrow> nat \<Rightarrow> nat \<Rightarrow>
   (bool \<times> ten_error option \<times> ten_extension \<times> effect list) run" where
  "ten_env_send_video_frame e self frame handler user_data =
     ten_env_send_msg_internal e self frame handler user_data TEN_RESULT_RETURN_POLICY_INVALID"

definition ten_env_send_audio_frame ::
  "call_env \<Rightarrow> ten_extension \<Rightarrow> ten_msg \<Rightarrow> nat \<Rightarrow> nat \<Rightarrow>
   (bool \<times> ten_error option \<times> ten_extension \<times> effect list) run" where
  "ten_env_send_audio_frame e self frame handler user_data =
     ten_env_send_msg_internal e self frame handler user_data TEN_RESULT_RETURN_POLICY_INVALID"

section \<open>Arriving\<close>

text \<open>
  The schema check of a message on its way in. A command that fails gets an error result, whose own
  fate is ignored; a result goes on as an error; a data-like message is dropped.
\<close>

definition ten_extension_validate_in ::
  "call_env \<Rightarrow> ten_extension \<Rightarrow> ten_msg \<Rightarrow> (bool \<times> ten_extension \<times> ten_msg \<times> effect list) run" where
  "ten_extension_validate_in e self msg =
     do { (err, msg) \<leftarrow> ten_msg_validate_schema (ce_host e) msg (ex_schema_store self) False;
          case err of
            None \<Rightarrow> Some (True, self, msg, [])
          | Some err \<Rightarrow>
              (case msg of
                 M_cmd t c \<Rightarrow>
                   do { cmd_result \<leftarrow> ten_cmd_result_create_from_cmd TEN_STATUS_CODE_ERROR c;
                        let cmd_result = set_detail cmd_result (error_message err);
                        (_, _, self, effects) \<leftarrow> ten_env_return_result e self cmd_result;
                        Some (False, self, msg, effects) }
               | M_result r \<Rightarrow> Some (True, self, M_result (ten_cmd_result_set_status_code r TEN_STATUS_CODE_ERROR), [])
               | M_data t d \<Rightarrow> Some (False, self, msg, [])) }"

text \<open>The IN paths of the commands that enter, with the conversions of their results.\<close>

fun enter_paths ::
  "call_env \<Rightarrow> nat \<Rightarrow> msg_conversion path_table \<Rightarrow> (ten_msg \<times> msg_conversion option) list \<Rightarrow>
   (msg_conversion path_table \<times> ten_msg list) run" where
  "enter_paths e i pt [] = Some (pt, [])"
| "enter_paths e i pt ((msg, conversion) # msgs) =
     do { (pt, msg) \<leftarrow>
            (case msg of
               M_cmd t c \<Rightarrow>
                 if mi_create_in_path (ten_msg_info t)
                 then do { (_, pt, c) \<leftarrow> ten_path_table_add_in_path (ce_clock e i) (ce_path_uuid e i) pt c conversion;
                           Some (pt, M_cmd t c) }
                 else Some (pt, msg)
             | _ \<Rightarrow> Some (pt, msg));
          (pt, rest) \<leftarrow> enter_paths e (Suc i) pt msgs;
          Some (pt, msg # rest) }"

text \<open>The checks stop at the first message that fails; what they adjusted stays adjusted.\<close>

fun validate_all ::
  "call_env \<Rightarrow> ten_extension \<Rightarrow> ten_msg list \<Rightarrow> (bool \<times> ten_extension \<times> ten_msg list \<times> effect list) run" where
  "validate_all e self [] = Some (True, self, [], [])"
| "validate_all e self (msg # msgs) =
     do { (pass, self, msg, effects) \<leftarrow> ten_extension_validate_in e self msg;
          if \<not> pass then Some (False, self, msg # msgs, effects)
          else do { (pass, self, msgs, effects) \<leftarrow> validate_all e self msgs;
                    Some (pass, self, msg # msgs, effects) } }"

definition should_convert :: "ten_extension \<Rightarrow> ten_msg \<Rightarrow> bool" where
  "should_convert self msg \<longleftrightarrow>
     ten_msg_get_type msg \<in> {TEN_MSG_TYPE_CMD, TEN_MSG_TYPE_DATA, TEN_MSG_TYPE_VIDEO_FRAME, TEN_MSG_TYPE_AUDIO_FRAME} \<and>
     (case ex_extension_info self of None \<Rightarrow> False | Some info \<Rightarrow> ei_msg_conversion_contexts info \<noteq> [])"

text \<open>The messages that really go to the extension; matching may write to the conversion contexts.\<close>

definition converted_msgs ::
  "call_env \<Rightarrow> ten_extension \<Rightarrow> ten_msg \<Rightarrow> (ten_extension \<times> (ten_msg \<times> msg_conversion option) list) run" where
  "converted_msgs e self msg =
     (if should_convert self msg
      then do { info \<leftarrow> ex_extension_info self;
                (ok, err, contexts, msgs) \<leftarrow>
                  ten_extension_convert_msg (ce_msg_uuid e) (ei_msg_conversion_contexts info) msg;
                Some (self\<lparr>ex_extension_info := Some (info\<lparr>ei_msg_conversion_contexts := contexts\<rparr>)\<rparr>, msgs) }
      else Some (self, [(msg, None)]))"

text \<open>The result of a command without a handler goes on to where the command came from.\<close>

definition deliver_result ::
  "call_env \<Rightarrow> ten_extension \<Rightarrow> cmd_result \<Rightarrow> (ten_extension \<times> effect list) run" where
  "deliver_result e self r =
     (if cb_result_handler r \<noteq> 0
      then Some (self, [On_result (cb_result_handler r) (cb_result_handler_data r) (r\<lparr>cb_dest_loc := []\<rparr>)])
      else do { (_, _, self, effects) \<leftarrow> ten_env_return_result e self (r\<lparr>cb_dest_loc := []\<rparr>);
                Some (self, effects) })"

text \<open>
  Both loops of the delivery: a result is alone in the list, any other message is delivered with an
  empty destination. Only the types named in the code are delivered.
\<close>

definition deliver_msgs :: "ten_msg list \<Rightarrow> effect list run" where
  "deliver_msgs msgs =
     do { ten_assert (\<forall>m \<in> set msgs. ten_msg_get_type m \<in> {TEN_MSG_TYPE_CMD, TEN_MSG_TYPE_CMD_TIMEOUT,
            TEN_MSG_TYPE_DATA, TEN_MSG_TYPE_AUDIO_FRAME, TEN_MSG_TYPE_VIDEO_FRAME});
          Some (map (\<lambda>m. Deliver (ten_msg_clear_dest m)) msgs) }"

definition handle_arrived ::
  "call_env \<Rightarrow> ten_extension \<Rightarrow> ten_msg \<Rightarrow> (ten_extension \<times> effect list) run" where
  "handle_arrived e self msg =
     do { (self, msgs) \<leftarrow> converted_msgs e self msg;
          (pt, msgs) \<leftarrow> enter_paths e 0 (ex_path_table self) msgs;
          let self = self\<lparr>ex_path_table := pt\<rparr>;
          (pass, self, msgs, effects) \<leftarrow> validate_all e self msgs;
          if \<not> pass then Some (self, effects)
          else do { effects \<leftarrow> deliver_msgs msgs; Some (self, effects) } }"

definition ten_extension_handle_in_msg ::
  "call_env \<Rightarrow> ten_extension \<Rightarrow> ten_msg \<Rightarrow> (ten_extension \<times> effect list) run" where
  "ten_extension_handle_in_msg e self msg =
     (if ex_state self < TEN_EXTENSION_STATE_ON_INIT_DONE \<and> \<not> ten_msg_is_cmd_result msg
      then Some (self\<lparr>ex_pending := ex_pending self @ [msg]\<rparr>, [])
      else if \<not> ten_msg_is_cmd_result msg \<and> TEN_EXTENSION_STATE_ON_DEINIT \<le> ex_state self
      then (case msg of
              M_cmd t c \<Rightarrow>
                do { r \<leftarrow> ten_cmd_result_create_from_cmd TEN_STATUS_CODE_ERROR c;
                     Some (self, [To_engine (M_result (set_detail r
                       ''The destination extension is in its de-initialization phase.''))]) }
            | _ \<Rightarrow> Some (self, []))
      else case msg of
        M_result r \<Rightarrow>
          do { (out, self) \<leftarrow> process_result self TEN_PATH_OUT r;
               case out of
                 None \<Rightarrow> Some (self, [])
               | Some r \<Rightarrow>
                   do { (pass, self, msg, _) \<leftarrow> ten_extension_validate_in e self (M_result r);
                        case msg of M_result r \<Rightarrow> deliver_result e self r | _ \<Rightarrow> None } }
      | _ \<Rightarrow> handle_arrived e self msg)"

text \<open>Delivering: the callback, or what the runtime does when there is none.\<close>

definition ten_extension_on_msg ::
  "call_env \<Rightarrow> ten_extension \<Rightarrow> ten_msg \<Rightarrow> (ten_extension \<times> effect list) run" where
  "ten_extension_on_msg e self msg =
     (case msg of
        M_cmd t c \<Rightarrow>
          if ex_on_cmd self then Some (self, [On_msg msg])
          else do { r \<leftarrow> ten_cmd_result_create_from_cmd TEN_STATUS_CODE_OK c;
                    (_, _, self, effects) \<leftarrow> ten_env_return_result e self r;
                    Some (self, effects) }
      | M_data t d \<Rightarrow>
          if (case t of TEN_MSG_TYPE_VIDEO_FRAME \<Rightarrow> ex_on_video_frame self
                      | TEN_MSG_TYPE_AUDIO_FRAME \<Rightarrow> ex_on_audio_frame self
                      | _ \<Rightarrow> ex_on_data self)
          then Some (self, [On_msg msg])
          else do { (_, _, self, effects) \<leftarrow> ten_env_send_msg_internal e self msg 0 0 TEN_RESULT_RETURN_POLICY_INVALID;
                    Some (self, effects) }
      | M_result r \<Rightarrow> None)"

end
