(* ===== verification/Extension_Contract.thy ===== *)
theory Extension_Contract
  imports Extension_Msg
begin

text \<open>
  What an extension promises to the graph around it: the checks of a message depend only on what a
  sender may set, a command that is sent leaves once for each destination with its OUT paths
  recorded, and every function returns and keeps the extension well formed.
\<close>

section \<open>Checking keeps the shape of the properties\<close>

lemma type_adjust_object:
  "ten_schema_keyword_type_adjust_value h t (V_object kvs) = Some (r, v') \<Longrightarrow> v' = V_object kvs"
  by (cases t) (auto simp: ten_schema_keyword_type_adjust_value_def converted_def
      ten_value_convert_to_int8_def ten_value_convert_to_int16_def ten_value_convert_to_int32_def
      ten_value_convert_to_int64_def ten_value_convert_to_uint8_def ten_value_convert_to_uint16_def
      ten_value_convert_to_uint32_def ten_value_convert_to_uint64_def ten_value_convert_to_float32_def
      ten_value_convert_to_float64_def split: if_splits option.splits)

lemma type_adjust_keeps:
  assumes "ten_schema_keyword_type_adjust_value h t v = Some (r, v')"
  shows "keys_ok v \<Longrightarrow> keys_ok v'" and "ten_value_is_object v \<Longrightarrow> ten_value_is_object v'"
proof -
  have same: "v' = v" if "r \<noteq> None"
    using assms that
    by (cases t) (auto simp: ten_schema_keyword_type_adjust_value_def converted_def split: if_splits option.splits sum.splits)
  have "v' = v \<or> t \<noteq> TEN_TYPE_OBJECT \<and> t \<noteq> TEN_TYPE_ARRAY \<and> ten_value_get_type v' = t"
    using same type_adjust_type [of h t v v'] type_adjust_container [of h t v v'] assms by (cases r) auto
  then show "keys_ok v \<Longrightarrow> keys_ok v'" by (cases v') auto
  show "ten_value_is_object v \<Longrightarrow> ten_value_is_object v'"
    using assms by (auto dest: type_adjust_object)
qed

lemma adjust_keeps:
  "ten_schema_adjust_value_type_with_schema_error h s v = Some (r, v') \<Longrightarrow>
   (keys_ok v \<longrightarrow> keys_ok v') \<and> (ten_value_is_object v \<longrightarrow> ten_value_is_object v')"
  "adjust_keywords h kws v = Some (r, v') \<Longrightarrow>
   (keys_ok v \<longrightarrow> keys_ok v') \<and> (ten_value_is_object v \<longrightarrow> ten_value_is_object v')"
  "adjust_keyword h kw v = Some (r, v') \<Longrightarrow>
   (keys_ok v \<longrightarrow> keys_ok v') \<and> (ten_value_is_object v \<longrightarrow> ten_value_is_object v')"
  "adjust_members h props kvs = Some (r, kvs') \<Longrightarrow>
   map fst kvs' = map fst kvs \<and> (list_all (\<lambda>(k, v). keys_ok v) kvs \<longrightarrow> list_all (\<lambda>(k, v). keys_ok v) kvs')"
  "adjust_elements h s i vs = Some (r, vs') \<Longrightarrow> list_all keys_ok vs \<longrightarrow> list_all keys_ok vs'"
proof (induction h s v and h kws v and h kw v and h props kvs and h s i vs
    arbitrary: r v' and r v' and r v' and r kvs' and r vs'
    rule: ten_schema_adjust_value_type_with_schema_error_adjust_keywords_adjust_keyword_adjust_members_adjust_elements.induct)
  case (3 h kw kws v)
  then show ?case by (auto split: option.splits)
next
  case (4 h t v)
  then show ?case using type_adjust_keeps [of h t v r v'] by auto
next
  case (5 h props v)
  then show ?case by (cases v) (auto simp: keys_ok.simps(2))
next
  case (6 h s v)
  then show ?case by (cases v) auto
next
  case (9 h props key v kvs)
  then show ?case by (auto split: option.splits)
next
  case (11 h s i v vs)
  then show ?case by (auto split: option.splits)
qed auto

lemma check_properties_keeps:
  assumes "check_properties h s props = Some (e, props')"
  shows "keys_ok props \<Longrightarrow> keys_ok props'" and "ten_value_is_object props \<Longrightarrow> ten_value_is_object props'"
  using assms adjust_keeps(1) [of h _ props]
  by (fastforce simp: check_properties_def ten_schema_adjust_value_type_def split: option.splits sum.splits prod.splits)+

section \<open>The OUT paths of the commands that leave\<close>

definition out_path_for :: "'a cmd_base_scheme \<Rightarrow> 'c ten_path \<Rightarrow> bool" where
  "out_path_for c p \<longleftrightarrow>
     p_type p = TEN_PATH_OUT \<and> p_cmd_name p = cb_name c \<and> p_cmd_id p = cb_cmd_id c \<and>
     p_parent_cmd_id p = cb_parent_cmd_id c \<and> p_src_loc p = cb_src_loc c \<and>
     p_result_handler p = cb_result_handler c \<and> p_result_handler_data p = cb_result_handler_data c \<and>
     p_result_conversion p = None \<and> \<not> p_has_received_final_cmd_result p \<and> p_cached_cmd_result p = None"

definition out_cmd :: "'a cmd_base_scheme \<Rightarrow> 'a cmd_base_scheme" where
  "out_cmd c = ten_cmd_base_set_result_handler (ten_cmd_base_reset_parent_cmd_id c) 0 0"

lemma expired_time_defined: "0 \<le> sint now \<Longrightarrow> \<exists>d. get_expired_time now timeout = Some d"
  by (simp add: get_expired_time_def)

lemma add_out_path_eq:
  assumes "0 \<le> sint now" "length (cb_dest_loc c) = 1" "cb_name c \<noteq> []"
  shows "\<exists>p. ten_path_table_add_out_path now self c =
      Some (pt_next self, self\<lparr>pt_out_paths := pt_out_paths self @ [p], pt_next := pt_next self + 1\<rparr>, out_cmd c) \<and>
    out_path_for c p \<and> p_addr p = pt_next self \<and> p_group p = None \<and> \<not> p_last_in_group p"
  using assms expired_time_defined [OF assms(1), of "ten_path_table_get_path_timeout_duration self TEN_PATH_OUT"]
  by (auto simp: ten_path_table_add_out_path_def ten_path_out_create_def ten_path_init_def out_path_for_def out_cmd_def
      ten_cmd_base_get_parent_cmd_id_def ten_path_set_expired_time_def)

lemma add_out_paths_eq:
  assumes "\<forall>(now, c) \<in> set ncs. 0 \<le> sint now \<and> length (cb_dest_loc c) = 1 \<and> cb_name c \<noteq> []"
  shows "\<exists>ps. add_out_paths self ncs =
      Some ([pt_next self ..< pt_next self + length ncs],
            self\<lparr>pt_out_paths := pt_out_paths self @ ps, pt_next := pt_next self + length ncs\<rparr>,
            map (out_cmd \<circ> snd) ncs) \<and>
    list_all2 out_path_for (map snd ncs) ps \<and> map p_addr ps = [pt_next self ..< pt_next self + length ncs] \<and>
    (\<forall>p \<in> set ps. p_group p = None \<and> \<not> p_last_in_group p)"
  using assms
proof (induction ncs arbitrary: self)
  case (Cons nc ncs)
  obtain now c where nc: "nc = (now, c)" by force
  obtain p where p: "ten_path_table_add_out_path now self c =
      Some (pt_next self, self\<lparr>pt_out_paths := pt_out_paths self @ [p], pt_next := pt_next self + 1\<rparr>, out_cmd c)"
    "out_path_for c p" "p_addr p = pt_next self" "p_group p = None" "\<not> p_last_in_group p"
    using add_out_path_eq [of now c self] Cons.prems nc by auto
  let ?self = "self\<lparr>pt_out_paths := pt_out_paths self @ [p], pt_next := pt_next self + 1\<rparr>"
  obtain ps where ps: "add_out_paths ?self ncs =
      Some ([pt_next ?self ..< pt_next ?self + length ncs],
            ?self\<lparr>pt_out_paths := pt_out_paths ?self @ ps, pt_next := pt_next ?self + length ncs\<rparr>,
            map (out_cmd \<circ> snd) ncs)"
    "list_all2 out_path_for (map snd ncs) ps" "map p_addr ps = [pt_next ?self ..< pt_next ?self + length ncs]"
    "\<forall>p \<in> set ps. p_group p = None \<and> \<not> p_last_in_group p"
    using Cons.IH [of ?self] Cons.prems by auto
  have "[pt_next self ..< pt_next self + length (nc # ncs)] =
      pt_next self # [pt_next ?self ..< pt_next ?self + length ncs]"
    by (simp add: upt_conv_Cons del: upt_Suc)
  with p ps nc show ?case
    by (intro exI [of _ "p # ps"]) (simp del: upt_Suc)
qed simp

lemma out_path_for_grouped [simp]: "out_path_for c (grouped as g p) = out_path_for c p"
  by (simp add: out_path_for_def grouped_def)

text \<open>The group, if any, has exactly the new paths as its members.\<close>

lemma record_out_paths_eq:
  assumes ok: "pt_ok self" and pol: "policy \<noteq> TEN_RESULT_RETURN_POLICY_INVALID"
    and cmds: "\<forall>(now, c) \<in> set ncs. 0 \<le> sint now \<and> length (cb_dest_loc c) = 1 \<and> cb_name c \<noteq> []"
  shows "\<exists>self' ps. record_out_paths self ncs policy = Some (self', map (out_cmd \<circ> snd) ncs) \<and> pt_ok self' \<and>
    pt_in_paths self' = pt_in_paths self \<and> pt_out_paths self' = pt_out_paths self @ ps \<and>
    list_all2 out_path_for (map snd ncs) ps \<and>
    (length ncs > 1 \<longrightarrow> (\<exists>g. pt_groups self' g = Some \<lparr>pg_policy = policy, pg_members = map p_addr ps\<rparr> \<and>
       (\<forall>p \<in> set ps. p_group p = Some g))) \<and>
    (length ncs \<le> 1 \<longrightarrow> (\<forall>p \<in> set ps. p_group p = None))"
proof -
  let ?n = "pt_next self" and ?k = "length ncs"
  let ?as = "[?n ..< ?n + ?k]"
  obtain ps where ps: "add_out_paths self ncs =
      Some (?as, self\<lparr>pt_out_paths := pt_out_paths self @ ps, pt_next := ?n + ?k\<rparr>, map (out_cmd \<circ> snd) ncs)"
    "list_all2 out_path_for (map snd ncs) ps" "map p_addr ps = ?as" "\<forall>p \<in> set ps. p_group p = None \<and> \<not> p_last_in_group p"
    using add_out_paths_eq [OF cmds, of self] by auto
  let ?self = "self\<lparr>pt_out_paths := pt_out_paths self @ ps, pt_next := ?n + ?k\<rparr>"
  show ?thesis
  proof (cases "?k > 1")
    case False
    then have r: "record_out_paths self ncs policy = Some (?self, map (out_cmd \<circ> snd) ncs)"
      by (simp add: record_out_paths_def ps(1))
    from pt_ok_record_out [OF ok pol r] r ps(2,4) False show ?thesis
      by (intro exI [of _ ?self] exI [of _ ps]) simp
  next
    case True
    let ?g = "?n + ?k"
    let ?self' = "?self\<lparr>pt_out_paths := map (grouped ?as ?g) (pt_out_paths ?self),
               pt_groups := (pt_groups ?self)(?g \<mapsto> \<lparr>pg_policy = policy, pg_members = ?as\<rparr>), pt_next := ?g + 1\<rparr>"
    have "set ?as \<subseteq> p_addr ` set (pt_out_paths ?self)"
      unfolding ps(3) [symmetric] by auto
    from create_group_eq [OF _ this, of policy] True
    have r: "record_out_paths self ncs policy = Some (?self', map (out_cmd \<circ> snd) ncs)"
      by (simp add: record_out_paths_def ps(1))
    have old: "grouped ?as ?g p = p" if "p \<in> set (pt_out_paths self)" for p
    proof -
      have "p_addr p < ?n" using ok that by (auto simp: pt_ok_def)
      then show ?thesis by (simp add: grouped_def)
    qed
    have new: "p_addr p \<in> set ?as" if "p \<in> set ps" for p
      using ps(3) that by (metis image_eqI set_map)
    have "map (grouped ?as ?g) (pt_out_paths ?self) = pt_out_paths self @ map (grouped ?as ?g) ps"
      using old by (simp add: map_idI)
    moreover have "list_all2 out_path_for (map snd ncs) (map (grouped ?as ?g) ps)"
      using ps(2) by (simp add: list_all2_conv_all_nth)
    moreover have "\<forall>p \<in> set (map (grouped ?as ?g) ps). p_group p = Some ?g" using new by simp
    moreover have "map p_addr (map (grouped ?as ?g) ps) = ?as" using ps(3) by (simp add: o_def)
    ultimately show ?thesis
      using pt_ok_record_out [OF ok pol r] r True
      by (intro exI [of _ ?self'] exI [of _ "map (grouped ?as ?g) ps"]) (auto intro: exI [of _ ?g])
  qed
qed

section \<open>A check reads the name and the properties only\<close>

definition cmd_check ::
  "fp_host \<Rightarrow> schema_store \<Rightarrow> bool \<Rightarrow> msg_type \<Rightarrow> string \<Rightarrow> ten_value \<Rightarrow> (ten_error option \<times> ten_value) run" where
  "cmd_check h store out t name props =
     (if t \<noteq> TEN_MSG_TYPE_CMD then Some (None, props)
      else do { ten_assert (name \<noteq> []);
                s \<leftarrow> ten_schema_store_get_msg_schema store t name out;
                case s of None \<Rightarrow> Some (None, props) | Some s \<Rightarrow> check_properties h (ms_property s) props })"

definition result_check ::
  "fp_host \<Rightarrow> schema_store \<Rightarrow> bool \<Rightarrow> string \<Rightarrow> ten_value \<Rightarrow> (ten_error option \<times> ten_value) run" where
  "result_check h store out name props =
     do { ten_assert (name \<noteq> []);
          s \<leftarrow> ten_schema_store_get_msg_schema store TEN_MSG_TYPE_CMD_RESULT name (\<not> out);
          case s of None \<Rightarrow> Some (None, props) | Some s \<Rightarrow> check_properties h (ms_cmd_result s) props }"

lemma validate_cmd:
  assumes "t \<in> cmd_types"
  shows "ten_msg_validate_schema h (M_cmd t c) store out =
    map_option (map_prod id (\<lambda>p. M_cmd t (c\<lparr>cb_properties := p\<rparr>))) (cmd_check h store out t (cb_name c) (cb_properties c))"
  using assms
  by (cases "cb_name c = []"; cases "ten_schema_store_get_msg_schema store t (cb_name c) out")
    (auto simp: ten_msg_validate_schema_def ten_raw_msg_validate_schema_def cmd_check_def
      ten_msg_is_cmd_and_result_def ten_raw_msg_is_cmd_and_result_def map_prod_def option.map_comp
      split: option.splits Option.bind_splits)

lemma validate_result:
  "ten_msg_validate_schema h (M_result r) store out =
    map_option (map_prod id (\<lambda>p. M_result (r\<lparr>cb_properties := p\<rparr>)))
      (result_check h store out (cr_original_cmd_name r) (cb_properties r))"
  by (cases "cr_original_cmd_name r = []";
      cases "ten_schema_store_get_msg_schema store TEN_MSG_TYPE_CMD_RESULT (cr_original_cmd_name r) (\<not> out)")
    (auto simp: ten_msg_validate_schema_def ten_raw_cmd_result_validate_schema_def result_check_def
      map_prod_def split: option.splits Option.bind_splits)

text \<open>The checks of a well-formed store return, and keep objects with distinct keys.\<close>

lemma check_returns:
  assumes "store_ok store" and "name \<noteq> []"
  shows "\<exists>e props'. cmd_check h store out t name props = Some (e, props') \<and>
      (keys_ok props \<longrightarrow> keys_ok props') \<and> (ten_value_is_object props \<longrightarrow> ten_value_is_object props')"
    and "\<exists>e props'. result_check h store out name props = Some (e, props') \<and>
      (keys_ok props \<longrightarrow> keys_ok props') \<and> (ten_value_is_object props \<longrightarrow> ten_value_is_object props')"
proof -
  have c: "\<exists>e props'. (case map_of (rev m) name of None \<Rightarrow> Some (None, props)
        | Some s \<Rightarrow> check_properties h (part s) props) = Some (e, props') \<and>
      (keys_ok props \<longrightarrow> keys_ok props') \<and> (ten_value_is_object props \<longrightarrow> ten_value_is_object props')"
    if "schema_map store ty out' = Some m" "part = ms_property \<or> part = ms_cmd_result" for m ty out' part
    using lookup_check_ok [OF assms(1) that, where k = name and h = h and props = props] check_properties_keeps
    by (fastforce split: option.splits)
  show "\<exists>e props'. cmd_check h store out t name props = Some (e, props') \<and>
      (keys_ok props \<longrightarrow> keys_ok props') \<and> (ten_value_is_object props \<longrightarrow> ten_value_is_object props')"
    using c [of TEN_MSG_TYPE_CMD out _ ms_property] assms(2)
    by (cases "t = TEN_MSG_TYPE_CMD") (simp_all add: cmd_check_def get_msg_schema_returns)
  show "\<exists>e props'. result_check h store out name props = Some (e, props') \<and>
      (keys_ok props \<longrightarrow> keys_ok props') \<and> (ten_value_is_object props \<longrightarrow> ten_value_is_object props')"
    using c [of TEN_MSG_TYPE_CMD_RESULT "\<not> out" _ ms_cmd_result] assms(2)
    by (simp add: result_check_def get_msg_schema_returns)
qed

section \<open>One message for each destination\<close>

lemma properties_copy_clone:
  assumes "keys_ok v" and "ten_value_is_object v"
  shows "ten_raw_msg_properties_copy False v = Some (ten_value_clone v)"
proof -
  from assms(2) obtain s where v: "v = V_object s" by auto
  with assms(1) have d: "distinct (map fst s)" by (simp add: keys_ok_object)
  have "merge_clone [] s = map (map_prod id ten_value_clone) s"
  proof (rule alist_eqI)
    show "distinct (map fst (merge_clone [] s))" by (simp add: distinct_merge_clone)
    show "map fst (merge_clone [] s) = map fst (map (map_prod id ten_value_clone) s)"
      using d by (simp add: keys_merge_clone o_def)
    show "map_of (merge_clone [] s) = map_of (map (map_prod id ten_value_clone) s)"
      using d by (auto simp: map_of_merge_clone map_of_map map_prod_def fun_eq_iff split: option.splits)
  qed
  then show ?thesis
    by (simp add: v ten_raw_msg_properties_copy_def ten_value_object_merge_with_clone_def map_prod_def case_prod_unfold)
qed

text \<open>What the copy with number \<open>k\<close> for a destination has in common with the command.\<close>

definition sent_copy :: "(nat \<Rightarrow> string) \<Rightarrow> nat \<Rightarrow> 'a cmd_base_scheme \<Rightarrow> ten_loc \<Rightarrow> 'b cmd_base_scheme \<Rightarrow> bool" where
  "sent_copy uuids k c d c' \<longleftrightarrow>
     cb_is_cmd c' = cb_is_cmd c \<and> cb_name c' = cb_name c \<and> cb_src_loc c' = cb_src_loc c \<and>
     cb_dest_loc c' = [d] \<and> cb_result_handler c' = cb_result_handler c \<and>
     cb_result_handler_data c' = cb_result_handler_data c \<and>
     cb_cmd_id c' = (if k = 0 then cb_cmd_id c else uuids k) \<and>
     cb_parent_cmd_id c' = (if k = 0 then cb_parent_cmd_id c else cb_cmd_id c) \<and>
     cb_properties c' = (if k = 0 then cb_properties c else ten_value_clone (cb_properties c))"

lemma set_dest_to_loc [simp]:
  "ten_raw_msg_clear_and_set_dest_to_loc m loc = set_dest m [loc]" for loc :: ten_loc
  by (cases loc) (simp add: ten_raw_msg_clear_and_set_dest_to_loc_def ten_raw_msg_clear_and_set_dest_def ten_loc_defs)

lemma split_dests_cmd:
  assumes "keys_ok (cb_properties c)" and "ten_value_is_object (cb_properties c)"
  shows "\<exists>cs. split_dests uuids i (M_cmd TEN_MSG_TYPE_CMD c) dests = Some (map (M_cmd TEN_MSG_TYPE_CMD) cs) \<and>
    length cs = length dests \<and> (\<forall>j < length dests. sent_copy uuids (i + j) c (dests ! j) (cs ! j))"
proof (induction dests arbitrary: i)
  case (Cons d dests)
  obtain cs where cs: "split_dests uuids (Suc i) (M_cmd TEN_MSG_TYPE_CMD c) dests = Some (map (M_cmd TEN_MSG_TYPE_CMD) cs)"
    "length cs = length dests" "\<forall>j < length dests. sent_copy uuids (Suc i + j) c (dests ! j) (cs ! j)"
    using Cons.IH [of "Suc i"] by blast
  obtain c' where c': "(if need_to_clone_msg_when_sending i then ten_msg_clone False (uuids i) (M_cmd TEN_MSG_TYPE_CMD c)
      else Some (Some (M_cmd TEN_MSG_TYPE_CMD c))) = Some (Some (M_cmd TEN_MSG_TYPE_CMD c'))"
    "sent_copy uuids i c d (c'\<lparr>cb_dest_loc := [d]\<rparr>)"
    using properties_copy_clone [OF assms]
    by (cases "i = 0")
      (auto simp: need_to_clone_msg_when_sending_def ten_msg_clone_def ten_raw_cmd_custom_as_msg_clone_def
        ten_cmd_base_gen_new_cmd_id_forcibly_def ten_cmd_base_save_cmd_id_to_parent_cmd_id_def sent_copy_def)
  show ?case
    using cs c' by (intro exI [of _ "c'\<lparr>cb_dest_loc := [d]\<rparr> # cs"]) (auto simp: nth_Cons' gr0_conv_Suc)
qed simp

section \<open>Sending a command\<close>

definition own_loc :: "ten_extension \<Rightarrow> ten_loc" where
  "own_loc self =
     \<lparr>loc_app_uri = en_app_uri (ex_engine self), loc_graph_id = en_graph_id (ex_engine self),
      loc_extension_name = ex_name self\<rparr>"

definition clock_ok :: "call_env \<Rightarrow> bool" where
  "clock_ok e \<longleftrightarrow> (\<forall>i. 0 \<le> sint (ce_clock e i))"

lemma set_src_own [simp]:
  "ten_msg_set_src m (Some (en_app_uri (ex_engine self))) (Some (en_graph_id (ex_engine self))) (Some (ex_name self)) =
   set_src m (own_loc self)"
  by (cases m) (simp_all add: ten_msg_set_src_def ten_loc_defs own_loc_def)

lemma correct_no_dest [simp]: "ten_msg_get_dest m = [] \<Longrightarrow> ten_msg_correct_dest m engine = Some m"
  by (cases m) (simp_all add: ten_msg_correct_dest_def)

lemma those_cmds [simp]: "those (map (\<lambda>c. Some (t, c)) cs) = Some (map (Pair t) cs)"
  by (induction cs) simp_all

lemma record_cmds_eq:
  assumes "pt_ok (ex_path_table self)" "policy \<noteq> TEN_RESULT_RETURN_POLICY_INVALID" "clock_ok e"
    and "\<forall>c \<in> set cs. length (cb_dest_loc c) = 1 \<and> cb_name c \<noteq> []"
  shows "\<exists>pt ps. record_cmds e self (map (M_cmd t) cs) policy =
      Some (self\<lparr>ex_path_table := pt\<rparr>, map (\<lambda>c. M_cmd t (out_cmd c)) cs) \<and> pt_ok pt \<and>
    pt_in_paths pt = pt_in_paths (ex_path_table self) \<and> pt_out_paths pt = pt_out_paths (ex_path_table self) @ ps \<and>
    list_all2 out_path_for cs ps \<and>
    (length cs > 1 \<longrightarrow> (\<exists>g. pt_groups pt g = Some \<lparr>pg_policy = policy, pg_members = map p_addr ps\<rparr> \<and>
       (\<forall>p \<in> set ps. p_group p = Some g))) \<and>
    (length cs \<le> 1 \<longrightarrow> (\<forall>p \<in> set ps. p_group p = None))"
proof -
  let ?ncs = "zip (map (ce_clock e) [0..<length cs]) cs"
  have "\<forall>(now, c) \<in> set ?ncs. 0 \<le> sint now \<and> length (cb_dest_loc c) = 1 \<and> cb_name c \<noteq> []"
    using assms(3,4) by (auto simp: clock_ok_def set_zip)
  from record_out_paths_eq [OF assms(1,2) this]
  obtain pt ps where r: "record_out_paths (ex_path_table self) ?ncs policy = Some (pt, map (out_cmd \<circ> snd) ?ncs)"
    "pt_ok pt" "pt_in_paths pt = pt_in_paths (ex_path_table self)" "pt_out_paths pt = pt_out_paths (ex_path_table self) @ ps"
    "list_all2 out_path_for cs ps"
    "length cs > 1 \<longrightarrow> (\<exists>g. pt_groups pt g = Some \<lparr>pg_policy = policy, pg_members = map p_addr ps\<rparr> \<and>
       (\<forall>p \<in> set ps. p_group p = Some g))"
    "length cs \<le> 1 \<longrightarrow> (\<forall>p \<in> set ps. p_group p = None)"
    by auto
  have m: "map (out_cmd \<circ> snd) ?ncs = map out_cmd cs" by (simp add: flip: map_map)
  have "map (\<lambda>(t, c). M_cmd t c) (zip (map (fst \<circ> Pair t) cs) (map out_cmd cs)) = map (\<lambda>c. M_cmd t (out_cmd c)) cs"
    by (induction cs) simp_all
  with r m show ?thesis
    by (intro exI [of _ pt] exI [of _ ps]) (simp add: record_cmds_def o_def)
qed

text \<open>The command as it is after its source, handler and id are set and its properties checked.\<close>

lemma prepare_out_cmd:
  assumes "t \<in> cmd_types" "cb_dest_loc c = []"
  shows "prepare_out e self (M_cmd t c) =
    map_option (map_prod id (\<lambda>p. M_cmd t (c\<lparr>cb_src_loc := own_loc self, cb_properties := p\<rparr>)))
      (cmd_check (ce_host e) (ex_schema_store self) True t (cb_name c) (cb_properties c))"
proof -
  have "t \<noteq> TEN_MSG_TYPE_CMD_RESULT" using assms(1) by (auto simp: cmd_types_def)
  with assms show ?thesis
    by (simp add: prepare_out_def Let_def validate_cmd cong: if_cong)
qed

lemma send_msg_internal_cmd:
  assumes "\<not> ex_env_closed self" "t \<in> cmd_types"
  shows "ten_env_send_msg_internal e self (M_cmd t c) handler user_data policy =
    do { (ok, err, self, effects) \<leftarrow> ten_extension_dispatch_msg e self
           (M_cmd t (c\<lparr>cb_cmd_id := if cb_cmd_id c = [] then ce_msg_uuid e 0 else cb_cmd_id c,
                       cb_result_handler := handler, cb_result_handler_data := user_data\<rparr>)) policy;
         let self = (if \<not> ok \<and> map_option error_code err = Some TEN_ERROR_CODE_MSG_NOT_CONNECTED
                     then snd (ten_extension_increment_msg_not_connected_count self (cb_name c)) else self);
         Some (ok, err, self, effects) }"
proof -
  let ?c = "c\<lparr>cb_cmd_id := if cb_cmd_id c = [] then ce_msg_uuid e 0 else cb_cmd_id c,
    cb_result_handler := handler, cb_result_handler_data := user_data\<rparr>"
  have "t \<noteq> TEN_MSG_TYPE_CMD_RESULT" using assms(2) by (auto simp: cmd_types_def)
  moreover have "M_cmd t (if cb_cmd_id (ten_cmd_base_set_result_handler c handler user_data) = []
      then ten_cmd_base_gen_new_cmd_id_forcibly (ce_msg_uuid e 0) (ten_cmd_base_set_result_handler c handler user_data)
      else ten_cmd_base_set_result_handler c handler user_data) = M_cmd t ?c"
    by (cases c) (simp add: ten_cmd_base_set_result_handler_def ten_cmd_base_gen_new_cmd_id_forcibly_def)
  moreover have "cb_name ?c = cb_name c" by simp
  ultimately show ?thesis
    using assms(1) by (simp only: ten_env_send_msg_internal_def Let_def ten_msg.case ten_msg_get_type.simps
        ten_msg_get_name.simps cmd_base.simps ten_cmd.simps if_False)
qed

text \<open>
  A well-formed extension: its path table and its schemas are, it has a place in the graph, and its
  conversions work by rules on the messages' own properties.
\<close>

definition flat_conversion :: "msg_conversion \<Rightarrow> bool" where
  "flat_conversion c \<longleftrightarrow>
     (case c of Per_property None \<Rightarrow> False | Per_property (Some rules) \<Rightarrow> \<forall>r \<in> set (rs_rules rules). flat_rule r)"

definition contexts_ok :: "msg_conversion_context list \<Rightarrow> bool" where
  "contexts_ok cs \<longleftrightarrow> (\<forall>c \<in> set cs. \<forall>conv \<in> set_option (mc_conversion c). flat_conversion (ma_msg conv))"

definition ext_ok :: "ten_extension \<Rightarrow> bool" where
  "ext_ok self \<longleftrightarrow> pt_ok (ex_path_table self) \<and> store_ok (ex_schema_store self) \<and>
     (\<exists>info. ex_extension_info self = Some info \<and> contexts_ok (ei_msg_conversion_contexts info))"

lemma type_cmd [simp]: "TEN_MSG_TYPE_CMD \<in> cmd_types"
  by (simp add: cmd_types_def)

text \<open>
  A command whose properties pass the check and for which the graph has destinations, on its way out.
\<close>

lemma dispatch_cmd:
  assumes ok: "ext_ok self" and live: "ex_state self \<noteq> TEN_EXTENSION_STATE_ON_DEINIT_DONE"
    and c: "cb_dest_loc c = []" "cb_name c \<noteq> []" "cb_is_cmd c"
    and check: "cmd_check (ce_host e) (ex_schema_store self) True TEN_MSG_TYPE_CMD (cb_name c) (cb_properties c) = Some (None, props)"
    and props: "keys_ok props" "ten_value_is_object props"
    and dests: "ten_extension_get_msg_dests_from_graph self (M_cmd TEN_MSG_TYPE_CMD c) = Some (Some di)" "md_dest di \<noteq> []"
    and e: "clock_ok e" and pol: "policy \<noteq> TEN_RESULT_RETURN_POLICY_INVALID"
  shows "\<exists>pt ps cs. ten_extension_dispatch_msg e self (M_cmd TEN_MSG_TYPE_CMD c) policy =
      Some (True, None, self\<lparr>ex_path_table := pt\<rparr>, map (\<lambda>c. Dispatch (M_cmd TEN_MSG_TYPE_CMD (out_cmd c))) cs) \<and>
    length cs = length (md_dest di) \<and>
    (\<forall>j < length cs. sent_copy (ce_msg_uuid e) j
       (c\<lparr>cb_src_loc := own_loc self, cb_properties := props\<rparr>) (md_dest di ! j) (cs ! j)) \<and>
    pt_ok pt \<and> pt_in_paths pt = pt_in_paths (ex_path_table self) \<and>
    pt_out_paths pt = pt_out_paths (ex_path_table self) @ ps \<and> list_all2 out_path_for cs ps \<and>
    (length cs > 1 \<longrightarrow> (\<exists>g. pt_groups pt g = Some \<lparr>pg_policy = policy, pg_members = map p_addr ps\<rparr> \<and>
       (\<forall>p \<in> set ps. p_group p = Some g))) \<and>
    (length cs \<le> 1 \<longrightarrow> (\<forall>p \<in> set ps. p_group p = None))"
proof -
  let ?t = TEN_MSG_TYPE_CMD
  let ?c = "c\<lparr>cb_src_loc := own_loc self, cb_properties := props\<rparr>"
  have prep: "prepare_out e self (M_cmd ?t c) = Some (None, M_cmd ?t ?c)"
    using check c by (simp add: prepare_out_cmd)
  obtain cs where cs: "split_dests (ce_msg_uuid e) 0 (M_cmd ?t ?c) (md_dest di) = Some (map (M_cmd ?t) cs)"
    "length cs = length (md_dest di)" "\<forall>j < length cs. sent_copy (ce_msg_uuid e) j ?c (md_dest di ! j) (cs ! j)"
    using split_dests_cmd [of ?c "ce_msg_uuid e" 0 "md_dest di"] props by auto
  have graph: "ten_extension_get_msg_dests_from_graph self (M_cmd ?t ?c) = Some (Some di)"
    using dests(1) ok
    by (auto simp: ext_ok_def ten_extension_get_msg_dests_from_graph_def ten_msg_is_cmd_and_result_def
        ten_raw_msg_is_cmd_and_result_def ten_extension_get_msg_dests_from_graph_internal_def)
  have out: "ten_extension_determine_out_msgs e self (M_cmd ?t ?c) = Some (Inr (map (M_cmd ?t) cs))"
    using cs(1) graph dests(2) c(1)
    by (simp add: ten_extension_determine_out_msgs_def ten_extension_determine_out_msg_dest_from_graph_def
        ten_msg_is_cmd_result_def ten_raw_msg_is_cmd_result_def)
  have one: "\<forall>c \<in> set cs. length (cb_dest_loc c) = 1 \<and> cb_name c \<noteq> []"
    using cs(2,3) c(2) by (auto simp: set_conv_nth sent_copy_def)
  have "pt_ok (ex_path_table self)" using ok by (simp add: ext_ok_def)
  from record_cmds_eq [OF this pol e one, of ?t]
  obtain pt ps where rec: "record_cmds e self (map (M_cmd ?t) cs) policy =
      Some (self\<lparr>ex_path_table := pt\<rparr>, map (\<lambda>c. M_cmd ?t (out_cmd c)) cs)" "pt_ok pt"
    "pt_in_paths pt = pt_in_paths (ex_path_table self)" "pt_out_paths pt = pt_out_paths (ex_path_table self) @ ps"
    "list_all2 out_path_for cs ps"
    "length cs > 1 \<longrightarrow> (\<exists>g. pt_groups pt g = Some \<lparr>pg_policy = policy, pg_members = map p_addr ps\<rparr> \<and>
       (\<forall>p \<in> set ps. p_group p = Some g))"
    "length cs \<le> 1 \<longrightarrow> (\<forall>p \<in> set ps. p_group p = None)" by blast
  have "ten_extension_dispatch_msg e self (M_cmd ?t c) policy =
      Some (True, None, self\<lparr>ex_path_table := pt\<rparr>, map (\<lambda>c. Dispatch (M_cmd ?t (out_cmd c))) cs)"
    using prep out rec(1) live by (simp add: ten_extension_dispatch_msg_def ten_msg_is_cmd_def o_def)
  with cs rec show ?thesis by blast
qed

section \<open>An extension connected to two others\<close>

definition example_env :: call_env where
  "example_env =
     \<lparr>ce_host = x86_host, ce_clock = (\<lambda>i. 0), ce_msg_uuid = (\<lambda>i. ''m'' @ show_nat i),
      ce_path_uuid = (\<lambda>i. ''p'' @ show_nat i)\<rparr>"

definition example_extension :: "string \<Rightarrow> msg_dest_info list \<Rightarrow> ten_extension" where
  "example_extension name dests =
     \<lparr>ex_name = name, ex_state = TEN_EXTENSION_STATE_ON_START_DONE, ex_env_closed = False, ex_on_cmd = True,
      ex_on_data = True, ex_on_video_frame = True, ex_on_audio_frame = True,
      ex_engine = \<lparr>en_addr = 1, en_app_uri = ''app'', en_graph_id = ''g'', en_predefined_graphs = []\<rparr>,
      ex_extension_info = Some \<lparr>ei_dest_cmd = dests, ei_dest_data = [], ei_dest_video_frame = [],
         ei_dest_audio_frame = [], ei_msg_conversion_contexts = []\<rparr>,
      ex_schema_store = ten_schema_store_init, ex_pending = [],
      ex_path_table = ten_path_table_create TEN_PATH_TABLE_ATTACH_TO_EXTENSION 1000 1000, ex_not_connected = []\<rparr>"

definition example_dests :: "msg_dest_info list" where
  "example_dests =
     [\<lparr>md_name = ''hello'', md_dest = [ten_loc_create (Some ''app'') (Some ''g'') (Some ''b''),
                                       ten_loc_create (Some ''app'') (Some ''g'') (Some ''c'')]\<rparr>]"

definition example_hello :: ten_cmd where
  "example_hello =
     \<lparr>cb_is_cmd = True, cb_name = ''hello'', cb_cmd_id = [], cb_parent_cmd_id = [],
      cb_src_loc = ten_loc_create_empty, cb_dest_loc = [], cb_result_handler = 0, cb_result_handler_data = 0,
      cb_properties = V_object [(''n'', V_int32 5)], tc_timer = \<lparr>ct_timer_id = 0, ct_timeout_us = 0, ct_times = 0\<rparr>\<rparr>"

lemma example_env_clock: "clock_ok example_env"
  by (simp add: clock_ok_def example_env_def)

lemma store_ok_init: "store_ok ten_schema_store_init"
  by (simp add: store_ok_def ten_schema_store_init_def)

lemma example_extension_ok: "ext_ok (example_extension name dests)"
  by (simp add: ext_ok_def example_extension_def pt_ok_create store_ok_init contexts_ok_def)

lemma init_store_check [simp]:
  "name \<noteq> [] \<Longrightarrow> cmd_check h ten_schema_store_init out t name props = Some (None, props)"
  "name \<noteq> [] \<Longrightarrow> result_check h ten_schema_store_init out name props = Some (None, props)"
  by (simp_all add: cmd_check_def result_check_def get_msg_schema_returns ten_schema_store_init_def)

lemma out_cmd_simps:
  "cb_name (out_cmd c) = cb_name c" "cb_src_loc (out_cmd c) = cb_src_loc c" "cb_dest_loc (out_cmd c) = cb_dest_loc c"
  "cb_cmd_id (out_cmd c) = cb_cmd_id c" "cb_properties (out_cmd c) = cb_properties c" "cb_is_cmd (out_cmd c) = cb_is_cmd c"
  "cb_result_handler (out_cmd c) = 0" "cb_result_handler_data (out_cmd c) = 0" "cb_parent_cmd_id (out_cmd c) = []"
  by (simp_all add: out_cmd_def ten_cmd_base_set_result_handler_def ten_cmd_base_reset_parent_cmd_id_def)

section \<open>Properties\<close>

text \<open>C4: A command that an extension sends to the destinations of its graph, when it passes the schema,
  leaves once for each destination in the order of the graph: from this extension, to that destination
  alone, under the id of the command for the first and a new id for each other one, with the properties
  as the check leaves them, copied for every further destination, and without the result handler. For each of them the table has a new OUT path under the same id, with
  the handler, and when there is more than one the paths form a group with the policy the caller asks
  for. Nothing else of the extension changes and it stays well formed.
\<close>

theorem send_cmd_fans_out:
  assumes "ext_ok self" "\<not> ex_env_closed self" "ex_state self \<noteq> TEN_EXTENSION_STATE_ON_DEINIT_DONE"
    and "cb_dest_loc c = []" "cb_name c \<noteq> []" "cb_is_cmd c" "keys_ok (cb_properties c)" "ten_value_is_object (cb_properties c)"
    and "ten_msg_validate_schema (ce_host e) (M_cmd TEN_MSG_TYPE_CMD c) (ex_schema_store self) True =
      Some (None, M_cmd TEN_MSG_TYPE_CMD c1)"
    and "ten_extension_get_msg_dests_from_graph self (M_cmd TEN_MSG_TYPE_CMD c) = Some (Some di)" "md_dest di \<noteq> []"
    and "clock_ok e" "handler \<noteq> 0"
  shows "\<exists>self' cs ps. ten_env_send_cmd e self (M_cmd TEN_MSG_TYPE_CMD c) handler user_data multiple =
      Some (True, None, self', map (Dispatch \<circ> M_cmd TEN_MSG_TYPE_CMD) cs) \<and>
    map cb_dest_loc cs = map (\<lambda>d. [d]) (md_dest di) \<and>
    (\<forall>j < length cs. cb_name (cs ! j) = cb_name c \<and> cb_src_loc (cs ! j) = own_loc self \<and>
       cb_result_handler (cs ! j) = 0 \<and>
       cb_cmd_id (cs ! j) = (if j = 0 \<and> cb_cmd_id c \<noteq> [] then cb_cmd_id c else ce_msg_uuid e j) \<and>
       cb_properties (cs ! j) = (if j = 0 then cb_properties c1 else ten_value_clone (cb_properties c1))) \<and>
    ext_ok self' \<and> self' = self\<lparr>ex_path_table := ex_path_table self'\<rparr> \<and>
    pt_in_paths (ex_path_table self') = pt_in_paths (ex_path_table self) \<and>
    pt_out_paths (ex_path_table self') = pt_out_paths (ex_path_table self) @ ps \<and>
    map p_cmd_id ps = map cb_cmd_id cs \<and>
    (\<forall>p \<in> set ps. p_src_loc p = own_loc self \<and> p_result_handler p = handler \<and> p_result_handler_data p = user_data) \<and>
    (length ps > 1 \<longrightarrow> (\<exists>g. pt_groups (ex_path_table self') g =
         Some \<lparr>pg_policy = if multiple then TEN_RESULT_RETURN_POLICY_EACH_OK_AND_ERROR
                              else TEN_RESULT_RETURN_POLICY_FIRST_ERROR_OR_LAST_OK,
               pg_members = map p_addr ps\<rparr> \<and> (\<forall>p \<in> set ps. p_group p = Some g))) \<and>
    (length ps \<le> 1 \<longrightarrow> (\<forall>p \<in> set ps. p_group p = None))"
proof -
  let ?t = TEN_MSG_TYPE_CMD
  let ?c = "c\<lparr>cb_cmd_id := if cb_cmd_id c = [] then ce_msg_uuid e 0 else cb_cmd_id c,
    cb_result_handler := handler, cb_result_handler_data := user_data\<rparr>"
  let ?policy = "if multiple then TEN_RESULT_RETURN_POLICY_EACH_OK_AND_ERROR
                              else TEN_RESULT_RETURN_POLICY_FIRST_ERROR_OR_LAST_OK"
  have store: "store_ok (ex_schema_store self)" using assms(1) by (simp add: ext_ok_def)
  obtain props where check: "cmd_check (ce_host e) (ex_schema_store self) True ?t (cb_name c) (cb_properties c) = Some (None, props)"
    and c1: "c1 = c\<lparr>cb_properties := props\<rparr>" and props: "keys_ok props" "ten_value_is_object props"
    using check_returns(1) [OF store assms(5), of "ce_host e" True ?t "cb_properties c"] assms(7-9)
    by (auto simp: validate_cmd)
  have graph: "ten_extension_get_msg_dests_from_graph self (M_cmd ?t ?c) = Some (Some di)"
    using assms(1,10) by (auto simp: ext_ok_def ten_extension_get_msg_dests_from_graph_def ten_msg_is_cmd_and_result_def
        ten_raw_msg_is_cmd_and_result_def ten_extension_get_msg_dests_from_graph_internal_def)
  have pol: "?policy \<noteq> TEN_RESULT_RETURN_POLICY_INVALID" by simp
  have c: "cb_dest_loc ?c = []" "cb_name ?c \<noteq> []" "cb_is_cmd ?c"
    "cmd_check (ce_host e) (ex_schema_store self) True ?t (cb_name ?c) (cb_properties ?c) = Some (None, props)"
    using assms(4-6) check by simp_all
  from dispatch_cmd [OF assms(1,3) c props graph assms(11,12) pol]
  obtain pt ps cs where d: "ten_extension_dispatch_msg e self (M_cmd ?t ?c) ?policy =
      Some (True, None, self\<lparr>ex_path_table := pt\<rparr>, map (\<lambda>c. Dispatch (M_cmd ?t (out_cmd c))) cs)"
    "length cs = length (md_dest di)"
    "\<forall>j < length cs. sent_copy (ce_msg_uuid e) j (?c\<lparr>cb_src_loc := own_loc self, cb_properties := props\<rparr>) (md_dest di ! j) (cs ! j)"
    "pt_ok pt" "pt_in_paths pt = pt_in_paths (ex_path_table self)" "pt_out_paths pt = pt_out_paths (ex_path_table self) @ ps"
    "list_all2 out_path_for cs ps"
    "length cs > 1 \<longrightarrow> (\<exists>g. pt_groups pt g = Some \<lparr>pg_policy = ?policy, pg_members = map p_addr ps\<rparr> \<and>
       (\<forall>p \<in> set ps. p_group p = Some g))"
    "length cs \<le> 1 \<longrightarrow> (\<forall>p \<in> set ps. p_group p = None)"
    by blast
  have len: "length ps = length cs" using d(7) by (simp add: list_all2_lengthD)
  have path: "out_path_for (cs ! j) (ps ! j)" if "j < length cs" for j
    using d(7) that by (simp add: list_all2_conv_all_nth)
  have send: "ten_env_send_cmd e self (M_cmd ?t c) handler user_data multiple =
      Some (True, None, self\<lparr>ex_path_table := pt\<rparr>, map (Dispatch \<circ> M_cmd ?t) (map out_cmd cs))"
    using d(1) assms(2,13) by (simp add: ten_env_send_cmd_def send_msg_internal_cmd o_def)
  show ?thesis
  proof (intro exI conjI)
    show "ten_env_send_cmd e self (M_cmd ?t c) handler user_data multiple =
      Some (True, None, self\<lparr>ex_path_table := pt\<rparr>, map (Dispatch \<circ> M_cmd ?t) (map out_cmd cs))"
      by (rule send)
    show "map cb_dest_loc (map out_cmd cs) = map (\<lambda>d. [d]) (md_dest di)"
      using d(2,3) by (intro nth_equalityI) (simp_all add: sent_copy_def out_cmd_simps)
    show "map p_cmd_id ps = map cb_cmd_id (map out_cmd cs)"
      using len path by (intro nth_equalityI) (simp_all add: out_path_for_def out_cmd_simps)
    show "\<forall>p \<in> set ps. p_src_loc p = own_loc self \<and> p_result_handler p = handler \<and> p_result_handler_data p = user_data"
      using d(3) path len by (auto simp: set_conv_nth out_path_for_def sent_copy_def)
  qed (use d assms(1) len c1 in \<open>auto simp: sent_copy_def out_cmd_simps ext_ok_def\<close>)
qed

theorem send_cmd_fans_out_witness:
  "\<exists>self' cs. ten_env_send_cmd example_env (example_extension ''a'' example_dests)
      (M_cmd TEN_MSG_TYPE_CMD example_hello) 7 8 False = Some (True, None, self', map (Dispatch \<circ> M_cmd TEN_MSG_TYPE_CMD) cs) \<and>
    map (map loc_extension_name \<circ> cb_dest_loc) cs = [[''b''], [''c'']]"
proof -
  let ?a = "example_extension ''a'' example_dests" and ?t = TEN_MSG_TYPE_CMD
  let ?d = "hd example_dests"
  have n: "\<not> ex_env_closed ?a" "ex_state ?a \<noteq> TEN_EXTENSION_STATE_ON_DEINIT_DONE" "cb_dest_loc example_hello = []"
    "cb_name example_hello \<noteq> []" "cb_is_cmd example_hello" "keys_ok (cb_properties example_hello)"
    "ten_value_is_object (cb_properties example_hello)"
    by (simp_all add: example_extension_def example_hello_def keys_ok_object)
  have v: "ten_msg_validate_schema (ce_host example_env) (M_cmd ?t example_hello) (ex_schema_store ?a) True =
      Some (None, M_cmd ?t (example_hello\<lparr>cb_properties := cb_properties example_hello\<rparr>))"
    using n(4) by (simp add: validate_cmd example_extension_def)
  have g: "ten_extension_get_msg_dests_from_graph ?a (M_cmd ?t example_hello) = Some (Some ?d)" "md_dest ?d \<noteq> []"
    by (simp_all add: example_extension_def example_hello_def example_dests_def ten_extension_get_msg_dests_from_graph_def
        ten_msg_is_cmd_and_result_def ten_raw_msg_is_cmd_and_result_def ten_extension_get_msg_dests_from_graph_internal_def
        ten_msg_dest_info_qualified_def)
  have c: "clock_ok example_env" "(7 :: nat) \<noteq> 0"
    by (simp_all add: example_env_clock)
  obtain self' cs where s: "ten_env_send_cmd example_env ?a (M_cmd ?t example_hello) 7 8 False =
      Some (True, None, self', map (Dispatch \<circ> M_cmd ?t) cs)" "map cb_dest_loc cs = map (\<lambda>d. [d]) (md_dest ?d)"
    using send_cmd_fans_out [OF example_extension_ok n v g c, of 8 False] by blast
  have "map (map loc_extension_name \<circ> cb_dest_loc) cs = [[''b''], [''c'']]"
    unfolding map_map [symmetric] s(2) by (simp add: example_dests_def ten_loc_defs)
  with s(1) show ?thesis by (intro exI conjI)
qed

end
