(* ===== verification/Extension_Safety.thy ===== *)
theory Extension_Safety
  imports Extension_Contract
begin

text \<open>
  Every entry point of an extension returns, whatever message arrives or is sent, and keeps the
  extension well formed: no assertion of the code fails. A command that is refused on arrival gets an
  answer, a result goes to the handler of its command or on to where the command came from.
\<close>

section \<open>Results\<close>

text \<open>What processing a result returns, on either side of the table.\<close>

lemma process_shape:
  assumes ok: "pt_ok pt"
  shows "\<exists>out pt'. ten_path_table_process_cmd_result convert pt type r = Some (out \<noteq> None, out, pt') \<and> pt_ok pt' \<and>
    (\<forall>res. out = Some res \<longrightarrow>
       (\<exists>path x. path \<in> set (paths_of pt type) \<and> p_cmd_id path = cb_cmd_id r \<and> p_cmd_name path \<noteq> [] \<and>
          (res = routed type path x \<or> res = ten_cmd_result_set_completed (routed type path x) True)))"
proof (cases "ten_path_table_find_path_from_cmd_id pt type (cb_cmd_id r)")
  case None
  with ok show ?thesis by (simp add: process_unknown)
next
  case (Some path)
  note P = find_path_cmd_idD [OF Some]
  have name: "p_cmd_name path \<noteq> []" using pt_ok_paths(3) [OF ok] P by blast
  show ?thesis
  proof (cases "p_group path")
    case None
    obtain out pt' where p: "ten_path_table_process_cmd_result convert pt type r = Some (True, Some out, pt')" "pt_ok pt'"
      using processed_single_ok [OF ok Some None, of convert] by blast
    then have "\<exists>x. out = routed type path x \<or> out = ten_cmd_result_set_completed (routed type path x) True"
      unfolding process_single [OF ok Some None] by (auto simp: Let_def split: if_splits)
    with p P name show ?thesis by auto
  next
    fix g assume g: "p_group path = Some g"
    have out: "type = TEN_PATH_OUT" using pt_ok_paths(5) [OF ok, of path type] P g by (cases type) auto
    then obtain grp where grp: "pt_groups pt g = Some grp" using pt_okD(5) [OF ok _ g] P by auto
    have gp: "group_path pt r path g grp" using ok Some g grp out by (simp add: group_path_def)
    from processed_group_ok [OF gp, of convert] obtain proceed out pt' where
      p: "ten_path_table_process_cmd_result convert pt TEN_PATH_OUT r = Some (proceed, out, pt')"
      "proceed \<longleftrightarrow> out \<noteq> None" "pt_ok pt'" by blast
    have "pg_policy grp \<noteq> TEN_RESULT_RETURN_POLICY_INVALID" using group_pathD(2) [OF gp] by (simp add: group_ok_def)
    have "\<exists>x. res = routed TEN_PATH_OUT path x \<or> res = ten_cmd_result_set_completed (routed TEN_PATH_OUT path x) True"
      if res: "out = Some res" for res
    proof (cases "pg_policy grp")
      case TEN_RESULT_RETURN_POLICY_INVALID
      then show ?thesis using group_pathD(2) [OF gp] by (simp add: group_ok_def)
    next
      case TEN_RESULT_RETURN_POLICY_EACH_OK_AND_ERROR
      from process_each [OF gp this, of convert] p res show ?thesis by (auto simp: Let_def split: if_splits)
    next
      case pol: TEN_RESULT_RETURN_POLICY_FIRST_ERROR_OR_LAST_OK
      show ?thesis
      proof (cases "cr_status_code r = TEN_STATUS_CODE_OK")
        case True
        from process_last_ok [OF gp pol True refl, of convert] p res show ?thesis by (auto split: if_splits)
      next
        case False
        from process_first_error [OF gp pol False, of convert] p res show ?thesis by auto
      qed
    qed
    with p P name out show ?thesis by auto
  qed
qed

lemma process_result_shape:
  assumes "ext_ok self"
  shows "\<exists>out pt. process_result self type r = Some (out, self\<lparr>ex_path_table := pt\<rparr>) \<and>
    ext_ok (self\<lparr>ex_path_table := pt\<rparr>) \<and>
    (\<forall>res. out = Some res \<longrightarrow> cr_original_cmd_name res \<noteq> [] \<and> length (cb_dest_loc res) = 1)"
proof -
  have "pt_ok (ex_path_table self)" using assms by (simp add: ext_ok_def)
  from process_shape [OF this, of result_convert type r] assms show ?thesis
    by (fastforce simp: process_result_def ext_ok_def)
qed

text \<open>A result on its way out, at once: the check, the IN path, and at most one message.\<close>

lemma prepare_out_result:
  "prepare_out e self (M_result r) =
    map_option (map_prod id (\<lambda>p. M_result (r\<lparr>cb_dest_loc := [], cb_src_loc := own_loc self, cb_properties := p\<rparr>)))
      (result_check (ce_host e) (ex_schema_store self) True (cr_original_cmd_name r) (cb_properties r))"
  by (simp add: prepare_out_def Let_def validate_result ten_msg_clear_dest_def cong: if_cong)

lemma dispatch_result:
  assumes "ext_ok self" and "cr_original_cmd_name r \<noteq> []"
  shows "\<exists>sent err pt effects. ten_extension_dispatch_msg e self (M_result r) policy =
      Some (sent, err, self\<lparr>ex_path_table := pt\<rparr>, effects) \<and> ext_ok (self\<lparr>ex_path_table := pt\<rparr>) \<and>
    (sent \<longleftrightarrow> err = None) \<and>
    (\<forall>x \<in> set effects. \<exists>r'. x = Dispatch (M_result r') \<and> length (cb_dest_loc r') = 1)"
proof (cases "ex_state self = TEN_EXTENSION_STATE_ON_DEINIT_DONE")
  case True
  with assms(1) show ?thesis
    by (intro exI [of _ False] exI [of _ "Some _"] exI [of _ "ex_path_table self"]) (simp add: ten_extension_dispatch_msg_def)
next
  case False
  have store: "store_ok (ex_schema_store self)" using assms(1) by (simp add: ext_ok_def)
  obtain err props where check: "result_check (ce_host e) (ex_schema_store self) True (cr_original_cmd_name r)
      (cb_properties r) = Some (err, props)"
    using check_returns(2) [OF store assms(2)] by blast
  show ?thesis
  proof (cases err)
    case (Some er)
    with check False assms(1) show ?thesis
      by (intro exI [of _ False] exI [of _ "Some er"] exI [of _ "ex_path_table self"])
        (simp add: ten_extension_dispatch_msg_def prepare_out_result)
  next
    case None
    obtain out pt where p: "process_result self TEN_PATH_IN (r\<lparr>cb_dest_loc := [], cb_src_loc := own_loc self,
        cb_properties := props\<rparr>) = Some (out, self\<lparr>ex_path_table := pt\<rparr>)" "ext_ok (self\<lparr>ex_path_table := pt\<rparr>)"
      "\<forall>res. out = Some res \<longrightarrow> cr_original_cmd_name res \<noteq> [] \<and> length (cb_dest_loc res) = 1"
      using process_result_shape [OF assms(1)] by blast
    show ?thesis
    proof (cases out)
      case out: None
      with p check None False show ?thesis
        by (intro exI [of _ True] exI [of _ None] exI [of _ pt]) (simp add: ten_extension_dispatch_msg_def prepare_out_result)
    next
      case out: (Some res)
      with p(3) obtain d where d: "cb_dest_loc res = [d]" by (auto simp: length_Suc_conv)
      then have "ten_extension_determine_out_msgs e (self\<lparr>ex_path_table := pt\<rparr>) (M_result res) =
          Some (Inr [M_result (res\<lparr>cb_dest_loc := [d]\<rparr>)])"
        by (simp add: ten_extension_determine_out_msgs_def ten_extension_determine_out_msg_dest_from_msg_def
            need_to_clone_msg_when_sending_def)
      with p out check None False show ?thesis
        by (intro exI [of _ True] exI [of _ None] exI [of _ pt])
          (simp add: ten_extension_dispatch_msg_def prepare_out_result ten_msg_is_cmd_def)
    qed
  qed
qed

section \<open>Messages on their way in\<close>

text \<open>
  The messages an extension can be given: a command goes to one destination and is one that the code
  delivers. A result can be any.
\<close>

definition in_msg_ok :: "ten_msg \<Rightarrow> bool" where
  "in_msg_ok m \<longleftrightarrow> msg_ok m \<and>
     (case m of
        M_cmd t c \<Rightarrow> t \<in> {TEN_MSG_TYPE_CMD, TEN_MSG_TYPE_CMD_TIMEOUT} \<and> cb_name c \<noteq> [] \<and>
                     length (cb_dest_loc c) = 1 \<and> keys_ok (cb_properties c)
      | M_result r \<Rightarrow> True
      | M_data t d \<Rightarrow> keys_ok (dm_properties d))"

text \<open>The messages after the conversions: as above, without the keys, which nothing depends on any more.\<close>

definition entering :: "ten_msg \<Rightarrow> bool" where
  "entering m \<longleftrightarrow> msg_ok m \<and>
     (case m of
        M_cmd t c \<Rightarrow> t \<in> {TEN_MSG_TYPE_CMD, TEN_MSG_TYPE_CMD_TIMEOUT} \<and> cb_name c \<noteq> [] \<and> length (cb_dest_loc c) = 1
      | M_result r \<Rightarrow> False
      | M_data t d \<Rightarrow> True)"

fun msg_id :: "ten_msg \<Rightarrow> string set" where
  "msg_id (M_cmd t c) = {cb_cmd_id c}"
| "msg_id _ = {}"

lemma add_in_path_eq:
  assumes "0 \<le> sint now" "length (cb_dest_loc c) = 1" "cb_name c \<noteq> []" "cb_is_cmd c"
    and "uuid \<notin> p_cmd_id ` set (pt_in_paths pt)"
  shows "\<exists>p i. ten_path_table_add_in_path now uuid pt c conv =
      Some (pt_next pt, pt\<lparr>pt_in_paths := pt_in_paths pt @ [p], pt_next := pt_next pt + 1\<rparr>,
            c\<lparr>cb_cmd_id := i, cb_parent_cmd_id := []\<rparr>) \<and>
    i = (if cb_cmd_id c \<in> p_cmd_id ` set (pt_in_paths pt) then uuid else cb_cmd_id c) \<and>
    p_cmd_id p = i \<and> p_src_loc p = cb_src_loc c \<and> p_cmd_name p = cb_name c \<and> p_result_conversion p = conv \<and>
    p_parent_cmd_id p = (if cb_cmd_id c \<in> p_cmd_id ` set (pt_in_paths pt) then cb_cmd_id c else cb_parent_cmd_id c) \<and>
    p_group p = None"
proof (cases "cb_cmd_id c \<in> p_cmd_id ` set (pt_in_paths pt)")
  case True
  then have f: "ten_path_table_find_path_from_cmd_id pt TEN_PATH_IN (cb_cmd_id c) \<noteq> None"
    using find_cmd_id_None [of pt TEN_PATH_IN "cb_cmd_id c"] by simp
  have g: "ten_path_table_find_path_from_cmd_id pt TEN_PATH_IN uuid = None"
    using find_cmd_id_None [of pt TEN_PATH_IN uuid] assms(5) by simp
  from True f g show ?thesis
    using assms(1-4) expired_time_defined [OF assms(1), of "ten_path_table_get_path_timeout_duration pt TEN_PATH_IN"]
    by (auto simp: ten_path_table_add_in_path_def ten_path_in_create_def ten_path_init_def Let_def
        ten_cmd_base_gen_new_cmd_id_forcibly_def ten_cmd_base_save_cmd_id_to_parent_cmd_id_def
        ten_cmd_base_reset_parent_cmd_id_def ten_cmd_base_get_parent_cmd_id_def ten_path_set_expired_time_def)
next
  case False
  then have f: "ten_path_table_find_path_from_cmd_id pt TEN_PATH_IN (cb_cmd_id c) = None"
    using find_cmd_id_None [of pt TEN_PATH_IN "cb_cmd_id c"] by simp
  from False f show ?thesis
    using assms(1-4) expired_time_defined [OF assms(1), of "ten_path_table_get_path_timeout_duration pt TEN_PATH_IN"]
    by (auto simp: ten_path_table_add_in_path_def ten_path_in_create_def ten_path_init_def Let_def
        ten_cmd_base_reset_parent_cmd_id_def ten_cmd_base_get_parent_cmd_id_def ten_path_set_expired_time_def)
qed

lemma entering_ids [simp]:
  "entering (M_cmd t (c\<lparr>cb_cmd_id := i, cb_parent_cmd_id := p\<rparr>)) \<longleftrightarrow> entering (M_cmd t c)"
  by (simp add: entering_def)

text \<open>The ids that the generator makes for IN paths are new, to the table and to the messages.\<close>

definition path_uuids_fresh :: "call_env \<Rightarrow> nat \<Rightarrow> 'c path_table \<Rightarrow> string set \<Rightarrow> bool" where
  "path_uuids_fresh e i pt ids \<longleftrightarrow> inj (ce_path_uuid e) \<and>
     (\<forall>k \<ge> i. ce_path_uuid e k \<notin> p_cmd_id ` set (pt_in_paths pt) \<union> ids)"

lemma enter_paths_ok:
  assumes "pt_ok pt" "clock_ok e" "\<forall>(m, conv) \<in> set ms. entering m"
    and "path_uuids_fresh e i pt (\<Union>(m, conv) \<in> set ms. msg_id m)"
  shows "\<exists>pt' ms'. enter_paths e i pt ms = Some (pt', ms') \<and> pt_ok pt' \<and> pt_out_paths pt' = pt_out_paths pt \<and>
    length ms' = length ms \<and> (\<forall>m \<in> set ms'. entering m)"
  using assms
proof (induction ms arbitrary: i pt)
  case (Cons mc ms)
  obtain m conv where mc: "mc = (m, conv)" by force
  have rest: "\<forall>(m, conv) \<in> set ms. entering m" and m: "entering m" using Cons.prems(3) by (auto simp: mc)
  show ?case
  proof (cases "\<exists>t c. m = M_cmd t c \<and> mi_create_in_path (ten_msg_info t)")
    case False
    have "path_uuids_fresh e (Suc i) pt (\<Union>(m, conv) \<in> set ms. msg_id m)"
      using Cons.prems(4) by (auto simp: path_uuids_fresh_def)
    with Cons.IH [OF Cons.prems(1,2) rest this] False m show ?thesis
      by (cases m) (auto simp: mc)
  next
    case True
    then obtain t c where c: "m = M_cmd t c" "mi_create_in_path (ten_msg_info t)" by blast
    have now: "0 \<le> sint (ce_clock e i)" using Cons.prems(2) by (simp add: clock_ok_def)
    have new: "ce_path_uuid e i \<notin> p_cmd_id ` set (pt_in_paths pt)"
      using Cons.prems(4) by (auto simp: path_uuids_fresh_def)
    have cmd: "length (cb_dest_loc c) = 1" "cb_name c \<noteq> []" "cb_is_cmd c" using m c by (auto simp: entering_def)
    obtain p i' where add: "ten_path_table_add_in_path (ce_clock e i) (ce_path_uuid e i) pt c conv =
        Some (pt_next pt, pt\<lparr>pt_in_paths := pt_in_paths pt @ [p], pt_next := pt_next pt + 1\<rparr>,
              c\<lparr>cb_cmd_id := i', cb_parent_cmd_id := []\<rparr>)"
      "i' = (if cb_cmd_id c \<in> p_cmd_id ` set (pt_in_paths pt) then ce_path_uuid e i else cb_cmd_id c)" "p_cmd_id p = i'"
      using add_in_path_eq [OF now cmd new, of conv] by blast
    let ?pt = "pt\<lparr>pt_in_paths := pt_in_paths pt @ [p], pt_next := pt_next pt + 1\<rparr>"
    have ok: "pt_ok ?pt" by (rule pt_ok_add_in [OF Cons.prems(1) add(1)])
    have "ce_path_uuid e k \<noteq> i'" if "Suc i \<le> k" for k
      using Cons.prems(4) that add(2) by (auto simp: path_uuids_fresh_def mc c dest: injD)
    then have "path_uuids_fresh e (Suc i) ?pt (\<Union>(m, conv) \<in> set ms. msg_id m)"
      using Cons.prems(4) add(3) by (auto simp: path_uuids_fresh_def)
    with Cons.IH [OF ok Cons.prems(2) rest this] c m add(1) show ?thesis
      by (auto simp: mc)
  qed
qed auto

section \<open>Conversions on the way in\<close>

lemma contexts_ok_Cons:
  "contexts_ok (c # cs) \<longleftrightarrow> (\<forall>conv \<in> set_option (mc_conversion c). flat_conversion (ma_msg conv)) \<and> contexts_ok cs"
  by (simp add: contexts_ok_def)

lemma can_match_keeps:
  "ten_msg_conversion_can_match_msg c m = (matched, c') \<Longrightarrow> mc_conversion c' = mc_conversion c"
  unfolding ten_msg_conversion_can_match_msg_def Let_def
  by (cases "loc_graph_id (mc_src_loc c) = []") auto

lemma in_msg_entering: "in_msg_ok m \<Longrightarrow> \<not> ten_msg_is_cmd_result m \<Longrightarrow> entering m"
  by (cases m) (auto simp: in_msg_ok_def entering_def ten_msg_is_cmd_result_def ten_raw_msg_is_cmd_result_def)

lemma convert_entering:
  assumes "in_msg_ok m" "ten_msg_get_type m \<in> {TEN_MSG_TYPE_CMD, TEN_MSG_TYPE_DATA, TEN_MSG_TYPE_VIDEO_FRAME, TEN_MSG_TYPE_AUDIO_FRAME}"
    and "flat_conversion conv"
  shows "\<exists>n. ten_msg_conversion_convert uuid conv m err = Some (Some n, err) \<and> entering n \<and> msg_id n \<subseteq> {uuid}"
proof -
  obtain rules where r: "conv = Per_property (Some rules)" "\<forall>r \<in> set (rs_rules rules). flat_rule r"
    using assms(3) by (cases conv) (auto simp: flat_conversion_def split: option.splits)
  have m: "msg_ok m" "mi_clone (ten_msg_info (ten_msg_get_type m))" "keys_ok (msg_properties m)"
    using assms(1,2) by (auto simp: in_msg_ok_def split: ten_msg.splits)
  obtain n where n: "ten_msg_conversion_convert uuid conv m err = Some (Some n, err)" "copied_header m n" "msg_ok n"
    "\<forall>t c. m = M_cmd t c \<longrightarrow> (\<exists>c'. n = M_cmd t c' \<and> cb_cmd_id c' = uuid)"
    using convert_flat [OF m r(2), of uuid err] r(1) by (elim exE conjE) blast
  have "entering n \<and> msg_id n \<subseteq> {uuid}"
  proof (cases m)
    case (M_cmd t c)
    with n(4) obtain c' where "n = M_cmd t c'" "cb_cmd_id c' = uuid" by blast
    with n(2,3) assms(1) M_cmd show ?thesis by (simp add: entering_def in_msg_ok_def copied_header_def)
  next
    case (M_result r)
    with assms(2) show ?thesis by simp
  next
    case (M_data t d)
    with n(2,3) m(1) have "\<exists>d'. n = M_data t d'"
      by (cases n) (auto simp: copied_header_def cmd_types_def data_types_def)
    with n(3) show ?thesis by (auto simp: entering_def)
  qed
  with n(1) show ?thesis by blast
qed

lemma convert_loop_ok:
  assumes "in_msg_ok m" "ten_msg_get_type m \<in> {TEN_MSG_TYPE_CMD, TEN_MSG_TYPE_DATA, TEN_MSG_TYPE_VIDEO_FRAME, TEN_MSG_TYPE_AUDIO_FRAME}"
    and "contexts_ok cs"
  shows "\<exists>cs' new. convert_loop uuids i m cs result err wrong = Some (cs', result @ new, err, wrong) \<and> contexts_ok cs' \<and>
    (\<forall>(n, conv) \<in> set new. entering n \<and> msg_id n \<subseteq> range uuids)"
  using assms(3)
proof (induction cs arbitrary: i result)
  case (Cons c cs)
  have cs: "contexts_ok cs" using Cons.prems by (simp add: contexts_ok_Cons)
  obtain matched c' where mt: "ten_msg_conversion_can_match_msg c m = (matched, c')" by force
  note keep = can_match_keeps [OF mt]
  show ?case
  proof (cases "matched \<and> mc_conversion c' \<noteq> None")
    case False
    from Cons.IH [OF cs, of "Suc i" result] obtain cs' new where
      "convert_loop uuids (Suc i) m cs result err wrong = Some (cs', result @ new, err, wrong)" "contexts_ok cs'"
      "\<forall>(n, conv) \<in> set new. entering n \<and> msg_id n \<subseteq> range uuids" by blast
    with Cons.prems keep False show ?thesis
      by (intro exI [of _ "c' # cs'"] exI [of _ new])
        (cases matched; cases "mc_conversion c'"; simp add: mt contexts_ok_Cons)
  next
    case True
    then obtain conv where conv: "matched" "mc_conversion c' = Some conv" by blast
    with Cons.prems keep have "flat_conversion (ma_msg conv)" by (simp add: contexts_ok_Cons)
    from convert_entering [OF assms(1,2) this, of "uuids i" err] obtain n where
      n: "ten_msg_conversion_convert (uuids i) (ma_msg conv) m err = Some (Some n, err)" "entering n" "msg_id n \<subseteq> {uuids i}"
      by blast
    from Cons.IH [OF cs, of "Suc i" "result @ [(n, ma_result conv)]"] obtain cs' new where
      "convert_loop uuids (Suc i) m cs (result @ [(n, ma_result conv)]) err wrong =
         Some (cs', (result @ [(n, ma_result conv)]) @ new, err, wrong)" "contexts_ok cs'"
      "\<forall>(n, conv) \<in> set new. entering n \<and> msg_id n \<subseteq> range uuids" by blast
    with n conv keep Cons.prems show ?thesis
      by (intro exI [of _ "c' # cs'"] exI [of _ "(n, ma_result conv) # new"]) (auto simp: mt contexts_ok_Cons)
  qed
qed (simp add: contexts_ok_def)

lemma converted_msgs_ok:
  assumes "ext_ok self" "in_msg_ok m" "\<not> ten_msg_is_cmd_result m"
  shows "\<exists>info ms. converted_msgs e self m = Some (self\<lparr>ex_extension_info := Some info\<rparr>, ms) \<and> ms \<noteq> [] \<and>
    ext_ok (self\<lparr>ex_extension_info := Some info\<rparr>) \<and>
    (\<forall>(n, conv) \<in> set ms. entering n \<and> msg_id n \<subseteq> msg_id m \<union> range (ce_msg_uuid e))"
proof -
  obtain info where info: "ex_extension_info self = Some info" "contexts_ok (ei_msg_conversion_contexts info)"
    using assms(1) by (auto simp: ext_ok_def)
  have m: "entering m" by (rule in_msg_entering [OF assms(2,3)])
  show ?thesis
  proof (cases "should_convert self m")
    case False
    have "self\<lparr>ex_extension_info := Some info\<rparr> = self" using info(1) by simp
    with False m assms(1) show ?thesis
      by (intro exI [of _ info] exI [of _ "[(m, None)]"]) (simp add: converted_msgs_def)
  next
    case True
    then have t: "ten_msg_get_type m \<in> {TEN_MSG_TYPE_CMD, TEN_MSG_TYPE_DATA, TEN_MSG_TYPE_VIDEO_FRAME, TEN_MSG_TYPE_AUDIO_FRAME}"
      by (simp add: should_convert_def)
    then have t': "\<not> (ten_msg_is_cmd_and_result m \<and> ten_msg_get_type m \<noteq> TEN_MSG_TYPE_CMD)"
      by (auto simp: ten_msg_is_cmd_and_result_def ten_raw_msg_is_cmd_and_result_def)
    obtain cs' new where new: "convert_loop (ce_msg_uuid e) 0 m (ei_msg_conversion_contexts info) [] None False =
        Some (cs', new, None, False)" "contexts_ok cs'"
        "\<forall>(n, conv) \<in> set new. entering n \<and> msg_id n \<subseteq> range (ce_msg_uuid e)"
      using convert_loop_ok [OF assms(2) t info(2), of "ce_msg_uuid e" 0 "[]" None False] by auto
    let ?info = "info\<lparr>ei_msg_conversion_contexts := cs'\<rparr>"
    have "ten_extension_convert_msg (ce_msg_uuid e) (ei_msg_conversion_contexts info) m =
        Some (True, None, cs', if new = [] then [(m, None)] else new)"
      using t' new(1) by (simp add: ten_extension_convert_msg_def)
    then have "converted_msgs e self m = Some (self\<lparr>ex_extension_info := Some ?info\<rparr>, if new = [] then [(m, None)] else new)"
      using True info(1) by (simp add: converted_msgs_def)
    moreover have "ext_ok (self\<lparr>ex_extension_info := Some ?info\<rparr>)" using assms(1) new(2) by (auto simp: ext_ok_def)
    ultimately show ?thesis
      using new(3) m
      by (intro exI [of _ ?info] exI [of _ "if new = [] then [(m, None)] else new"]) auto
  qed
qed

section \<open>The checks on the way in\<close>

lemma validate_data_ok:
  assumes "store_ok store" "entering (M_data t d)"
  shows "\<exists>err props. ten_msg_validate_schema h (M_data t d) store out = Some (err, M_data t (d\<lparr>dm_properties := props\<rparr>)) \<and>
    ten_value_is_object props"
proof -
  have t: "t \<in> data_types" "ten_value_is_object (dm_properties d)" using assms(2) by (auto simp: entering_def)
  obtain sm where sm: "schema_map store t out = Some sm" using schema_map_data [OF t(1)] by blast
  have look: "ten_schema_store_get_msg_schema store t (dm_name d) out =
      Some (map_of (rev sm) (if dm_name d = [] then ''ten:empty'' else dm_name d))"
    by (rule get_msg_schema_returns [OF sm]) (use data_not_cmd_type [OF t(1)] in simp)
  have not_cmd: "\<not> ten_msg_is_cmd_and_result (M_data t d)"
    using t(1) by (auto simp: data_types_def ten_msg_is_cmd_and_result_def ten_raw_msg_is_cmd_and_result_def)
  let ?k = "if dm_name d = [] then ''ten:empty'' else dm_name d"
  show ?thesis
  proof (cases "map_of (rev sm) ?k")
    case None
    with look not_cmd t(2) show ?thesis
      by (intro exI [of _ None] exI [of _ "dm_properties d"])
        (simp add: ten_msg_validate_schema_def ten_raw_msg_validate_schema_def)
  next
    case (Some s)
    from lookup_check_ok [OF assms(1) sm, where part = ms_property and k = ?k and h = h and props = "dm_properties d"] Some
    obtain err props where c: "check_properties h (ms_property s) (dm_properties d) = Some (err, props)"
      by (auto simp del: meets.simps)
    from check_properties_keeps(2) [OF c t(2)] c look Some not_cmd show ?thesis
      by (intro exI [of _ err] exI [of _ props])
        (simp add: ten_msg_validate_schema_def ten_raw_msg_validate_schema_def)
  qed
qed

lemma return_result_ok:
  assumes "ext_ok self" and "cr_original_cmd_name r \<noteq> []"
  shows "\<exists>sent err pt effects. ten_env_return_result e self r = Some (sent, err, self\<lparr>ex_path_table := pt\<rparr>, effects) \<and>
    ext_ok (self\<lparr>ex_path_table := pt\<rparr>) \<and> (sent \<longleftrightarrow> err = None) \<and>
    (\<forall>x \<in> set effects. \<exists>r'. x = Dispatch (M_result r') \<and> length (cb_dest_loc r') = 1)"
proof (cases "ex_env_closed self")
  case True
  with assms(1) show ?thesis
    by (intro exI [of _ False] exI [of _ "Some closed_error"] exI [of _ "ex_path_table self"])
      (simp add: ten_env_return_result_def ten_env_return_result_internal_def)
next
  case False
  from dispatch_result [OF assms, of e TEN_RESULT_RETURN_POLICY_EACH_OK_AND_ERROR] False show ?thesis
    by (simp add: ten_env_return_result_def ten_env_return_result_internal_def)
qed

text \<open>The result that answers a command has its name and id.\<close>

lemma result_from_cmd:
  assumes "cb_name c \<noteq> []" "length (cb_dest_loc c) \<le> 1"
  shows "\<exists>r. ten_cmd_result_create_from_cmd status c = Some r \<and> cr_original_cmd_name r = cb_name c \<and>
    cb_cmd_id r = cb_cmd_id c \<and> cr_status_code r = status \<and> cr_is_final r \<and> cb_dest_loc r = [cb_src_loc c]"
  using assms
  by (cases "cb_dest_loc c")
    (auto simp: ten_cmd_result_create_from_cmd_def ten_cmd_result_set_original_cmd_name_def ten_cmd_result_create_def
      ten_cmd_base_set_cmd_id_def ten_msg_clear_and_set_dest_to_loc_def)

lemma set_detail_simps [simp]:
  "cr_original_cmd_name (set_detail r s) = cr_original_cmd_name r" "cb_cmd_id (set_detail r s) = cb_cmd_id r"
  "cr_status_code (set_detail r s) = cr_status_code r" "cr_is_final (set_detail r s) = cr_is_final r"
  "cb_dest_loc (set_detail r s) = cb_dest_loc r" "cb_is_cmd (set_detail r s) = cb_is_cmd r"
  by (simp_all add: set_detail_def)

lemma validate_in_ok:
  assumes "ext_ok self" and "entering m"
  shows "\<exists>pass pt m' effects. ten_extension_validate_in e self m = Some (pass, self\<lparr>ex_path_table := pt\<rparr>, m', effects) \<and>
    ext_ok (self\<lparr>ex_path_table := pt\<rparr>) \<and> entering m' \<and> ten_msg_get_type m' = ten_msg_get_type m \<and>
    (pass \<longrightarrow> effects = []) \<and>
    (\<forall>x \<in> set effects. \<exists>r'. x = Dispatch (M_result r') \<and> length (cb_dest_loc r') = 1)"
proof -
  have store: "store_ok (ex_schema_store self)" and same: "self\<lparr>ex_path_table := ex_path_table self\<rparr> = self"
    using assms(1) by (simp_all add: ext_ok_def)
  show ?thesis
  proof (cases m)
    case (M_cmd t c)
    with assms(2) have c: "t \<in> cmd_types" "cb_name c \<noteq> []" "length (cb_dest_loc c) = 1" "ten_value_is_object (cb_properties c)"
      by (auto simp: entering_def)
    obtain err props where ck: "cmd_check (ce_host e) (ex_schema_store self) False t (cb_name c) (cb_properties c) = Some (err, props)"
      "ten_value_is_object props"
      using check_returns(1) [OF store c(2)] c(4) by blast
    have m': "entering (M_cmd t (c\<lparr>cb_properties := props\<rparr>))" using assms(2) M_cmd ck(2) by (simp add: entering_def)
    show ?thesis
    proof (cases err)
      case None
      with ck m' same assms(1) M_cmd c(1) show ?thesis
        by (intro exI [of _ True] exI [of _ "ex_path_table self"] exI [of _ "M_cmd t (c\<lparr>cb_properties := props\<rparr>)"])
          (simp add: ten_extension_validate_in_def validate_cmd)
    next
      case (Some er)
      obtain r where r: "ten_cmd_result_create_from_cmd TEN_STATUS_CODE_ERROR (c\<lparr>cb_properties := props\<rparr>) = Some r"
        "cr_original_cmd_name r \<noteq> []"
        using result_from_cmd [of "c\<lparr>cb_properties := props\<rparr>" TEN_STATUS_CODE_ERROR] c by auto
      from return_result_ok [OF assms(1), of "set_detail r (error_message er)" e] r(2) obtain sent er' pt effects where
        ret: "ten_env_return_result e self (set_detail r (error_message er)) = Some (sent, er', self\<lparr>ex_path_table := pt\<rparr>, effects)"
        "ext_ok (self\<lparr>ex_path_table := pt\<rparr>)"
        "\<forall>x \<in> set effects. \<exists>r'. x = Dispatch (M_result r') \<and> length (cb_dest_loc r') = 1" by auto
      with r(1) ck m' Some M_cmd c(1) show ?thesis
        by (intro exI [of _ False] exI [of _ pt] exI [of _ "M_cmd t (c\<lparr>cb_properties := props\<rparr>)"])
          (simp add: ten_extension_validate_in_def validate_cmd)
    qed
  next
    case (M_result r)
    with assms(2) show ?thesis by (simp add: entering_def)
  next
    case (M_data t d)
    obtain err props where ck: "ten_msg_validate_schema (ce_host e) m (ex_schema_store self) False =
        Some (err, M_data t (d\<lparr>dm_properties := props\<rparr>))" "ten_value_is_object props"
      using validate_data_ok [OF store] assms(2) M_data by blast
    then have "entering (M_data t (d\<lparr>dm_properties := props\<rparr>))" using assms(2) M_data by (simp add: entering_def)
    with ck same assms(1) M_data show ?thesis
      by (intro exI [of _ "err = None"] exI [of _ "ex_path_table self"] exI [of _ "M_data t (d\<lparr>dm_properties := props\<rparr>)"])
        (simp add: ten_extension_validate_in_def split: option.split)
  qed
qed

lemma validate_all_ok:
  assumes "ext_ok self" and "\<forall>m \<in> set ms. entering m"
  shows "\<exists>pass pt ms' effects. validate_all e self ms = Some (pass, self\<lparr>ex_path_table := pt\<rparr>, ms', effects) \<and>
    ext_ok (self\<lparr>ex_path_table := pt\<rparr>) \<and> (\<forall>m \<in> set ms'. entering m) \<and> (pass \<longrightarrow> effects = []) \<and>
    (\<forall>x \<in> set effects. \<exists>r'. x = Dispatch (M_result r') \<and> length (cb_dest_loc r') = 1)"
  using assms
proof (induction ms arbitrary: self)
  case Nil
  then show ?case
    by (intro exI [of _ True] exI [of _ "ex_path_table self"]) simp
next
  case (Cons m ms)
  obtain pass pt m' effects where v: "ten_extension_validate_in e self m = Some (pass, self\<lparr>ex_path_table := pt\<rparr>, m', effects)"
    "ext_ok (self\<lparr>ex_path_table := pt\<rparr>)" "entering m'" "pass \<longrightarrow> effects = []"
    "\<forall>x \<in> set effects. \<exists>r'. x = Dispatch (M_result r') \<and> length (cb_dest_loc r') = 1"
    using validate_in_ok [OF Cons.prems(1), of m e] Cons.prems(2) by auto
  show ?case
  proof (cases pass)
    case False
    with v Cons.prems(2) show ?thesis
      by (intro exI [of _ False] exI [of _ pt] exI [of _ "m' # ms"] exI [of _ effects]) simp
  next
    case True
    from Cons.IH [OF v(2)] Cons.prems(2) obtain pass' pt' ms' effects' where
      "validate_all e (self\<lparr>ex_path_table := pt\<rparr>) ms = Some (pass', self\<lparr>ex_path_table := pt'\<rparr>, ms', effects')"
      "ext_ok (self\<lparr>ex_path_table := pt'\<rparr>)" "\<forall>m \<in> set ms'. entering m" "pass' \<longrightarrow> effects' = []"
      "\<forall>x \<in> set effects'. \<exists>r'. x = Dispatch (M_result r') \<and> length (cb_dest_loc r') = 1" by auto
    with True v show ?thesis
      by (intro exI [of _ pass'] exI [of _ pt'] exI [of _ "m' # ms'"] exI [of _ effects']) simp
  qed
qed

section \<open>Arrival\<close>

text \<open>What the callers of the extension have to deal with afterwards.\<close>

fun effect_ok :: "effect \<Rightarrow> bool" where
  "effect_ok (Dispatch m) \<longleftrightarrow> (\<exists>r. m = M_result r \<and> length (cb_dest_loc r) = 1)"
| "effect_ok (To_engine m) \<longleftrightarrow> (\<exists>r. m = M_result r \<and> length (cb_dest_loc r) = 1)"
| "effect_ok (Deliver m) \<longleftrightarrow> msg_ok m \<and> \<not> ten_msg_is_cmd_result m \<and> ten_msg_get_dest m = []"
| "effect_ok (On_msg m) \<longleftrightarrow> False"
| "effect_ok (On_result handler user_data r) \<longleftrightarrow> handler \<noteq> 0 \<and> cr_original_cmd_name r \<noteq> []"

lemma effect_ok_results:
  "\<forall>x \<in> set effects. \<exists>r'. x = Dispatch (M_result r') \<and> length (cb_dest_loc r') = 1 \<Longrightarrow> \<forall>x \<in> set effects. effect_ok x"
  by fastforce

lemma deliver_msgs_ok:
  assumes "\<forall>m \<in> set ms. entering m"
  shows "\<exists>effects. deliver_msgs ms = Some effects \<and> (\<forall>x \<in> set effects. effect_ok x)"
proof -
  have "ten_msg_get_type m \<in> {TEN_MSG_TYPE_CMD, TEN_MSG_TYPE_CMD_TIMEOUT, TEN_MSG_TYPE_DATA, TEN_MSG_TYPE_AUDIO_FRAME,
      TEN_MSG_TYPE_VIDEO_FRAME} \<and> effect_ok (Deliver (ten_msg_clear_dest m))" if "entering m" for m
    using that by (cases m) (auto simp: entering_def data_types_def ten_msg_clear_dest_def ten_msg_is_cmd_result_def
        ten_raw_msg_is_cmd_result_def)
  with assms show ?thesis by (simp add: deliver_msgs_def)
qed

lemma handle_arrived_ok:
  assumes "ext_ok self" "in_msg_ok m" "\<not> ten_msg_is_cmd_result m" "clock_ok e"
    and "path_uuids_fresh e 0 (ex_path_table self) (msg_id m \<union> range (ce_msg_uuid e))"
  shows "\<exists>pt info effects. handle_arrived e self m = Some (self\<lparr>ex_extension_info := info, ex_path_table := pt\<rparr>, effects) \<and>
    ext_ok (self\<lparr>ex_extension_info := info, ex_path_table := pt\<rparr>) \<and> (\<forall>x \<in> set effects. effect_ok x)"
proof -
  obtain info ms where conv: "converted_msgs e self m = Some (self\<lparr>ex_extension_info := Some info\<rparr>, ms)"
    "ext_ok (self\<lparr>ex_extension_info := Some info\<rparr>)"
    "\<forall>(n, conv) \<in> set ms. entering n \<and> msg_id n \<subseteq> msg_id m \<union> range (ce_msg_uuid e)"
    using converted_msgs_ok [OF assms(1-3)] by blast
  have fresh: "path_uuids_fresh e 0 (ex_path_table self) (\<Union>(n, conv) \<in> set ms. msg_id n)"
    using assms(5) conv(3) by (fastforce simp: path_uuids_fresh_def)
  have pt: "pt_ok (ex_path_table self)" using assms(1) by (simp add: ext_ok_def)
  have "\<forall>(n, conv) \<in> set ms. entering n" using conv(3) by fastforce
  from enter_paths_ok [OF pt assms(4) this fresh] obtain pt1 ms1 where
    enter: "enter_paths e 0 (ex_path_table self) ms = Some (pt1, ms1)" "pt_ok pt1" "\<forall>n \<in> set ms1. entering n" by blast
  let ?self = "self\<lparr>ex_extension_info := Some info, ex_path_table := pt1\<rparr>"
  have "ext_ok ?self" using conv(2) enter(2) by (simp add: ext_ok_def)
  from validate_all_ok [OF this enter(3), of e] obtain pass pt2 ms2 effects where
    v: "validate_all e ?self ms1 = Some (pass, ?self\<lparr>ex_path_table := pt2\<rparr>, ms2, effects)"
    "ext_ok (?self\<lparr>ex_path_table := pt2\<rparr>)" "\<forall>m \<in> set ms2. entering m"
    "\<forall>x \<in> set effects. \<exists>r'. x = Dispatch (M_result r') \<and> length (cb_dest_loc r') = 1" by blast
  obtain delivered where d: "deliver_msgs ms2 = Some delivered" "\<forall>x \<in> set delivered. effect_ok x"
    using deliver_msgs_ok [OF v(3)] by blast
  have "handle_arrived e self m = Some (self\<lparr>ex_extension_info := Some info, ex_path_table := pt2\<rparr>, if pass then delivered else effects)"
    using conv(1) enter(1) v(1) d(1) by (simp add: handle_arrived_def)
  moreover have "\<forall>x \<in> set (if pass then delivered else effects). effect_ok x"
    using d(2) effect_ok_results [OF v(4)] by simp
  ultimately show ?thesis using v(2) by (intro exI [of _ pt2] exI [of _ "Some info"] exI conjI) simp_all
qed

lemma deliver_result_ok:
  assumes "ext_ok self" "cr_original_cmd_name r \<noteq> []"
  shows "\<exists>pt effects. deliver_result e self r = Some (self\<lparr>ex_path_table := pt\<rparr>, effects) \<and>
    ext_ok (self\<lparr>ex_path_table := pt\<rparr>) \<and> (\<forall>x \<in> set effects. effect_ok x)"
proof (cases "cb_result_handler r = 0")
  case False
  with assms show ?thesis
    by (intro exI [of _ "ex_path_table self"]) (simp add: deliver_result_def)
next
  case True
  from return_result_ok [OF assms(1), of "r\<lparr>cb_dest_loc := []\<rparr>" e] assms(2) obtain sent err pt effects where
    "ten_env_return_result e self (r\<lparr>cb_dest_loc := []\<rparr>) = Some (sent, err, self\<lparr>ex_path_table := pt\<rparr>, effects)"
    "ext_ok (self\<lparr>ex_path_table := pt\<rparr>)"
    "\<forall>x \<in> set effects. \<exists>r'. x = Dispatch (M_result r') \<and> length (cb_dest_loc r') = 1" by auto
  with True effect_ok_results [of effects] show ?thesis
    by (intro exI [of _ pt] exI [of _ effects]) (simp add: deliver_result_def)
qed

lemma handle_result_ok:
  assumes "ext_ok self"
  shows "\<exists>pt effects. ten_extension_handle_in_msg e self (M_result r) = Some (self\<lparr>ex_path_table := pt\<rparr>, effects) \<and>
    ext_ok (self\<lparr>ex_path_table := pt\<rparr>) \<and> (\<forall>x \<in> set effects. effect_ok x)"
proof -
  have res: "ten_msg_is_cmd_result (M_result r)" by (simp add: ten_msg_is_cmd_result_def ten_raw_msg_is_cmd_result_def)
  obtain out pt where p: "process_result self TEN_PATH_OUT r = Some (out, self\<lparr>ex_path_table := pt\<rparr>)"
    "ext_ok (self\<lparr>ex_path_table := pt\<rparr>)"
    "\<forall>res. out = Some res \<longrightarrow> cr_original_cmd_name res \<noteq> [] \<and> length (cb_dest_loc res) = 1"
    using process_result_shape [OF assms] by blast
  show ?thesis
  proof (cases out)
    case None
    with p res show ?thesis by (intro exI [of _ pt]) (simp add: ten_extension_handle_in_msg_def)
  next
    case (Some o')
    let ?self = "self\<lparr>ex_path_table := pt\<rparr>"
    have n: "cr_original_cmd_name o' \<noteq> []" using p(3) Some by simp
    have "store_ok (ex_schema_store self)" using assms by (simp add: ext_ok_def)
    from check_returns(2) [OF this n, of "ce_host e" False "cb_properties o'"] obtain err props where
      ck: "result_check (ce_host e) (ex_schema_store self) False (cr_original_cmd_name o') (cb_properties o') = Some (err, props)"
      by blast
    let ?r = "case err of None \<Rightarrow> o'\<lparr>cb_properties := props\<rparr>
      | Some _ \<Rightarrow> ten_cmd_result_set_status_code (o'\<lparr>cb_properties := props\<rparr>) TEN_STATUS_CODE_ERROR"
    have "ten_extension_validate_in e ?self (M_result o') = Some (True, ?self, M_result ?r, [])"
      using ck by (simp add: ten_extension_validate_in_def validate_result split: option.split)
    then have h: "ten_extension_handle_in_msg e self (M_result r) = deliver_result e ?self ?r"
      using p(1) Some res by (simp add: ten_extension_handle_in_msg_def)
    have "cr_original_cmd_name ?r \<noteq> []" using n by (simp add: ten_cmd_result_set_status_code_def split: option.split)
    from deliver_result_ok [OF p(2) this, of e] show ?thesis unfolding h by simp
  qed
qed

section \<open>Properties\<close>


lemma show_nat_inj: "show_nat i = show_nat j \<Longrightarrow> i = j"
  by (metis read_digits_show_nat)


end
