(* ===== verification/Extension_Round_Trip.thy ===== *)
theory Extension_Round_Trip
  imports Extension_Safety
begin

text \<open>
  Two extensions talk: a command that one sends arrives at the other, the other returns a result, and
  the result comes back to the handler the sender gave, under the id of the command. What lies between
  the two, the extension threads and the engine, only carries the messages.
\<close>

section \<open>A command arrives\<close>

lemma find_new_in_path:
  assumes "pt_ok (pt\<lparr>pt_in_paths := pt_in_paths pt @ [p], pt_next := n\<rparr>)"
  shows "ten_path_table_find_path_from_cmd_id (pt\<lparr>pt_in_paths := pt_in_paths pt @ [p], pt_next := n\<rparr>) TEN_PATH_IN (p_cmd_id p) = Some p"
  using assms find_cmd_id [of "pt_in_paths pt @ [p]" p]
  by (simp add: ten_path_table_find_path_from_cmd_id_def pt_ok_def)

lemma without_last:
  assumes "distinct (map p_addr (ps @ [p]))"
  shows "without (ps @ [p]) p = ps"
  using assms by (auto simp: without_def filter_id_conv) (metis image_eqI)

text \<open>The IN path that a command leaves, and the command as it is delivered.\<close>

lemma arrive_cmd:
  assumes ok: "ext_ok b" and live: "TEN_EXTENSION_STATE_ON_INIT_DONE \<le> ex_state b" "ex_state b < TEN_EXTENSION_STATE_ON_DEINIT"
    and c: "cb_name c \<noteq> []" "cb_is_cmd c" "length (cb_dest_loc c) = 1"
    and conv: "\<not> should_convert b (M_cmd TEN_MSG_TYPE_CMD c)"
    and e: "clock_ok e" "ce_path_uuid e 0 \<notin> p_cmd_id ` set (pt_in_paths (ex_path_table b))"
    and check: "cmd_check (ce_host e) (ex_schema_store b) False TEN_MSG_TYPE_CMD (cb_name c) (cb_properties c) = Some (None, props)"
  shows "\<exists>p pt i. ten_extension_handle_in_msg e b (M_cmd TEN_MSG_TYPE_CMD c) =
      Some (b\<lparr>ex_path_table := pt\<rparr>, [Deliver (M_cmd TEN_MSG_TYPE_CMD
        (c\<lparr>cb_cmd_id := i, cb_parent_cmd_id := [], cb_properties := props, cb_dest_loc := []\<rparr>))]) \<and>
    pt = (ex_path_table b)\<lparr>pt_in_paths := pt_in_paths (ex_path_table b) @ [p], pt_next := pt_next (ex_path_table b) + 1\<rparr> \<and>
    ext_ok (b\<lparr>ex_path_table := pt\<rparr>) \<and> p_cmd_id p = i \<and> p_src_loc p = cb_src_loc c \<and> p_cmd_name p = cb_name c \<and>
    p_result_conversion p = None \<and> p_group p = None \<and>
    (p_parent_cmd_id p = cb_cmd_id c \<or> p_parent_cmd_id p = cb_parent_cmd_id c \<and> i = cb_cmd_id c)"
proof -
  let ?t = TEN_MSG_TYPE_CMD
  have now: "0 \<le> sint (ce_clock e 0)" using e(1) by (simp add: clock_ok_def)
  let ?pt = "\<lambda>p. (ex_path_table b)\<lparr>pt_in_paths := pt_in_paths (ex_path_table b) @ [p], pt_next := pt_next (ex_path_table b) + 1\<rparr>"
  obtain p i where add: "ten_path_table_add_in_path (ce_clock e 0) (ce_path_uuid e 0) (ex_path_table b) c None =
      Some (pt_next (ex_path_table b), ?pt p, c\<lparr>cb_cmd_id := i, cb_parent_cmd_id := []\<rparr>)"
    and p: "i = (if cb_cmd_id c \<in> p_cmd_id ` set (pt_in_paths (ex_path_table b)) then ce_path_uuid e 0 else cb_cmd_id c)"
      "p_cmd_id p = i" "p_src_loc p = cb_src_loc c" "p_cmd_name p = cb_name c" "p_result_conversion p = None"
      "p_parent_cmd_id p = (if cb_cmd_id c \<in> p_cmd_id ` set (pt_in_paths (ex_path_table b)) then cb_cmd_id c else cb_parent_cmd_id c)"
      "p_group p = None"
    using add_in_path_eq [OF now c(3,1,2) e(2), of None] by blast
  have "pt_ok (ex_path_table b)" using ok by (simp add: ext_ok_def)
  then have pt: "pt_ok (?pt p)" using add by (rule pt_ok_add_in)
  let ?b = "b\<lparr>ex_path_table := ?pt p\<rparr>"
  let ?c = "c\<lparr>cb_cmd_id := i, cb_parent_cmd_id := [], cb_properties := props\<rparr>"
  have "ten_extension_validate_in e ?b (M_cmd ?t (c\<lparr>cb_cmd_id := i, cb_parent_cmd_id := []\<rparr>)) = Some (True, ?b, M_cmd ?t ?c, [])"
    using check by (simp add: ten_extension_validate_in_def validate_cmd)
  then have "handle_arrived e b (M_cmd ?t c) = Some (?b, [Deliver (M_cmd ?t (?c\<lparr>cb_dest_loc := []\<rparr>))])"
    using conv add by (simp add: handle_arrived_def converted_msgs_def deliver_msgs_def ten_msg_clear_dest_def)
  moreover have "ten_extension_handle_in_msg e b (M_cmd ?t c) = handle_arrived e b (M_cmd ?t c)"
    using live by (auto simp: ten_extension_handle_in_msg_def ten_msg_is_cmd_result_def ten_raw_msg_is_cmd_result_def)
  moreover have "ext_ok ?b" using ok pt by (simp add: ext_ok_def)
  ultimately show ?thesis using p by (intro exI [of _ p] exI [of _ "?pt p"] exI [of _ i]) auto
qed

section \<open>The result goes back\<close>

text \<open>The extension returns a final result for a command whose IN path is the last of the table.\<close>

lemma return_for_path:
  assumes ok: "ext_ok b" and live: "ex_state b \<noteq> TEN_EXTENSION_STATE_ON_DEINIT_DONE" "\<not> ex_env_closed b"
    and path: "pt_in_paths (ex_path_table b) = ps @ [p]" "p_cmd_id p = cb_cmd_id r" "p_group p = None" "p_result_conversion p = None"
    and r: "cr_is_final r" "cr_original_cmd_name r \<noteq> []"
    and check: "result_check (ce_host e) (ex_schema_store b) True (cr_original_cmd_name r) (cb_properties r) = Some (None, props)"
  shows "\<exists>pt r'. ten_env_return_result e b r = Some (True, None, b\<lparr>ex_path_table := pt\<rparr>, [Dispatch (M_result r')]) \<and>
    pt = (ex_path_table b)\<lparr>pt_in_paths := ps\<rparr> \<and> ext_ok (b\<lparr>ex_path_table := pt\<rparr>) \<and>
    cb_cmd_id r' = (if p_parent_cmd_id p \<noteq> [] then p_parent_cmd_id p else cb_cmd_id r) \<and>
    cb_dest_loc r' = [p_src_loc p] \<and> cr_original_cmd_name r' = p_cmd_name p \<and> cr_status_code r' = cr_status_code r \<and>
    cr_is_final r' \<and> cb_properties r' = props"
proof -
  let ?pt = "ex_path_table b"
  let ?r = "r\<lparr>cb_dest_loc := [], cb_src_loc := own_loc b, cb_properties := props\<rparr>"
  have ptok: "pt_ok ?pt" using ok by (simp add: ext_ok_def)
  then have d: "distinct (map p_addr (ps @ [p]))" "distinct (map p_cmd_id (ps @ [p]))" by (auto simp: pt_ok_def path(1))
  have found: "ten_path_table_find_path_from_cmd_id ?pt TEN_PATH_IN (cb_cmd_id ?r) = Some p"
    using find_cmd_id [OF d(2), of p] path(1,2) by (simp add: ten_path_table_find_path_from_cmd_id_def)
  let ?out = "ten_cmd_result_set_completed (routed TEN_PATH_IN p (ten_cmd_result_set_completed ?r False)) True"
  have proc: "ten_path_table_process_cmd_result result_convert ?pt TEN_PATH_IN ?r = Some (True, Some ?out, ?pt\<lparr>pt_in_paths := ps\<rparr>)"
    using process_single [OF ptok found path(3), of result_convert] path(1,4) r(1) without_last [OF d(1)]
    by (simp add: conv_result_def Let_def)
  have "pt_ok (?pt\<lparr>pt_in_paths := ps\<rparr>)"
    using process_returns [OF ptok, of result_convert TEN_PATH_IN ?r] proc by simp
  then have ok': "ext_ok (b\<lparr>ex_path_table := ?pt\<lparr>pt_in_paths := ps\<rparr>\<rparr>)" using ok by (simp add: ext_ok_def)
  have out: "ten_extension_determine_out_msgs e (b\<lparr>ex_path_table := ?pt\<lparr>pt_in_paths := ps\<rparr>\<rparr>) (M_result ?out) =
      Some (Inr [M_result (?out\<lparr>cb_dest_loc := [p_src_loc p]\<rparr>)])"
    by (simp add: ten_extension_determine_out_msgs_def ten_extension_determine_out_msg_dest_from_msg_def
        need_to_clone_msg_when_sending_def)
  have "ten_env_return_result e b r = Some (True, None, b\<lparr>ex_path_table := ?pt\<lparr>pt_in_paths := ps\<rparr>\<rparr>,
      [Dispatch (M_result (?out\<lparr>cb_dest_loc := [p_src_loc p]\<rparr>))])"
    using live check proc out
    by (simp add: ten_env_return_result_def ten_env_return_result_internal_def ten_extension_dispatch_msg_def
        prepare_out_result process_result_def ten_msg_is_cmd_def)
  with ok' r(1) show ?thesis
    by (intro exI [of _ "?pt\<lparr>pt_in_paths := ps\<rparr>"] exI [of _ "?out\<lparr>cb_dest_loc := [p_src_loc p]\<rparr>"]) simp
qed

text \<open>A final result arrives for a command whose OUT path is the last of the table, and alone.\<close>

lemma result_to_handler:
  assumes ok: "ext_ok a"
    and path: "pt_out_paths (ex_path_table a) = ps @ [p]" "p_cmd_id p = cb_cmd_id r" "cb_cmd_id r \<notin> p_cmd_id ` set ps"
      "p_group p = None" "p_result_handler p \<noteq> 0" "p_parent_cmd_id p = []"
    and r: "cr_is_final r"
    and check: "result_check (ce_host e) (ex_schema_store a) False (p_cmd_name p) (cb_properties r) = Some (None, props)"
  shows "\<exists>r'. ten_extension_handle_in_msg e a (M_result r) =
      Some (a\<lparr>ex_path_table := (ex_path_table a)\<lparr>pt_out_paths := ps\<rparr>\<rparr>, [On_result (p_result_handler p) (p_result_handler_data p) r']) \<and>
    ext_ok (a\<lparr>ex_path_table := (ex_path_table a)\<lparr>pt_out_paths := ps\<rparr>\<rparr>) \<and>
    cb_cmd_id r' = cb_cmd_id r \<and> cr_original_cmd_name r' = p_cmd_name p \<and> cr_status_code r' = cr_status_code r \<and>
    cr_is_final r' \<and> cr_is_completed r' \<and> cb_properties r' = props"
proof -
  let ?pt = "ex_path_table a"
  have ptok: "pt_ok ?pt" using ok by (simp add: ext_ok_def)
  have d: "distinct (map p_addr (ps @ [p]))" using pt_okD(1) [OF ptok] by (simp add: path(1))
  have conv: "p_result_conversion p = None" using pt_okD(3) [OF ptok, of p] path(1) by simp
  have "find (\<lambda>q. p_cmd_id q = cb_cmd_id r) (qs @ [p]) = Some p" if "cb_cmd_id r \<notin> p_cmd_id ` set qs" for qs
    using that path(2) by (induction qs) auto
  then have found: "ten_path_table_find_path_from_cmd_id ?pt TEN_PATH_OUT (cb_cmd_id r) = Some p"
    using path(1,3) by (simp add: ten_path_table_find_path_from_cmd_id_def)
  let ?out = "ten_cmd_result_set_completed (routed TEN_PATH_OUT p (ten_cmd_result_set_completed r False)) True"
  have proc: "ten_path_table_process_cmd_result result_convert ?pt TEN_PATH_OUT r = Some (True, Some ?out, ?pt\<lparr>pt_out_paths := ps\<rparr>)"
    using process_single [OF ptok found path(4), of result_convert] path(1) conv r without_last [OF d]
    by (simp add: conv_result_def Let_def)
  have "pt_ok (?pt\<lparr>pt_out_paths := ps\<rparr>)"
    using process_returns [OF ptok, of result_convert TEN_PATH_OUT r] proc by simp
  then have ok': "ext_ok (a\<lparr>ex_path_table := ?pt\<lparr>pt_out_paths := ps\<rparr>\<rparr>)" using ok by (simp add: ext_ok_def)
  have handler: "cb_result_handler ?out = p_result_handler p" "cb_result_handler_data ?out = p_result_handler_data p"
    by (simp_all add: ten_cmd_result_set_completed_def routed_def Let_def)
  have "ten_extension_handle_in_msg e a (M_result r) = Some (a\<lparr>ex_path_table := ?pt\<lparr>pt_out_paths := ps\<rparr>\<rparr>,
      [On_result (p_result_handler p) (p_result_handler_data p) (?out\<lparr>cb_properties := props, cb_dest_loc := []\<rparr>)])"
    using check proc path(5) handler
    by (simp add: ten_extension_handle_in_msg_def ten_msg_is_cmd_result_def ten_raw_msg_is_cmd_result_def
        process_result_def ten_extension_validate_in_def validate_result deliver_result_def)
  with ok' r path(6) show ?thesis
    by (intro exI [of _ "?out\<lparr>cb_properties := props, cb_dest_loc := []\<rparr>"]) simp
qed

section \<open>Properties\<close>

text \<open>The id under which a command leaves: its own, or a new one.\<close>

definition sent_id :: "call_env \<Rightarrow> ten_cmd \<Rightarrow> string" where
  "sent_id e c = (if cb_cmd_id c = [] then ce_msg_uuid e 0 else cb_cmd_id c)"

text \<open>C2: The round trip of a command. An extension \<open>a\<close> sends a command that its graph connects to an
  extension \<open>b\<close> alone. The one message that leaves is for \<open>b\<close>; when it arrives there it is delivered
  with its name, its properties as the checks leave them, and \<open>a\<close> as its source. When \<open>b\<close> returns a
  final result made for the delivered command, one message leaves for \<open>a\<close>, and when that arrives
  the handler that \<open>a\<close> gave is called, with the data it gave, the id under which it sent the command,
  and the status and properties of the result. Then both extensions have the paths they had before.
  The id of the command must not be in use for another path of \<open>a\<close>, but it may be in use at \<open>b\<close>.
\<close>

theorem command_round_trip:
  assumes a: "ext_ok a" "\<not> ex_env_closed a" "ex_state a \<noteq> TEN_EXTENSION_STATE_ON_DEINIT_DONE"
    and b: "ext_ok b" "\<not> ex_env_closed b" "TEN_EXTENSION_STATE_ON_INIT_DONE \<le> ex_state b" "ex_state b < TEN_EXTENSION_STATE_ON_DEINIT"
    and c: "cb_dest_loc c = []" "cb_name c \<noteq> []" "cb_is_cmd c" "cb_parent_cmd_id c = []"
      "keys_ok (cb_properties c)" "ten_value_is_object (cb_properties c)"
    and graph: "ten_extension_get_msg_dests_from_graph a (M_cmd TEN_MSG_TYPE_CMD c) = Some (Some di)" "md_dest di = [own_loc b]"
      "\<not> should_convert b (M_cmd TEN_MSG_TYPE_CMD c)"
    and env: "clock_ok e1" "clock_ok e2" "handler \<noteq> 0"
    and ids: "sent_id e1 c \<noteq> []" "sent_id e1 c \<notin> p_cmd_id ` set (pt_out_paths (ex_path_table a))"
      "ce_path_uuid e2 0 \<notin> p_cmd_id ` set (pt_in_paths (ex_path_table b))"
    and checks: "cmd_check (ce_host e1) (ex_schema_store a) True TEN_MSG_TYPE_CMD (cb_name c) (cb_properties c) = Some (None, props1)"
      "cmd_check (ce_host e2) (ex_schema_store b) False TEN_MSG_TYPE_CMD (cb_name c) props1 = Some (None, props2)"
      "result_check (ce_host e3) (ex_schema_store b) True (cb_name c) answer = Some (None, answer1)"
      "result_check (ce_host e4) (ex_schema_store a) False (cb_name c) answer1 = Some (None, answer2)"
  shows "\<exists>a1 m1 b1 c2 r b2 m2 a2 r2.
    ten_env_send_cmd e1 a (M_cmd TEN_MSG_TYPE_CMD c) handler user_data multiple = Some (True, None, a1, [Dispatch m1]) \<and>
    ten_msg_get_dest m1 = [own_loc b] \<and>
    ten_extension_handle_in_msg e2 b m1 = Some (b1, [Deliver (M_cmd TEN_MSG_TYPE_CMD c2)]) \<and>
    cb_name c2 = cb_name c \<and> cb_properties c2 = props2 \<and> cb_src_loc c2 = own_loc a \<and>
    ten_cmd_result_create_from_cmd status c2 = Some r \<and>
    ten_env_return_result e3 b1 (r\<lparr>cb_properties := answer\<rparr>) = Some (True, None, b2, [Dispatch m2]) \<and>
    ten_msg_get_dest m2 = [own_loc a] \<and>
    ten_extension_handle_in_msg e4 a1 m2 = Some (a2, [On_result handler user_data r2]) \<and>
    cb_cmd_id r2 = sent_id e1 c \<and> cr_original_cmd_name r2 = cb_name c \<and> cr_status_code r2 = status \<and>
    cr_is_final r2 \<and> cr_is_completed r2 \<and> cb_properties r2 = answer2 \<and>
    pt_out_paths (ex_path_table a2) = pt_out_paths (ex_path_table a) \<and>
    pt_in_paths (ex_path_table a2) = pt_in_paths (ex_path_table a) \<and>
    pt_out_paths (ex_path_table b2) = pt_out_paths (ex_path_table b) \<and>
    pt_in_paths (ex_path_table b2) = pt_in_paths (ex_path_table b)"
proof -
  let ?t = TEN_MSG_TYPE_CMD
  define cid where "cid = sent_id e1 c"
  note ids = ids [folded cid_def]
  let ?policy = "if multiple then TEN_RESULT_RETURN_POLICY_EACH_OK_AND_ERROR
                              else TEN_RESULT_RETURN_POLICY_FIRST_ERROR_OR_LAST_OK"
  let ?c = "c\<lparr>cb_cmd_id := cid, cb_result_handler := handler, cb_result_handler_data := user_data\<rparr>"
  have store: "store_ok (ex_schema_store a)" using a(1) by (simp add: ext_ok_def)
  have props1: "keys_ok props1" "ten_value_is_object props1"
    using check_returns(1) [OF store c(2), of "ce_host e1" True ?t "cb_properties c"] checks(1) c(5,6) by auto
  have c': "cb_dest_loc ?c = []" "cb_name ?c \<noteq> []" "cb_is_cmd ?c"
    "cmd_check (ce_host e1) (ex_schema_store a) True ?t (cb_name ?c) (cb_properties ?c) = Some (None, props1)"
    using c checks(1) by simp_all
  have dest: "ten_extension_get_msg_dests_from_graph a (M_cmd ?t ?c) = Some (Some di)" "md_dest di \<noteq> []"
    using graph(1,2) a(1) by (auto simp: ext_ok_def ten_extension_get_msg_dests_from_graph_def ten_msg_is_cmd_and_result_def
        ten_raw_msg_is_cmd_and_result_def ten_extension_get_msg_dests_from_graph_internal_def)
  have pol: "?policy \<noteq> TEN_RESULT_RETURN_POLICY_INVALID" by simp
  obtain pt ps c1 where d: "ten_extension_dispatch_msg e1 a (M_cmd ?t ?c) ?policy =
      Some (True, None, a\<lparr>ex_path_table := pt\<rparr>, [Dispatch (M_cmd ?t (out_cmd c1))])"
    "sent_copy (ce_msg_uuid e1) 0 (?c\<lparr>cb_src_loc := own_loc a, cb_properties := props1\<rparr>) (own_loc b) c1"
    "pt_ok pt" "pt_in_paths pt = pt_in_paths (ex_path_table a)" "pt_out_paths pt = pt_out_paths (ex_path_table a) @ ps"
    "list_all2 out_path_for [c1] ps" "\<forall>p \<in> set ps. p_group p = None"
    using dispatch_cmd [OF a(1,3) c' props1 dest env(1) pol] unfolding graph(2)
    by (fastforce simp: length_Suc_conv)
  from d(6,7) obtain p where p: "ps = [p]" "out_path_for c1 p" "p_group p = None"
    by (auto simp: list_all2_Cons1)
  let ?a1 = "a\<lparr>ex_path_table := pt\<rparr>" and ?m1 = "M_cmd ?t (out_cmd c1)"
  have send: "ten_env_send_cmd e1 a (M_cmd ?t c) handler user_data multiple = Some (True, None, ?a1, [Dispatch ?m1])"
    using d(1) a(2) env(3) by (simp add: ten_env_send_cmd_def send_msg_internal_cmd cid_def sent_id_def)
  have a1: "ext_ok ?a1" using a(1) d(3) by (simp add: ext_ok_def)
  have m1: "cb_name (out_cmd c1) \<noteq> []" "cb_is_cmd (out_cmd c1)" "length (cb_dest_loc (out_cmd c1)) = 1"
    "\<not> should_convert b (M_cmd ?t (out_cmd c1))"
    "cmd_check (ce_host e2) (ex_schema_store b) False ?t (cb_name (out_cmd c1)) (cb_properties (out_cmd c1)) = Some (None, props2)"
    using d(2) c(2,3) graph(3) checks(2) by (simp_all add: sent_copy_def out_cmd_simps should_convert_def)
  obtain q ptb i where arr: "ten_extension_handle_in_msg e2 b ?m1 = Some (b\<lparr>ex_path_table := ptb\<rparr>, [Deliver (M_cmd ?t
        ((out_cmd c1)\<lparr>cb_cmd_id := i, cb_parent_cmd_id := [], cb_properties := props2, cb_dest_loc := []\<rparr>))])"
    and ptb: "ptb = (ex_path_table b)\<lparr>pt_in_paths := pt_in_paths (ex_path_table b) @ [q], pt_next := pt_next (ex_path_table b) + 1\<rparr>"
      "ext_ok (b\<lparr>ex_path_table := ptb\<rparr>)"
    and q: "p_cmd_id q = i" "p_src_loc q = own_loc a" "p_cmd_name q = cb_name c" "p_result_conversion q = None" "p_group q = None"
      "p_parent_cmd_id q = cid \<or> p_parent_cmd_id q = [] \<and> i = cid"
    using arrive_cmd [OF b(1,3,4) m1(1-4) env(2) ids(3) m1(5)] d(2)
    by (auto simp: sent_copy_def out_cmd_simps)
  let ?b1 = "b\<lparr>ex_path_table := ptb\<rparr>"
  let ?c2 = "(out_cmd c1)\<lparr>cb_cmd_id := i, cb_parent_cmd_id := [], cb_properties := props2, cb_dest_loc := []\<rparr>"
  have c2: "cb_name ?c2 = cb_name c" "cb_src_loc ?c2 = own_loc a" using d(2) by (simp_all add: sent_copy_def out_cmd_simps)
  obtain r where r: "ten_cmd_result_create_from_cmd status ?c2 = Some r" "cr_original_cmd_name r = cb_name c"
    "cb_cmd_id r = i" "cr_status_code r = status" "cr_is_final r"
    using result_from_cmd [of ?c2 status] c2 c(2) by auto
  let ?r = "r\<lparr>cb_properties := answer\<rparr>"
  have live: "ex_state ?b1 \<noteq> TEN_EXTENSION_STATE_ON_DEINIT_DONE" "\<not> ex_env_closed ?b1"
    using b(2,4) by (auto simp: less_extension_state_def)
  have bp: "pt_in_paths (ex_path_table ?b1) = pt_in_paths (ex_path_table b) @ [q]" "p_cmd_id q = cb_cmd_id ?r"
    using q(1) r(3) by (simp_all add: ptb(1))
  have br: "cr_is_final ?r" "cr_original_cmd_name ?r \<noteq> []"
    "result_check (ce_host e3) (ex_schema_store ?b1) True (cr_original_cmd_name ?r) (cb_properties ?r) = Some (None, answer1)"
    using r checks(3) c(2) by simp_all
  obtain r1 where ret: "ten_env_return_result e3 ?b1 ?r = Some (True, None,
      ?b1\<lparr>ex_path_table := ptb\<lparr>pt_in_paths := pt_in_paths (ex_path_table b)\<rparr>\<rparr>, [Dispatch (M_result r1)])"
    "cb_cmd_id r1 = cid" "cb_dest_loc r1 = [own_loc a]" "cr_original_cmd_name r1 = cb_name c" "cr_status_code r1 = status"
    "cr_is_final r1" "cb_properties r1 = answer1"
    using return_for_path [OF ptb(2) live bp q(5,4) br] q ids(1) r(3,4) by (auto split: if_splits)
  have ap: "pt_out_paths (ex_path_table ?a1) = pt_out_paths (ex_path_table a) @ [p]" "p_cmd_id p = cb_cmd_id r1"
    "cb_cmd_id r1 \<notin> p_cmd_id ` set (pt_out_paths (ex_path_table a))" "p_group p = None" "p_result_handler p \<noteq> 0" "p_parent_cmd_id p = []"
    and ph: "p_result_handler p = handler" "p_result_handler_data p = user_data" "p_cmd_name p = cb_name c"
    using d(2,5) p ids(2) ret(2) env(3) c(4) by (simp_all add: out_path_for_def sent_copy_def)
  have ac: "result_check (ce_host e4) (ex_schema_store ?a1) False (p_cmd_name p) (cb_properties r1) = Some (None, answer2)"
    using checks(4) ret(7) ph(3) by simp
  obtain r2 where fin: "ten_extension_handle_in_msg e4 ?a1 (M_result r1) =
      Some (?a1\<lparr>ex_path_table := pt\<lparr>pt_out_paths := pt_out_paths (ex_path_table a)\<rparr>\<rparr>, [On_result handler user_data r2])"
    "cb_cmd_id r2 = cid" "cr_original_cmd_name r2 = cb_name c" "cr_status_code r2 = status" "cr_is_final r2"
    "cr_is_completed r2" "cb_properties r2 = answer2"
    using result_to_handler [OF a1 ap ret(6) ac] ph ret(2,5) by auto
  show ?thesis
    unfolding cid_def [symmetric] using send arr c2 r ret fin d(2,4) ptb(1)
    by (intro exI [of _ ?a1] exI [of _ ?m1] exI [of _ ?b1] exI [of _ ?c2] exI [of _ r]
        exI [of _ "?b1\<lparr>ex_path_table := ptb\<lparr>pt_in_paths := pt_in_paths (ex_path_table b)\<rparr>\<rparr>"] exI [of _ "M_result r1"]
        exI [of _ "?a1\<lparr>ex_path_table := pt\<lparr>pt_out_paths := pt_out_paths (ex_path_table a)\<rparr>\<rparr>"] exI [of _ r2])
      (simp add: sent_copy_def out_cmd_simps)
qed

theorem command_round_trip_witness:
  "\<exists>a1 m1 b1 c2 r b2 m2 a2 r2.
    ten_env_send_cmd example_env (example_extension ''a'' [\<lparr>md_name = ''*'', md_dest = [own_loc (example_extension ''b'' [])]\<rparr>])
      (M_cmd TEN_MSG_TYPE_CMD example_hello) 7 8 False = Some (True, None, a1, [Dispatch m1]) \<and>
    ten_extension_handle_in_msg example_env (example_extension ''b'' []) m1 = Some (b1, [Deliver (M_cmd TEN_MSG_TYPE_CMD c2)]) \<and>
    ten_cmd_result_create_from_cmd 0 c2 = Some r \<and>
    ten_env_return_result example_env b1 (r\<lparr>cb_properties := V_int8 1\<rparr>) = Some (True, None, b2, [Dispatch m2]) \<and>
    ten_extension_handle_in_msg example_env a1 m2 = Some (a2, [On_result 7 8 r2]) \<and> cb_cmd_id r2 = ''m0''"
proof -
  let ?b = "example_extension ''b'' []" and ?t = TEN_MSG_TYPE_CMD
  let ?di = "\<lparr>md_name = ''*'', md_dest = [own_loc ?b]\<rparr>"
  let ?a = "example_extension ''a'' [?di]"
  have a: "\<not> ex_env_closed ?a" "ex_state ?a \<noteq> TEN_EXTENSION_STATE_ON_DEINIT_DONE"
    and b: "\<not> ex_env_closed ?b" "TEN_EXTENSION_STATE_ON_INIT_DONE \<le> ex_state ?b" "ex_state ?b < TEN_EXTENSION_STATE_ON_DEINIT"
    by (simp_all add: example_extension_def less_eq_extension_state_def less_extension_state_def)
  have c: "cb_dest_loc example_hello = []" "cb_name example_hello \<noteq> []" "cb_is_cmd example_hello"
    "cb_parent_cmd_id example_hello = []" "keys_ok (cb_properties example_hello)" "ten_value_is_object (cb_properties example_hello)"
    by (simp_all add: example_hello_def keys_ok_object)
  have g: "ten_extension_get_msg_dests_from_graph ?a (M_cmd ?t example_hello) = Some (Some ?di)" "md_dest ?di = [own_loc ?b]"
    "\<not> should_convert ?b (M_cmd ?t example_hello)"
    by (simp_all add: example_extension_def ten_extension_get_msg_dests_from_graph_def ten_msg_is_cmd_and_result_def
        ten_raw_msg_is_cmd_and_result_def ten_extension_get_msg_dests_from_graph_internal_def
        ten_msg_dest_info_qualified_def should_convert_def)
  have i: "sent_id example_env example_hello = ''m0''" by (simp add: sent_id_def example_hello_def example_env_def) code_simp
  then have ids: "sent_id example_env example_hello \<noteq> []"
    "sent_id example_env example_hello \<notin> p_cmd_id ` set (pt_out_paths (ex_path_table ?a))"
    "ce_path_uuid example_env 0 \<notin> p_cmd_id ` set (pt_in_paths (ex_path_table ?b))"
    by (simp_all add: example_extension_def ten_path_table_create_def)
  have s: "ex_schema_store ?a = ten_schema_store_init" "ex_schema_store ?b = ten_schema_store_init"
    by (simp_all add: example_extension_def)
  have n: "(7 :: nat) \<noteq> 0" by simp
  have checks: "cmd_check h (ex_schema_store ?a) True ?t (cb_name example_hello) v = Some (None, v)"
    "cmd_check h (ex_schema_store ?b) False ?t (cb_name example_hello) v = Some (None, v)"
    "result_check h (ex_schema_store ?b) True (cb_name example_hello) v = Some (None, v)"
    "result_check h (ex_schema_store ?a) False (cb_name example_hello) v = Some (None, v)" for h v
    using c(2) by (simp_all add: s)
  from command_round_trip [where ?e3.0 = example_env and ?e4.0 = example_env and answer = "V_int8 1" and user_data = 8
      and multiple = False and status = 0,
      OF example_extension_ok a example_extension_ok b c g example_env_clock example_env_clock n ids checks]
  show ?thesis unfolding i by blast
qed

end
