(* ===== verification/Extension_Life.thy ===== *)
theory Extension_Life
  imports Extension_Msg
begin

text \<open>
  The life cycle of one extension (\<open>extension/extension.c\<close>, \<open>extension/ten_env/on_xxx.c\<close>,
  \<open>extension/internal/close.c\<close>, \<open>extension/internal/path_timer.c\<close>): \<open>on_configure\<close>, \<open>on_init\<close>, \<open>on_start\<close>,
  \<open>on_stop\<close>, \<open>on_deinit\<close>, the \<open>on_xxx_done\<close> functions the extension calls to say that it has finished a
  stage, and the closing of the path timers in between.

  The functions return the calls that are still to be made, in order: a callback of the extension, a
  message to be handled, a task to be put at the end of the run loop. The C functions make these calls
  last, or in a loop that does nothing else, so performing them one by one afterwards, each with all it
  brings about, is the same execution. Where a function goes on after such calls, its rest is an action
  of its own (\<open>Release_check\<close>).

  Loading the metadata of an extension is not modelled: its outcome, the properties and the schemas of
  the extension, is a parameter; without one the program exits.
\<close>

datatype life_callback = On_configure | On_init | On_start | On_stop | On_deinit

datatype path_timer = In_path_timer | Out_path_timer

datatype life_task =
    Trigger_on_init
  | Trigger_on_start
  | Timer_stop path_timer
  | Timer_close path_timer
  | Del_extension
  | Proxy_deleted

datatype life_action =
    Callback life_callback
  | Handle_in ten_msg
  | Post life_task
  | Release_check
  | Msg_effect effect

text \<open>
  The parts of the extension that matter for its life cycle, around those its messages see. The
  callbacks that are set are the ones \<open>lf_on\<close> holds for. Of the proxies only their number counts.
\<close>

record life =
  lf_ext :: ten_extension
  lf_on :: "life_callback \<Rightarrow> bool"
  lf_property :: ten_value
  lf_path_timers :: "path_timer list"
  lf_proxies :: nat

abbreviation lf_state :: "life \<Rightarrow> extension_state" where
  "lf_state self \<equiv> ex_state (lf_ext self)"

abbreviation lf_name :: "life \<Rightarrow> string" where
  "lf_name self \<equiv> ex_name (lf_ext self)"

definition lf_set_state :: "life \<Rightarrow> extension_state \<Rightarrow> life" where
  "lf_set_state self state = self\<lparr>lf_ext := (lf_ext self)\<lparr>ex_state := state\<rparr>\<rparr>"

section \<open>Closing\<close>

text \<open>
  The messages that arrived too early: first those the thread received before it had its extensions,
  where they wait for the extension they name, then those the extension itself has kept.
\<close>

definition ten_extension_flush_all_pending_msgs_received_in_init_stage ::
  "ten_msg list \<Rightarrow> life \<Rightarrow> (ten_msg list \<times> life \<times> life_action list) run" where
  "ten_extension_flush_all_pending_msgs_received_in_init_stage thread_pending self =
     do { ten_assert (\<forall>msg \<in> set thread_pending. ten_msg_get_dest msg \<noteq> []);
          let mine = (\<lambda>msg. loc_extension_name (hd (ten_msg_get_dest msg)) = lf_name self);
          Some (filter (\<lambda>msg. \<not> mine msg) thread_pending,
                self\<lparr>lf_ext := (lf_ext self)\<lparr>ex_pending := []\<rparr>\<rparr>,
                map Handle_in (filter mine thread_pending @ ex_pending (lf_ext self))) }"

definition ten_extension_thread_on_extension_on_deinit_done ::
  "ten_msg list \<Rightarrow> life \<Rightarrow> (ten_msg list \<times> life \<times> life_action list) run" where
  "ten_extension_thread_on_extension_on_deinit_done thread_pending self =
     do { (thread_pending, self, actions) \<leftarrow>
            ten_extension_flush_all_pending_msgs_received_in_init_stage thread_pending self;
          Some (thread_pending, self, actions @ [Post Del_extension]) }"

definition ten_extension_on_ten_env_proxy_released ::
  "ten_msg list \<Rightarrow> life \<Rightarrow> (ten_msg list \<times> life \<times> life_action list) run" where
  "ten_extension_on_ten_env_proxy_released thread_pending self =
     (if lf_proxies self \<noteq> 0 then Some (thread_pending, self, [])
      else ten_extension_thread_on_extension_on_deinit_done thread_pending self)"

text \<open>The IN paths go silently; every OUT path gets an error result of its own.\<close>

definition flush_results :: "msg_conversion path_table \<Rightarrow> cmd_result list" where
  "flush_results path_table =
     map (\<lambda>path. ten_cmd_base_set_cmd_id
            ((ten_cmd_result_create TEN_STATUS_CODE_ERROR)
               \<lparr>cb_properties := V_object [(''detail'', V_string (p_cmd_id path))]\<rparr>)
            (p_cmd_id path))
       (pt_out_paths path_table)"

definition ten_extension_flush_remaining_paths :: "life \<Rightarrow> life \<times> life_action list" where
  "ten_extension_flush_remaining_paths self =
     (let path_table = (ex_path_table (lf_ext self))\<lparr>pt_in_paths := []\<rparr>
      in (self\<lparr>lf_ext := (lf_ext self)\<lparr>ex_path_table := path_table\<rparr>\<rparr>,
          map (\<lambda>r. Handle_in (M_result r)) (flush_results path_table)))"

definition ten_extension_on_deinit_done :: "life \<Rightarrow> bool \<times> life \<times> life_action list" where
  "ten_extension_on_deinit_done self =
     (if lf_state self \<noteq> TEN_EXTENSION_STATE_ON_DEINIT then (False, self, [])
      else let self = lf_set_state self TEN_EXTENSION_STATE_ON_DEINIT_DONE;
               self = self\<lparr>lf_ext := (lf_ext self)\<lparr>ex_env_closed := True\<rparr>\<rparr>;
               (self, actions) = ten_extension_flush_remaining_paths self
           in (True, self, actions @ [Release_check]))"

text \<open>A callback, or when it is not set the function the callback would call in the end.\<close>

definition ten_extension_on_deinit :: "life \<Rightarrow> life \<times> life_action list" where
  "ten_extension_on_deinit self =
     (let self = lf_set_state self TEN_EXTENSION_STATE_ON_DEINIT
      in if lf_on self On_deinit then (self, [Callback On_deinit]) else snd (ten_extension_on_deinit_done self))"

definition ten_extension_could_be_closed :: "life \<Rightarrow> bool" where
  "ten_extension_could_be_closed self \<longleftrightarrow> lf_path_timers self = []"

definition ten_extension_do_close :: "life \<Rightarrow> life \<times> life_action list" where
  "ten_extension_do_close self = ten_extension_on_deinit self"

definition ten_extension_on_timer_closed :: "path_timer \<Rightarrow> life \<Rightarrow> life \<times> life_action list" where
  "ten_extension_on_timer_closed timer self =
     (let self = self\<lparr>lf_path_timers := remove1 timer (lf_path_timers self)\<rparr>
      in if ten_extension_could_be_closed self then ten_extension_do_close self else (self, []))"

definition ten_extension_do_pre_close_action :: "life \<Rightarrow> life \<times> life_action list" where
  "ten_extension_do_pre_close_action self =
     (let posts = concat (map (\<lambda>timer. [Post (Timer_stop timer), Post (Timer_close timer)]) (lf_path_timers self))
      in if ten_extension_could_be_closed self
         then let (self, actions) = ten_extension_do_close self in (self, posts @ actions)
         else (self, posts))"

definition ten_extension_on_stop_done :: "life \<Rightarrow> bool \<times> life \<times> life_action list" where
  "ten_extension_on_stop_done self =
     (if lf_state self \<noteq> TEN_EXTENSION_STATE_ON_STOP then (False, self, [])
      else (True, ten_extension_do_pre_close_action (lf_set_state self TEN_EXTENSION_STATE_ON_STOP_DONE)))"

definition ten_extension_on_stop :: "life \<Rightarrow> life \<times> life_action list" where
  "ten_extension_on_stop self =
     (if TEN_EXTENSION_STATE_ON_STOP \<le> lf_state self then (self, [])
      else let self = lf_set_state self TEN_EXTENSION_STATE_ON_STOP
           in if lf_on self On_stop then (self, [Callback On_stop]) else snd (ten_extension_on_stop_done self))"

section \<open>Starting\<close>

text \<open>\<open>closing\<close> is whether the thread has been asked to close.\<close>

definition ten_extension_on_start_done :: "bool \<Rightarrow> life \<Rightarrow> bool \<times> life \<times> life_action list" where
  "ten_extension_on_start_done closing self =
     (if lf_state self \<noteq> TEN_EXTENSION_STATE_ON_START then (False, self, [])
      else let self = lf_set_state self TEN_EXTENSION_STATE_ON_START_DONE
           in (True, if closing then ten_extension_on_stop self else (self, [])))"

definition ten_extension_on_start :: "bool \<Rightarrow> life \<Rightarrow> life \<times> life_action list" where
  "ten_extension_on_start closing self =
     (if TEN_EXTENSION_STATE_ON_STOP \<le> lf_state self then (self, [])
      else let self = lf_set_state self TEN_EXTENSION_STATE_ON_START
           in if lf_on self On_start then (self, [Callback On_start])
              else snd (ten_extension_on_start_done closing self))"

definition ten_extension_on_init_done ::
  "bool \<Rightarrow> ten_msg list \<Rightarrow> life \<Rightarrow> (bool \<times> ten_msg list \<times> life \<times> life_action list) run" where
  "ten_extension_on_init_done closing thread_pending self =
     (if lf_state self \<noteq> TEN_EXTENSION_STATE_ON_INIT then Some (False, thread_pending, self, [])
      else let self = lf_set_state self TEN_EXTENSION_STATE_ON_INIT_DONE
           in if closing then Some (True, thread_pending, ten_extension_on_stop self)
              else do { (thread_pending, self, actions) \<leftarrow>
                          ten_extension_flush_all_pending_msgs_received_in_init_stage thread_pending self;
                        Some (True, thread_pending, self, actions @ [Post Trigger_on_start]) })"

definition ten_extension_on_init ::
  "bool \<Rightarrow> ten_msg list \<Rightarrow> life \<Rightarrow> (ten_msg list \<times> life \<times> life_action list) run" where
  "ten_extension_on_init closing thread_pending self =
     (if TEN_EXTENSION_STATE_ON_STOP \<le> lf_state self then Some (thread_pending, self, [])
      else let self = lf_set_state self TEN_EXTENSION_STATE_ON_INIT
           in if lf_on self On_init then Some (thread_pending, self, [Callback On_init])
              else map_option snd (ten_extension_on_init_done closing thread_pending self))"

text \<open>Properties that do not fit the schema end the program.\<close>

definition ten_extension_adjust_and_validate_property_on_configure_done :: "fp_host \<Rightarrow> life \<Rightarrow> life run" where
  "ten_extension_adjust_and_validate_property_on_configure_done h self =
     do { (err, property) \<leftarrow>
            ten_schema_store_adjust_properties h (ex_schema_store (lf_ext self)) (lf_property self);
          ten_assert (err = None);
          property \<leftarrow> property;
          r \<leftarrow> ten_schema_store_validate_properties (ex_schema_store (lf_ext self)) property;
          ten_assert (r = Inr ());
          Some (self\<lparr>lf_property := property\<rparr>) }"

definition ten_extension_on_configure_done ::
  "fp_host \<Rightarrow> bool \<Rightarrow> (ten_value \<times> schema_store) option \<Rightarrow> life \<Rightarrow> (bool \<times> life \<times> life_action list) run" where
  "ten_extension_on_configure_done h closing metadata self =
     (if lf_state self \<noteq> TEN_EXTENSION_STATE_ON_CONFIGURE then Some (False, self, [])
      else let self = lf_set_state self TEN_EXTENSION_STATE_ON_CONFIGURE_DONE
           in if closing then Some (True, ten_extension_on_stop self)
              else do { (property, store) \<leftarrow> metadata;
                        self \<leftarrow> ten_extension_adjust_and_validate_property_on_configure_done h
                          (self\<lparr>lf_property := property, lf_ext := (lf_ext self)\<lparr>ex_schema_store := store\<rparr>\<rparr>);
                        Some (True, self\<lparr>lf_path_timers := lf_path_timers self @ [In_path_timer, Out_path_timer]\<rparr>,
                              [Post Trigger_on_init]) })"

definition ten_extension_on_configure ::
  "fp_host \<Rightarrow> bool \<Rightarrow> (ten_value \<times> schema_store) option \<Rightarrow> life \<Rightarrow> (life \<times> life_action list) run" where
  "ten_extension_on_configure h closing metadata self =
     (if TEN_EXTENSION_STATE_ON_STOP \<le> lf_state self then Some (self, [])
      else let self = lf_set_state self TEN_EXTENSION_STATE_ON_CONFIGURE
           in if lf_on self On_configure then Some (self, [Callback On_configure])
              else map_option snd (ten_extension_on_configure_done h closing metadata self))"

section \<open>The path timers\<close>

definition ten_extension_path_timer_on_triggered ::
  "path_timer \<Rightarrow> 64 word \<Rightarrow> life \<Rightarrow> life \<times> life_action list" where
  "ten_extension_path_timer_on_triggered timer current_time_us self =
     (let path_table = ex_path_table (lf_ext self)
      in case timer of
           In_path_timer \<Rightarrow>
             (self\<lparr>lf_ext := (lf_ext self)\<lparr>ex_path_table :=
                ten_extension_in_path_timer_on_triggered current_time_us path_table\<rparr>\<rparr>, [])
         | Out_path_timer \<Rightarrow>
             (self, map (\<lambda>r. Handle_in (M_result r)) (out_path_timeout_results current_time_us path_table)))"

section \<open>Proxies\<close>

definition ten_env_add_ten_proxy :: "life \<Rightarrow> life" where
  "ten_env_add_ten_proxy self = self\<lparr>lf_proxies := lf_proxies self + 1\<rparr>"

definition ten_env_delete_ten_proxy ::
  "ten_msg list \<Rightarrow> life \<Rightarrow> (ten_msg list \<times> life \<times> life_action list) run" where
  "ten_env_delete_ten_proxy thread_pending self =
     do { ten_assert (lf_proxies self \<noteq> 0);
          let self = self\<lparr>lf_proxies := lf_proxies self - 1\<rparr>;
          if lf_proxies self = 0 \<and> lf_state self = TEN_EXTENSION_STATE_ON_DEINIT_DONE
          then ten_extension_on_ten_env_proxy_released thread_pending self
          else Some (thread_pending, self, []) }"

end
