(* ===== verification/Extension_Thread.thy ===== *)
theory Extension_Thread
  imports Extension_Life
begin

text \<open>
  An extension thread (\<open>extension_thread/extension_thread.c\<close>, \<open>extension_thread/on_xxx.c\<close>,
  \<open>extension_thread/msg_interface/common.c\<close>): the group of extensions it runs, their life cycles, the
  messages between them, and what it hands to its engine and to the app. The extension group is the
  built-in one (\<open>extension_group/builtin/builtin_extension_group.c\<close>); creating and destroying the
  instances is the work of addons, which are not modelled.

  The thread executes the tasks of its run loop one after the other. A task leaves calls to be made,
  the agenda, of which the first is performed, with all that it leaves to be done in turn, before the
  next. The code of an extension runs where a callback or a result handler is called; it is not
  modelled, it may call any functions of its environment.
\<close>

datatype thread_state =
    TEN_EXTENSION_THREAD_STATE_INIT
  | TEN_EXTENSION_THREAD_STATE_CREATING_EXTENSIONS
  | TEN_EXTENSION_THREAD_STATE_NORMAL
  | TEN_EXTENSION_THREAD_STATE_PREPARE_TO_CLOSE
  | TEN_EXTENSION_THREAD_STATE_CLOSED

datatype group_state =
    TEN_EXTENSION_GROUP_STATE_INIT
  | TEN_EXTENSION_GROUP_STATE_DEINIT
  | TEN_EXTENSION_GROUP_STATE_DEINIT_DONE

datatype thread_task =
    Ext_task string life_task
  | Handle_in_msg_task ten_msg
  | Handle_start_msg_task
  | Group_init_done_task
  | Triggering_close_task
  | Start_life_cycle_task
  | Stop_life_cycle_task
  | All_extensions_deleted_task
  | Group_deinit_done_task
  | Removed_from_engine_task

datatype outgoing =
    To_engine_queue ten_msg
  | To_app_queue ten_msg
  | Find_extension_info
  | Remove_from_engine
  | Extension_thread_closed

text \<open>The functions an extension calls on its environment.\<close>

datatype api_call =
    Send_cmd ten_msg nat nat bool
  | Send_data ten_msg nat nat
  | Send_video_frame ten_msg nat nat
  | Send_audio_frame ten_msg nat nat
  | Return_result cmd_result
  | Configure_done
  | Init_done
  | Start_done
  | Stop_done
  | Deinit_done
  | Create_proxy
  | Release_proxy

datatype thread_action =
    Ext string life_action
  | Api string api_call
  | Load_metadata string
  | Stop_if_done string

text \<open>
  \<open>et_groups\<close> tells the group of every extension of the graph. \<open>et_store\<close> holds the names of the
  extensions that can be found. \<open>et_creating\<close> holds while the addons create the instances,
  \<open>et_being_destroyed\<close> counts those they still have to destroy, and \<open>et_closing_timers\<close> are the timers
  the run loop has been asked to close. \<open>et_called\<close> is a history of the callbacks that were called.
\<close>

record ext_thread =
  et_state :: thread_state
  et_is_close_triggered :: bool
  et_engine :: ten_engine
  et_group :: string
  et_groups :: "(string \<times> string) list"
  et_group_state :: group_state
  et_creating :: bool
  et_extensions :: "life list"
  et_store :: "string list"
  et_deleted :: nat
  et_being_destroyed :: nat
  et_pending :: "ten_msg list"
  et_closing_timers :: "(string \<times> path_timer) list"
  et_runloop :: "thread_task list"
  et_agenda :: "thread_action list"
  et_out :: "outgoing list"
  et_called :: "(string \<times> life_callback) list"

record thread_env =
  te_call :: call_env
  te_metadata :: "string \<Rightarrow> (ten_value \<times> schema_store) option"

definition ten_extension_thread_create :: "ten_engine \<Rightarrow> string \<Rightarrow> (string \<times> string) list \<Rightarrow> ext_thread" where
  "ten_extension_thread_create engine grp groups =
     \<lparr>et_state = TEN_EXTENSION_THREAD_STATE_INIT, et_is_close_triggered = False, et_engine = engine, et_group = grp,
      et_groups = groups, et_group_state = TEN_EXTENSION_GROUP_STATE_INIT, et_creating = False, et_extensions = [],
      et_store = [], et_deleted = 0, et_being_destroyed = 0, et_pending = [], et_closing_timers = [], et_runloop = [],
      et_agenda = [], et_out = [], et_called = []\<rparr>"

text \<open>The thread starts by posting the task that loads the metadata of its group.\<close>

definition ten_extension_thread_main_actual :: "ext_thread \<Rightarrow> ext_thread" where
  "ten_extension_thread_main_actual self = self\<lparr>et_runloop := et_runloop self @ [Handle_start_msg_task]\<rparr>"

section \<open>The extensions of a thread\<close>

text \<open>A pointer to an extension that has been destroyed fails.\<close>

definition get_life :: "ext_thread \<Rightarrow> string \<Rightarrow> life run" where
  "get_life self name = find (\<lambda>x. lf_name x = name) (et_extensions self)"

definition put_life :: "ext_thread \<Rightarrow> string \<Rightarrow> life \<Rightarrow> ext_thread" where
  "put_life self name x = self\<lparr>et_extensions := map (\<lambda>y. if lf_name y = name then x else y) (et_extensions self)\<rparr>"

definition post :: "ext_thread \<Rightarrow> thread_task \<Rightarrow> ext_thread" where
  "post self task = self\<lparr>et_runloop := et_runloop self @ [task]\<rparr>"

definition emit :: "ext_thread \<Rightarrow> outgoing \<Rightarrow> ext_thread" where
  "emit self out = self\<lparr>et_out := et_out self @ [out]\<rparr>"

text \<open>What a function of the life cycle leaves: the new extension, its actions, and the history.\<close>

definition callbacks_of :: "string \<Rightarrow> life_action list \<Rightarrow> (string \<times> life_callback) list" where
  "callbacks_of name actions = concat (map (\<lambda>a. case a of Callback c \<Rightarrow> [(name, c)] | _ \<Rightarrow> []) actions)"

definition lived ::
  "ext_thread \<Rightarrow> string \<Rightarrow> life \<times> life_action list \<Rightarrow> ext_thread \<times> thread_action list" where
  "lived self name r =
     (case r of (x, actions) \<Rightarrow>
        ((put_life self name x)\<lparr>et_called := et_called self @ callbacks_of name actions\<rparr>, map (Ext name) actions))"

definition lived_pending ::
  "ext_thread \<Rightarrow> string \<Rightarrow> ten_msg list \<times> life \<times> life_action list \<Rightarrow> ext_thread \<times> thread_action list" where
  "lived_pending self name r = (case r of (pending, x) \<Rightarrow> lived (self\<lparr>et_pending := pending\<rparr>) name x)"

section \<open>Messages\<close>

definition ten_engine_append_to_in_msgs_queue :: "ext_thread \<Rightarrow> ten_msg \<Rightarrow> ext_thread" where
  "ten_engine_append_to_in_msgs_queue self msg = emit self (To_engine_queue msg)"

text \<open>The queue of the app takes commands and results only.\<close>

definition ten_app_push_to_in_msgs_queue :: "ext_thread \<Rightarrow> ten_msg \<Rightarrow> ext_thread run" where
  "ten_app_push_to_in_msgs_queue self msg =
     do { ten_assert (ten_msg_is_cmd_and_result msg);
          ten_assert (case msg of M_cmd t c \<Rightarrow> cb_cmd_id c \<noteq> [] | M_result r \<Rightarrow> cb_cmd_id r \<noteq> [] | _ \<Rightarrow> False);
          ten_assert (length (ten_msg_get_dest msg) = 1);
          Some (emit self (To_app_queue msg)) }"

definition ten_extension_thread_create_cmd_result_and_dispatch ::
  "ext_thread \<Rightarrow> ten_cmd \<Rightarrow> string \<Rightarrow> ext_thread run" where
  "ten_extension_thread_create_cmd_result_and_dispatch self origin_cmd detail =
     do { cmd_result \<leftarrow> ten_cmd_result_create_from_cmd TEN_STATUS_CODE_ERROR origin_cmd;
          Some (ten_engine_append_to_in_msgs_queue self (M_result (set_detail cmd_result detail))) }"

definition ten_extension_thread_handle_in_msg_sync ::
  "ext_thread \<Rightarrow> ten_msg \<Rightarrow> (ext_thread \<times> thread_action list) run" where
  "ten_extension_thread_handle_in_msg_sync self msg =
     do { ten_assert (length (ten_msg_get_dest msg) = 1);
          let name = loc_extension_name (hd (ten_msg_get_dest msg));
          if name \<in> set (et_store self) then Some (self, [Ext name (Handle_in msg)])
          else case msg of
            M_cmd TEN_MSG_TYPE_CMD c \<Rightarrow>
              do { self \<leftarrow> ten_extension_thread_create_cmd_result_and_dispatch self c
                     (''The extension['' @ name @ ''] is invalid.'');
                   Some (self, []) }
          | _ \<Rightarrow> Some (self, []) }"

definition ten_extension_thread_handle_in_msg_task ::
  "ext_thread \<Rightarrow> ten_msg \<Rightarrow> (ext_thread \<times> thread_action list) run" where
  "ten_extension_thread_handle_in_msg_task self msg =
     do { ten_assert (length (ten_msg_get_dest msg) = 1);
          case et_state self of
            TEN_EXTENSION_THREAD_STATE_INIT \<Rightarrow> Some (self\<lparr>et_pending := et_pending self @ [msg]\<rparr>, [])
          | TEN_EXTENSION_THREAD_STATE_CREATING_EXTENSIONS \<Rightarrow> Some (self\<lparr>et_pending := et_pending self @ [msg]\<rparr>, [])
          | TEN_EXTENSION_THREAD_STATE_NORMAL \<Rightarrow> ten_extension_thread_handle_in_msg_sync self msg
          | TEN_EXTENSION_THREAD_STATE_PREPARE_TO_CLOSE \<Rightarrow> ten_extension_thread_handle_in_msg_sync self msg
          | TEN_EXTENSION_THREAD_STATE_CLOSED \<Rightarrow> Some (self, []) }"

text \<open>The graph knows the extensions of this app and graph only.\<close>

definition ten_extension_context_get_extension_group_name :: "ext_thread \<Rightarrow> ten_loc \<Rightarrow> string option" where
  "ten_extension_context_get_extension_group_name self loc = map_of (et_groups self) (loc_extension_name loc)"

definition ten_extension_thread_dispatch_msg ::
  "ext_thread \<Rightarrow> ten_msg \<Rightarrow> (ext_thread \<times> thread_action list) run" where
  "ten_extension_thread_dispatch_msg self msg =
     do { ten_assert (length (ten_msg_get_dest msg) = 1);
          let dest_loc = hd (ten_msg_get_dest msg);
          if loc_app_uri dest_loc \<noteq> en_app_uri (et_engine self)
          then do { ten_assert (loc_app_uri dest_loc \<noteq> []);
                    Some (ten_engine_append_to_in_msgs_queue self msg, []) }
          else if loc_graph_id dest_loc = [] \<or> loc_graph_id dest_loc \<noteq> en_graph_id (et_engine self)
          then do { self \<leftarrow> ten_app_push_to_in_msgs_queue self msg; Some (self, []) }
          else if loc_extension_name dest_loc = [] then Some (ten_engine_append_to_in_msgs_queue self msg, [])
          else case ten_extension_context_get_extension_group_name self dest_loc of
            Some grp \<Rightarrow>
              if grp \<noteq> et_group self then Some (ten_engine_append_to_in_msgs_queue self msg, [])
              else ten_extension_thread_handle_in_msg_sync self msg
          | None \<Rightarrow>
              (case msg of
                 M_cmd TEN_MSG_TYPE_CMD c \<Rightarrow>
                   do { self \<leftarrow> ten_extension_thread_create_cmd_result_and_dispatch self c ''Failed to find destination.'';
                        Some (self, []) }
               | _ \<Rightarrow> Some (self, [])) }"

section \<open>The group\<close>

text \<open>The built-in group has nothing to do when it is asked to end.\<close>

definition ten_extension_group_on_deinit_done :: "ext_thread \<Rightarrow> ext_thread" where
  "ten_extension_group_on_deinit_done self =
     (if et_group_state self \<noteq> TEN_EXTENSION_GROUP_STATE_DEINIT then self
      else post (self\<lparr>et_group_state := TEN_EXTENSION_GROUP_STATE_DEINIT_DONE\<rparr>) Group_deinit_done_task)"

definition ten_extension_group_on_deinit :: "ext_thread \<Rightarrow> ext_thread" where
  "ten_extension_group_on_deinit self =
     ten_extension_group_on_deinit_done (self\<lparr>et_group_state := TEN_EXTENSION_GROUP_STATE_DEINIT\<rparr>)"

definition ten_extension_thread_on_extension_group_on_init_done :: "ext_thread \<Rightarrow> ext_thread" where
  "ten_extension_thread_on_extension_group_on_init_done self =
     (if et_is_close_triggered self then self
      else self\<lparr>et_state := TEN_EXTENSION_THREAD_STATE_CREATING_EXTENSIONS, et_creating := True\<rparr>)"

text \<open>The instances have been created; those that failed are left out.\<close>

definition ten_extension_thread_add_extension :: "ext_thread \<Rightarrow> life \<Rightarrow> ext_thread run" where
  "ten_extension_thread_add_extension self x =
     do { ten_assert (lf_name x \<notin> set (et_store self));
          Some (self\<lparr>et_store := et_store self @ [lf_name x]\<rparr>) }"

fun add_extensions :: "ext_thread \<Rightarrow> life list \<Rightarrow> ext_thread run" where
  "add_extensions self [] = Some self"
| "add_extensions self (x # xs) =
     do { self \<leftarrow> ten_extension_thread_add_extension self x; add_extensions self xs }"

definition ten_extension_thread_add_all_created_extensions :: "ext_thread \<Rightarrow> ext_thread run" where
  "ten_extension_thread_add_all_created_extensions self =
     do { self \<leftarrow> add_extensions self (et_extensions self); Some (emit self Find_extension_info) }"

definition ten_extension_group_on_create_extensions_done :: "ext_thread \<Rightarrow> life option list \<Rightarrow> ext_thread run" where
  "ten_extension_group_on_create_extensions_done self extensions =
     ten_extension_thread_add_all_created_extensions
       (self\<lparr>et_creating := False, et_extensions := List.map_filter id extensions\<rparr>)"

text \<open>
  The engine looks up what the graph says of the new extensions, and tells the thread to start them,
  or to stop them when the thread has been asked to close in the meantime.
\<close>

definition ten_engine_find_extension_info ::
  "(string \<Rightarrow> extension_info option) \<Rightarrow> ext_thread \<Rightarrow> ext_thread" where
  "ten_engine_find_extension_info infos self =
     (let self = self\<lparr>et_out := remove1 Find_extension_info (et_out self),
            et_extensions := map (\<lambda>x. x\<lparr>lf_ext := (lf_ext x)\<lparr>ex_extension_info := infos (lf_name x)\<rparr>\<rparr>) (et_extensions self)\<rparr>
      in post self (if et_is_close_triggered self then Stop_life_cycle_task else Start_life_cycle_task))"

definition ten_extension_group_on_destroy_extensions_done :: "ext_thread \<Rightarrow> ext_thread" where
  "ten_extension_group_on_destroy_extensions_done self = post self All_extensions_deleted_task"

definition ten_extension_group_destroy_extensions :: "ext_thread \<Rightarrow> ext_thread" where
  "ten_extension_group_destroy_extensions self =
     (if et_extensions self = [] then ten_extension_group_on_destroy_extensions_done self
      else self\<lparr>et_being_destroyed := length (et_extensions self)\<rparr>)"

text \<open>An addon has destroyed one of the instances.\<close>

definition on_addon_destroy_instance_done :: "ext_thread \<Rightarrow> ext_thread" where
  "on_addon_destroy_instance_done self =
     (let self = self\<lparr>et_being_destroyed := et_being_destroyed self - 1\<rparr>
      in if et_being_destroyed self = 0 then ten_extension_group_on_destroy_extensions_done self else self)"

definition ten_extension_thread_del_extension :: "ext_thread \<Rightarrow> string \<Rightarrow> ext_thread" where
  "ten_extension_thread_del_extension self name =
     (let self = self\<lparr>et_store := remove1 name (et_store self), et_deleted := et_deleted self + 1\<rparr>
      in if et_deleted self = length (et_extensions self) then ten_extension_group_destroy_extensions self else self)"

definition ten_extension_thread_on_all_extensions_deleted :: "ext_thread \<Rightarrow> ext_thread" where
  "ten_extension_thread_on_all_extensions_deleted self = ten_extension_group_on_deinit (self\<lparr>et_extensions := []\<rparr>)"

section \<open>Starting and stopping the extensions\<close>

definition ten_extension_thread_start_life_cycle ::
  "ext_thread \<Rightarrow> ext_thread \<times> thread_action list" where
  "ten_extension_thread_start_life_cycle self =
     (if et_is_close_triggered self then (self, [])
      else (self\<lparr>et_state := TEN_EXTENSION_THREAD_STATE_NORMAL\<rparr>, map (\<lambda>x. Load_metadata (lf_name x)) (et_extensions self)))"

definition ten_extension_thread_stop_life_cycle_of_all_extensions ::
  "ext_thread \<Rightarrow> ext_thread \<times> thread_action list" where
  "ten_extension_thread_stop_life_cycle_of_all_extensions self =
     (let self = self\<lparr>et_state := TEN_EXTENSION_THREAD_STATE_PREPARE_TO_CLOSE\<rparr>
      in if et_extensions self = [] then (ten_extension_group_on_deinit self, [])
         else (self, map (\<lambda>x. Stop_if_done (lf_name x)) (et_extensions self)))"

text \<open>The body of its loop.\<close>

definition stop_if_done :: "ext_thread \<Rightarrow> string \<Rightarrow> (ext_thread \<times> thread_action list) run" where
  "stop_if_done self name =
     do { x \<leftarrow> get_life self name;
          ten_assert (lf_state x < TEN_EXTENSION_STATE_ON_STOP);
          if lf_state x \<in> {TEN_EXTENSION_STATE_ON_CONFIGURE_DONE, TEN_EXTENSION_STATE_ON_INIT_DONE,
                            TEN_EXTENSION_STATE_ON_START_DONE}
          then Some (lived self name (ten_extension_on_stop x)) else Some (self, []) }"

definition ten_extension_thread_on_triggering_close :: "ext_thread \<Rightarrow> (ext_thread \<times> thread_action list) run" where
  "ten_extension_thread_on_triggering_close self =
     (if et_is_close_triggered self then Some (self, [])
      else let self = self\<lparr>et_is_close_triggered := True\<rparr>
           in case et_state self of
                TEN_EXTENSION_THREAD_STATE_INIT \<Rightarrow> Some (ten_extension_group_on_deinit self, [])
              | TEN_EXTENSION_THREAD_STATE_CREATING_EXTENSIONS \<Rightarrow> Some (self, [])
              | TEN_EXTENSION_THREAD_STATE_NORMAL \<Rightarrow>
                  Some (ten_extension_thread_stop_life_cycle_of_all_extensions self)
              | _ \<Rightarrow> None)"

section \<open>What an extension calls\<close>

definition sent ::
  "ext_thread \<Rightarrow> string \<Rightarrow> life \<Rightarrow> (bool \<times> ten_error option \<times> ten_extension \<times> effect list) run \<Rightarrow>
   (ext_thread \<times> thread_action list) run" where
  "sent self name x r =
     do { (_, _, ext, effects) \<leftarrow> r;
          Some (lived self name (x\<lparr>lf_ext := ext\<rparr>, map Msg_effect effects)) }"

fun call_api ::
  "thread_env \<Rightarrow> ext_thread \<Rightarrow> string \<Rightarrow> life \<Rightarrow> api_call \<Rightarrow> (ext_thread \<times> thread_action list) run" where
  "call_api te self name x (Send_cmd msg handler user_data multiple) =
     sent self name x (ten_env_send_cmd (te_call te) (lf_ext x) msg handler user_data multiple)"
| "call_api te self name x (Send_data msg handler user_data) =
     sent self name x (ten_env_send_data (te_call te) (lf_ext x) msg handler user_data)"
| "call_api te self name x (Send_video_frame msg handler user_data) =
     sent self name x (ten_env_send_video_frame (te_call te) (lf_ext x) msg handler user_data)"
| "call_api te self name x (Send_audio_frame msg handler user_data) =
     sent self name x (ten_env_send_audio_frame (te_call te) (lf_ext x) msg handler user_data)"
| "call_api te self name x (Return_result r) = sent self name x (ten_env_return_result (te_call te) (lf_ext x) r)"
| "call_api te self name x Configure_done =
     map_option (\<lambda>r. lived self name (snd r))
       (ten_extension_on_configure_done (ce_host (te_call te)) (et_is_close_triggered self) (te_metadata te name) x)"
| "call_api te self name x Init_done =
     map_option (\<lambda>r. lived_pending self name (snd r))
       (ten_extension_on_init_done (et_is_close_triggered self) (et_pending self) x)"
| "call_api te self name x Start_done =
     Some (lived self name (snd (ten_extension_on_start_done (et_is_close_triggered self) x)))"
| "call_api te self name x Stop_done = Some (lived self name (snd (ten_extension_on_stop_done x)))"
| "call_api te self name x Deinit_done = Some (lived self name (snd (ten_extension_on_deinit_done x)))"
| "call_api te self name x Create_proxy = Some (lived self name (ten_env_add_ten_proxy x, []))"
| "call_api te self name x Release_proxy = Some (self, [Ext name (Post Proxy_deleted)])"

section \<open>Performing the calls and the tasks\<close>

text \<open>The code behind a callback is not modelled: performing the call alone changes nothing.\<close>

fun perform_effect ::
  "thread_env \<Rightarrow> ext_thread \<Rightarrow> string \<Rightarrow> effect \<Rightarrow> (ext_thread \<times> thread_action list) run" where
  "perform_effect te self name (Dispatch msg) = ten_extension_thread_dispatch_msg self msg"
| "perform_effect te self name (To_engine msg) = Some (ten_engine_append_to_in_msgs_queue self msg, [])"
| "perform_effect te self name (Deliver msg) =
     do { x \<leftarrow> get_life self name;
          (ext, effects) \<leftarrow> ten_extension_on_msg (te_call te) (lf_ext x) msg;
          Some (lived self name (x\<lparr>lf_ext := ext\<rparr>, map Msg_effect effects)) }"
| "perform_effect te self name (On_msg msg) = Some (self, [])"
| "perform_effect te self name (On_result handler user_data r) = Some (self, [])"

fun perform :: "thread_env \<Rightarrow> ext_thread \<Rightarrow> thread_action \<Rightarrow> (ext_thread \<times> thread_action list) run" where
  "perform te self (Ext name (Callback c)) = Some (self, [])"
| "perform te self (Ext name (Handle_in msg)) =
     do { x \<leftarrow> get_life self name;
          (ext, effects) \<leftarrow> ten_extension_handle_in_msg (te_call te) (lf_ext x) msg;
          Some (lived self name (x\<lparr>lf_ext := ext\<rparr>, map Msg_effect effects)) }"
| "perform te self (Ext name (Post task)) = Some (post self (Ext_task name task), [])"
| "perform te self (Ext name Release_check) =
     do { x \<leftarrow> get_life self name;
          r \<leftarrow> ten_extension_on_ten_env_proxy_released (et_pending self) x;
          Some (lived_pending self name r) }"
| "perform te self (Ext name (Msg_effect e)) = perform_effect te self name e"
| "perform te self (Api name call) = do { x \<leftarrow> get_life self name; call_api te self name x call }"
| "perform te self (Load_metadata name) =
     do { x \<leftarrow> get_life self name;
          r \<leftarrow> ten_extension_on_configure (ce_host (te_call te)) (et_is_close_triggered self) (te_metadata te name) x;
          Some (lived self name r) }"
| "perform te self (Stop_if_done name) = stop_if_done self name"

fun run_life_task ::
  "ext_thread \<Rightarrow> string \<Rightarrow> life_task \<Rightarrow> (ext_thread \<times> thread_action list) run" where
  "run_life_task self name Trigger_on_init =
     do { x \<leftarrow> get_life self name;
          r \<leftarrow> ten_extension_on_init (et_is_close_triggered self) (et_pending self) x;
          Some (lived_pending self name r) }"
| "run_life_task self name Trigger_on_start =
     do { x \<leftarrow> get_life self name; Some (lived self name (ten_extension_on_start (et_is_close_triggered self) x)) }"
| "run_life_task self name (Timer_stop timer) = Some (self, [])"
| "run_life_task self name (Timer_close timer) =
     Some (self\<lparr>et_closing_timers := et_closing_timers self @ [(name, timer)]\<rparr>, [])"
| "run_life_task self name Del_extension =
     do { x \<leftarrow> get_life self name; Some (ten_extension_thread_del_extension self name, []) }"
| "run_life_task self name Proxy_deleted =
     do { x \<leftarrow> get_life self name;
          r \<leftarrow> ten_env_delete_ten_proxy (et_pending self) x;
          Some (lived_pending self name r) }"

fun run_task :: "ext_thread \<Rightarrow> thread_task \<Rightarrow> (ext_thread \<times> thread_action list) run" where
  "run_task self (Ext_task name task) = run_life_task self name task"
| "run_task self (Handle_in_msg_task msg) = ten_extension_thread_handle_in_msg_task self msg"
| "run_task self Handle_start_msg_task = Some (post self Group_init_done_task, [])"
| "run_task self Group_init_done_task = Some (ten_extension_thread_on_extension_group_on_init_done self, [])"
| "run_task self Triggering_close_task = ten_extension_thread_on_triggering_close self"
| "run_task self Start_life_cycle_task = Some (ten_extension_thread_start_life_cycle self)"
| "run_task self Stop_life_cycle_task = Some (ten_extension_thread_stop_life_cycle_of_all_extensions self)"
| "run_task self All_extensions_deleted_task = Some (ten_extension_thread_on_all_extensions_deleted self, [])"
| "run_task self Group_deinit_done_task = Some (emit self Remove_from_engine, [])"
| "run_task self Removed_from_engine_task =
     Some (emit (self\<lparr>et_state := TEN_EXTENSION_THREAD_STATE_CLOSED\<rparr>) Extension_thread_closed, [])"

definition trigger_timer ::
  "ext_thread \<Rightarrow> string \<Rightarrow> path_timer \<Rightarrow> 64 word \<Rightarrow> (ext_thread \<times> thread_action list) run" where
  "trigger_timer self name timer now =
     do { x \<leftarrow> get_life self name;
          Some (lived self name (ten_extension_path_timer_on_triggered timer now x)) }"

definition timer_closed :: "ext_thread \<Rightarrow> string \<Rightarrow> path_timer \<Rightarrow> (ext_thread \<times> thread_action list) run" where
  "timer_closed self name timer =
     do { x \<leftarrow> get_life self name;
          Some (lived (self\<lparr>et_closing_timers := remove1 (name, timer) (et_closing_timers self)\<rparr>) name
                  (ten_extension_on_timer_closed timer x)) }"

section \<open>Runs\<close>

text \<open>Where the code of an extension runs, and which one.\<close>

fun user_code :: "thread_action \<Rightarrow> string option" where
  "user_code (Ext name (Callback _)) = Some name"
| "user_code (Ext name (Msg_effect (On_msg _))) = Some name"
| "user_code (Ext name (Msg_effect (On_result _ _ _))) = Some name"
| "user_code _ = None"

text \<open>
  What the code of an extension has to respect, which nothing checks: it does not create a proxy once its
  environment is closed, and it releases a proxy once.
\<close>

definition proxies_released :: "ext_thread \<Rightarrow> string \<Rightarrow> nat" where
  "proxies_released self name =
     count_list (et_runloop self) (Ext_task name Proxy_deleted) + count_list (et_agenda self) (Ext name (Post Proxy_deleted))"

fun allowed :: "ext_thread \<Rightarrow> thread_action \<Rightarrow> bool" where
  "allowed self (Api name Create_proxy) =
     (case get_life self name of None \<Rightarrow> True | Some x \<Rightarrow> \<not> ex_env_closed (lf_ext x))"
| "allowed self (Api name Release_proxy) =
     (case get_life self name of None \<Rightarrow> True | Some x \<Rightarrow> proxies_released self name < lf_proxies x)"
| "allowed self _ = True"

text \<open>An instance as an addon creates it.\<close>

definition created_life :: "life \<Rightarrow> bool" where
  "created_life x \<longleftrightarrow> lf_state x = TEN_EXTENSION_STATE_INIT \<and> lf_path_timers x = [] \<and> lf_proxies x = 0 \<and>
     \<not> ex_env_closed (lf_ext x) \<and> ex_pending (lf_ext x) = []"

text \<open>
  The steps of a thread: the first call of the agenda is performed, where it is a callback or a result
  handler with any calls its code makes; with nothing left to do, the next task of the run loop, an
  event of a timer or an addon, or a call an extension makes later on its own. The engine posts messages
  and asks the thread to close whenever it likes, and answers what the thread has told it. A timer that
  is being stopped may fire here once more, which the real one does not.
\<close>

inductive thread_step :: "ext_thread \<Rightarrow> ext_thread \<Rightarrow> bool" where
  perform: "et_agenda self = a # rest \<Longrightarrow> perform te (self\<lparr>et_agenda := rest\<rparr>) a = Some (self', actions) \<Longrightarrow>
    allowed self a \<Longrightarrow> calls = [] \<or> user_code a = Some name \<Longrightarrow>
    thread_step self (self'\<lparr>et_agenda := actions @ map (Api name) calls @ rest\<rparr>)"
| task: "et_agenda self = [] \<Longrightarrow> et_runloop self = k # ks \<Longrightarrow>
    run_task (self\<lparr>et_runloop := ks\<rparr>) k = Some (self', actions) \<Longrightarrow>
    thread_step self (self'\<lparr>et_agenda := actions\<rparr>)"
| timer: "et_agenda self = [] \<Longrightarrow> get_life self name = Some x \<Longrightarrow> timer \<in> set (lf_path_timers x) \<Longrightarrow>
    trigger_timer self name timer now = Some (self', actions) \<Longrightarrow>
    thread_step self (self'\<lparr>et_agenda := actions\<rparr>)"
| closed: "et_agenda self = [] \<Longrightarrow> (name, timer) \<in> set (et_closing_timers self) \<Longrightarrow>
    timer_closed self name timer = Some (self', actions) \<Longrightarrow>
    thread_step self (self'\<lparr>et_agenda := actions\<rparr>)"
| later: "et_agenda self = [] \<Longrightarrow> name \<in> set (et_store self) \<Longrightarrow>
    thread_step self (self\<lparr>et_agenda := [Api name call]\<rparr>)"
| created: "et_agenda self = [] \<Longrightarrow> et_creating self \<Longrightarrow> \<forall>x \<in> set xs. \<forall>l \<in> set_option x. created_life l \<Longrightarrow>
    ten_extension_group_on_create_extensions_done self xs = Some self' \<Longrightarrow> thread_step self self'"
| destroyed: "et_agenda self = [] \<Longrightarrow> 0 < et_being_destroyed self \<Longrightarrow>
    thread_step self (on_addon_destroy_instance_done self)"
| arrive: "thread_step self (post self (Handle_in_msg_task msg))"
| close: "thread_step self (post self Triggering_close_task)"
| looked_up: "Find_extension_info \<in> set (et_out self) \<Longrightarrow>
    thread_step self (ten_engine_find_extension_info infos self)"
| removed: "Remove_from_engine \<in> set (et_out self) \<Longrightarrow>
    thread_step self (post (self\<lparr>et_out := remove1 Remove_from_engine (et_out self)\<rparr>) Removed_from_engine_task)"

inductive thread_reachable :: "ext_thread \<Rightarrow> bool" where
  started: "thread_reachable (ten_extension_thread_main_actual (ten_extension_thread_create engine grp groups))"
| stepped: "thread_reachable self \<Longrightarrow> thread_step self self' \<Longrightarrow> thread_reachable self'"

end
