(* ===== verification/Thread_Order.thy ===== *)
theory Thread_Order
  imports Extension_Thread "HOL-Library.Sublist"
begin

text \<open>
  The runs of an extension thread as a step relation, and the order of the life cycle callbacks in every
  run: the invariant on what is pending for an extension in each of its states, its preservation, and
  the states in which the closing of a thread goes wrong.
\<close>

section \<open>What messages leave alone\<close>

definition same_life :: "ten_extension \<Rightarrow> ten_extension \<Rightarrow> bool" where
  "same_life a b \<longleftrightarrow> ex_name b = ex_name a \<and> ex_state b = ex_state a \<and> ex_env_closed b = ex_env_closed a \<and>
     ex_engine b = ex_engine a"

lemma same_life_refl [simp]: "same_life a a"
  by (simp add: same_life_def)

lemma same_life_trans: "same_life a b \<Longrightarrow> same_life b c \<Longrightarrow> same_life a c"
  by (simp add: same_life_def)

lemma same_life_update [simp]:
  "same_life a (b\<lparr>ex_path_table := pt\<rparr>) \<longleftrightarrow> same_life a b"
  "same_life a (b\<lparr>ex_extension_info := info\<rparr>) \<longleftrightarrow> same_life a b"
  "same_life a (b\<lparr>ex_not_connected := nc\<rparr>) \<longleftrightarrow> same_life a b"
  "same_life a (b\<lparr>ex_pending := p\<rparr>) \<longleftrightarrow> same_life a b"
  by (simp_all add: same_life_def)

lemma process_result_same: "process_result self type r = Some (out, self') \<Longrightarrow> same_life self self'"
  by (auto simp: process_result_def split: bind_splits if_splits)

lemma record_cmds_same: "record_cmds e self msgs policy = Some (self', msgs') \<Longrightarrow> same_life self self'"
  by (auto simp: record_cmds_def split: bind_splits)

lemma dispatch_same:
  "ten_extension_dispatch_msg e self msg policy = Some (ok, err, self', effects) \<Longrightarrow> same_life self self'"
  unfolding ten_extension_dispatch_msg_def
  by (auto simp: same_life_def split: bind_splits if_splits option.splits sum.splits ten_msg.splits
      dest!: process_result_same record_cmds_same)

lemma return_same: "ten_env_return_result e self r = Some (ok, err, self', effects) \<Longrightarrow> same_life self self'"
  by (auto simp: ten_env_return_result_def ten_env_return_result_internal_def dest: dispatch_same split: if_splits)

lemma increment_same: "same_life a (snd (ten_extension_increment_msg_not_connected_count b name)) \<longleftrightarrow> same_life a b"
  by (simp add: ten_extension_increment_msg_not_connected_count_def Let_def)

lemma send_internal_same:
  "ten_env_send_msg_internal e self msg h d policy = Some (ok, err, self', effects) \<Longrightarrow> same_life self self'"
  unfolding ten_env_send_msg_internal_def
  by (auto simp: Let_def increment_same split: bind_splits if_splits dest!: dispatch_same)

lemma send_same:
  "ten_env_send_cmd e self msg h d multiple = Some (ok, err, self', effects) \<Longrightarrow> same_life self self'"
  "ten_env_send_data e self msg h d = Some (ok, err, self', effects) \<Longrightarrow> same_life self self'"
  "ten_env_send_video_frame e self msg h d = Some (ok, err, self', effects) \<Longrightarrow> same_life self self'"
  "ten_env_send_audio_frame e self msg h d = Some (ok, err, self', effects) \<Longrightarrow> same_life self self'"
  by (auto simp: ten_env_send_cmd_def ten_env_send_data_def ten_env_send_video_frame_def ten_env_send_audio_frame_def
      split: if_splits bind_splits dest: send_internal_same)

lemma validate_in_same:
  "ten_extension_validate_in e self msg = Some (pass, self', msg', effects) \<Longrightarrow> same_life self self'"
  unfolding ten_extension_validate_in_def
  by (auto simp: Let_def split: bind_splits option.splits ten_msg.splits dest!: return_same)

lemma validate_all_same:
  "validate_all e self msgs = Some (pass, self', msgs', effects) \<Longrightarrow> same_life self self'"
proof (induction msgs arbitrary: self pass self' msgs' effects)
  case (Cons m ms)
  from Cons.prems obtain pass1 self1 m1 effects1 where
    v: "ten_extension_validate_in e self m = Some (pass1, self1, m1, effects1)" by (auto split: bind_splits)
  show ?case
  proof (cases pass1)
    case True
    with Cons.prems v obtain ms2 effects2 pass2 where
      "validate_all e self1 ms = Some (pass2, self', ms2, effects2)" by (auto split: bind_splits)
    from Cons.IH [OF this] validate_in_same [OF v] show ?thesis by (rule same_life_trans [rotated])
  next
    case False
    with Cons.prems v validate_in_same [OF v] show ?thesis by simp
  qed
qed simp

lemma converted_same: "converted_msgs e self msg = Some (self', msgs) \<Longrightarrow> same_life self self'"
  by (auto simp: converted_msgs_def split: if_splits bind_splits)

lemma handle_in_same:
  assumes "ten_extension_handle_in_msg e self msg = Some (self', effects)"
  shows "same_life self self'"
proof -
  have arrived: "handle_arrived e self msg = Some (self', effects) \<Longrightarrow> same_life self self'"
    by (auto simp: handle_arrived_def same_life_def Let_def split: bind_splits if_splits
        dest!: converted_same validate_all_same)
  have delivered: "deliver_result e x r = Some (self', effects) \<Longrightarrow> same_life x self'" for x r
    by (auto simp: deliver_result_def split: if_splits bind_splits dest: return_same)
  show ?thesis
    using assms arrived unfolding ten_extension_handle_in_msg_def
    by (auto simp: same_life_def split: if_splits bind_splits ten_msg.splits option.splits
        dest!: process_result_same validate_in_same delivered)
qed

lemma on_msg_same: "ten_extension_on_msg e self msg = Some (self', effects) \<Longrightarrow> same_life self self'"
  unfolding ten_extension_on_msg_def
  by (auto split: ten_msg.splits if_splits bind_splits dest!: return_same send_internal_same)

section \<open>What the functions of the life cycle promise\<close>

text \<open>The number of the state in which a callback is called.\<close>

fun stage :: "life_callback \<Rightarrow> nat" where
  "stage On_configure = 1"
| "stage On_init = 3"
| "stage On_start = 5"
| "stage On_stop = 7"
| "stage On_deinit = 9"

definition posts :: "life_action list \<Rightarrow> life_task list" where
  "posts actions = concat (map (\<lambda>a. case a of Post k \<Rightarrow> [k] | _ \<Rightarrow> []) actions)"

definition stages :: "life_action list \<Rightarrow> nat list" where
  "stages actions = concat (map (\<lambda>a. case a of Callback c \<Rightarrow> [stage c] | _ \<Rightarrow> []) actions)"

lemma posts_simps [simp]:
  "posts [] = []" "posts (a # as) = (case a of Post k \<Rightarrow> [k] | _ \<Rightarrow> []) @ posts as" "posts (as @ bs) = posts as @ posts bs"
  by (simp_all add: posts_def)

lemma stages_simps [simp]:
  "stages [] = []" "stages (a # as) = (case a of Callback c \<Rightarrow> [stage c] | _ \<Rightarrow> []) @ stages as"
  "stages (as @ bs) = stages as @ stages bs"
  by (simp_all add: stages_def)

lemma no_posts [simp]:
  "posts (map Msg_effect es) = []" "posts (map Handle_in ms) = []" "posts (map (\<lambda>r. Handle_in (f r)) rs) = []"
  "stages (map Msg_effect es) = []" "stages (map Handle_in ms) = []" "stages (map (\<lambda>r. Handle_in (f r)) rs) = []"
  by (simp_all add: posts_def stages_def comp_def)

lemma timer_posts [simp]:
  "posts (concat (map (\<lambda>timer. [Post (Timer_stop timer), Post (Timer_close timer)]) ts)) =
   concat (map (\<lambda>timer. [Timer_stop timer, Timer_close timer]) ts)"
  "stages (concat (map (\<lambda>timer. [Post (Timer_stop timer), Post (Timer_close timer)]) ts)) = []"
  by (induction ts) simp_all

lemma count_timer_posts [simp]:
  "count_list (concat (map (\<lambda>timer. [Timer_stop timer, Timer_close timer]) ts)) k =
   (case k of Timer_stop t \<Rightarrow> count_list ts t | Timer_close t \<Rightarrow> count_list ts t | _ \<Rightarrow> 0)"
  by (induction ts) (auto split: life_task.split)

text \<open>
  A function that takes an extension on in its life cycle: the state never goes back, and every callback
  it calls belongs to a state it enters.
\<close>

definition moves :: "life \<Rightarrow> life \<times> life_action list \<Rightarrow> bool" where
  "moves x r \<longleftrightarrow> (case r of (x', actions) \<Rightarrow>
     lf_name x' = lf_name x \<and> lf_state x \<le> lf_state x' \<and> sorted_wrt (<) (stages actions) \<and>
     (\<forall>s \<in> set (stages actions). state_num (lf_state x) < s \<and> s \<le> state_num (lf_state x')))"

text \<open>
  What is pending for an extension in each state: before it stops, the task of its next stage, exactly
  when it has finished the previous one; after \<open>on_stop_done\<close>, the closing of each of its path timers.
\<close>

definition awaits :: "life \<Rightarrow> (life_task \<Rightarrow> nat) \<Rightarrow> bool" where
  "awaits x pending \<longleftrightarrow>
     (lf_state x < TEN_EXTENSION_STATE_ON_STOP \<longrightarrow>
        pending Trigger_on_init = of_bool (lf_state x = TEN_EXTENSION_STATE_ON_CONFIGURE_DONE) \<and>
        pending Trigger_on_start = of_bool (lf_state x = TEN_EXTENSION_STATE_ON_INIT_DONE)) \<and>
     (\<forall>timer. pending (Timer_close timer) =
        (if lf_state x = TEN_EXTENSION_STATE_ON_STOP_DONE then count_list (lf_path_timers x) timer else 0)) \<and>
     (lf_state x = TEN_EXTENSION_STATE_ON_STOP_DONE \<longrightarrow> lf_path_timers x \<noteq> []) \<and>
     (TEN_EXTENSION_STATE_ON_STOP_DONE < lf_state x \<longrightarrow> lf_path_timers x = [])"

definition and_posts :: "(life_task \<Rightarrow> nat) \<Rightarrow> life_action list \<Rightarrow> life_task \<Rightarrow> nat" where
  "and_posts pending actions k = pending k + count_list (posts actions) k"

lemma and_posts_none [simp]: "posts actions = [] \<Longrightarrow> and_posts pending actions = pending"
  by (simp add: and_posts_def fun_eq_iff)

lemma set_state_simps [simp]:
  "lf_state (lf_set_state x s) = s" "lf_name (lf_set_state x s) = lf_name x"
  "lf_path_timers (lf_set_state x s) = lf_path_timers x" "lf_on (lf_set_state x s) = lf_on x"
  "lf_proxies (lf_set_state x s) = lf_proxies x"
  by (simp_all add: lf_set_state_def)

lemmas state_order = less_eq_extension_state_def less_extension_state_def

definition keeps :: "life \<Rightarrow> life_task list \<Rightarrow> life \<times> life_action list \<Rightarrow> bool" where
  "keeps x done r \<longleftrightarrow> moves x r \<and> (lf_state x = TEN_EXTENSION_STATE_INIT \<longrightarrow> lf_state (fst r) = TEN_EXTENSION_STATE_INIT) \<and>
     (\<forall>pending. awaits x (\<lambda>k. pending k + count_list done k) \<longrightarrow> awaits (fst r) (and_posts pending (snd r)))"

lemma keepsD:
  assumes "keeps x done (x', actions)"
  shows "lf_name x' = lf_name x" "lf_state x \<le> lf_state x'" "sorted_wrt (<) (stages actions)"
    "s \<in> set (stages actions) \<Longrightarrow> state_num (lf_state x) < s \<and> s \<le> state_num (lf_state x')"
    "lf_state x = TEN_EXTENSION_STATE_INIT \<Longrightarrow> lf_state x' = TEN_EXTENSION_STATE_INIT"
    "awaits x (\<lambda>k. pending k + count_list done k) \<Longrightarrow> awaits x' (and_posts pending actions)"
  using assms by (auto simp: keeps_def moves_def)

lemma keeps_nothing: "lf_name x' = lf_name x \<Longrightarrow> lf_state x' = lf_state x \<Longrightarrow> lf_path_timers x' = lf_path_timers x \<Longrightarrow>
    posts actions = [] \<Longrightarrow> stages actions = [] \<Longrightarrow> keeps x [] (x', actions)"
  by (auto simp: keeps_def moves_def awaits_def and_posts_def)

text \<open>\<open>on_deinit\<close> and what follows, once the timers are closed.\<close>

definition deinits :: "life \<Rightarrow> life \<times> life_action list \<Rightarrow> bool" where
  "deinits x r \<longleftrightarrow> (case r of (x', actions) \<Rightarrow> lf_name x' = lf_name x \<and> lf_path_timers x' = lf_path_timers x \<and>
     TEN_EXTENSION_STATE_ON_DEINIT \<le> lf_state x' \<and> posts actions = [] \<and> sorted_wrt (<) (stages actions) \<and>
     (\<forall>s \<in> set (stages actions). s = stage On_deinit))"

lemma deinit_done_keeps: "keeps x [] (snd (ten_extension_on_deinit_done x))"
  by (auto simp: ten_extension_on_deinit_done_def ten_extension_flush_remaining_paths_def Let_def keeps_def moves_def
      awaits_def and_posts_def state_order)

lemma on_deinit_deinits: "deinits x (ten_extension_on_deinit x)"
  by (auto simp: ten_extension_on_deinit_def ten_extension_on_deinit_done_def ten_extension_flush_remaining_paths_def
      Let_def deinits_def state_order)

lemma count_list_remove1: "count_list (remove1 a xs) b = count_list xs b - of_bool (a = b)"
  by (induction xs) auto

lemma timer_closed_keeps:
  assumes timer: "timer \<in> set (lf_path_timers x)" and stopped: "lf_state x = TEN_EXTENSION_STATE_ON_STOP_DONE"
  shows "keeps x [Timer_close timer] (ten_extension_on_timer_closed timer x)"
proof (cases "remove1 timer (lf_path_timers x) = []")
  case True
  with timer have one: "lf_path_timers x = [timer]" by (cases "lf_path_timers x") (auto split: if_splits)
  obtain x' actions where d: "ten_extension_on_deinit (x\<lparr>lf_path_timers := []\<rparr>) = (x', actions)"
    by (cases "ten_extension_on_deinit (x\<lparr>lf_path_timers := []\<rparr>)")
  have eq: "ten_extension_on_timer_closed timer x = (x', actions)"
    by (simp add: ten_extension_on_timer_closed_def ten_extension_could_be_closed_def ten_extension_do_close_def one d)
  have "deinits (x\<lparr>lf_path_timers := []\<rparr>) (x', actions)" using on_deinit_deinits [of "x\<lparr>lf_path_timers := []\<rparr>"] d by simp
  then have after: "lf_name x' = lf_name x" "lf_path_timers x' = []" "TEN_EXTENSION_STATE_ON_DEINIT \<le> lf_state x'"
    "posts actions = []" "sorted_wrt (<) (stages actions)" "\<forall>s \<in> set (stages actions). s = 9"
    by (simp_all add: deinits_def)
  have "awaits x' (and_posts pending actions)" if "awaits x (\<lambda>k. pending k + count_list [Timer_close timer] k)" for pending
  proof -
    have "pending (Timer_close t) = 0" for t
      using that by (auto simp: awaits_def stopped one dest!: spec [of _ t] split: if_splits)
    with after show ?thesis by (auto simp: awaits_def and_posts_def state_order)
  qed
  with after show ?thesis unfolding eq by (auto simp: keeps_def moves_def stopped state_order simp del: count_list.simps)
next
  case False
  then show ?thesis
    using stopped
    by (auto simp: ten_extension_on_timer_closed_def ten_extension_could_be_closed_def keeps_def moves_def awaits_def
        and_posts_def count_list_remove1 state_order dest!: spec split: if_splits)
qed

lemma stop_done_keeps: "keeps x [] (snd (ten_extension_on_stop_done x))"
proof (cases "lf_state x = TEN_EXTENSION_STATE_ON_STOP")
  case False
  then show ?thesis by (simp add: ten_extension_on_stop_done_def keeps_nothing)
next
  case True
  let ?x = "lf_set_state x TEN_EXTENSION_STATE_ON_STOP_DONE"
  let ?posts = "concat (map (\<lambda>timer. [Post (Timer_stop timer), Post (Timer_close timer)]) (lf_path_timers x))"
  obtain x' actions where d: "ten_extension_on_deinit ?x = (x', actions)" by (cases "ten_extension_on_deinit ?x")
  have after: "lf_name x' = lf_name x" "lf_path_timers x' = lf_path_timers x" "TEN_EXTENSION_STATE_ON_DEINIT \<le> lf_state x'"
    "posts actions = []" "sorted_wrt (<) (stages actions)" "\<forall>s \<in> set (stages actions). s = 9"
    using on_deinit_deinits [of ?x] d by (simp_all add: deinits_def)
  have eq: "ten_extension_on_stop_done x = (True, if lf_path_timers x = [] then (x', actions) else (?x, ?posts))"
    using True by (simp add: ten_extension_on_stop_done_def ten_extension_do_pre_close_action_def
        ten_extension_could_be_closed_def ten_extension_do_close_def d Let_def)
  show ?thesis
  proof (cases "lf_path_timers x = []")
    case closed: True
    have "awaits x' (and_posts pending actions)" if "awaits x (\<lambda>k. pending k + count_list [] k)" for pending
      using that after closed True by (auto simp: awaits_def and_posts_def state_order)
    with after closed True show ?thesis unfolding eq by (auto simp: keeps_def moves_def state_order)
  next
    case False
    with True show ?thesis unfolding eq by (auto simp: keeps_def moves_def awaits_def and_posts_def state_order)
  qed
qed

lemma on_stop_keeps:
  assumes "lf_state x \<noteq> TEN_EXTENSION_STATE_INIT"
  shows "keeps x [] (ten_extension_on_stop x)"
proof (cases "TEN_EXTENSION_STATE_ON_STOP \<le> lf_state x")
  case True
  then show ?thesis by (simp add: ten_extension_on_stop_def keeps_nothing)
next
  case False
  then have lt: "lf_state x < TEN_EXTENSION_STATE_ON_STOP" by simp
  let ?x = "lf_set_state x TEN_EXTENSION_STATE_ON_STOP"
  have aw: "awaits ?x pending" if "awaits x pending" for pending
    using that lt by (auto simp: awaits_def state_order split: if_splits)
  show ?thesis
  proof (cases "lf_on x On_stop")
    case True
    with False lt aw assms show ?thesis
      by (auto simp: ten_extension_on_stop_def keeps_def moves_def state_order Let_def)
  next
    case off: False
    obtain x' actions where d: "snd (ten_extension_on_stop_done ?x) = (x', actions)"
      by (cases "snd (ten_extension_on_stop_done ?x)")
    from stop_done_keeps [of ?x] have "keeps ?x [] (x', actions)" by (simp add: d)
    note k = keepsD [OF this]
    have eq: "ten_extension_on_stop x = (x', actions)" using False off d by (simp add: ten_extension_on_stop_def Let_def)
    have "awaits x' (and_posts pending actions)" if "awaits x (\<lambda>k. pending k + count_list [] k)" for pending
      using k(6) [of pending] aw that by simp
    moreover have "lf_state x \<le> lf_state x'" using k(2) lt by (simp add: state_order)
    moreover have "state_num (lf_state x) < s \<and> s \<le> state_num (lf_state x')" if "s \<in> set (stages actions)" for s
      using k(4) [OF that] lt by (simp add: state_order)
    ultimately show ?thesis unfolding eq using k(1,3) assms by (simp add: keeps_def moves_def)
  qed
qed

lemma on_stop_set_state:
  "s < TEN_EXTENSION_STATE_ON_STOP \<Longrightarrow> lf_state x < TEN_EXTENSION_STATE_ON_STOP \<Longrightarrow>
   ten_extension_on_stop (lf_set_state x s) = ten_extension_on_stop x"
  by (simp add: ten_extension_on_stop_def lf_set_state_def state_order)

lemma start_done_keeps: "keeps x [] (snd (ten_extension_on_start_done closing x))"
proof (cases "lf_state x = TEN_EXTENSION_STATE_ON_START")
  case True
  have "keeps x [] (lf_set_state x TEN_EXTENSION_STATE_ON_START_DONE, [])"
    using True by (auto simp: keeps_def moves_def awaits_def state_order)
  moreover have "ten_extension_on_start_done closing x =
      (True, if closing then ten_extension_on_stop x else (lf_set_state x TEN_EXTENSION_STATE_ON_START_DONE, []))"
    using True by (simp add: ten_extension_on_start_done_def on_stop_set_state state_order)
  ultimately show ?thesis using on_stop_keeps [of x] True by simp
qed (simp add: ten_extension_on_start_done_def keeps_nothing)

text \<open>Entering a stage, and finishing it at once where there is no callback.\<close>

lemma keeps_enter:
  assumes "keeps (lf_set_state x s) [] r" "lf_state x < s" "lf_state x \<noteq> TEN_EXTENSION_STATE_INIT"
    and "\<And>pending. awaits x (\<lambda>k. pending k + count_list done k) \<Longrightarrow> awaits (lf_set_state x s) pending"
  shows "keeps x done r"
proof -
  obtain x' actions where r: "r = (x', actions)" by (cases r)
  note k = keepsD [OF assms(1) [unfolded r]]
  have "state_num (lf_state x) < a \<and> a \<le> state_num (lf_state x')" if "a \<in> set (stages actions)" for a
    using k(4) [OF that] assms(2) by (simp add: state_order)
  moreover have "lf_state x \<le> lf_state x'" using k(2) assms(2) by (simp add: state_order)
  ultimately show ?thesis
    using k(1,3,6) assms(3,4) by (auto simp: r keeps_def moves_def)
qed

lemma keeps_callback:
  assumes "lf_state x < s" "stage c = state_num s" "lf_state x \<noteq> TEN_EXTENSION_STATE_INIT"
    and "\<And>pending. awaits x (\<lambda>k. pending k + count_list done k) \<Longrightarrow> awaits (lf_set_state x s) pending"
  shows "keeps x done (lf_set_state x s, [Callback c])"
  using assms by (auto simp: keeps_def moves_def and_posts_def state_order)

lemma on_start_keeps:
  assumes "lf_state x = TEN_EXTENSION_STATE_ON_INIT_DONE \<or> TEN_EXTENSION_STATE_ON_STOP \<le> lf_state x"
  shows "keeps x [Trigger_on_start] (ten_extension_on_start closing x)"
proof (cases "TEN_EXTENSION_STATE_ON_STOP \<le> lf_state x")
  case True
  then show ?thesis by (auto simp: ten_extension_on_start_def keeps_def moves_def awaits_def and_posts_def split: if_splits)
next
  case False
  with assms have s: "lf_state x = TEN_EXTENSION_STATE_ON_INIT_DONE" by simp
  have aw: "awaits (lf_set_state x TEN_EXTENSION_STATE_ON_START) pending"
    if "awaits x (\<lambda>k. pending k + count_list [Trigger_on_start] k)" for pending
    using that by (auto simp: awaits_def s state_order)
  show ?thesis
  proof (cases "lf_on x On_start")
    case True
    have "keeps x [Trigger_on_start] (lf_set_state x TEN_EXTENSION_STATE_ON_START, [Callback On_start])"
      by (rule keeps_callback [OF _ _ _ aw]) (simp_all add: s state_order)
    with True False show ?thesis by (simp add: ten_extension_on_start_def Let_def)
  next
    case off: False
    have "keeps x [Trigger_on_start] (snd (ten_extension_on_start_done closing (lf_set_state x TEN_EXTENSION_STATE_ON_START)))"
      by (rule keeps_enter [OF start_done_keeps _ _ aw]) (simp_all add: s state_order)
    with off False show ?thesis by (simp add: ten_extension_on_start_def Let_def)
  qed
qed

lemma flush_keeps:
  assumes "ten_extension_flush_all_pending_msgs_received_in_init_stage pending x = Some (pending', x', actions)"
  shows "keeps x [] (x', actions)" "posts actions = []" "stages actions = []" "lf_state x' = lf_state x" "lf_name x' = lf_name x"
    "lf_path_timers x' = lf_path_timers x"
  using assms by (auto simp: ten_extension_flush_all_pending_msgs_received_in_init_stage_def Let_def
      simp flip: map_append intro!: keeps_nothing split: if_splits bind_splits)

lemma init_done_keeps:
  assumes "ten_extension_on_init_done closing pending x = Some (ok, pending', r)"
  shows "keeps x [] r"
proof (cases "lf_state x = TEN_EXTENSION_STATE_ON_INIT")
  case True
  let ?x = "lf_set_state x TEN_EXTENSION_STATE_ON_INIT_DONE"
  show ?thesis
  proof (cases closing)
    case closing: True
    have "ten_extension_on_stop ?x = ten_extension_on_stop x"
      by (rule on_stop_set_state) (simp_all add: True state_order)
    with assms True closing have "r = ten_extension_on_stop x" by (simp add: ten_extension_on_init_done_def)
    with on_stop_keeps [of x] True show ?thesis by simp
  next
    case False
    with assms True obtain p x' actions where
      f: "ten_extension_flush_all_pending_msgs_received_in_init_stage pending ?x = Some (p, x', actions)"
      and r: "r = (x', actions @ [Post Trigger_on_start])"
      by (auto simp: ten_extension_on_init_done_def Let_def split: bind_splits)
    note k = flush_keeps [OF f]
    show ?thesis
      unfolding r using k(2-6) True by (auto simp: keeps_def moves_def awaits_def and_posts_def state_order)
  qed
next
  case False
  with assms have "r = (x, [])" by (simp add: ten_extension_on_init_done_def)
  then show ?thesis by (simp add: keeps_nothing)
qed

lemma on_init_keeps:
  assumes run: "ten_extension_on_init closing pending x = Some (pending', r)"
    and "lf_state x = TEN_EXTENSION_STATE_ON_CONFIGURE_DONE \<or> TEN_EXTENSION_STATE_ON_STOP \<le> lf_state x"
  shows "keeps x [Trigger_on_init] r"
proof (cases "TEN_EXTENSION_STATE_ON_STOP \<le> lf_state x")
  case True
  with run have "r = (x, [])" by (simp add: ten_extension_on_init_def)
  with True show ?thesis by (auto simp: keeps_def moves_def awaits_def state_order split: if_splits)
next
  case False
  with assms(2) have s: "lf_state x = TEN_EXTENSION_STATE_ON_CONFIGURE_DONE" by simp
  have aw: "awaits (lf_set_state x TEN_EXTENSION_STATE_ON_INIT) pending"
    if "awaits x (\<lambda>k. pending k + count_list [Trigger_on_init] k)" for pending
    using that by (auto simp: awaits_def s state_order)
  show ?thesis
  proof (cases "lf_on x On_init")
    case True
    have "keeps x [Trigger_on_init] (lf_set_state x TEN_EXTENSION_STATE_ON_INIT, [Callback On_init])"
      by (rule keeps_callback [OF _ _ _ aw]) (simp_all add: s state_order)
    with True False run show ?thesis by (simp add: ten_extension_on_init_def Let_def)
  next
    case off: False
    with False run obtain ok where
      "ten_extension_on_init_done closing pending (lf_set_state x TEN_EXTENSION_STATE_ON_INIT) = Some (ok, pending', r)"
      by (auto simp: ten_extension_on_init_def Let_def)
    from init_done_keeps [OF this] show ?thesis
      by (rule keeps_enter [OF _ _ _ aw]) (simp_all add: s state_order)
  qed
qed

lemma configure_done_keeps:
  assumes "ten_extension_on_configure_done h closing metadata x = Some (ok, r)"
  shows "keeps x [] r"
proof (cases "lf_state x = TEN_EXTENSION_STATE_ON_CONFIGURE")
  case True
  let ?x = "lf_set_state x TEN_EXTENSION_STATE_ON_CONFIGURE_DONE"
  show ?thesis
  proof (cases closing)
    case closing: True
    have "ten_extension_on_stop ?x = ten_extension_on_stop x"
      by (rule on_stop_set_state) (simp_all add: True state_order)
    with assms True closing have "r = ten_extension_on_stop x" by (simp add: ten_extension_on_configure_done_def)
    with on_stop_keeps [of x] True show ?thesis by simp
  next
    case False
    with assms True have "lf_name (fst r) = lf_name x \<and> lf_state (fst r) = TEN_EXTENSION_STATE_ON_CONFIGURE_DONE \<and>
        snd r = [Post Trigger_on_init]"
      by (auto simp: ten_extension_on_configure_done_def Let_def lf_set_state_def
          ten_extension_adjust_and_validate_property_on_configure_done_def split: bind_splits)
    with True show ?thesis by (cases r) (auto simp: keeps_def moves_def awaits_def and_posts_def state_order)
  qed
next
  case False
  with assms have "r = (x, [])" by (simp add: ten_extension_on_configure_done_def)
  then show ?thesis by (simp add: keeps_nothing)
qed

text \<open>Configuring is the one step that leaves the initial state.\<close>

lemma on_configure_moves:
  assumes run: "ten_extension_on_configure h closing metadata x = Some r"
    and init: "lf_state x = TEN_EXTENSION_STATE_INIT" and aw: "awaits x pending"
  shows "moves x r \<and> awaits (fst r) (and_posts pending (snd r))"
proof -
  let ?x = "lf_set_state x TEN_EXTENSION_STATE_ON_CONFIGURE"
  have aw': "awaits ?x pending" using aw by (auto simp: awaits_def init state_order)
  show ?thesis
  proof (cases "lf_on x On_configure")
    case True
    with run have "r = (?x, [Callback On_configure])" by (simp add: ten_extension_on_configure_def Let_def init state_order)
    then show ?thesis using aw' by (simp add: moves_def init state_order)
  next
    case False
    with run obtain ok where "ten_extension_on_configure_done h closing metadata ?x = Some (ok, r)"
      by (auto simp: ten_extension_on_configure_def Let_def init state_order)
    from configure_done_keeps [OF this] obtain x' actions where r: "r = (x', actions)" "keeps ?x [] (x', actions)"
      by (cases r) simp
    note k = keepsD [OF r(2)]
    have "state_num (lf_state x) < a \<and> a \<le> state_num (lf_state x')" if "a \<in> set (stages actions)" for a
      using k(4) [OF that] by (simp add: init)
    with k(1,2,3) k(6) [of pending] aw' show ?thesis by (simp add: r moves_def init state_order)
  qed
qed

lemma deinit_done_rest_keeps:
  assumes "ten_extension_thread_on_extension_on_deinit_done pending x = Some (pending', r)"
  shows "keeps x [] r"
proof -
  from assms obtain p x' actions where
    f: "ten_extension_flush_all_pending_msgs_received_in_init_stage pending x = Some (p, x', actions)"
    and r: "r = (x', actions @ [Post Del_extension])"
    by (auto simp: ten_extension_thread_on_extension_on_deinit_done_def split: bind_splits)
  note k = flush_keeps [OF f]
  show ?thesis
    unfolding r using k(2-6) by (auto simp: keeps_def moves_def awaits_def and_posts_def)
qed

lemma released_keeps:
  assumes "ten_extension_on_ten_env_proxy_released pending x = Some (pending', r)"
  shows "keeps x [] r"
  using assms deinit_done_rest_keeps
  by (cases "lf_proxies x = 0") (auto simp: ten_extension_on_ten_env_proxy_released_def keeps_nothing)

lemma keeps_same_life:
  "same_life (lf_ext x) ext \<Longrightarrow> keeps x [] (x\<lparr>lf_ext := ext\<rparr>, map Msg_effect effects)"
  by (rule keeps_nothing) (simp_all add: same_life_def)

lemma delete_proxy_keeps:
  assumes "ten_env_delete_ten_proxy pending x = Some (pending', r)"
  shows "keeps x [Proxy_deleted] r"
proof -
  let ?x = "x\<lparr>lf_proxies := lf_proxies x - 1\<rparr>"
  have "keeps ?x [] r"
    using assms released_keeps [of pending ?x pending' r]
    by (auto simp: ten_env_delete_ten_proxy_def Let_def keeps_nothing split: if_splits bind_splits)
  moreover have "awaits ?x = awaits x" by (simp add: awaits_def fun_eq_iff)
  moreover have "awaits x (\<lambda>k. pending k + count_list [Proxy_deleted] k) \<longleftrightarrow> awaits x pending" for pending
    by (simp add: awaits_def)
  ultimately show ?thesis by (simp add: keeps_def moves_def)
qed

lemma timer_triggered_keeps: "keeps x [] (ten_extension_path_timer_on_triggered timer now x)"
  by (cases timer) (simp_all add: ten_extension_path_timer_on_triggered_def Let_def keeps_nothing)

section \<open>The invariant of a thread\<close>

definition pending_for :: "ext_thread \<Rightarrow> string \<Rightarrow> life_task \<Rightarrow> nat" where
  "pending_for t n k = count_list (et_runloop t) (Ext_task n k) + count_list (et_agenda t) (Ext n (Post k)) +
     (case k of Timer_close timer \<Rightarrow> count_list (et_closing_timers t) (n, timer) | _ \<Rightarrow> 0)"

definition loads :: "ext_thread \<Rightarrow> string \<Rightarrow> nat" where
  "loads t n = count_list (et_agenda t) (Load_metadata n)"

definition history :: "string \<Rightarrow> (string \<times> life_callback) list \<Rightarrow> nat list" where
  "history n called = map (\<lambda>p. stage (snd p)) (filter (\<lambda>p. fst p = n) called)"

text \<open>What is still to come before the extensions are created, and until they are started.\<close>

definition before_creation :: "ext_thread \<Rightarrow> nat" where
  "before_creation t = count_list (et_runloop t) Handle_start_msg_task + count_list (et_runloop t) Group_init_done_task +
     of_bool (et_creating t)"

definition before_start :: "ext_thread \<Rightarrow> nat" where
  "before_start t = before_creation t + count_list (et_out t) Find_extension_info +
     count_list (et_runloop t) Start_life_cycle_task + count_list (et_runloop t) Stop_life_cycle_task"

definition life_sound ::
  "life list \<Rightarrow> (string \<Rightarrow> life_task \<Rightarrow> nat) \<Rightarrow> (string \<Rightarrow> nat) \<Rightarrow> (string \<times> life_callback) list \<Rightarrow> bool" where
  "life_sound xs pending ls called \<longleftrightarrow> distinct (map lf_name xs) \<and> (\<forall>n. sorted_wrt (<) (history n called)) \<and>
     (\<forall>x \<in> set xs. awaits x (pending (lf_name x)) \<and> ls (lf_name x) \<le> 1 \<and>
        (ls (lf_name x) = 1 \<longrightarrow> lf_state x = TEN_EXTENSION_STATE_INIT) \<and>
        (\<forall>s \<in> set (history (lf_name x) called). s \<le> state_num (lf_state x)))"

definition thread_sound :: "ext_thread \<Rightarrow> bool" where
  "thread_sound t \<longleftrightarrow> life_sound (et_extensions t) (pending_for t) (loads t) (et_called t) \<and> before_start t \<le> 1 \<and>
     (before_start t = 1 \<longrightarrow> (\<forall>x \<in> set (et_extensions t). lf_state x = TEN_EXTENSION_STATE_INIT \<and> loads t (lf_name x) = 0)) \<and>
     (before_creation t = 1 \<longrightarrow> et_extensions t = [] \<and> et_called t = [] \<and> pending_for t = (\<lambda>_ _. 0) \<and> loads t = (\<lambda>_. 0))"

lemma get_life_Some: "get_life t n = Some x \<Longrightarrow> x \<in> set (et_extensions t) \<and> lf_name x = n"
  by (auto simp: get_life_def find_Some_iff)

lemma history_append [simp]: "history n (called @ called') = history n called @ history n called'"
  by (simp add: history_def)

lemma history_callbacks [simp]: "history m (callbacks_of n actions) = (if m = n then stages actions else [])"
  by (induction actions) (auto simp: history_def callbacks_of_def split: life_action.split)

lemma stages_append_sorted:
  "sorted_wrt (<) (xs @ ys) \<longleftrightarrow> sorted_wrt (<) xs \<and> sorted_wrt (<) ys \<and> (\<forall>x \<in> set xs. \<forall>y \<in> set ys. (x::nat) < y)"
  by (rule sorted_wrt_append)

text \<open>One extension goes on, with what it consumes and what it posts.\<close>

lemma life_sound_moves:
  assumes sound: "life_sound xs pending ls called" and x: "x \<in> set xs" "lf_name x = n"
    and moves: "moves x (x', actions)" and aw: "awaits x' (pending' n)"
    and ls: "ls' n \<le> 1" "ls' n = 1 \<longrightarrow> lf_state x' = TEN_EXTENSION_STATE_INIT"
    and others: "\<And>m. m \<noteq> n \<Longrightarrow> pending' m = pending m \<and> ls' m = ls m"
  shows "life_sound (map (\<lambda>y. if lf_name y = n then x' else y) xs) pending' ls' (called @ callbacks_of n actions)"
proof -
  have m: "lf_name x' = n" "lf_state x \<le> lf_state x'" "sorted_wrt (<) (stages actions)"
    "\<forall>s \<in> set (stages actions). state_num (lf_state x) < s \<and> s \<le> state_num (lf_state x')"
    using moves x by (simp_all add: moves_def)
  have names: "map lf_name (map (\<lambda>y. if lf_name y = n then x' else y) xs) = map lf_name xs"
    using m(1) by simp
  have h: "\<forall>s \<in> set (history n called). s \<le> state_num (lf_state x)" using sound x by (auto simp: life_sound_def)
  have sorted: "sorted_wrt (<) (history k (called @ callbacks_of n actions))" for k
  proof (cases "k = n")
    case True
    have "x < y" if "x \<in> set (history n called)" "y \<in> set (stages actions)" for x y
      using h m(4) that by (meson le_less_trans)
    with True show ?thesis using sound m(3) by (auto simp: life_sound_def sorted_wrt_append)
  qed (use sound in \<open>simp add: life_sound_def\<close>)
  have le: "\<forall>s \<in> set (history n (called @ callbacks_of n actions)). s \<le> state_num (lf_state x')"
    using h m(2,4) by (auto simp: state_order intro: order_trans)
  show ?thesis
    unfolding life_sound_def names
    using sound sorted aw ls le others m(1) by (auto simp: life_sound_def)
qed

lemma life_sound_keeps:
  assumes sound: "life_sound xs pending0 ls called" and x: "x \<in> set xs" "lf_name x = n"
    and keeps: "keeps x done (x', actions)"
    and pending0: "pending0 = pending(n := \<lambda>k. pending n k + count_list done k)"
    and pending': "pending' = pending(n := and_posts (pending n) actions)"
  shows "life_sound (map (\<lambda>y. if lf_name y = n then x' else y) xs) pending' ls (called @ callbacks_of n actions)"
proof (rule life_sound_moves [OF sound x])
  show "moves x (x', actions)" using keeps by (simp add: keeps_def)
  show "awaits x' (pending' n)"
    using keepsD(6) [OF keeps, of "pending n"] sound x by (auto simp: life_sound_def pending0 pending')
  show "ls n \<le> 1" "ls n = 1 \<longrightarrow> lf_state x' = TEN_EXTENSION_STATE_INIT"
    using sound x keepsD(5) [OF keeps] by (auto simp: life_sound_def)
qed (simp_all add: pending0 pending')

section \<open>What a call does to the thread\<close>

definition same_frame :: "ext_thread \<Rightarrow> ext_thread \<Rightarrow> bool" where
  "same_frame t t' \<longleftrightarrow> et_runloop t' = et_runloop t \<and> et_closing_timers t' = et_closing_timers t \<and>
     et_creating t' = et_creating t \<and> count_list (et_out t') Find_extension_info = count_list (et_out t) Find_extension_info"

definition idle :: "ext_thread \<Rightarrow> ext_thread \<Rightarrow> thread_action list \<Rightarrow> bool" where
  "idle t t' actions \<longleftrightarrow> same_frame t t' \<and> et_extensions t' = et_extensions t \<and> et_called t' = et_called t \<and>
     (\<forall>a \<in> set actions. case a of Ext n (Post k) \<Rightarrow> False | Load_metadata n \<Rightarrow> False | _ \<Rightarrow> True)"

definition goes_on :: "ext_thread \<Rightarrow> string \<Rightarrow> (life \<Rightarrow> life \<times> life_action list \<Rightarrow> bool) \<Rightarrow> ext_thread \<Rightarrow> thread_action list \<Rightarrow> bool" where
  "goes_on t n P t' actions \<longleftrightarrow> same_frame t t' \<and>
     (\<exists>x x' as. x \<in> set (et_extensions t) \<and> lf_name x = n \<and> P x (x', as) \<and> actions = map (Ext n) as \<and>
        et_extensions t' = map (\<lambda>y. if lf_name y = n then x' else y) (et_extensions t) \<and>
        et_called t' = et_called t @ callbacks_of n as)"

lemma goes_on_lived:
  "get_life t n = Some x \<Longrightarrow> P x r \<Longrightarrow> lived (t\<lparr>et_pending := pending\<rparr>) n r = (t', actions) \<Longrightarrow> goes_on t n P t' actions"
  unfolding goes_on_def
  by (rule conjI, (auto simp: lived_def put_life_def same_frame_def split: prod.splits)[1],
      rule exI [of _ x], rule exI [of _ "fst r"], rule exI [of _ "snd r"])
    (auto simp: lived_def put_life_def dest: get_life_Some split: prod.splits)

lemma goes_on_lived':
  "get_life t n = Some x \<Longrightarrow> P x r \<Longrightarrow> lived t n r = (t', actions) \<Longrightarrow> goes_on t n P t' actions"
  using goes_on_lived [of t n x P r "et_pending t"] by simp

lemma goes_on_lived_pending:
  "get_life t n = Some x \<Longrightarrow> P x (snd r) \<Longrightarrow> lived_pending t n r = (t', actions) \<Longrightarrow> goes_on t n P t' actions"
  by (cases r) (auto simp: lived_pending_def intro: goes_on_lived)

lemma emit_idle [simp]:
  "idle t (emit t (To_engine_queue m)) []" "idle t (emit t (To_app_queue m)) []" "idle t t []"
  by (simp_all add: idle_def same_frame_def emit_def)

lemma handle_in_msg_sync_idle:
  "ten_extension_thread_handle_in_msg_sync t m = Some (t', actions) \<Longrightarrow> idle t t' actions"
  by (auto simp: ten_extension_thread_handle_in_msg_sync_def ten_extension_thread_create_cmd_result_and_dispatch_def
      ten_engine_append_to_in_msgs_queue_def Let_def idle_def same_frame_def emit_def
      split: if_splits bind_splits ten_msg.splits msg_type.splits)

lemma dispatch_msg_idle:
  "ten_extension_thread_dispatch_msg t m = Some (t', actions) \<Longrightarrow> idle t t' actions"
  unfolding ten_extension_thread_dispatch_msg_def
  by (auto simp: ten_extension_thread_create_cmd_result_and_dispatch_def ten_app_push_to_in_msgs_queue_def
      ten_engine_append_to_in_msgs_queue_def Let_def
      split: if_splits bind_splits ten_msg.splits msg_type.splits option.splits dest: handle_in_msg_sync_idle)

abbreviation keeps_on :: "ext_thread \<Rightarrow> string \<Rightarrow> ext_thread \<Rightarrow> thread_action list \<Rightarrow> bool" where
  "keeps_on t n t' actions \<equiv> goes_on t n (\<lambda>x. keeps x []) t' actions"

lemma sent_keeps:
  assumes "get_life t n = Some x" "sent t n x r = Some (t', actions)"
    and "\<And>ok err ext effects. r = Some (ok, err, ext, effects) \<Longrightarrow> same_life (lf_ext x) ext"
  shows "keeps_on t n t' actions"
proof -
  obtain ok err ext effects where r: "r = Some (ok, err, ext, effects)"
    and l: "lived t n (x\<lparr>lf_ext := ext\<rparr>, map Msg_effect effects) = (t', actions)"
    using assms(2) by (auto simp: sent_def split: bind_splits)
  show ?thesis by (rule goes_on_lived' [OF assms(1) _ l]) (rule keeps_same_life [OF assms(3) [OF r]])
qed

lemma call_api_keeps:
  assumes x: "get_life t n = Some x" and run: "call_api te t n x call = Some (t', actions)"
    and names: "distinct (map lf_name (et_extensions t))"
  shows "keeps_on t n t' actions"
proof (cases call)
  case Configure_done
  with run obtain ok r where "ten_extension_on_configure_done (ce_host (te_call te)) (et_is_close_triggered t) (te_metadata te n) x = Some (ok, r)"
    "lived t n r = (t', actions)" by auto
  then show ?thesis using goes_on_lived' [OF x] configure_done_keeps by metis
next
  case Init_done
  with run obtain ok r where i: "ten_extension_on_init_done (et_is_close_triggered t) (et_pending t) x = Some (ok, r)"
    "lived_pending t n r = (t', actions)" by auto
  then have "keeps x [] (snd r)" using init_done_keeps [of _ _ x ok "fst r" "snd r"] by simp
  with i(2) show ?thesis by (intro goes_on_lived_pending [OF x])
next
  case Create_proxy
  have "keeps x [] (ten_env_add_ten_proxy x, [])" by (simp add: ten_env_add_ten_proxy_def keeps_nothing)
  with Create_proxy run show ?thesis by (auto intro: goes_on_lived' [OF x])
next
  case Release_proxy
  have "keeps x [] (x, [Post Proxy_deleted])" by (auto simp: keeps_def moves_def awaits_def and_posts_def)
  moreover have "et_extensions (put_life t n x) = et_extensions t"
    using get_life_Some [OF x] names by (auto simp: put_life_def distinct_map inj_on_def intro!: map_idI)
  ultimately show ?thesis
    using Release_proxy run get_life_Some [OF x]
    by (auto simp: goes_on_def same_frame_def put_life_def callbacks_of_def intro!: exI [of _ x] exI [of _ "[Post Proxy_deleted]"])
qed (use run x in \<open>auto intro: sent_keeps send_same return_same goes_on_lived' start_done_keeps stop_done_keeps
      deinit_done_keeps\<close>)

lemma perform_effect_shape:
  assumes "perform_effect te t n e = Some (t', actions)"
  shows "idle t t' actions \<or> keeps_on t n t' actions"
proof (cases e)
  case (Deliver msg)
  with assms obtain x ext effects where x: "get_life t n = Some x"
    and m: "ten_extension_on_msg (te_call te) (lf_ext x) msg = Some (ext, effects)"
    and l: "lived t n (x\<lparr>lf_ext := ext\<rparr>, map Msg_effect effects) = (t', actions)"
    by (auto split: bind_splits)
  have "keeps_on t n t' actions"
    by (rule goes_on_lived' [OF x _ l]) (rule keeps_same_life [OF on_msg_same [OF m]])
  then show ?thesis ..
qed (use assms in \<open>auto simp: ten_engine_append_to_in_msgs_queue_def intro: dispatch_msg_idle\<close>)

text \<open>All but the tasks that are posted and the configuration, which are treated on their own.\<close>

lemma perform_shape:
  assumes run: "perform te t a = Some (t', actions)" and names: "distinct (map lf_name (et_extensions t))"
    and a: "\<And>n k. a \<noteq> Ext n (Post k)" "\<And>n. a \<noteq> Load_metadata n"
  shows "idle t t' actions \<or> (\<exists>n. keeps_on t n t' actions)"
proof (cases a)
  case (Ext n l)
  show ?thesis
  proof (cases l)
    case (Handle_in msg)
    with Ext run obtain x ext effects where x: "get_life t n = Some x"
      and m: "ten_extension_handle_in_msg (te_call te) (lf_ext x) msg = Some (ext, effects)"
      and l: "lived t n (x\<lparr>lf_ext := ext\<rparr>, map Msg_effect effects) = (t', actions)"
      by (auto split: bind_splits)
    have "keeps_on t n t' actions"
      by (rule goes_on_lived' [OF x _ l]) (rule keeps_same_life [OF handle_in_same [OF m]])
    then show ?thesis by blast
  next
    case Release_check
    with Ext run obtain x r where x: "get_life t n = Some x"
      and r: "ten_extension_on_ten_env_proxy_released (et_pending t) x = Some r" and l: "lived_pending t n r = (t', actions)"
      by (auto split: bind_splits)
    from r have "keeps x [] (snd r)" using released_keeps [of "et_pending t" x "fst r" "snd r"] by simp
    then have "keeps_on t n t' actions" by (intro goes_on_lived_pending [OF x _ l])
    then show ?thesis by blast
  next
    case (Msg_effect e)
    with Ext run perform_effect_shape [of te t n e t' actions] show ?thesis by auto
  qed (use Ext run a in auto)
next
  case (Api n call)
  with run obtain x where "get_life t n = Some x" "call_api te t n x call = Some (t', actions)" by (auto split: bind_splits)
  from call_api_keeps [OF this names] show ?thesis by blast
next
  case (Stop_if_done n)
  with run obtain x where x: "get_life t n = Some x" and
    s: "if lf_state x \<in> {TEN_EXTENSION_STATE_ON_CONFIGURE_DONE, TEN_EXTENSION_STATE_ON_INIT_DONE, TEN_EXTENSION_STATE_ON_START_DONE}
        then lived t n (ten_extension_on_stop x) = (t', actions) else t' = t \<and> actions = []"
    by (auto simp: stop_if_done_def split: bind_splits if_splits)
  show ?thesis
  proof (cases "lf_state x \<in> {TEN_EXTENSION_STATE_ON_CONFIGURE_DONE, TEN_EXTENSION_STATE_ON_INIT_DONE, TEN_EXTENSION_STATE_ON_START_DONE}")
    case True
    then have "lf_state x \<noteq> TEN_EXTENSION_STATE_INIT" by auto
    from on_stop_keeps [OF this] have "keeps_on t n t' actions" using s True by (intro goes_on_lived' [OF x]) simp_all
    then show ?thesis by blast
  qed (use s in auto)
qed (use a in simp)

section \<open>The invariant holds in every run\<close>

lemma count_map_Ext [simp]:
  "count_list (map (Ext n) as) (Ext m (Post k)) = (if m = n then count_list (posts as) k else 0)"
  by (induction as) (auto split: life_action.split)

lemma count_map_others [simp]:
  "count_list (map (Api n) calls) (Ext m (Post k)) = 0" "count_list (map (Api n) calls) (Load_metadata m) = 0"
  "count_list (map (Ext n) as) (Load_metadata m) = 0"
  by (induction calls, simp_all) (induction as, simp_all)

lemma idle_counts:
  "idle t t' actions \<Longrightarrow> count_list actions (Ext n (Post k)) = 0" "idle t t' actions \<Longrightarrow> count_list actions (Load_metadata n) = 0"
  by (auto simp: idle_def count_list_0_iff)

lemma sound_idle:
  assumes "thread_sound t" "idle t0 t' actions"
    and "et_extensions t0 = et_extensions t" "et_called t0 = et_called t" "pending_for t0 = pending_for t" "loads t0 = loads t"
    and "before_start t0 \<le> before_start t" "before_creation t0 = 0 \<or> before_creation t0 = before_creation t"
  shows "thread_sound (t'\<lparr>et_agenda := actions @ map (Api m) calls @ et_agenda t0\<rparr>)" (is "thread_sound ?t")
proof -
  have i: "et_runloop t' = et_runloop t0" "et_closing_timers t' = et_closing_timers t0" "et_creating t' = et_creating t0"
    "count_list (et_out t') Find_extension_info = count_list (et_out t0) Find_extension_info"
    "et_extensions t' = et_extensions t" "et_called t' = et_called t"
    using assms(2-4) by (simp_all add: idle_def same_frame_def)
  have p: "pending_for ?t = pending_for t"
    unfolding assms(5) [symmetric] by (intro ext) (simp add: pending_for_def i idle_counts [OF assms(2)] split: life_task.split)
  have l: "loads ?t = loads t"
    unfolding assms(6) [symmetric] by (intro ext) (simp add: loads_def i idle_counts [OF assms(2)])
  have b: "before_start ?t = before_start t0" "before_creation ?t = before_creation t0"
    by (simp_all add: before_start_def before_creation_def i)
  from assms(1,7,8) show ?thesis
    by (auto simp: thread_sound_def b p l i)
qed

lemma sound_goes_on:
  assumes sound: "thread_sound t" and go: "goes_on t0 n (\<lambda>x. keeps x done) t' actions"
    and t0: "et_extensions t0 = et_extensions t" "et_called t0 = et_called t" "loads t0 = loads t"
    "pending_for t = (pending_for t0)(n := \<lambda>k. pending_for t0 n k + count_list done k)"
    "before_start t0 = before_start t" "before_creation t0 = before_creation t"
  shows "thread_sound (t'\<lparr>et_agenda := actions @ map (Api m) calls @ et_agenda t0\<rparr>)" (is "thread_sound ?t")
proof -
  obtain x x' as where x: "x \<in> set (et_extensions t)" "lf_name x = n" and k: "keeps x done (x', as)"
    and as: "actions = map (Ext n) as" and xs: "et_extensions t' = map (\<lambda>y. if lf_name y = n then x' else y) (et_extensions t)"
    and called: "et_called t' = et_called t @ callbacks_of n as" and f: "same_frame t0 t'"
    using go t0(1,2) by (auto simp: goes_on_def)
  have p: "pending_for ?t = (pending_for t0)(n := and_posts (pending_for t0 n) as)"
    using f by (auto simp: pending_for_def as and_posts_def same_frame_def fun_eq_iff split: life_task.split)
  have l: "loads ?t = loads t"
    unfolding t0(3) [symmetric] by (intro ext) (simp add: loads_def as)
  have b: "before_start ?t = before_start t" "before_creation ?t = before_creation t"
    using f t0(5,6) by (simp_all add: before_start_def before_creation_def same_frame_def)
  have "life_sound (et_extensions ?t) (pending_for ?t) (loads ?t) (et_called ?t)"
    using life_sound_keeps [OF _ x k t0(4) refl] sound by (simp add: thread_sound_def xs called p l)
  moreover have "before_start ?t \<le> 1" using sound b by (simp add: thread_sound_def)
  moreover have "\<forall>y \<in> set (et_extensions ?t). lf_state y = TEN_EXTENSION_STATE_INIT \<and> loads ?t (lf_name y) = 0"
    if "before_start ?t = 1"
  proof -
    have all: "\<forall>x \<in> set (et_extensions t). lf_state x = TEN_EXTENSION_STATE_INIT \<and> loads t (lf_name x) = 0"
      using sound that by (simp add: thread_sound_def b)
    with x keepsD(1,5) [OF k] show ?thesis by (auto simp: xs l)
  qed
  moreover have "before_creation ?t \<noteq> 1" using sound x by (auto simp: thread_sound_def b)
  ultimately show ?thesis by (simp add: thread_sound_def)
qed

lemma sound_view:
  assumes "thread_sound t" "et_extensions t' = et_extensions t" "et_called t' = et_called t" "pending_for t' = pending_for t"
    "loads t' = loads t" "before_start t' \<le> before_start t" "before_creation t' = 0 \<or> before_creation t' = before_creation t"
  shows "thread_sound t'"
  using assms by (auto simp: thread_sound_def)

lemma api_user_code: "user_code a = Some name \<Longrightarrow> perform te t a = Some (t', actions) \<Longrightarrow> actions = [] \<and> t' = t"
  by (induction a rule: user_code.induct) auto

lemma sound_perform:
  assumes sound: "thread_sound t" and agenda: "et_agenda t = a # rest"
    and run: "perform te (t\<lparr>et_agenda := rest\<rparr>) a = Some (t', actions)"
  shows "thread_sound (t'\<lparr>et_agenda := actions @ map (Api name) calls @ rest\<rparr>)" (is "thread_sound ?t")
proof -
  let ?old = "t\<lparr>et_agenda := rest\<rparr>"
  have names: "distinct (map lf_name (et_extensions ?old))" using sound by (simp add: thread_sound_def life_sound_def)
  have b: "before_start ?old = before_start t" "before_creation ?old = before_creation t"
    by (simp_all add: before_start_def before_creation_def)
  consider n k where "a = Ext n (Post k)" | n where "a = Load_metadata n"
    | "\<forall>n k. a \<noteq> Ext n (Post k)" "\<forall>n. a \<noteq> Load_metadata n" by blast
  then show ?thesis
  proof cases
    case 1
    then have t': "t' = post ?old (Ext_task n k)" "actions = []" using run by simp_all
    show ?thesis
    proof (rule sound_view [OF sound])
      show "pending_for ?t = pending_for t"
        by (intro ext) (simp add: pending_for_def t' post_def agenda 1 split: life_task.split)
      show "loads ?t = loads t" by (intro ext) (simp add: loads_def t' post_def agenda 1)
    qed (simp_all add: t' post_def before_start_def before_creation_def)
  next
    case 2
    from run 2 obtain x r where x: "get_life ?old n = Some x"
      and c: "ten_extension_on_configure (ce_host (te_call te)) (et_is_close_triggered t) (te_metadata te n) x = Some r"
      and l: "lived ?old n r = (t', actions)" by (auto split: bind_splits)
    obtain x' as where r: "r = (x', as)" by (cases r)
    note xin = get_life_Some [OF x, simplified]
    have ld: "loads t n = Suc (loads ?old n)" "\<And>m. m \<noteq> n \<Longrightarrow> loads ?old m = loads t m"
      by (simp_all add: loads_def agenda 2)
    have ls: "loads t n = 1" "lf_state x = TEN_EXTENSION_STATE_INIT"
      using sound xin ld by (auto simp: thread_sound_def life_sound_def)
    have aw: "awaits x (pending_for t n)" using sound xin by (auto simp: thread_sound_def life_sound_def)
    have mv: "moves x (x', as)" "awaits x' (and_posts (pending_for t n) as)"
      using on_configure_moves [OF c ls(2) aw] by (simp_all add: r)
    have p: "pending_for ?t = (pending_for t)(n := and_posts (pending_for t n) as)"
      using l by (auto simp: r lived_def put_life_def pending_for_def and_posts_def agenda 2 fun_eq_iff split: life_task.split)
    have lds: "loads ?t = loads ?old" using l by (auto simp: r lived_def put_life_def loads_def fun_eq_iff)
    have bs: "before_start ?t = before_start t" "before_creation ?t = before_creation t"
      using l by (auto simp: r lived_def put_life_def before_start_def before_creation_def)
    have "life_sound (et_extensions ?t) (pending_for ?t) (loads ?t) (et_called ?t)"
    proof -
      have "life_sound (map (\<lambda>y. if lf_name y = n then x' else y) (et_extensions t)) (pending_for ?t) (loads ?t)
          (et_called t @ callbacks_of n as)"
        by (rule life_sound_moves [of _ "pending_for t" "loads t"]) (use sound xin mv p lds ld ls in \<open>auto simp: thread_sound_def\<close>)
      then show ?thesis using l by (auto simp: r lived_def put_life_def)
    qed
    moreover have "before_start t \<noteq> 1" using sound xin ls by (auto simp: thread_sound_def)
    moreover have "before_creation t \<noteq> 1" using sound xin by (auto simp: thread_sound_def)
    ultimately show ?thesis using sound by (simp add: thread_sound_def bs)
  next
    case 3
    have same: "pending_for ?old = pending_for t" "loads ?old = loads t"
      using 3 by (intro ext, simp add: pending_for_def agenda split: life_task.split)
        (use 3 in \<open>intro ext, simp add: loads_def agenda\<close>)
    from perform_shape [OF run names] 3 consider "idle ?old t' actions" | n where "keeps_on ?old n t' actions" by blast
    then show ?thesis
    proof cases
      case 1
      from sound_idle [OF sound 1 _ _ same, of name calls] b show ?thesis by simp
    next
      case go: 2
      show ?thesis using sound_goes_on [OF sound go, of name calls] same b by simp
    qed
  qed
qed

text \<open>The tasks nothing depends on may go.\<close>

lemma sound_less:
  assumes "thread_sound t" "et_extensions t' = et_extensions t \<or> et_extensions t' = []" "et_called t' = et_called t"
    "\<And>n k. pending_for t' n k = pending_for t n k \<or>
        pending_for t' n k \<le> pending_for t n k \<and> k \<notin> {Trigger_on_init, Trigger_on_start} \<union> range Timer_close"
    "loads t' = loads t" "before_start t' \<le> before_start t" "before_creation t' = 0 \<or> before_creation t' = before_creation t"
  shows "thread_sound t'"
proof -
  have "pending_for t' n Trigger_on_init = pending_for t n Trigger_on_init"
    "pending_for t' n Trigger_on_start = pending_for t n Trigger_on_start"
    "pending_for t' n (Timer_close timer) = pending_for t n (Timer_close timer)" for n timer
    using assms(4) by blast+
  then have "awaits x (pending_for t' n) = awaits x (pending_for t n)" for x n by (simp add: awaits_def)
  moreover have "pending_for t' = (\<lambda>_ _. 0)" if "pending_for t = (\<lambda>_ _. 0)"
    using assms(4) unfolding that by (intro ext) (metis le_zero_eq)
  moreover have "before_creation t \<le> before_start t" by (simp add: before_start_def)
  ultimately show ?thesis
    using assms by (auto simp: thread_sound_def life_sound_def)
qed

lemma run_life_task_shape:
  assumes run: "run_life_task old n k = Some (t', actions)" and k: "k = Trigger_on_init \<or> k = Trigger_on_start \<or> k = Proxy_deleted"
    and aw: "\<And>x. x \<in> set (et_extensions old) \<Longrightarrow> lf_name x = n \<Longrightarrow> \<exists>pending. awaits x pending \<and> 0 < pending k"
  shows "goes_on old n (\<lambda>x. keeps x [k]) t' actions"
  using k
proof (elim disjE)
  assume k: "k = Trigger_on_init"
  with run obtain x r where x: "get_life old n = Some x"
    and r: "ten_extension_on_init (et_is_close_triggered old) (et_pending old) x = Some r" "lived_pending old n r = (t', actions)"
    by (auto split: bind_splits)
  have "lf_state x = TEN_EXTENSION_STATE_ON_CONFIGURE_DONE \<or> TEN_EXTENSION_STATE_ON_STOP \<le> lf_state x"
    using aw [of x] get_life_Some [OF x] k by (auto simp: awaits_def not_le split: if_splits)
  then have "keeps x [k] (snd r)" using on_init_keeps [of _ _ x "fst r" "snd r"] r(1) k by simp
  with r(2) show ?thesis by (intro goes_on_lived_pending [OF x])
next
  assume k: "k = Trigger_on_start"
  with run obtain x where x: "get_life old n = Some x"
    and r: "lived old n (ten_extension_on_start (et_is_close_triggered old) x) = (t', actions)" by (auto split: bind_splits)
  have "lf_state x = TEN_EXTENSION_STATE_ON_INIT_DONE \<or> TEN_EXTENSION_STATE_ON_STOP \<le> lf_state x"
    using aw [of x] get_life_Some [OF x] k by (auto simp: awaits_def not_le split: if_splits)
  from on_start_keeps [OF this] have "keeps x [k] (ten_extension_on_start (et_is_close_triggered old) x)" using k by simp
  with r show ?thesis by (intro goes_on_lived' [OF x])
next
  assume k: "k = Proxy_deleted"
  with run obtain x r where x: "get_life old n = Some x"
    and r: "ten_env_delete_ten_proxy (et_pending old) x = Some r" "lived_pending old n r = (t', actions)"
    by (auto split: bind_splits)
  have "keeps x [k] (snd r)" using delete_proxy_keeps [of _ x "fst r" "snd r"] r(1) k by simp
  with r(2) show ?thesis by (intro goes_on_lived_pending [OF x])
qed

lemmas thread_defs =
  post_def emit_def ten_extension_thread_del_extension_def ten_extension_group_destroy_extensions_def
  ten_extension_group_on_destroy_extensions_done_def ten_extension_thread_on_all_extensions_deleted_def
  ten_extension_group_on_deinit_def ten_extension_group_on_deinit_done_def
  ten_extension_thread_on_extension_group_on_init_done_def on_addon_destroy_instance_done_def

lemma sound_life_task:
  assumes sound: "thread_sound t" and t: "et_agenda t = []" "et_runloop t = Ext_task n k # ks"
    and run: "run_life_task (t\<lparr>et_runloop := ks\<rparr>) n k = Some (t', actions)"
  shows "thread_sound (t'\<lparr>et_agenda := actions\<rparr>)"
proof -
  let ?old = "t\<lparr>et_runloop := ks\<rparr>"
  have b: "before_start ?old = before_start t" "before_creation ?old = before_creation t"
    by (simp_all add: before_start_def before_creation_def t)
  have l: "loads ?old = loads t" by (simp add: loads_def fun_eq_iff)
  have p: "pending_for t = (pending_for ?old)(n := \<lambda>j. pending_for ?old n j + count_list [k] j)"
    by (auto simp: pending_for_def t fun_eq_iff split: life_task.split)
  show ?thesis
  proof (cases "k = Trigger_on_init \<or> k = Trigger_on_start \<or> k = Proxy_deleted")
    case True
    have "\<exists>pending. awaits x pending \<and> 0 < pending k" if "x \<in> set (et_extensions ?old)" "lf_name x = n" for x
    proof (intro exI [of _ "pending_for t n"] conjI)
      show "awaits x (pending_for t n)" using sound that by (auto simp: thread_sound_def life_sound_def)
      show "0 < pending_for t n k" by (subst p) simp
    qed
    from run_life_task_shape [OF run True this] have go: "goes_on ?old n (\<lambda>x. keeps x [k]) t' actions" by simp
    from sound_goes_on [OF sound go _ _ l p b, where calls = "[]"] t(1) show ?thesis by simp
  next
    case False
    then consider timer where "k = Timer_stop timer" | timer where "k = Timer_close timer" | "k = Del_extension"
      by (cases k) auto
    then show ?thesis
    proof cases
      case 1
      with run have "t' = ?old" "actions = []" by simp_all
      then show ?thesis
        by (intro sound_less [OF sound])
          (auto simp: loads_def t before_start_def before_creation_def pending_for_def 1 fun_eq_iff split: life_task.split)
    next
      case 2
      with run have t': "t' = ?old\<lparr>et_closing_timers := et_closing_timers t @ [(n, timer)]\<rparr>" "actions = []" by simp_all
      have "pending_for (t'\<lparr>et_agenda := actions\<rparr>) = pending_for t"
        by (auto simp: pending_for_def t' t 2 fun_eq_iff split: life_task.split)
      then show ?thesis
        by (intro sound_view [OF sound]) (simp_all add: t' loads_def t before_start_def before_creation_def fun_eq_iff)
    next
      case 3
      with run obtain x where t': "t' = ten_extension_thread_del_extension ?old n" "actions = []"
        by (auto split: bind_splits)
      show ?thesis
        by (rule sound_less [OF sound])
          (auto simp: t' thread_defs Let_def loads_def t before_start_def before_creation_def pending_for_def 3 fun_eq_iff
            split: life_task.split)
    qed
  qed
qed

lemma count_one: "distinct xs \<Longrightarrow> count_list xs x = of_bool (x \<in> set xs)"
  by (induction xs) auto

lemma count_map_loads: "count_list (map (\<lambda>x. Load_metadata (lf_name x)) xs) (Load_metadata n) = count_list (map lf_name xs) n"
  "count_list (map (\<lambda>x. Load_metadata (lf_name x)) xs) (Ext m (Post k)) = 0"
  "count_list (map (\<lambda>x. Stop_if_done (lf_name x)) xs) (Load_metadata n) = 0"
  "count_list (map (\<lambda>x. Stop_if_done (lf_name x)) xs) (Ext m (Post k)) = 0"
  by (induction xs) auto

lemma sound_start:
  assumes sound: "thread_sound t" and t: "et_agenda t = []" "et_runloop t = Start_life_cycle_task # ks"
    and run: "ten_extension_thread_start_life_cycle (t\<lparr>et_runloop := ks\<rparr>) = (t', actions)"
  shows "thread_sound (t'\<lparr>et_agenda := actions\<rparr>)"
proof (cases "et_is_close_triggered t")
  case True
  with run have "t' = t\<lparr>et_runloop := ks\<rparr>" "actions = []" by (simp_all add: ten_extension_thread_start_life_cycle_def)
  then show ?thesis
    by (intro sound_less [OF sound])
      (auto simp: loads_def t before_start_def before_creation_def pending_for_def fun_eq_iff split: life_task.split)
next
  case False
  with run have t': "et_extensions t' = et_extensions t" "et_called t' = et_called t" "et_runloop t' = ks"
    "et_closing_timers t' = et_closing_timers t" "et_out t' = et_out t" "et_creating t' = et_creating t"
    "actions = map (\<lambda>x. Load_metadata (lf_name x)) (et_extensions t)"
    by (auto simp: ten_extension_thread_start_life_cycle_def)
  let ?t = "t'\<lparr>et_agenda := actions\<rparr>"
  have bs: "before_start t = 1" using sound by (simp add: thread_sound_def before_start_def t)
  then have none: "before_start ?t = 0" "before_creation ?t = 0"
    by (simp_all add: before_start_def before_creation_def t' t)
  have init: "\<forall>x \<in> set (et_extensions t). lf_state x = TEN_EXTENSION_STATE_INIT"
    using sound bs by (simp add: thread_sound_def)
  have names: "distinct (map lf_name (et_extensions t))" using sound by (simp add: thread_sound_def life_sound_def)
  have "loads ?t n = of_bool (n \<in> lf_name ` set (et_extensions t))" for n
    using count_one [OF names] by (simp add: loads_def t' count_map_loads)
  moreover have "pending_for ?t = pending_for t"
    by (auto simp: pending_for_def t' t count_map_loads fun_eq_iff split: life_task.split)
  ultimately have "life_sound (et_extensions ?t) (pending_for ?t) (loads ?t) (et_called ?t)"
    using sound init by (auto simp: thread_sound_def life_sound_def t')
  then show ?thesis by (simp add: thread_sound_def none)
qed

lemma sound_stop:
  assumes sound: "thread_sound t" and t: "et_agenda t = []" and old: "et_extensions old = et_extensions t"
    "et_called old = et_called t" "et_closing_timers old = et_closing_timers t" "et_out old = et_out t"
    "et_creating old = et_creating t" "et_runloop t = k # et_runloop old" "k \<in> {Stop_life_cycle_task, Triggering_close_task}"
    and run: "ten_extension_thread_stop_life_cycle_of_all_extensions old = (t', actions)"
  shows "thread_sound (t'\<lparr>et_agenda := actions\<rparr>)"
  using old run
  by (intro sound_less [OF sound])
    (auto simp: ten_extension_thread_stop_life_cycle_of_all_extensions_def Let_def thread_defs loads_def t before_start_def
      before_creation_def pending_for_def fun_eq_iff count_map_loads split: life_task.split if_splits)

lemma sound_task:
  assumes sound: "thread_sound t" and t: "et_agenda t = []" "et_runloop t = k # ks"
    and run: "run_task (t\<lparr>et_runloop := ks\<rparr>) k = Some (t', actions)"
  shows "thread_sound (t'\<lparr>et_agenda := actions\<rparr>)"
proof -
  let ?old = "t\<lparr>et_runloop := ks\<rparr>"
  have b: "before_creation t \<le> before_start t" "before_start t \<le> 1"
    using sound by (simp_all add: before_start_def thread_sound_def)
  show ?thesis
  proof (cases k)
    case (Ext_task n task)
    with run t show ?thesis by (intro sound_life_task [OF sound]) simp_all
  next
    case (Handle_in_msg_task msg)
    have "pending_for ?old = pending_for t" "loads ?old = loads t" "before_start ?old = before_start t"
      "before_creation ?old = before_creation t"
      by (auto simp: loads_def t before_start_def before_creation_def pending_for_def Handle_in_msg_task fun_eq_iff
          split: life_task.split)
    moreover have "idle ?old t' actions"
      using run by (auto simp: Handle_in_msg_task ten_extension_thread_handle_in_msg_task_def idle_def same_frame_def
          split: bind_splits thread_state.splits dest: handle_in_msg_sync_idle [unfolded idle_def same_frame_def])
    ultimately show ?thesis using sound_idle [OF sound, of ?old t' actions, where calls = "[]"] t(1) by simp
  next
    case Start_life_cycle_task
    with run t show ?thesis by (intro sound_start [OF sound]) simp_all
  next
    case Stop_life_cycle_task
    with run t show ?thesis by (intro sound_stop [OF sound, where old = ?old and k = k]) simp_all
  next
    case Triggering_close_task
    show ?thesis
    proof (cases "et_state t = TEN_EXTENSION_THREAD_STATE_NORMAL \<and> \<not> et_is_close_triggered t")
      case True
      with run t Triggering_close_task show ?thesis
        by (intro sound_stop [OF sound, where old = "?old\<lparr>et_is_close_triggered := True\<rparr>" and k = k])
          (simp_all add: ten_extension_thread_on_triggering_close_def Let_def)
    next
      case False
      with run show ?thesis
        by (intro sound_less [OF sound])
          (auto simp: Triggering_close_task ten_extension_thread_on_triggering_close_def Let_def thread_defs loads_def t
            before_start_def before_creation_def pending_for_def fun_eq_iff split: life_task.split if_splits thread_state.splits)
    qed
  qed (insert run b, (rule sound_less [OF sound]; auto simp: thread_defs Let_def loads_def t before_start_def
      before_creation_def pending_for_def fun_eq_iff split: life_task.split if_splits)+)
qed

lemma count_pos: "0 < count_list xs x \<longleftrightarrow> x \<in> set xs"
  by (metis count_list_0_iff neq0_conv)

lemma sound_timer:
  assumes sound: "thread_sound t" and t: "et_agenda t = []"
    and run: "trigger_timer t n timer now = Some (t', actions)"
  shows "thread_sound (t'\<lparr>et_agenda := actions\<rparr>)"
proof -
  from run obtain x where x: "get_life t n = Some x"
    and l: "lived t n (ten_extension_path_timer_on_triggered timer now x) = (t', actions)"
    by (auto simp: trigger_timer_def split: bind_splits)
  have "keeps_on t n t' actions" by (rule goes_on_lived' [OF x _ l]) (rule timer_triggered_keeps)
  from sound_goes_on [OF sound this, where calls = "[]"] t show ?thesis by simp
qed

lemma sound_closed:
  assumes sound: "thread_sound t" and t: "et_agenda t = []" "(n, timer) \<in> set (et_closing_timers t)"
    and run: "timer_closed t n timer = Some (t', actions)"
  shows "thread_sound (t'\<lparr>et_agenda := actions\<rparr>)"
proof -
  let ?old = "t\<lparr>et_closing_timers := remove1 (n, timer) (et_closing_timers t)\<rparr>"
  from run obtain x where x: "get_life t n = Some x"
    and l: "lived ?old n (ten_extension_on_timer_closed timer x) = (t', actions)"
    by (auto simp: timer_closed_def split: bind_splits)
  have x': "get_life ?old n = Some x" using x by (simp add: get_life_def)
  have pos: "0 < count_list (et_closing_timers t) (n, timer)" using t(2) by (simp add: count_pos)
  have p: "pending_for t = (pending_for ?old)(n := \<lambda>j. pending_for ?old n j + count_list [Timer_close timer] j)"
    using pos by (auto simp: pending_for_def count_list_remove1 fun_eq_iff split: life_task.split)
  have "awaits x (pending_for t n)" using sound get_life_Some [OF x] by (auto simp: thread_sound_def life_sound_def)
  moreover have "0 < pending_for t n (Timer_close timer)" using pos by (simp add: pending_for_def)
  ultimately have "lf_state x = TEN_EXTENSION_STATE_ON_STOP_DONE" "0 < count_list (lf_path_timers x) timer"
    by (auto simp: awaits_def split: if_splits)
  then have "keeps x [Timer_close timer] (ten_extension_on_timer_closed timer x)"
    by (intro timer_closed_keeps) (simp_all add: count_pos)
  then have go: "goes_on ?old n (\<lambda>x. keeps x [Timer_close timer]) t' actions" by (rule goes_on_lived' [OF x' _ l])
  have v: "loads ?old = loads t" "before_start ?old = before_start t" "before_creation ?old = before_creation t"
    by (simp_all add: loads_def before_start_def before_creation_def fun_eq_iff)
  from sound_goes_on [OF sound go _ _ v(1) p v(2,3), where calls = "[]"] t(1) show ?thesis by simp
qed

lemma add_extensions_eq:
  "add_extensions t xs = Some t' \<Longrightarrow> t' = t\<lparr>et_store := et_store t @ map lf_name xs\<rparr> \<and>
     distinct (map lf_name xs) \<and> set (et_store t) \<inter> lf_name ` set xs = {}"
proof (induction xs arbitrary: t)
  case (Cons x xs)
  then have x: "lf_name x \<notin> set (et_store t)"
    "add_extensions (t\<lparr>et_store := et_store t @ [lf_name x]\<rparr>) xs = Some t'"
    by (auto simp: ten_extension_thread_add_extension_def split: bind_splits)
  from Cons.IH [OF x(2)] x(1) show ?case by auto
qed simp

lemma sound_created:
  assumes sound: "thread_sound t" and t: "et_creating t" "\<forall>x \<in> set xs. \<forall>l \<in> set_option x. created_life l"
    and run: "ten_extension_group_on_create_extensions_done t xs = Some t'"
  shows "thread_sound t'"
proof -
  let ?xs = "List.map_filter id xs"
  from run obtain t1 where a: "add_extensions (t\<lparr>et_creating := False, et_extensions := ?xs\<rparr>) ?xs = Some t1"
    and t': "t' = emit t1 Find_extension_info"
    by (auto simp: ten_extension_group_on_create_extensions_done_def ten_extension_thread_add_all_created_extensions_def
        split: bind_splits)
  note e = add_extensions_eq [OF a]
  have b: "before_creation t = 1" "before_start t = 1"
    using sound t(1) by (auto simp: thread_sound_def before_start_def before_creation_def)
  then have none: "et_called t = []" "pending_for t = (\<lambda>_ _. 0)" "loads t = (\<lambda>_. 0)"
    using sound by (simp_all add: thread_sound_def)
  have "pending_for t' = pending_for t" "loads t' = loads t"
    using e by (auto simp: t' emit_def pending_for_def loads_def fun_eq_iff split: life_task.split)
  then have v: "pending_for t' = (\<lambda>_ _. 0)" "loads t' = (\<lambda>_. 0)" "et_called t' = []" "et_extensions t' = ?xs"
    using none e by (simp_all add: t' emit_def)
  have b': "before_creation t' = 0" "before_start t' = 1"
    using b t(1) e by (simp_all add: t' emit_def before_start_def before_creation_def)
  have created: "created_life x" if "x \<in> set ?xs" for x using that t(2) by (fastforce simp: List.map_filter_def)
  have "awaits x (\<lambda>_. 0)" if "x \<in> set ?xs" for x
    using created [OF that] by (simp add: awaits_def created_life_def state_order)
  then have "life_sound ?xs (\<lambda>_ _. 0) (\<lambda>_. 0) []" using e by (simp add: life_sound_def history_def)
  then show ?thesis using created by (auto simp: thread_sound_def v b' created_life_def)
qed

lemma sound_looked_up:
  assumes sound: "thread_sound t" and t: "Find_extension_info \<in> set (et_out t)"
  shows "thread_sound (ten_engine_find_extension_info infos t)" (is "thread_sound ?t")
proof -
  let ?f = "\<lambda>x. x\<lparr>lf_ext := (lf_ext x)\<lparr>ex_extension_info := infos (lf_name x)\<rparr>\<rparr>"
  have xs: "et_extensions ?t = map ?f (et_extensions t)" by (simp add: ten_engine_find_extension_info_def Let_def post_def)
  have pos: "0 < count_list (et_out t) Find_extension_info" using t by (simp add: count_pos)
  have b: "before_start ?t = before_start t" "before_creation ?t = before_creation t"
    using pos by (simp_all add: ten_engine_find_extension_info_def Let_def post_def before_start_def before_creation_def
        count_list_remove1)
  have v: "pending_for ?t = pending_for t" "loads ?t = loads t" "et_called ?t = et_called t"
    by (auto simp: ten_engine_find_extension_info_def Let_def post_def pending_for_def loads_def fun_eq_iff
        split: life_task.split)
  have "awaits (?f x) p = awaits x p" for x p by (simp add: awaits_def)
  then show ?thesis
    using sound by (auto simp: thread_sound_def life_sound_def b v xs comp_def)
qed

lemma thread_step_sound: "thread_step t t' \<Longrightarrow> thread_sound t \<Longrightarrow> thread_sound t'"
proof (induction rule: thread_step.induct)
  case (perform self a rest te self' actions calls name)
  from perform(5,1,2) show ?case by (rule sound_perform)
next
  case (task self k ks self' actions)
  from task(4,1,2,3) show ?case by (rule sound_task)
next
  case (timer self name x timer now self' actions)
  from timer(5,1,4) show ?case by (rule sound_timer)
next
  case (closed self name timer self' actions)
  from closed(4,1,2,3) show ?case by (rule sound_closed)
next
  case (created self xs self')
  from created(5,2,3,4) show ?case by (rule sound_created)
next
  case (looked_up self infos)
  from looked_up(2,1) show ?case by (rule sound_looked_up)
next
  case (later self name call)
  then show ?case
    by (intro sound_less [OF later(3)]) (auto simp: loads_def before_start_def before_creation_def pending_for_def fun_eq_iff
        split: life_task.split)
next
  case (destroyed self)
  then show ?case
    by (intro sound_less [OF destroyed(3)])
      (auto simp: thread_defs Let_def loads_def before_start_def before_creation_def pending_for_def fun_eq_iff
        split: life_task.split)
next
  case (arrive self msg)
  then show ?case
    by (intro sound_less [OF arrive]) (auto simp: thread_defs loads_def before_start_def before_creation_def pending_for_def
        split: life_task.split)
next
  case (close self)
  then show ?case
    by (intro sound_less [OF close]) (auto simp: thread_defs loads_def before_start_def before_creation_def pending_for_def
        split: life_task.split)
next
  case (removed self)
  then show ?case
    by (intro sound_less [OF removed(2)])
      (auto simp: thread_defs loads_def before_start_def before_creation_def pending_for_def count_list_remove1
        split: life_task.split)
qed

lemma thread_reachable_sound: "thread_reachable t \<Longrightarrow> thread_sound t"
proof (induction rule: thread_reachable.induct)
  case (started engine grp groups)
  show ?case
    by (auto simp: ten_extension_thread_main_actual_def ten_extension_thread_create_def thread_sound_def life_sound_def
        history_def before_start_def before_creation_def pending_for_def loads_def fun_eq_iff split: life_task.split)
qed (rule thread_step_sound)

section \<open>The order of the callbacks\<close>

definition life_callbacks :: "life_callback list" where
  "life_callbacks = [On_configure, On_init, On_start, On_stop, On_deinit]"

lemma stage_inj: "stage a = stage b \<Longrightarrow> a = b"
  by (cases a; cases b) simp_all

lemma sorted_subseq:
  assumes "sorted_wrt (<) (map stage cs)"
  shows "subseq cs life_callbacks"
proof -
  let ?ds = "filter (\<lambda>c. c \<in> set cs) life_callbacks"
  have "c \<in> set life_callbacks" for c by (cases c) (simp_all add: life_callbacks_def)
  then have "set ?ds = set cs" by auto
  moreover have "sorted_wrt (<) (map stage ?ds)" by (simp add: life_callbacks_def)
  ultimately have "map stage cs = map stage ?ds"
    using assms by (intro strict_sorted_equal) (simp_all add: image_def)
  then have "cs = ?ds" using stage_inj by (metis (no_types, lifting) inj_onI list.inj_map_strong)
  then show ?thesis by (metis subseq_filter_left)
qed

text \<open>C5: In every run of an extension thread, with any code of the extensions, any messages, timeouts and
  requests to close, the life cycle callbacks of an extension are called in the order on_configure,
  on_init, on_start, on_stop, on_deinit, each at most once, and none before the extension has entered
  the state it belongs to. A stage may be left out: where the extension has no callback, or where the
  thread is asked to close before.
\<close>

theorem callbacks_in_order:
  assumes "thread_reachable t"
  shows "subseq (map snd (filter (\<lambda>p. fst p = n) (et_called t))) life_callbacks \<and>
    (\<forall>x \<in> set (et_extensions t). \<forall>c. (lf_name x, c) \<in> set (et_called t) \<longrightarrow> stage c \<le> state_num (lf_state x))"
proof
  have sound: "life_sound (et_extensions t) (pending_for t) (loads t) (et_called t)"
    using thread_reachable_sound [OF assms] by (simp add: thread_sound_def)
  then have "sorted_wrt (<) (map stage (map snd (filter (\<lambda>p. fst p = n) (et_called t))))"
    by (simp add: life_sound_def history_def comp_def)
  then show "subseq (map snd (filter (\<lambda>p. fst p = n) (et_called t))) life_callbacks" by (rule sorted_subseq)
  show "\<forall>x \<in> set (et_extensions t). \<forall>c. (lf_name x, c) \<in> set (et_called t) \<longrightarrow> stage c \<le> state_num (lf_state x)"
  proof (intro ballI allI impI)
    fix x c assume x: "x \<in> set (et_extensions t)" "(lf_name x, c) \<in> set (et_called t)"
    then have "stage c \<in> set (history (lf_name x) (et_called t))" by (force simp: history_def)
    with sound x(1) show "stage c \<le> state_num (lf_state x)" by (auto simp: life_sound_def)
  qed
qed

end
