(* ===== verification/Thread_Runs.thy ===== *)
theory Thread_Runs
  imports Thread_Order Extension_Contract
begin

text \<open>
  Runs of an extension thread that can be evaluated: a choice per step, and the thread that results.
  They give the concrete runs of the examples, and of what can go wrong when a thread is closed.
\<close>

datatype choice =
    Perform "api_call list"
  | Run_task
  | Timer_is_closed string path_timer
  | Later string api_call
  | Create "life option list"
  | Destroyed
  | Arrive ten_msg
  | Close
  | Look_up "(string \<times> extension_info) list"
  | Removed

text \<open>The next state for a choice; None where the choice is not possible, or an assertion fails.\<close>

fun chosen :: "thread_env \<Rightarrow> choice \<Rightarrow> ext_thread \<Rightarrow> ext_thread option" where
  "chosen te (Perform calls) t =
     (case et_agenda t of
        [] \<Rightarrow> None
      | a # rest \<Rightarrow>
          map_option (\<lambda>(t', actions). t'\<lparr>et_agenda := actions @ map (Api (the (user_code a))) calls @ rest\<rparr>)
            (if allowed t a \<and> (calls = [] \<or> user_code a \<noteq> None) then perform te (t\<lparr>et_agenda := rest\<rparr>) a else None))"
| "chosen te Run_task t =
     (case et_runloop t of
        [] \<Rightarrow> None
      | k # ks \<Rightarrow>
          if et_agenda t = [] then map_option (\<lambda>(t', actions). t'\<lparr>et_agenda := actions\<rparr>) (run_task (t\<lparr>et_runloop := ks\<rparr>) k)
          else None)"
| "chosen te (Timer_is_closed name timer) t =
     (if et_agenda t = [] \<and> (name, timer) \<in> set (et_closing_timers t)
      then map_option (\<lambda>(t', actions). t'\<lparr>et_agenda := actions\<rparr>) (timer_closed t name timer) else None)"
| "chosen te (Later name call) t =
     (if et_agenda t = [] \<and> name \<in> set (et_store t) then Some (t\<lparr>et_agenda := [Api name call]\<rparr>) else None)"
| "chosen te (Create xs) t =
     (if et_agenda t = [] \<and> et_creating t \<and> list_all (\<lambda>x. case x of None \<Rightarrow> True | Some l \<Rightarrow> created_life l) xs
      then ten_extension_group_on_create_extensions_done t xs else None)"
| "chosen te Destroyed t =
     (if et_agenda t = [] \<and> 0 < et_being_destroyed t then Some (on_addon_destroy_instance_done t) else None)"
| "chosen te (Arrive msg) t = Some (post t (Handle_in_msg_task msg))"
| "chosen te Close t = Some (post t Triggering_close_task)"
| "chosen te (Look_up infos) t =
     (if Find_extension_info \<in> set (et_out t) then Some (ten_engine_find_extension_info (map_of infos) t) else None)"
| "chosen te Removed t =
     (if Remove_from_engine \<in> set (et_out t)
      then Some (post (t\<lparr>et_out := remove1 Remove_from_engine (et_out t)\<rparr>) Removed_from_engine_task) else None)"

fun replay :: "thread_env \<Rightarrow> choice list \<Rightarrow> ext_thread \<Rightarrow> ext_thread option" where
  "replay te [] t = Some t"
| "replay te (c # cs) t = do { t \<leftarrow> chosen te c t; replay te cs t }"

lemma chosen_step: "chosen te c t = Some t' \<Longrightarrow> thread_step t t'"
proof (cases c)
  case (Perform calls)
  assume "chosen te c t = Some t'"
  with Perform obtain a rest t1 actions where a: "et_agenda t = a # rest"
    "perform te (t\<lparr>et_agenda := rest\<rparr>) a = Some (t1, actions)" "allowed t a" "calls = [] \<or> user_code a \<noteq> None"
    "t' = t1\<lparr>et_agenda := actions @ map (Api (the (user_code a))) calls @ rest\<rparr>"
    by (auto split: list.splits bind_splits option.splits if_splits)
  show ?thesis unfolding a(5) by (rule thread_step.perform [OF a(1-3)]) (use a(4) in auto)
next
  case (Create xs)
  assume "chosen te c t = Some t'"
  with Create have "et_agenda t = []" "et_creating t" "\<forall>x \<in> set xs. \<forall>l \<in> set_option x. created_life l"
    "ten_extension_group_on_create_extensions_done t xs = Some t'"
    by (auto simp: list_all_iff split: if_splits option.splits)
  then show ?thesis by (rule thread_step.created)
qed (auto split: list.splits if_splits intro: thread_step.intros)

lemma replay_reachable: "thread_reachable t \<Longrightarrow> replay te cs t = Some t' \<Longrightarrow> thread_reachable t'"
  by (induction cs arbitrary: t) (auto split: bind_splits dest: chosen_step intro: thread_reachable.stepped)

section \<open>An example\<close>

definition example_life :: "string \<Rightarrow> life_callback list \<Rightarrow> life" where
  "example_life name cbs =
     \<lparr>lf_ext = (example_extension name [])\<lparr>ex_state := TEN_EXTENSION_STATE_INIT\<rparr>, lf_on = (\<lambda>c. c \<in> set cbs),
      lf_property = V_object [], lf_path_timers = [], lf_proxies = 0\<rparr>"

definition example_thread_env :: thread_env where
  "example_thread_env = \<lparr>te_call = example_env, te_metadata = (\<lambda>_. Some (V_object [], ten_schema_store_init))\<rparr>"

definition example_thread :: ext_thread where
  "example_thread = ten_extension_thread_main_actual
     (ten_extension_thread_create \<lparr>en_addr = 1, en_app_uri = ''app'', en_graph_id = ''g'', en_predefined_graphs = []\<rparr>
        ''x'' [(''a'', ''x''), (''b'', ''x'')])"

definition example_info :: "msg_dest_info list \<Rightarrow> extension_info" where
  "example_info dests = \<lparr>ei_dest_cmd = dests, ei_dest_data = [], ei_dest_video_frame = [],
     ei_dest_audio_frame = [], ei_msg_conversion_contexts = []\<rparr>"

text \<open>
  Two extensions of one thread: the first has an on_stop callback and may send the command hello to the
  second, which has an on_start callback. They are created, started, and the second has not finished
  starting yet.
\<close>

definition example_to_b :: "msg_dest_info list" where
  "example_to_b = [\<lparr>md_name = ''hello'', md_dest = [ten_loc_create (Some ''app'') (Some ''g'') (Some ''b'')]\<rparr>]"

definition example_start :: "choice list" where
  "example_start =
     [Run_task, Run_task, Create [Some (example_life ''a'' [On_stop]), Some (example_life ''b'' [On_start])],
      Look_up [(''a'', example_info example_to_b), (''b'', example_info [])], Run_task,
      Perform [], Perform [], Perform [], Perform [], Run_task, Perform [], Run_task, Perform [], Run_task, Run_task, Perform []]"

definition example_close :: "choice list" where
  "example_close =
     [Close, Run_task, Perform [], Perform [Send_cmd (M_cmd TEN_MSG_TYPE_CMD example_hello) 0 0 False],
      Perform [], Perform [], Perform [], Perform [], Perform [Start_done], Perform [], Perform [], Perform [], Perform [], Perform []]"

text \<open>The callbacks of this run, in their order.\<close>

theorem callbacks_in_order_witness:
  "\<exists>t. replay example_thread_env (example_start @ example_close) example_thread = Some t \<and>
     et_called t = [(''b'', On_start), (''a'', On_stop)] \<and>
     subseq (map snd (filter (\<lambda>p. fst p = ''b'') (et_called t))) life_callbacks \<and>
     (\<forall>x \<in> set (et_extensions t). \<forall>c. (lf_name x, c) \<in> set (et_called t) \<longrightarrow> stage c \<le> state_num (lf_state x))"
proof -
  have "case replay example_thread_env (example_start @ example_close) example_thread of None \<Rightarrow> False | Some t \<Rightarrow>
      et_called t = [(''b'', On_start), (''a'', On_stop)]"
    by code_simp
  then obtain t where t: "replay example_thread_env (example_start @ example_close) example_thread = Some t"
    "et_called t = [(''b'', On_start), (''a'', On_stop)]" by (auto split: option.splits)
  have "thread_reachable example_thread" unfolding example_thread_def by (rule thread_reachable.started)
  from replay_reachable [OF this t(1)] have "thread_reachable t" .
  from callbacks_in_order [OF this, of "''b''"] t show ?thesis by blast
qed

end
