(* ===== verification/Thread_Closing.thy ===== *)
theory Thread_Closing
  imports Thread_Runs
begin

text \<open>
  Where the closing of an extension thread goes wrong: when it is asked for while the extensions are
  being created, and when an extension stops while the thread is still stopping the others.
\<close>

section \<open>Closing while the extensions are created\<close>

text \<open>
  The extensions exist, none of them has been configured, and the thread has been asked to close: nothing
  that would make an extension or the group end is under way.
\<close>

fun ends :: "thread_action \<Rightarrow> bool" where
  "ends (Ext n Release_check) \<longleftrightarrow> True"
| "ends (Ext n (Post k)) \<longleftrightarrow> k \<notin> {Proxy_deleted}"
| "ends (Load_metadata n) \<longleftrightarrow> True"
| "ends _ \<longleftrightarrow> False"

definition hung :: "ext_thread \<Rightarrow> bool" where
  "hung t \<longleftrightarrow> et_is_close_triggered t \<and>
     et_state t \<in> {TEN_EXTENSION_THREAD_STATE_CREATING_EXTENSIONS, TEN_EXTENSION_THREAD_STATE_PREPARE_TO_CLOSE} \<and>
     et_extensions t \<noteq> [] \<and> (\<forall>x \<in> set (et_extensions t). lf_state x = TEN_EXTENSION_STATE_INIT) \<and>
     et_group_state t = TEN_EXTENSION_GROUP_STATE_INIT \<and> \<not> et_creating t \<and> et_being_destroyed t = 0 \<and>
     et_closing_timers t = [] \<and> et_called t = [] \<and> (\<forall>a \<in> set (et_agenda t). \<not> ends a) \<and>
     (\<forall>k \<in> set (et_runloop t). case k of
        Ext_task n k \<Rightarrow> k = Proxy_deleted
      | Handle_in_msg_task m \<Rightarrow> True | Triggering_close_task \<Rightarrow> True | Start_life_cycle_task \<Rightarrow> True
      | Stop_life_cycle_task \<Rightarrow> True | _ \<Rightarrow> False) \<and>
     Remove_from_engine \<notin> set (et_out t) \<and> Extension_thread_closed \<notin> set (et_out t)"

text \<open>What a call leaves of it.\<close>

definition calm :: "ext_thread \<Rightarrow> ext_thread \<Rightarrow> thread_action list \<Rightarrow> bool" where
  "calm t t' actions \<longleftrightarrow> et_is_close_triggered t' = et_is_close_triggered t \<and> et_state t' = et_state t \<and>
     map lf_name (et_extensions t') = map lf_name (et_extensions t) \<and>
     ((\<forall>x \<in> set (et_extensions t). lf_state x = TEN_EXTENSION_STATE_INIT) \<longrightarrow>
      (\<forall>x \<in> set (et_extensions t'). lf_state x = TEN_EXTENSION_STATE_INIT)) \<and>
     et_group_state t' = et_group_state t \<and> et_creating t' = et_creating t \<and>
     et_being_destroyed t' = et_being_destroyed t \<and> et_closing_timers t' = et_closing_timers t \<and>
     et_called t' = et_called t \<and> et_runloop t' = et_runloop t \<and> (\<forall>a \<in> set actions. \<not> ends a) \<and>
     (Remove_from_engine \<in> set (et_out t') \<longrightarrow> Remove_from_engine \<in> set (et_out t)) \<and>
     (Extension_thread_closed \<in> set (et_out t') \<longrightarrow> Extension_thread_closed \<in> set (et_out t))"

lemma calm_same [simp]: "calm t t actions \<longleftrightarrow> (\<forall>a \<in> set actions. \<not> ends a)" "calm t (t\<lparr>et_pending := p\<rparr>) []"
  by (simp_all add: calm_def)

lemma calm_lived:
  assumes "get_life t n = Some x" "lf_name (fst r) = lf_name x" "lf_state (fst r) = lf_state x"
    and "stages (snd r) = []" "\<forall>a \<in> set (snd r). \<not> ends (Ext n a)"
    and "lived t n r = (t', actions)"
  shows "calm t t' actions"
proof -
  note x = get_life_Some [OF assms(1)]
  obtain x' as where r: "r = (x', as)" by (cases r)
  have none: "callbacks_of n as = []"
    using assms(4) by (auto simp: r stages_def callbacks_of_def split: life_action.splits)
  have t': "t' = (put_life t n x')\<lparr>et_called := et_called t\<rparr>" "actions = map (Ext n) as"
    using assms(6) by (simp_all add: r lived_def none)
  have "map lf_name (map (\<lambda>y. if lf_name y = n then x' else y) (et_extensions t)) = map lf_name (et_extensions t)"
    using assms(2) x by (simp add: r)
  moreover have "lf_state x' = lf_state x" using assms(3) by (simp add: r)
  ultimately show ?thesis
    using assms(5) x unfolding calm_def t' by (auto simp: put_life_def r)
qed

lemma calm_effects:
  "get_life t n = Some x \<Longrightarrow> same_life (lf_ext x) ext \<Longrightarrow>
   lived t n (x\<lparr>lf_ext := ext\<rparr>, map Msg_effect effects) = (t', actions) \<Longrightarrow> calm t t' actions"
  by (rule calm_lived [of t n x "(x\<lparr>lf_ext := ext\<rparr>, map Msg_effect effects)"]) (simp_all add: same_life_def)

lemma calm_emit [simp]: "calm t (emit t (To_engine_queue m)) []" "calm t (emit t (To_app_queue m)) []"
  by (simp_all add: calm_def emit_def)

lemma calm_sync: "ten_extension_thread_handle_in_msg_sync t m = Some (t', actions) \<Longrightarrow> calm t t' actions"
  by (auto simp: ten_extension_thread_handle_in_msg_sync_def ten_extension_thread_create_cmd_result_and_dispatch_def
      ten_engine_append_to_in_msgs_queue_def Let_def
      split: if_splits bind_splits ten_msg.splits msg_type.splits)

lemma calm_dispatch: "ten_extension_thread_dispatch_msg t m = Some (t', actions) \<Longrightarrow> calm t t' actions"
  unfolding ten_extension_thread_dispatch_msg_def
  by (auto simp: ten_extension_thread_create_cmd_result_and_dispatch_def ten_app_push_to_in_msgs_queue_def
      ten_engine_append_to_in_msgs_queue_def Let_def
      split: if_splits bind_splits ten_msg.splits msg_type.splits option.splits dest: calm_sync)

lemma calm_sent:
  assumes "get_life t n = Some x" "sent t n x r = Some (t', actions)"
    and "\<And>ok err ext effects. r = Some (ok, err, ext, effects) \<Longrightarrow> same_life (lf_ext x) ext"
  shows "calm t t' actions"
  using assms by (auto simp: sent_def split: bind_splits intro: calm_effects)

lemma calm_perform:
  assumes run: "perform te t a = Some (t', actions)" and a: "\<not> ends a" "a \<noteq> Ext n (Post k)"
    and init: "\<forall>x \<in> set (et_extensions t). lf_state x = TEN_EXTENSION_STATE_INIT"
  shows "calm t t' actions \<or> (\<exists>n. a = Ext n (Post Proxy_deleted))"
proof -
  have state: "lf_state x = TEN_EXTENSION_STATE_INIT" if "get_life t m = Some x" for m x
    using init get_life_Some [OF that] by simp
  show ?thesis
  proof (cases a)
    case (Ext m l)
    show ?thesis
    proof (cases l)
      case (Handle_in msg)
      with Ext run obtain x ext effects where "get_life t m = Some x"
        "ten_extension_handle_in_msg (te_call te) (lf_ext x) msg = Some (ext, effects)"
        "lived t m (x\<lparr>lf_ext := ext\<rparr>, map Msg_effect effects) = (t', actions)"
        by (auto split: bind_splits)
      then show ?thesis using calm_effects handle_in_same by blast
    next
      case (Msg_effect e)
      with Ext run have "perform_effect te t m e = Some (t', actions)" by simp
      then show ?thesis
      proof (cases e)
        case (Deliver msg)
        with Ext Msg_effect run obtain x ext effects where "get_life t m = Some x"
          "ten_extension_on_msg (te_call te) (lf_ext x) msg = Some (ext, effects)"
          "lived t m (x\<lparr>lf_ext := ext\<rparr>, map Msg_effect effects) = (t', actions)"
          by (auto split: bind_splits)
        then show ?thesis using calm_effects on_msg_same by blast
      qed (use calm_dispatch in \<open>auto simp: ten_engine_append_to_in_msgs_queue_def\<close>)
    qed (use Ext run a in auto)
  next
    case (Api m call)
    with run obtain x where x: "get_life t m = Some x" and c: "call_api te t m x call = Some (t', actions)"
      by (auto split: bind_splits)
    note s = state [OF x]
    have stay: "calm t t' actions" if "lived t m (x, []) = (t', actions)"
      using calm_lived [OF x, of "(x, [])"] that by simp
    have proxy: "calm t t' actions" if "lived t m (ten_env_add_ten_proxy x, []) = (t', actions)"
      using calm_lived [OF x, of "(ten_env_add_ten_proxy x, [])"] that by (simp add: ten_env_add_ten_proxy_def)
    have "calm t t' actions"
    proof (cases call)
      case Create_proxy
      with c proxy show ?thesis by simp
    next
      case Init_done
      with c s have "lived t m (x, []) = (t', actions)" by (simp add: ten_extension_on_init_done_def lived_pending_def)
      then show ?thesis by (rule stay)
    next
      case Release_proxy
      with c show ?thesis by auto
    qed (use c s stay in \<open>auto simp: ten_extension_on_configure_done_def ten_extension_on_start_done_def
        ten_extension_on_stop_done_def ten_extension_on_deinit_done_def
        intro: calm_sent [OF x] send_same return_same\<close>)
    then show ?thesis ..
  next
    case (Stop_if_done m)
    with run show ?thesis by (auto simp: stop_if_done_def state split: bind_splits if_splits)
  qed (use a in simp)
qed

text \<open>Nothing that happens gets the thread out of there.\<close>

lemma hung_calm:
  assumes h: "hung t" and c: "calm (t\<lparr>et_agenda := ag, et_runloop := rl\<rparr>) t' actions"
    and rest: "set rest \<subseteq> set (et_agenda t)" and rl: "set rl \<subseteq> set (et_runloop t)"
  shows "hung (t'\<lparr>et_agenda := actions @ map (Api n) calls @ rest\<rparr>)"
proof -
  have xs: "map lf_name (et_extensions t') = map lf_name (et_extensions t)" using c by (simp add: calm_def)
  have "et_extensions t' \<noteq> []" using h xs unfolding hung_def by (metis map_is_Nil_conv)
  moreover have "\<forall>x \<in> set (et_extensions t'). lf_state x = TEN_EXTENSION_STATE_INIT"
    using h c by (simp add: hung_def calm_def)
  moreover have "\<forall>a \<in> set (actions @ map (Api n) calls @ rest). \<not> ends a"
    using h c rest by (auto simp: hung_def calm_def)
  moreover have "et_runloop t' = rl" using c by (simp add: calm_def)
  ultimately show ?thesis
    using h c rl by (simp add: hung_def calm_def subset_iff)
qed

lemma hung_step: "thread_step t t' \<Longrightarrow> hung t \<Longrightarrow> hung t'"
proof (induction rule: thread_step.induct)
  case (perform self a rest te self' actions calls name)
  have a: "\<not> ends a" "\<forall>x \<in> set (et_extensions self). lf_state x = TEN_EXTENSION_STATE_INIT"
    using perform.hyps(1) perform.prems by (auto simp: hung_def)
  show ?case
  proof (cases "\<exists>m. a = Ext m (Post Proxy_deleted)")
    case True
    then obtain m where m: "a = Ext m (Post Proxy_deleted)" ..
    then have "self' = post (self\<lparr>et_agenda := rest\<rparr>) (Ext_task m Proxy_deleted)" "actions = []"
      using perform.hyps(2) by simp_all
    with m perform.hyps(1,4) perform.prems show ?thesis by (auto simp: hung_def post_def)
  next
    case False
    then have "calm (self\<lparr>et_agenda := rest\<rparr>) self' actions"
      using calm_perform [OF perform.hyps(2) a(1)] a(2) by (cases a rule: ends.cases) auto
    then have "calm (self\<lparr>et_agenda := rest, et_runloop := et_runloop self\<rparr>) self' actions" by simp
    from hung_calm [OF perform.prems this, of rest name calls] perform.hyps(1) show ?thesis by auto
  qed
next
  case (task self k ks self' actions)
  let ?old = "self\<lparr>et_runloop := ks\<rparr>"
  have ks: "set ks \<subseteq> set (et_runloop self)" using task.hyps(2) by auto
  have calm: "hung (self'\<lparr>et_agenda := actions\<rparr>)" if "calm ?old self' actions"
  proof -
    have "calm (self\<lparr>et_agenda := [], et_runloop := ks\<rparr>) self' actions" using that by (simp add: calm_def)
    from hung_calm [OF task.prems this, of "[]" "[]" "[]"] ks show ?thesis by simp
  qed
  have k: "case k of Ext_task n k \<Rightarrow> k = Proxy_deleted
      | Handle_in_msg_task m \<Rightarrow> True | Triggering_close_task \<Rightarrow> True | Start_life_cycle_task \<Rightarrow> True
      | Stop_life_cycle_task \<Rightarrow> True | _ \<Rightarrow> False"
    using task.hyps(2) task.prems by (auto simp: hung_def)
  have run: "run_task ?old k = Some (self', actions)" by (rule task.hyps(3))
  show ?case
  proof (cases k)
    case (Ext_task n j)
    with k run obtain x r where x: "get_life ?old n = Some x"
      and r: "ten_env_delete_ten_proxy (et_pending self) x = Some r" "lived_pending ?old n r = (self', actions)"
      by (auto split: bind_splits)
    have "lf_state x = TEN_EXTENSION_STATE_INIT"
      using get_life_Some [OF x] task.prems by (simp add: hung_def)
    with r have "lived ?old n (x\<lparr>lf_proxies := lf_proxies x - 1\<rparr>, []) = (self', actions)"
      by (auto simp: ten_env_delete_ten_proxy_def Let_def lived_pending_def split: bind_splits if_splits)
    from calm_lived [OF x _ _ _ _ this] show ?thesis by (intro calm) simp
  next
    case (Handle_in_msg_task m)
    with run calm_sync show ?thesis
      by (intro calm) (auto simp: ten_extension_thread_handle_in_msg_task_def split: bind_splits thread_state.splits)
  next
    case Triggering_close_task
    with run task.prems show ?thesis
      by (intro calm) (auto simp: ten_extension_thread_on_triggering_close_def hung_def)
  next
    case Start_life_cycle_task
    with run task.prems show ?thesis
      by (intro calm) (auto simp: ten_extension_thread_start_life_cycle_def hung_def)
  next
    case Stop_life_cycle_task
    with run task.prems ks show ?thesis
      by (auto simp: ten_extension_thread_stop_life_cycle_of_all_extensions_def Let_def hung_def)
  qed (use k in simp_all)
next
  case (timer self name x timer now self' actions)
  then obtain y where y: "get_life self name = Some y"
    "lived self name (ten_extension_path_timer_on_triggered timer now y) = (self', actions)"
    by (auto simp: trigger_timer_def split: bind_splits)
  have "calm self self' actions"
    by (rule calm_lived [OF y(1) _ _ _ _ y(2)])
      (cases timer; auto simp: ten_extension_path_timer_on_triggered_def Let_def)+
  then have "calm (self\<lparr>et_agenda := [], et_runloop := et_runloop self\<rparr>) self' actions" by (simp add: calm_def)
  from hung_calm [OF timer.prems this, of "[]" "[]" "[]"] show ?case by simp
next
  case (looked_up self infos)
  then show ?case by (auto simp: ten_engine_find_extension_info_def Let_def hung_def post_def dest: notin_set_remove1)
qed (auto simp: hung_def post_def thread_defs Let_def)

lemma hung_stays: "thread_step\<^sup>*\<^sup>* t t' \<Longrightarrow> hung t \<Longrightarrow> hung t'"
  by (induction rule: rtranclp_induct) (auto intro: hung_step)

text \<open>C6: A thread that is asked to close while its extensions are being created never closes. Whatever
  extensions the addons create, there is a run in which they exist and the thread has been asked to
  close, and from there on, whatever the extensions, the engine and the addons do, every extension stays
  in its initial state, no callback is ever called, the group is never asked to end, and the thread never
  tells its engine that it can be removed: stopping the extensions skips those that have not been
  configured, and nothing configures them any more.
\<close>

theorem close_while_creating_hangs:
  assumes "xs \<noteq> []" "\<forall>x \<in> set xs. created_life x" "distinct (map lf_name xs)"
  shows "\<exists>t. thread_reachable t \<and> et_is_close_triggered t \<and> et_extensions t = xs \<and>
    (\<forall>t'. thread_step\<^sup>*\<^sup>* t t' \<longrightarrow>
       et_extensions t' \<noteq> [] \<and> (\<forall>x \<in> set (et_extensions t'). lf_state x = TEN_EXTENSION_STATE_INIT) \<and>
       et_called t' = [] \<and> et_group_state t' = TEN_EXTENSION_GROUP_STATE_INIT \<and>
       Remove_from_engine \<notin> set (et_out t') \<and> Extension_thread_closed \<notin> set (et_out t'))"
proof -
  define t where "t = example_thread"
  define t1 where "t1 = t\<lparr>et_runloop := [Group_init_done_task]\<rparr>"
  define t2 where "t2 = t\<lparr>et_runloop := [], et_state := TEN_EXTENSION_THREAD_STATE_CREATING_EXTENSIONS, et_creating := True\<rparr>"
  define t3 where "t3 = t2\<lparr>et_runloop := [Triggering_close_task]\<rparr>"
  define t4 where "t4 = t2\<lparr>et_is_close_triggered := True\<rparr>"
  define t5 where "t5 = t4\<lparr>et_creating := False, et_extensions := xs, et_store := map lf_name xs, et_out := [Find_extension_info]\<rparr>"
  note t = t_def example_thread_def ten_extension_thread_main_actual_def ten_extension_thread_create_def
  have r: "thread_reachable t" unfolding t_def example_thread_def by (rule thread_reachable.started)
  have "thread_step t (t1\<lparr>et_agenda := []\<rparr>)"
    by (rule thread_step.task [of _ Handle_start_msg_task "[]"]) (simp_all add: t1_def t post_def)
  with r have r: "thread_reachable t1" by (auto simp: t1_def t intro: thread_reachable.stepped)
  have "thread_step t1 (t2\<lparr>et_agenda := []\<rparr>)"
    by (rule thread_step.task [of _ Group_init_done_task "[]"])
      (simp_all add: t1_def t2_def t ten_extension_thread_on_extension_group_on_init_done_def)
  with r have r: "thread_reachable t2" by (auto simp: t2_def t intro: thread_reachable.stepped)
  have "thread_step t2 t3" using thread_step.close [of t2] by (simp add: t3_def t2_def t post_def)
  with r have r: "thread_reachable t3" by (rule thread_reachable.stepped)
  have "thread_step t3 (t4\<lparr>et_agenda := []\<rparr>)"
    by (rule thread_step.task [of _ Triggering_close_task "[]"])
      (simp_all add: t2_def t3_def t4_def t ten_extension_thread_on_triggering_close_def)
  with r have r: "thread_reachable t4" by (auto simp: t4_def t2_def t intro: thread_reachable.stepped)
  have add: "set (et_store u) \<inter> lf_name ` set ys = {} \<Longrightarrow> distinct (map lf_name ys) \<Longrightarrow>
      add_extensions u ys = Some (u\<lparr>et_store := et_store u @ map lf_name ys\<rparr>)" for u ys
    by (induction ys arbitrary: u) (auto simp: ten_extension_thread_add_extension_def)
  have "ten_extension_group_on_create_extensions_done t4 (map Some xs) = Some t5"
    using assms(3) by (simp add: ten_extension_group_on_create_extensions_done_def
        ten_extension_thread_add_all_created_extensions_def List.map_filter_def comp_def add emit_def t5_def t4_def t2_def t)
  with assms(2) have "thread_step t4 t5"
    by (intro thread_step.created [of _ "map Some xs"]) (auto simp: t4_def t2_def t)
  with r have r: "thread_reachable t5" by (rule thread_reachable.stepped)
  have "hung t5" using assms(1,2) by (auto simp: hung_def t5_def t4_def t2_def t created_life_def)
  then have "\<forall>t'. thread_step\<^sup>*\<^sup>* t5 t' \<longrightarrow> hung t'" using hung_stays by blast
  then show ?thesis
    using r by (intro exI [of _ t5]) (auto simp: hung_def t5_def t4_def)
qed

theorem close_while_creating_hangs_witness:
  "\<exists>t. thread_reachable t \<and> et_extensions t = [example_life ''a'' []] \<and>
    (\<forall>t'. thread_step\<^sup>*\<^sup>* t t' \<longrightarrow> Extension_thread_closed \<notin> set (et_out t'))"
proof -
  have "created_life (example_life ''a'' [])" by (simp add: created_life_def example_life_def example_extension_def)
  with close_while_creating_hangs [of "[example_life ''a'' []]"] show ?thesis by auto
qed

section \<open>An extension that stops before its turn\<close>

text \<open>C7: The assertion that no extension has begun to stop when the thread comes to stop it does not hold in
  every run. There is one in which an extension, in its on_stop, sends a command to another one that is
  still starting, which takes the command as the sign that it has started: with the thread closing it
  goes on to stop at once, and the thread, which comes to it only then, fails the assertion.
\<close>

theorem stop_assertion_can_fail:
  "\<exists>t. thread_reachable t \<and> et_agenda t = [Stop_if_done ''b''] \<and>
     (\<forall>te. perform te (t\<lparr>et_agenda := []\<rparr>) (Stop_if_done ''b'') = None)"
proof -
  have run: "case replay example_thread_env (example_start @ example_close) example_thread of None \<Rightarrow> False | Some t \<Rightarrow>
      et_agenda t = [Stop_if_done ''b''] \<and> Option.is_none (stop_if_done (t\<lparr>et_agenda := []\<rparr>) ''b'')"
    by code_simp
  then obtain t where t: "replay example_thread_env (example_start @ example_close) example_thread = Some t"
    "et_agenda t = [Stop_if_done ''b'']" "stop_if_done (t\<lparr>et_agenda := []\<rparr>) ''b'' = None"
    by (auto split: option.splits simp: Option.is_none_def)
  have "thread_reachable example_thread" unfolding example_thread_def by (rule thread_reachable.started)
  from replay_reachable [OF this t(1)] t(2,3) show ?thesis by auto
qed

end
