(* ===== verification/Engine_State.thy ===== *)
theory Engine_State
  imports Start_Graph Extension_Msg
begin

text \<open>
  The engine that runs a graph (\<open>ten_runtime/engine\<close>): its state, the remotes and connections to other
  apps (\<open>engine/internal/remote_interface.c\<close>, \<open>engine/engine.c\<close>, \<open>remote/remote.c\<close>), the timers
  (\<open>timer/timer.c\<close>), and its closing (\<open>engine/internal/close.c\<close>).

  What the functions ask of others, the threads of the extensions, the app, the connections, the event
  loop, the addons, is a list of effects in the order of the calls; what the others report is a function
  of its own. A connection reports that it has closed in a later task, never while it is being closed.
  The dispatching of a message can make others necessary, which the code does at once, by nested calls:
  the functions return them as a list of actions, to be done in this order before anything else.
\<close>

section \<open>Messages\<close>

text \<open>What a message carries beside the parts that all messages of its kind have.\<close>

datatype msg_body =
    No_body
  | Start_body start_graph
  | Stop_body string
  | Timeout_body "32 word"
  | Result_body msg_type

type_synonym engine_msg = "ten_msg \<times> msg_body"

abbreviation em_type :: "engine_msg \<Rightarrow> msg_type" where
  "em_type m \<equiv> ten_msg_get_type (fst m)"

abbreviation em_src :: "engine_msg \<Rightarrow> ten_loc" where
  "em_src m \<equiv> ten_msg_get_src_loc (fst m)"

abbreviation em_dest :: "engine_msg \<Rightarrow> ten_loc list" where
  "em_dest m \<equiv> ten_msg_get_dest (fst m)"

text \<open>A command of its type, as its constructor makes it.\<close>

definition ten_raw_cmd_init :: "msg_type \<Rightarrow> ten_cmd" where
  "ten_raw_cmd_init type =
     \<lparr>cb_is_cmd = True, cb_name = (case mi_msg_unique_name (ten_msg_info type) of None \<Rightarrow> [] | Some n \<Rightarrow> n),
      cb_cmd_id = [], cb_parent_cmd_id = [], cb_src_loc = ten_loc_init_empty, cb_dest_loc = [], cb_result_handler = 0,
      cb_result_handler_data = 0, cb_properties = V_object [],
      tc_timer = \<lparr>ct_timer_id = 0, ct_timeout_us = 0, ct_times = 0\<rparr>\<rparr>"

definition ten_cmd_timeout_create :: "32 word \<Rightarrow> engine_msg" where
  "ten_cmd_timeout_create timer_id = (M_cmd TEN_MSG_TYPE_CMD_TIMEOUT (ten_raw_cmd_init TEN_MSG_TYPE_CMD_TIMEOUT),
     Timeout_body timer_id)"

definition ten_cmd_stop_graph_create :: engine_msg where
  "ten_cmd_stop_graph_create = (M_cmd TEN_MSG_TYPE_CMD_STOP_GRAPH (ten_raw_cmd_init TEN_MSG_TYPE_CMD_STOP_GRAPH),
     Stop_body [])"

section \<open>State\<close>

datatype connection_state =
    TEN_CONNECTION_STATE_INIT
  | TEN_CONNECTION_STATE_CLOSING
  | TEN_CONNECTION_STATE_CLOSED

record connection =
  cn_addr :: nat
  cn_uri :: string
  cn_state :: connection_state
  cn_duplicate :: bool

datatype remote_state =
    TEN_REMOTE_STATE_INIT
  | TEN_REMOTE_STATE_CLOSING
  | TEN_REMOTE_STATE_CLOSED

record remote =
  rm_addr :: nat
  rm_uri :: string
  rm_state :: remote_state
  rm_connection :: connection
  rm_on_server_connected_cmd :: "engine_msg option"

record ten_timer =
  tm_addr :: nat
  tm_id :: "32 word"
  tm_timeout_us :: "64 word"
  tm_requested_times :: "32 word"
  tm_times :: "32 word"
  tm_auto_restart :: bool
  tm_is_closing :: bool
  tm_src_loc :: ten_loc

text \<open>The extension context; a thread is known by the name of its group.\<close>

record extension_context =
  ec_groups_info :: "graph_group list"
  ec_extensions_info :: "graph_extension list"
  ec_threads :: "string list"
  ec_cnt_of_ready :: nat
  ec_cnt_of_closed :: nat
  ec_total_cnt :: nat

datatype engine_task =
    Handle_in_msgs_task
  | Engine_close_task
  | Timer_stop_task nat
  | Timer_close_task nat

datatype engine_effect =
    Post_to_thread string engine_msg
  | Push_to_app engine_msg
  | Send_on_connection nat engine_msg
  | Close_connection nat
  | Connect_to nat string
  | Create_protocol string engine_msg
  | Close_protocol nat
  | Create_group string string
  | Create_extensions string "(string \<times> string) list"
  | Start_threads "string list"
  | Close_threads "string list"
  | Remove_thread string
  | Start_timer nat "64 word"
  | Close_timer nat
  | Engine_closed

text \<open>
  The remotes are in a table by their uri and in a list of those that are not confirmed yet; both
  refer to the remotes by address. A remote in neither is only referred to by its connection.
\<close>

record engine =
  eg_info :: ten_engine
  eg_is_closing :: bool
  eg_has_uncompleted_async_task :: bool
  eg_extension_context :: "extension_context option"
  eg_is_ready_to_handle_msg :: bool
  eg_path_table :: "msg_conversion path_table"
  eg_original_start_graph_cmd :: "engine_msg option"
  eg_cmd_stop_graph :: "engine_msg option"
  eg_timers :: "ten_timer list"
  eg_orphan_connections :: "connection list"
  eg_store :: "remote list"
  eg_remotes :: "nat list"
  eg_weak_remotes :: "nat list"
  eg_in_msgs :: "engine_msg list"
  eg_put_back :: "engine_msg list"
  eg_long_running_mode :: bool
  eg_next :: nat
  eg_runloop :: "engine_task list"
  eg_out :: "engine_effect list"

text \<open>What a nested call does.\<close>

datatype engine_action =
    Dispatch_msg engine_msg
  | Close_async
  | Forget_original
  | Remote_close nat
  | Forget_server_connected_cmd nat
  | Protocol_close nat
  | Handle_in_msg engine_msg
  | Prepend_put_back
  | Handle_pending
  | Restart_timer nat

record engine_env =
  ee_call :: call_env
  ee_queue_is_full :: "string \<Rightarrow> bool"
  ee_is_terminated :: "string \<Rightarrow> bool"
  ee_err_before_ready :: "string \<Rightarrow> bool"
  ee_has_protocol :: "string \<Rightarrow> bool"
  ee_has_group_addon :: "string \<Rightarrow> bool"

type_synonym engine_run = "(engine \<times> engine_action list) run"

definition emit_effect :: "engine \<Rightarrow> engine_effect \<Rightarrow> engine" where
  "emit_effect self x = self\<lparr>eg_out := eg_out self @ [x]\<rparr>"

definition post_task :: "engine \<Rightarrow> engine_task \<Rightarrow> engine" where
  "post_task self k = self\<lparr>eg_runloop := eg_runloop self @ [k]\<rparr>"

definition ten_engine_close_async :: "engine \<Rightarrow> engine" where
  "ten_engine_close_async self = post_task self Engine_close_task"

definition ten_engine_handle_in_msgs_async :: "engine \<Rightarrow> engine" where
  "ten_engine_handle_in_msgs_async self = post_task self Handle_in_msgs_task"

definition ten_engine_append_in_msg :: "engine \<Rightarrow> engine_msg \<Rightarrow> engine" where
  "ten_engine_append_in_msg self msg =
     ten_engine_handle_in_msgs_async (self\<lparr>eg_in_msgs := eg_in_msgs self @ [msg]\<rparr>)"

definition ten_engine_create :: "ten_engine \<Rightarrow> bool \<Rightarrow> engine" where
  "ten_engine_create info long_running_mode =
     \<lparr>eg_info = info, eg_is_closing = False, eg_has_uncompleted_async_task = False, eg_extension_context = None,
      eg_is_ready_to_handle_msg = False,
      eg_path_table = ten_path_table_create TEN_PATH_TABLE_ATTACH_TO_ENGINE 0 0,
      eg_original_start_graph_cmd = None, eg_cmd_stop_graph = None, eg_timers = [], eg_orphan_connections = [],
      eg_store = [], eg_remotes = [], eg_weak_remotes = [], eg_in_msgs = [], eg_put_back = [],
      eg_long_running_mode = long_running_mode, eg_next = 1, eg_runloop = [], eg_out = []\<rparr>"

section \<open>The closing of the engine\<close>

definition get_remote :: "engine \<Rightarrow> nat \<Rightarrow> remote option" where
  "get_remote self addr = find (\<lambda>r. rm_addr r = addr) (eg_store self)"

definition put_remote :: "engine \<Rightarrow> remote \<Rightarrow> engine" where
  "put_remote self r = self\<lparr>eg_store := map (\<lambda>x. if rm_addr x = rm_addr r then r else x) (eg_store self)\<rparr>"

definition destroy_remote :: "engine \<Rightarrow> nat \<Rightarrow> engine" where
  "destroy_remote self addr = self\<lparr>eg_store := filter (\<lambda>x. rm_addr x \<noteq> addr) (eg_store self)\<rparr>"

definition ten_engine_unclosed_remotes_cnt :: "engine \<Rightarrow> nat" where
  "ten_engine_unclosed_remotes_cnt self =
     length (filter (\<lambda>addr. map_option rm_state (get_remote self addr) \<noteq> Some TEN_REMOTE_STATE_CLOSED)
               (eg_remotes self @ eg_weak_remotes self))"

definition ten_engine_could_be_close :: "engine \<Rightarrow> bool" where
  "ten_engine_could_be_close self \<longleftrightarrow>
     ten_engine_unclosed_remotes_cnt self = 0 \<and> eg_timers self = [] \<and> eg_extension_context self = None \<and>
     \<not> eg_has_uncompleted_async_task self"

definition ten_engine_do_close :: "engine \<Rightarrow> engine" where
  "ten_engine_do_close self = emit_effect self Engine_closed"

definition ten_engine_on_close :: "engine \<Rightarrow> engine" where
  "ten_engine_on_close self = (if ten_engine_could_be_close self then ten_engine_do_close self else self)"

section \<open>Remotes\<close>

definition ten_engine_find_weak_remote :: "engine \<Rightarrow> string \<Rightarrow> nat option" where
  "ten_engine_find_weak_remote self uri =
     find (\<lambda>addr. map_option rm_uri (get_remote self addr) = Some uri) (eg_weak_remotes self)"

definition ten_engine_weak_remotes_cnt_in_specified_uri :: "engine \<Rightarrow> string \<Rightarrow> nat" where
  "ten_engine_weak_remotes_cnt_in_specified_uri self uri =
     length (filter (\<lambda>addr. map_option rm_uri (get_remote self addr) = Some uri) (eg_weak_remotes self))"

definition ten_engine_del_weak_remote :: "engine \<Rightarrow> nat \<Rightarrow> bool \<times> engine" where
  "ten_engine_del_weak_remote self addr =
     (addr \<in> set (eg_weak_remotes self), self\<lparr>eg_weak_remotes := remove1 addr (eg_weak_remotes self)\<rparr>)"

text \<open>The table finds the entry of a key that was added last.\<close>

definition ten_engine_find_remote :: "engine \<Rightarrow> string \<Rightarrow> nat option" where
  "ten_engine_find_remote self uri =
     find (\<lambda>addr. map_option rm_uri (get_remote self addr) = Some uri) (rev (eg_remotes self))"

definition ten_engine_add_remote :: "engine \<Rightarrow> nat \<Rightarrow> engine" where
  "ten_engine_add_remote self addr = self\<lparr>eg_remotes := eg_remotes self @ [addr]\<rparr>"

definition ten_engine_add_weak_remote :: "engine \<Rightarrow> nat \<Rightarrow> string \<Rightarrow> engine run" where
  "ten_engine_add_weak_remote self addr uri =
     do { ten_assert (ten_engine_find_weak_remote self uri = None);
          Some (self\<lparr>eg_weak_remotes := eg_weak_remotes self @ [addr]\<rparr>) }"

definition ten_engine_upgrade_weak_remote_to_normal_remote :: "engine \<Rightarrow> nat \<Rightarrow> engine" where
  "ten_engine_upgrade_weak_remote_to_normal_remote self addr =
     ten_engine_add_remote (snd (ten_engine_del_weak_remote self addr)) addr"

definition ten_engine_check_remote_is_existed :: "engine \<Rightarrow> string \<Rightarrow> nat option" where
  "ten_engine_check_remote_is_existed self uri =
     (case ten_engine_find_remote self uri of
        Some r \<Rightarrow> Some r
      | None \<Rightarrow> ten_engine_find_weak_remote self uri)"

text \<open>The characters are compared as signed bytes, the lengths come first.\<close>

fun chars_equal_or_smaller :: "string \<Rightarrow> string \<Rightarrow> bool" where
  "chars_equal_or_smaller (a # as) (b # bs) =
     (let x = sint (of_char a :: 8 word); y = sint (of_char b :: 8 word)
      in if x < y then True else if y < x then False else chars_equal_or_smaller as bs)"
| "chars_equal_or_smaller _ _ = True"

definition ten_c_string_is_equal_or_smaller :: "string \<Rightarrow> string \<Rightarrow> bool" where
  "ten_c_string_is_equal_or_smaller a b =
     (if length a < length b then True else if length b < length a then False else chars_equal_or_smaller a b)"

definition ten_engine_check_remote_is_duplicated :: "engine \<Rightarrow> string \<Rightarrow> bool" where
  "ten_engine_check_remote_is_duplicated self uri \<longleftrightarrow>
     ten_engine_check_remote_is_existed self uri \<noteq> None \<and>
     ten_c_string_is_equal_or_smaller uri (en_app_uri (eg_info self))"

text \<open>A remote that was in the table and closes ends the graph, unless it runs on its own.\<close>

definition ten_engine_on_remote_closed :: "engine \<Rightarrow> remote \<Rightarrow> engine run" where
  "ten_engine_on_remote_closed self r =
     do { ten_assert (ten_engine_weak_remotes_cnt_in_specified_uri self (rm_uri r) \<le> 1);
          let (is_weak, self) = ten_engine_del_weak_remote self (rm_addr r);
          let found_in_remotes = (ten_engine_find_remote self (rm_uri r) = Some (rm_addr r));
          if \<not> is_weak \<and> \<not> found_in_remotes then Some (destroy_remote self (rm_addr r))
          else do { let self = (if is_weak then self
                                else self\<lparr>eg_remotes := remove1 (rm_addr r) (eg_remotes self)\<rparr>);
                    let self = destroy_remote self (rm_addr r);
                    Some (if eg_is_closing self then ten_engine_on_close self
                          else if \<not> is_weak \<and> \<not> eg_long_running_mode self then ten_engine_close_async self
                          else self) } }"

definition ten_remote_on_close :: "engine \<Rightarrow> remote \<Rightarrow> engine run" where
  "ten_remote_on_close self r =
     (if cn_state (rm_connection r) \<noteq> TEN_CONNECTION_STATE_CLOSED then Some self
      else let r = r\<lparr>rm_state := TEN_REMOTE_STATE_CLOSED\<rparr>
           in ten_engine_on_remote_closed (put_remote self r) r)"

definition ten_connection_close :: "engine \<Rightarrow> connection \<Rightarrow> engine \<times> connection" where
  "ten_connection_close self c =
     (if cn_state c \<noteq> TEN_CONNECTION_STATE_INIT then (self, c)
      else (emit_effect self (Close_connection (cn_addr c)), c\<lparr>cn_state := TEN_CONNECTION_STATE_CLOSING\<rparr>))"

definition ten_remote_close :: "engine \<Rightarrow> nat \<Rightarrow> engine run" where
  "ten_remote_close self addr =
     do { r \<leftarrow> get_remote self addr;
          if rm_state r = TEN_REMOTE_STATE_CLOSING then Some self
          else do { let r = r\<lparr>rm_state := TEN_REMOTE_STATE_CLOSING\<rparr>;
                    if cn_state (rm_connection r) = TEN_CONNECTION_STATE_INIT
                    then (let (self, c) = ten_connection_close self (rm_connection r)
                          in Some (put_remote self (r\<lparr>rm_connection := c\<rparr>)))
                    else ten_remote_on_close (put_remote self r) r } }"

definition ten_remote_on_connection_closed :: "engine \<Rightarrow> remote \<Rightarrow> engine run" where
  "ten_remote_on_connection_closed self r =
     do { let r = r\<lparr>rm_connection := (rm_connection r)\<lparr>cn_state := TEN_CONNECTION_STATE_CLOSED\<rparr>\<rparr>;
          let self = put_remote self r;
          if rm_state r = TEN_REMOTE_STATE_CLOSING then ten_remote_on_close self r
          else ten_remote_close self (rm_addr r) }"

definition ten_remote_create_for_engine :: "engine \<Rightarrow> string \<Rightarrow> connection \<Rightarrow> engine \<times> nat" where
  "ten_remote_create_for_engine self uri c =
     (let addr = eg_next self
      in (self\<lparr>eg_store := eg_store self @ [\<lparr>rm_addr = addr, rm_uri = uri, rm_state = TEN_REMOTE_STATE_INIT,
                 rm_connection = c, rm_on_server_connected_cmd = None\<rparr>], eg_next := addr + 1\<rparr>, addr))"

section \<open>Connections that belong to no remote\<close>

definition ten_engine_find_orphan_connection :: "engine \<Rightarrow> string \<Rightarrow> connection option" where
  "ten_engine_find_orphan_connection self uri =
     (if uri = [] then None else find (\<lambda>c. cn_uri c = uri) (eg_orphan_connections self))"

definition ten_engine_add_orphan_connection :: "engine \<Rightarrow> connection \<Rightarrow> engine" where
  "ten_engine_add_orphan_connection self c = self\<lparr>eg_orphan_connections := eg_orphan_connections self @ [c]\<rparr>"

definition ten_engine_del_orphan_connection :: "engine \<Rightarrow> connection \<Rightarrow> engine run" where
  "ten_engine_del_orphan_connection self c =
     do { ten_assert (c \<in> set (eg_orphan_connections self));
          Some (self\<lparr>eg_orphan_connections := remove1 c (eg_orphan_connections self)\<rparr>) }"

definition ten_engine_on_orphan_connection_closed :: "engine \<Rightarrow> connection \<Rightarrow> engine run" where
  "ten_engine_on_orphan_connection_closed self c =
     do { self \<leftarrow> ten_engine_del_orphan_connection self c;
          Some (if eg_is_closing self then ten_engine_on_close self else self) }"

definition ten_engine_link_orphan_connection_to_remote :: "engine \<Rightarrow> connection \<Rightarrow> string \<Rightarrow> engine run" where
  "ten_engine_link_orphan_connection_to_remote self c uri =
     do { ten_assert (ten_engine_find_remote self uri = None);
          let (self, addr) = ten_remote_create_for_engine self uri c;
          ten_engine_del_orphan_connection (ten_engine_add_remote self addr) c }"

text \<open>A connection has closed: an orphan, or the one of a remote.\<close>

definition ten_connection_do_close :: "engine \<Rightarrow> nat \<Rightarrow> engine run" where
  "ten_connection_do_close self addr =
     (case find (\<lambda>c. cn_addr c = addr) (eg_orphan_connections self) of
        Some c \<Rightarrow> ten_engine_on_orphan_connection_closed self c
      | None \<Rightarrow>
          do { r \<leftarrow> find (\<lambda>r. cn_addr (rm_connection r) = addr) (eg_store self);
               ten_remote_on_connection_closed self r })"

definition ten_connection_send_msg :: "engine \<Rightarrow> connection \<Rightarrow> engine_msg \<Rightarrow> engine run" where
  "ten_connection_send_msg self c msg =
     do { ten_assert (length (em_dest msg) = 1);
          Some (if cn_state c \<noteq> TEN_CONNECTION_STATE_INIT then self
                else emit_effect self (Send_on_connection (cn_addr c) msg)) }"

definition ten_remote_send_msg :: "engine \<Rightarrow> nat \<Rightarrow> engine_msg \<Rightarrow> (ten_error + engine) run" where
  "ten_remote_send_msg self addr msg =
     do { r \<leftarrow> get_remote self addr;
          if rm_state r = TEN_REMOTE_STATE_CLOSING
          then Some (Inl (ten_error_set ten_error_init TEN_ERROR_CODE_TEN_IS_CLOSED
                 ''Remote is closing, do not proceed to send this message.''))
          else do { ten_assert (\<not> cn_duplicate (rm_connection r));
                    map_option Inr (ten_connection_send_msg self (rm_connection r) msg) } }"

section \<open>Timers\<close>

definition find_timer :: "engine \<Rightarrow> nat \<Rightarrow> ten_timer option" where
  "find_timer self addr = find (\<lambda>t. tm_addr t = addr) (eg_timers self)"

definition put_timer :: "engine \<Rightarrow> ten_timer \<Rightarrow> engine" where
  "put_timer self t = self\<lparr>eg_timers := map (\<lambda>x. if tm_addr x = tm_addr t then t else x) (eg_timers self)\<rparr>"

definition ten_timer_stop_async :: "engine \<Rightarrow> ten_timer \<Rightarrow> engine" where
  "ten_timer_stop_async self t = post_task self (Timer_stop_task (tm_addr t))"

definition ten_timer_close_async :: "engine \<Rightarrow> ten_timer \<Rightarrow> engine" where
  "ten_timer_close_async self t =
     (if tm_is_closing t then self
      else post_task (put_timer self (t\<lparr>tm_is_closing := True\<rparr>)) (Timer_close_task (tm_addr t)))"

abbreviation TEN_TIMER_INFINITE :: int where "TEN_TIMER_INFINITE \<equiv> 0"
abbreviation TEN_TIMER_CANCEL :: int where "TEN_TIMER_CANCEL \<equiv> -1"

definition ten_timer_create_with_cmd :: "nat \<Rightarrow> ten_cmd \<Rightarrow> ten_timer" where
  "ten_timer_create_with_cmd addr cmd =
     \<lparr>tm_addr = addr, tm_id = ct_timer_id (tc_timer cmd), tm_timeout_us = ct_timeout_us (tc_timer cmd),
      tm_requested_times = ct_times (tc_timer cmd), tm_times = 0, tm_auto_restart = True, tm_is_closing = False,
      tm_src_loc = ten_loc_set_from_loc ten_loc_init_empty (cb_src_loc cmd)\<rparr>"

definition ten_timer_enable :: "engine \<Rightarrow> ten_timer \<Rightarrow> engine" where
  "ten_timer_enable self t =
     (if sint (tm_requested_times t) \<noteq> TEN_TIMER_INFINITE \<and> sint (tm_requested_times t) \<le> sint (tm_times t)
      then ten_timer_close_async (ten_timer_stop_async self t) t
      else emit_effect self (Start_timer (tm_addr t) (tm_timeout_us t div 1000)))"

text \<open>
  The event loop calls a timer when its time has come. The timeout is dispatched at once, and after
  that the timer is started again or closed; the sum of an infinite timer overflows in the end, which is
  undefined.
\<close>

definition ten_timer_on_trigger :: "engine \<Rightarrow> nat \<Rightarrow> engine_run" where
  "ten_timer_on_trigger self addr =
     do { t \<leftarrow> find_timer self addr;
          ten_assert (sint (tm_times t) + 1 < 2 ^ 31);
          let t = t\<lparr>tm_times := tm_times t + 1\<rparr>;
          ten_assert (sint (tm_requested_times t) = TEN_TIMER_INFINITE \<or> sint (tm_times t) \<le> sint (tm_requested_times t));
          let (msg, body) = ten_cmd_timeout_create (tm_id t);
          let msg = ten_raw_msg_clear_and_set_dest_to_loc (ten_msg_set_src_to_engine msg (eg_info self)) (tm_src_loc t);
          Some (put_timer self t, [Dispatch_msg (msg, body)] @ (if tm_auto_restart t then [Restart_timer addr] else [])) }"

definition timer_restart :: "engine \<Rightarrow> nat \<Rightarrow> engine run" where
  "timer_restart self addr =
     do { t \<leftarrow> find_timer self addr;
          Some (if sint (tm_requested_times t) = TEN_TIMER_INFINITE \<or> sint (tm_times t) < sint (tm_requested_times t)
                then ten_timer_enable self t
                else ten_timer_close_async (ten_timer_stop_async self t) t) }"

text \<open>The tasks of a timer; one that is gone has been freed.\<close>

definition ten_timer_stop_task :: "engine \<Rightarrow> nat \<Rightarrow> engine run" where
  "ten_timer_stop_task self addr = do { t \<leftarrow> find_timer self addr; Some self }"

definition ten_timer_close_task :: "engine \<Rightarrow> nat \<Rightarrow> engine run" where
  "ten_timer_close_task self addr = do { t \<leftarrow> find_timer self addr; Some (emit_effect self (Close_timer addr)) }"

definition ten_engine_on_timer_closed :: "engine \<Rightarrow> nat \<Rightarrow> engine run" where
  "ten_engine_on_timer_closed self addr =
     do { t \<leftarrow> find_timer self addr;
          let self = self\<lparr>eg_timers := filter (\<lambda>x. tm_addr x \<noteq> addr) (eg_timers self)\<rparr>;
          Some (if eg_is_closing self then ten_engine_on_close self else self) }"

section \<open>The extension context\<close>

definition ten_extension_context_create :: extension_context where
  "ten_extension_context_create =
     \<lparr>ec_groups_info = [], ec_extensions_info = [], ec_threads = [], ec_cnt_of_ready = 0, ec_cnt_of_closed = 0,
      ec_total_cnt = 0\<rparr>"

definition ten_engine_on_extension_context_closed :: "engine \<Rightarrow> engine" where
  "ten_engine_on_extension_context_closed self =
     (let self = self\<lparr>eg_extension_context := None\<rparr>
      in if eg_is_closing self then ten_engine_on_close self else self)"

definition ten_extension_context_close :: "engine \<Rightarrow> extension_context \<Rightarrow> engine" where
  "ten_extension_context_close self c =
     (if ec_threads c = [] then ten_engine_on_extension_context_closed self
      else emit_effect (self\<lparr>eg_extension_context :=
             Some (c\<lparr>ec_cnt_of_closed := 0, ec_total_cnt := length (ec_threads c)\<rparr>)\<rparr>) (Close_threads (ec_threads c)))"

definition ten_engine_on_remove_extension_thread_from_engine :: "engine \<Rightarrow> string \<Rightarrow> engine run" where
  "ten_engine_on_remove_extension_thread_from_engine self thread =
     do { c \<leftarrow> eg_extension_context self;
          Some (emit_effect (self\<lparr>eg_extension_context := Some (c\<lparr>ec_threads := remove1 thread (ec_threads c)\<rparr>)\<rparr>)
                  (Remove_thread thread)) }"

definition ten_engine_on_extension_thread_closed_task :: "engine \<Rightarrow> engine run" where
  "ten_engine_on_extension_thread_closed_task self =
     do { c \<leftarrow> eg_extension_context self;
          let c = c\<lparr>ec_cnt_of_closed := ec_cnt_of_closed c + 1\<rparr>;
          let self = self\<lparr>eg_extension_context := Some c\<rparr>;
          if ec_cnt_of_closed c = ec_total_cnt c
          then do { ten_assert (ec_threads c = []); Some (ten_engine_on_extension_context_closed self) }
          else Some self }"

section \<open>Closing\<close>

text \<open>Everything the engine has is closed, in this order.\<close>

fun close_timers :: "engine \<Rightarrow> nat list \<Rightarrow> engine run" where
  "close_timers self [] = Some self"
| "close_timers self (addr # addrs) =
     do { t \<leftarrow> find_timer self addr; close_timers (ten_timer_close_async (ten_timer_stop_async self t) t) addrs }"

fun close_remotes :: "engine \<Rightarrow> nat list \<Rightarrow> engine run" where
  "close_remotes self [] = Some self"
| "close_remotes self (addr # addrs) = do { self \<leftarrow> ten_remote_close self addr; close_remotes self addrs }"

definition ten_engine_close_sync :: "engine \<Rightarrow> engine run" where
  "ten_engine_close_sync self =
     do { let self = self\<lparr>eg_is_closing := True\<rparr>;
          let nothing_to_do = (eg_timers self = [] \<and> eg_extension_context self = None \<and> eg_remotes self = [] \<and>
            eg_weak_remotes self = [] \<and> \<not> eg_has_uncompleted_async_task self);
          self \<leftarrow> close_timers self (map tm_addr (eg_timers self));
          let self = (case eg_extension_context self of None \<Rightarrow> self | Some c \<Rightarrow> ten_extension_context_close self c);
          self \<leftarrow> close_remotes self (eg_remotes self);
          self \<leftarrow> close_remotes self (eg_weak_remotes self);
          Some (if nothing_to_do then ten_engine_on_close self else self) }"

definition ten_engine_close_task :: "engine \<Rightarrow> engine run" where
  "ten_engine_close_task self = (if eg_is_closing self then Some self else ten_engine_close_sync self)"

end
