(* ===== verification/Engine_Msg.thy ===== *)
theory Engine_Msg
  imports Engine_State
begin

text \<open>
  The messages of an engine (\<open>engine/msg_interface\<close>, \<open>engine/internal\<close>): where each one goes, the commands the
  engine handles itself, the start of the graph, and the steps an engine can take.
\<close>

section \<open>Results\<close>

definition engine_cmd :: "engine_msg \<Rightarrow> ten_cmd run" where
  "engine_cmd msg = (case fst msg of M_cmd _ c \<Rightarrow> Some c | _ \<Rightarrow> None)"

definition cmd_result_from :: "int \<Rightarrow> engine_msg \<Rightarrow> cmd_result run" where
  "cmd_result_from status_code msg = do { c \<leftarrow> engine_cmd msg; ten_cmd_result_create_from_cmd status_code c }"

definition result_msg :: "engine_msg \<Rightarrow> cmd_result \<Rightarrow> engine_msg" where
  "result_msg msg r = (M_result r, Result_body (em_type msg))"

definition ten_engine_create_cmd_result_and_dispatch :: "engine_msg \<Rightarrow> int \<Rightarrow> string \<Rightarrow> engine_action run" where
  "ten_engine_create_cmd_result_and_dispatch origin_cmd status_code detail =
     do { ten_assert (ten_msg_is_cmd (fst origin_cmd));
          r \<leftarrow> cmd_result_from status_code origin_cmd;
          Some (Dispatch_msg (result_msg origin_cmd (set_detail (ten_cmd_result_set_final r True) detail))) }"

definition ten_engine_create_cmd_result_for_invalid_dest :: "engine_msg \<Rightarrow> engine_msg run" where
  "ten_engine_create_cmd_result_for_invalid_dest origin_cmd =
     do { ten_assert (ten_msg_is_cmd_and_result (fst origin_cmd));
          r \<leftarrow> cmd_result_from TEN_STATUS_CODE_ERROR origin_cmd;
          Some (result_msg origin_cmd (set_detail r ''Failed to find destination.'')) }"

definition ten_engine_return_ok_for_cmd_start_graph :: "engine_msg \<Rightarrow> engine_action run" where
  "ten_engine_return_ok_for_cmd_start_graph cmd =
     do { ten_assert (em_type cmd = TEN_MSG_TYPE_CMD_START_GRAPH);
          ten_engine_create_cmd_result_and_dispatch cmd TEN_STATUS_CODE_OK [] }"

definition ten_engine_return_error_for_cmd_start_graph :: "engine_msg \<Rightarrow> string \<Rightarrow> engine_action list run" where
  "ten_engine_return_error_for_cmd_start_graph cmd detail =
     do { ten_assert (em_type cmd = TEN_MSG_TYPE_CMD_START_GRAPH);
          r \<leftarrow> ten_engine_create_cmd_result_and_dispatch cmd TEN_STATUS_CODE_ERROR detail;
          Some [r, Close_async] }"

section \<open>Dispatching\<close>

text \<open>The queue of the app takes commands and results only.\<close>

definition push_to_app :: "engine \<Rightarrow> engine_msg \<Rightarrow> engine run" where
  "push_to_app self msg =
     do { ten_assert (ten_msg_is_cmd_and_result (fst msg));
          ten_assert (case fst msg of M_cmd _ c \<Rightarrow> cb_cmd_id c \<noteq> [] | M_result r \<Rightarrow> cb_cmd_id r \<noteq> [] | _ \<Rightarrow> False);
          ten_assert (length (em_dest msg) = 1);
          Some (emit_effect self (Push_to_app msg)) }"

definition ten_engine_route_msg_to_remote :: "engine \<Rightarrow> engine_msg \<Rightarrow> engine_run" where
  "ten_engine_route_msg_to_remote self msg =
     do { dest_uri \<leftarrow> ten_raw_msg_get_first_dest_uri (fst msg);
          sent \<leftarrow> (case ten_engine_find_remote self dest_uri of
                    Some r \<Rightarrow> ten_remote_send_msg self r msg
                  | None \<Rightarrow> Some (Inl (ten_error_set ten_error_init TEN_ERROR_CODE_GENERIC
                      (''Could not find suitable remote based on uri: '' @ dest_uri))));
          case sent of
            Inr self \<Rightarrow> Some (self, [])
          | Inl err \<Rightarrow>
              if ten_msg_is_cmd (fst msg)
              then do { r \<leftarrow> ten_engine_create_cmd_result_and_dispatch msg TEN_STATUS_CODE_ERROR (error_message err);
                        Some (self, [r]) }
              else Some (self, []) }"

definition ten_engine_post_msg_to_extension_thread :: "engine_env \<Rightarrow> engine \<Rightarrow> string \<Rightarrow> engine_msg \<Rightarrow> engine_run" where
  "ten_engine_post_msg_to_extension_thread e self thread msg =
     (if ee_queue_is_full e thread \<and> \<not> ten_msg_is_cmd_and_result (fst msg) then Some (self, [])
      else if ee_is_terminated e thread
      then (if ten_msg_is_cmd (fst msg)
            then do { r \<leftarrow> ten_engine_create_cmd_result_and_dispatch msg TEN_STATUS_CODE_ERROR
                             ''The destination extension has been terminated.'';
                      Some (self, [r]) }
            else Some (self, []))
      else Some (emit_effect self (Post_to_thread thread msg), []))"

text \<open>The description of an extension gives its group, and the group its thread.\<close>

definition ten_extension_context_get_extension_info_by_name ::
  "extension_context \<Rightarrow> ten_loc \<Rightarrow> graph_extension option" where
  "ten_extension_context_get_extension_info_by_name c loc = find (\<lambda>x. gx_loc x = loc) (ec_extensions_info c)"

definition find_extension_thread :: "extension_context \<Rightarrow> ten_loc \<Rightarrow> string option" where
  "find_extension_thread c loc =
     (case ten_extension_context_get_extension_info_by_name c loc of
        None \<Rightarrow> None
      | Some x \<Rightarrow> find (\<lambda>t. t = gx_group x) (ec_threads c))"

section \<open>The start of the graph\<close>

text \<open>What the extension context does when it starts: the groups of this app are created one after the other.\<close>

definition start_body :: "engine_msg \<Rightarrow> start_graph run" where
  "start_body msg = (case snd msg of Start_body b \<Rightarrow> Some b | _ \<Rightarrow> None)"

definition add_infos_from_graph :: "extension_context \<Rightarrow> start_graph \<Rightarrow> extension_context run" where
  "add_infos_from_graph c body =
     do { ten_assert (ec_extensions_info c = [] \<and> ec_groups_info c = []);
          Some (c\<lparr>ec_extensions_info := sg_extensions body, ec_groups_info := sg_groups body\<rparr>) }"

fun create_groups :: "engine_env \<Rightarrow> engine \<Rightarrow> graph_group list \<Rightarrow> bool \<times> engine" where
  "create_groups e self [] = (True, self)"
| "create_groups e self (g # gs) =
     (if loc_app_uri (gg_loc g) \<noteq> en_app_uri (eg_info self) then create_groups e self gs
      else if \<not> ee_has_group_addon e (gg_addon g) then (False, self)
      else create_groups e (emit_effect self (Create_group (gg_addon g) (gg_name g))) gs)"

definition ten_extension_context_start_extension_group ::
  "engine_env \<Rightarrow> engine \<Rightarrow> extension_context \<Rightarrow> engine_msg \<Rightarrow> (bool \<times> engine) run" where
  "ten_extension_context_start_extension_group e self c original =
     do { body \<leftarrow> start_body original;
          if sg_groups body = []
          then do { c \<leftarrow> add_infos_from_graph c body;
                    let body = body\<lparr>sg_extensions := []\<rparr>;
                    Some (True, emit_effect (self\<lparr>eg_extension_context := Some c,
                                  eg_original_start_graph_cmd := Some (fst original, Start_body body)\<rparr>)
                                (Start_threads (ec_threads c))) }
          else Some (create_groups e self (sg_groups body)) }"

definition ten_engine_enable_extension_system :: "engine_env \<Rightarrow> engine \<Rightarrow> engine_run" where
  "ten_engine_enable_extension_system e self =
     do { original \<leftarrow> eg_original_start_graph_cmd self;
          if eg_is_closing self
          then do { acts \<leftarrow> ten_engine_return_error_for_cmd_start_graph original
                               ''Engine is closing, do not enable extension system.'';
                    Some (self, acts @ [Forget_original]) }
          else if eg_extension_context self \<noteq> None
          then do { r \<leftarrow> ten_engine_return_ok_for_cmd_start_graph original; Some (self, [r, Forget_original]) }
          else do { let c = ten_extension_context_create;
                    let self = self\<lparr>eg_extension_context := Some c\<rparr>;
                    (ok, self) \<leftarrow> ten_extension_context_start_extension_group e self c original;
                    if ok then Some (self, [])
                    else do { acts \<leftarrow> ten_engine_return_error_for_cmd_start_graph original
                                 (''['' @ en_app_uri (eg_info self) @ ''] Failed to start the extension system.'');
                              Some (self, acts @ [Forget_original]) } } }"

text \<open>A group has been created by its addon; with the last one the threads are started.\<close>

definition ten_extension_context_create_extension_group_done ::
  "engine \<Rightarrow> string \<Rightarrow> string \<Rightarrow> engine run" where
  "ten_extension_context_create_extension_group_done self addon_name name =
     do { c \<leftarrow> eg_extension_context self;
          original \<leftarrow> eg_original_start_graph_cmd self;
          body \<leftarrow> start_body original;
          self \<leftarrow> (if addon_name = ''default_extension_group''
                  then do { ten_assert (em_type original = TEN_MSG_TYPE_CMD_START_GRAPH \<and> length (em_dest original) = 1);
                            let dest_loc = hd (em_dest original);
                            Some (emit_effect self (Create_extensions name
                              (ten_cmd_start_graph_get_extension_addon_and_instance_name_pairs_of_specified_extension_group
                                 body (loc_app_uri dest_loc) (loc_graph_id dest_loc) name))) }
                  else Some self);
          let c = c\<lparr>ec_threads := ec_threads c @ [name]\<rparr>;
          if length (filter (\<lambda>g. loc_app_uri (gg_loc g) = en_app_uri (eg_info self)) (sg_groups body)) \<noteq> length (ec_threads c)
          then Some (self\<lparr>eg_extension_context := Some c\<rparr>)
          else do { c \<leftarrow> add_infos_from_graph c body;
                    ten_assert (list_ex (\<lambda>g. loc_app_uri (gg_loc g) = en_app_uri (eg_info self) \<and> gg_name g = name)
                                  (ec_groups_info c));
                    let body = body\<lparr>sg_extensions := [], sg_groups := []\<rparr>;
                    Some (emit_effect (self\<lparr>eg_extension_context := Some c,
                            eg_original_start_graph_cmd := Some (fst original, Start_body body)\<rparr>)
                          (Start_threads (ec_threads c))) } }"

text \<open>
  An extension thread has created its extensions and asks for their descriptions. With the last one the
  graph is ready, or it is stopped when a thread had an error.
\<close>

definition ten_engine_check_if_all_extension_threads_are_ready :: "engine_env \<Rightarrow> engine \<Rightarrow> engine_run" where
  "ten_engine_check_if_all_extension_threads_are_ready e self =
     do { c \<leftarrow> eg_extension_context self;
          let c = c\<lparr>ec_cnt_of_ready := ec_cnt_of_ready c + 1\<rparr>;
          let self = self\<lparr>eg_extension_context := Some c\<rparr>;
          if ec_cnt_of_ready c \<noteq> length (ec_threads c) then Some (self, [])
          else do { original \<leftarrow> eg_original_start_graph_cmd self;
                    if list_ex (ee_err_before_ready e) (ec_threads c)
                    then do { r \<leftarrow> cmd_result_from TEN_STATUS_CODE_ERROR original;
                              let (stop, body) = ten_cmd_stop_graph_create;
                              stop \<leftarrow> (case ten_raw_msg_clear_and_set_dest stop (Some (en_app_uri (eg_info self)))
                                              (Some (en_graph_id (eg_info self))) None of
                                        M_cmd t c \<Rightarrow> Some (M_cmd t (ten_cmd_base_gen_new_cmd_id_forcibly
                                                                     (ce_msg_uuid (ee_call e) 0) c))
                                      | _ \<Rightarrow> None);
                              Some (self, [Dispatch_msg (result_msg original r), Forget_original,
                                           Dispatch_msg (stop, body)]) }
                    else do { r \<leftarrow> cmd_result_from TEN_STATUS_CODE_OK original;
                              let r = set_detail r (en_graph_id (eg_info self));
                              Some (self\<lparr>eg_is_ready_to_handle_msg := True\<rparr>,
                                    [Dispatch_msg (result_msg original r), Forget_original, Handle_pending]) } } }"

text \<open>Another app is to run its part of the graph: a connection to it is made first.\<close>

definition ten_engine_create_remote_async :: "engine_env \<Rightarrow> engine \<Rightarrow> string \<Rightarrow> engine_msg \<Rightarrow> bool \<times> engine" where
  "ten_engine_create_remote_async e self uri cmd =
     (if ee_has_protocol e uri
      then (True, emit_effect (self\<lparr>eg_has_uncompleted_async_task := True\<rparr>) (Create_protocol uri cmd))
      else (False, self))"

definition ten_engine_connect_to_graph_remote :: "engine_env \<Rightarrow> engine \<Rightarrow> string \<Rightarrow> engine_msg \<Rightarrow> (bool \<times> engine) run" where
  "ten_engine_connect_to_graph_remote e self uri cmd =
     do { ten_assert (em_type cmd = TEN_MSG_TYPE_CMD_START_GRAPH);
          Some (ten_engine_create_remote_async e self uri cmd) }"

text \<open>The copy of the command for the other app, and the path its result takes.\<close>

definition child_cmd :: "engine_env \<Rightarrow> nat \<Rightarrow> engine \<Rightarrow> engine_msg \<Rightarrow> string \<Rightarrow> (engine_msg \<times> engine \<times> nat) run" where
  "child_cmd e i self cmd dest_uri =
     do { body \<leftarrow> start_body cmd;
          body \<leftarrow> ten_raw_cmd_start_graph_as_msg_clone body;
          msg \<leftarrow> ten_msg_clone False (ce_msg_uuid (ee_call e) i) (fst cmd);
          msg \<leftarrow> msg;
          let body = ten_cmd_start_graph_set_predefined_graph_name body [];
          let msg = ten_raw_msg_clear_and_set_dest (ten_msg_set_src_to_engine msg (eg_info self)) (Some dest_uri)
                      (Some (en_graph_id (eg_info self))) None;
          c \<leftarrow> engine_cmd (msg, Start_body body);
          (out_path, pt, c) \<leftarrow> ten_path_table_add_out_path (ce_clock (ee_call e) i) (eg_path_table self) c;
          Some ((M_cmd TEN_MSG_TYPE_CMD_START_GRAPH c, Start_body body), self\<lparr>eg_path_table := pt\<rparr>, out_path) }"

text \<open>Gives the paths of the commands sent, or the app that could not be reached.\<close>

fun connect_apps ::
  "engine_env \<Rightarrow> nat \<Rightarrow> engine \<Rightarrow> engine_msg \<Rightarrow> string list \<Rightarrow> nat list \<Rightarrow> (engine \<times> (string + nat list)) run" where
  "connect_apps e i self cmd [] new_works = Some (self, Inr new_works)"
| "connect_apps e i self cmd (dest_uri # uris) new_works =
     (if ten_engine_check_remote_is_existed self dest_uri \<noteq> None then connect_apps e (i + 1) self cmd uris new_works
      else do { (child, self, out_path) \<leftarrow> child_cmd e i self cmd dest_uri;
                (ok, self) \<leftarrow> ten_engine_connect_to_graph_remote e self dest_uri child;
                if \<not> ok then Some (self, Inl dest_uri)
                else connect_apps e (i + 1) self cmd uris (new_works @ [out_path]) })"

definition save_original :: "engine \<Rightarrow> engine_msg \<Rightarrow> engine run" where
  "save_original self cmd =
     do { ten_assert (eg_original_start_graph_cmd self = None);
          Some (self\<lparr>eg_original_start_graph_cmd := Some cmd\<rparr>) }"

definition ten_engine_handle_cmd_start_graph :: "engine_env \<Rightarrow> engine \<Rightarrow> engine_msg \<Rightarrow> engine_run" where
  "ten_engine_handle_cmd_start_graph e self cmd =
     do { body \<leftarrow> start_body cmd;
          let body = ten_raw_cmd_start_graph_add_missing_extension_group_node body;
          let cmd = (fst cmd, Start_body body);
          let apps = ten_cmd_start_graph_collect_all_immediate_connectable_apps body (en_app_uri (eg_info self));
          if apps = []
          then do { self \<leftarrow> save_original self cmd; ten_engine_enable_extension_system e self }
          else do { (self, r) \<leftarrow> connect_apps e 0 self cmd apps [];
                    case r of
                      Inl dest_uri \<Rightarrow>
                        do { acts \<leftarrow> ten_engine_return_error_for_cmd_start_graph cmd
                                        (''Failed to connect to '' @ dest_uri @ ''.'');
                             Some (self, acts) }
                    | Inr new_works \<Rightarrow>
                        if new_works \<noteq> []
                        then do { self \<leftarrow> save_original self cmd;
                                  pt \<leftarrow> (if length new_works > 1
                                        then ten_paths_create_group (eg_path_table self) new_works
                                               TEN_RESULT_RETURN_POLICY_FIRST_ERROR_OR_LAST_OK
                                        else Some (eg_path_table self));
                                  Some (self\<lparr>eg_path_table := pt\<rparr>, []) }
                        else if eg_original_start_graph_cmd self \<noteq> None
                        then do { r \<leftarrow> ten_engine_return_ok_for_cmd_start_graph cmd; Some (self, [r]) }
                        else do { self \<leftarrow> save_original self cmd; ten_engine_enable_extension_system e self } } }"

section \<open>The result of another app\<close>

definition detail_of :: "cmd_result \<Rightarrow> ten_value option run" where
  "detail_of r = ten_value_object_peek (cb_properties r) ''detail''"

definition ten_engine_close_duplicated_remote_or_upgrade_it_to_normal :: "engine \<Rightarrow> cmd_result \<Rightarrow> engine run" where
  "ten_engine_close_duplicated_remote_or_upgrade_it_to_normal self r =
     (case ten_engine_find_weak_remote self (loc_app_uri (cb_src_loc r)) of
        None \<Rightarrow> Some self
      | Some addr \<Rightarrow>
          do { detail \<leftarrow> detail_of r;
               detail \<leftarrow> (case detail of Some (V_string s) \<Rightarrow> Some s | _ \<Rightarrow> None);
               if detail = ''duplicate''
               then do { weak_remote \<leftarrow> get_remote self addr;
                         let (self, c) = ten_connection_close self ((rm_connection weak_remote)\<lparr>cn_duplicate := True\<rparr>);
                         Some (put_remote self (weak_remote\<lparr>rm_connection := c\<rparr>)) }
               else Some (ten_engine_upgrade_weak_remote_to_normal_remote self addr) })"

definition ten_engine_handle_cmd_result_for_cmd_start_graph :: "engine_env \<Rightarrow> engine \<Rightarrow> cmd_result \<Rightarrow> engine_run" where
  "ten_engine_handle_cmd_result_for_cmd_start_graph e self r =
     do { ten_assert (length (cb_dest_loc r) = 1 \<and> loc_app_uri (hd (cb_dest_loc r)) = en_app_uri (eg_info self));
          self \<leftarrow> (if cr_status_code r = TEN_STATUS_CODE_OK
                  then ten_engine_close_duplicated_remote_or_upgrade_it_to_normal self r else Some self);
          (proceed, out, pt) \<leftarrow> ten_path_table_process_cmd_result result_convert (eg_path_table self) TEN_PATH_OUT r;
          let self = self\<lparr>eg_path_table := pt\<rparr>;
          if \<not> proceed then Some (self, [])
          else do { r \<leftarrow> out;
                    original \<leftarrow> eg_original_start_graph_cmd self;
                    if cr_status_code r = TEN_STATUS_CODE_OK then ten_engine_enable_extension_system e self
                    else do { ten_assert (cr_status_code r = TEN_STATUS_CODE_ERROR);
                              err_msg_value \<leftarrow> detail_of r;
                              detail \<leftarrow> (case err_msg_value of
                                           Some (V_string s) \<Rightarrow> format_no_args s
                                         | Some _ \<Rightarrow> None
                                         | None \<Rightarrow> Some (''Failed to start engine in app ['' @ loc_app_uri (cb_src_loc r) @ ''].''));
                              acts \<leftarrow> ten_engine_return_error_for_cmd_start_graph original detail;
                              Some (self, acts @ [Forget_original]) } } }"

definition ten_engine_handle_cmd_result :: "engine_env \<Rightarrow> engine \<Rightarrow> engine_msg \<Rightarrow> engine_run" where
  "ten_engine_handle_cmd_result e self msg =
     (case msg of
        (M_result r, Result_body type) \<Rightarrow>
          do { ten_assert (type = TEN_MSG_TYPE_CMD_START_GRAPH);
               ten_engine_handle_cmd_result_for_cmd_start_graph e self r }
      | _ \<Rightarrow> None)"

section \<open>The other commands\<close>

definition ten_engine_handle_cmd_stop_graph :: "engine \<Rightarrow> engine_msg \<Rightarrow> engine_run" where
  "ten_engine_handle_cmd_stop_graph self cmd =
     do { graph_id \<leftarrow> (case snd cmd of Stop_body g \<Rightarrow> Some g | _ \<Rightarrow> None);
          if graph_id = [] \<or> graph_id = en_graph_id (eg_info self)
          then Some (self\<lparr>eg_cmd_stop_graph := Some cmd\<rparr>, [Close_async])
          else do { self \<leftarrow> push_to_app self cmd; Some (self, []) } }"

definition ten_engine_handle_cmd_close_app :: "engine \<Rightarrow> engine_msg \<Rightarrow> engine_run" where
  "ten_engine_handle_cmd_close_app self cmd = do { self \<leftarrow> push_to_app self cmd; Some (self, []) }"

text \<open>A timer that is found can only be cancelled. Its id must not be zero.\<close>

definition ten_engine_handle_cmd_timer :: "engine \<Rightarrow> engine_msg \<Rightarrow> engine_run" where
  "ten_engine_handle_cmd_timer self cmd =
     (if eg_is_closing self then Some (self, [])
      else do {
        c \<leftarrow> engine_cmd cmd;
        let timer_id = ct_timer_id (tc_timer c);
        ten_assert (eg_timers self = [] \<or> timer_id \<noteq> 0);
        case find (\<lambda>t. tm_id t = timer_id) (eg_timers self) of
          Some t \<Rightarrow>
            do { ten_assert (sint (ct_times (tc_timer c)) = TEN_TIMER_CANCEL);
                 r \<leftarrow> ten_engine_create_cmd_result_and_dispatch cmd TEN_STATUS_CODE_OK ''Operation is success.'';
                 Some (ten_timer_close_async (ten_timer_stop_async self t) t, [r]) }
        | None \<Rightarrow>
            if sint (ct_times (tc_timer c)) \<noteq> TEN_TIMER_CANCEL
            then do { let t = ten_timer_create_with_cmd (eg_next self) c;
                      let self = self\<lparr>eg_timers := eg_timers self @ [t], eg_next := eg_next self + 1\<rparr>;
                      r \<leftarrow> ten_engine_create_cmd_result_and_dispatch cmd TEN_STATUS_CODE_OK ''Operation is success.'';
                      Some (ten_timer_enable self t, [r]) }
            else do { r \<leftarrow> ten_engine_create_cmd_result_and_dispatch cmd TEN_STATUS_CODE_ERROR
                             ''Failed to cancel an un-existed timer.'';
                      Some (self, [r]) } })"

definition ten_cmd_base_gen_cmd_id_if_empty :: "string \<Rightarrow> ten_msg \<Rightarrow> ten_msg" where
  "ten_cmd_base_gen_cmd_id_if_empty uuid msg =
     (case msg of
        M_cmd t c \<Rightarrow> M_cmd t (if cb_cmd_id c = [] then ten_cmd_base_gen_new_cmd_id_forcibly uuid c else c)
      | M_result r \<Rightarrow> M_result (if cb_cmd_id r = [] then ten_cmd_base_gen_new_cmd_id_forcibly uuid r else r)
      | M_data t d \<Rightarrow> M_data t d)"

definition ten_engine_handle_msg :: "engine_env \<Rightarrow> engine \<Rightarrow> engine_msg \<Rightarrow> engine_run" where
  "ten_engine_handle_msg e self msg =
     (if eg_is_closing self \<and> \<not> ten_msg_type_to_handle_when_closing (fst msg) then Some (self, [])
      else let msg = (ten_cmd_base_gen_cmd_id_if_empty (ce_msg_uuid (ee_call e) 0) (fst msg), snd msg)
           in case em_type msg of
                TEN_MSG_TYPE_CMD_START_GRAPH \<Rightarrow> ten_engine_handle_cmd_start_graph e self msg
              | TEN_MSG_TYPE_CMD_RESULT \<Rightarrow> ten_engine_handle_cmd_result e self msg
              | TEN_MSG_TYPE_CMD_STOP_GRAPH \<Rightarrow> ten_engine_handle_cmd_stop_graph self msg
              | TEN_MSG_TYPE_CMD_CLOSE_APP \<Rightarrow> ten_engine_handle_cmd_close_app self msg
              | TEN_MSG_TYPE_CMD_TIMER \<Rightarrow> ten_engine_handle_cmd_timer self msg
              | _ \<Rightarrow> Some (self, []))"

definition ten_engine_dispatch_msg :: "engine_env \<Rightarrow> engine \<Rightarrow> engine_msg \<Rightarrow> engine_run" where
  "ten_engine_dispatch_msg e self msg =
     do { ten_assert (length (em_dest msg) = 1);
          let dest_loc = hd (em_dest msg);
          if loc_app_uri dest_loc \<noteq> en_app_uri (eg_info self)
          then do { ten_assert (loc_app_uri dest_loc \<noteq> []); ten_engine_route_msg_to_remote self msg }
          else if loc_graph_id dest_loc = [] \<or> loc_graph_id dest_loc \<noteq> en_graph_id (eg_info self)
          then do { self \<leftarrow> push_to_app self msg; Some (self, []) }
          else if loc_extension_name dest_loc = [] then ten_engine_handle_msg e self msg
          else case eg_extension_context self of
            None \<Rightarrow> Some (self, [])
          | Some c \<Rightarrow>
              (case find_extension_thread c dest_loc of
                 Some thread \<Rightarrow> ten_engine_post_msg_to_extension_thread e self thread msg
               | None \<Rightarrow>
                   if ten_msg_is_cmd (fst msg)
                   then do { r \<leftarrow> ten_engine_create_cmd_result_for_invalid_dest msg; Some (self, [Dispatch_msg r]) }
                   else Some (self, [])) }"

section \<open>Messages from outside\<close>

text \<open>
  The messages in the queue are handled one by one. A command of another app turns its connection into a
  remote; a start-graph command on a second connection between the two apps is answered on the spot when
  this connection is not the one to keep. Until the engine is ready, it handles start-graph commands and
  results, and keeps the others in front of the queue.
\<close>

definition ten_connection_reply_result_for_duplicate_connection ::
  "engine \<Rightarrow> connection \<Rightarrow> engine_msg \<Rightarrow> engine run" where
  "ten_connection_reply_result_for_duplicate_connection self c cmd =
     do { let self = self\<lparr>eg_orphan_connections :=
            map (\<lambda>x. if cn_addr x = cn_addr c then x\<lparr>cn_duplicate := True\<rparr> else x) (eg_orphan_connections self)\<rparr>;
          r \<leftarrow> cmd_result_from TEN_STATUS_CODE_OK cmd;
          ten_connection_send_msg self (c\<lparr>cn_duplicate := True\<rparr>) (result_msg cmd (set_detail r ''duplicate'')) }"

definition attach_connection :: "engine \<Rightarrow> engine_msg \<Rightarrow> (bool \<times> engine) run" where
  "attach_connection self msg =
     (case (if ten_msg_is_cmd_and_result (fst msg)
            then ten_engine_find_orphan_connection self (loc_app_uri (em_src msg)) else None) of
        None \<Rightarrow> Some (True, self)
      | Some c \<Rightarrow>
          if em_type msg = TEN_MSG_TYPE_CMD_START_GRAPH \<and>
             ten_engine_check_remote_is_duplicated self (loc_app_uri (em_src msg))
          then map_option (Pair False) (ten_connection_reply_result_for_duplicate_connection self c msg)
          else map_option (Pair True) (ten_engine_link_orphan_connection_to_remote self c (loc_app_uri (em_src msg))))"

definition handle_in_msg :: "engine_env \<Rightarrow> engine \<Rightarrow> engine_msg \<Rightarrow> engine_run" where
  "handle_in_msg e self msg =
     do { (go_on, self) \<leftarrow> attach_connection self msg;
          if \<not> go_on then Some (self, [])
          else if eg_is_ready_to_handle_msg self then ten_engine_dispatch_msg e self msg
          else if em_type msg = TEN_MSG_TYPE_CMD_START_GRAPH \<or> em_type msg = TEN_MSG_TYPE_CMD_RESULT
          then ten_engine_handle_msg e self msg
          else Some (self\<lparr>eg_put_back := eg_put_back self @ [msg]\<rparr>, []) }"

definition ten_engine_handle_in_msgs_sync :: "engine \<Rightarrow> engine_run" where
  "ten_engine_handle_in_msgs_sync self =
     Some (self\<lparr>eg_in_msgs := [], eg_put_back := []\<rparr>, map Handle_in_msg (eg_in_msgs self) @ [Prepend_put_back])"

definition ten_engine_prepend_to_in_msgs_queue :: "engine \<Rightarrow> engine" where
  "ten_engine_prepend_to_in_msgs_queue self =
     self\<lparr>eg_in_msgs := eg_put_back self @ eg_in_msgs self, eg_put_back := []\<rparr>"

text \<open>What a remote receives after the graph has been built.\<close>

definition ten_engine_receive_msg_from_remote :: "engine_env \<Rightarrow> engine \<Rightarrow> remote \<Rightarrow> engine_msg \<Rightarrow> engine_run" where
  "ten_engine_receive_msg_from_remote e self r msg =
     do { let m = ten_msg_set_src_engine_if_unspecified (ten_msg_set_src_uri (fst msg) (rm_uri r)) (eg_info self);
          dest \<leftarrow> ten_msg_set_dest_engine_if_unspecified_or_predefined_graph_name (eg_info self) (ten_msg_get_dest m);
          let msg = (set_dest m dest, snd msg);
          if em_type msg = TEN_MSG_TYPE_CMD_START_GRAPH
          then do { res \<leftarrow> cmd_result_from TEN_STATUS_CODE_ERROR msg;
                    self \<leftarrow> ten_connection_send_msg self (rm_connection r)
                             (result_msg msg (set_detail res ''Receive a start_graph cmd after graph is built.''));
                    Some (self, []) }
          else ten_engine_dispatch_msg e self msg }"

text \<open>The protocol to another app has been created, the connection has been made or has failed.\<close>

definition ten_engine_connect_to_remote_after_remote_is_created ::
  "engine \<Rightarrow> nat option \<Rightarrow> engine_msg \<Rightarrow> engine_run" where
  "ten_engine_connect_to_remote_after_remote_is_created self remote cmd =
     do { original \<leftarrow> eg_original_start_graph_cmd self;
          case remote of
            None \<Rightarrow>
              do { uri \<leftarrow> ten_raw_msg_get_first_dest_uri (fst cmd);
                   acts \<leftarrow> ten_engine_return_error_for_cmd_start_graph cmd (''Failed to create remote ('' @ uri @ '')'');
                   Some (self, acts) }
          | Some addr \<Rightarrow>
              do { r \<leftarrow> get_remote self addr;
                   if ten_engine_check_remote_is_duplicated self (rm_uri r)
                   then do { self \<leftarrow> ten_remote_close self addr;
                             ok \<leftarrow> ten_engine_return_ok_for_cmd_start_graph cmd;
                             Some (self, [ok]) }
                   else do { self \<leftarrow> ten_engine_add_weak_remote self addr (rm_uri r);
                             ten_assert (rm_on_server_connected_cmd r = None);
                             Some (emit_effect (put_remote self (r\<lparr>rm_on_server_connected_cmd := Some cmd\<rparr>))
                                     (Connect_to (cn_addr (rm_connection r)) (rm_uri r)), []) } } }"

definition ten_engine_on_protocol_created :: "engine \<Rightarrow> nat \<Rightarrow> string \<Rightarrow> engine_msg \<Rightarrow> engine_run" where
  "ten_engine_on_protocol_created self protocol uri cmd =
     (if eg_is_closing self
      then do { (self, acts) \<leftarrow> ten_engine_connect_to_remote_after_remote_is_created self None cmd;
                Some (self, acts @ [Protocol_close protocol]) }
      else let self = self\<lparr>eg_has_uncompleted_async_task := False\<rparr>;
               c = \<lparr>cn_addr = protocol, cn_uri = uri, cn_state = TEN_CONNECTION_STATE_INIT, cn_duplicate = False\<rparr>;
               (self, addr) = ten_remote_create_for_engine self uri c
           in ten_engine_connect_to_remote_after_remote_is_created self (Some addr) cmd)"

definition ten_engine_on_protocol_closed :: "engine \<Rightarrow> engine run" where
  "ten_engine_on_protocol_closed self =
     do { ten_assert (eg_is_closing self);
          Some (ten_engine_on_close (self\<lparr>eg_has_uncompleted_async_task := False\<rparr>)) }"

definition ten_engine_on_graph_remote_connected :: "engine \<Rightarrow> remote \<Rightarrow> engine_run" where
  "ten_engine_on_graph_remote_connected self r =
     do { cmd \<leftarrow> rm_on_server_connected_cmd r;
          Some (put_remote (emit_effect self (Send_on_connection (cn_addr (rm_connection r)) cmd))
                  (r\<lparr>rm_on_server_connected_cmd := None\<rparr>), []) }"

definition ten_engine_on_graph_remote_connect_error :: "engine \<Rightarrow> remote \<Rightarrow> engine_run" where
  "ten_engine_on_graph_remote_connect_error self r =
     do { cmd \<leftarrow> rm_on_server_connected_cmd r;
          acts \<leftarrow> ten_engine_return_error_for_cmd_start_graph cmd (''Failed to connect to '' @ rm_uri r);
          Some (self, acts @ [Forget_server_connected_cmd (rm_addr r), Remote_close (rm_addr r)]) }"

section \<open>Steps\<close>

definition done_with :: "engine run \<Rightarrow> engine_run" where
  "done_with r = map_option (\<lambda>self. (self, [])) r"

fun perform_action :: "engine_env \<Rightarrow> engine \<Rightarrow> engine_action \<Rightarrow> engine_run" where
  "perform_action e self (Dispatch_msg msg) = ten_engine_dispatch_msg e self msg"
| "perform_action e self Close_async = Some (ten_engine_close_async self, [])"
| "perform_action e self Forget_original = Some (self\<lparr>eg_original_start_graph_cmd := None\<rparr>, [])"
| "perform_action e self (Remote_close addr) = done_with (ten_remote_close self addr)"
| "perform_action e self (Forget_server_connected_cmd addr) =
     do { r \<leftarrow> get_remote self addr; Some (put_remote self (r\<lparr>rm_on_server_connected_cmd := None\<rparr>), []) }"
| "perform_action e self (Protocol_close protocol) = Some (emit_effect self (Close_protocol protocol), [])"
| "perform_action e self (Handle_in_msg msg) = handle_in_msg e self msg"
| "perform_action e self Prepend_put_back = Some (ten_engine_prepend_to_in_msgs_queue self, [])"
| "perform_action e self Handle_pending = Some (ten_engine_handle_in_msgs_async self, [])"
| "perform_action e self (Restart_timer addr) = done_with (timer_restart self addr)"

fun run_engine_task :: "engine \<Rightarrow> engine_task \<Rightarrow> engine_run" where
  "run_engine_task self Handle_in_msgs_task = ten_engine_handle_in_msgs_sync self"
| "run_engine_task self Engine_close_task = done_with (ten_engine_close_task self)"
| "run_engine_task self (Timer_stop_task addr) = done_with (ten_timer_stop_task self addr)"
| "run_engine_task self (Timer_close_task addr) = done_with (ten_timer_close_task self addr)"

text \<open>The actions of a call, with those they lead to first, until none is left.\<close>

partial_function (option) perform_all :: "engine_env \<Rightarrow> engine \<Rightarrow> engine_action list \<Rightarrow> engine run" where
  "perform_all e self acts =
     (case acts of
        [] \<Rightarrow> Some self
      | a # acts \<Rightarrow> do { (self, new) \<leftarrow> perform_action e self a; perform_all e self (new @ acts) })"

text \<open>What the others report, in a task of the run loop of its own.\<close>

inductive engine_event :: "engine_env \<Rightarrow> engine \<Rightarrow> engine \<Rightarrow> engine_action list \<Rightarrow> bool" for e where
  connect: "ten_engine_find_orphan_connection self (cn_uri c) = None \<Longrightarrow>
    engine_event e self (ten_engine_add_orphan_connection self c) []"
| disconnect: "ten_connection_do_close self addr = Some self' \<Longrightarrow> engine_event e self self' []"
| receive: "r \<in> set (eg_store self) \<Longrightarrow> ten_engine_receive_msg_from_remote e self r msg = Some (self', acts) \<Longrightarrow>
    engine_event e self self' acts"
| protocol_created: "Create_protocol uri cmd \<in> set (eg_out self) \<Longrightarrow>
    ten_engine_on_protocol_created self protocol uri cmd = Some (self', acts) \<Longrightarrow> engine_event e self self' acts"
| protocol_closed: "Close_protocol protocol \<in> set (eg_out self) \<Longrightarrow>
    ten_engine_on_protocol_closed self = Some self' \<Longrightarrow> engine_event e self self' []"
| connected: "r \<in> set (eg_store self) \<Longrightarrow> ten_engine_on_graph_remote_connected self r = Some (self', acts) \<Longrightarrow>
    engine_event e self self' acts"
| connect_error: "r \<in> set (eg_store self) \<Longrightarrow> ten_engine_on_graph_remote_connect_error self r = Some (self', acts) \<Longrightarrow>
    engine_event e self self' acts"
| group_created: "Create_group addon name \<in> set (eg_out self) \<Longrightarrow>
    ten_extension_context_create_extension_group_done self addon name = Some self' \<Longrightarrow> engine_event e self self' []"
| thread_created: "thread \<in> (case eg_extension_context self of None \<Rightarrow> {} | Some c \<Rightarrow> set (ec_threads c)) \<Longrightarrow>
    ten_engine_check_if_all_extension_threads_are_ready e self = Some (self', acts) \<Longrightarrow> engine_event e self self' acts"
| thread_removed: "Close_threads threads \<in> set (eg_out self) \<Longrightarrow> thread \<in> set threads \<Longrightarrow>
    ten_engine_on_remove_extension_thread_from_engine self thread = Some self' \<Longrightarrow> engine_event e self self' []"
| thread_closed: "Remove_thread thread \<in> set (eg_out self) \<Longrightarrow>
    ten_engine_on_extension_thread_closed_task self = Some self' \<Longrightarrow> engine_event e self self' []"
| timer: "Start_timer addr timeout \<in> set (eg_out self) \<Longrightarrow> ten_timer_on_trigger self addr = Some (self', acts) \<Longrightarrow>
    engine_event e self self' acts"
| timer_closed: "Close_timer addr \<in> set (eg_out self) \<Longrightarrow> ten_engine_on_timer_closed self addr = Some self' \<Longrightarrow>
    engine_event e self self' []"
| task: "eg_runloop self = k # ks \<Longrightarrow> run_engine_task (self\<lparr>eg_runloop := ks\<rparr>) k = Some (self', acts) \<Longrightarrow>
    engine_event e self self' acts"

text \<open>
  A state is what the engine is and the calls that are still to be done; the environment can differ from
  step to step. The reachable states of an engine, with the messages that have been put into its queue.
\<close>

inductive engine_step :: "engine \<times> engine_action list \<Rightarrow> engine \<times> engine_action list \<Rightarrow> bool" where
  perform: "perform_action e self a = Some (self', new) \<Longrightarrow> engine_step (self, a # acts) (self', new @ acts)"
| event: "engine_event e self self' acts \<Longrightarrow> engine_step (self, []) (self', acts)"

inductive engine_reaches :: "engine \<Rightarrow> engine_msg list \<Rightarrow> engine \<times> engine_action list \<Rightarrow> bool" for start where
  start: "engine_reaches start [] (start, [])"
| step: "engine_reaches start msgs s \<Longrightarrow> engine_step s s' \<Longrightarrow> engine_reaches start msgs s'"
| arrive: "engine_reaches start msgs (self, acts) \<Longrightarrow>
    engine_reaches start (msgs @ [msg]) (ten_engine_append_in_msg self msg, acts)"

end
