(* ===== verification/Engine_Contract.thy ===== *)
theory Engine_Contract
  imports Engine_Msg
begin

text \<open>
  What holds in every run of an engine: it keeps the messages for the graph in order until the graph is
  ready, and it reports that it has closed only when nothing is left. A call changes little of the engine; the lemmas
  say what, once for every function, and chain (\<open>call_intros\<close>, \<open>call_dests\<close>).
\<close>

section \<open>What a call leaves alone\<close>

definition gone :: "engine \<Rightarrow> bool" where
  "gone self \<longleftrightarrow> eg_is_closing self \<and> eg_extension_context self = None \<and> eg_timers self = [] \<and>
     \<not> eg_has_uncompleted_async_task self"

definition settles :: "engine \<Rightarrow> engine \<Rightarrow> bool" where
  "settles a b \<longleftrightarrow> (eg_is_closing a \<longrightarrow> eg_is_closing b \<and>
       (eg_extension_context a = None \<longrightarrow> eg_extension_context b = None) \<and> (eg_timers a = [] \<longrightarrow> eg_timers b = []) \<and>
       (\<not> eg_has_uncompleted_async_task a \<longrightarrow> \<not> eg_has_uncompleted_async_task b)) \<and>
     (Engine_closed \<in> set (eg_out b) \<longrightarrow> Engine_closed \<in> set (eg_out a) \<or> gone b)"

definition same_queue :: "engine \<Rightarrow> engine \<Rightarrow> bool" where
  "same_queue a b \<longleftrightarrow> eg_in_msgs b = eg_in_msgs a \<and> eg_put_back b = eg_put_back a \<and>
     eg_is_ready_to_handle_msg b = eg_is_ready_to_handle_msg a \<and> eg_info b = eg_info a"

definition call :: "engine \<Rightarrow> engine \<Rightarrow> bool" where
  "call a b \<longleftrightarrow> settles a b \<and> same_queue a b"

definition queue_action :: "engine_action \<Rightarrow> bool" where
  "queue_action a \<longleftrightarrow> a = Prepend_put_back \<or> (\<exists>m. a = Handle_in_msg m)"

definition calls :: "engine \<Rightarrow> engine \<times> engine_action list \<Rightarrow> bool" where
  "calls a r \<longleftrightarrow> call a (fst r) \<and> (\<forall>x \<in> set (snd r). \<not> queue_action x)"

lemma settles_trans: "settles a b \<Longrightarrow> settles b c \<Longrightarrow> settles a c"
  unfolding settles_def gone_def by blast

lemma call_trans [trans]: "call a b \<Longrightarrow> call b c \<Longrightarrow> call a c"
  using settles_trans by (auto simp: call_def same_queue_def)

lemma call_refl [simp, intro]: "call a a"
  by (simp add: call_def settles_def same_queue_def)

lemma calls_trans: "call a b \<Longrightarrow> calls b r \<Longrightarrow> calls a r"
  using call_trans by (auto simp: calls_def)

lemma calls_Pair [simp]: "calls a (b, acts) \<longleftrightarrow> call a b \<and> (\<forall>x \<in> set acts. \<not> queue_action x)"
  by (simp add: calls_def)

lemma not_queue_action [simp]:
  "\<not> queue_action (Dispatch_msg m)" "\<not> queue_action Close_async" "\<not> queue_action Forget_original"
  "\<not> queue_action (Remote_close r)" "\<not> queue_action (Forget_server_connected_cmd r)" "\<not> queue_action (Protocol_close p)"
  "queue_action Prepend_put_back" "queue_action (Handle_in_msg m)" "\<not> queue_action Handle_pending" "\<not> queue_action (Restart_timer t)"
  by (simp_all add: queue_action_def)

text \<open>
  The lemmas have the state at the beginning of the call, \<open>s\<close>, and the current one, so that they chain.
\<close>

named_theorems call_intros
named_theorems call_dests

lemma call_step: "call s a \<Longrightarrow> call a b \<Longrightarrow> call s b"
  by (rule call_trans)

lemma touched:
  shows "x \<noteq> Engine_closed \<Longrightarrow> call self (emit_effect self x)"
    and "call self (post_task self k)"
    and "call self (put_remote self r)"
    and "call self (put_timer self t)"
    and "call self (destroy_remote self addr)"
    and "call self (self\<lparr>eg_remotes := xs\<rparr>)"
    and "call self (self\<lparr>eg_weak_remotes := xs\<rparr>)"
    and "call self (self\<lparr>eg_store := rs, eg_next := n\<rparr>)"
    and "call self (self\<lparr>eg_orphan_connections := cs\<rparr>)"
    and "call self (self\<lparr>eg_original_start_graph_cmd := c\<rparr>)"
    and "call self (self\<lparr>eg_cmd_stop_graph := c\<rparr>)"
    and "call self (self\<lparr>eg_path_table := pt\<rparr>)"
    and "call self (self\<lparr>eg_has_uncompleted_async_task := False\<rparr>)"
  by (auto simp: call_def settles_def same_queue_def gone_def emit_effect_def post_task_def put_remote_def put_timer_def
      destroy_remote_def)

lemma call_updates [call_intros]:
  assumes "call s self"
  shows "x \<noteq> Engine_closed \<Longrightarrow> call s (emit_effect self x)"
    and "call s (post_task self k)"
    and "call s (put_remote self r)"
    and "call s (put_timer self t)"
    and "call s (destroy_remote self addr)"
    and "call s (self\<lparr>eg_remotes := xs\<rparr>)"
    and "call s (self\<lparr>eg_weak_remotes := xs\<rparr>)"
    and "call s (self\<lparr>eg_store := rs, eg_next := n\<rparr>)"
    and "call s (self\<lparr>eg_orphan_connections := cs\<rparr>)"
    and "call s (self\<lparr>eg_original_start_graph_cmd := c\<rparr>)"
    and "call s (self\<lparr>eg_cmd_stop_graph := c\<rparr>)"
    and "call s (self\<lparr>eg_path_table := pt\<rparr>)"
    and "call s (self\<lparr>eg_has_uncompleted_async_task := False\<rparr>)"
  by (blast intro: call_step [OF assms] touched)+

lemma call_context [call_intros]:
  "call s self \<Longrightarrow> eg_extension_context self \<noteq> None \<Longrightarrow> call s (self\<lparr>eg_extension_context := c\<rparr>)"
  by (erule call_step) (auto simp: call_def settles_def same_queue_def)

lemma call_async [call_intros]:
  assumes "call s self"
  shows "call s (ten_engine_close_async self)" and "call s (ten_engine_handle_in_msgs_async self)"
  using assms by (simp_all add: ten_engine_close_async_def ten_engine_handle_in_msgs_async_def call_intros)

text \<open>The last thing an engine does.\<close>

lemma call_on_close [call_intros]: "call s self \<Longrightarrow> eg_is_closing self \<Longrightarrow> call s (ten_engine_on_close self)"
  by (erule call_step) (auto simp: ten_engine_on_close_def ten_engine_do_close_def ten_engine_could_be_close_def call_def
      settles_def same_queue_def emit_effect_def gone_def)

section \<open>Remotes and timers\<close>

lemmas run_cases = Option.bind_eq_Some_conv Let_def

lemma call_on_remote_closed [call_dests]:
  "ten_engine_on_remote_closed self r = Some self' \<Longrightarrow> call s self \<Longrightarrow> call s self'"
  unfolding ten_engine_on_remote_closed_def ten_engine_del_weak_remote_def
  by (auto simp: run_cases simp del: fun_upd_apply split: if_splits intro: call_intros)

lemma call_remote_on_close [call_dests]:
  "ten_remote_on_close self r = Some self' \<Longrightarrow> call s self \<Longrightarrow> call s self'"
  unfolding ten_remote_on_close_def
  by (auto simp: run_cases split: if_splits intro: call_intros call_on_remote_closed)

lemma call_connection_close [call_dests]:
  "ten_connection_close self c = (self', c') \<Longrightarrow> call s self \<Longrightarrow> call s self'"
  unfolding ten_connection_close_def by (auto split: if_splits intro: call_intros)

lemma call_remote_close [call_dests]:
  "ten_remote_close self addr = Some self' \<Longrightarrow> call s self \<Longrightarrow> call s self'"
  unfolding ten_remote_close_def
  by (auto simp: run_cases split: if_splits prod.splits intro: call_intros call_remote_on_close call_connection_close)

lemma call_remote_on_connection_closed [call_dests]:
  "ten_remote_on_connection_closed self r = Some self' \<Longrightarrow> call s self \<Longrightarrow> call s self'"
  unfolding ten_remote_on_connection_closed_def
  by (auto simp: run_cases split: if_splits intro: call_intros call_remote_on_close call_remote_close)

lemma call_del_orphan [call_dests]:
  "ten_engine_del_orphan_connection self c = Some self' \<Longrightarrow> call s self \<Longrightarrow> call s self'"
  unfolding ten_engine_del_orphan_connection_def by (auto intro: call_intros)

lemma call_orphan_closed [call_dests]:
  "ten_engine_on_orphan_connection_closed self c = Some self' \<Longrightarrow> call s self \<Longrightarrow> call s self'"
  unfolding ten_engine_on_orphan_connection_closed_def
  by (auto simp: run_cases split: if_splits intro: call_intros call_del_orphan)

lemma call_remote_create [call_dests]:
  "ten_remote_create_for_engine self uri c = (self', addr) \<Longrightarrow> call s self \<Longrightarrow> call s self'"
  unfolding ten_remote_create_for_engine_def by (auto simp: Let_def intro: call_intros)

lemma call_link_orphan [call_dests]:
  "ten_engine_link_orphan_connection_to_remote self c uri = Some self' \<Longrightarrow> call s self \<Longrightarrow> call s self'"
  unfolding ten_engine_link_orphan_connection_to_remote_def ten_engine_add_remote_def
  by (auto simp: run_cases split: prod.splits intro: call_intros call_del_orphan call_remote_create)

lemma call_connection_do_close [call_dests]:
  "ten_connection_do_close self addr = Some self' \<Longrightarrow> call s self \<Longrightarrow> call s self'"
  unfolding ten_connection_do_close_def
  by (auto simp: run_cases split: option.splits intro: call_orphan_closed call_remote_on_connection_closed)

lemma call_connection_send [call_dests]:
  "ten_connection_send_msg self c msg = Some self' \<Longrightarrow> call s self \<Longrightarrow> call s self'"
  unfolding ten_connection_send_msg_def by (auto split: if_splits intro: call_intros)

lemma call_remote_send [call_dests]:
  "ten_remote_send_msg self addr msg = Some (Inr self') \<Longrightarrow> call s self \<Longrightarrow> call s self'"
  unfolding ten_remote_send_msg_def
  by (auto simp: run_cases split: if_splits intro: call_connection_send)

lemma call_timer_async [call_intros]:
  "call s self \<Longrightarrow> call s (ten_timer_stop_async self t)"
  "call s self \<Longrightarrow> call s (ten_timer_close_async self t)"
  by (auto simp: ten_timer_stop_async_def ten_timer_close_async_def intro: call_intros)

lemma call_timer_enable [call_intros]: "call s self \<Longrightarrow> call s (ten_timer_enable self t)"
  by (auto simp: ten_timer_enable_def intro: call_intros)

lemma call_timer_tasks [call_dests]:
  "timer_restart self addr = Some self' \<Longrightarrow> call s self \<Longrightarrow> call s self'"
  "ten_timer_stop_task self addr = Some self' \<Longrightarrow> call s self \<Longrightarrow> call s self'"
  "ten_timer_close_task self addr = Some self' \<Longrightarrow> call s self \<Longrightarrow> call s self'"
  by (auto simp: timer_restart_def ten_timer_stop_task_def ten_timer_close_task_def run_cases split: if_splits
      intro: call_intros)

lemma call_fewer_timers [call_intros]:
  "call s self \<Longrightarrow> call s (self\<lparr>eg_timers := filter P (eg_timers self)\<rparr>)"
  by (erule call_step) (auto simp: call_def settles_def same_queue_def gone_def)

lemma call_timer_closed [call_dests]:
  "ten_engine_on_timer_closed self addr = Some self' \<Longrightarrow> call s self \<Longrightarrow> call s self'"
  unfolding ten_engine_on_timer_closed_def
  by (auto simp: run_cases simp del: fun_upd_apply split: if_splits intro: call_intros)

lemma call_context_closed [call_intros]: "call s self \<Longrightarrow> call s (ten_engine_on_extension_context_closed self)"
proof -
  assume "call s self"
  moreover have "call self (self\<lparr>eg_extension_context := None\<rparr>)"
    by (auto simp: call_def settles_def same_queue_def gone_def)
  ultimately have "call s (self\<lparr>eg_extension_context := None\<rparr>)" by (rule call_trans)
  then show ?thesis by (auto simp: ten_engine_on_extension_context_closed_def Let_def intro: call_intros)
qed

lemma call_context_close [call_intros]:
  "call s self \<Longrightarrow> eg_extension_context self \<noteq> None \<Longrightarrow> call s (ten_extension_context_close self c)"
  by (auto simp: ten_extension_context_close_def intro: call_intros)

lemma call_thread_removed [call_dests]:
  "ten_engine_on_remove_extension_thread_from_engine self thread = Some self' \<Longrightarrow> call s self \<Longrightarrow> call s self'"
  unfolding ten_engine_on_remove_extension_thread_from_engine_def by (auto simp: run_cases intro: call_intros)

lemma call_thread_closed [call_dests]:
  "ten_engine_on_extension_thread_closed_task self = Some self' \<Longrightarrow> call s self \<Longrightarrow> call s self'"
  unfolding ten_engine_on_extension_thread_closed_task_def
  by (auto simp: run_cases split: if_splits intro: call_intros)

lemma call_close_timers [call_dests]: "close_timers self addrs = Some self' \<Longrightarrow> call s self \<Longrightarrow> call s self'"
  by (induction addrs arbitrary: self) (auto simp: run_cases intro: call_intros)

lemma call_close_remotes [call_dests]: "close_remotes self addrs = Some self' \<Longrightarrow> call s self \<Longrightarrow> call s self'"
  by (induction addrs arbitrary: self) (auto simp: run_cases dest: call_remote_close)

text \<open>Only now the engine begins to close.\<close>

lemma call_is_closing: "call s self \<Longrightarrow> eg_is_closing s \<Longrightarrow> eg_is_closing self"
  by (simp add: call_def settles_def)

lemma call_start_closing: "\<not> eg_is_closing self \<Longrightarrow> call self (self\<lparr>eg_is_closing := True\<rparr>)"
  by (auto simp: call_def settles_def same_queue_def)

lemma call_close_task [call_dests]:
  "ten_engine_close_task self = Some self' \<Longrightarrow> call s self \<Longrightarrow> call s self'"
proof -
  assume a: "ten_engine_close_task self = Some self'" and b: "call s self"
  show "call s self'"
  proof (cases "eg_is_closing self")
    case False
    let ?self = "self\<lparr>eg_is_closing := True\<rparr>"
    obtain s1 s2 s3 where run: "close_timers ?self (map tm_addr (eg_timers self)) = Some s1"
      "close_remotes (case eg_extension_context s1 of None \<Rightarrow> s1 | Some c \<Rightarrow> ten_extension_context_close s1 c)
         (eg_remotes (case eg_extension_context s1 of None \<Rightarrow> s1 | Some c \<Rightarrow> ten_extension_context_close s1 c)) = Some s2"
      "close_remotes s2 (eg_weak_remotes s2) = Some s3" "self' = s3 \<or> self' = ten_engine_on_close s3"
      using a False by (auto simp: ten_engine_close_task_def ten_engine_close_sync_def run_cases split: if_splits)
    have "call ?self s1" using call_close_timers [OF run(1) call_refl] .
    then have "call ?self (case eg_extension_context s1 of None \<Rightarrow> s1 | Some c \<Rightarrow> ten_extension_context_close s1 c)"
      by (auto split: option.splits intro: call_intros)
    from call_close_remotes [OF run(3) call_close_remotes [OF run(2) this]] have s3: "call ?self s3" .
    then have "eg_is_closing s3" by (rule call_is_closing) simp
    with s3 run(4) have "call ?self self'" by (auto intro: call_intros)
    with b call_start_closing [OF False] show ?thesis using call_trans by blast
  qed (use a b in \<open>simp add: ten_engine_close_task_def\<close>)
qed

section \<open>Messages\<close>

lemma result_dispatch [dest]:
  "ten_engine_create_cmd_result_and_dispatch cmd code detail = Some a \<Longrightarrow> \<not> queue_action a"
  by (auto simp: ten_engine_create_cmd_result_and_dispatch_def run_cases)

lemma return_ok_dispatch [dest]: "ten_engine_return_ok_for_cmd_start_graph cmd = Some a \<Longrightarrow> \<not> queue_action a"
  by (auto simp: ten_engine_return_ok_for_cmd_start_graph_def run_cases)

lemma return_error_dispatch [dest]:
  "ten_engine_return_error_for_cmd_start_graph cmd detail = Some acts \<Longrightarrow> x \<in> set acts \<Longrightarrow> \<not> queue_action x"
  by (auto simp: ten_engine_return_error_for_cmd_start_graph_def run_cases)

lemma call_push_to_app [call_dests]: "push_to_app self msg = Some self' \<Longrightarrow> call s self \<Longrightarrow> call s self'"
  unfolding push_to_app_def by (auto intro: call_intros)

lemma calls_route [call_dests]:
  assumes "ten_engine_route_msg_to_remote self msg = Some (self', acts)" and "call s self"
  shows "calls s (self', acts)"
proof -
  let ?sent = "\<lambda>uri. case ten_engine_find_remote self uri of Some r \<Rightarrow> ten_remote_send_msg self r msg
     | None \<Rightarrow> Some (Inl (ten_error_set ten_error_init TEN_ERROR_CODE_GENERIC
                      (''Could not find suitable remote based on uri: '' @ uri)))"
  obtain uri sent where sent: "?sent uri = Some sent"
    "(case sent of Inr self \<Rightarrow> Some (self, [])
          | Inl err \<Rightarrow>
              if ten_msg_is_cmd (fst msg)
              then do { r \<leftarrow> ten_engine_create_cmd_result_and_dispatch msg TEN_STATUS_CODE_ERROR (error_message err);
                        Some (self, [r]) }
              else Some (self, [])) = Some (self', acts)"
    using assms(1) by (simp only: ten_engine_route_msg_to_remote_def Option.bind_eq_Some_conv) blast
  show ?thesis
  proof (cases sent)
    case (Inr x)
    then have "call s x" using sent(1) assms(2) by (auto split: option.splits dest: call_remote_send)
    with Inr sent(2) show ?thesis by simp
  qed (use sent(2) assms(2) in \<open>auto simp: run_cases split: if_splits\<close>)
qed

lemma calls_post_to_thread [call_dests]:
  "ten_engine_post_msg_to_extension_thread e self thread msg = Some (self', acts) \<Longrightarrow> call s self \<Longrightarrow>
   calls s (self', acts)"
  unfolding ten_engine_post_msg_to_extension_thread_def
  by (auto simp: run_cases split: if_splits intro: call_intros)

lemma call_create_groups: "create_groups e self gs = (ok, self') \<Longrightarrow> call s self \<Longrightarrow> call s self'"
  by (induction gs arbitrary: self) (auto split: if_splits intro: call_intros)

lemma call_start_group:
  "ten_extension_context_start_extension_group e self c original = Some (ok, self') \<Longrightarrow>
   eg_extension_context self \<noteq> None \<Longrightarrow> call s self \<Longrightarrow> call s self'"
proof -
  assume a: "ten_extension_context_start_extension_group e self c original = Some (ok, self')" "call s self"
    and "eg_extension_context self \<noteq> None"
  then have "call s (self\<lparr>eg_extension_context := Some c'\<rparr>)" for c' by (auto intro: call_intros)
  from call_updates(10) [OF this]
  have "call s (self\<lparr>eg_extension_context := Some c', eg_original_start_graph_cmd := o'\<rparr>)" for c' o' by simp
  with a show ?thesis
    unfolding ten_extension_context_start_extension_group_def
    by (auto simp: run_cases split: if_splits intro: call_intros dest: call_create_groups)
qed

lemma call_new_context:
  "call s self \<Longrightarrow> \<not> eg_is_closing self \<Longrightarrow> call s (self\<lparr>eg_extension_context := c\<rparr>)"
  by (erule call_step) (auto simp: call_def settles_def same_queue_def)

lemma calls_enable [call_dests]:
  "ten_engine_enable_extension_system e self = Some (self', acts) \<Longrightarrow> call s self \<Longrightarrow> calls s (self', acts)"
  unfolding ten_engine_enable_extension_system_def
  by (auto simp: run_cases split: if_splits prod.splits dest!: call_start_group [where s = s] intro: call_new_context)

lemma call_group_done [call_dests]:
  "ten_extension_context_create_extension_group_done self addon name = Some self' \<Longrightarrow> call s self \<Longrightarrow> call s self'"
proof -
  assume a: "ten_extension_context_create_extension_group_done self addon name = Some self'" "call s self"
  have "eg_extension_context self \<noteq> None"
    using a(1) by (auto simp: ten_extension_context_create_extension_group_done_def run_cases)
  then have c: "call s (self\<lparr>eg_extension_context := Some c\<rparr>)"
    "call s ((emit_effect self (Create_extensions n ps))\<lparr>eg_extension_context := Some c\<rparr>)" for c n ps
    using a(2) call_context [OF call_updates(1) [OF a(2)], of "Create_extensions n ps"]
    by (auto intro: call_intros simp: emit_effect_def)
  from this [THEN call_updates(10)]
  have "call s (self\<lparr>eg_extension_context := Some c, eg_original_start_graph_cmd := o'\<rparr>)"
    "call s ((emit_effect self (Create_extensions n ps))\<lparr>eg_extension_context := Some c, eg_original_start_graph_cmd := o'\<rparr>)"
    for c n ps o' by simp_all
  with a c show ?thesis
    unfolding ten_extension_context_create_extension_group_done_def
    by (auto simp: run_cases split: if_splits intro: call_intros)
qed

lemma call_uncompleted:
  "call s self \<Longrightarrow> \<not> eg_is_closing self \<Longrightarrow> call s (self\<lparr>eg_has_uncompleted_async_task := True\<rparr>)"
  by (erule call_step) (auto simp: call_def settles_def same_queue_def)

lemma call_child_cmd:
  "child_cmd e i self cmd uri = Some (child, self', path) \<Longrightarrow> call s self \<Longrightarrow>
   call s self' \<and> eg_is_closing self' = eg_is_closing self"
  unfolding child_cmd_def by (auto simp: run_cases intro: call_intros)

lemma call_connect:
  assumes "ten_engine_connect_to_graph_remote e self uri cmd = Some (ok, self')" and "call s self"
    and "\<not> eg_is_closing self"
  shows "call s self' \<and> \<not> eg_is_closing self'"
proof -
  have "call s (emit_effect (self\<lparr>eg_has_uncompleted_async_task := True\<rparr>) (Create_protocol uri cmd))"
    using call_updates(1) [OF call_uncompleted [OF assms(2,3)]] by simp
  with assms show ?thesis
    by (auto simp: ten_engine_connect_to_graph_remote_def ten_engine_create_remote_async_def emit_effect_def
        split: if_splits)
qed

lemma call_connect_apps:
  "connect_apps e i self cmd uris new_works = Some (self', r) \<Longrightarrow> call s self \<Longrightarrow> \<not> eg_is_closing self \<Longrightarrow> call s self'"
proof (induction uris arbitrary: i self new_works)
  case (Cons uri uris)
  show ?case
  proof (cases "ten_engine_check_remote_is_existed self uri = None")
    case True
    with Cons.prems(1) obtain child s1 path ok s2 where
      run: "child_cmd e i self cmd uri = Some (child, s1, path)"
        "ten_engine_connect_to_graph_remote e s1 uri child = Some (ok, s2)"
        "s2 = self' \<or> connect_apps e (i + 1) s2 cmd uris (new_works @ [path]) = Some (self', r)"
      by (auto simp: run_cases split: if_splits)
    from call_child_cmd [OF run(1) Cons.prems(2)] Cons.prems(3) have "call s s1" "\<not> eg_is_closing s1" by auto
    from call_connect [OF run(2) this] run(3) Cons.IH show ?thesis by auto
  qed (use Cons in auto)
qed simp

lemma call_save_original [call_dests]: "save_original self cmd = Some self' \<Longrightarrow> call s self \<Longrightarrow> call s self'"
  unfolding save_original_def by (auto intro: call_intros)

lemma calls_enable_saved:
  "save_original self cmd = Some x \<Longrightarrow> ten_engine_enable_extension_system e x = Some (self', acts) \<Longrightarrow> call s self \<Longrightarrow>
   calls s (self', acts)"
  using call_save_original calls_enable by blast

lemma calls_start_graph [call_dests]:
  assumes "ten_engine_handle_cmd_start_graph e self cmd = Some (self', acts)" and "call s self"
    and "\<not> eg_is_closing self"
  shows "calls s (self', acts)"
proof -
  obtain body where body: "start_body cmd = Some body"
    using assms(1) by (auto simp: ten_engine_handle_cmd_start_graph_def run_cases)
  let ?body = "ten_raw_cmd_start_graph_add_missing_extension_group_node body"
  let ?apps = "ten_cmd_start_graph_collect_all_immediate_connectable_apps ?body (en_app_uri (eg_info self))"
  show ?thesis
  proof (cases "?apps = []")
    case False
    with assms(1) body obtain x r where run: "connect_apps e 0 self (fst cmd, Start_body ?body) ?apps [] = Some (x, r)"
      by (auto simp: ten_engine_handle_cmd_start_graph_def run_cases)
    with call_connect_apps assms have x: "call s x" by blast
    show ?thesis
    proof (cases r)
      case (Inr new_works)
      with assms(1) body False run x show ?thesis
        by (auto simp: ten_engine_handle_cmd_start_graph_def run_cases split: if_splits
            intro: call_updates(12) dest: call_save_original calls_enable_saved)
    qed (use assms(1) body False run x in \<open>auto simp: ten_engine_handle_cmd_start_graph_def run_cases\<close>)
  qed (use assms body calls_enable_saved in \<open>auto simp: ten_engine_handle_cmd_start_graph_def run_cases\<close>)
qed

lemma call_upgrade [call_intros]:
  "call s self \<Longrightarrow> call s (ten_engine_upgrade_weak_remote_to_normal_remote self addr)"
  unfolding ten_engine_upgrade_weak_remote_to_normal_remote_def ten_engine_add_remote_def ten_engine_del_weak_remote_def
  using call_updates(6) [OF call_updates(7)] by simp

lemma call_duplicated_remote [call_dests]:
  "ten_engine_close_duplicated_remote_or_upgrade_it_to_normal self r = Some self' \<Longrightarrow> call s self \<Longrightarrow> call s self'"
  unfolding ten_engine_close_duplicated_remote_or_upgrade_it_to_normal_def ten_connection_close_def
  by (auto simp: run_cases split: option.splits if_splits intro!: call_intros)

lemma calls_start_graph_result [call_dests]:
  assumes "ten_engine_handle_cmd_result_for_cmd_start_graph e self r = Some (self', acts)" and "call s self"
  shows "calls s (self', acts)"
proof -
  let ?dup = "if cr_status_code r = TEN_STATUS_CODE_OK
                  then ten_engine_close_duplicated_remote_or_upgrade_it_to_normal self r else Some self"
  obtain x where x: "?dup = Some x"
    using assms(1) by (auto simp: ten_engine_handle_cmd_result_for_cmd_start_graph_def run_cases split: if_splits)
  then have "call s x" using assms(2) by (auto split: if_splits dest: call_duplicated_remote)
  then have pt: "call s (x\<lparr>eg_path_table := pt\<rparr>)" for pt by (rule call_updates(12))
  with assms(1) x show ?thesis
    unfolding ten_engine_handle_cmd_result_for_cmd_start_graph_def
    by (auto simp: run_cases split: if_splits dest: calls_enable [OF _ pt])
qed

lemma calls_result [call_dests]:
  "ten_engine_handle_cmd_result e self msg = Some (self', acts) \<Longrightarrow> call s self \<Longrightarrow> calls s (self', acts)"
  unfolding ten_engine_handle_cmd_result_def
  by (auto split: prod.splits ten_msg.splits msg_body.splits dest: calls_start_graph_result)

lemma calls_stop_graph [call_dests]:
  "ten_engine_handle_cmd_stop_graph self msg = Some (self', acts) \<Longrightarrow> call s self \<Longrightarrow> calls s (self', acts)"
  unfolding ten_engine_handle_cmd_stop_graph_def
  by (auto simp: run_cases split: if_splits intro: call_intros dest: call_push_to_app)

lemma calls_close_app [call_dests]:
  "ten_engine_handle_cmd_close_app self msg = Some (self', acts) \<Longrightarrow> call s self \<Longrightarrow> calls s (self', acts)"
  unfolding ten_engine_handle_cmd_close_app_def by (auto simp: run_cases dest: call_push_to_app)

lemma call_new_timer:
  "call s self \<Longrightarrow> \<not> eg_is_closing self \<Longrightarrow> call s (self\<lparr>eg_timers := ts, eg_next := n\<rparr>)"
  by (erule call_step) (auto simp: call_def settles_def same_queue_def)

lemma calls_timer [call_dests]:
  "ten_engine_handle_cmd_timer self msg = Some (self', acts) \<Longrightarrow> call s self \<Longrightarrow> calls s (self', acts)"
  unfolding ten_engine_handle_cmd_timer_def
  by (auto simp: run_cases split: if_splits option.splits intro!: call_intros call_new_timer)

lemma calls_handle_msg [call_dests]:
  "ten_engine_handle_msg e self msg = Some (self', acts) \<Longrightarrow> call s self \<Longrightarrow> calls s (self', acts)"
  unfolding ten_engine_handle_msg_def
  by (auto simp: Let_def ten_msg_type_to_handle_when_closing_def ten_cmd_base_gen_cmd_id_if_empty_def
      split: if_splits msg_type.splits ten_msg.splits
      dest: calls_start_graph calls_result calls_stop_graph calls_close_app calls_timer)

lemma calls_dispatch [call_dests]:
  "ten_engine_dispatch_msg e self msg = Some (self', acts) \<Longrightarrow> call s self \<Longrightarrow> calls s (self', acts)"
  unfolding ten_engine_dispatch_msg_def
  by (auto simp: run_cases split: if_splits option.splits
      dest: calls_route call_push_to_app calls_handle_msg calls_post_to_thread)

section \<open>Steps\<close>

lemma call_attach:
  "attach_connection self msg = Some (go_on, self') \<Longrightarrow> call s self \<Longrightarrow> call s self'"
  unfolding attach_connection_def ten_connection_reply_result_for_duplicate_connection_def
  by (auto simp: run_cases split: option.splits if_splits intro: call_intros dest: call_link_orphan
      dest!: call_connection_send [OF _ call_updates(9)])

lemma attach_other:
  "attach_connection self msg = Some (go_on, self') \<Longrightarrow> em_type msg \<noteq> TEN_MSG_TYPE_CMD_START_GRAPH \<Longrightarrow> go_on"
  unfolding attach_connection_def by (auto split: option.splits if_splits)

lemma calls_receive [call_dests]:
  "ten_engine_receive_msg_from_remote e self r msg = Some (self', acts) \<Longrightarrow> call s self \<Longrightarrow> calls s (self', acts)"
  unfolding ten_engine_receive_msg_from_remote_def
  by (auto simp: run_cases split: if_splits dest: call_connection_send calls_dispatch)

lemma calls_after_remote [call_dests]:
  "ten_engine_connect_to_remote_after_remote_is_created self remote cmd = Some (self', acts) \<Longrightarrow> call s self \<Longrightarrow>
   calls s (self', acts)"
  unfolding ten_engine_connect_to_remote_after_remote_is_created_def ten_engine_add_weak_remote_def
  by (auto simp: run_cases split: if_splits option.splits intro!: call_intros dest: call_remote_close)

lemma calls_protocol_created [call_dests]:
  assumes "ten_engine_on_protocol_created self protocol uri cmd = Some (self', acts)" and "call s self"
  shows "calls s (self', acts)"
proof (cases "eg_is_closing self")
  case False
  then show ?thesis
    using assms unfolding ten_engine_on_protocol_created_def
    by (auto simp: Let_def split: prod.splits dest!: calls_after_remote [where s = s] call_remote_create [where s = s]
        intro: call_intros)
qed (use assms in \<open>auto simp: ten_engine_on_protocol_created_def run_cases dest!: calls_after_remote [where s = s]\<close>)

lemma call_protocol_closed [call_dests]:
  "ten_engine_on_protocol_closed self = Some self' \<Longrightarrow> call s self \<Longrightarrow> call s self'"
  unfolding ten_engine_on_protocol_closed_def by (auto intro!: call_intros)

lemma calls_remote_connected [call_dests]:
  "ten_engine_on_graph_remote_connected self r = Some (self', acts) \<Longrightarrow> call s self \<Longrightarrow> calls s (self', acts)"
  "ten_engine_on_graph_remote_connect_error self r = Some (self', acts) \<Longrightarrow> call s self \<Longrightarrow> calls s (self', acts)"
  unfolding ten_engine_on_graph_remote_connected_def ten_engine_on_graph_remote_connect_error_def
  by (auto simp: run_cases intro!: call_intros)

lemma calls_timer_trigger [call_dests]:
  "ten_timer_on_trigger self addr = Some (self', acts) \<Longrightarrow> call s self \<Longrightarrow> calls s (self', acts)"
  unfolding ten_timer_on_trigger_def
  by (auto simp: run_cases ten_cmd_timeout_create_def split: if_splits intro!: call_intros)

text \<open>Becoming ready is the only thing a call does not do.\<close>

lemma settles_ready:
  assumes "ten_engine_check_if_all_extension_threads_are_ready e self = Some (self', acts)"
  shows "settles self self'" "eg_in_msgs self' = eg_in_msgs self" "eg_put_back self' = eg_put_back self"
    "\<forall>x \<in> set acts. \<not> queue_action x"
  using assms unfolding ten_engine_check_if_all_extension_threads_are_ready_def
  by (auto simp: run_cases settles_def gone_def ten_cmd_stop_graph_create_def ten_raw_msg_clear_and_set_dest_def
      split: if_splits)

lemma calls_perform:
  assumes "perform_action e self a = Some (self', acts)" and "\<not> queue_action a"
  shows "calls self (self', acts)"
  using assms
  by (cases a) (auto simp: done_with_def run_cases intro!: call_intros
      dest: calls_dispatch [OF _ call_refl] call_remote_close [OF _ call_refl] call_timer_tasks [OF _ call_refl])

text \<open>Everything settles, also the handling of the queue.\<close>

lemma settles_queue [simp]:
  "settles self (self\<lparr>eg_in_msgs := xs\<rparr>)" "settles self (self\<lparr>eg_in_msgs := xs, eg_put_back := ys\<rparr>)"
  "settles self (self\<lparr>eg_put_back := ys\<rparr>)" "settles self self"
  "settles self (self\<lparr>eg_runloop := ks\<rparr>)" "settles self (ten_engine_append_in_msg self msg)"
  by (auto simp: settles_def gone_def ten_engine_append_in_msg_def ten_engine_handle_in_msgs_async_def post_task_def)

lemma calls_settles: "calls a (b, acts) \<Longrightarrow> settles a b" "call a b \<Longrightarrow> settles a b"
  by (simp_all add: call_def)

lemma settles_handle_in_msg: "handle_in_msg e self msg = Some (self', acts) \<Longrightarrow> settles self self'"
proof -
  assume a: "handle_in_msg e self msg = Some (self', acts)"
  then obtain go_on x where x: "attach_connection self msg = Some (go_on, x)" by (auto simp: handle_in_msg_def run_cases)
  have "call self x" using call_attach [OF x call_refl] .
  moreover from a x have "settles x self'"
    by (auto simp: handle_in_msg_def split: if_splits dest: calls_dispatch [OF _ call_refl] calls_handle_msg [OF _ call_refl]
        calls_settles)
  ultimately show ?thesis using settles_trans calls_settles(2) by blast
qed

lemma settles_event: "engine_event e self self' acts \<Longrightarrow> settles self self'"
proof (induction rule: engine_event.induct)
  case (task self k ks self' acts)
  have "settles (self\<lparr>eg_runloop := ks\<rparr>) self'"
    using task(2) by (cases k) (auto simp: done_with_def ten_engine_handle_in_msgs_sync_def
        dest!: call_close_task [OF _ call_refl] call_timer_tasks [OF _ call_refl] calls_settles)
  then show ?case using settles_trans settles_queue(5) by blast
next
  case (connect self c)
  then show ?case using call_updates(9) [OF call_refl] by (simp add: ten_engine_add_orphan_connection_def calls_settles)
qed (blast intro: calls_settles settles_ready call_dests [OF _ call_refl])+

lemma settles_step: "engine_step s s' \<Longrightarrow> settles (fst s) (fst s')"
proof (induction rule: engine_step.induct)
  case (perform e self a self' new acts)
  show ?case
  proof (cases "queue_action a")
    case True
    then show ?thesis using perform
      by (auto simp: queue_action_def ten_engine_prepend_to_in_msgs_queue_def dest: settles_handle_in_msg)
  next
    case False
    from calls_settles(1) [OF calls_perform [OF perform False]] show ?thesis by simp
  qed
qed (simp add: settles_event)

lemma settles_reaches: "engine_reaches start msgs s \<Longrightarrow> settles start (fst s)"
proof (induction rule: engine_reaches.induct)
  case (step msgs s s')
  then show ?case using settles_trans settles_step by blast
next
  case (arrive msgs self acts msg)
  then show ?case using settles_trans settles_queue(6) by fastforce
qed simp

section \<open>The queue\<close>

text \<open>The messages that have to wait until the graph is ready, and those the engine still has, in its order.\<close>

definition for_the_graph :: "engine_msg \<Rightarrow> bool" where
  "for_the_graph m \<longleftrightarrow> em_type m \<noteq> TEN_MSG_TYPE_CMD_START_GRAPH \<and> em_type m \<noteq> TEN_MSG_TYPE_CMD_RESULT"

fun in_agenda :: "engine_action list \<Rightarrow> engine_msg list" where
  "in_agenda [] = []"
| "in_agenda (Handle_in_msg m # acts) = m # in_agenda acts"
| "in_agenda (_ # acts) = in_agenda acts"

definition waiting :: "engine \<times> engine_action list \<Rightarrow> engine_msg list" where
  "waiting s = filter for_the_graph (eg_put_back (fst s) @ in_agenda (snd s) @ eg_in_msgs (fst s))"

definition agenda_ok :: "engine \<times> engine_action list \<Rightarrow> bool" where
  "agenda_ok s \<longleftrightarrow>
     (\<exists>xs ms. snd s = xs @ map Handle_in_msg ms @ [Prepend_put_back] \<and> (\<forall>x \<in> set xs. \<not> queue_action x)) \<or>
     ((\<forall>x \<in> set (snd s). \<not> queue_action x) \<and> eg_put_back (fst s) = [])"

lemma in_agenda_none: "\<forall>x \<in> set xs. \<not> queue_action x \<Longrightarrow> in_agenda (xs @ ys) = in_agenda ys"
  by (induction xs rule: in_agenda.induct) auto

lemma in_agenda_msgs [simp]: "in_agenda (map Handle_in_msg ms @ ys) = ms @ in_agenda ys"
  by (induction ms) auto

lemma in_agenda_not_queue: "\<not> queue_action a \<Longrightarrow> in_agenda (a # acts) = in_agenda acts"
  by (cases a) auto

lemma agenda_ok_queue [simp]: "agenda_ok (self, map Handle_in_msg ms @ [Prepend_put_back])"
  unfolding agenda_ok_def by (intro disjI1 exI [of _ "[]"] exI [of _ ms]) simp

lemma same_queue_call: "call a b \<Longrightarrow> same_queue a b"
  by (simp add: call_def)

lemma handle_in_msg_waits:
  assumes "handle_in_msg e self msg = Some (self', new)" and "\<not> eg_is_ready_to_handle_msg self"
  shows "eg_in_msgs self' = eg_in_msgs self \<and> (\<forall>x \<in> set new. \<not> queue_action x) \<and>
    eg_put_back self' = eg_put_back self @ (if for_the_graph msg then [msg] else [])"
proof -
  obtain go_on x where x: "attach_connection self msg = Some (go_on, x)"
    using assms(1) by (auto simp: handle_in_msg_def run_cases)
  have same: "same_queue self x" using same_queue_call [OF call_attach [OF x call_refl]] .
  show ?thesis
  proof (cases "for_the_graph msg")
    case True
    with x attach_other [OF x] assms same show ?thesis
      by (auto simp: handle_in_msg_def for_the_graph_def same_queue_def split: if_splits)
  next
    case False
    with x assms same show ?thesis
      by (auto simp: handle_in_msg_def for_the_graph_def same_queue_def call_def split: if_splits
          dest!: calls_handle_msg [OF _ call_refl])
  qed
qed

lemma agenda_ok_new:
  "agenda_ok (self, a # acts) \<Longrightarrow> \<not> queue_action a \<Longrightarrow> same_queue self self' \<Longrightarrow> \<forall>x \<in> set new. \<not> queue_action x \<Longrightarrow>
   agenda_ok (self', new @ acts) \<and> waiting (self', new @ acts) = waiting (self, a # acts)"
proof
  assume a: "agenda_ok (self, a # acts)" "\<not> queue_action a" "same_queue self self'" "\<forall>x \<in> set new. \<not> queue_action x"
  show "waiting (self', new @ acts) = waiting (self, a # acts)"
    using a(3) by (simp add: waiting_def same_queue_def in_agenda_none [OF a(4)] in_agenda_not_queue [OF a(2)])
  from a(1) consider
    (queue) xs ms where "a # acts = xs @ map Handle_in_msg ms @ [Prepend_put_back]" "\<forall>x \<in> set xs. \<not> queue_action x"
  | (none) "\<forall>x \<in> set (a # acts). \<not> queue_action x" "eg_put_back self = []"
    by (auto simp: agenda_ok_def)
  then show "agenda_ok (self', new @ acts)"
  proof cases
    case queue
    with a(2) obtain ys where "xs = a # ys" by (cases xs; cases ms) auto
    with queue a(4) have "new @ acts = (new @ ys) @ map Handle_in_msg ms @ [Prepend_put_back]"
      "\<forall>x \<in> set (new @ ys). \<not> queue_action x" by auto
    then show ?thesis unfolding agenda_ok_def by (intro disjI1) (metis snd_conv)
  qed (use a in \<open>auto simp: agenda_ok_def same_queue_def\<close>)
qed

lemma waiting_step:
  assumes "engine_step s s'" and "agenda_ok s" and "\<not> eg_is_ready_to_handle_msg (fst s)"
  shows "agenda_ok s' \<and> waiting s' = waiting s"
  using assms
proof (induction rule: engine_step.induct)
  case (perform e self a self' new acts)
  show ?case
  proof (cases "queue_action a")
    case False
    from calls_perform [OF perform(1) this] have "call self self'" "\<forall>x \<in> set new. \<not> queue_action x" by auto
    from agenda_ok_new [OF perform(2) False same_queue_call [OF this(1)] this(2)] show ?thesis .
  next
    case True
    with perform(2) obtain ms where ms: "a # acts = map Handle_in_msg ms @ [Prepend_put_back]"
    proof -
      from perform(2) True obtain xs ms where "a # acts = xs @ map Handle_in_msg ms @ [Prepend_put_back]"
        "\<forall>x \<in> set xs. \<not> queue_action x" by (auto simp: agenda_ok_def)
      with True have "xs = []" by (cases xs) auto
      with \<open>a # acts = _\<close> that show thesis by simp
    qed
    show ?thesis
    proof (cases ms)
      case Nil
      with ms perform(1) show ?thesis
        by (auto simp: ten_engine_prepend_to_in_msgs_queue_def waiting_def agenda_ok_def)
    next
      case (Cons m rest)
      with ms perform(1) have "handle_in_msg e self m = Some (self', new)" by auto
      from handle_in_msg_waits [OF this] perform(3)
      have m: "eg_in_msgs self' = eg_in_msgs self" "\<forall>x \<in> set new. \<not> queue_action x"
        "eg_put_back self' = eg_put_back self @ (if for_the_graph m then [m] else [])" by auto
      with Cons ms have "agenda_ok (self', new @ acts)" by (auto simp: agenda_ok_def)
      moreover have "waiting (self', new @ acts) = waiting (self, a # acts)"
        using Cons ms m(1,3) in_agenda_none [OF m(2)] by (auto simp: waiting_def)
      ultimately show ?thesis ..
    qed
  qed
next
  case (event e self self' acts)
  from event(2) have put: "eg_put_back self = []" by (auto simp: agenda_ok_def)
  from event(1) show ?case
  proof cases
    case (task k ks)
    show ?thesis
    proof (cases "k = Handle_in_msgs_task")
      case True
      with task(2) have new: "self' = self\<lparr>eg_runloop := ks, eg_in_msgs := [], eg_put_back := []\<rparr>"
        "acts = map Handle_in_msg (eg_in_msgs self) @ [Prepend_put_back]" by (auto simp: ten_engine_handle_in_msgs_sync_def)
      have "waiting (self', acts) = waiting (self, [])" using put by (simp add: waiting_def new)
      then show ?thesis by (simp add: new(2))
    next
      case False
      with task(2) have "calls (self\<lparr>eg_runloop := ks\<rparr>) (self', acts)"
        by (cases k) (auto simp: done_with_def dest: call_close_task [OF _ call_refl] call_timer_tasks [OF _ call_refl])
      then show ?thesis using put in_agenda_none [of acts "[]"]
        by (auto simp: call_def same_queue_def agenda_ok_def waiting_def)
    qed
  next
    case thread_created
    from settles_ready [OF thread_created(2)] put in_agenda_none [of acts "[]"] show ?thesis
      by (auto simp: agenda_ok_def waiting_def)
  next
    case connect
    then show ?thesis using put by (auto simp: agenda_ok_def waiting_def ten_engine_add_orphan_connection_def)
  qed (use put in_agenda_none [of acts "[]"] in \<open>auto simp: call_def same_queue_def agenda_ok_def waiting_def
      dest!: call_dests [OF _ call_refl]\<close>)+
qed

lemma ready_settles:
  "ten_engine_check_if_all_extension_threads_are_ready e self = Some (self', acts) \<Longrightarrow>
   eg_is_ready_to_handle_msg self \<Longrightarrow> eg_is_ready_to_handle_msg self'"
  unfolding ten_engine_check_if_all_extension_threads_are_ready_def
  by (auto simp: run_cases ten_cmd_stop_graph_create_def ten_raw_msg_clear_and_set_dest_def split: if_splits)

lemma handle_in_msg_ready:
  "handle_in_msg e self msg = Some (self', new) \<Longrightarrow> eg_is_ready_to_handle_msg self \<Longrightarrow> eg_is_ready_to_handle_msg self'"
  by (auto simp: handle_in_msg_def run_cases call_def same_queue_def split: if_splits
      dest!: call_attach [OF _ call_refl] calls_dispatch [OF _ call_refl])

lemma ready_step:
  assumes "engine_step s s'" and "eg_is_ready_to_handle_msg (fst s)"
  shows "eg_is_ready_to_handle_msg (fst s')"
  using assms
proof (induction rule: engine_step.induct)
  case (perform e self a self' new acts)
  show ?case
  proof (cases "queue_action a")
    case False
    from calls_perform [OF perform(1) this] perform(2) show ?thesis by (auto simp: call_def same_queue_def)
  qed (use perform in \<open>auto simp: queue_action_def ten_engine_prepend_to_in_msgs_queue_def dest: handle_in_msg_ready\<close>)
next
  case (event e self self' acts)
  from event(1) show ?case
  proof cases
    case (task k ks)
    then show ?thesis using event(2)
      by (cases k) (auto simp: done_with_def ten_engine_handle_in_msgs_sync_def call_def same_queue_def
          dest!: call_close_task [OF _ call_refl] call_timer_tasks [OF _ call_refl])
  next
    case thread_created
    with event(2) show ?thesis by (auto dest: ready_settles)
  next
    case connect
    then show ?thesis using event(2) by (auto simp: ten_engine_add_orphan_connection_def)
  qed (use event(2) in \<open>auto simp: call_def same_queue_def dest!: call_dests [OF _ call_refl]\<close>)+
qed

lemma waiting_append [simp]:
  "waiting (ten_engine_append_in_msg self msg, acts) = waiting (self, acts) @ filter for_the_graph [msg]"
  "agenda_ok (ten_engine_append_in_msg self msg, acts) = agenda_ok (self, acts)"
  "eg_is_ready_to_handle_msg (ten_engine_append_in_msg self msg) = eg_is_ready_to_handle_msg self"
  by (simp_all add: waiting_def agenda_ok_def ten_engine_append_in_msg_def ten_engine_handle_in_msgs_async_def post_task_def)

lemma waiting_reaches:
  assumes "engine_reaches start msgs s" and "agenda_ok (start, [])" and "waiting (start, []) = []"
  shows "\<not> eg_is_ready_to_handle_msg (fst s) \<Longrightarrow> agenda_ok s \<and> waiting s = filter for_the_graph msgs"
  using assms
proof induction
  case (step msgs s s')
  with ready_step have "\<not> eg_is_ready_to_handle_msg (fst s)" by blast
  with step waiting_step show ?case by metis
qed auto

end
