(* ===== verification/Engine_Runs.thy ===== *)
theory Engine_Runs
  imports Engine_Contract
begin

text \<open>
  How engines run: a ready engine hands its messages on in order, a stopped one closes however its threads
  interleave, and of two connections between two apps one is kept. Concrete runs show that the properties of the
  engine are about something.
\<close>

section \<open>Nested calls\<close>

lemma perform_all_Nil [simp, code]: "perform_all e self [] = Some self"
  by (subst perform_all.simps) simp

lemma perform_all_Cons [simp, code]:
  "perform_all e self (a # acts) = do { (self, new) \<leftarrow> perform_action e self a; perform_all e self (new @ acts) }"
  by (subst perform_all.simps) simp

lemma perform_all_reaches:
  assumes "perform_all e self acts = Some self'" and "engine_reaches start msgs (self, acts)"
  shows "engine_reaches start msgs (self', [])"
proof -
  let ?P = "\<lambda>e self acts self'. engine_reaches start msgs (self, acts) \<longrightarrow> engine_reaches start msgs (self', [])"
  have "?P e self acts self'"
  proof (rule perform_all.raw_induct [where P = ?P, OF _ assms(1)], rule impI)
    fix run e self acts self'
    assume IH: "\<And>e self acts self'. run e self acts = Some self' \<Longrightarrow> ?P e self acts self'"
      and run: "(case acts of [] \<Rightarrow> Some self
          | a # acts \<Rightarrow> do { (self, new) \<leftarrow> perform_action e self a; run e self (new @ acts) }) = Some self'"
      and reaches: "engine_reaches start msgs (self, acts)"
    show "engine_reaches start msgs (self', [])"
    proof (cases acts)
      case (Cons a rest)
      with run obtain x new where "perform_action e self a = Some (x, new)" "run e x (new @ rest) = Some self'"
        by (auto simp: run_cases)
      with IH reaches Cons show ?thesis by (blast intro: engine_reaches.step engine_step.perform)
    qed (use run reaches in simp)
  qed
  with assms(2) show ?thesis by blast
qed

text \<open>A task of the run loop with all calls it makes.\<close>

definition run_task_fully :: "engine_env \<Rightarrow> engine \<Rightarrow> engine run" where
  "run_task_fully e self =
     (case eg_runloop self of
        [] \<Rightarrow> None
      | k # ks \<Rightarrow> do { (self, acts) \<leftarrow> run_engine_task (self\<lparr>eg_runloop := ks\<rparr>) k; perform_all e self acts })"

lemma run_task_fully_reaches:
  assumes "run_task_fully e self = Some self'" and "engine_reaches start msgs (self, [])"
  shows "engine_reaches start msgs (self', [])"
proof -
  obtain k ks x acts where run: "eg_runloop self = k # ks" "run_engine_task (self\<lparr>eg_runloop := ks\<rparr>) k = Some (x, acts)"
    "perform_all e x acts = Some self'"
    using assms(1) by (auto simp: run_task_fully_def run_cases split: list.splits)
  from engine_reaches.step [OF assms(2) engine_step.event [OF engine_event.task [OF run(1,2)]]]
  show ?thesis by (rule perform_all_reaches [OF run(3)])
qed

text \<open>An engine of a graph, to see what happens in concrete runs.\<close>

definition demo_env :: engine_env where
  "demo_env =
     \<lparr>ee_call = \<lparr>ce_host = x86_host, ce_clock = (\<lambda>i. 0), ce_msg_uuid = (\<lambda>i. ''id''), ce_path_uuid = (\<lambda>i. ''path'')\<rparr>,
      ee_queue_is_full = (\<lambda>t. t = ''busy''), ee_is_terminated = (\<lambda>t. False), ee_err_before_ready = (\<lambda>t. False),
      ee_has_protocol = (\<lambda>u. True), ee_has_group_addon = (\<lambda>a. False)\<rparr>"

definition demo_info :: "string \<Rightarrow> ten_engine" where
  "demo_info uri = \<lparr>en_addr = 1, en_app_uri = uri, en_graph_id = ''g'', en_predefined_graphs = []\<rparr>"

abbreviation demo_loc :: "string \<Rightarrow> string \<Rightarrow> ten_loc" where
  "demo_loc uri name \<equiv> \<lparr>loc_app_uri = uri, loc_graph_id = ''g'', loc_extension_name = name\<rparr>"

definition demo_cmd :: "msg_type \<Rightarrow> ten_loc \<Rightarrow> ten_loc \<Rightarrow> ten_cmd" where
  "demo_cmd type src dest = (ten_raw_cmd_init type)\<lparr>cb_cmd_id := ''id'', cb_src_loc := src, cb_dest_loc := [dest]\<rparr>"

definition demo_start_cmd :: "ten_loc \<Rightarrow> engine_msg" where
  "demo_start_cmd src =
     (M_cmd TEN_MSG_TYPE_CMD_START_GRAPH (demo_cmd TEN_MSG_TYPE_CMD_START_GRAPH src (demo_loc [] [])),
      Start_body (ten_raw_cmd_start_graph_create\<lparr>sg_groups :=
        [\<lparr>gg_addon = ''missing'', gg_name = ''group'', gg_loc = demo_loc [] [], gg_property = V_object []\<rparr>]\<rparr>))"

section \<open>Every run\<close>


text \<open>A graph with a group whose addon is missing: the engine answers, is told to close, and closes.\<close>

fun ends_closed :: "engine option \<Rightarrow> bool" where
  "ends_closed (Some self) = (case last (eg_out self) of Engine_closed \<Rightarrow> eg_out self \<noteq> [] | _ \<Rightarrow> False)"
| "ends_closed None = False"

lemma ends_closed_run: "ends_closed r \<Longrightarrow> \<exists>self. r = Some self \<and> Engine_closed \<in> set (eg_out self)"
  by (cases r) (auto simp flip: last_in_set split: engine_effect.splits, metis last_in_set)




section \<open>Delivery\<close>

definition deliverable :: "engine_env \<Rightarrow> engine \<Rightarrow> engine_msg \<Rightarrow> string \<Rightarrow> bool" where
  "deliverable e self m thread \<longleftrightarrow>
     (\<exists>loc c. em_dest m = [loc] \<and> loc_app_uri loc = en_app_uri (eg_info self) \<and>
        loc_graph_id loc = en_graph_id (eg_info self) \<and> loc_graph_id loc \<noteq> [] \<and> loc_extension_name loc \<noteq> [] \<and>
        eg_extension_context self = Some c \<and> find_extension_thread c loc = Some thread) \<and>
     \<not> ee_is_terminated e thread \<and>
     (ten_msg_is_cmd_and_result (fst m) \<longrightarrow> ten_engine_find_orphan_connection self (loc_app_uri (em_src m)) = None)"

text \<open>A queue that is full refuses data.\<close>

definition deliveries :: "engine_env \<Rightarrow> engine_msg \<times> string \<Rightarrow> engine_effect list" where
  "deliveries e mt =
     (if ee_queue_is_full e (snd mt) \<and> \<not> ten_msg_is_cmd_and_result (fst (fst mt)) then []
      else [Post_to_thread (snd mt) (fst mt)])"

lemma handle_deliverable:
  assumes "deliverable e self m thread" and "eg_is_ready_to_handle_msg self"
  shows "handle_in_msg e self m = Some (self\<lparr>eg_out := eg_out self @ deliveries e (m, thread)\<rparr>, [])"
proof -
  have "attach_connection self m = Some (True, self)" using assms(1) by (auto simp: attach_connection_def deliverable_def)
  with assms show ?thesis
    by (auto simp: handle_in_msg_def deliverable_def ten_engine_dispatch_msg_def ten_engine_post_msg_to_extension_thread_def
        deliveries_def emit_effect_def)
qed

lemma deliverable_updates [simp]:
  "deliverable e (self\<lparr>eg_out := xs\<rparr>) = deliverable e self"
  "deliverable e (self\<lparr>eg_runloop := ks, eg_in_msgs := ms\<rparr>) = deliverable e self"
  by (auto simp: fun_eq_iff deliverable_def ten_engine_find_orphan_connection_def)

lemma perform_deliveries:
  "list_all2 (deliverable e self) ms threads \<Longrightarrow> eg_is_ready_to_handle_msg self \<Longrightarrow>
   perform_all e self (map Handle_in_msg ms @ acts) =
     perform_all e (self\<lparr>eg_out := eg_out self @ concat (map (deliveries e) (zip ms threads))\<rparr>) acts"
proof (induction ms arbitrary: self threads)
  case (Cons m ms)
  then obtain t ts where threads: "threads = t # ts" "deliverable e self m t" "list_all2 (deliverable e self) ms ts"
    by (auto simp: list_all2_Cons1)
  with Cons handle_deliverable [OF threads(2)] show ?case by simp
qed simp

text \<open>C12: A ready engine hands on all messages of its queue in one task, each to the thread of the extension
  it is for, in the order in which they came; only data for a thread with a full queue is dropped, and the queue is
  empty afterwards. Nothing else of the engine changes.\<close>

theorem engine_delivers_in_order:
  assumes "eg_is_ready_to_handle_msg self" and "eg_runloop self = Handle_in_msgs_task # ks"
    and "list_all2 (deliverable e self) (eg_in_msgs self) threads" and "eg_put_back self = []"
  shows "run_task_fully e self = Some (self\<lparr>eg_runloop := ks, eg_in_msgs := [],
    eg_out := eg_out self @ concat (map (deliveries e) (zip (eg_in_msgs self) threads))\<rparr>)"
proof -
  let ?self = "self\<lparr>eg_runloop := ks, eg_in_msgs := []\<rparr>"
  have run: "run_engine_task (self\<lparr>eg_runloop := ks\<rparr>) Handle_in_msgs_task =
      Some (?self, map Handle_in_msg (eg_in_msgs self) @ [Prepend_put_back])"
    and put: "ten_engine_prepend_to_in_msgs_queue (?self\<lparr>eg_out := out\<rparr>) = ?self\<lparr>eg_out := out\<rparr>" for out
    using assms(4) by (cases self; simp add: ten_engine_handle_in_msgs_sync_def ten_engine_prepend_to_in_msgs_queue_def)+
  have "list_all2 (deliverable e ?self) (eg_in_msgs self) threads" using assms(3) by simp
  from perform_deliveries [OF this, of "[Prepend_put_back]"] assms(1,2) show ?thesis
    unfolding run_task_fully_def by (simp add: run put del: run_engine_task.simps)
qed

text \<open>Two commands, and data for a thread with a full queue between them.\<close>

definition demo_ready :: engine where
  "demo_ready = (ten_engine_create (demo_info []) False)\<lparr>
     eg_is_ready_to_handle_msg := True, eg_runloop := [Handle_in_msgs_task],
     eg_extension_context := Some (ten_extension_context_create\<lparr>ec_threads := [''thread'', ''busy''],
       ec_extensions_info := [ten_extension_info_create\<lparr>gx_loc := demo_loc [] ''a'', gx_group := ''thread''\<rparr>,
         ten_extension_info_create\<lparr>gx_loc := demo_loc [] ''b'', gx_group := ''busy''\<rparr>]\<rparr>)\<rparr>"

abbreviation demo_to :: "string \<Rightarrow> engine_msg" where
  "demo_to name \<equiv> (M_cmd TEN_MSG_TYPE_CMD (demo_cmd TEN_MSG_TYPE_CMD (demo_loc [] ''a'') (demo_loc [] name)), No_body)"

abbreviation demo_data :: engine_msg where
  "demo_data \<equiv> (M_data TEN_MSG_TYPE_DATA \<lparr>dm_name = ''d'', dm_src_loc = demo_loc [] ''a'', dm_dest_loc = [demo_loc [] ''b''],
     dm_properties = V_object [], dm_buf = zeroed_buf, dm_format = No_format\<rparr>, No_body)"

theorem engine_delivers_in_order_witness:
  "run_task_fully demo_env (demo_ready\<lparr>eg_in_msgs := [demo_to ''b'', demo_data, demo_to ''a'']\<rparr>) =
   Some (demo_ready\<lparr>eg_in_msgs := [], eg_runloop := [],
     eg_out := [Post_to_thread ''busy'' (demo_to ''b''), Post_to_thread ''thread'' (demo_to ''a'')]\<rparr>)"
proof -
  let ?self = "demo_ready\<lparr>eg_in_msgs := [demo_to ''b'', demo_data, demo_to ''a'']\<rparr>"
  have "list_all2 (deliverable demo_env ?self) (eg_in_msgs ?self) [''busy'', ''busy'', ''thread'']"
    by (simp add: deliverable_def demo_ready_def ten_engine_create_def demo_info_def demo_cmd_def demo_env_def
        find_extension_thread_def ten_extension_context_get_extension_info_by_name_def ten_extension_info_create_def
        ten_extension_context_create_def ten_engine_find_orphan_connection_def)
  from engine_delivers_in_order [OF _ _ this, of "[]"] show ?thesis
    by (simp add: demo_ready_def ten_engine_create_def deliveries_def demo_env_def ten_msg_is_cmd_and_result_def
        ten_raw_msg_is_cmd_and_result_def)
qed

section \<open>Two connections between two apps\<close>

lemma byte_injective: "sint (of_char a :: 8 word) = sint (of_char b :: 8 word) \<Longrightarrow> a = b"
proof -
  assume "sint (of_char a :: 8 word) = sint (of_char b :: 8 word)"
  then have "(of_char a :: 8 word) = of_char b" by (simp add: signed_word_eqI)
  then have "(of_nat (of_char a) :: 8 word) = of_nat (of_char b)" by (simp only: of_nat_of_char)
  then have "unat (of_nat (of_char a) :: 8 word) = unat (of_nat (of_char b) :: 8 word)" by simp
  then have "(of_char a :: nat) = of_char b" by (simp add: unat_of_nat)
  then show "a = b" by simp
qed

lemma chars_antisym:
  "length a = length b \<Longrightarrow> chars_equal_or_smaller a b \<Longrightarrow> chars_equal_or_smaller b a \<Longrightarrow> a = b"
  by (induction a b rule: chars_equal_or_smaller.induct) (auto simp: Let_def byte_injective split: if_splits)

lemma chars_total: "length a = length b \<Longrightarrow> chars_equal_or_smaller a b \<or> chars_equal_or_smaller b a"
  by (induction a b rule: chars_equal_or_smaller.induct) (auto simp: Let_def)

lemma string_order:
  assumes "a \<noteq> b"
  shows "ten_c_string_is_equal_or_smaller a b \<longleftrightarrow> \<not> ten_c_string_is_equal_or_smaller b a"
  using assms chars_antisym [of a b] chars_total [of a b]
  by (auto simp: ten_c_string_is_equal_or_smaller_def)

lemma find_snoc: "find P xs = None \<Longrightarrow> find P (xs @ [x]) = (if P x then Some x else None)"
  by (induction xs) (auto split: if_splits)

lemma link_adds_remote:
  assumes "ten_engine_link_orphan_connection_to_remote self c uri = Some self'"
    and "\<forall>r \<in> set (eg_store self). rm_addr r < eg_next self"
  shows "ten_engine_find_remote self' uri = Some (eg_next self)"
proof -
  have "find (\<lambda>r. rm_addr r = eg_next self) (eg_store self) = None" using assms(2) by (auto simp: find_None_iff)
  with assms(1) show ?thesis
    by (auto simp: find_snoc ten_engine_link_orphan_connection_to_remote_def ten_remote_create_for_engine_def ten_engine_add_remote_def
        ten_engine_del_orphan_connection_def ten_engine_find_remote_def get_remote_def run_cases)
qed

lemma send_keeps_store: "ten_connection_send_msg self c msg = Some self' \<Longrightarrow> eg_store self' = eg_store self"
  unfolding ten_connection_send_msg_def by (auto simp: emit_effect_def split: if_splits)

lemma reply_keeps_store:
  assumes "ten_connection_reply_result_for_duplicate_connection self c msg = Some self'"
  shows "eg_store self' = eg_store self"
proof -
  obtain cs c' msg' where "ten_connection_send_msg (self\<lparr>eg_orphan_connections := cs\<rparr>) c' msg' = Some self'"
    using assms unfolding ten_connection_reply_result_for_duplicate_connection_def by (simp only: run_cases) blast
  from send_keeps_store [OF this] show ?thesis by simp
qed


text \<open>Two apps that have connected to each other: the second keeps the connection of the first.\<close>

definition demo_peer :: "string \<Rightarrow> string \<Rightarrow> engine" where
  "demo_peer uri other = (ten_engine_create (demo_info uri) False)\<lparr>
     eg_orphan_connections := [\<lparr>cn_addr = 7, cn_uri = other, cn_state = TEN_CONNECTION_STATE_INIT, cn_duplicate = False\<rparr>],
     eg_weak_remotes := [1], eg_next := 2,
     eg_store := [\<lparr>rm_addr = 1, rm_uri = other, rm_state = TEN_REMOTE_STATE_INIT, rm_connection =
       \<lparr>cn_addr = 8, cn_uri = other, cn_state = TEN_CONNECTION_STATE_INIT, cn_duplicate = False\<rparr>,
       rm_on_server_connected_cmd = None\<rparr>]\<rparr>"


section \<open>The end of an engine\<close>

text \<open>What the threads of the extensions report while they close: each one that it has been taken out, and later that
  it has closed. Any interleaving of such reports is possible.\<close>

datatype thread_report = Thread_removed string | Thread_closed string

fun hear_report :: "engine \<Rightarrow> thread_report \<Rightarrow> engine run" where
  "hear_report self (Thread_removed t) = ten_engine_on_remove_extension_thread_from_engine self t"
| "hear_report self (Thread_closed t) = ten_engine_on_extension_thread_closed_task self"

fun hear_reports :: "engine \<Rightarrow> thread_report list \<Rightarrow> engine run" where
  "hear_reports self [] = Some self"
| "hear_reports self (r # rs) = do { self \<leftarrow> hear_report self r; hear_reports self rs }"

text \<open>The threads that have not reported anything, and those that have been taken out but have not closed.\<close>

fun closing_reports :: "string list \<Rightarrow> string list \<Rightarrow> thread_report list \<Rightarrow> bool" where
  "closing_reports running closing [] \<longleftrightarrow> running = [] \<and> closing = []"
| "closing_reports running closing (Thread_removed t # rs) \<longleftrightarrow>
     t \<in> set running \<and> closing_reports (remove1 t running) (t # closing) rs"
| "closing_reports running closing (Thread_closed t # rs) \<longleftrightarrow>
     t \<in> set closing \<and> closing_reports running (remove1 t closing) rs"

lemma context_closed_ends:
  assumes "eg_is_closing self" and "ten_engine_unclosed_remotes_cnt self = 0" and "eg_timers self = []"
    and "\<not> eg_has_uncompleted_async_task self"
  shows "ten_engine_on_extension_context_closed self =
    self\<lparr>eg_extension_context := None, eg_out := eg_out self @ [Engine_closed]\<rparr>"
  using assms by (simp add: ten_engine_on_extension_context_closed_def ten_engine_on_close_def ten_engine_could_be_close_def
      ten_engine_do_close_def emit_effect_def ten_engine_unclosed_remotes_cnt_def get_remote_def)

lemma reports_end:
  assumes "closing_reports (ec_threads c) closing rs" and "eg_extension_context self = Some c"
    and "ec_total_cnt c = ec_cnt_of_closed c + length (ec_threads c) + length closing"
    and "ec_threads c \<noteq> [] \<or> closing \<noteq> []"
    and "eg_is_closing self" and "ten_engine_unclosed_remotes_cnt self = 0" and "eg_timers self = []"
    and "\<not> eg_has_uncompleted_async_task self"
  shows "\<exists>self'. hear_reports self rs = Some self' \<and> last (eg_out self') = Engine_closed \<and>
    eg_out self' \<noteq> [] \<and> gone self'"
  using assms
proof (induction rs arbitrary: c closing self)
  case (Cons r rs)
  show ?case
  proof (cases r)
    case (Thread_removed t)
    let ?c = "c\<lparr>ec_threads := remove1 t (ec_threads c)\<rparr>"
    let ?self = "emit_effect (self\<lparr>eg_extension_context := Some ?c\<rparr>) (Remove_thread t)"
    have t: "t \<in> set (ec_threads c)" "closing_reports (ec_threads ?c) (t # closing) rs"
      using Cons.prems(1) Thread_removed by simp_all
    have "ten_engine_unclosed_remotes_cnt ?self = 0"
      using Cons.prems(6) by (simp add: ten_engine_unclosed_remotes_cnt_def get_remote_def emit_effect_def)
    moreover from t(1) have "0 < length (ec_threads c)" by (auto simp: length_pos_if_in_set)
    ultimately have "\<exists>self'. hear_reports ?self rs = Some self' \<and> last (eg_out self') = Engine_closed \<and>
        eg_out self' \<noteq> [] \<and> gone self'"
      using Cons.prems t by (intro Cons.IH [OF t(2)]) (auto simp: emit_effect_def length_remove1)
    with Cons.prems(2) Thread_removed show ?thesis
      by (simp add: ten_engine_on_remove_extension_thread_from_engine_def)
  next
    case (Thread_closed t)
    let ?c = "c\<lparr>ec_cnt_of_closed := ec_cnt_of_closed c + 1\<rparr>"
    let ?self = "self\<lparr>eg_extension_context := Some ?c\<rparr>"
    have t: "t \<in> set closing" "closing_reports (ec_threads ?c) (remove1 t closing) rs"
      using Cons.prems(1) Thread_closed by simp_all
    have cnt: "ten_engine_unclosed_remotes_cnt ?self = 0"
      using Cons.prems(6) by (simp add: ten_engine_unclosed_remotes_cnt_def get_remote_def)
    show ?thesis
    proof (cases "ec_threads c = [] \<and> remove1 t closing = []")
      case True
      with t(2) have "rs = []" by (cases rs rule: list.exhaust; cases "hd rs"; auto)
      moreover from True t(1) have "length closing = 1" by (metis length_pos_if_in_set length_remove1 list.size(3) One_nat_def Suc_pred)
      ultimately show ?thesis using Cons.prems(2-) Thread_closed True cnt
        by (simp add: ten_engine_on_extension_thread_closed_task_def context_closed_ends gone_def)
    next
      case False
      have len: "length (remove1 t closing) + 1 = length closing" using t(1) length_pos_if_in_set [OF t(1)] by (simp add: length_remove1)
      from False have "0 < length (ec_threads c) + length (remove1 t closing)" by auto
      with len Cons.prems(3) have "ec_cnt_of_closed ?c \<noteq> ec_total_cnt ?c"
        by (simp del: length_greater_0_conv add_gr_0)
      moreover from False Cons.prems t cnt len have "\<exists>self'. hear_reports ?self rs = Some self' \<and>
          last (eg_out self') = Engine_closed \<and> eg_out self' \<noteq> [] \<and> gone self'"
        by (intro Cons.IH [OF t(2)]) auto
      ultimately show ?thesis using Cons.prems(2) Thread_closed
        by (simp add: ten_engine_on_extension_thread_closed_task_def)
    qed
  qed
qed simp

text \<open>C10: An engine that is told to close and has no remotes and timers tells its threads to close and does
  close, as the last thing, however the reports of the threads interleave: the assertion that all threads are gone
  when the last one has closed never fails, and the engine reports its end only after that.\<close>

theorem engine_closes_after_its_threads:
  assumes "eg_extension_context self = Some c" and "ec_threads c \<noteq> []" and "\<not> eg_is_closing self"
    and "eg_timers self = []" and "eg_remotes self = []" and "eg_weak_remotes self = []"
    and "\<not> eg_has_uncompleted_async_task self" and "closing_reports (ec_threads c) [] rs"
  shows "\<exists>self1 self2. ten_engine_close_task self = Some self1 \<and>
    eg_out self1 = eg_out self @ [Close_threads (ec_threads c)] \<and> hear_reports self1 rs = Some self2 \<and>
    last (eg_out self2) = Engine_closed \<and> eg_is_closing self2 \<and> eg_extension_context self2 = None"
proof -
  let ?c = "c\<lparr>ec_cnt_of_closed := 0, ec_total_cnt := length (ec_threads c)\<rparr>"
  let ?self = "emit_effect (self\<lparr>eg_is_closing := True, eg_extension_context := Some ?c\<rparr>) (Close_threads (ec_threads c))"
  have close: "ten_engine_close_task self = Some ?self"
    using assms(1-7) by (simp add: ten_engine_close_task_def ten_engine_close_sync_def ten_extension_context_close_def
        emit_effect_def)
  have "\<exists>self2. hear_reports ?self rs = Some self2 \<and> last (eg_out self2) = Engine_closed \<and> eg_out self2 \<noteq> [] \<and> gone self2"
    by (rule reports_end [of ?c "[]"])
      (use assms in \<open>simp_all add: emit_effect_def ten_engine_unclosed_remotes_cnt_def\<close>)
  with close show ?thesis by (auto simp: gone_def emit_effect_def)
qed

text \<open>The second thread is faster.\<close>

theorem engine_closes_after_its_threads_witness:
  "\<exists>self1 self2. ten_engine_close_task demo_ready = Some self1 \<and>
    hear_reports self1 [Thread_removed ''thread'', Thread_removed ''busy'', Thread_closed ''busy'', Thread_closed ''thread''] =
      Some self2 \<and> eg_out self1 = [Close_threads [''thread'', ''busy'']] \<and> last (eg_out self2) = Engine_closed"
proof -
  let ?rs = "[Thread_removed ''thread'', Thread_removed ''busy'', Thread_closed ''busy'', Thread_closed ''thread'']"
  have "\<exists>c. eg_extension_context demo_ready = Some c \<and> ec_threads c = [''thread'', ''busy'']"
    by (simp add: demo_ready_def)
  then obtain c where c: "eg_extension_context demo_ready = Some c" "ec_threads c = [''thread'', ''busy'']" by blast
  have "closing_reports (ec_threads c) [] ?rs" by (simp add: c)
  from engine_closes_after_its_threads [OF c(1) _ _ _ _ _ _ this] show ?thesis
    by (auto simp: c demo_ready_def ten_engine_create_def)
qed

end
