(* ===== verification/Linked_Store.thy ===== *)
theory Linked_Store
  imports Prelude
begin

text \<open>
  Doubly linked chains in a store. The containers of \<open>ten_utils/container\<close> are intrusive: a node
  carries the pointers to its neighbours, and a list or a bucket only knows its ends. This theory
  holds what both containers share: the shape of a chain (\<open>dll\<close>), which nodes it consists of, and
  how it changes when the pointers of a node are written. Addresses are natural numbers and 0 is
  the NULL pointer. The pointers of a node are read by a function \<open>L\<close> that gives the pair of its
  predecessor and its successor, so that the two chains a node of the hash table is in are two
  instances of the same predicate.
\<close>

type_synonym addr = nat
type_synonym links = "addr \<Rightarrow> (addr \<times> addr) option"

definition first :: "addr list \<Rightarrow> addr \<Rightarrow> addr" where
  "first xs n = (case xs of [] \<Rightarrow> n | x # _ \<Rightarrow> x)"

definition final :: "addr \<Rightarrow> addr list \<Rightarrow> addr" where
  "final p xs = (if xs = [] then p else last xs)"

lemma first_simps [simp]: "first [] n = n" "first (x # xs) n = x"
  by (simp_all add: first_def)

lemma final_simps [simp]: "final p [] = p" "final p (x # xs) = final x xs" "final p (xs @ [x]) = x"
  by (simp_all add: final_def)

lemma first_append [simp]: "first (xs @ ys) n = first xs (first ys n)"
  by (cases xs) simp_all

lemma final_append [simp]: "final p (xs @ ys) = final (final p xs) ys"
  by (induction xs arbitrary: p) simp_all

text \<open>The chain \<open>xs\<close> between the node \<open>p\<close> before it and the node \<open>n\<close> after it.\<close>

fun dll :: "links \<Rightarrow> addr \<Rightarrow> addr list \<Rightarrow> addr \<Rightarrow> bool" where
  "dll L p [] n \<longleftrightarrow> True"
| "dll L p (x # xs) n \<longleftrightarrow> x \<noteq> 0 \<and> L x = Some (p, first xs n) \<and> dll L x xs n"

lemma dll_append [simp]:
  "dll L p (xs @ ys) n \<longleftrightarrow> dll L p xs (first ys n) \<and> dll L (final p xs) ys n"
  by (induction xs arbitrary: p) auto

lemma dll_frame:
  "dll L p xs n \<Longrightarrow> (\<And>x. x \<in> set xs \<Longrightarrow> L' x = L x) \<Longrightarrow> dll L' p xs n"
  by (induction xs arbitrary: p) simp_all

lemma dll_update_outside [simp]: "a \<notin> set xs \<Longrightarrow> dll (L(a := v)) p xs n = dll L p xs n"
  by (induction xs arbitrary: p) auto

lemma dll_nonzero: "dll L p xs n \<Longrightarrow> 0 \<notin> set xs"
  by (induction xs arbitrary: p) auto

lemma dll_allocated: "dll L p xs n \<Longrightarrow> x \<in> set xs \<Longrightarrow> \<exists>l. L x = Some l"
  by (induction xs arbitrary: p) auto

lemma dll_determined: "dll L p xs 0 \<Longrightarrow> dll L q ys 0 \<Longrightarrow> first xs 0 = first ys 0 \<Longrightarrow> xs = ys"
proof (induction xs arbitrary: p q ys)
  case Nil
  then show ?case by (cases ys) auto
next
  case (Cons x xs)
  then obtain zs where ys: "ys = x # zs" "first xs 0 = first zs 0" "dll L x zs 0"
    by (cases ys) auto
  with Cons show ?case by auto
qed

lemma dll_distinct: "dll L p xs 0 \<Longrightarrow> distinct xs"
proof (induction xs arbitrary: p)
  case (Cons x xs)
  have "x \<notin> set xs"
  proof
    assume "x \<in> set xs"
    then obtain ys zs where xs: "xs = ys @ x # zs"
      by (meson split_list)
    with Cons.prems have "dll L x xs 0" "dll L (final x ys) (x # zs) 0"
      by auto
    with Cons.prems have "dll L x (xs) 0" "dll L x zs 0" "first xs 0 = first zs 0"
      by auto
    then have "xs = zs"
      by (rule dll_determined)
    with xs show False
      by (metis append_Cons append_assoc append_self_conv2 list.distinct(1) self_append_conv)
  qed
  with Cons show ?case by auto
qed simp

text \<open>The ends and the middle of a chain.\<close>

lemma first_in [simp]: "xs \<noteq> [] \<Longrightarrow> first xs n \<in> set xs"
  by (cases xs) simp_all

lemma final_in [simp]: "xs \<noteq> [] \<Longrightarrow> final p xs \<in> set xs"
  by (simp add: final_def)

lemma first_eq_0: "0 \<notin> set xs \<Longrightarrow> first xs 0 = 0 \<longleftrightarrow> xs = []"
  by (cases xs) auto

lemma final_eq_0: "0 \<notin> set xs \<Longrightarrow> final 0 xs = 0 \<longleftrightarrow> xs = []"
  by (metis final_def last_in_set)

lemma first_eq_final: "distinct xs \<Longrightarrow> xs \<noteq> [] \<Longrightarrow> first xs n = final p xs \<longleftrightarrow> length xs = 1"
  by (cases xs) (auto simp: final_def)

text \<open>Writing the successor of the last node, and the predecessor of the first one.\<close>

definition next_of :: "addr \<Rightarrow> links \<Rightarrow> addr \<Rightarrow> links" where
  "next_of a L v = L(a := map_option (\<lambda>(p, n). (p, v)) (L a))"

definition prev_of :: "addr \<Rightarrow> links \<Rightarrow> addr \<Rightarrow> links" where
  "prev_of a L v = L(a := map_option (\<lambda>(p, n). (v, n)) (L a))"

lemma dll_relink_next:
  assumes "dll L p (xs @ [x]) n" and "x \<notin> set xs"
  shows "dll (next_of x L m) p (xs @ [x]) m"
  using assms by (simp add: next_of_def)

lemma dll_relink_prev:
  assumes "dll L p (x # xs) n" and "x \<notin> set xs"
  shows "dll (prev_of x L q) q (x # xs) n"
  using assms by (simp add: prev_of_def)

lemma dll_next_outside [simp]: "a \<notin> set xs \<Longrightarrow> dll (next_of a L v) p xs n = dll L p xs n"
  by (simp add: next_of_def)

lemma dll_prev_outside [simp]: "a \<notin> set xs \<Longrightarrow> dll (prev_of a L v) p xs n = dll L p xs n"
  by (simp add: prev_of_def)

end
