(* ===== verification/Ten_List.thy ===== *)
theory Ten_List
  imports Linked_Store
begin

text \<open>
  The list of \<open>ten_utils/container\<close> (\<open>list.c\<close>, \<open>list_node.c\<close>, \<open>list_ptr.c\<close>): intrusive, doubly
  linked, with a size. The nodes live in a store; a node that is freed leaves it, so an access to
  a freed node, a NULL pointer or a second free is \<open>None\<close>, like a failed \<open>TEN_ASSERT\<close>. The payload
  is that of the pointer nodes; the signatures, which only catch wild pointers, are left out, and
  so are the destroy functions of the payloads, which do not touch the nodes.

  The operations are given an abstract counterpart on plain lists of nodes, and the simulation
  shows that every sequence of operations whose preconditions hold runs to its end, with the
  results the plain lists give and without touching any other node.
\<close>

section \<open>Nodes, lists and the store\<close>

record ten_listnode =
  node_next :: addr
  node_prev :: addr
  node_ptr :: addr

type_synonym list_store = "addr \<Rightarrow> ten_listnode option"

record ten_list =
  list_size :: nat
  list_front :: addr
  list_back :: addr

definition TEN_LIST_LOOP_MAX_ALLOWABLE_CNT :: nat where
  "TEN_LIST_LOOP_MAX_ALLOWABLE_CNT = 100000"

definition set_next :: "addr \<Rightarrow> addr \<Rightarrow> list_store \<Rightarrow> list_store run" where
  "set_next a v s = map_option (\<lambda>n. s(a \<mapsto> n\<lparr>node_next := v\<rparr>)) (s a)"

definition set_prev :: "addr \<Rightarrow> addr \<Rightarrow> list_store \<Rightarrow> list_store run" where
  "set_prev a v s = map_option (\<lambda>n. s(a \<mapsto> n\<lparr>node_prev := v\<rparr>)) (s a)"

definition ten_listnode_destroy :: "addr \<Rightarrow> list_store \<Rightarrow> list_store run" where
  "ten_listnode_destroy a s = do { ten_assert (a \<noteq> 0); _ \<leftarrow> s a; Some (s(a := None)) }"

definition ten_ptr_listnode_create :: "addr \<Rightarrow> addr \<Rightarrow> list_store \<Rightarrow> list_store run" where
  "ten_ptr_listnode_create p a s = do {
     ten_assert (p \<noteq> 0);
     Some (s(a \<mapsto> \<lparr>node_next = 0, node_prev = 0, node_ptr = p\<rparr>)) }"

definition ten_list_init :: ten_list where
  "ten_list_init = \<lparr>list_size = 0, list_front = 0, list_back = 0\<rparr>"

definition ten_list_check_integrity :: "list_store \<Rightarrow> ten_list \<Rightarrow> bool run" where
  "ten_list_check_integrity s l =
     (if list_size l = 0 then Some (list_front l = 0 \<and> list_back l = 0)
      else if list_front l = 0 \<or> list_back l = 0 then Some False
      else if list_size l = 1 \<and> list_front l \<noteq> list_back l then Some False
      else if list_size l \<noteq> 1 \<and> list_front l = list_back l then Some False
      else do {
        f \<leftarrow> s (list_front l);
        if node_prev f \<noteq> 0 then Some False
        else do { b \<leftarrow> s (list_back l); Some (node_next b = 0) } })"

definition sound_list :: "list_store \<Rightarrow> ten_list \<Rightarrow> unit run" where
  "sound_list s l = do { ok \<leftarrow> ten_list_check_integrity s l; ten_assert ok }"

definition loop_allowed :: "ten_list \<Rightarrow> unit run" where
  "loop_allowed l = ten_assert (list_size l \<le> TEN_LIST_LOOP_MAX_ALLOWABLE_CNT)"

section \<open>Operations\<close>

definition ten_list_push_front :: "ten_list \<Rightarrow> addr \<Rightarrow> list_store \<Rightarrow> (list_store \<times> ten_list) run" where
  "ten_list_push_front l a s = do {
     sound_list s l;
     ten_assert (a \<noteq> 0);
     if list_size l = 0 then do {
       s \<leftarrow> set_next a 0 s;
       s \<leftarrow> set_prev a 0 s;
       Some (s, l\<lparr>list_front := a, list_back := a, list_size := list_size l + 1\<rparr>) }
     else do {
       s \<leftarrow> set_next a (list_front l) s;
       s \<leftarrow> set_prev a 0 s;
       s \<leftarrow> set_prev (list_front l) a s;
       Some (s, l\<lparr>list_front := a, list_size := list_size l + 1\<rparr>) } }"

definition ten_list_push_back :: "ten_list \<Rightarrow> addr \<Rightarrow> list_store \<Rightarrow> (list_store \<times> ten_list) run" where
  "ten_list_push_back l a s = do {
     sound_list s l;
     ten_assert (a \<noteq> 0);
     if list_size l = 0 then do {
       s \<leftarrow> set_prev a 0 s;
       s \<leftarrow> set_next a 0 s;
       Some (s, l\<lparr>list_front := a, list_back := a, list_size := list_size l + 1\<rparr>) }
     else do {
       s \<leftarrow> set_next a 0 s;
       s \<leftarrow> set_prev a (list_back l) s;
       s \<leftarrow> set_next (list_back l) a s;
       Some (s, l\<lparr>list_back := a, list_size := list_size l + 1\<rparr>) } }"

definition ten_list_pop_front :: "ten_list \<Rightarrow> list_store \<Rightarrow> (addr \<times> list_store \<times> ten_list) run" where
  "ten_list_pop_front l s = do {
     sound_list s l;
     if list_size l = 0 then Some (0, s, l)
     else if list_size l = 1 then do {
       s \<leftarrow> set_next (list_front l) 0 s;
       s \<leftarrow> set_prev (list_front l) 0 s;
       Some (list_front l, s, l\<lparr>list_front := 0, list_back := 0, list_size := list_size l - 1\<rparr>) }
     else do {
       n \<leftarrow> s (list_front l);
       s \<leftarrow> set_prev (node_next n) 0 s;
       s \<leftarrow> set_next (list_front l) 0 s;
       Some (list_front l, s, l\<lparr>list_front := node_next n, list_size := list_size l - 1\<rparr>) } }"

definition ten_list_pop_back :: "ten_list \<Rightarrow> list_store \<Rightarrow> (addr \<times> list_store \<times> ten_list) run" where
  "ten_list_pop_back l s = do {
     sound_list s l;
     if list_size l = 0 then Some (0, s, l)
     else if list_size l = 1 then do {
       s \<leftarrow> set_next (list_back l) 0 s;
       s \<leftarrow> set_prev (list_back l) 0 s;
       Some (list_back l, s, l\<lparr>list_front := 0, list_back := 0, list_size := list_size l - 1\<rparr>) }
     else do {
       n \<leftarrow> s (list_back l);
       s \<leftarrow> set_next (node_prev n) 0 s;
       s \<leftarrow> set_prev (list_back l) 0 s;
       Some (list_back l, s, l\<lparr>list_back := node_prev n, list_size := list_size l - 1\<rparr>) } }"

definition ten_list_remove_front :: "ten_list \<Rightarrow> list_store \<Rightarrow> (list_store \<times> ten_list) run" where
  "ten_list_remove_front l s = do {
     (a, s, l) \<leftarrow> ten_list_pop_front l s;
     s \<leftarrow> ten_listnode_destroy a s;
     Some (s, l) }"

definition ten_list_detach_node :: "ten_list \<Rightarrow> addr \<Rightarrow> list_store \<Rightarrow> (list_store \<times> ten_list) run" where
  "ten_list_detach_node l a s = do {
     sound_list s l;
     ten_assert (list_size l \<noteq> 0);
     ten_assert (a \<noteq> 0);
     if list_size l = 1 then do {
       ten_assert (list_front l = a);
       Some (s, l\<lparr>list_front := 0, list_back := 0, list_size := list_size l - 1\<rparr>) }
     else do {
       n \<leftarrow> s a;
       if a = list_front l then do {
         m \<leftarrow> s (node_next n);
         ten_assert (node_prev n = 0 \<and> node_prev m = a);
         s \<leftarrow> set_prev (node_next n) 0 s;
         Some (s, l\<lparr>list_front := node_next n, list_size := list_size l - 1\<rparr>) }
       else if a = list_back l then do {
         m \<leftarrow> s (node_prev n);
         ten_assert (node_next n = 0 \<and> node_next m = a);
         s \<leftarrow> set_next (node_prev n) 0 s;
         Some (s, l\<lparr>list_back := node_prev n, list_size := list_size l - 1\<rparr>) }
       else do {
         m \<leftarrow> s (node_prev n);
         k \<leftarrow> s (node_next n);
         ten_assert (node_next m = a \<and> node_prev k = a);
         s \<leftarrow> set_next (node_prev n) (node_next n) s;
         s \<leftarrow> set_prev (node_next n) (node_prev n) s;
         Some (s, l\<lparr>list_size := list_size l - 1\<rparr>) } } }"

definition ten_list_remove_node :: "ten_list \<Rightarrow> addr \<Rightarrow> list_store \<Rightarrow> (list_store \<times> ten_list) run" where
  "ten_list_remove_node l a s = do {
     sound_list s l;
     ten_assert (a \<noteq> 0 \<and> list_size l \<noteq> 0);
     (s, l) \<leftarrow> ten_list_detach_node l a s;
     s \<leftarrow> ten_listnode_destroy a s;
     Some (s, l) }"

definition ten_list_swap :: "ten_list \<Rightarrow> ten_list \<Rightarrow> list_store \<Rightarrow> (ten_list \<times> ten_list) run" where
  "ten_list_swap l t s = do { sound_list s l; sound_list s t; Some (t, l) }"

definition ten_list_concat ::
    "ten_list \<Rightarrow> ten_list \<Rightarrow> list_store \<Rightarrow> (list_store \<times> ten_list \<times> ten_list) run" where
  "ten_list_concat l t s = do {
     sound_list s l;
     sound_list s t;
     if list_size t = 0 then Some (s, l, t)
     else if list_size l = 0 then do { (l, t) \<leftarrow> ten_list_swap l t s; Some (s, l, t) }
     else do {
       s \<leftarrow> set_next (list_back l) (list_front t) s;
       s \<leftarrow> set_prev (list_front t) (list_back l) s;
       Some (s, l\<lparr>list_back := list_back t, list_size := list_size l + list_size t\<rparr>, ten_list_init) } }"

text \<open>
  \<open>ten_list_foreach\<close> reads the successor of a node before its body runs, so a body may free the
  node or put it elsewhere. On a broken chain the loop need not end.
\<close>

partial_function (option) clear_nodes :: "addr \<Rightarrow> list_store \<Rightarrow> list_store run" where
  "clear_nodes a s =
     (if a = 0 then Some s
      else do { n \<leftarrow> s a; s \<leftarrow> ten_listnode_destroy a s; clear_nodes (node_next n) s })"

definition ten_list_clear :: "ten_list \<Rightarrow> list_store \<Rightarrow> (list_store \<times> ten_list) run" where
  "ten_list_clear l s = do {
     sound_list s l;
     loop_allowed l;
     s \<leftarrow> clear_nodes (list_front l) s;
     Some (s, ten_list_init) }"

partial_function (option) reverse_nodes ::
    "ten_list \<Rightarrow> addr \<Rightarrow> list_store \<Rightarrow> (list_store \<times> ten_list) run" where
  "reverse_nodes t a s =
     (if a = 0 then Some (s, t)
      else do {
        n \<leftarrow> s a;
        (s, t) \<leftarrow> ten_list_push_front t a s;
        reverse_nodes t (node_next n) s })"

definition ten_list_reverse_new ::
    "ten_list \<Rightarrow> ten_list \<Rightarrow> list_store \<Rightarrow> (list_store \<times> ten_list \<times> ten_list) run" where
  "ten_list_reverse_new l t s = do {
     sound_list s l;
     sound_list s t;
     loop_allowed l;
     (s, t) \<leftarrow> reverse_nodes t (list_front l) s;
     Some (s, ten_list_init, t) }"

definition ten_list_reverse :: "ten_list \<Rightarrow> list_store \<Rightarrow> (list_store \<times> ten_list) run" where
  "ten_list_reverse l s = do {
     sound_list s l;
     loop_allowed l;
     (s, t) \<leftarrow> reverse_nodes ten_list_init (list_front l) s;
     (t, l) \<leftarrow> ten_list_swap t ten_list_init s;
     Some (s, l) }"

partial_function (option) insert_node ::
    "(addr \<Rightarrow> addr \<Rightarrow> int) \<Rightarrow> bool \<Rightarrow> ten_list \<Rightarrow> addr \<Rightarrow> addr \<Rightarrow> addr \<Rightarrow> list_store \<Rightarrow>
      (bool \<times> list_store \<times> ten_list) run" where
  "insert_node cmp skip l a p x s =
     (if x = 0 then do { (s, l) \<leftarrow> ten_list_push_back l a s; Some (True, s, l) }
      else do {
        n \<leftarrow> s x;
        m \<leftarrow> s a;
        let r = cmp (node_ptr n) (node_ptr m) in
        if r = 0 \<and> skip then Some (False, s, l)
        else if 0 < r then insert_node cmp skip l a x (node_next n) s
        else if x = list_front l then do { (s, l) \<leftarrow> ten_list_push_front l a s; Some (True, s, l) }
        else do {
          s \<leftarrow> set_next p a s;
          s \<leftarrow> set_prev a p s;
          s \<leftarrow> set_next a x s;
          s \<leftarrow> set_prev x a s;
          Some (True, s, l\<lparr>list_size := list_size l + 1\<rparr>) } })"

definition ten_list_push_back_in_order ::
    "(addr \<Rightarrow> addr \<Rightarrow> int) \<Rightarrow> bool \<Rightarrow> ten_list \<Rightarrow> addr \<Rightarrow> list_store \<Rightarrow>
      (bool \<times> list_store \<times> ten_list) run" where
  "ten_list_push_back_in_order cmp skip l a s = do {
     sound_list s l;
     ten_assert (a \<noteq> 0);
     if list_size l = 0 then do { (s, l) \<leftarrow> ten_list_push_back l a s; Some (True, s, l) }
     else do { loop_allowed l; insert_node cmp skip l a 0 (list_front l) s } }"

text \<open>The searches of \<open>list_ptr.c\<close>.\<close>

partial_function (option) find_node :: "(addr \<Rightarrow> bool) \<Rightarrow> addr \<Rightarrow> list_store \<Rightarrow> addr run" where
  "find_node P a s =
     (if a = 0 then Some 0
      else do { n \<leftarrow> s a; if P (node_ptr n) then Some a else find_node P (node_next n) s })"

partial_function (option) count_nodes :: "(addr \<Rightarrow> bool) \<Rightarrow> nat \<Rightarrow> addr \<Rightarrow> list_store \<Rightarrow> nat run" where
  "count_nodes P c a s =
     (if a = 0 then Some c
      else do {
        n \<leftarrow> s a;
        count_nodes P (if P (node_ptr n) then c + 1 else c) (node_next n) s })"

definition ten_list_find_ptr :: "ten_list \<Rightarrow> addr \<Rightarrow> list_store \<Rightarrow> addr run" where
  "ten_list_find_ptr l p s = do {
     sound_list s l; ten_assert (p \<noteq> 0); loop_allowed l; find_node ((=) p) (list_front l) s }"

definition ten_list_find_ptr_custom ::
    "(addr \<Rightarrow> addr \<Rightarrow> bool) \<Rightarrow> ten_list \<Rightarrow> addr \<Rightarrow> list_store \<Rightarrow> addr run" where
  "ten_list_find_ptr_custom equal_to l p s = do {
     sound_list s l; ten_assert (p \<noteq> 0); loop_allowed l;
     find_node (\<lambda>x. equal_to x p) (list_front l) s }"

definition ten_list_find_ptr_cnt_custom ::
    "(addr \<Rightarrow> addr \<Rightarrow> bool) \<Rightarrow> ten_list \<Rightarrow> addr \<Rightarrow> list_store \<Rightarrow> nat run" where
  "ten_list_find_ptr_cnt_custom equal_to l p s = do {
     sound_list s l; ten_assert (p \<noteq> 0); loop_allowed l;
     count_nodes (\<lambda>x. equal_to x p) 0 (list_front l) s }"

definition ten_list_cnt_ptr_custom :: "(addr \<Rightarrow> bool) \<Rightarrow> ten_list \<Rightarrow> list_store \<Rightarrow> nat run" where
  "ten_list_cnt_ptr_custom P l s = do {
     sound_list s l; loop_allowed l; count_nodes P 0 (list_front l) s }"

definition ten_list_remove_ptr :: "ten_list \<Rightarrow> addr \<Rightarrow> list_store \<Rightarrow> (bool \<times> list_store \<times> ten_list) run" where
  "ten_list_remove_ptr l p s = do {
     a \<leftarrow> ten_list_find_ptr l p s;
     if a = 0 then Some (False, s, l)
     else do { (s, l) \<leftarrow> ten_list_remove_node l a s; Some (True, s, l) } }"

definition ten_list_push_ptr_back :: "ten_list \<Rightarrow> addr \<Rightarrow> addr \<Rightarrow> list_store \<Rightarrow> (list_store \<times> ten_list) run" where
  "ten_list_push_ptr_back l p a s = do {
     s \<leftarrow> ten_ptr_listnode_create p a s; ten_list_push_back l a s }"

definition ten_list_push_ptr_front :: "ten_list \<Rightarrow> addr \<Rightarrow> addr \<Rightarrow> list_store \<Rightarrow> (list_store \<times> ten_list) run" where
  "ten_list_push_ptr_front l p a s = do {
     s \<leftarrow> ten_ptr_listnode_create p a s; ten_list_push_front l a s }"

definition ten_ptr_listnode_get :: "addr \<Rightarrow> list_store \<Rightarrow> addr run" where
  "ten_ptr_listnode_get a s = map_option node_ptr (s a)"

definition ten_ptr_listnode_replace :: "addr \<Rightarrow> addr \<Rightarrow> list_store \<Rightarrow> list_store run" where
  "ten_ptr_listnode_replace a p s = map_option (\<lambda>n. s(a \<mapsto> n\<lparr>node_ptr := p\<rparr>)) (s a)"

section \<open>Lists of nodes\<close>

definition list_links :: "list_store \<Rightarrow> links" where
  "list_links s a = map_option (\<lambda>n. (node_prev n, node_next n)) (s a)"

definition payload :: "list_store \<Rightarrow> addr \<Rightarrow> addr option" where
  "payload s a = map_option node_ptr (s a)"

text \<open>The list \<open>l\<close> consists of the nodes \<open>xs\<close>.\<close>

definition is_list :: "list_store \<Rightarrow> ten_list \<Rightarrow> addr list \<Rightarrow> bool" where
  "is_list s l xs \<longleftrightarrow>
     dll (list_links s) 0 xs 0 \<and> list_size l = length xs
     \<and> list_front l = first xs 0 \<and> list_back l = final 0 xs"

text \<open>Between two stores only the pointers of the nodes in \<open>A\<close> have changed.\<close>

definition relinked :: "addr set \<Rightarrow> list_store \<Rightarrow> list_store \<Rightarrow> bool" where
  "relinked A s s' \<longleftrightarrow> payload s' = payload s \<and> (\<forall>a. a \<notin> A \<longrightarrow> s' a = s a)"

lemma relinked_refl [simp]: "relinked A s s"
  by (simp add: relinked_def)

lemma relinked_trans: "relinked A s s' \<Longrightarrow> relinked B s' s'' \<Longrightarrow> relinked (A \<union> B) s s''"
  by (simp add: relinked_def)

lemma relinked_mono: "relinked A s s' \<Longrightarrow> A \<subseteq> B \<Longrightarrow> relinked B s s'"
  by (auto simp: relinked_def)

lemma links_update [simp]:
  "list_links (s(a \<mapsto> n)) = (list_links s)(a \<mapsto> (node_prev n, node_next n))"
  by (auto simp: list_links_def)

lemma links_free [simp]: "list_links (s(a := None)) = (list_links s)(a := None)"
  by (auto simp: list_links_def)

lemma payload_update [simp]: "payload (s(a \<mapsto> n)) = (payload s)(a \<mapsto> node_ptr n)"
  by (auto simp: payload_def)

lemma payload_free [simp]: "payload (s(a := None)) = (payload s)(a := None)"
  by (auto simp: payload_def)

lemma payload_same: "s a = Some n \<Longrightarrow> node_ptr n = p \<Longrightarrow> (payload s)(a \<mapsto> p) = payload s"
  by (auto simp: payload_def)

lemma links_SomeD: "list_links s a = Some (p, n) \<Longrightarrow>
    \<exists>d. s a = Some d \<and> node_prev d = p \<and> node_next d = n"
  by (auto simp: list_links_def)

lemma links_SomeI: "s a = Some d \<Longrightarrow> list_links s a = Some (node_prev d, node_next d)"
  by (simp add: list_links_def)

lemma set_next_Some [simp]: "s a = Some n \<Longrightarrow> set_next a v s = Some (s(a \<mapsto> n\<lparr>node_next := v\<rparr>))"
  by (simp add: set_next_def)

lemma set_prev_Some [simp]: "s a = Some n \<Longrightarrow> set_prev a v s = Some (s(a \<mapsto> n\<lparr>node_prev := v\<rparr>))"
  by (simp add: set_prev_def)

lemma is_list_dll: "is_list s l xs \<Longrightarrow> dll (list_links s) 0 xs 0"
  by (simp add: is_list_def)

lemma is_list_distinct: "is_list s l xs \<Longrightarrow> distinct xs"
  using dll_distinct [OF is_list_dll] .

lemma is_list_nonzero: "is_list s l xs \<Longrightarrow> 0 \<notin> set xs"
  using dll_nonzero [OF is_list_dll] .

lemma is_list_allocated: "is_list s l xs \<Longrightarrow> a \<in> set xs \<Longrightarrow> \<exists>n. s a = Some n"
  using dll_allocated [OF is_list_dll] by (fastforce simp: list_links_def)

lemma is_list_frame:
  "is_list s l xs \<Longrightarrow> (\<And>a. a \<in> set xs \<Longrightarrow> s' a = s a) \<Longrightarrow> is_list s' l xs"
  by (auto simp: is_list_def list_links_def intro: dll_frame)

lemma is_list_outside: "is_list s l xs \<Longrightarrow> a \<notin> set xs \<Longrightarrow> is_list (s(a := v)) l xs"
  by (erule is_list_frame) auto

lemma is_list_init [simp]: "is_list s ten_list_init []"
  by (simp add: is_list_def ten_list_init_def)

lemma is_list_size: "is_list s l xs \<Longrightarrow> list_size l = length xs"
  by (simp add: is_list_def)

lemma is_list_ends:
  "is_list s l xs \<Longrightarrow> list_front l = first xs 0" "is_list s l xs \<Longrightarrow> list_back l = final 0 xs"
  by (simp_all add: is_list_def)

lemma is_list_first:
  assumes "is_list s l (x # xs)"
  obtains n where "s x = Some n" "node_prev n = 0" "node_next n = first xs 0" "x \<noteq> 0"
  using assms by (auto simp: is_list_def dest!: links_SomeD)

lemma is_list_last:
  assumes "is_list s l (xs @ [x])"
  obtains n where "s x = Some n" "node_prev n = final 0 xs" "node_next n = 0" "x \<noteq> 0"
  using assms by (auto simp: is_list_def dest!: links_SomeD)

lemma is_list_middle:
  assumes "is_list s l (xs @ x # ys)"
  obtains n where "s x = Some n" "node_prev n = final 0 xs" "node_next n = first ys 0" "x \<noteq> 0"
  using assms by (auto simp: is_list_def dest!: links_SomeD)

text \<open>A list is never found broken.\<close>

lemma sound_list_Some [simp]:
  assumes "is_list s l xs"
  shows "sound_list s l = Some ()"
proof (cases "xs = []")
  case True
  with assms show ?thesis
    by (simp add: sound_list_def ten_list_check_integrity_def is_list_def)
next
  case False
  then obtain x ys z zs where xs: "xs = x # ys" "xs = zs @ [z]"
    by (metis list.exhaust rev_exhaust)
  obtain n where n: "s x = Some n" "node_prev n = 0"
    using assms is_list_first xs(1) by metis
  obtain m where m: "s z = Some m" "node_next m = 0"
    using assms is_list_last xs(2) by metis
  have "distinct xs" "0 \<notin> set xs"
    using assms is_list_distinct is_list_nonzero by blast+
  moreover have "z \<noteq> 0" "x \<noteq> 0"
    using \<open>0 \<notin> set xs\<close> xs by (metis in_set_conv_decomp, metis list.set_intros(1))
  moreover have "x = z \<longleftrightarrow> length xs = 1"
    using first_eq_final [OF \<open>distinct xs\<close> False, of 0 0] xs by (metis final_simps(3) first_simps(2))
  moreover have "list_front l = x" "list_back l = z" "list_size l = length xs"
    using assms xs by (metis is_list_ends first_simps(2), metis is_list_ends(2) final_simps(3), simp add: is_list_size)
  ultimately show ?thesis
    using n m xs False by (auto simp: sound_list_def ten_list_check_integrity_def)
qed

lemma loop_allowed_Some [simp]:
  "is_list s l xs \<Longrightarrow> length xs \<le> 100000 \<Longrightarrow> loop_allowed l = Some ()"
  by (simp add: loop_allowed_def TEN_LIST_LOOP_MAX_ALLOWABLE_CNT_def is_list_size)

section \<open>What each operation does\<close>

lemma push_front_list:
  assumes l: "is_list s l xs" and a: "s a = Some n" "a \<notin> set xs" "a \<noteq> 0"
  shows "\<exists>s' l'. ten_list_push_front l a s = Some (s', l') \<and> is_list s' l' (a # xs)
    \<and> relinked (insert a (set xs)) s s'"
proof (cases xs)
  case Nil
  with sound_list_Some [OF l] l a show ?thesis
    by (auto simp: ten_list_push_front_def is_list_def relinked_def payload_same)
next
  case (Cons x ys)
  with l obtain m where m: "s x = Some m" "node_prev m = 0" "node_next m = first ys 0" "x \<noteq> 0"
    using is_list_first by metis
  have "x \<notin> set ys"
    using is_list_distinct [OF l] Cons by simp
  with sound_list_Some [OF l] l a m Cons show ?thesis
    by (auto simp: ten_list_push_front_def is_list_def relinked_def payload_same)
qed

lemma push_back_list:
  assumes l: "is_list s l xs" and a: "s a = Some n" "a \<notin> set xs" "a \<noteq> 0"
  shows "\<exists>s' l'. ten_list_push_back l a s = Some (s', l') \<and> is_list s' l' (xs @ [a])
    \<and> relinked (insert a (set xs)) s s'"
proof (cases xs rule: rev_cases)
  case Nil
  with sound_list_Some [OF l] l a show ?thesis
    by (auto simp: ten_list_push_back_def is_list_def relinked_def payload_same)
next
  case (snoc ys x)
  with l obtain m where m: "s x = Some m" "node_prev m = final 0 ys" "node_next m = 0" "x \<noteq> 0"
    using is_list_last by metis
  have "x \<notin> set ys"
    using is_list_distinct [OF l] snoc by simp
  with sound_list_Some [OF l] l a m snoc show ?thesis
    by (auto simp: ten_list_push_back_def is_list_def relinked_def payload_same)
qed

lemma pop_front_empty: "is_list s l [] \<Longrightarrow> ten_list_pop_front l s = Some (0, s, l)"
  by (simp add: ten_list_pop_front_def is_list_size)

lemma pop_back_empty: "is_list s l [] \<Longrightarrow> ten_list_pop_back l s = Some (0, s, l)"
  by (simp add: ten_list_pop_back_def is_list_size)

lemma pop_front_list:
  assumes l: "is_list s l (x # xs)"
  shows "\<exists>s' l'. ten_list_pop_front l s = Some (x, s', l') \<and> is_list s' l' xs
    \<and> relinked (set (x # xs)) s s'"
proof -
  obtain n where n: "s x = Some n" "node_prev n = 0" "node_next n = first xs 0" "x \<noteq> 0"
    using l is_list_first by metis
  have d: "x \<notin> set xs" "distinct xs"
    using is_list_distinct [OF l] by simp_all
  show ?thesis
  proof (cases xs)
    case Nil
    with sound_list_Some [OF l] l n d show ?thesis
      by (auto simp: ten_list_pop_front_def is_list_def relinked_def payload_same)
  next
    case (Cons y ys)
    then obtain m where "s y = Some m" "node_prev m = x" "node_next m = first ys 0"
      using l is_list_middle [of s l "[x]" y ys] by auto
    with sound_list_Some [OF l] l n d Cons show ?thesis
      by (auto simp: ten_list_pop_front_def is_list_def relinked_def payload_same)
  qed
qed

lemma pop_back_list:
  assumes l: "is_list s l (xs @ [x])"
  shows "\<exists>s' l'. ten_list_pop_back l s = Some (x, s', l') \<and> is_list s' l' xs
    \<and> relinked (set (xs @ [x])) s s'"
proof -
  obtain n where n: "s x = Some n" "node_prev n = final 0 xs" "node_next n = 0" "x \<noteq> 0"
    using l is_list_last by metis
  have d: "x \<notin> set xs" "distinct xs"
    using is_list_distinct [OF l] by simp_all
  show ?thesis
  proof (cases xs rule: rev_cases)
    case Nil
    with sound_list_Some [OF l] l n d show ?thesis
      by (auto simp: ten_list_pop_back_def is_list_def relinked_def payload_same)
  next
    case (snoc ys y)
    then obtain m where "s y = Some m" "node_prev m = final 0 ys" "node_next m = x"
      using l is_list_middle [of s l ys y "[x]"] by auto
    with sound_list_Some [OF l] l n d snoc show ?thesis
      by (auto simp: ten_list_pop_back_def is_list_def relinked_def payload_same)
  qed
qed

lemma detach_list:
  assumes l: "is_list s l (xs @ x # ys)"
  shows "\<exists>s' l'. ten_list_detach_node l x s = Some (s', l') \<and> is_list s' l' (xs @ ys)
    \<and> relinked (set (xs @ ys)) s s'"
proof -
  obtain n where n: "s x = Some n" "node_prev n = final 0 xs" "node_next n = first ys 0" "x \<noteq> 0"
    using l is_list_middle by metis
  have d: "x \<notin> set xs" "x \<notin> set ys" "distinct xs" "distinct ys" "set xs \<inter> set ys = {}"
    using is_list_distinct [OF l] by auto
  show ?thesis
  proof (cases xs rule: rev_cases; cases ys)
    fix ps p assume xs: "xs = ps @ [p]" and ys: "ys = []"
    obtain m where "s p = Some m" "node_prev m = final 0 ps" "node_next m = x"
      using l is_list_middle [of s l ps p "x # ys"] xs by auto
    moreover have "x \<noteq> first ps p"
      using d xs by (cases ps) auto
    ultimately show ?thesis
      using sound_list_Some [OF l] l n d xs ys by (auto simp: ten_list_detach_node_def is_list_def relinked_def payload_same)
  next
    fix y zs assume xs: "xs = []" and ys: "ys = y # zs"
    obtain k where "s y = Some k" "node_prev k = x" "node_next k = first zs 0"
      using l is_list_middle [of s l "xs @ [x]" y zs] xs ys by auto
    then show ?thesis
      using sound_list_Some [OF l] l n d xs ys by (auto simp: ten_list_detach_node_def is_list_def relinked_def payload_same)
  next
    fix ps p y zs assume xs: "xs = ps @ [p]" and ys: "ys = y # zs"
    obtain m where m: "s p = Some m" "node_prev m = final 0 ps" "node_next m = x"
      using l is_list_middle [of s l ps p "x # ys"] xs by auto
    obtain k where k: "s y = Some k" "node_prev k = x" "node_next k = first zs 0"
      using l is_list_middle [of s l "xs @ [x]" y zs] ys by auto
    have "x \<noteq> first ps p" "x \<noteq> final y zs" "p \<noteq> y"
      using d xs ys by (cases ps; cases zs rule: rev_cases; auto)+
    then show ?thesis
      using sound_list_Some [OF l] l n d xs ys m k
      by (auto simp: ten_list_detach_node_def is_list_def relinked_def payload_same)
  qed (use sound_list_Some [OF l] l n d in \<open>auto simp: ten_list_detach_node_def is_list_def relinked_def\<close>)
qed

text \<open>Freeing nodes: those of \<open>F\<close> are gone, and outside \<open>A\<close> nothing has changed.\<close>

definition released :: "addr set \<Rightarrow> addr set \<Rightarrow> list_store \<Rightarrow> list_store \<Rightarrow> bool" where
  "released F A s s' \<longleftrightarrow>
     payload s' = (\<lambda>a. if a \<in> F then None else payload s a) \<and> (\<forall>a. a \<notin> A \<longrightarrow> s' a = s a)"

lemma destroy_Some [simp]:
  "s a = Some n \<Longrightarrow> a \<noteq> 0 \<Longrightarrow> ten_listnode_destroy a s = Some (s(a := None))"
  by (simp add: ten_listnode_destroy_def)

lemma relinked_allocated: "relinked A s s' \<Longrightarrow> s a = Some n \<Longrightarrow> \<exists>m. s' a = Some m"
proof -
  assume "relinked A s s'" "s a = Some n"
  then have "payload s' a = Some (node_ptr n)"
    by (simp add: relinked_def) (simp add: payload_def)
  then show ?thesis
    by (auto simp: payload_def)
qed

lemma remove_node_list:
  assumes l: "is_list s l (xs @ x # ys)"
  shows "\<exists>s' l'. ten_list_remove_node l x s = Some (s', l') \<and> is_list s' l' (xs @ ys)
    \<and> released {x} (set (xs @ x # ys)) s s'"
proof -
  obtain s1 l1 where 1: "ten_list_detach_node l x s = Some (s1, l1)" "is_list s1 l1 (xs @ ys)"
      "relinked (set (xs @ ys)) s s1"
    using detach_list [OF l] by blast
  obtain n where n: "s x = Some n" "x \<noteq> 0"
    using l is_list_middle by metis
  then obtain m where m: "s1 x = Some m"
    using relinked_allocated [OF 1(3)] by blast
  have "x \<notin> set (xs @ ys)"
    using is_list_distinct [OF l] by simp
  then have "is_list (s1(x := None)) l1 (xs @ ys)"
    by (intro is_list_frame [OF 1(2)]) auto
  moreover have "released {x} (set (xs @ x # ys)) s (s1(x := None))"
    using 1(3) by (auto simp: released_def relinked_def)
  moreover have "list_size l \<noteq> 0"
    using is_list_size [OF l] by simp
  ultimately show ?thesis
    using 1(1) n m sound_list_Some [OF l] by (simp add: ten_list_remove_node_def)
qed

lemma remove_front_list:
  assumes l: "is_list s l (x # xs)"
  shows "\<exists>s' l'. ten_list_remove_front l s = Some (s', l') \<and> is_list s' l' xs
    \<and> released {x} (set (x # xs)) s s'"
proof -
  obtain s1 l1 where 1: "ten_list_pop_front l s = Some (x, s1, l1)" "is_list s1 l1 xs"
      "relinked (set (x # xs)) s s1"
    using pop_front_list [OF l] by blast
  obtain n where n: "s x = Some n" "x \<noteq> 0"
    using l is_list_first by metis
  then obtain m where m: "s1 x = Some m"
    using relinked_allocated [OF 1(3)] by blast
  have "x \<notin> set xs"
    using is_list_distinct [OF l] by simp
  then have "is_list (s1(x := None)) l1 xs"
    by (intro is_list_frame [OF 1(2)]) auto
  moreover have "released {x} (set (x # xs)) s (s1(x := None))"
    using 1(3) by (auto simp: released_def relinked_def)
  ultimately show ?thesis
    using 1(1) n m by (simp add: ten_list_remove_front_def)
qed

lemma remove_front_empty: "is_list s l [] \<Longrightarrow> ten_list_remove_front l s = None"
  by (simp add: ten_list_remove_front_def pop_front_empty ten_listnode_destroy_def)

lemma clear_nodes_dll:
  "dll (list_links s) p xs 0 \<Longrightarrow>
    clear_nodes (first xs 0) s = Some (\<lambda>a. if a \<in> set xs then None else s a)"
proof (induction xs arbitrary: p s)
  case Nil
  then show ?case by (simp add: clear_nodes.simps)
next
  case (Cons x xs)
  then obtain n where n: "s x = Some n" "node_next n = first xs 0" "x \<noteq> 0"
    by (auto dest!: links_SomeD)
  have "x \<notin> set xs"
    using dll_distinct [OF Cons.prems] by simp
  then have "dll (list_links (s(x := None))) x xs 0"
    using Cons.prems by simp
  from Cons.IH [OF this] have "clear_nodes (first xs 0) (s(x := None)) =
      Some (\<lambda>a. if a \<in> set (x # xs) then None else s a)"
    by (rule trans) auto
  with n show ?case
    by (subst clear_nodes.simps) simp
qed

lemma clear_list:
  assumes "is_list s l xs" and "length xs \<le> 100000"
  shows "\<exists>s'. ten_list_clear l s = Some (s', ten_list_init) \<and> released (set xs) (set xs) s s'"
  using assms clear_nodes_dll [OF is_list_dll [OF assms(1)]]
  by (auto simp: ten_list_clear_def is_list_ends released_def payload_def)

lemma reverse_nodes_dll:
  assumes "dll (list_links s) p xs 0" and "is_list s t ys" and "set xs \<inter> set ys = {}"
  shows "\<exists>s' t'. reverse_nodes t (first xs 0) s = Some (s', t') \<and> is_list s' t' (rev xs @ ys)
    \<and> relinked (set xs \<union> set ys) s s'"
  using assms
proof (induction xs arbitrary: p s t ys)
  case Nil
  then show ?case by (simp add: reverse_nodes.simps)
next
  case (Cons x xs)
  then obtain n where n: "s x = Some n" "node_next n = first xs 0" "x \<noteq> 0"
    by (auto dest!: links_SomeD)
  obtain s1 t1 where 1: "ten_list_push_front t x s = Some (s1, t1)" "is_list s1 t1 (x # ys)"
      "relinked (insert x (set ys)) s s1"
    using push_front_list [OF Cons.prems(2) n(1)] Cons.prems(3) n(3) by auto
  have x: "x \<notin> set xs"
    using dll_distinct [OF Cons.prems(1)] by simp
  have "list_links s1 a = list_links s a" if "a \<in> set xs" for a
    using that Cons.prems(3) 1(3) x by (auto simp: list_links_def relinked_def)
  moreover have "dll (list_links s) x xs 0"
    using Cons.prems(1) by simp
  ultimately have "dll (list_links s1) x xs 0"
    by (metis dll_frame)
  from Cons.IH [OF this 1(2)] x Cons.prems(3)
  obtain s2 t2 where 2: "reverse_nodes t1 (first xs 0) s1 = Some (s2, t2)"
      "is_list s2 t2 (rev xs @ x # ys)" "relinked (set xs \<union> set (x # ys)) s1 s2"
    by auto
  have "relinked (set (x # xs) \<union> set ys) s s2"
    by (rule relinked_mono [OF relinked_trans [OF 1(3) 2(3)]]) auto
  with n 1(1) 2 show ?case
    by (subst reverse_nodes.simps) simp
qed

lemma reverse_new_list:
  assumes l: "is_list s l xs" and t: "is_list s t ys"
    and d: "set xs \<inter> set ys = {}" "length xs \<le> 100000"
  shows "\<exists>s' t'. ten_list_reverse_new l t s = Some (s', ten_list_init, t')
    \<and> is_list s' t' (rev xs @ ys) \<and> relinked (set xs \<union> set ys) s s'"
  using reverse_nodes_dll [OF is_list_dll [OF l] t d(1)] sound_list_Some [OF l] sound_list_Some [OF t]
    loop_allowed_Some [OF l d(2)] is_list_ends(1) [OF l]
  by (auto simp: ten_list_reverse_new_def)

lemma reverse_list:
  assumes l: "is_list s l xs" and d: "length xs \<le> 100000"
  shows "\<exists>s' l'. ten_list_reverse l s = Some (s', l') \<and> is_list s' l' (rev xs)
    \<and> relinked (set xs) s s'"
proof -
  obtain s' t where 1: "reverse_nodes ten_list_init (first xs 0) s = Some (s', t)"
      "is_list s' t (rev xs)" "relinked (set xs) s s'"
    using reverse_nodes_dll [OF is_list_dll [OF l] is_list_init] by auto
  then show ?thesis
    using sound_list_Some [OF l] sound_list_Some [OF 1(2)] sound_list_Some [OF is_list_init]
      loop_allowed_Some [OF l d] is_list_ends(1) [OF l]
    by (simp add: ten_list_reverse_def ten_list_swap_def)
qed

lemma concat_list:
  assumes l: "is_list s l xs" and t: "is_list s t ys" and d: "set xs \<inter> set ys = {}"
  shows "\<exists>s' l'. ten_list_concat l t s = Some (s', l', ten_list_init) \<and> is_list s' l' (xs @ ys)
    \<and> relinked (set xs \<union> set ys) s s'"
proof (cases xs rule: rev_cases; cases ys)
  note ok = sound_list_Some [OF l] sound_list_Some [OF t]
  fix ps p y zs assume xs: "xs = ps @ [p]" and ys: "ys = y # zs"
  obtain n where n: "s p = Some n" "node_prev n = final 0 ps" "node_next n = 0"
    using l is_list_last xs by metis
  obtain m where m: "s y = Some m" "node_prev m = 0" "node_next m = first zs 0"
    using t is_list_first ys by metis
  have "p \<notin> set ps" "y \<notin> set zs" "p \<notin> set (y # zs)" "y \<notin> set ps"
    using is_list_distinct [OF l] is_list_distinct [OF t] d xs ys by auto
  with l t n m ok xs ys show ?thesis
    by (auto simp: ten_list_concat_def is_list_def relinked_def payload_same)
qed (use l t sound_list_Some [OF l] sound_list_Some [OF t] in
    \<open>auto simp: ten_list_concat_def ten_list_swap_def is_list_def ten_list_init_def\<close>)

text \<open>
  The place of a node in an ordered list: before the first node that does not compare greater,
  or nowhere when that node compares equal and equal nodes are to be skipped.
\<close>

fun insert_in_order ::
    "(addr \<Rightarrow> addr \<Rightarrow> int) \<Rightarrow> bool \<Rightarrow> (addr \<Rightarrow> addr) \<Rightarrow> addr \<Rightarrow> addr list \<Rightarrow> addr list option" where
  "insert_in_order cmp skip key a [] = Some [a]"
| "insert_in_order cmp skip key a (x # xs) =
     (if cmp (key x) (key a) = 0 \<and> skip then None
      else if 0 < cmp (key x) (key a) then map_option ((#) x) (insert_in_order cmp skip key a xs)
      else Some (a # x # xs))"

lemma insert_in_order_set:
  "insert_in_order cmp skip key a xs = Some ys \<Longrightarrow> set ys = insert a (set xs) \<and> length ys = Suc (length xs)"
  by (induction xs arbitrary: ys) (auto split: if_splits)

definition key_of :: "list_store \<Rightarrow> addr \<Rightarrow> addr" where
  "key_of s a = (case s a of None \<Rightarrow> 0 | Some n \<Rightarrow> node_ptr n)"

lemma key_of_payload: "payload s = q \<Longrightarrow> key_of s = (\<lambda>a. case q a of None \<Rightarrow> 0 | Some p \<Rightarrow> p)"
  by (rule ext) (auto simp: key_of_def payload_def split: option.split)

lemma link_between:
  assumes l: "is_list s l (ps @ [p] @ x # xs)" and a: "s a = Some m" "a \<notin> set (ps @ [p] @ x # xs)" "a \<noteq> 0"
  shows "\<exists>s'. (do {
        s \<leftarrow> set_next p a s; s \<leftarrow> set_prev a p s; s \<leftarrow> set_next a x s; s \<leftarrow> set_prev x a s;
        Some (True, s, l\<lparr>list_size := list_size l + 1\<rparr>) }) = Some (True, s', l\<lparr>list_size := list_size l + 1\<rparr>)
    \<and> is_list s' (l\<lparr>list_size := list_size l + 1\<rparr>) (ps @ [p] @ a # x # xs)
    \<and> relinked (insert a (set (ps @ [p] @ x # xs))) s s'"
proof -
  obtain k where k: "s p = Some k" "node_prev k = final 0 ps" "node_next k = x"
    using l is_list_middle [of s l ps p "x # xs"] by auto
  obtain j where j: "s x = Some j" "node_prev j = p" "node_next j = first xs 0"
    using l is_list_middle [of s l "ps @ [p]" x xs] by auto
  have "distinct (ps @ [p] @ x # xs)"
    using is_list_distinct [OF l] .
  with l a k j show ?thesis
    by (auto simp: is_list_def relinked_def payload_same)
qed

lemma insert_node_list:
  assumes "is_list s l (ps @ xs)" and a: "s a = Some m" "a \<notin> set (ps @ xs)" "a \<noteq> 0"
  shows "\<exists>r s' l'. insert_node cmp skip l a (final 0 ps) (first xs 0) s = Some (r, s', l') \<and>
    (case insert_in_order cmp skip (key_of s) a xs of
       None \<Rightarrow> \<not> r \<and> s' = s \<and> l' = l
     | Some ys \<Rightarrow> r \<and> is_list s' l' (ps @ ys) \<and> relinked (insert a (set (ps @ xs))) s s')"
  using assms(1) a(2)
proof (induction xs arbitrary: ps)
  case Nil
  from push_back_list [OF Nil.prems(1) a(1) Nil.prems(2) a(3)] show ?case
    by (subst insert_node.simps) auto
next
  case (Cons x xs)
  obtain n where n: "s x = Some n" "node_next n = first xs 0" "x \<noteq> 0"
    using is_list_middle [OF Cons.prems(1)] by metis
  have d: "distinct (ps @ x # xs)"
    using is_list_distinct [OF Cons.prems(1)] .
  have front: "x = list_front l \<longleftrightarrow> ps = []"
    using is_list_ends(1) [OF Cons.prems(1)] d by (cases ps) auto
  let ?r = "cmp (node_ptr n) (node_ptr m)"
  have key: "key_of s x = node_ptr n" "key_of s a = node_ptr m"
    using n a by (simp_all add: key_of_def)
  consider "?r = 0" "skip" | "0 < ?r" | "\<not> (?r = 0 \<and> skip)" "\<not> 0 < ?r" "ps = []"
    | "\<not> (?r = 0 \<and> skip)" "\<not> 0 < ?r" "ps \<noteq> []"
    by linarith
  then show ?case
  proof cases
    case 1
    with n a key show ?thesis
      by (subst insert_node.simps) (simp add: exI [of _ False])
  next
    case 2
    then have "insert_node cmp skip l a (final 0 ps) (first (x # xs) 0) s =
        insert_node cmp skip l a (final 0 (ps @ [x])) (first xs 0) s"
      using n a by (subst insert_node.simps) simp
    with Cons.IH [of "ps @ [x]"] Cons.prems 2 key show ?thesis
      by (auto split: option.splits)
  next
    case 3
    with push_front_list [OF Cons.prems(1) a(1) Cons.prems(2) a(3)] n a key front show ?thesis
      by (subst insert_node.simps) auto
  next
    case 4
    then obtain qs p where ps: "ps = qs @ [p]"
      by (metis rev_exhaust)
    with link_between [of s l qs p x xs a m] Cons.prems a
    obtain s' where s': "(do {
        s \<leftarrow> set_next p a s; s \<leftarrow> set_prev a p s; s \<leftarrow> set_next a x s; s \<leftarrow> set_prev x a s;
        Some (True, s, l\<lparr>list_size := list_size l + 1\<rparr>) }) = Some (True, s', l\<lparr>list_size := list_size l + 1\<rparr>)"
      "is_list s' (l\<lparr>list_size := list_size l + 1\<rparr>) (qs @ [p] @ a # x # xs)"
      "relinked (insert a (set (qs @ [p] @ x # xs))) s s'"
      by auto
    have "insert_node cmp skip l a (final 0 ps) (first (x # xs) 0) s =
        Some (True, s', l\<lparr>list_size := list_size l + 1\<rparr>)"
      using 4 n a front s'(1) by (subst insert_node.simps) (simp add: ps Let_def)
    with 4 s' key show ?thesis
      by (auto simp: ps)
  qed
qed

lemma push_back_in_order_list:
  assumes l: "is_list s l xs" and a: "s a = Some m" "a \<notin> set xs" "a \<noteq> 0" and "length xs \<le> 100000"
  shows "\<exists>r s' l'. ten_list_push_back_in_order cmp skip l a s = Some (r, s', l') \<and>
    (case insert_in_order cmp skip (key_of s) a xs of
       None \<Rightarrow> \<not> r \<and> s' = s \<and> l' = l
     | Some ys \<Rightarrow> r \<and> is_list s' l' ys \<and> relinked (insert a (set xs)) s s')"
proof (cases xs)
  case Nil
  with push_back_list [OF l a] sound_list_Some [OF l] a(3) is_list_size [OF l] show ?thesis
    by (auto simp: ten_list_push_back_in_order_def)
next
  case (Cons x ys)
  then have "ten_list_push_back_in_order cmp skip l a s = insert_node cmp skip l a 0 (first xs 0) s"
    using a(3) sound_list_Some [OF l] loop_allowed_Some [OF l assms(5)] is_list_size [OF l]
      is_list_ends(1) [OF l]
    by (simp add: ten_list_push_back_in_order_def)
  with insert_node_list [of s l "[]" xs a m cmp skip, unfolded append_Nil final_simps(1), OF l a]
  show ?thesis
    by simp
qed

text \<open>The searches.\<close>

definition found :: "addr option \<Rightarrow> addr" where
  "found r = (case r of None \<Rightarrow> 0 | Some a \<Rightarrow> a)"

lemma find_node_dll:
  "dll (list_links s) p xs 0 \<Longrightarrow>
    find_node P (first xs 0) s = Some (found (find (\<lambda>a. P (key_of s a)) xs))"
proof (induction xs arbitrary: p)
  case Nil
  then show ?case by (simp add: find_node.simps found_def)
next
  case (Cons x xs)
  then obtain n where "s x = Some n" "node_next n = first xs 0" "x \<noteq> 0"
    by (auto dest!: links_SomeD)
  with Cons show ?case
    by (subst find_node.simps) (auto simp: found_def key_of_def)
qed

lemma count_nodes_dll:
  "dll (list_links s) p xs 0 \<Longrightarrow>
    count_nodes P c (first xs 0) s = Some (c + length (filter (\<lambda>a. P (key_of s a)) xs))"
proof (induction xs arbitrary: p c)
  case Nil
  then show ?case by (simp add: count_nodes.simps)
next
  case (Cons x xs)
  then obtain n where "s x = Some n" "node_next n = first xs 0" "x \<noteq> 0"
    by (auto dest!: links_SomeD)
  with Cons show ?case
    by (subst count_nodes.simps) (auto simp: key_of_def)
qed

lemma find_ptr_list:
  assumes l: "is_list s l xs" and "p \<noteq> 0" "length xs \<le> 100000"
  shows "ten_list_find_ptr l p s = Some (found (find (\<lambda>a. p = key_of s a) xs))"
    and "ten_list_find_ptr_custom equal_to l p s = Some (found (find (\<lambda>a. equal_to (key_of s a) p) xs))"
    and "ten_list_find_ptr_cnt_custom equal_to l p s = Some (length (filter (\<lambda>a. equal_to (key_of s a) p) xs))"
  using assms find_node_dll [OF is_list_dll [OF l]] count_nodes_dll [OF is_list_dll [OF l]]
  by (simp_all add: ten_list_find_ptr_def ten_list_find_ptr_custom_def ten_list_find_ptr_cnt_custom_def
      is_list_ends(1) [OF l])

lemma cnt_ptr_list:
  assumes l: "is_list s l xs" and "length xs \<le> 100000"
  shows "ten_list_cnt_ptr_custom P l s = Some (length (filter (\<lambda>a. P (key_of s a)) xs))"
  using assms count_nodes_dll [OF is_list_dll [OF l]]
  by (simp add: ten_list_cnt_ptr_custom_def is_list_ends(1) [OF l])

lemma remove_ptr_list:
  assumes l: "is_list s l xs" and p: "p \<noteq> 0" "length xs \<le> 100000"
  shows "case find (\<lambda>a. p = key_of s a) xs of
      None \<Rightarrow> ten_list_remove_ptr l p s = Some (False, s, l)
    | Some a \<Rightarrow> \<exists>s' l'. ten_list_remove_ptr l p s = Some (True, s', l') \<and> is_list s' l' (remove1 a xs)
        \<and> released {a} (set xs) s s'"
proof (cases "find (\<lambda>a. p = key_of s a) xs")
  case None
  with find_ptr_list(1) [OF assms] show ?thesis
    by (simp add: ten_list_remove_ptr_def found_def)
next
  case (Some a)
  then have "a \<in> set xs"
    by (metis find_Some_iff nth_mem)
  then obtain ps qs where xs: "xs = ps @ a # qs" "a \<notin> set ps"
    by (meson split_list_first)
  moreover have "a \<noteq> 0"
    using is_list_nonzero [OF l] \<open>a \<in> set xs\<close> by metis
  ultimately show ?thesis
    using Some find_ptr_list(1) [OF assms] remove_node_list [of s l ps a qs] l
    by (auto simp: ten_list_remove_ptr_def found_def remove1_append)
qed

end
