(* ===== verification/Simulation.thy ===== *)
theory Simulation
  imports Prelude
begin

text \<open>
  Refinement of an abstract component by a model of the code. An operation of the abstract
  component is undefined when its precondition does not hold. The code simulates it when, from
  related states, it runs without a failure to a related state with the same result.
\<close>

fun perform :: "('op \<Rightarrow> 's \<Rightarrow> ('out \<times> 's) option) \<Rightarrow> 'op list \<Rightarrow> 's \<Rightarrow> ('out list \<times> 's) option" where
  "perform step [] s = Some ([], s)"
| "perform step (x # xs) s = do {
     (out, s) \<leftarrow> step x s;
     (outs, s) \<leftarrow> perform step xs s;
     Some (out # outs, s) }"

lemma perform_append:
  "perform step (xs @ ys) s = do {
     (outs, s) \<leftarrow> perform step xs s;
     (outs', s) \<leftarrow> perform step ys s;
     Some (outs @ outs', s) }"
  by (induction xs arbitrary: s) (auto split: prod.splits Option.bind_splits)

locale simulation =
  fixes step :: "'op \<Rightarrow> 's \<Rightarrow> ('out \<times> 's) option"
    and spec :: "'op \<Rightarrow> 'a \<Rightarrow> ('out \<times> 'a) option"
    and refines :: "'s \<Rightarrow> 'a \<Rightarrow> bool"
  assumes simulates: "refines s a \<Longrightarrow> spec x a = Some (out, a') \<Longrightarrow>
      \<exists>s'. step x s = Some (out, s') \<and> refines s' a'"
begin

lemma runs_simulate:
  "refines s a \<Longrightarrow> perform spec xs a = Some (outs, a') \<Longrightarrow>
    \<exists>s'. perform step xs s = Some (outs, s') \<and> refines s' a'"
proof (induction xs arbitrary: s a outs)
  case (Cons x xs)
  then obtain out a1 outs' where 1: "spec x a = Some (out, a1)"
      "perform spec xs a1 = Some (outs', a')" "outs = out # outs'"
    by (auto split: Option.bind_splits)
  obtain s1 where 2: "step x s = Some (out, s1)" "refines s1 a1"
    using simulates [OF Cons.prems(1) 1(1)] by blast
  obtain s2 where "perform step xs s1 = Some (outs', s2)" "refines s2 a'"
    using Cons.IH [OF 2(2) 1(2)] by blast
  with 1 2 show ?case by auto
qed simp

end

end
