(* ===== verification/List_Refinement.thy ===== *)
theory List_Refinement
  imports Ten_List Simulation
begin

text \<open>
  The list of \<open>Ten_List\<close> refines plain lists of nodes. A state holds two lists that share the
  store, so that the operations that move nodes from one list to another are steps too; the
  operations on one list act on the first.
\<close>

datatype list_op =
    Push_front addr
  | Push_back addr
  | Push_in_order "addr \<Rightarrow> addr \<Rightarrow> int" bool addr
  | Push_ptr_front addr addr
  | Push_ptr_back addr addr
  | Pop_front
  | Pop_back
  | Detach addr
  | Remove addr
  | Remove_front
  | Remove_ptr addr
  | Find_ptr addr
  | Count "addr \<Rightarrow> bool"
  | Clear
  | Reverse
  | Reverse_into
  | Swap
  | Concat

datatype list_out = Done | Node addr | Flag bool | Number nat

section \<open>The code\<close>

record list_state =
  store :: list_store
  self :: ten_list
  other :: ten_list

fun list_step :: "list_op \<Rightarrow> list_state \<Rightarrow> (list_out \<times> list_state) run" where
  "list_step (Push_front a) c = do {
     (s, l) \<leftarrow> ten_list_push_front (self c) a (store c); Some (Done, c\<lparr>store := s, self := l\<rparr>) }"
| "list_step (Push_back a) c = do {
     (s, l) \<leftarrow> ten_list_push_back (self c) a (store c); Some (Done, c\<lparr>store := s, self := l\<rparr>) }"
| "list_step (Push_in_order cmp skip a) c = do {
     (r, s, l) \<leftarrow> ten_list_push_back_in_order cmp skip (self c) a (store c);
     Some (Flag r, c\<lparr>store := s, self := l\<rparr>) }"
| "list_step (Push_ptr_front p a) c = do {
     (s, l) \<leftarrow> ten_list_push_ptr_front (self c) p a (store c); Some (Done, c\<lparr>store := s, self := l\<rparr>) }"
| "list_step (Push_ptr_back p a) c = do {
     (s, l) \<leftarrow> ten_list_push_ptr_back (self c) p a (store c); Some (Done, c\<lparr>store := s, self := l\<rparr>) }"
| "list_step Pop_front c = do {
     (a, s, l) \<leftarrow> ten_list_pop_front (self c) (store c); Some (Node a, c\<lparr>store := s, self := l\<rparr>) }"
| "list_step Pop_back c = do {
     (a, s, l) \<leftarrow> ten_list_pop_back (self c) (store c); Some (Node a, c\<lparr>store := s, self := l\<rparr>) }"
| "list_step (Detach a) c = do {
     (s, l) \<leftarrow> ten_list_detach_node (self c) a (store c); Some (Done, c\<lparr>store := s, self := l\<rparr>) }"
| "list_step (Remove a) c = do {
     (s, l) \<leftarrow> ten_list_remove_node (self c) a (store c); Some (Done, c\<lparr>store := s, self := l\<rparr>) }"
| "list_step Remove_front c = do {
     (s, l) \<leftarrow> ten_list_remove_front (self c) (store c); Some (Done, c\<lparr>store := s, self := l\<rparr>) }"
| "list_step (Remove_ptr p) c = do {
     (r, s, l) \<leftarrow> ten_list_remove_ptr (self c) p (store c); Some (Flag r, c\<lparr>store := s, self := l\<rparr>) }"
| "list_step (Find_ptr p) c = do {
     a \<leftarrow> ten_list_find_ptr (self c) p (store c); Some (Node a, c) }"
| "list_step (Count P) c = do {
     k \<leftarrow> ten_list_cnt_ptr_custom P (self c) (store c); Some (Number k, c) }"
| "list_step Clear c = do {
     (s, l) \<leftarrow> ten_list_clear (self c) (store c); Some (Done, c\<lparr>store := s, self := l\<rparr>) }"
| "list_step Reverse c = do {
     (s, l) \<leftarrow> ten_list_reverse (self c) (store c); Some (Done, c\<lparr>store := s, self := l\<rparr>) }"
| "list_step Reverse_into c = do {
     (s, l, t) \<leftarrow> ten_list_reverse_new (self c) (other c) (store c);
     Some (Done, c\<lparr>store := s, self := l, other := t\<rparr>) }"
| "list_step Swap c = do {
     (l, t) \<leftarrow> ten_list_swap (self c) (other c) (store c); Some (Done, c\<lparr>self := l, other := t\<rparr>) }"
| "list_step Concat c = do {
     (s, l, t) \<leftarrow> ten_list_concat (self c) (other c) (store c);
     Some (Done, c\<lparr>store := s, self := l, other := t\<rparr>) }"

section \<open>The plain lists\<close>

text \<open>The allocated nodes with their payloads, and the nodes of the two lists in order.\<close>

record plain_lists =
  pool :: "addr \<Rightarrow> addr option"
  nodes :: "addr list"
  others :: "addr list"

definition unlinked :: "addr \<Rightarrow> plain_lists \<Rightarrow> bool" where
  "unlinked a p \<longleftrightarrow> a \<noteq> 0 \<and> pool p a \<noteq> None \<and> a \<notin> set (nodes p) \<and> a \<notin> set (others p)"

definition unallocated :: "addr \<Rightarrow> plain_lists \<Rightarrow> bool" where
  "unallocated a p \<longleftrightarrow> a \<noteq> 0 \<and> pool p a = None"

definition loopable :: "plain_lists \<Rightarrow> bool" where
  "loopable p \<longleftrightarrow> length (nodes p) \<le> TEN_LIST_LOOP_MAX_ALLOWABLE_CNT"

definition pool_key :: "plain_lists \<Rightarrow> addr \<Rightarrow> addr" where
  "pool_key p a = (case pool p a of None \<Rightarrow> 0 | Some k \<Rightarrow> k)"

definition guarded :: "bool \<Rightarrow> 'a \<Rightarrow> 'a option" where
  "guarded b x = (if b then Some x else None)"

fun list_spec :: "list_op \<Rightarrow> plain_lists \<Rightarrow> (list_out \<times> plain_lists) option" where
  "list_spec (Push_front a) p = guarded (unlinked a p) (Done, p\<lparr>nodes := a # nodes p\<rparr>)"
| "list_spec (Push_back a) p = guarded (unlinked a p) (Done, p\<lparr>nodes := nodes p @ [a]\<rparr>)"
| "list_spec (Push_in_order cmp skip a) p = guarded (unlinked a p \<and> loopable p)
     (case insert_in_order cmp skip (pool_key p) a (nodes p) of
        None \<Rightarrow> (Flag False, p)
      | Some xs \<Rightarrow> (Flag True, p\<lparr>nodes := xs\<rparr>))"
| "list_spec (Push_ptr_front k a) p = guarded (unallocated a p \<and> k \<noteq> 0)
     (Done, p\<lparr>pool := (pool p)(a \<mapsto> k), nodes := a # nodes p\<rparr>)"
| "list_spec (Push_ptr_back k a) p = guarded (unallocated a p \<and> k \<noteq> 0)
     (Done, p\<lparr>pool := (pool p)(a \<mapsto> k), nodes := nodes p @ [a]\<rparr>)"
| "list_spec Pop_front p =
     Some (case nodes p of [] \<Rightarrow> (Node 0, p) | x # xs \<Rightarrow> (Node x, p\<lparr>nodes := xs\<rparr>))"
| "list_spec Pop_back p =
     Some (if nodes p = [] then (Node 0, p)
           else (Node (last (nodes p)), p\<lparr>nodes := butlast (nodes p)\<rparr>))"
| "list_spec (Detach a) p =
     guarded (a \<in> set (nodes p)) (Done, p\<lparr>nodes := remove1 a (nodes p)\<rparr>)"
| "list_spec (Remove a) p =
     guarded (a \<in> set (nodes p)) (Done, p\<lparr>pool := (pool p)(a := None), nodes := remove1 a (nodes p)\<rparr>)"
| "list_spec Remove_front p =
     guarded (nodes p \<noteq> []) (Done, p\<lparr>pool := (pool p)(hd (nodes p) := None), nodes := tl (nodes p)\<rparr>)"
| "list_spec (Remove_ptr k) p = guarded (k \<noteq> 0 \<and> loopable p)
     (case find (\<lambda>a. k = pool_key p a) (nodes p) of
        None \<Rightarrow> (Flag False, p)
      | Some a \<Rightarrow> (Flag True, p\<lparr>pool := (pool p)(a := None), nodes := remove1 a (nodes p)\<rparr>))"
| "list_spec (Find_ptr k) p = guarded (k \<noteq> 0 \<and> loopable p)
     (Node (found (find (\<lambda>a. k = pool_key p a) (nodes p))), p)"
| "list_spec (Count P) p = guarded (loopable p)
     (Number (length (filter (\<lambda>a. P (pool_key p a)) (nodes p))), p)"
| "list_spec Clear p = guarded (loopable p)
     (Done, p\<lparr>pool := (\<lambda>a. if a \<in> set (nodes p) then None else pool p a), nodes := []\<rparr>)"
| "list_spec Reverse p = guarded (loopable p) (Done, p\<lparr>nodes := rev (nodes p)\<rparr>)"
| "list_spec Reverse_into p = guarded (loopable p)
     (Done, p\<lparr>nodes := [], others := rev (nodes p) @ others p\<rparr>)"
| "list_spec Swap p = Some (Done, p\<lparr>nodes := others p, others := nodes p\<rparr>)"
| "list_spec Concat p = Some (Done, p\<lparr>nodes := nodes p @ others p, others := []\<rparr>)"

section \<open>The simulation\<close>

definition represents :: "list_state \<Rightarrow> plain_lists \<Rightarrow> bool" where
  "represents c p \<longleftrightarrow>
     payload (store c) = pool p \<and> is_list (store c) (self c) (nodes p)
     \<and> is_list (store c) (other c) (others p) \<and> set (nodes p) \<inter> set (others p) = {}"

lemma representsD:
  assumes "represents c p"
  shows "payload (store c) = pool p" "is_list (store c) (self c) (nodes p)"
    "is_list (store c) (other c) (others p)" "set (nodes p) \<inter> set (others p) = {}"
  using assms by (simp_all add: represents_def)

lemma representsI:
  assumes "represents c p" and "is_list s l xs"
    and "\<And>a. a \<in> set (others p) \<Longrightarrow> s a = store c a \<and> a \<notin> set xs" and "payload s = q"
  shows "represents (c\<lparr>store := s, self := l\<rparr>) (p\<lparr>pool := q, nodes := xs\<rparr>)"
  using assms is_list_frame [of "store c" "other c" "others p" s]
  by (auto simp: represents_def)

text \<open>A step that only relinks, and one that frees.\<close>

lemma relinked_step:
  assumes c: "represents c p" and "is_list s l xs" "relinked A (store c) s"
    and "set xs \<subseteq> A" and "A \<inter> set (others p) = {}"
  shows "represents (c\<lparr>store := s, self := l\<rparr>) (p\<lparr>nodes := xs\<rparr>)"
  using representsI [OF c assms(2), of "pool p"] assms representsD(1) [OF c]
  by (fastforce simp: relinked_def)

lemma released_step:
  assumes c: "represents c p" and "is_list s l xs" "released F A (store c) s"
    and "set xs \<subseteq> A" and "A \<inter> set (others p) = {}"
  shows "represents (c\<lparr>store := s, self := l\<rparr>)
    (p\<lparr>pool := (\<lambda>a. if a \<in> F then None else pool p a), nodes := xs\<rparr>)"
  by (rule representsI [OF c assms(2)])
    (use assms representsD(1) [OF c] in \<open>auto simp: released_def fun_eq_iff\<close>)

lemma represents_unlinked:
  assumes c: "represents c p" and "unlinked a p"
  obtains n where "store c a = Some n" "a \<notin> set (nodes p)" "a \<noteq> 0" "a \<notin> set (others p)"
  using assms by (auto simp: unlinked_def payload_def dest!: representsD(1) [symmetric])

lemma represents_key: "represents c p \<Longrightarrow> key_of (store c) = pool_key p"
  using key_of_payload [OF representsD(1)] by (auto simp: pool_key_def fun_eq_iff)

lemma represents_new:
  assumes c: "represents c p" and a: "unallocated a p" "k \<noteq> 0"
  shows "represents (c\<lparr>store := (store c)(a \<mapsto> \<lparr>node_next = 0, node_prev = 0, node_ptr = k\<rparr>)\<rparr>)
      (p\<lparr>pool := (pool p)(a \<mapsto> k)\<rparr>)"
    and "unlinked a (p\<lparr>pool := (pool p)(a \<mapsto> k)\<rparr>)"
    and "ten_ptr_listnode_create k a (store c) =
      Some ((store c)(a \<mapsto> \<lparr>node_next = 0, node_prev = 0, node_ptr = k\<rparr>))"
proof -
  have free: "store c a = None"
    using a(1) unfolding unallocated_def representsD(1) [OF c, symmetric] by (simp add: payload_def)
  have a': "a \<notin> set (nodes p)" "a \<notin> set (others p)"
    using free is_list_allocated [OF representsD(2) [OF c]] is_list_allocated [OF representsD(3) [OF c]]
    by fastforce+
  show "represents (c\<lparr>store := (store c)(a \<mapsto> \<lparr>node_next = 0, node_prev = 0, node_ptr = k\<rparr>)\<rparr>)
      (p\<lparr>pool := (pool p)(a \<mapsto> k)\<rparr>)"
    unfolding represents_def
  proof (intro conjI)
    show "is_list (store (c\<lparr>store := (store c)(a \<mapsto> \<lparr>node_next = 0, node_prev = 0, node_ptr = k\<rparr>)\<rparr>))
        (self (c\<lparr>store := (store c)(a \<mapsto> \<lparr>node_next = 0, node_prev = 0, node_ptr = k\<rparr>)\<rparr>))
        (nodes (p\<lparr>pool := (pool p)(a \<mapsto> k)\<rparr>))"
      using is_list_outside [OF representsD(2) [OF c]] a' by simp
    show "is_list (store (c\<lparr>store := (store c)(a \<mapsto> \<lparr>node_next = 0, node_prev = 0, node_ptr = k\<rparr>)\<rparr>))
        (other (c\<lparr>store := (store c)(a \<mapsto> \<lparr>node_next = 0, node_prev = 0, node_ptr = k\<rparr>)\<rparr>))
        (others (p\<lparr>pool := (pool p)(a \<mapsto> k)\<rparr>))"
      using is_list_outside [OF representsD(3) [OF c]] a' by simp
  qed (use representsD(1,4) [OF c] in simp_all)
  show "unlinked a (p\<lparr>pool := (pool p)(a \<mapsto> k)\<rparr>)"
    using a a' by (simp add: unlinked_def unallocated_def)
  show "ten_ptr_listnode_create k a (store c) =
      Some ((store c)(a \<mapsto> \<lparr>node_next = 0, node_prev = 0, node_ptr = k\<rparr>))"
    using a by (simp add: ten_ptr_listnode_create_def)
qed

definition simulated :: "list_op \<Rightarrow> bool" where
  "simulated x \<longleftrightarrow> (\<forall>c p out p'. represents c p \<longrightarrow> list_spec x p = Some (out, p') \<longrightarrow>
     (\<exists>c'. list_step x c = Some (out, c') \<and> represents c' p'))"

lemma simulatedI:
  "(\<And>c p out p'. represents c p \<Longrightarrow> list_spec x p = Some (out, p') \<Longrightarrow>
      \<exists>c'. list_step x c = Some (out, c') \<and> represents c' p') \<Longrightarrow> simulated x"
  by (simp add: simulated_def)

lemma guarded_Some [simp]: "guarded b x = Some y \<longleftrightarrow> b \<and> x = y"
  by (simp add: guarded_def)

lemma loopable_length: "loopable p \<longleftrightarrow> length (nodes p) \<le> 100000"
  by (simp add: loopable_def TEN_LIST_LOOP_MAX_ALLOWABLE_CNT_def)

text \<open>From what an operation does to one list to a step of the two.\<close>

lemma relinks:
  assumes "represents c p" and "\<exists>s l. r = Some (s, l) \<and> is_list s l xs \<and> relinked A (store c) s"
    and "set xs \<subseteq> A" and "A \<inter> set (others p) = {}"
  shows "\<exists>c'. (do { (s, l) \<leftarrow> r; Some (Done, c\<lparr>store := s, self := l\<rparr>) }) = Some (Done, c')
    \<and> represents c' (p\<lparr>nodes := xs\<rparr>)"
  using assms relinked_step by fastforce

lemma pops:
  assumes "represents c p" and "\<exists>s l. r = Some (x, s, l) \<and> is_list s l xs \<and> relinked A (store c) s"
    and "set xs \<subseteq> A" and "A \<inter> set (others p) = {}"
  shows "\<exists>c'. (do { (a, s, l) \<leftarrow> r; Some (Node a, c\<lparr>store := s, self := l\<rparr>) }) = Some (Node x, c')
    \<and> represents c' (p\<lparr>nodes := xs\<rparr>)"
  using assms relinked_step by fastforce

lemma free_one: "(\<lambda>b. if b \<in> {a} then None else q b) = q(a := None)"
  by auto

lemma frees_one:
  assumes "represents c p" and "\<exists>s l. r = Some (s, l) \<and> is_list s l xs \<and> released {a} A (store c) s"
    and "set xs \<subseteq> A" and "A \<inter> set (others p) = {}"
  shows "\<exists>c'. (do { (s, l) \<leftarrow> r; Some (Done, c\<lparr>store := s, self := l\<rparr>) }) = Some (Done, c')
    \<and> represents c' (p\<lparr>pool := (pool p)(a := None), nodes := xs\<rparr>)"
  using assms released_step [of c p _ _ xs "{a}" A, unfolded free_one] by fastforce

lemma push_front_step:
  assumes c: "represents c p" and a: "unlinked a p"
  shows "\<exists>c'. list_step (Push_front a) c = Some (Done, c') \<and> represents c' (p\<lparr>nodes := a # nodes p\<rparr>)"
proof -
  obtain n where n: "store c a = Some n" "a \<notin> set (nodes p)" "a \<noteq> 0" "a \<notin> set (others p)"
    using represents_unlinked [OF c a] .
  show ?thesis
    using relinks [OF c push_front_list [OF representsD(2) [OF c] n(1-3)]] representsD(4) [OF c] n(4)
    by auto
qed

lemma push_back_step:
  assumes c: "represents c p" and a: "unlinked a p"
  shows "\<exists>c'. list_step (Push_back a) c = Some (Done, c') \<and> represents c' (p\<lparr>nodes := nodes p @ [a]\<rparr>)"
proof -
  obtain n where n: "store c a = Some n" "a \<notin> set (nodes p)" "a \<noteq> 0" "a \<notin> set (others p)"
    using represents_unlinked [OF c a] .
  show ?thesis
    using relinks [OF c push_back_list [OF representsD(2) [OF c] n(1-3)]] representsD(4) [OF c] n(4)
    by auto
qed

lemma simulated_push: "simulated (Push_front a)" "simulated (Push_back a)"
  using push_front_step push_back_step by (auto intro!: simulatedI)

lemma simulated_push_ptr_front: "simulated (Push_ptr_front k a)"
proof (rule simulatedI)
  fix c p out p' assume c: "represents c p" and spec: "list_spec (Push_ptr_front k a) p = Some (out, p')"
  then have a: "unallocated a p" "k \<noteq> 0" by simp_all
  show "\<exists>c'. list_step (Push_ptr_front k a) c = Some (out, c') \<and> represents c' p'"
    using push_front_step [OF represents_new(1,2) [OF c a]] represents_new(3) [OF c a] spec
    by (auto simp: ten_list_push_ptr_front_def)
qed

lemma simulated_push_ptr_back: "simulated (Push_ptr_back k a)"
proof (rule simulatedI)
  fix c p out p' assume c: "represents c p" and spec: "list_spec (Push_ptr_back k a) p = Some (out, p')"
  then have a: "unallocated a p" "k \<noteq> 0" by simp_all
  show "\<exists>c'. list_step (Push_ptr_back k a) c = Some (out, c') \<and> represents c' p'"
    using push_back_step [OF represents_new(1,2) [OF c a]] represents_new(3) [OF c a] spec
    by (auto simp: ten_list_push_ptr_back_def)
qed

lemma simulated_push_in_order: "simulated (Push_in_order cmp skip a)"
proof (rule simulatedI)
  fix c p out p' assume c: "represents c p" and "list_spec (Push_in_order cmp skip a) p = Some (out, p')"
  then have a: "unlinked a p" "length (nodes p) \<le> 100000"
    and out: "(case insert_in_order cmp skip (pool_key p) a (nodes p) of
        None \<Rightarrow> (Flag False, p) | Some xs \<Rightarrow> (Flag True, p\<lparr>nodes := xs\<rparr>)) = (out, p')"
    by (simp_all add: loopable_length)
  obtain n where n: "store c a = Some n" "a \<notin> set (nodes p)" "a \<noteq> 0" "a \<notin> set (others p)"
    using represents_unlinked [OF c a(1)] .
  obtain r s l where push: "ten_list_push_back_in_order cmp skip (self c) a (store c) = Some (r, s, l)"
    and r: "case insert_in_order cmp skip (pool_key p) a (nodes p) of
       None \<Rightarrow> \<not> r \<and> s = store c \<and> l = self c
     | Some ys \<Rightarrow> r \<and> is_list s l ys \<and> relinked (insert a (set (nodes p))) (store c) s"
    using push_back_in_order_list [OF representsD(2) [OF c] n(1-3) a(2)]
    by (metis represents_key [OF c])
  show "\<exists>c'. list_step (Push_in_order cmp skip a) c = Some (out, c') \<and> represents c' p'"
  proof (cases "insert_in_order cmp skip (pool_key p) a (nodes p)")
    case None
    with push r out c show ?thesis by simp
  next
    case (Some ys)
    with push r out relinked_step [OF c, of s l ys "insert a (set (nodes p))"] n(4) representsD(4) [OF c]
      insert_in_order_set [OF Some]
    show ?thesis by auto
  qed
qed

lemma simulated_pop_front: "simulated Pop_front"
proof (rule simulatedI)
  fix c p out p' assume c: "represents c p" and spec: "list_spec Pop_front p = Some (out, p')"
  show "\<exists>c'. list_step Pop_front c = Some (out, c') \<and> represents c' p'"
  proof (cases "nodes p")
    case Nil
    with spec c pop_front_empty [of "store c" "self c"] representsD(2) [OF c] show ?thesis by simp
  next
    case (Cons x xs)
    with pops [OF c pop_front_list [OF representsD(2) [OF c, unfolded Cons]]] representsD(4) [OF c] spec
    show ?thesis by auto
  qed
qed

lemma simulated_pop_back: "simulated Pop_back"
proof (rule simulatedI)
  fix c p out p' assume c: "represents c p" and spec: "list_spec Pop_back p = Some (out, p')"
  show "\<exists>c'. list_step Pop_back c = Some (out, c') \<and> represents c' p'"
  proof (cases "nodes p" rule: rev_cases)
    case Nil
    with spec c pop_back_empty [of "store c" "self c"] representsD(2) [OF c] show ?thesis by simp
  next
    case (snoc xs x)
    with pops [OF c pop_back_list [OF representsD(2) [OF c, unfolded snoc]]] representsD(4) [OF c] spec
    show ?thesis by auto
  qed
qed

text \<open>Taking a node out of the list, freed or not.\<close>

lemma split_node:
  assumes "represents c p" and "a \<in> set (nodes p)"
  obtains xs ys where "nodes p = xs @ a # ys" "remove1 a (nodes p) = xs @ ys" "a \<notin> set (others p)"
    "a \<notin> set (xs @ ys)"
proof -
  obtain xs ys where xs: "nodes p = xs @ a # ys" "a \<notin> set xs"
    using split_list_first [OF assms(2)] by blast
  moreover have "a \<notin> set ys"
    using is_list_distinct [OF representsD(2) [OF assms(1)]] xs(1) by simp
  moreover have "a \<notin> set (others p)"
    using representsD(4) [OF assms(1)] assms(2) by blast
  ultimately show thesis
    using that [of xs ys] by (simp add: remove1_append)
qed

lemma simulated_detach: "simulated (Detach a)"
proof (rule simulatedI)
  fix c p out p' assume c: "represents c p" and spec: "list_spec (Detach a) p = Some (out, p')"
  then have "a \<in> set (nodes p)" by simp
  then obtain xs ys where xs: "nodes p = xs @ a # ys" "remove1 a (nodes p) = xs @ ys"
    using split_node [OF c] by metis
  with relinks [OF c detach_list [OF representsD(2) [OF c, unfolded xs(1)]]] representsD(4) [OF c] spec
  show "\<exists>c'. list_step (Detach a) c = Some (out, c') \<and> represents c' p'"
    by auto
qed

lemma simulated_remove: "simulated (Remove a)"
proof (rule simulatedI)
  fix c p out p' assume c: "represents c p" and spec: "list_spec (Remove a) p = Some (out, p')"
  then have "a \<in> set (nodes p)" by simp
  then obtain xs ys where xs: "nodes p = xs @ a # ys" "remove1 a (nodes p) = xs @ ys"
    using split_node [OF c] by metis
  with frees_one [OF c remove_node_list [OF representsD(2) [OF c, unfolded xs(1)]]]
    representsD(4) [OF c] spec
  show "\<exists>c'. list_step (Remove a) c = Some (out, c') \<and> represents c' p'"
    by auto
qed

lemma simulated_remove_front: "simulated Remove_front"
proof (rule simulatedI)
  fix c p out p' assume c: "represents c p" and spec: "list_spec Remove_front p = Some (out, p')"
  then obtain x xs where xs: "nodes p = x # xs"
    by (cases "nodes p") auto
  with frees_one [OF c remove_front_list [OF representsD(2) [OF c, unfolded xs]]]
    representsD(4) [OF c] spec
  show "\<exists>c'. list_step Remove_front c = Some (out, c') \<and> represents c' p'"
    by auto
qed

lemma simulated_remove_ptr: "simulated (Remove_ptr k)"
proof (rule simulatedI)
  fix c p out p' assume c: "represents c p" and spec: "list_spec (Remove_ptr k) p = Some (out, p')"
  then have k: "k \<noteq> 0" "length (nodes p) \<le> 100000"
    by (simp_all add: loopable_length)
  note remove = remove_ptr_list [OF representsD(2) [OF c] k, unfolded represents_key [OF c]]
  show "\<exists>c'. list_step (Remove_ptr k) c = Some (out, c') \<and> represents c' p'"
  proof (cases "find (\<lambda>a. k = pool_key p a) (nodes p)")
    case None
    with remove c spec show ?thesis by simp
  next
    case (Some a)
    with remove obtain s l where r: "ten_list_remove_ptr (self c) k (store c) = Some (True, s, l)"
      "is_list s l (remove1 a (nodes p))" "released {a} (set (nodes p)) (store c) s"
      by auto
    with released_step [OF c r(2,3), unfolded free_one] representsD(4) [OF c] spec Some
      set_remove1_subset [of a "nodes p"]
    show ?thesis by simp
  qed
qed

lemma simulated_find_ptr: "simulated (Find_ptr k)"
  by (rule simulatedI)
    (auto simp: loopable_length find_ptr_list(1) [OF representsD(2)] represents_key)

lemma simulated_count: "simulated (Count P)"
  by (rule simulatedI)
    (auto simp: loopable_length cnt_ptr_list [OF representsD(2)] represents_key)

lemma simulated_clear: "simulated Clear"
proof (rule simulatedI)
  fix c p out p' assume c: "represents c p" and spec: "list_spec Clear p = Some (out, p')"
  then obtain s where s: "ten_list_clear (self c) (store c) = Some (s, ten_list_init)"
      "released (set (nodes p)) (set (nodes p)) (store c) s"
    using clear_list [OF representsD(2) [OF c]] by (auto simp: loopable_length)
  with released_step [OF c is_list_init s(2)] representsD(4) [OF c] spec
  show "\<exists>c'. list_step Clear c = Some (out, c') \<and> represents c' p'"
    by simp
qed

lemma simulated_reverse: "simulated Reverse"
proof (rule simulatedI)
  fix c p out p' assume c: "represents c p" and spec: "list_spec Reverse p = Some (out, p')"
  then have "length (nodes p) \<le> 100000"
    by (simp add: loopable_length)
  with relinks [OF c reverse_list [OF representsD(2) [OF c]]] representsD(4) [OF c] spec
  show "\<exists>c'. list_step Reverse c = Some (out, c') \<and> represents c' p'"
    by auto
qed

text \<open>The operations on both lists.\<close>

lemma relinks_both:
  assumes c: "represents c p" and "is_list s l xs" "is_list s t ys" "relinked A (store c) s"
    and "set xs \<inter> set ys = {}"
  shows "represents (c\<lparr>store := s, self := l, other := t\<rparr>) (p\<lparr>nodes := xs, others := ys\<rparr>)"
  using assms representsD(1) [OF c] by (simp add: represents_def relinked_def)

lemma simulated_swap: "simulated Swap"
  by (rule simulatedI)
    (auto simp: ten_list_swap_def sound_list_Some [OF representsD(2)] sound_list_Some [OF representsD(3)]
      represents_def)

lemma simulated_concat: "simulated Concat"
proof (rule simulatedI)
  fix c p out p' assume c: "represents c p" and spec: "list_spec Concat p = Some (out, p')"
  obtain s l where s: "ten_list_concat (self c) (other c) (store c) = Some (s, l, ten_list_init)"
      "is_list s l (nodes p @ others p)" "relinked (set (nodes p) \<union> set (others p)) (store c) s"
    using concat_list [OF representsD(2-4) [OF c]] by blast
  with relinks_both [OF c s(2) is_list_init s(3)] spec
  show "\<exists>c'. list_step Concat c = Some (out, c') \<and> represents c' p'"
    by simp
qed

lemma simulated_reverse_into: "simulated Reverse_into"
proof (rule simulatedI)
  fix c p out p' assume c: "represents c p" and spec: "list_spec Reverse_into p = Some (out, p')"
  then obtain s t where s: "ten_list_reverse_new (self c) (other c) (store c) = Some (s, ten_list_init, t)"
      "is_list s t (rev (nodes p) @ others p)" "relinked (set (nodes p) \<union> set (others p)) (store c) s"
    using reverse_new_list [OF representsD(2-4) [OF c]] by (auto simp: loopable_length)
  with relinks_both [OF c is_list_init s(2,3)] spec
  show "\<exists>c'. list_step Reverse_into c = Some (out, c') \<and> represents c' p'"
    by simp
qed

lemmas simulated_steps =
  simulated_push simulated_push_in_order simulated_push_ptr_front simulated_push_ptr_back
  simulated_pop_front simulated_pop_back simulated_detach simulated_remove simulated_remove_front
  simulated_remove_ptr simulated_find_ptr simulated_count simulated_clear simulated_reverse
  simulated_swap simulated_concat simulated_reverse_into

lemma all_simulated: "simulated x"
  by (cases x) (simp_all add: simulated_steps)

interpretation lists: simulation list_step list_spec represents
  by unfold_locales (use all_simulated in \<open>auto simp: simulated_def\<close>)

text \<open>C29: the list of the code and the plain lists, over every sequence of operations.\<close>

lemma list_operations_refine:
  assumes "represents c p" and "perform list_spec ops p = Some (outs, p')"
  shows "\<exists>c'. perform list_step ops c = Some (outs, c') \<and> represents c' p'"
  using assms by (rule lists.runs_simulate)

definition no_lists :: list_state where
  "no_lists = \<lparr>store = (\<lambda>_. None), self = ten_list_init, other = ten_list_init\<rparr>"

definition no_nodes :: plain_lists where
  "no_nodes = \<lparr>pool = (\<lambda>_. None), nodes = [], others = []\<rparr>"

lemma represents_empty: "represents no_lists no_nodes"
  by (simp add: represents_def no_lists_def no_nodes_def payload_def fun_eq_iff)

definition example_ops :: "list_op list" where
  "example_ops = [Push_ptr_back 10 1, Push_ptr_front 20 2, Push_ptr_back 30 3, Detach 1,
     Push_in_order (\<lambda>x y. int x - int y) False 1, Find_ptr 30, Swap, Push_ptr_back 40 4, Concat, Reverse,
     Remove_ptr 20, Pop_back, Count (\<lambda>x. 10 < x), Clear]"

lemma list_operations_refine_witness:
  "\<exists>c' p'. perform list_step example_ops no_lists =
      Some ([Done, Done, Done, Done, Flag True, Node 3, Done, Done, Done, Done, Flag True, Node 4,
        Number 1, Done], c') \<and> represents c' p'"
proof -
  have "\<exists>p'. perform list_spec example_ops no_nodes =
      Some ([Done, Done, Done, Done, Flag True, Node 3, Done, Done, Done, Done, Flag True, Node 4,
        Number 1, Done], p')"
    by (simp add: example_ops_def no_nodes_def guarded_def unallocated_def unlinked_def loopable_def
        TEN_LIST_LOOP_MAX_ALLOWABLE_CNT_def pool_key_def found_def)
  with list_operations_refine [OF represents_empty] show ?thesis
    by metis
qed

end
