(* ===== verification/Hash_Table.thy ===== *)
theory Hash_Table
  imports Linked_Store
begin

text \<open>
  The hash table of \<open>ten_utils/container\<close> (\<open>hash_table.c\<close>, \<open>hash_bucket.c\<close>, \<open>hash_handle.c\<close>). The
  items are intrusive: an item carries a handle, which is linked into the chain of its bucket and
  into a second chain that keeps the order of insertion. The handles live in a store; an item
  whose destroy function has run has left it. A handle is identified by its address, so the
  conversions between an item and its handle at a fixed offset are not visible. Keys are the
  bytes the handle points to. The counters, which are 32 bits wide in the code, are natural
  numbers: more items than \<open>UINT32_MAX\<close> do not fit the memory that holds their handles.
\<close>

unbundle bit_operations_syntax

section \<open>The hash function\<close>

type_synonym key = "8 word list"

definition HASH_MIX :: "32 word \<Rightarrow> 32 word \<Rightarrow> 32 word \<Rightarrow> 32 word \<times> 32 word \<times> 32 word" where
  "HASH_MIX a b c =
     (let a = (a - b - c) XOR drop_bit 13 c; b = (b - c - a) XOR push_bit 8 a;
          c = (c - a - b) XOR drop_bit 13 b; a = (a - b - c) XOR drop_bit 12 c;
          b = (b - c - a) XOR push_bit 16 a; c = (c - a - b) XOR drop_bit 5 b;
          a = (a - b - c) XOR drop_bit 3 c; b = (b - c - a) XOR push_bit 10 a;
          c = (c - a - b) XOR drop_bit 15 b
      in (a, b, c))"

text \<open>The byte at an index, shifted; beyond the key nothing is added.\<close>

definition key_byte :: "key \<Rightarrow> nat \<Rightarrow> nat \<Rightarrow> 32 word" where
  "key_byte k i sh = (if i < length k then push_bit sh (ucast (k ! i)) else 0)"

function hash_chunks ::
    "32 word \<Rightarrow> 32 word \<Rightarrow> 32 word \<Rightarrow> key \<Rightarrow> 32 word \<times> 32 word \<times> 32 word \<times> key" where
  "hash_chunks i j h k =
     (if 12 \<le> length k then
        (case HASH_MIX (i + (key_byte k 0 0 + key_byte k 1 8 + key_byte k 2 16 + key_byte k 3 24))
                       (j + (key_byte k 4 0 + key_byte k 5 8 + key_byte k 6 16 + key_byte k 7 24))
                       (h + (key_byte k 8 0 + key_byte k 9 8 + key_byte k 10 16 + key_byte k 11 24))
         of (i, j, h) \<Rightarrow> hash_chunks i j h (drop 12 k))
      else (i, j, h, k))"
  by pat_completeness auto
termination
  by (relation "measure (\<lambda>(i, j, h, k). length k)") auto

declare hash_chunks.simps [simp del]

definition ten_hash_function :: "key \<Rightarrow> 32 word" where
  "ten_hash_function key =
     (case hash_chunks 0x9e3779b9 0x9e3779b9 0xfeedbeef key of (i, j, h, k) \<Rightarrow>
        case HASH_MIX
          (i + key_byte k 3 24 + key_byte k 2 16 + key_byte k 1 8 + key_byte k 0 0)
          (j + key_byte k 7 24 + key_byte k 6 16 + key_byte k 5 8 + key_byte k 4 0)
          (h + of_nat (length key) + key_byte k 10 24 + key_byte k 9 16 + key_byte k 8 8)
        of (_, _, h) \<Rightarrow> h)"

definition ten_hash_get_bucket_idx :: "32 word \<Rightarrow> nat \<Rightarrow> nat" where
  "ten_hash_get_bucket_idx hashval bucket_cnt = unat hashval AND (bucket_cnt - 1)"

section \<open>Handles, buckets and tables\<close>

record ten_hashhandle =
  hh_tbl :: addr
  app_prev :: addr
  app_next :: addr
  hh_prev :: addr
  hh_next :: addr
  hh_key :: key
  hh_hashval :: "32 word"
  hh_destroy :: bool

type_synonym handles = "addr \<Rightarrow> ten_hashhandle option"

record ten_hashbucket =
  bkt_head :: addr
  bkt_items_cnt :: nat
  expand_mult :: nat

record ten_hashtable =
  tbl_addr :: addr
  bkts :: "ten_hashbucket list"
  tbl_head :: addr
  tbl_tail :: addr
  bkts_cnt :: nat
  bkts_cnt_in_log2 :: nat
  items_cnt :: nat
  ideal_chain_maxlen :: nat
  non_ideal_items_cnt :: nat
  ineff_expands_times :: nat
  noexpand :: bool

definition HASH_BKT_CAPACITY_THRESH :: nat where "HASH_BKT_CAPACITY_THRESH = 10"
definition HASH_TBL_INIT_BKT_CNT :: nat where "HASH_TBL_INIT_BKT_CNT = 32"
definition HASH_TBL_INIT_BKT_CNT_LOG2 :: nat where "HASH_TBL_INIT_BKT_CNT_LOG2 = 5"

definition empty_bucket :: ten_hashbucket where
  "empty_bucket = \<lparr>bkt_head = 0, bkt_items_cnt = 0, expand_mult = 0\<rparr>"

text \<open>An access outside the array of buckets, which is empty after \<open>ten_hashtable_concat\<close>, is undefined.\<close>

definition bucket_at :: "ten_hashbucket list \<Rightarrow> nat \<Rightarrow> ten_hashbucket run" where
  "bucket_at bs i = (if i < length bs then Some (bs ! i) else None)"

definition ten_hashtable_init :: "addr \<Rightarrow> ten_hashtable" where
  "ten_hashtable_init self =
     \<lparr>tbl_addr = self, bkts = replicate HASH_TBL_INIT_BKT_CNT empty_bucket, tbl_head = 0, tbl_tail = 0,
      bkts_cnt = HASH_TBL_INIT_BKT_CNT, bkts_cnt_in_log2 = HASH_TBL_INIT_BKT_CNT_LOG2, items_cnt = 0,
      ideal_chain_maxlen = 0, non_ideal_items_cnt = 0, ineff_expands_times = 0, noexpand = False\<rparr>"

definition upd :: "addr \<Rightarrow> (ten_hashhandle \<Rightarrow> ten_hashhandle) \<Rightarrow> handles \<Rightarrow> handles run" where
  "upd a f H = map_option (\<lambda>h. H(a \<mapsto> f h)) (H a)"

text \<open>\<open>if (a) a->field = v\<close>\<close>

definition upd_if :: "addr \<Rightarrow> (ten_hashhandle \<Rightarrow> ten_hashhandle) \<Rightarrow> handles \<Rightarrow> handles run" where
  "upd_if a f H = (if a = 0 then Some H else upd a f H)"

definition ten_hashhandle_init ::
    "addr \<Rightarrow> ten_hashtable \<Rightarrow> key \<Rightarrow> bool \<Rightarrow> handles \<Rightarrow> handles run" where
  "ten_hashhandle_init a t k d H =
     upd a (\<lambda>h. h\<lparr>hh_tbl := tbl_addr t, hh_key := k, hh_hashval := ten_hash_function k, hh_destroy := d\<rparr>) H"

section \<open>Buckets\<close>

text \<open>The handle \<open>a\<close> is put in front of the chain that starts at \<open>head\<close>.\<close>

definition link_front :: "addr \<Rightarrow> addr \<Rightarrow> handles \<Rightarrow> handles run" where
  "link_front a head H = do {
     H \<leftarrow> upd a (\<lambda>x. x\<lparr>hh_prev := 0, hh_next := head\<rparr>) H;
     upd_if head (\<lambda>x. x\<lparr>hh_prev := a\<rparr>) H }"

partial_function (option) ten_hashbucket_find :: "handles \<Rightarrow> 32 word \<Rightarrow> key \<Rightarrow> addr \<Rightarrow> addr run" where
  "ten_hashbucket_find H hashval k a =
     (if a = 0 then Some 0
      else do {
        h \<leftarrow> H a;
        if hh_hashval h = hashval \<and> hh_key h = k then Some a
        else ten_hashbucket_find H hashval k (hh_next h) })"

definition ten_hashbucket_del :: "ten_hashbucket \<Rightarrow> addr \<Rightarrow> handles \<Rightarrow> (handles \<times> ten_hashbucket) run" where
  "ten_hashbucket_del b a H = do {
     h \<leftarrow> H a;
     H \<leftarrow> upd_if (hh_prev h) (\<lambda>x. x\<lparr>hh_next := hh_next h\<rparr>) H;
     H \<leftarrow> upd_if (hh_next h) (\<lambda>x. x\<lparr>hh_prev := hh_prev h\<rparr>) H;
     Some (H, b\<lparr>bkt_head := (if bkt_head b = a then hh_next h else bkt_head b),
                bkt_items_cnt := bkt_items_cnt b - 1\<rparr>) }"

text \<open>
  \<open>ten_hashtable_expand_bkts\<close>: the chains of the old buckets are taken apart from the front, and
  each handle is put in front of the chain of its new bucket.
\<close>

record spread_state =
  sp_handles :: handles
  sp_bkts :: "ten_hashbucket list"
  sp_non_ideal :: nat

definition spread_handle :: "nat \<Rightarrow> nat \<Rightarrow> addr \<Rightarrow> spread_state \<Rightarrow> spread_state run" where
  "spread_handle new_cnt ideal a sp = do {
     h \<leftarrow> sp_handles sp a;
     b \<leftarrow> bucket_at (sp_bkts sp) (ten_hash_get_bucket_idx (hh_hashval h) new_cnt);
     H \<leftarrow> link_front a (bkt_head b) (sp_handles sp);
     let n = bkt_items_cnt b + 1;
         b' = b\<lparr>bkt_items_cnt := n, bkt_head := a,
                expand_mult := (if ideal < n \<and> expand_mult b * ideal < n
                                then expand_mult b + 1 else expand_mult b)\<rparr>
     in Some \<lparr>sp_handles = H,
          sp_bkts = (sp_bkts sp)[ten_hash_get_bucket_idx (hh_hashval h) new_cnt := b'],
          sp_non_ideal = (if ideal < n then sp_non_ideal sp + 1 else sp_non_ideal sp)\<rparr> }"

partial_function (option) spread_chain :: "nat \<Rightarrow> nat \<Rightarrow> addr \<Rightarrow> spread_state \<Rightarrow> spread_state run" where
  "spread_chain new_cnt ideal a sp =
     (if a = 0 then Some sp
      else do {
        h \<leftarrow> sp_handles sp a;
        sp \<leftarrow> spread_handle new_cnt ideal a sp;
        spread_chain new_cnt ideal (hh_next h) sp })"

fun spread_buckets :: "nat \<Rightarrow> nat \<Rightarrow> ten_hashbucket list \<Rightarrow> spread_state \<Rightarrow> spread_state run" where
  "spread_buckets new_cnt ideal [] sp = Some sp"
| "spread_buckets new_cnt ideal (b # bs) sp = do {
     sp \<leftarrow> spread_chain new_cnt ideal (bkt_head b) sp;
     spread_buckets new_cnt ideal bs sp }"

definition ideal_length :: "ten_hashtable \<Rightarrow> nat" where
  "ideal_length t =
     drop_bit (bkts_cnt_in_log2 t + 1) (items_cnt t)
     + (if items_cnt t AND (bkts_cnt t * 2 - 1) \<noteq> 0 then 1 else 0)"

definition ten_hashtable_expand_bkts :: "ten_hashtable \<Rightarrow> handles \<Rightarrow> (handles \<times> ten_hashtable) run" where
  "ten_hashtable_expand_bkts t H = do {
     sp \<leftarrow> spread_buckets (bkts_cnt t * 2) (ideal_length t) (bkts t)
       \<lparr>sp_handles = H, sp_bkts = replicate (bkts_cnt t * 2) empty_bucket, sp_non_ideal = 0\<rparr>;
     let ineff = (if drop_bit 1 (items_cnt t) < sp_non_ideal sp then ineff_expands_times t + 1 else 0)
     in Some (sp_handles sp,
          t\<lparr>bkts := sp_bkts sp, bkts_cnt := bkts_cnt t * 2, bkts_cnt_in_log2 := bkts_cnt_in_log2 t + 1,
            ideal_chain_maxlen := ideal_length t, non_ideal_items_cnt := sp_non_ideal sp,
            ineff_expands_times := ineff, noexpand := noexpand t \<or> 1 < ineff\<rparr>) }"

definition ten_hashbucket_add :: "ten_hashtable \<Rightarrow> nat \<Rightarrow> addr \<Rightarrow> handles \<Rightarrow> (handles \<times> ten_hashtable) run" where
  "ten_hashbucket_add t i a H = do {
     ten_assert (a \<noteq> 0);
     b \<leftarrow> bucket_at (bkts t) i;
     H \<leftarrow> link_front a (bkt_head b) H;
     let n = bkt_items_cnt b + 1;
         t' = t\<lparr>bkts := (bkts t)[i := b\<lparr>bkt_items_cnt := n, bkt_head := a\<rparr>]\<rparr>
     in if (expand_mult b + 1) * HASH_BKT_CAPACITY_THRESH \<le> n \<and> \<not> noexpand t
        then ten_hashtable_expand_bkts t' H
        else Some (H, t') }"

section \<open>The order of insertion\<close>

definition ten_hashtable_add_to_app_list :: "ten_hashtable \<Rightarrow> addr \<Rightarrow> handles \<Rightarrow> (handles \<times> ten_hashtable) run" where
  "ten_hashtable_add_to_app_list t a H = do {
     H \<leftarrow> upd a (\<lambda>x. x\<lparr>app_next := 0\<rparr>) H;
     if tbl_tail t \<noteq> 0 then do {
       H \<leftarrow> upd a (\<lambda>x. x\<lparr>app_prev := tbl_tail t\<rparr>) H;
       H \<leftarrow> upd (tbl_tail t) (\<lambda>x. x\<lparr>app_next := a\<rparr>) H;
       Some (H, t\<lparr>tbl_tail := a\<rparr>) }
     else do {
       ten_assert (tbl_head t = 0);
       H \<leftarrow> upd a (\<lambda>x. x\<lparr>app_prev := 0\<rparr>) H;
       Some (H, t\<lparr>tbl_head := a, tbl_tail := a\<rparr>) } }"

definition ten_hashhandle_del_from_app_list :: "ten_hashtable \<Rightarrow> addr \<Rightarrow> handles \<Rightarrow> (handles \<times> ten_hashtable) run" where
  "ten_hashhandle_del_from_app_list t a H = do {
     h \<leftarrow> H a;
     H \<leftarrow> upd_if (app_prev h) (\<lambda>x. x\<lparr>app_next := app_next h\<rparr>) H;
     H \<leftarrow> upd_if (app_next h) (\<lambda>x. x\<lparr>app_prev := app_prev h\<rparr>) H;
     Some (H, t\<lparr>tbl_head := (if a = tbl_head t then app_next h else tbl_head t),
                tbl_tail := (if a = tbl_tail t then app_prev h else tbl_tail t)\<rparr>) }"

section \<open>The integrity check\<close>

text \<open>Walk a chain, comparing the back pointers; the result is the number of nodes.\<close>

partial_function (option) check_chain :: "links \<Rightarrow> addr \<Rightarrow> nat \<Rightarrow> addr \<Rightarrow> nat option run" where
  "check_chain L p c a =
     (if a = 0 then Some (Some c)
      else do {
        (q, n) \<leftarrow> L a;
        if q \<noteq> p then Some None else check_chain L a (c + 1) n })"

definition bucket_links :: "handles \<Rightarrow> links" where
  "bucket_links H a = map_option (\<lambda>h. (hh_prev h, hh_next h)) (H a)"

definition app_links :: "handles \<Rightarrow> links" where
  "app_links H a = map_option (\<lambda>h. (app_prev h, app_next h)) (H a)"

fun check_buckets :: "handles \<Rightarrow> nat \<Rightarrow> ten_hashbucket list \<Rightarrow> nat option run" where
  "check_buckets H c [] = Some (Some c)"
| "check_buckets H c (b # bs) = do {
     r \<leftarrow> check_chain (bucket_links H) 0 0 (bkt_head b);
     case r of None \<Rightarrow> Some None
     | Some n \<Rightarrow> if bkt_items_cnt b \<noteq> n then Some None else check_buckets H (c + n) bs }"

definition ten_hashtable_check_integrity :: "ten_hashtable \<Rightarrow> handles \<Rightarrow> bool run" where
  "ten_hashtable_check_integrity t H = do {
     r \<leftarrow> check_buckets H 0 (take (bkts_cnt t) (bkts t));
     if r \<noteq> Some (items_cnt t) then Some False
     else do {
       r \<leftarrow> check_chain (app_links H) 0 0 (tbl_head t);
       Some (r = Some (items_cnt t)) } }"

definition sound_table :: "ten_hashtable \<Rightarrow> handles \<Rightarrow> unit run" where
  "sound_table t H = do { ok \<leftarrow> ten_hashtable_check_integrity t H; ten_assert ok }"

section \<open>Tables\<close>

definition ten_hashtable_add_by_hash_val ::
    "ten_hashtable \<Rightarrow> addr \<Rightarrow> 32 word \<Rightarrow> handles \<Rightarrow> (handles \<times> ten_hashtable) run" where
  "ten_hashtable_add_by_hash_val t a hashval H = do {
     (H, t) \<leftarrow> ten_hashbucket_add (t\<lparr>items_cnt := items_cnt t + 1\<rparr>)
       (ten_hash_get_bucket_idx hashval (bkts_cnt t)) a H;
     ten_hashtable_add_to_app_list t a H }"

definition ten_hashtable_add_by_key ::
    "ten_hashtable \<Rightarrow> addr \<Rightarrow> key \<Rightarrow> bool \<Rightarrow> handles \<Rightarrow> (handles \<times> ten_hashtable) run" where
  "ten_hashtable_add_by_key t a k d H = do {
     ten_assert (a \<noteq> 0);
     H \<leftarrow> ten_hashhandle_init a t k d H;
     h \<leftarrow> H a;
     (H, t) \<leftarrow> ten_hashtable_add_by_hash_val t a (hh_hashval h) H;
     sound_table t H;
     Some (H, t) }"

definition ten_hashtable_find :: "ten_hashtable \<Rightarrow> 32 word \<Rightarrow> key \<Rightarrow> handles \<Rightarrow> addr run" where
  "ten_hashtable_find t hashval k H = do {
     b \<leftarrow> bucket_at (bkts t) (ten_hash_get_bucket_idx hashval (bkts_cnt t));
     ten_hashbucket_find H hashval k (bkt_head b) }"

definition ten_hashtable_find_by_key :: "ten_hashtable \<Rightarrow> key \<Rightarrow> handles \<Rightarrow> addr run" where
  "ten_hashtable_find_by_key t k H = ten_hashtable_find t (ten_hash_function k) k H"

definition ten_hashtable_del :: "ten_hashtable \<Rightarrow> addr \<Rightarrow> handles \<Rightarrow> (handles \<times> ten_hashtable) run" where
  "ten_hashtable_del t a H = do {
     ten_assert (a \<noteq> 0);
     h \<leftarrow> H a;
     ten_assert (hh_tbl h = tbl_addr t);
     let i = ten_hash_get_bucket_idx (hh_hashval h) (bkts_cnt t)
     in do {
       b \<leftarrow> bucket_at (bkts t) i;
       (H, b) \<leftarrow> ten_hashbucket_del b a H;
       (H, t) \<leftarrow> ten_hashhandle_del_from_app_list (t\<lparr>bkts := (bkts t)[i := b]\<rparr>) a H;
       let H = (if hh_destroy h then H(a := None) else H);
           t = t\<lparr>items_cnt := items_cnt t - 1\<rparr>
       in do { sound_table t H; Some (H, t) } } }"

definition ten_hashtable_replace_by_key ::
    "ten_hashtable \<Rightarrow> addr \<Rightarrow> key \<Rightarrow> bool \<Rightarrow> handles \<Rightarrow> (handles \<times> ten_hashtable) run" where
  "ten_hashtable_replace_by_key t a k d H = do {
     ten_assert (a \<noteq> 0);
     H \<leftarrow> ten_hashhandle_init a t k d H;
     h \<leftarrow> H a;
     r \<leftarrow> ten_hashtable_find t (hh_hashval h) k H;
     (H, t) \<leftarrow> (if r \<noteq> 0 then ten_hashtable_del t r H else Some (H, t));
     (H, t) \<leftarrow> ten_hashtable_add_by_hash_val t a (hh_hashval h) H;
     sound_table t H;
     Some (H, t) }"

definition ten_hashtable_front :: "ten_hashtable \<Rightarrow> addr" where "ten_hashtable_front t = tbl_head t"
definition ten_hashtable_back :: "ten_hashtable \<Rightarrow> addr" where "ten_hashtable_back t = tbl_tail t"
definition ten_hashtable_items_cnt :: "ten_hashtable \<Rightarrow> nat" where "ten_hashtable_items_cnt t = items_cnt t"

partial_function (option) clear_from ::
    "addr \<Rightarrow> ten_hashtable \<Rightarrow> handles \<Rightarrow> (handles \<times> ten_hashtable) run" where
  "clear_from a t H =
     (if a = 0 then Some (H, t)
      else do {
        h \<leftarrow> H a;
        (H, t) \<leftarrow> ten_hashtable_del t a H;
        clear_from (app_next h) t H })"

definition ten_hashtable_clear :: "ten_hashtable \<Rightarrow> handles \<Rightarrow> (handles \<times> ten_hashtable) run" where
  "ten_hashtable_clear t H = clear_from (ten_hashtable_front t) t H"

definition ten_hashtable_deinit :: "ten_hashtable \<Rightarrow> handles \<Rightarrow> (handles \<times> ten_hashtable) run" where
  "ten_hashtable_deinit t H = do {
     (H, t) \<leftarrow> ten_hashtable_clear t H;
     Some (H, t\<lparr>bkts := [], bkts_cnt := 0, bkts_cnt_in_log2 := 0, tbl_head := 0, tbl_tail := 0\<rparr>) }"

text \<open>The handles of another table are added one by one, in their order of insertion.\<close>

partial_function (option) concat_from ::
    "addr \<Rightarrow> ten_hashtable \<Rightarrow> handles \<Rightarrow> (handles \<times> ten_hashtable) run" where
  "concat_from a t H =
     (if a = 0 then Some (H, t)
      else do {
        h \<leftarrow> H a;
        (H, t) \<leftarrow> ten_hashtable_add_by_key t a (hh_key h) (hh_destroy h) H;
        concat_from (app_next h) t H })"

definition ten_hashtable_concat ::
    "ten_hashtable \<Rightarrow> ten_hashtable \<Rightarrow> handles \<Rightarrow> (handles \<times> ten_hashtable \<times> ten_hashtable) run" where
  "ten_hashtable_concat t target H = do {
     (H, t) \<leftarrow> concat_from (ten_hashtable_front target) t H;
     Some (H, t,
       target\<lparr>bkts := [], tbl_head := 0, tbl_tail := 0, bkts_cnt := 0, bkts_cnt_in_log2 := 0, items_cnt := 0,
         ideal_chain_maxlen := 0, non_ideal_items_cnt := 0, ineff_expands_times := 0, noexpand := False\<rparr>) }"

end
