(* ===== verification/Hash_Contract.thy ===== *)
theory Hash_Contract
  imports Hash_Table
begin

text \<open>
  What the operations of the hash table do, in terms of the items in order of insertion and of
  the chains of the buckets: every item is in the chain of its bucket and in no other one, through
  every expansion, and the integrity check that ends each operation succeeds.
\<close>

section \<open>Projections of the store\<close>

definition core :: "handles \<Rightarrow> addr \<Rightarrow> (addr \<times> key \<times> 32 word \<times> bool) option" where
  "core H a = map_option (\<lambda>h. (hh_tbl h, hh_key h, hh_hashval h, hh_destroy h)) (H a)"

definition hash_of :: "handles \<Rightarrow> addr \<Rightarrow> 32 word" where
  "hash_of H a = (case core H a of None \<Rightarrow> 0 | Some (_, _, v, _) \<Rightarrow> v)"

lemma hash_of_Some [simp]: "H a = Some h \<Longrightarrow> hash_of H a = hh_hashval h"
  by (simp add: hash_of_def core_def)

lemma projections_update [simp]:
  "bucket_links (H(a \<mapsto> h)) = (bucket_links H)(a \<mapsto> (hh_prev h, hh_next h))"
  "app_links (H(a \<mapsto> h)) = (app_links H)(a \<mapsto> (app_prev h, app_next h))"
  "core (H(a \<mapsto> h)) = (core H)(a \<mapsto> (hh_tbl h, hh_key h, hh_hashval h, hh_destroy h))"
  by (auto simp: bucket_links_def app_links_def core_def)

lemma projections_free [simp]:
  "bucket_links (H(a := None)) = (bucket_links H)(a := None)"
  "app_links (H(a := None)) = (app_links H)(a := None)"
  "core (H(a := None)) = (core H)(a := None)"
  by (auto simp: bucket_links_def app_links_def core_def)

lemma bucket_links_same: "H a = Some h \<Longrightarrow> v = (hh_prev h, hh_next h) \<Longrightarrow>
    (bucket_links H)(a \<mapsto> v) = bucket_links H"
  by (auto simp: bucket_links_def)

lemma app_links_same: "H a = Some h \<Longrightarrow> v = (app_prev h, app_next h) \<Longrightarrow> (app_links H)(a \<mapsto> v) = app_links H"
  by (auto simp: app_links_def)

lemma core_same: "H a = Some h \<Longrightarrow> v = (hh_tbl h, hh_key h, hh_hashval h, hh_destroy h) \<Longrightarrow>
    (core H)(a \<mapsto> v) = core H"
  by (auto simp: core_def)

lemma bucket_links_SomeD: "bucket_links H a = Some (p, n) \<Longrightarrow>
    \<exists>h. H a = Some h \<and> hh_prev h = p \<and> hh_next h = n"
  by (auto simp: bucket_links_def)

lemma app_links_SomeD: "app_links H a = Some (p, n) \<Longrightarrow>
    \<exists>h. H a = Some h \<and> app_prev h = p \<and> app_next h = n"
  by (auto simp: app_links_def)

lemma core_allocated: "core H' = core H \<Longrightarrow> H a = Some h \<Longrightarrow> \<exists>h'. H' a = Some h' \<and>
    hh_tbl h' = hh_tbl h \<and> hh_key h' = hh_key h \<and> hh_hashval h' = hh_hashval h \<and> hh_destroy h' = hh_destroy h"
  by (auto simp: core_def dest!: fun_cong [of _ _ a])

lemma upd_Some [simp]: "H a = Some h \<Longrightarrow> upd a f H = Some (H(a \<mapsto> f h))"
  by (simp add: upd_def)

lemma upd_if_simps [simp]:
  "upd_if 0 f H = Some H"
  "a \<noteq> 0 \<Longrightarrow> H a = Some h \<Longrightarrow> upd_if a f H = Some (H(a \<mapsto> f h))"
  by (simp_all add: upd_if_def)

text \<open>A step on the chains of the buckets leaves the other chain and the keys alone.\<close>

definition rechained :: "addr set \<Rightarrow> handles \<Rightarrow> handles \<Rightarrow> bool" where
  "rechained A H H' \<longleftrightarrow> app_links H' = app_links H \<and> core H' = core H
     \<and> (\<forall>a. a \<notin> A \<longrightarrow> bucket_links H' a = bucket_links H a)"

lemma rechained_refl [simp]: "rechained A H H"
  by (simp add: rechained_def)

lemma rechained_trans: "rechained A H H' \<Longrightarrow> rechained B H' H'' \<Longrightarrow> A \<subseteq> C \<Longrightarrow> B \<subseteq> C \<Longrightarrow> rechained C H H''"
  unfolding rechained_def by (metis subsetD)

lemma rechained_hash: "rechained A H H' \<Longrightarrow> hash_of H' = hash_of H"
  by (simp add: rechained_def hash_of_def fun_eq_iff)

lemma rechained_dll:
  "rechained A H H' \<Longrightarrow> dll (bucket_links H) p xs n \<Longrightarrow> set xs \<inter> A = {} \<Longrightarrow> dll (bucket_links H') p xs n"
  unfolding rechained_def by (rule dll_frame [of "bucket_links H"]) auto

section \<open>Chains\<close>

lemma link_front_chain:
  assumes "dll (bucket_links H) 0 xs 0" and "H a = Some h" "a \<notin> set xs" "a \<noteq> 0"
  shows "\<exists>H'. link_front a (first xs 0) H = Some H' \<and> dll (bucket_links H') 0 (a # xs) 0
    \<and> rechained (insert a (set xs)) H H'"
proof (cases xs)
  case Nil
  with assms show ?thesis
    by (auto simp: link_front_def rechained_def app_links_same core_same)
next
  case (Cons x ys)
  with assms obtain g where "H x = Some g" "hh_next g = first ys 0" "x \<noteq> 0" "hh_prev g = 0"
    by (auto dest!: bucket_links_SomeD)
  moreover have "x \<notin> set ys"
    using dll_distinct [OF assms(1)] Cons by simp
  ultimately show ?thesis
    using assms Cons by (auto simp: link_front_def rechained_def app_links_same core_same)
qed

lemma bucket_del_chain:
  assumes l: "dll (bucket_links H) 0 (xs @ a # ys) 0" and b: "bkt_head b = first (xs @ a # ys) 0"
  shows "\<exists>H' b'. ten_hashbucket_del b a H = Some (H', b') \<and> dll (bucket_links H') 0 (xs @ ys) 0
    \<and> bkt_head b' = first (xs @ ys) 0 \<and> bkt_items_cnt b' = bkt_items_cnt b - 1
    \<and> rechained (set (xs @ ys)) H H'"
proof -
  obtain h where h: "H a = Some h" "hh_prev h = final 0 xs" "hh_next h = first ys 0" "a \<noteq> 0"
    using l by (auto dest!: bucket_links_SomeD)
  have d: "distinct (xs @ a # ys)" "0 \<notin> set (xs @ a # ys)"
    using dll_distinct [OF l] dll_nonzero [OF l] by auto
  show ?thesis
  proof (cases xs rule: rev_cases; cases ys)
    assume "xs = []" "ys = []"
    with h b show ?thesis by (auto simp: ten_hashbucket_del_def)
  next
    fix y zs assume ys: "xs = []" "ys = y # zs"
    then obtain g where "H y = Some g" "hh_prev g = a" "hh_next g = first zs 0" "y \<noteq> 0"
      using l by (auto dest!: bucket_links_SomeD)
    with h b d l ys show ?thesis
      by (auto simp: ten_hashbucket_del_def rechained_def app_links_same core_same)
  next
    fix ps p assume xs: "xs = ps @ [p]" "ys = []"
    then obtain f where "H p = Some f" "hh_prev f = final 0 ps" "hh_next f = a" "p \<noteq> 0"
      using l by (auto dest!: bucket_links_SomeD)
    moreover have "first ps p \<noteq> a"
      using d xs by (cases ps) auto
    ultimately show ?thesis
      using h b d l xs by (auto simp: ten_hashbucket_del_def rechained_def app_links_same core_same)
  next
    fix ps p y zs assume xs: "xs = ps @ [p]" "ys = y # zs"
    then obtain f g where "H p = Some f" "hh_prev f = final 0 ps" "hh_next f = a" "p \<noteq> 0"
      "H y = Some g" "hh_prev g = a" "hh_next g = first zs 0" "y \<noteq> 0"
      using l by (auto dest!: bucket_links_SomeD)
    moreover have "first ps p \<noteq> a"
      using d xs by (cases ps) auto
    ultimately show ?thesis
      using h b d l xs by (auto simp: ten_hashbucket_del_def rechained_def app_links_same core_same)
  qed
qed

lemma bucket_find_chain:
  "dll (bucket_links H) p xs 0 \<Longrightarrow>
    ten_hashbucket_find H v k (first xs 0) =
      Some (case find (\<lambda>a. hash_of H a = v \<and> (\<exists>h. H a = Some h \<and> hh_key h = k)) xs of None \<Rightarrow> 0 | Some a \<Rightarrow> a)"
proof (induction xs arbitrary: p)
  case Nil
  then show ?case by (simp add: ten_hashbucket_find.simps)
next
  case (Cons x xs)
  then obtain h where "H x = Some h" "hh_next h = first xs 0" "x \<noteq> 0"
    by (auto dest!: bucket_links_SomeD)
  with Cons show ?case
    by (subst ten_hashbucket_find.simps) auto
qed

lemma check_chain_dll:
  "dll L p xs 0 \<Longrightarrow> check_chain L p c (first xs 0) = Some (Some (c + length xs))"
proof (induction xs arbitrary: p c)
  case Nil
  then show ?case by (simp add: check_chain.simps)
next
  case (Cons x xs)
  then show ?case by (subst check_chain.simps) simp
qed

section \<open>Buckets\<close>

text \<open>The items \<open>S\<close> are in the chains \<open>bs\<close> of \<open>n\<close> buckets, each in the one of its hash value.\<close>

definition buckets_hold ::
    "handles \<Rightarrow> nat \<Rightarrow> ten_hashbucket list \<Rightarrow> (nat \<Rightarrow> addr list) \<Rightarrow> addr set \<Rightarrow> bool" where
  "buckets_hold H n bks bs S \<longleftrightarrow> length bks = n \<and>
     (\<forall>i<n. dll (bucket_links H) 0 (bs i) 0 \<and> bkt_head (bks ! i) = first (bs i) 0
        \<and> bkt_items_cnt (bks ! i) = length (bs i)
        \<and> set (bs i) = {a \<in> S. ten_hash_get_bucket_idx (hash_of H a) n = i})"

lemma buckets_holdD:
  assumes "buckets_hold H n bks bs S" and "i < n"
  shows "dll (bucket_links H) 0 (bs i) 0" "bkt_head (bks ! i) = first (bs i) 0"
    "bkt_items_cnt (bks ! i) = length (bs i)"
    "set (bs i) = {a \<in> S. ten_hash_get_bucket_idx (hash_of H a) n = i}"
    "bucket_at bks i = Some (bks ! i)"
  using assms unfolding buckets_hold_def bucket_at_def by (blast, blast, blast, blast, simp)

lemma bucket_idx_less: "n = 2 ^ k \<Longrightarrow> ten_hash_get_bucket_idx v n < n"
proof -
  assume n: "n = 2 ^ k"
  have "unat v AND (2 ^ k - 1) = take_bit k (unat v)"
    by (simp add: take_bit_eq_mask mask_eq_exp_minus_1)
  then show ?thesis
    by (simp add: n ten_hash_get_bucket_idx_def)
qed

lemma buckets_hold_empty:
  assumes "n = 2 ^ k"
  shows "buckets_hold H n (replicate n empty_bucket) (\<lambda>_. []) {}"
  by (simp add: buckets_hold_def empty_bucket_def)

lemma buckets_hold_frame:
  assumes b: "buckets_hold H n bks bs S" and h: "\<And>a. a \<in> S \<Longrightarrow> hash_of H' a = hash_of H a"
    and l: "\<And>a. a \<in> S \<Longrightarrow> bucket_links H' a = bucket_links H a"
  shows "buckets_hold H' n bks bs S"
  unfolding buckets_hold_def
proof (intro conjI allI impI)
  fix i assume i: "i < n"
  show "dll (bucket_links H') 0 (bs i) 0"
    using buckets_holdD(1,4) [OF b i] l by (auto intro: dll_frame)
  show "bkt_head (bks ! i) = first (bs i) 0" "bkt_items_cnt (bks ! i) = length (bs i)"
    "set (bs i) = {a \<in> S. ten_hash_get_bucket_idx (hash_of H' a) n = i}"
    using buckets_holdD [OF b i] h by auto
qed (use b in \<open>simp add: buckets_hold_def\<close>)

text \<open>One more item in front of its bucket.\<close>

lemma buckets_hold_insert:
  assumes b: "buckets_hold H n bks bs S" and a: "a \<notin> S" "ten_hash_get_bucket_idx (hash_of H a) n = i" "i < n"
    and H': "rechained (insert a (set (bs i))) H H'" "dll (bucket_links H') 0 (a # bs i) 0"
    and new: "bkt_head new = a" "bkt_items_cnt new = Suc (length (bs i))"
  shows "buckets_hold H' n (bks[i := new]) (bs(i := a # bs i)) (insert a S)"
  unfolding buckets_hold_def
proof (intro conjI allI impI)
  fix j assume j: "j < n"
  have len: "length bks = n"
    using b by (simp add: buckets_hold_def)
  have idx: "ten_hash_get_bucket_idx (hash_of H' x) n = ten_hash_get_bucket_idx (hash_of H x) n" for x
    using rechained_hash [OF H'(1)] by simp
  have "set (bs j) \<inter> insert a (set (bs i)) = {}" if "j \<noteq> i"
    using buckets_holdD(4) [OF b] j a that by auto
  then show "dll (bucket_links H') 0 ((bs(i := a # bs i)) j) 0"
    using H'(2) rechained_dll [OF H'(1) buckets_holdD(1) [OF b j]] by simp
  show "bkt_head (bks[i := new] ! j) = first ((bs(i := a # bs i)) j) 0"
    "bkt_items_cnt (bks[i := new] ! j) = length ((bs(i := a # bs i)) j)"
    using buckets_holdD(2,3) [OF b j] new len j by (simp_all add: nth_list_update)
  show "set ((bs(i := a # bs i)) j) = {x \<in> insert a S. ten_hash_get_bucket_idx (hash_of H' x) n = j}"
    using buckets_holdD(4) [OF b j] a by (auto simp: idx)
qed (use b in \<open>simp add: buckets_hold_def\<close>)

text \<open>One item less.\<close>

lemma buckets_hold_remove:
  assumes b: "buckets_hold H n bks bs S" and i: "i < n" "bs i = xs @ a # ys"
    and H': "rechained (set (xs @ ys)) H H'" "dll (bucket_links H') 0 (xs @ ys) 0"
    and new: "bkt_head new = first (xs @ ys) 0" "bkt_items_cnt new = length (xs @ ys)"
  shows "buckets_hold H' n (bks[i := new]) (bs(i := xs @ ys)) (S - {a})"
  unfolding buckets_hold_def
proof (intro conjI allI impI)
  fix j assume j: "j < n"
  have len: "length bks = n"
    using b by (simp add: buckets_hold_def)
  have idx: "ten_hash_get_bucket_idx (hash_of H' x) n = ten_hash_get_bucket_idx (hash_of H x) n" for x
    using rechained_hash [OF H'(1)] by simp
  have d: "a \<notin> set (xs @ ys)"
    using dll_distinct [OF buckets_holdD(1) [OF b i(1)]] i(2) by simp
  have a: "a \<in> set (bs i)"
    using i(2) by simp
  have "set (bs j) \<inter> set (bs i) = {}" if "j \<noteq> i"
    using buckets_holdD(4) [OF b j] buckets_holdD(4) [OF b i(1)] that by auto
  then have "set (bs j) \<inter> set (xs @ ys) = {}" if "j \<noteq> i"
    using i(2) that by auto
  then show "dll (bucket_links H') 0 ((bs(i := xs @ ys)) j) 0"
    using H'(2) rechained_dll [OF H'(1) buckets_holdD(1) [OF b j]] by simp
  show "bkt_head (bks[i := new] ! j) = first ((bs(i := xs @ ys)) j) 0"
    "bkt_items_cnt (bks[i := new] ! j) = length ((bs(i := xs @ ys)) j)"
    using buckets_holdD(2,3) [OF b j] new len j by (simp_all add: nth_list_update)
  have eq: "set (xs @ ys) = set (bs i) - {a}"
    using i(2) d by auto
  show "set ((bs(i := xs @ ys)) j) = {x \<in> S - {a}. ten_hash_get_bucket_idx (hash_of H' x) n = j}"
  proof (cases "j = i")
    case True
    then show ?thesis
      using buckets_holdD(4) [OF b j] by (simp only: fun_upd_same eq idx) auto
  next
    case False
    then show ?thesis
      using buckets_holdD(4) [OF b j] buckets_holdD(4) [OF b i(1)] a by (auto simp: idx)
  qed
qed (use b in \<open>simp add: buckets_hold_def\<close>)

text \<open>The expansion.\<close>

lemma spread_handle_buckets:
  assumes b: "buckets_hold (sp_handles sp) n (sp_bkts sp) bs S" and n: "n = 2 ^ k"
    and a: "sp_handles sp a = Some h" "a \<notin> S" "a \<noteq> 0"
  shows "\<exists>sp' bs'. spread_handle n ideal a sp = Some sp'
    \<and> buckets_hold (sp_handles sp') n (sp_bkts sp') bs' (insert a S)
    \<and> rechained (insert a S) (sp_handles sp) (sp_handles sp')"
proof -
  define i where "i = ten_hash_get_bucket_idx (hh_hashval h) n"
  have i: "i < n"
    unfolding i_def using n by (rule bucket_idx_less)
  have idx: "ten_hash_get_bucket_idx (hash_of (sp_handles sp) a) n = i"
    using a by (simp add: i_def)
  have "a \<notin> set (bs i)"
    using buckets_holdD(4) [OF b i] a(2) by simp
  then obtain H' where H': "link_front a (first (bs i) 0) (sp_handles sp) = Some H'"
      "dll (bucket_links H') 0 (a # bs i) 0" "rechained (insert a (set (bs i))) (sp_handles sp) H'"
    using link_front_chain [OF buckets_holdD(1) [OF b i] a(1) _ a(3)] by blast
  obtain sp' new where sp': "spread_handle n ideal a sp = Some sp'" "sp_handles sp' = H'"
      "sp_bkts sp' = (sp_bkts sp)[i := new]" "bkt_head new = a" "bkt_items_cnt new = Suc (length (bs i))"
    using a(1) H'(1) buckets_holdD(2,3,5) [OF b i] by (simp add: spread_handle_def i_def Let_def)
  have "buckets_hold (sp_handles sp') n (sp_bkts sp') (bs(i := a # bs i)) (insert a S)"
    using buckets_hold_insert [OF b a(2) idx i H'(3,2) sp'(4,5)] sp'(2,3) by simp
  moreover have "rechained (insert a S) (sp_handles sp) (sp_handles sp')"
    using H'(3) buckets_holdD(4) [OF b i] by (auto simp: sp'(2) rechained_def)
  ultimately show ?thesis
    using sp'(1) by blast
qed

lemma spread_chain_buckets:
  assumes "buckets_hold (sp_handles sp) n (sp_bkts sp) bs S" and n: "n = 2 ^ k"
    and "dll (bucket_links (sp_handles sp)) p ys 0" "set ys \<inter> S = {}"
  shows "\<exists>sp' bs'. spread_chain n ideal (first ys 0) sp = Some sp'
    \<and> buckets_hold (sp_handles sp') n (sp_bkts sp') bs' (set ys \<union> S)
    \<and> rechained (set ys \<union> S) (sp_handles sp) (sp_handles sp')"
  using assms(1,3,4)
proof (induction ys arbitrary: p sp bs S)
  case Nil
  then show ?case by (auto simp: spread_chain.simps)
next
  case (Cons y ys)
  then obtain h where h: "sp_handles sp y = Some h" "hh_next h = first ys 0" "y \<noteq> 0" "y \<notin> S"
    by (auto dest!: bucket_links_SomeD)
  obtain sp1 bs1 where 1: "spread_handle n ideal y sp = Some sp1"
      "buckets_hold (sp_handles sp1) n (sp_bkts sp1) bs1 (insert y S)"
      "rechained (insert y S) (sp_handles sp) (sp_handles sp1)"
    using spread_handle_buckets [OF Cons.prems(1) n h(1,4,3)] by blast
  have y: "y \<notin> set ys"
    using dll_distinct [OF Cons.prems(2)] by simp
  have "dll (bucket_links (sp_handles sp1)) y ys 0"
    by (rule rechained_dll [OF 1(3)]) (use Cons.prems(2,3) y in auto)
  moreover have "set ys \<inter> insert y S = {}"
    using Cons.prems(3) y by auto
  ultimately obtain sp2 bs2 where 2: "spread_chain n ideal (first ys 0) sp1 = Some sp2"
      "buckets_hold (sp_handles sp2) n (sp_bkts sp2) bs2 (set ys \<union> insert y S)"
      "rechained (set ys \<union> insert y S) (sp_handles sp1) (sp_handles sp2)"
    using Cons.IH [OF 1(2)] by blast
  have "rechained (set (y # ys) \<union> S) (sp_handles sp) (sp_handles sp2)"
    by (rule rechained_trans [OF 1(3) 2(3)]) auto
  with h 1(1) 2(1,2) show ?case
    by (subst spread_chain.simps) auto
qed

lemma spread_buckets_hold:
  assumes "buckets_hold (sp_handles sp) n (sp_bkts sp) bs S" and n: "n = 2 ^ k"
    and "list_all2 (\<lambda>b xs. bkt_head b = first xs 0 \<and> dll (bucket_links (sp_handles sp)) 0 xs 0) bks xss"
    and "distinct (concat xss)" "set (concat xss) \<inter> S = {}"
  shows "\<exists>sp' bs'. spread_buckets n ideal bks sp = Some sp'
    \<and> buckets_hold (sp_handles sp') n (sp_bkts sp') bs' (set (concat xss) \<union> S)
    \<and> rechained (set (concat xss) \<union> S) (sp_handles sp) (sp_handles sp')"
  using assms(1,3-5)
proof (induction bks arbitrary: xss sp bs S)
  case Nil
  then show ?case by auto
next
  case (Cons b bks)
  then obtain xs yss where xss: "xss = xs # yss" "bkt_head b = first xs 0"
      "dll (bucket_links (sp_handles sp)) 0 xs 0"
      "list_all2 (\<lambda>b xs. bkt_head b = first xs 0 \<and> dll (bucket_links (sp_handles sp)) 0 xs 0) bks yss"
    by (auto simp: list_all2_Cons1)
  have disj: "set xs \<inter> S = {}" "set (concat yss) \<inter> (set xs \<union> S) = {}" "distinct (concat yss)"
    using Cons.prems(3,4) xss(1) by auto
  obtain sp1 bs1 where 1: "spread_chain n ideal (first xs 0) sp = Some sp1"
      "buckets_hold (sp_handles sp1) n (sp_bkts sp1) bs1 (set xs \<union> S)"
      "rechained (set xs \<union> S) (sp_handles sp) (sp_handles sp1)"
    using spread_chain_buckets [OF Cons.prems(1) n xss(3) disj(1)] by blast
  have "list_all2 (\<lambda>b xs. bkt_head b = first xs 0 \<and> dll (bucket_links (sp_handles sp1)) 0 xs 0) bks yss"
    using xss(4)
  proof (rule list.rel_mono_strong)
    fix c zs assume "c \<in> set bks" "zs \<in> set yss" "bkt_head c = first zs 0 \<and> dll (bucket_links (sp_handles sp)) 0 zs 0"
    moreover from this have "set zs \<inter> (set xs \<union> S) = {}"
      using disj(2) by auto
    ultimately show "bkt_head c = first zs 0 \<and> dll (bucket_links (sp_handles sp1)) 0 zs 0"
      using rechained_dll [OF 1(3)] by blast
  qed
  then obtain sp2 bs2 where 2: "spread_buckets n ideal bks sp1 = Some sp2"
      "buckets_hold (sp_handles sp2) n (sp_bkts sp2) bs2 (set (concat yss) \<union> (set xs \<union> S))"
      "rechained (set (concat yss) \<union> (set xs \<union> S)) (sp_handles sp1) (sp_handles sp2)"
    using Cons.IH [OF 1(2) _ disj(3,2)] by blast
  have "rechained (set (concat xss) \<union> S) (sp_handles sp) (sp_handles sp2)"
    by (rule rechained_trans [OF 1(3) 2(3)]) (auto simp: xss(1))
  moreover have "set (concat yss) \<union> (set xs \<union> S) = set (concat xss) \<union> S"
    by (auto simp: xss(1))
  ultimately show ?case
    using 1(1) 2(1,2) xss(1,2) by auto
qed

text \<open>The chains of all buckets together are the items.\<close>

lemma all_chains:
  assumes b: "buckets_hold H n bks bs S" and n: "n = 2 ^ k"
  shows "distinct (concat (map bs [0..<n]))" and "set (concat (map bs [0..<n])) = S"
proof -
  have disj: "set (bs i) \<inter> set (bs j) = {}" if "i < n" "j < n" "i \<noteq> j" for i j
    using buckets_holdD(4) [OF b that(1)] buckets_holdD(4) [OF b that(2)] that(3) by auto
  have "distinct (bs i)" if "i < n" for i
    using dll_distinct [OF buckets_holdD(1) [OF b that]] .
  moreover have "set (concat (map bs [0..<m])) \<inter> set (bs m) = {}" if "m < n" for m
  proof -
    have "set (bs i) \<inter> set (bs m) = {}" if "i < m" for i
      using disj [of i m] that \<open>m < n\<close> by simp
    then show ?thesis by (auto simp: disjoint_iff)
  qed
  ultimately have "m \<le> n \<Longrightarrow> distinct (concat (map bs [0..<m]))" for m
    by (induction m) (simp_all del: set_concat)
  then show "distinct (concat (map bs [0..<n]))"
    by blast
  show "set (concat (map bs [0..<n])) = S"
    using buckets_holdD(4) [OF b] bucket_idx_less [OF n] by auto
qed

lemma expand_buckets:
  assumes b: "buckets_hold H (bkts_cnt t) (bkts t) bs S" and n: "bkts_cnt t = 2 ^ bkts_cnt_in_log2 t"
  shows "\<exists>H' t' bs'. ten_hashtable_expand_bkts t H = Some (H', t')
    \<and> buckets_hold H' (bkts_cnt t') (bkts t') bs' S \<and> bkts_cnt t' = 2 ^ bkts_cnt_in_log2 t'
    \<and> rechained S H H' \<and> tbl_addr t' = tbl_addr t \<and> items_cnt t' = items_cnt t
    \<and> tbl_head t' = tbl_head t \<and> tbl_tail t' = tbl_tail t"
proof -
  define m where "m = bkts_cnt t * 2"
  have m: "m = 2 ^ Suc (bkts_cnt_in_log2 t)"
    using n by (simp add: m_def)
  let ?sp = "\<lparr>sp_handles = H, sp_bkts = replicate m empty_bucket, sp_non_ideal = 0\<rparr>"
  have "list_all2 (\<lambda>b xs. bkt_head b = first xs 0 \<and> dll (bucket_links (sp_handles ?sp)) 0 xs 0)
      (bkts t) (map bs [0..<bkts_cnt t])"
    using b by (auto simp: list_all2_conv_all_nth buckets_hold_def)
  from spread_buckets_hold [OF _ m this all_chains(1) [OF b n], of "\<lambda>_. []" "{}" "ideal_length t"]
  obtain sp' bs' where "spread_buckets m (ideal_length t) (bkts t) ?sp = Some sp'"
      "buckets_hold (sp_handles sp') m (sp_bkts sp') bs' S" "rechained S H (sp_handles sp')"
    using buckets_hold_empty [OF m] all_chains(2) [OF b n] by auto
  then show ?thesis
    using m unfolding ten_hashtable_expand_bkts_def Let_def m_def [symmetric]
    by (auto simp del: power_Suc)
qed

lemma bucket_add_holds:
  assumes b: "buckets_hold H (bkts_cnt t) (bkts t) bs S" and n: "bkts_cnt t = 2 ^ bkts_cnt_in_log2 t"
    and a: "H a = Some h" "a \<notin> S" "a \<noteq> 0"
    and i: "i = ten_hash_get_bucket_idx (hh_hashval h) (bkts_cnt t)"
  shows "\<exists>H' t' bs'. ten_hashbucket_add t i a H = Some (H', t')
    \<and> buckets_hold H' (bkts_cnt t') (bkts t') bs' (insert a S) \<and> bkts_cnt t' = 2 ^ bkts_cnt_in_log2 t'
    \<and> rechained (insert a S) H H' \<and> tbl_addr t' = tbl_addr t \<and> items_cnt t' = items_cnt t
    \<and> tbl_head t' = tbl_head t \<and> tbl_tail t' = tbl_tail t"
proof -
  have lt: "i < bkts_cnt t"
    unfolding i using n by (rule bucket_idx_less)
  have idx: "ten_hash_get_bucket_idx (hash_of H a) (bkts_cnt t) = i"
    using a i by simp
  have "a \<notin> set (bs i)"
    using buckets_holdD(4) [OF b lt] a(2) by simp
  then obtain H' where H': "link_front a (first (bs i) 0) H = Some H'"
      "dll (bucket_links H') 0 (a # bs i) 0" "rechained (insert a (set (bs i))) H H'"
    using link_front_chain [OF buckets_holdD(1) [OF b lt] a(1) _ a(3)] by blast
  define new where "new = (bkts t ! i)\<lparr>bkt_items_cnt := Suc (length (bs i)), bkt_head := a\<rparr>"
  define t1 where "t1 = t\<lparr>bkts := (bkts t)[i := new]\<rparr>"
  have hold: "buckets_hold H' (bkts_cnt t1) (bkts t1) (bs(i := a # bs i)) (insert a S)"
    using buckets_hold_insert [OF b a(2) idx lt H'(3,2), of new] by (simp add: t1_def new_def)
  have re: "rechained (insert a S) H H'"
    using H'(3) buckets_holdD(4) [OF b lt] by (auto simp: rechained_def)
  have add: "ten_hashbucket_add t i a H =
      (if (expand_mult (bkts t ! i) + 1) * HASH_BKT_CAPACITY_THRESH \<le> Suc (length (bs i)) \<and> \<not> noexpand t
       then ten_hashtable_expand_bkts t1 H' else Some (H', t1))"
    using H'(1) buckets_holdD(2,3,5) [OF b lt] a(3)
    by (simp add: ten_hashbucket_add_def Let_def t1_def new_def)
  have n1: "bkts_cnt t1 = 2 ^ bkts_cnt_in_log2 t1"
    using n by (simp add: t1_def)
  obtain H2 t2 bs2 where e: "ten_hashtable_expand_bkts t1 H' = Some (H2, t2)"
    "buckets_hold H2 (bkts_cnt t2) (bkts t2) bs2 (insert a S)" "bkts_cnt t2 = 2 ^ bkts_cnt_in_log2 t2"
    "rechained (insert a S) H' H2" "tbl_addr t2 = tbl_addr t1" "items_cnt t2 = items_cnt t1"
    "tbl_head t2 = tbl_head t1" "tbl_tail t2 = tbl_tail t1"
    using expand_buckets [OF hold n1] by blast
  have t1: "tbl_addr t1 = tbl_addr t" "items_cnt t1 = items_cnt t" "tbl_head t1 = tbl_head t"
    "tbl_tail t1 = tbl_tail t"
    by (simp_all add: t1_def)
  show ?thesis
  proof (cases "(expand_mult (bkts t ! i) + 1) * HASH_BKT_CAPACITY_THRESH \<le> Suc (length (bs i)) \<and> \<not> noexpand t")
    case True
    with add e t1 rechained_trans [OF re e(4) subset_refl subset_refl] show ?thesis by auto
  next
    case False
    then have "ten_hashbucket_add t i a H = Some (H', t1)"
      by (simp only: add if_False)
    with hold n1 re t1 show ?thesis by blast
  qed
qed

section \<open>The order of insertion\<close>

definition order_holds :: "handles \<Rightarrow> ten_hashtable \<Rightarrow> addr list \<Rightarrow> bool" where
  "order_holds H t xs \<longleftrightarrow> dll (app_links H) 0 xs 0 \<and> tbl_head t = first xs 0 \<and> tbl_tail t = final 0 xs"

text \<open>A step on the order leaves the buckets and the keys alone.\<close>

definition reordered :: "addr set \<Rightarrow> handles \<Rightarrow> handles \<Rightarrow> bool" where
  "reordered A H H' \<longleftrightarrow> bucket_links H' = bucket_links H \<and> core H' = core H
     \<and> (\<forall>a. a \<notin> A \<longrightarrow> app_links H' a = app_links H a)"

lemma ends_update:
  "t\<lparr>tbl_tail := a\<rparr> = t\<lparr>tbl_head := p, tbl_tail := q\<rparr> \<longleftrightarrow> p = tbl_head t \<and> q = a"
  "t\<lparr>tbl_head := b, tbl_tail := a\<rparr> = t\<lparr>tbl_head := p, tbl_tail := q\<rparr> \<longleftrightarrow> p = b \<and> q = a"
  by (cases t; auto)+

lemma order_add:
  assumes o: "order_holds H t xs" and a: "H a = Some h" "a \<notin> set xs" "a \<noteq> 0"
  shows "\<exists>H' t'. ten_hashtable_add_to_app_list t a H = Some (H', t') \<and> order_holds H' t' (xs @ [a])
    \<and> reordered (insert a (set xs)) H H' \<and> (\<exists>p q. t' = t\<lparr>tbl_head := p, tbl_tail := q\<rparr>)"
proof (cases xs rule: rev_cases)
  case Nil
  with o a show ?thesis
    by (auto simp: ends_update ten_hashtable_add_to_app_list_def order_holds_def reordered_def bucket_links_same core_same)
next
  case (snoc ys y)
  with o obtain g where g: "H y = Some g" "app_prev g = final 0 ys" "app_next g = 0" "y \<noteq> 0"
    by (auto simp: order_holds_def dest!: app_links_SomeD)
  have "y \<notin> set ys"
    using dll_distinct [of "app_links H" 0 xs] o snoc by (simp add: order_holds_def)
  then show ?thesis
    using o a g snoc
    by (auto simp: ends_update ten_hashtable_add_to_app_list_def order_holds_def reordered_def bucket_links_same core_same)
qed

lemma order_del:
  assumes o: "order_holds H t (xs @ a # ys)"
  shows "\<exists>H' p q. ten_hashhandle_del_from_app_list t a H = Some (H', t\<lparr>tbl_head := p, tbl_tail := q\<rparr>)
    \<and> order_holds H' (t\<lparr>tbl_head := p, tbl_tail := q\<rparr>) (xs @ ys) \<and> reordered (set (xs @ ys)) H H'"
proof -
  have l: "dll (app_links H) 0 (xs @ a # ys) 0" and t: "tbl_head t = first (xs @ a # ys) 0"
      "tbl_tail t = final 0 (xs @ a # ys)"
    using o by (simp_all add: order_holds_def)
  obtain h where h: "H a = Some h" "app_prev h = final 0 xs" "app_next h = first ys 0" "a \<noteq> 0"
    using l by (auto dest!: app_links_SomeD)
  have d: "distinct (xs @ a # ys)" "0 \<notin> set (xs @ a # ys)"
    using dll_distinct [OF l] dll_nonzero [OF l] by auto
  note defs = ten_hashhandle_del_from_app_list_def order_holds_def reordered_def bucket_links_same core_same
  show ?thesis
  proof (cases xs rule: rev_cases; cases ys)
    assume "xs = []" "ys = []"
    with h t show ?thesis by (auto simp: defs)
  next
    fix y zs assume ys: "xs = []" "ys = y # zs"
    then obtain g where "H y = Some g" "app_prev g = a" "app_next g = first zs 0" "y \<noteq> 0"
      using l by (auto dest!: app_links_SomeD)
    moreover have "a \<noteq> final y zs"
      using d ys by (cases zs rule: rev_cases) auto
    ultimately show ?thesis
      using h t d l ys by (auto simp: defs)
  next
    fix ps p assume xs: "xs = ps @ [p]" "ys = []"
    then obtain f where "H p = Some f" "app_prev f = final 0 ps" "app_next f = a" "p \<noteq> 0"
      using l by (auto dest!: app_links_SomeD)
    moreover have "first ps p \<noteq> a"
      using d xs by (cases ps) auto
    ultimately show ?thesis
      using h t d l xs by (auto simp: defs)
  next
    fix ps p y zs assume xs: "xs = ps @ [p]" "ys = y # zs"
    then obtain f g where "H p = Some f" "app_prev f = final 0 ps" "app_next f = a" "p \<noteq> 0"
      "H y = Some g" "app_prev g = a" "app_next g = first zs 0" "y \<noteq> 0"
      using l by (auto dest!: app_links_SomeD)
    moreover have "first ps p \<noteq> a" "a \<noteq> final y zs"
      using d xs by (cases ps; cases zs rule: rev_cases; auto)+
    ultimately show ?thesis
      using h t d l xs by (auto simp: defs)
  qed
qed

section \<open>Tables\<close>

text \<open>
  The table \<open>t\<close> holds the items \<open>xs\<close>, in order of insertion, in the chains \<open>bs\<close>. In the course of
  an operation the counter is ahead of the chains, so it is not part of \<open>chained\<close>.
\<close>

definition chained :: "handles \<Rightarrow> ten_hashtable \<Rightarrow> (nat \<Rightarrow> addr list) \<Rightarrow> addr list \<Rightarrow> bool" where
  "chained H t bs xs \<longleftrightarrow>
     bkts_cnt t = 2 ^ bkts_cnt_in_log2 t \<and> buckets_hold H (bkts_cnt t) (bkts t) bs (set xs)
     \<and> order_holds H t xs"

definition own_items :: "handles \<Rightarrow> ten_hashtable \<Rightarrow> addr set \<Rightarrow> bool" where
  "own_items H t S \<longleftrightarrow>
     (\<forall>a\<in>S. \<exists>h. H a = Some h \<and> hh_tbl h = tbl_addr t \<and> hh_hashval h = ten_hash_function (hh_key h))"

definition is_table :: "handles \<Rightarrow> ten_hashtable \<Rightarrow> addr list \<Rightarrow> bool" where
  "is_table H t xs \<longleftrightarrow> (\<exists>bs. chained H t bs xs) \<and> items_cnt t = length xs \<and> own_items H t (set xs)"

lemma own_itemsD:
  assumes "own_items H t S" "a \<in> S"
  obtains h where "H a = Some h" "hh_tbl h = tbl_addr t" "hh_hashval h = ten_hash_function (hh_key h)"
  using assms by (auto simp: own_items_def)

lemma own_items_core:
  "own_items H t S \<Longrightarrow> (\<And>a. a \<in> S \<Longrightarrow> core H' a = core H a) \<Longrightarrow> tbl_addr t' = tbl_addr t \<Longrightarrow> own_items H' t' S"
  by (fastforce simp: own_items_def core_def)

lemma chained_distinct: "chained H t bs xs \<Longrightarrow> distinct xs"
  by (auto simp: chained_def order_holds_def intro: dll_distinct)

lemma chained_nonzero: "chained H t bs xs \<Longrightarrow> 0 \<notin> set xs"
  by (auto simp: chained_def order_holds_def dest: dll_nonzero)

text \<open>The integrity check succeeds.\<close>

lemma check_buckets_ok:
  assumes "list_all2 (\<lambda>b xs. bkt_head b = first xs 0 \<and> bkt_items_cnt b = length xs
      \<and> dll (bucket_links H) 0 xs 0) bks xss"
  shows "check_buckets H c bks = Some (Some (c + length (concat xss)))"
  using assms
proof (induction bks arbitrary: xss c)
  case Nil
  then show ?case by simp
next
  case (Cons b bks)
  then obtain xs yss where "xss = xs # yss" "bkt_head b = first xs 0" "bkt_items_cnt b = length xs"
      "dll (bucket_links H) 0 xs 0"
      "list_all2 (\<lambda>b xs. bkt_head b = first xs 0 \<and> bkt_items_cnt b = length xs
        \<and> dll (bucket_links H) 0 xs 0) bks yss"
    by (auto simp: list_all2_Cons1)
  with Cons.IH [of yss] check_chain_dll [of "bucket_links H" 0 xs 0] show ?case
    by (simp add: add.assoc)
qed

lemma sound_chained:
  assumes c: "chained H t bs xs" and n: "items_cnt t = length xs"
  shows "sound_table t H = Some ()"
proof -
  have b: "buckets_hold H (bkts_cnt t) (bkts t) bs (set xs)" and k: "bkts_cnt t = 2 ^ bkts_cnt_in_log2 t"
    and o: "order_holds H t xs"
    using c unfolding chained_def by blast+
  have len: "length (bkts t) = bkts_cnt t"
    using b by (simp add: buckets_hold_def)
  have "list_all2 (\<lambda>b xs. bkt_head b = first xs 0 \<and> bkt_items_cnt b = length xs
      \<and> dll (bucket_links H) 0 xs 0) (bkts t) (map bs [0..<bkts_cnt t])"
    using b by (auto simp: list_all2_conv_all_nth buckets_hold_def)
  from check_buckets_ok [OF this, of 0]
  have "check_buckets H 0 (bkts t) = Some (Some (length (concat (map bs [0..<bkts_cnt t]))))"
    by simp
  moreover have "length (concat (map bs [0..<bkts_cnt t])) = length xs"
    using all_chains [OF b k] chained_distinct [OF c] by (metis distinct_card)
  moreover have "check_chain (app_links H) 0 0 (tbl_head t) = Some (Some (length xs))"
    using o check_chain_dll [of "app_links H" 0 xs 0] by (simp add: order_holds_def)
  ultimately show ?thesis
    using n len by (simp add: sound_table_def ten_hashtable_check_integrity_def)
qed

lemma chained_frame:
  assumes c: "chained H t bs xs"
    and "\<And>a. a \<in> set xs \<Longrightarrow> bucket_links H' a = bucket_links H a \<and> app_links H' a = app_links H a
      \<and> hash_of H' a = hash_of H a"
  shows "chained H' t bs xs"
  using c assms(2) buckets_hold_frame [of H "bkts_cnt t" "bkts t" bs "set xs" H']
  unfolding chained_def order_holds_def by (blast intro: dll_frame)

lemma add_by_hash_val_chained:
  assumes c: "chained H t bs xs" and a: "H a = Some h" "a \<notin> set xs" "a \<noteq> 0"
  shows "\<exists>H' t' bs'. ten_hashtable_add_by_hash_val t a (hh_hashval h) H = Some (H', t')
    \<and> chained H' t' bs' (xs @ [a]) \<and> core H' = core H \<and> items_cnt t' = items_cnt t + 1
    \<and> tbl_addr t' = tbl_addr t"
proof -
  let ?t = "t\<lparr>items_cnt := items_cnt t + 1\<rparr>"
  have eq: "bkts_cnt ?t = bkts_cnt t" "bkts ?t = bkts t" "bkts_cnt_in_log2 ?t = bkts_cnt_in_log2 t"
      "tbl_addr ?t = tbl_addr t" "items_cnt ?t = items_cnt t + 1" "tbl_head ?t = tbl_head t"
      "tbl_tail ?t = tbl_tail t"
    by simp_all
  have "buckets_hold H (bkts_cnt ?t) (bkts ?t) bs (set xs)" "bkts_cnt ?t = 2 ^ bkts_cnt_in_log2 ?t"
    unfolding eq using c unfolding chained_def by blast+
  from bucket_add_holds [OF this a refl]
  obtain H1 t1 bs1 where 1: "ten_hashbucket_add ?t (ten_hash_get_bucket_idx (hh_hashval h) (bkts_cnt t)) a H
        = Some (H1, t1)"
      "buckets_hold H1 (bkts_cnt t1) (bkts t1) bs1 (insert a (set xs))"
      "bkts_cnt t1 = 2 ^ bkts_cnt_in_log2 t1" "rechained (insert a (set xs)) H H1"
      "tbl_addr t1 = tbl_addr t" "items_cnt t1 = items_cnt t + 1" "tbl_head t1 = tbl_head t"
      "tbl_tail t1 = tbl_tail t"
    unfolding eq by blast
  have o: "order_holds H1 t1 xs"
    using c 1(4,7,8) by (simp add: chained_def order_holds_def rechained_def)
  have core1: "core H1 = core H"
    using 1(4) by (simp add: rechained_def)
  then obtain h1 where h1: "H1 a = Some h1"
    using core_allocated [OF core1 a(1)] by blast
  obtain H2 p q where 2: "ten_hashtable_add_to_app_list t1 a H1 = Some (H2, t1\<lparr>tbl_head := p, tbl_tail := q\<rparr>)"
      "order_holds H2 (t1\<lparr>tbl_head := p, tbl_tail := q\<rparr>) (xs @ [a])" "reordered (insert a (set xs)) H1 H2"
    using order_add [OF o h1 a(2,3)] by blast
  have "buckets_hold H2 (bkts_cnt t1) (bkts t1) bs1 (insert a (set xs))"
    using buckets_hold_frame [OF 1(2)] 2(3) by (simp add: reordered_def hash_of_def)
  then have "chained H2 (t1\<lparr>tbl_head := p, tbl_tail := q\<rparr>) bs1 (xs @ [a])"
    unfolding chained_def using 1(3) 2(2) by simp
  moreover have "core H2 = core H"
    using 2(3) core1 by (simp add: reordered_def)
  ultimately show ?thesis
    using 1 2(1) by (auto simp: ten_hashtable_add_by_hash_val_def)
qed

lemma init_chained:
  assumes "chained H t bs xs" and "H a = Some h" "a \<notin> set xs"
  shows "\<exists>H' h'. ten_hashhandle_init a t k d H = Some H' \<and> H' a = Some h'
    \<and> hh_hashval h' = ten_hash_function k \<and> chained H' t bs xs
    \<and> core H' = (core H)(a \<mapsto> (tbl_addr t, k, ten_hash_function k, d))"
proof -
  let ?h = "h\<lparr>hh_tbl := tbl_addr t, hh_key := k, hh_hashval := ten_hash_function k, hh_destroy := d\<rparr>"
  have "chained (H(a \<mapsto> ?h)) t bs xs"
    by (rule chained_frame [OF assms(1)]) (use assms(3) in \<open>auto simp: hash_of_def\<close>)
  then show ?thesis
    using assms(2) by (auto simp: ten_hashhandle_init_def)
qed

lemma own_items_insert:
  assumes "own_items H t S" and "core H' = (core H)(a \<mapsto> (tbl_addr t, k, ten_hash_function k, d))"
    and "tbl_addr t' = tbl_addr t"
  shows "own_items H' t' (insert a S)"
proof -
  have "own_items H' t' S"
    unfolding own_items_def
  proof
    fix x assume "x \<in> S"
    with assms(1) obtain h where h: "H x = Some h" "hh_tbl h = tbl_addr t"
        "hh_hashval h = ten_hash_function (hh_key h)"
      by (rule own_itemsD)
    have "core H' x = (if x = a then Some (tbl_addr t, k, ten_hash_function k, d) else core H x)"
      using assms(2) by simp
    then show "\<exists>h. H' x = Some h \<and> hh_tbl h = tbl_addr t' \<and> hh_hashval h = ten_hash_function (hh_key h)"
      using h assms(3) by (auto simp: core_def split: if_splits)
  qed
  moreover have "core H' a = Some (tbl_addr t, k, ten_hash_function k, d)"
    using assms(2) by simp
  ultimately show ?thesis
    using assms(3) by (auto simp: own_items_def core_def)
qed

lemma add_by_key_table:
  assumes t: "is_table H t xs" and a: "H a = Some h" "a \<notin> set xs" "a \<noteq> 0"
  shows "\<exists>H' t'. ten_hashtable_add_by_key t a k d H = Some (H', t') \<and> is_table H' t' (xs @ [a])
    \<and> core H' = (core H)(a \<mapsto> (tbl_addr t, k, ten_hash_function k, d)) \<and> tbl_addr t' = tbl_addr t"
proof -
  obtain bs where bs: "chained H t bs xs"
    using t by (auto simp: is_table_def)
  obtain H1 h1 where 1: "ten_hashhandle_init a t k d H = Some H1" "H1 a = Some h1"
      "hh_hashval h1 = ten_hash_function k" "chained H1 t bs xs"
      "core H1 = (core H)(a \<mapsto> (tbl_addr t, k, ten_hash_function k, d))"
    using init_chained [OF bs a(1,2)] by blast
  obtain H2 t2 bs2 where 2: "ten_hashtable_add_by_hash_val t a (hh_hashval h1) H1 = Some (H2, t2)"
      "chained H2 t2 bs2 (xs @ [a])" "core H2 = core H1" "items_cnt t2 = items_cnt t + 1"
      "tbl_addr t2 = tbl_addr t"
    using add_by_hash_val_chained [OF 1(4,2) a(2,3)] by blast
  have n: "items_cnt t2 = length (xs @ [a])"
    using t 2(4) by (simp add: is_table_def)
  have "own_items H2 t2 (insert a (set xs))"
    by (rule own_items_insert) (use t 1(5) 2(3,5) in \<open>auto simp: is_table_def\<close>)
  then have "is_table H2 t2 (xs @ [a])"
    using 2(2) n by (auto simp: is_table_def)
  then show ?thesis
    using 1 2 a(3) sound_chained [OF 2(2) n] by (simp add: ten_hashtable_add_by_key_def)
qed

definition item_key :: "handles \<Rightarrow> addr \<Rightarrow> key" where
  "item_key H a = (case core H a of None \<Rightarrow> [] | Some (_, k, _, _) \<Rightarrow> k)"

lemma item_key_Some [simp]: "H a = Some h \<Longrightarrow> item_key H a = hh_key h"
  by (simp add: item_key_def core_def)

lemma find_chained:
  assumes c: "chained H t bs xs" and own: "own_items H t (set xs)"
  shows "\<exists>r. ten_hashtable_find t (ten_hash_function k) k H = Some r
    \<and> (if r = 0 then \<forall>a\<in>set xs. item_key H a \<noteq> k else r \<in> set xs \<and> item_key H r = k)"
proof -
  have b: "buckets_hold H (bkts_cnt t) (bkts t) bs (set xs)" and n: "bkts_cnt t = 2 ^ bkts_cnt_in_log2 t"
    using c unfolding chained_def by blast+
  let ?i = "ten_hash_get_bucket_idx (ten_hash_function k) (bkts_cnt t)"
  let ?P = "\<lambda>a. hash_of H a = ten_hash_function k \<and> (\<exists>h. H a = Some h \<and> hh_key h = k)"
  have i: "?i < bkts_cnt t"
    using n by (rule bucket_idx_less)
  have P: "?P a \<longleftrightarrow> item_key H a = k" if "a \<in> set xs" for a
    using own that by (rule own_itemsD) auto
  have find: "ten_hashtable_find t (ten_hash_function k) k H =
      Some (case find ?P (bs ?i) of None \<Rightarrow> 0 | Some a \<Rightarrow> a)"
    using bucket_find_chain [OF buckets_holdD(1) [OF b i]] buckets_holdD(2,5) [OF b i]
    by (simp add: ten_hashtable_find_def)
  have members: "a \<in> set (bs ?i) \<longleftrightarrow> a \<in> set xs \<and> ten_hash_get_bucket_idx (hash_of H a) (bkts_cnt t) = ?i" for a
    using buckets_holdD(4) [OF b i] by auto
  show ?thesis
  proof (cases "find ?P (bs ?i)")
    case None
    then have "\<forall>a\<in>set (bs ?i). \<not> ?P a"
      by (auto simp: find_None_iff)
    then have "\<forall>a\<in>set xs. item_key H a \<noteq> k"
      using members P by metis
    with None find show ?thesis by simp
  next
    case (Some a)
    then have a: "a \<in> set (bs ?i)" "?P a"
      by (auto simp: find_Some_iff)
    then have "a \<in> set xs" "item_key H a = k" "a \<noteq> 0"
      using members P chained_nonzero [OF c] by metis+
    with Some find show ?thesis by simp
  qed
qed

lemma chained_items_cnt [simp]: "chained H (t\<lparr>items_cnt := k\<rparr>) bs xs = chained H t bs xs"
  by (simp add: chained_def order_holds_def)

lemma remove1_middle: "distinct (xs @ a # ys) \<Longrightarrow> remove1 a (xs @ a # ys) = xs @ ys"
  by (simp add: remove1_append)

lemma split_distinct:
  assumes "a \<in> set xs" "distinct xs"
  obtains ys zs where "xs = ys @ a # zs" "remove1 a xs = ys @ zs" "a \<notin> set (ys @ zs)"
proof -
  obtain ys zs where "xs = ys @ a # zs"
    using assms(1) by (meson split_list)
  with assms(2) show thesis
    using that [of ys zs] by (simp add: remove1_middle)
qed

text \<open>Taking an item out of both chains, before its destroy function runs.\<close>

lemma unlink_chained:
  assumes c: "chained H t bs xs" and a: "a \<in> set xs" "H a = Some h"
  shows "\<exists>b H1 b1 H2 p q. bucket_at (bkts t) (ten_hash_get_bucket_idx (hh_hashval h) (bkts_cnt t)) = Some b
    \<and> ten_hashbucket_del b a H = Some (H1, b1)
    \<and> ten_hashhandle_del_from_app_list
        (t\<lparr>bkts := (bkts t)[ten_hash_get_bucket_idx (hh_hashval h) (bkts_cnt t) := b1]\<rparr>) a H1 =
      Some (H2, t\<lparr>bkts := (bkts t)[ten_hash_get_bucket_idx (hh_hashval h) (bkts_cnt t) := b1],
        tbl_head := p, tbl_tail := q\<rparr>)
    \<and> (\<exists>bs'. chained H2 (t\<lparr>bkts := (bkts t)[ten_hash_get_bucket_idx (hh_hashval h) (bkts_cnt t) := b1],
        tbl_head := p, tbl_tail := q\<rparr>) bs' (remove1 a xs))
    \<and> core H2 = core H"
proof -
  have b: "buckets_hold H (bkts_cnt t) (bkts t) bs (set xs)" and n: "bkts_cnt t = 2 ^ bkts_cnt_in_log2 t"
    and o: "order_holds H t xs"
    using c unfolding chained_def by blast+
  define i where "i = ten_hash_get_bucket_idx (hh_hashval h) (bkts_cnt t)"
  have i: "i < bkts_cnt t"
    unfolding i_def using n by (rule bucket_idx_less)
  have "a \<in> set (bs i)"
    using buckets_holdD(4) [OF b i] a by (simp add: i_def)
  then obtain us vs where us: "bs i = us @ a # vs" "a \<notin> set (us @ vs)"
    using split_distinct dll_distinct [OF buckets_holdD(1) [OF b i]] by metis
  obtain ys zs where ys: "xs = ys @ a # zs" "remove1 a xs = ys @ zs" "a \<notin> set (ys @ zs)"
    using split_distinct [OF a(1) chained_distinct [OF c]] .
  obtain H1 b1 where 1: "ten_hashbucket_del (bkts t ! i) a H = Some (H1, b1)"
      "dll (bucket_links H1) 0 (us @ vs) 0" "bkt_head b1 = first (us @ vs) 0"
      "bkt_items_cnt b1 = bkt_items_cnt (bkts t ! i) - 1" "rechained (set (us @ vs)) H H1"
    using bucket_del_chain [of H us a vs "bkts t ! i"] buckets_holdD(1,2) [OF b i] us(1) by auto
  let ?t = "t\<lparr>bkts := (bkts t)[i := b1]\<rparr>"
  have hold: "buckets_hold H1 (bkts_cnt t) ((bkts t)[i := b1]) (bs(i := us @ vs)) (set xs - {a})"
    by (rule buckets_hold_remove [OF b i us(1) 1(5,2,3)])
      (use 1(4) buckets_holdD(3) [OF b i] us(1) in simp)
  have "order_holds H1 ?t (ys @ a # zs)"
    using o 1(5) ys(1) by (simp add: order_holds_def rechained_def)
  then obtain H2 p q where 2: "ten_hashhandle_del_from_app_list ?t a H1 = Some (H2, ?t\<lparr>tbl_head := p, tbl_tail := q\<rparr>)"
      "order_holds H2 (?t\<lparr>tbl_head := p, tbl_tail := q\<rparr>) (ys @ zs)" "reordered (set (ys @ zs)) H1 H2"
    using order_del by blast
  have "buckets_hold H2 (bkts_cnt t) ((bkts t)[i := b1]) (bs(i := us @ vs)) (set xs - {a})"
    by (rule buckets_hold_frame [OF hold]) (use 2(3) in \<open>simp_all add: reordered_def hash_of_def\<close>)
  moreover have "set xs - {a} = set (ys @ zs)"
    using ys(1,3) by auto
  ultimately have "chained H2 (?t\<lparr>tbl_head := p, tbl_tail := q\<rparr>) (bs(i := us @ vs)) (remove1 a xs)"
    using 2(2) n ys(2) by (simp add: chained_def)
  moreover have "core H2 = core H"
    using 1(5) 2(3) by (simp add: rechained_def reordered_def)
  ultimately show ?thesis
    using 1(1) 2(1) buckets_holdD(5) [OF b i] unfolding i_def by auto
qed

lemma del_table:
  assumes t: "is_table H t xs" and a: "a \<in> set xs" "H a = Some h"
  shows "\<exists>H' t'. ten_hashtable_del t a H = Some (H', t') \<and> is_table H' t' (remove1 a xs)
    \<and> core H' = (if hh_destroy h then (core H)(a := None) else core H) \<and> tbl_addr t' = tbl_addr t"
proof -
  obtain bs where bs: "chained H t bs xs"
    using t by (auto simp: is_table_def)
  have own: "own_items H t (set xs)"
    using t by (simp add: is_table_def)
  have tbl: "hh_tbl h = tbl_addr t" "a \<noteq> 0"
    using own_itemsD [OF own a(1)] a chained_nonzero [OF bs] by (metis option.inject, metis)
  let ?i = "ten_hash_get_bucket_idx (hh_hashval h) (bkts_cnt t)"
  obtain b H1 b1 H2 p q bs' where 1: "bucket_at (bkts t) ?i = Some b"
      "ten_hashbucket_del b a H = Some (H1, b1)"
      "ten_hashhandle_del_from_app_list (t\<lparr>bkts := (bkts t)[?i := b1]\<rparr>) a H1 =
        Some (H2, t\<lparr>bkts := (bkts t)[?i := b1], tbl_head := p, tbl_tail := q\<rparr>)"
      "chained H2 (t\<lparr>bkts := (bkts t)[?i := b1], tbl_head := p, tbl_tail := q\<rparr>) bs' (remove1 a xs)"
      "core H2 = core H"
    using unlink_chained [OF bs a] by blast
  define H3 where "H3 = (if hh_destroy h then H2(a := None) else H2)"
  define t3 where "t3 = t\<lparr>bkts := (bkts t)[?i := b1], tbl_head := p, tbl_tail := q, items_cnt := items_cnt t - 1\<rparr>"
  have a': "a \<notin> set (remove1 a xs)"
    using chained_distinct [OF bs] by simp
  have "chained H3 (t\<lparr>bkts := (bkts t)[?i := b1], tbl_head := p, tbl_tail := q\<rparr>) bs' (remove1 a xs)"
    by (rule chained_frame [OF 1(4)]) (use a' in \<open>auto simp: H3_def hash_of_def\<close>)
  then have c: "chained H3 t3 bs' (remove1 a xs)"
    by (simp add: t3_def)
  have n: "items_cnt t3 = length (remove1 a xs)"
    using t a(1) by (simp add: is_table_def t3_def length_remove1)
  have core: "core H3 = (if hh_destroy h then (core H)(a := None) else core H)"
    using 1(5) by (simp add: H3_def)
  have "own_items H t (set (remove1 a xs))"
    using own set_remove1_subset [of a xs] by (auto simp: own_items_def)
  then have "own_items H3 t3 (set (remove1 a xs))"
    by (rule own_items_core) (use a' core in \<open>auto simp: t3_def\<close>)
  with c n have "is_table H3 t3 (remove1 a xs)"
    by (auto simp: is_table_def)
  moreover have "ten_hashtable_del t a H = Some (H3, t3)"
    using 1(1-3) a(2) tbl sound_chained [OF c n]
    by (simp add: ten_hashtable_del_def H3_def t3_def Let_def)
  ultimately show ?thesis
    using core by (auto simp: t3_def)
qed

lemma find_table:
  assumes t: "is_table H t xs"
  shows "\<exists>r. ten_hashtable_find_by_key t k H = Some r
    \<and> (if r = 0 then \<forall>a\<in>set xs. item_key H a \<noteq> k else r \<in> set xs \<and> item_key H r = k)"
  using t find_chained unfolding is_table_def ten_hashtable_find_by_key_def by blast

text \<open>Whether the item is freed when it is taken out.\<close>

definition destroys :: "handles \<Rightarrow> addr \<Rightarrow> bool" where
  "destroys H a = (case core H a of None \<Rightarrow> False | Some (_, _, _, d) \<Rightarrow> d)"

lemma destroys_Some [simp]: "H a = Some h \<Longrightarrow> destroys H a = hh_destroy h"
  by (simp add: destroys_def core_def)

lemma own_items_iff:
  "own_items H t S \<longleftrightarrow> (\<forall>a\<in>S. \<exists>k d. core H a = Some (tbl_addr t, k, ten_hash_function k, d))"
  unfolding own_items_def core_def by (intro ball_cong refl) force

lemma replace_by_key_table:
  assumes t: "is_table H t xs" and a: "H a = Some h" "a \<notin> set xs" "a \<noteq> 0"
  shows "\<exists>r H' t'. ten_hashtable_replace_by_key t a k d H = Some (H', t')
    \<and> (if r = 0 then \<forall>x\<in>set xs. item_key H x \<noteq> k else r \<in> set xs \<and> item_key H r = k)
    \<and> is_table H' t' (remove1 r xs @ [a]) \<and> tbl_addr t' = tbl_addr t
    \<and> core H' = (if r \<noteq> 0 \<and> destroys H r then (core H)(r := None) else core H)
        (a \<mapsto> (tbl_addr t, k, ten_hash_function k, d))"
proof -
  obtain bs where bs: "chained H t bs xs" and own: "own_items H t (set xs)" and n: "items_cnt t = length xs"
    using t by (auto simp: is_table_def)
  obtain H1 h1 where 1: "ten_hashhandle_init a t k d H = Some H1" "H1 a = Some h1"
      "hh_hashval h1 = ten_hash_function k" "chained H1 t bs xs"
      "core H1 = (core H)(a \<mapsto> (tbl_addr t, k, ten_hash_function k, d))"
    using init_chained [OF bs a(1,2)] by blast
  have own1: "own_items H1 t (set xs)"
    using own by (rule own_items_core) (use 1(5) a(2) in auto)
  have key1: "item_key H1 x = item_key H x" if "x \<in> set xs" for x
    using that 1(5) a(2) by (auto simp: item_key_def)
  obtain r where r: "ten_hashtable_find t (ten_hash_function k) k H1 = Some r"
      "if r = 0 then \<forall>x\<in>set xs. item_key H1 x \<noteq> k else r \<in> set xs \<and> item_key H1 r = k"
    using find_chained [OF 1(4) own1] by blast
  obtain H2 t2 where 2: "(if r \<noteq> 0 then ten_hashtable_del t r H1 else Some (H1, t)) = Some (H2, t2)"
      "is_table H2 t2 (remove1 r xs)" "tbl_addr t2 = tbl_addr t"
      "core H2 = (if r \<noteq> 0 \<and> destroys H r then (core H1)(r := None) else core H1)"
  proof (cases "r = 0")
    case True
    moreover from this have "remove1 r xs = xs"
      using chained_nonzero [OF bs] by (simp add: remove1_idem)
    ultimately show thesis
      using that [of H1 t] 1(4) own1 n by (auto simp: is_table_def)
  next
    case False
    then have rx: "r \<in> set xs" "r \<noteq> a"
      using r(2) a(2) by auto
    obtain g where g: "H r = Some g"
      using own rx(1) by (rule own_itemsD)
    moreover have "core H1 r = core H r"
      using 1(5) rx(2) by simp
    ultimately obtain g1 where g1: "H1 r = Some g1" "hh_destroy g1 = hh_destroy g"
      by (auto simp: core_def)
    have "is_table H1 t xs"
      using 1(4) own1 n by (auto simp: is_table_def)
    from del_table [OF this rx(1) g1(1)] obtain H2 t2 where "ten_hashtable_del t r H1 = Some (H2, t2)"
      "is_table H2 t2 (remove1 r xs)" "tbl_addr t2 = tbl_addr t"
      "core H2 = (if hh_destroy g1 then (core H1)(r := None) else core H1)"
      by blast
    with False g g1(2) that [of H2 t2] show thesis by auto
  qed
  have ra: "r \<noteq> a"
    using r(2) a(2,3) by (auto split: if_splits)
  have "core H2 a = core H1 a"
    using 2(4) ra by simp
  then obtain h2 where h2: "H2 a = Some h2" "hh_hashval h2 = hh_hashval h1"
    using 1(2) by (auto simp: core_def)
  have a2: "a \<notin> set (remove1 r xs)"
    using a(2) notin_set_remove1 by fast
  obtain bs2 where bs2: "chained H2 t2 bs2 (remove1 r xs)"
    using 2(2) by (auto simp: is_table_def)
  obtain H3 t3 bs3 where 3: "ten_hashtable_add_by_hash_val t2 a (hh_hashval h1) H2 = Some (H3, t3)"
      "chained H3 t3 bs3 (remove1 r xs @ [a])" "core H3 = core H2" "items_cnt t3 = items_cnt t2 + 1"
      "tbl_addr t3 = tbl_addr t2"
    using add_by_hash_val_chained [OF bs2 h2(1) a2 a(3)] h2(2) by auto
  have n3: "items_cnt t3 = length (remove1 r xs @ [a])"
    using 2(2) 3(4) by (simp add: is_table_def)
  have core3: "core H3 = (if r \<noteq> 0 \<and> destroys H r then (core H)(r := None) else core H)
      (a \<mapsto> (tbl_addr t, k, ten_hash_function k, d))"
    using 3(3) 2(4) 1(5) ra by (auto simp: fun_upd_twist)
  have "own_items H2 t2 (set (remove1 r xs))"
    using 2(2) by (simp add: is_table_def)
  then have "own_items H3 t3 (set (remove1 r xs @ [a]))"
    using core3 3(3,5) 2(3) by (simp add: own_items_iff)
  then have table: "is_table H3 t3 (remove1 r xs @ [a])"
    using 3(2) n3 by (auto simp: is_table_def)
  have "ten_hashtable_replace_by_key t a k d H = (do {
      (H, t) \<leftarrow> (if r \<noteq> 0 then ten_hashtable_del t r H1 else Some (H1, t));
      (H, t) \<leftarrow> ten_hashtable_add_by_hash_val t a (hh_hashval h1) H;
      sound_table t H;
      Some (H, t) })"
    using 1(1-3) r(1) a(3) by (simp add: ten_hashtable_replace_by_key_def)
  then have replaced: "ten_hashtable_replace_by_key t a k d H = Some (H3, t3)"
    unfolding 2(1) using 3(1) sound_chained [OF 3(2) n3] by simp
  have found: "if r = 0 then \<forall>x\<in>set xs. item_key H x \<noteq> k else r \<in> set xs \<and> item_key H r = k"
    using r(2) key1 by (cases "r = 0") auto
  have "tbl_addr t3 = tbl_addr t"
    using 3(5) 2(3) by simp
  with replaced found table core3 show ?thesis
    by blast
qed

lemma clear_from_table:
  "is_table H t xs \<Longrightarrow> \<exists>H' t'. clear_from (first xs 0) t H = Some (H', t') \<and> is_table H' t' []
    \<and> core H' = (\<lambda>a. if a \<in> set xs \<and> destroys H a then None else core H a)
    \<and> tbl_addr t' = tbl_addr t"
proof (induction xs arbitrary: H t)
  case Nil
  then show ?case by (simp add: clear_from.simps)
next
  case (Cons x xs)
  obtain bs where bs: "chained H t bs (x # xs)"
    using Cons.prems by (auto simp: is_table_def)
  then obtain h where h: "H x = Some h" "app_next h = first xs 0" "x \<noteq> 0"
    by (auto simp: chained_def order_holds_def dest!: app_links_SomeD)
  obtain H1 t1 where 1: "ten_hashtable_del t x H = Some (H1, t1)" "is_table H1 t1 xs"
      "core H1 = (if hh_destroy h then (core H)(x := None) else core H)" "tbl_addr t1 = tbl_addr t"
    using del_table [OF Cons.prems _ h(1)] by auto
  obtain H2 t2 where 2: "clear_from (first xs 0) t1 H1 = Some (H2, t2)" "is_table H2 t2 []"
      "core H2 = (\<lambda>a. if a \<in> set xs \<and> destroys H1 a then None else core H1 a)"
      "tbl_addr t2 = tbl_addr t1"
    using Cons.IH [OF 1(2)] by blast
  have x: "x \<notin> set xs"
    using chained_distinct [OF bs] by simp
  have "destroys H1 a \<longleftrightarrow> destroys H a" if "a \<in> set xs" for a
    using 1(3) x that by (auto simp: destroys_def)
  then have "core H2 = (\<lambda>a. if a \<in> set (x # xs) \<and> destroys H a then None else core H a)"
    using 2(3) 1(3) h(1) x by (auto simp: fun_eq_iff)
  with h 1 2 show ?case
    by (subst clear_from.simps) simp
qed

lemma clear_table:
  assumes t: "is_table H t xs"
  shows "\<exists>H' t'. ten_hashtable_clear t H = Some (H', t') \<and> is_table H' t' []
    \<and> core H' = (\<lambda>a. if a \<in> set xs \<and> destroys H a then None else core H a)
    \<and> tbl_addr t' = tbl_addr t"
  using clear_from_table [OF t] t
  by (auto simp: ten_hashtable_clear_def ten_hashtable_front_def is_table_def chained_def order_holds_def)

lemma init_table: "is_table H (ten_hashtable_init a) []"
proof -
  have "buckets_hold H 32 (replicate 32 empty_bucket) (\<lambda>_. []) {}"
    by (rule buckets_hold_empty [where k = 5]) simp
  then have "chained H (ten_hashtable_init a) (\<lambda>_. []) []"
    by (simp add: chained_def order_holds_def ten_hashtable_init_def HASH_TBL_INIT_BKT_CNT_def
        HASH_TBL_INIT_BKT_CNT_LOG2_def)
  then show ?thesis
    by (auto simp: is_table_def own_items_def ten_hashtable_init_def)
qed

lemma ends_table:
  assumes "is_table H t xs"
  shows "ten_hashtable_front t = first xs 0" "ten_hashtable_back t = final 0 xs"
    "ten_hashtable_items_cnt t = length xs"
  using assms by (auto simp: is_table_def chained_def order_holds_def ten_hashtable_front_def
      ten_hashtable_back_def ten_hashtable_items_cnt_def)

lemma expand_table:
  assumes t: "is_table H t xs"
  shows "\<exists>H' t'. ten_hashtable_expand_bkts t H = Some (H', t') \<and> is_table H' t' xs \<and> core H' = core H
    \<and> tbl_addr t' = tbl_addr t"
proof -
  obtain bs where bs: "chained H t bs xs" and own: "own_items H t (set xs)" and n: "items_cnt t = length xs"
    using t by (auto simp: is_table_def)
  have b: "buckets_hold H (bkts_cnt t) (bkts t) bs (set xs)" "bkts_cnt t = 2 ^ bkts_cnt_in_log2 t"
    using bs unfolding chained_def by blast+
  obtain H' t' bs' where e: "ten_hashtable_expand_bkts t H = Some (H', t')"
    "buckets_hold H' (bkts_cnt t') (bkts t') bs' (set xs)" "bkts_cnt t' = 2 ^ bkts_cnt_in_log2 t'"
    "rechained (set xs) H H'" "tbl_addr t' = tbl_addr t" "items_cnt t' = items_cnt t"
    "tbl_head t' = tbl_head t" "tbl_tail t' = tbl_tail t"
    using expand_buckets [OF b] by blast
  have "order_holds H' t' xs"
    using bs e(4,7,8) by (simp add: chained_def order_holds_def rechained_def)
  then have "chained H' t' bs' xs"
    unfolding chained_def using e(2,3) by blast
  moreover have "own_items H' t' (set xs)"
    using own e(4,5) by (simp add: own_items_iff rechained_def)
  ultimately show ?thesis
    using e n by (auto simp: is_table_def rechained_def)
qed

end
