(* ===== verification/Hash_Refinement.thy ===== *)
theory Hash_Refinement
  imports Hash_Contract Simulation
begin

text \<open>
  The hash table refines a finite map that remembers the order of insertion: the items with their
  keys, in a list. Keys are distinct as long as items are added under new keys or with
  \<open>ten_hashtable_replace_by_key\<close>.
\<close>

datatype table_op =
    New_item addr
  | Add_item addr key bool
  | Replace_item addr key bool
  | Del_item addr
  | Find_key key
  | Front_item
  | Back_item
  | Items_count
  | Clear_table
  | Expand_table

datatype table_out = Done_table | Item addr | Items nat

section \<open>The code\<close>

record table_state =
  handles :: handles
  table :: ten_hashtable

definition blank_handle :: ten_hashhandle where
  "blank_handle = \<lparr>hh_tbl = 0, app_prev = 0, app_next = 0, hh_prev = 0, hh_next = 0, hh_key = [],
     hh_hashval = 0, hh_destroy = False\<rparr>"

fun table_step :: "table_op \<Rightarrow> table_state \<Rightarrow> (table_out \<times> table_state) run" where
  "table_step (New_item a) c = Some (Done_table, c\<lparr>handles := (handles c)(a \<mapsto> blank_handle)\<rparr>)"
| "table_step (Add_item a k d) c = do {
     (H, t) \<leftarrow> ten_hashtable_add_by_key (table c) a k d (handles c);
     Some (Done_table, c\<lparr>handles := H, table := t\<rparr>) }"
| "table_step (Replace_item a k d) c = do {
     (H, t) \<leftarrow> ten_hashtable_replace_by_key (table c) a k d (handles c);
     Some (Done_table, c\<lparr>handles := H, table := t\<rparr>) }"
| "table_step (Del_item a) c = do {
     (H, t) \<leftarrow> ten_hashtable_del (table c) a (handles c);
     Some (Done_table, c\<lparr>handles := H, table := t\<rparr>) }"
| "table_step (Find_key k) c = do {
     a \<leftarrow> ten_hashtable_find_by_key (table c) k (handles c); Some (Item a, c) }"
| "table_step Front_item c = Some (Item (ten_hashtable_front (table c)), c)"
| "table_step Back_item c = Some (Item (ten_hashtable_back (table c)), c)"
| "table_step Items_count c = Some (Items (ten_hashtable_items_cnt (table c)), c)"
| "table_step Clear_table c = do {
     (H, t) \<leftarrow> ten_hashtable_clear (table c) (handles c);
     Some (Done_table, c\<lparr>handles := H, table := t\<rparr>) }"
| "table_step Expand_table c = do {
     (H, t) \<leftarrow> ten_hashtable_expand_bkts (table c) (handles c);
     Some (Done_table, c\<lparr>handles := H, table := t\<rparr>) }"

section \<open>The map\<close>

text \<open>The items in memory, and those of the table with their keys and whether they are destroyed.\<close>

type_synonym entry = "addr \<times> key \<times> bool"

record plain_table =
  memory :: "addr \<Rightarrow> bool"
  entries :: "entry list"

definition entry_key :: "entry \<Rightarrow> key" where "entry_key e = fst (snd e)"
definition entry_destroyed :: "entry \<Rightarrow> bool" where "entry_destroyed e = snd (snd e)"

definition lookup :: "entry list \<Rightarrow> key \<Rightarrow> addr option" where
  "lookup es = map_of (map (\<lambda>e. (entry_key e, fst e)) es)"

definition address_or_null :: "addr option \<Rightarrow> addr" where
  "address_or_null r = (case r of None \<Rightarrow> 0 | Some a \<Rightarrow> a)"

text \<open>Without the items of a set; those with a destroy function are freed.\<close>

definition without :: "(entry \<Rightarrow> bool) \<Rightarrow> plain_table \<Rightarrow> plain_table" where
  "without P p = \<lparr>memory = (\<lambda>a. memory p a \<and> \<not> (\<exists>e\<in>set (entries p). fst e = a \<and> P e \<and> entry_destroyed e)),
     entries = filter (\<lambda>e. \<not> P e) (entries p)\<rparr>"

definition free_item :: "addr \<Rightarrow> plain_table \<Rightarrow> bool" where
  "free_item a p \<longleftrightarrow> a \<noteq> 0 \<and> memory p a \<and> a \<notin> fst ` set (entries p)"

fun table_spec :: "table_op \<Rightarrow> plain_table \<Rightarrow> (table_out \<times> plain_table) option" where
  "table_spec (New_item a) p =
     (if a \<noteq> 0 \<and> \<not> memory p a then Some (Done_table, p\<lparr>memory := (memory p)(a := True)\<rparr>) else None)"
| "table_spec (Add_item a k d) p =
     (if free_item a p \<and> lookup (entries p) k = None
      then Some (Done_table, p\<lparr>entries := entries p @ [(a, k, d)]\<rparr>) else None)"
| "table_spec (Replace_item a k d) p =
     (if free_item a p
      then Some (Done_table,
        (without (\<lambda>e. entry_key e = k) p)\<lparr>entries := filter (\<lambda>e. entry_key e \<noteq> k) (entries p) @ [(a, k, d)]\<rparr>)
      else None)"
| "table_spec (Del_item a) p =
     (if a \<in> fst ` set (entries p) then Some (Done_table, without (\<lambda>e. fst e = a) p) else None)"
| "table_spec (Find_key k) p = Some (Item (address_or_null (lookup (entries p) k)), p)"
| "table_spec Front_item p = Some (Item (first (map fst (entries p)) 0), p)"
| "table_spec Back_item p = Some (Item (final 0 (map fst (entries p))), p)"
| "table_spec Items_count p = Some (Items (length (entries p)), p)"
| "table_spec Clear_table p = Some (Done_table, without (\<lambda>e. True) p)"
| "table_spec Expand_table p = Some (Done_table, p)"

section \<open>The simulation\<close>

definition entries_hold :: "handles \<Rightarrow> addr \<Rightarrow> entry list \<Rightarrow> bool" where
  "entries_hold H self es \<longleftrightarrow>
     (\<forall>(a, k, d)\<in>set es. core H a = Some (self, k, ten_hash_function k, d)) \<and> distinct (map entry_key es)"

definition maps_to :: "table_state \<Rightarrow> plain_table \<Rightarrow> bool" where
  "maps_to c p \<longleftrightarrow>
     is_table (handles c) (table c) (map fst (entries p))
     \<and> entries_hold (handles c) (tbl_addr (table c)) (entries p)
     \<and> (\<forall>a. memory p a \<longleftrightarrow> core (handles c) a \<noteq> None)"

lemma maps_toD:
  assumes "maps_to c p"
  shows "is_table (handles c) (table c) (map fst (entries p))"
    "entries_hold (handles c) (tbl_addr (table c)) (entries p)"
    "memory p a \<longleftrightarrow> core (handles c) a \<noteq> None"
  using assms by (simp_all add: maps_to_def)

lemma table_distinct: "is_table H t xs \<Longrightarrow> distinct xs"
  by (auto simp: is_table_def dest: chained_distinct)

lemma free_itemD:
  assumes c: "maps_to c p" and "free_item a p"
  obtains h where "handles c a = Some h" "a \<notin> set (map fst (entries p))" "a \<noteq> 0"
  using assms maps_toD(3) [OF c, of a] by (auto simp: free_item_def core_def)

lemma entry_core:
  assumes c: "maps_to c p" and "e \<in> set (entries p)"
  shows "item_key (handles c) (fst e) = entry_key e" "destroys (handles c) (fst e) = entry_destroyed e"
    "\<exists>h. handles c (fst e) = Some h"
proof -
  obtain a k d where e: "e = (a, k, d)"
    using prod_cases3 .
  have "core (handles c) a = Some (tbl_addr (table c), k, ten_hash_function k, d)"
    using maps_toD(2) [OF c] assms(2) e by (auto simp: entries_hold_def)
  then show "item_key (handles c) (fst e) = entry_key e" "destroys (handles c) (fst e) = entry_destroyed e"
    "\<exists>h. handles c (fst e) = Some h"
    by (auto simp: e item_key_def destroys_def entry_key_def entry_destroyed_def core_def)
qed

lemma lookup_None: "lookup es k = None \<longleftrightarrow> (\<forall>e\<in>set es. entry_key e \<noteq> k)"
  by (auto simp: lookup_def map_of_eq_None_iff image_image)

lemma lookup_Some:
  "distinct (map entry_key es) \<Longrightarrow> lookup es k = Some a \<longleftrightarrow> (\<exists>e\<in>set es. entry_key e = k \<and> fst e = a)"
  by (force simp: lookup_def map_of_eq_Some_iff comp_def)

text \<open>Dropping entries.\<close>

lemma remove1_entries:
  "distinct (map fst es) \<Longrightarrow> remove1 a (map fst es) = map fst (filter (\<lambda>e. fst e \<noteq> a) es)"
proof (induction es)
  case (Cons e es)
  have "filter (\<lambda>e. fst e \<noteq> a) es = es" if "a = fst e"
  proof -
    have "fst e \<notin> fst ` set es"
      using Cons.prems by simp
    with that show ?thesis
      by (intro filter_True ballI) (metis imageI)
  qed
  with Cons show ?case by auto
qed simp

lemma entry_unique:
  "distinct (map entry_key es) \<Longrightarrow> distinct (map fst es) \<Longrightarrow> r \<in> set es \<Longrightarrow> e \<in> set es \<Longrightarrow>
    fst e = fst r \<longleftrightarrow> entry_key e = entry_key r"
  by (metis (no_types, lifting) distinct_map inj_onD)

lemma entries_hold_filter: "entries_hold H s es \<Longrightarrow> entries_hold H s (filter P es)"
  by (auto simp: entries_hold_def distinct_map_filter)

lemma entries_hold_frame:
  "entries_hold H s es \<Longrightarrow> (\<And>a. a \<in> fst ` set es \<Longrightarrow> core H' a = core H a) \<Longrightarrow> entries_hold H' s es"
  unfolding entries_hold_def by (fastforce simp: image_iff)

lemma entries_hold_snoc:
  assumes "entries_hold H s es" and "\<And>e. e \<in> set es \<Longrightarrow> entry_key e \<noteq> k"
    and "core H a = Some (s, k, ten_hash_function k, d)"
  shows "entries_hold H s (es @ [(a, k, d)])"
  using assms by (auto simp: entries_hold_def entry_key_def)

lemma dropped:
  assumes c: "maps_to c p"
    and core: "\<And>a. core H a = (if \<exists>e\<in>set (entries p). fst e = a \<and> P e \<and> entry_destroyed e then None
      else core (handles c) a)"
  shows "entries_hold H (tbl_addr (table c)) (entries (without P p))"
    and "memory (without P p) x \<longleftrightarrow> core H x \<noteq> None"
proof -
  have d: "distinct (map fst (entries p))"
    using table_distinct [OF maps_toD(1) [OF c]] .
  have kept: "core H (fst e) = core (handles c) (fst e)" if "e \<in> set (entries p)" "\<not> P e" for e
  proof -
    have "e' = e" if "e' \<in> set (entries p)" "fst e' = fst e" for e'
      using d that \<open>e \<in> set (entries p)\<close> by (metis distinct_map inj_onD)
    with that(2) show ?thesis by (auto simp: core)
  qed
  show "entries_hold H (tbl_addr (table c)) (entries (without P p))"
    unfolding without_def plain_table.simps
    by (rule entries_hold_frame [OF entries_hold_filter [OF maps_toD(2) [OF c]]])
      (use kept in fastforce)
  show "memory (without P p) x \<longleftrightarrow> core H x \<noteq> None"
    using maps_toD(3) [OF c] unfolding without_def plain_table.simps core by auto
qed

lemma drop_entries:
  assumes "maps_to c p" and "is_table H t (map fst (filter (\<lambda>e. \<not> P e) (entries p)))"
    and "\<And>a. core H a = (if \<exists>e\<in>set (entries p). fst e = a \<and> P e \<and> entry_destroyed e then None
      else core (handles c) a)"
    and "tbl_addr t = tbl_addr (table c)"
  shows "maps_to (c\<lparr>handles := H, table := t\<rparr>) (without P p)"
  using assms(2,4) dropped [OF assms(1,3)] unfolding maps_to_def by (simp add: without_def)

definition table_simulated :: "table_op \<Rightarrow> bool" where
  "table_simulated x \<longleftrightarrow> (\<forall>c p out p'. maps_to c p \<longrightarrow> table_spec x p = Some (out, p') \<longrightarrow>
     (\<exists>c'. table_step x c = Some (out, c') \<and> maps_to c' p'))"

lemma table_simulatedI:
  "(\<And>c p out p'. maps_to c p \<Longrightarrow> table_spec x p = Some (out, p') \<Longrightarrow>
      \<exists>c'. table_step x c = Some (out, c') \<and> maps_to c' p') \<Longrightarrow> table_simulated x"
  by (simp add: table_simulated_def)

lemma simulated_new: "table_simulated (New_item a)"
proof (rule table_simulatedI)
  fix c p out p' assume c: "maps_to c p" and spec: "table_spec (New_item a) p = Some (out, p')"
  then have "\<not> memory p a" and p': "p' = p\<lparr>memory := (memory p)(a := True)\<rparr>" "out = Done_table"
    by (simp_all split: if_splits)
  then have a: "core (handles c) a = None"
    using maps_toD(3) [OF c, of a] by blast
  let ?H = "(handles c)(a \<mapsto> blank_handle)"
  have outside: "a \<notin> fst ` set (entries p)"
  proof
    assume "a \<in> fst ` set (entries p)"
    then obtain e where "e \<in> set (entries p)" "fst e = a" by auto
    with entry_core(3) [OF c] a show False by (fastforce simp: core_def)
  qed
  obtain bs where bs: "chained (handles c) (table c) bs (map fst (entries p))"
    and n: "items_cnt (table c) = length (map fst (entries p))"
    and own: "own_items (handles c) (table c) (set (map fst (entries p)))"
    using maps_toD(1) [OF c] by (auto simp: is_table_def)
  have "chained ?H (table c) bs (map fst (entries p))"
    by (rule chained_frame [OF bs]) (use outside in \<open>auto simp: hash_of_def\<close>)
  moreover have "own_items ?H (table c) (set (map fst (entries p)))"
    by (rule own_items_core [OF own]) (use outside in auto)
  ultimately have "is_table ?H (table c) (map fst (entries p))"
    using n by (auto simp: is_table_def)
  moreover have "entries_hold ?H (tbl_addr (table c)) (entries p)"
    by (rule entries_hold_frame [OF maps_toD(2) [OF c]]) (use outside in auto)
  ultimately have "maps_to (c\<lparr>handles := ?H\<rparr>) p'"
    using maps_toD(3) [OF c] by (simp add: maps_to_def p'(1))
  then show "\<exists>c'. table_step (New_item a) c = Some (out, c') \<and> maps_to c' p'"
    by (simp add: p'(2))
qed

text \<open>The entry that an addition puts at the end.\<close>

lemma append_entry:
  assumes t: "is_table H t (map fst (entries p) @ [a])" and "tbl_addr t = self"
    and e: "entries_hold H0 self (entries p)" "\<And>x. memory p x \<longleftrightarrow> core H0 x \<noteq> None"
    and k: "\<And>e. e \<in> set (entries p) \<Longrightarrow> entry_key e \<noteq> k" and a: "memory p a" "a \<notin> fst ` set (entries p)"
    and core: "core H = (core H0)(a \<mapsto> (self, k, ten_hash_function k, d))"
  shows "maps_to (c\<lparr>handles := H, table := t\<rparr>) (p\<lparr>entries := entries p @ [(a, k, d)]\<rparr>)"
proof -
  have "entries_hold H self (entries p)"
    by (rule entries_hold_frame [OF e(1)]) (use a(2) core in auto)
  then have "entries_hold H self (entries p @ [(a, k, d)])"
    by (rule entries_hold_snoc) (use k core in auto)
  with t assms(2) show ?thesis
    using e(2) a(1) core by (auto simp: maps_to_def)
qed

lemma simulated_add: "table_simulated (Add_item a k d)"
proof (rule table_simulatedI)
  fix c p out p' assume c: "maps_to c p" and spec: "table_spec (Add_item a k d) p = Some (out, p')"
  then have a: "free_item a p" and k: "\<And>e. e \<in> set (entries p) \<Longrightarrow> entry_key e \<noteq> k"
    and p': "p' = p\<lparr>entries := entries p @ [(a, k, d)]\<rparr>" "out = Done_table"
    by (auto simp: lookup_None split: if_splits)
  obtain h where h: "handles c a = Some h" "a \<notin> set (map fst (entries p))" "a \<noteq> 0"
    using free_itemD [OF c a] .
  obtain H t where 1: "ten_hashtable_add_by_key (table c) a k d (handles c) = Some (H, t)"
      "is_table H t (map fst (entries p) @ [a])"
      "core H = (core (handles c))(a \<mapsto> (tbl_addr (table c), k, ten_hash_function k, d))"
      "tbl_addr t = tbl_addr (table c)"
    using add_by_key_table [OF maps_toD(1) [OF c] h] by blast
  have "maps_to (c\<lparr>handles := H, table := t\<rparr>) p'"
    unfolding p'(1)
    by (rule append_entry [OF 1(2,4) maps_toD(2,3) [OF c] k _ _ 1(3)]) (use a in \<open>auto simp: free_item_def\<close>)
  with 1(1) p'(2) show "\<exists>c'. table_step (Add_item a k d) c = Some (out, c') \<and> maps_to c' p'"
    by simp
qed

lemma simulated_replace: "table_simulated (Replace_item a k d)"
proof (rule table_simulatedI)
  fix c p out p' assume c: "maps_to c p" and spec: "table_spec (Replace_item a k d) p = Some (out, p')"
  define q where "q = without (\<lambda>e. entry_key e = k) p"
  have a: "free_item a p" and p': "p' = q\<lparr>entries := entries q @ [(a, k, d)]\<rparr>" "out = Done_table"
    using spec by (auto simp: q_def without_def split: if_splits)
  obtain h where h: "handles c a = Some h" "a \<notin> set (map fst (entries p))" "a \<noteq> 0"
    using free_itemD [OF c a] .
  let ?es = "entries p" and ?self = "tbl_addr (table c)"
  obtain r H t where 1: "ten_hashtable_replace_by_key (table c) a k d (handles c) = Some (H, t)"
      "if r = 0 then \<forall>x\<in>set (map fst ?es). item_key (handles c) x \<noteq> k
       else r \<in> set (map fst ?es) \<and> item_key (handles c) r = k"
      "is_table H t (remove1 r (map fst ?es) @ [a])" "tbl_addr t = ?self"
      "core H = (if r \<noteq> 0 \<and> destroys (handles c) r then (core (handles c))(r := None) else core (handles c))
        (a \<mapsto> (?self, k, ten_hash_function k, d))"
    using replace_by_key_table [OF maps_toD(1) [OF c] h] by blast
  have d: "distinct (map fst ?es)" "distinct (map entry_key ?es)"
    using table_distinct [OF maps_toD(1) [OF c]] maps_toD(2) [OF c] by (simp_all add: entries_hold_def)
  have nz: "0 \<notin> fst ` set ?es"
    using maps_toD(1) [OF c] chained_nonzero unfolding is_table_def by (metis list.set_map)
  have same: "fst e = r \<longleftrightarrow> entry_key e = k" if "e \<in> set ?es" for e
  proof (cases "r = 0")
    case True
    then show ?thesis
      using 1(2) entry_core(1) [OF c that] that nz by (auto simp: image_iff)
  next
    case False
    then obtain e' where e': "e' \<in> set ?es" "r = fst e'" "entry_key e' = k"
      using 1(2) entry_core(1) [OF c] by auto
    show ?thesis
      using entry_unique [OF d(2,1) e'(1) that] e'(2,3) by simp
  qed
  have q_entries: "map fst (entries q) = remove1 r (map fst ?es)"
  proof -
    have "filter (\<lambda>e. entry_key e \<noteq> k) ?es = filter (\<lambda>e. fst e \<noteq> r) ?es"
      using same by (intro filter_cong refl) blast
    then show ?thesis
      by (simp add: q_def without_def remove1_entries [OF d(1)])
  qed
  define H0 where "H0 = (\<lambda>x. if \<exists>e\<in>set ?es. fst e = x \<and> entry_key e = k \<and> entry_destroyed e then None
      else handles c x)"
  have H0: "core H0 x = (if \<exists>e\<in>set ?es. fst e = x \<and> entry_key e = k \<and> entry_destroyed e then None
      else core (handles c) x)" for x
    unfolding core_def H0_def by auto
  have freed: "(\<exists>e\<in>set ?es. fst e = x \<and> entry_key e = k \<and> entry_destroyed e)
      \<longleftrightarrow> r \<noteq> 0 \<and> destroys (handles c) r \<and> x = r" for x
  proof (cases "r = 0")
    case True
    then show ?thesis
      using 1(2) entry_core(1) [OF c] by auto
  next
    case False
    then obtain e where e: "e \<in> set ?es" "fst e = r"
      using 1(2) by auto
    have "e' = e" if "e' \<in> set ?es" "fst e' = r" for e'
      using d(1) that e by (metis distinct_map inj_onD)
    then show ?thesis
      using False same e entry_core(2) [OF c e(1)] by metis
  qed
  have core_H0: "core H = (core H0)(a \<mapsto> (?self, k, ten_hash_function k, d))"
  proof (rule ext)
    fix x
    show "core H x = ((core H0)(a \<mapsto> (?self, k, ten_hash_function k, d))) x"
      unfolding 1(5) fun_upd_apply H0 freed by (cases "r \<noteq> 0 \<and> destroys (handles c) r") auto
  qed
  have "maps_to (c\<lparr>handles := H, table := t\<rparr>) p'"
    unfolding p'(1)
  proof (rule append_entry [OF _ 1(4) _ _ _ _ _ core_H0])
    show "is_table H t (map fst (entries q) @ [a])"
      using 1(3) q_entries by simp
    show "entries_hold H0 ?self (entries q)" "\<And>x. memory q x \<longleftrightarrow> core H0 x \<noteq> None"
      unfolding q_def using dropped [OF c H0] by blast+
  qed (use a in \<open>auto simp: q_def without_def free_item_def\<close>)
  with 1(1) p'(2) show "\<exists>c'. table_step (Replace_item a k d) c = Some (out, c') \<and> maps_to c' p'"
    by simp
qed

lemma simulated_del: "table_simulated (Del_item a)"
proof (rule table_simulatedI)
  fix c p out p' assume c: "maps_to c p" and spec: "table_spec (Del_item a) p = Some (out, p')"
  then have a: "a \<in> set (map fst (entries p))" and p': "p' = without (\<lambda>e. fst e = a) p" "out = Done_table"
    by (auto split: if_splits)
  have d: "distinct (map fst (entries p))"
    using table_distinct [OF maps_toD(1) [OF c]] .
  obtain e where e: "e \<in> set (entries p)" "a = fst e"
    using a by auto
  obtain h where h: "handles c a = Some h"
    using entry_core(3) [OF c e(1)] e(2) by blast
  obtain H t where 1: "ten_hashtable_del (table c) a (handles c) = Some (H, t)"
      "is_table H t (remove1 a (map fst (entries p)))"
      "core H = (if hh_destroy h then (core (handles c))(a := None) else core (handles c))"
      "tbl_addr t = tbl_addr (table c)"
    using del_table [OF maps_toD(1) [OF c] a h] by blast
  have destroyed: "hh_destroy h \<longleftrightarrow> (\<exists>e\<in>set (entries p). fst e = a \<and> entry_destroyed e)"
    using entry_core(2) [OF c] e h by (metis destroys_Some)
  have "core H x = (if \<exists>e\<in>set (entries p). fst e = x \<and> fst e = a \<and> entry_destroyed e then None
      else core (handles c) x)" for x
    using 1(3) destroyed by auto
  from drop_entries [OF c _ this 1(4)] 1(2) have "maps_to (c\<lparr>handles := H, table := t\<rparr>) p'"
    by (simp add: p'(1) remove1_entries [OF d])
  with 1(1) p'(2) show "\<exists>c'. table_step (Del_item a) c = Some (out, c') \<and> maps_to c' p'"
    by simp
qed

lemma simulated_clear_table: "table_simulated Clear_table"
proof (rule table_simulatedI)
  fix c p out p' assume c: "maps_to c p" and spec: "table_spec Clear_table p = Some (out, p')"
  obtain H t where 1: "ten_hashtable_clear (table c) (handles c) = Some (H, t)" "is_table H t []"
      "core H = (\<lambda>a. if a \<in> set (map fst (entries p)) \<and> destroys (handles c) a then None else core (handles c) a)"
      "tbl_addr t = tbl_addr (table c)"
    using clear_table [OF maps_toD(1) [OF c]] by blast
  have "core H x = (if \<exists>e\<in>set (entries p). fst e = x \<and> True \<and> entry_destroyed e then None
      else core (handles c) x)" for x
    unfolding 1(3) using entry_core(2) [OF c] by (auto simp: image_iff)
  from drop_entries [OF c _ this 1(4)] 1(1,2) spec
  show "\<exists>c'. table_step Clear_table c = Some (out, c') \<and> maps_to c' p'"
    by simp
qed

lemma simulated_find_key: "table_simulated (Find_key k)"
proof (rule table_simulatedI)
  fix c p out p' assume c: "maps_to c p" and spec: "table_spec (Find_key k) p = Some (out, p')"
  obtain r where r: "ten_hashtable_find_by_key (table c) k (handles c) = Some r"
      "if r = 0 then \<forall>x\<in>set (map fst (entries p)). item_key (handles c) x \<noteq> k
       else r \<in> set (map fst (entries p)) \<and> item_key (handles c) r = k"
    using find_table [OF maps_toD(1) [OF c]] by blast
  have d: "distinct (map entry_key (entries p))"
    using maps_toD(2) [OF c] by (simp add: entries_hold_def)
  have "address_or_null (lookup (entries p) k) = r"
  proof (cases "r = 0")
    case True
    then have "lookup (entries p) k = None"
      using r(2) entry_core(1) [OF c] by (auto simp: lookup_None)
    with True show ?thesis by (simp add: address_or_null_def)
  next
    case False
    then have "lookup (entries p) k = Some r"
      using r(2) entry_core(1) [OF c] unfolding lookup_Some [OF d] by auto
    then show ?thesis by (simp add: address_or_null_def)
  qed
  with r(1) spec c show "\<exists>c'. table_step (Find_key k) c = Some (out, c') \<and> maps_to c' p'"
    by simp
qed

lemma simulated_ends: "table_simulated Front_item" "table_simulated Back_item" "table_simulated Items_count"
  by (auto intro!: table_simulatedI simp: ends_table [OF maps_toD(1)])

lemma simulated_expand: "table_simulated Expand_table"
proof (rule table_simulatedI)
  fix c p out p' assume c: "maps_to c p" and spec: "table_spec Expand_table p = Some (out, p')"
  obtain H t where 1: "ten_hashtable_expand_bkts (table c) (handles c) = Some (H, t)"
      "is_table H t (map fst (entries p))" "core H = core (handles c)" "tbl_addr t = tbl_addr (table c)"
    using expand_table [OF maps_toD(1) [OF c]] by blast
  then have "maps_to (c\<lparr>handles := H, table := t\<rparr>) p"
    using c by (simp add: maps_to_def entries_hold_def)
  with 1(1) spec show "\<exists>c'. table_step Expand_table c = Some (out, c') \<and> maps_to c' p'"
    by simp
qed

lemma all_table_simulated: "table_simulated x"
  by (cases x) (simp_all add: simulated_new simulated_add simulated_replace simulated_del simulated_find_key
      simulated_ends simulated_clear_table simulated_expand)

interpretation tables: simulation table_step table_spec maps_to
  by unfold_locales (use all_table_simulated in \<open>auto simp: table_simulated_def\<close>)

text \<open>C30: the hash table and the map, over every sequence of operations.\<close>

lemma hash_table_refines:
  assumes "maps_to c p" and "perform table_spec ops p = Some (outs, p')"
  shows "\<exists>c'. perform table_step ops c = Some (outs, c') \<and> maps_to c' p'"
  using assms by (rule tables.runs_simulate)

definition empty_table :: table_state where
  "empty_table = \<lparr>handles = (\<lambda>_. None), table = ten_hashtable_init 1\<rparr>"

definition no_entries :: plain_table where
  "no_entries = \<lparr>memory = (\<lambda>_. False), entries = []\<rparr>"

lemma maps_to_empty: "maps_to empty_table no_entries"
  using init_table by (simp add: maps_to_def empty_table_def no_entries_def entries_hold_def core_def)

definition example_table_ops :: "table_op list" where
  "example_table_ops = [New_item 10, New_item 20, New_item 30, Add_item 10 [1] True, Add_item 20 [2, 3] False,
     Expand_table, Find_key [2, 3], Replace_item 30 [1] False, Find_key [1], Front_item, Back_item,
     Del_item 20, Find_key [2, 3], Items_count, Clear_table, Items_count]"

lemma hash_table_refines_witness:
  "\<exists>c' p'. perform table_step example_table_ops empty_table =
      Some ([Done_table, Done_table, Done_table, Done_table, Done_table, Done_table, Item 20, Done_table,
        Item 30, Item 20, Item 30, Done_table, Item 0, Items 1, Done_table, Items 0], c') \<and> maps_to c' p'"
proof -
  have "\<exists>p'. perform table_spec example_table_ops no_entries =
      Some ([Done_table, Done_table, Done_table, Done_table, Done_table, Done_table, Item 20, Done_table,
        Item 30, Item 20, Item 30, Done_table, Item 0, Items 1, Done_table, Items 0], p')"
    by (simp add: example_table_ops_def no_entries_def free_item_def lookup_def entry_key_def without_def
        entry_destroyed_def address_or_null_def)
  with hash_table_refines [OF maps_to_empty] show ?thesis
    by metis
qed

end
