(* ===== verification/Spec2Isabelle.thy ===== *)
theory Spec2Isabelle
  imports Value_Access Value_Path Path_Contract Start_Graph Schema_Contract Schema_Store Msg_Conversion Extension_Round_Trip Thread_Closing Engine_Runs List_Refinement Hash_Refinement
begin

text \<open>
  The core of the TEN framework (\<open>src/core\<close>, written in C).

  \<^bold>\<open>The program.\<close> An app of the framework runs graphs of extensions. An extension is user code that
  sends and receives messages: commands, which are answered by results, and data, video frames and audio
  frames, which are not. \<open>ten_utils\<close> is the library below: containers, byte buffers, dynamically typed
  values with conversions, paths and merging, and schemas for values. \<open>ten_runtime\<close> is the runtime: each
  extension has a path table, which remembers where the commands it sent and received go, a schema
  store, which checks the messages that cross its border, and message conversions; the extensions of a group
  share an extension thread with a run loop; the threads of a graph belong to an engine and the engines to
  an app.

  \<^bold>\<open>What models what\<close> (theories in the order of their imports; paths below \<open>core/src\<close>).
  \<^item> \<open>Prelude\<close>: the vocabulary. A value of type \<open>'a run\<close> is one call of a C function: \<open>Some r\<close> returns
    \<open>r\<close>, and \<open>None\<close> is an assertion (\<open>TEN_ASSERT\<close>) that failed or undefined behaviour of C. That a run is
    \<open>Some\<close> is therefore a theorem about the code, and the properties say so wherever they claim that something
    returns. Errors are values, \<open>ten_error + 'a\<close>.
  \<^item> \<open>Linked_Store\<close>, \<open>Ten_List\<close>: \<open>ten_utils/container/list*.c\<close>, an intrusive doubly linked list with the
    pointers of the nodes in an explicit store. \<open>Simulation\<close> is the locale of refinements and
    \<open>List_Refinement\<close> instantiates it: every sequence of operations does what it does on plain lists.
  \<^item> \<open>Hash_Table\<close>: \<open>hash_table.c\<close>, \<open>hash_bucket.c\<close>, \<open>hash_handle.c\<close> in the same store, with Jenkins' hash on
    32 bit words. \<open>Hash_Contract\<close> proves the invariant of the two chains that share each handle and
    \<open>Hash_Refinement\<close> the refinement of a finite map that keeps the order of insertion.
  \<^item> \<open>Ten_Error\<close>, \<open>Ten_Type\<close>, \<open>Ten_Buf\<close>: \<open>lib/sys/general/error.c\<close>, \<open>value/type.c\<close>, \<open>lib/sys/general/buf.c\<close>.
  \<^item> \<open>Ten_Float\<close>: the binary32 and binary64 numbers, as far as the values need them: exact rounding of integers
    and of a double to a float, comparison, conversion. It stands for the host's arithmetic, which the C code uses.
  \<^item> \<open>Ten_Value\<close>, \<open>Value_Convert\<close>, \<open>Value_Access\<close>, \<open>Value_Object\<close>, \<open>Value_Path\<close>: \<open>ten_utils/value\<close>. The tag and
    the union of \<open>ten_value_t\<close> are one datatype, machine integers are words of their width.
  \<^item> \<open>Ten_Schema\<close> and \<open>Schema_Contract\<close>: \<open>ten_utils/schema\<close>; the specification of validation is a predicate on
    values that reads the schema declaratively.
  \<^item> \<open>Ten_Loc\<close>, \<open>Path_Table\<close>: \<open>common/loc.c\<close> and \<open>ten_runtime/path\<close> with the path timers of
    \<open>extension/internal/path_timer.c\<close>. \<open>Path_Flow\<close> states the contract of a table as a locale, interpreted on
    the model, and the states its owner can reach; \<open>Path_Contract\<close> has the theorems on the two result policies.
  \<^item> \<open>Ten_Frame\<close>, \<open>Ten_Msg\<close>, \<open>Msg_Conversion\<close>: \<open>ten_runtime/msg\<close> and \<open>ten_runtime/msg_conversion\<close>.
  \<^item> \<open>Schema_Store\<close>: \<open>ten_runtime/schema_store\<close>.
  \<^item> \<open>Graph_Info\<close>, \<open>Graph_Value\<close>, \<open>Graph_Contract\<close>: the description of a graph
    (\<open>extension/extension_info\<close>, \<open>extension/msg_dest_info\<close>, \<open>extension_group/extension_group_info\<close>), how it is copied,
    and how it is written to and read from values (\<open>msg/cmd_base/cmd/start_graph/field/extension_info.c\<close>). A weak
    pointer to a description is its position in the list. \<open>Start_Graph\<close>: the rest of a start-graph command
    (\<open>msg/cmd_base/cmd/start_graph/cmd.c\<close>), the missing groups and the apps to connect to.
  \<^item> \<open>Extension_Msg\<close>, \<open>Extension_Contract\<close>, \<open>Extension_Safety\<close>, \<open>Extension_Round_Trip\<close>: sending, arrival,
    results (\<open>extension/extension.c\<close>, \<open>extension/msg_handling.c\<close>, \<open>ten_env/internal\<close>), and two extensions
    together.
  \<^item> \<open>Extension_Life\<close>, \<open>Extension_Thread\<close>, \<open>Thread_Order\<close>, \<open>Thread_Runs\<close>, \<open>Thread_Closing\<close>: the life cycle of an
    extension (\<open>extension/ten_env/on_xxx.c\<close>, \<open>extension/internal/close.c\<close>) and the extension thread
    (\<open>ten_runtime/extension_thread\<close>) as a step relation: a step takes one task of the run loop or is an event
    from outside, and the invariant is proved by rule induction over all runs.
  \<^item> \<open>Engine_State\<close>, \<open>Engine_Msg\<close>, \<open>Engine_Contract\<close>, \<open>Engine_Runs\<close>: the engine that runs a graph
    (\<open>engine/internal\<close>, \<open>engine/msg_interface\<close>) with its extension context
    (\<open>extension_context/extension_context.c\<close>), the remotes and connections to other apps (\<open>remote/remote.c\<close>,
    \<open>connection/connection.c\<close>) and the timers (\<open>timer/timer.c\<close>). A call that dispatches another message returns it as an
    action, done before anything else; a step is one action, one task of the run loop, or a report of a thread, a
    connection, a protocol, an addon or a timer. \<open>Engine_Contract\<close> says what each call leaves alone and proves the
    invariants of all runs, \<open>Engine_Runs\<close> the properties and concrete runs.

  \<^bold>\<open>How state and calls are represented.\<close> Structures are records with the fields of the code; what a call
  reads and changes is passed and returned. A table or list is a list in the code's order, because the code
  searches from the front and duplicates are possible. Function pointers and the handlers of users are numbers,
  0 being the null pointer. What a function does outside its own state, such as handing a message to the engine
  or calling a callback, is a list of effects in the order in which they happen; in a thread the effects
  are carried out at once, depth first, as the nested calls of the code are.

  \<^bold>\<open>Bounds and fuel.\<close> A loop that may not end is a \<open>partial_function (option)\<close>, and the property then says that
  it returns (\<open>buf_reserve_returns\<close>, the validation and the adjustment of values). The nested calls of an engine
  are such a loop, \<open>perform_all\<close>, and \<open>engine_delivers_in_order\<close> says what it returns. No loop has fuel. Sizes of
  buffers are 64 bit words, deadlines saturate as the code makes them, the number of buckets of a
  hash table is a 32 bit word and the expansion of a table stops where the code stops it.

  \<^bold>\<open>What the groups of lemmas show.\<close> For the containers: refinement of lists and maps, with every pointer of
  the code. For values: which conversions succeed, which value they give and which error they report; paths are
  parsed back from their text; the two merges agree. For schemas: validation decides the declarative reading,
  adjustment gives the types of the schema, compatibility is sound. For the path table: in every state that
  calls of the owner reach, no assertion fails; with \<open>FIRST_ERROR_OR_LAST_OK\<close> exactly one final result leaves a
  group and with \<open>EACH_OK_AND_ERROR\<close> every one does, the last marked as completing. For an extension: a
  message on arrival or departure is handled without a failed assertion, and a command that one
  extension sends and another answers comes back to the handler. For a thread: the callbacks of an extension
  are called in the order of the life cycle, once each, in every run. For the description of a graph: writing and
  reading it gives it back, copying shares the conversions, the groups create exactly the extensions, and an app connects to
  exactly its neighbours. For an engine: in every run it keeps the messages for the graph in order until the graph is ready
  and then hands them on in order, it reports its end only when nothing is left, it does end however its threads
  interleave, and of two connections between two apps exactly one is kept.

  \<^bold>\<open>Not modelled.\<close> The JSON library and the code that only calls it; memory allocation, reference counts and
  magic-number signatures (an object is a value here, so its integrity check holds); threads,
  locks and the event loop, of which the model keeps the order of the tasks of one run loop; input and
  output, protocols and the migration of connections between threads; the app; the bindings to other languages, the logs and the platform code.
  The manifest of the development lists each of them with its files and the reason.
\<close>

end
